(* ===== verification/Decision_Table.thy ===== *)
theory Decision_Table
  imports Prelude
begin

text \<open>
  The permission table of \<open>src/policy/decision-table.ts\<close>: channels, rules, layered tables and the
  matcher.  \<open>compose_permission_table\<close> stacks layers over the builtin deny rules and
  \<open>match_against_table\<close> is the source's five loops in their order.
\<close>

section \<open>Channels, rules and tables\<close>

datatype plan_op = Op_Draft | Op_Update | Op_Finalize
datatype write_op = Op_Create | Op_Modify | Op_Delete

datatype access_channel_kind =
  K_fs_read | K_fs_write | K_bash | K_mcp | K_network | K_plan | K_plan_progress

datatype access_channel =
    Fs_Read (rd_path: string)
  | Fs_Write (wr_path: string) (wr_op: write_op)
  | Bash (commandHead: string) (unsafeForAllow: bool) (nestedBuiltinDenyHead: "string option")
  | Mcp (mcp_server: string) (mcp_tool: string)
  | Network (net_host: "string option")
  | Plan_Ch (plan_op: plan_op) (plan_id: "string option")
  | Plan_Progress (pp_id: "string option")

fun channel_kind :: "access_channel \<Rightarrow> access_channel_kind" where
  "channel_kind (Fs_Read _) = K_fs_read"
| "channel_kind (Fs_Write _ _) = K_fs_write"
| "channel_kind (Bash _ _ _) = K_bash"
| "channel_kind (Mcp _ _) = K_mcp"
| "channel_kind (Network _) = K_network"
| "channel_kind (Plan_Ch _ _) = K_plan"
| "channel_kind (Plan_Progress _) = K_plan_progress"

datatype rule_source = Src_builtin | Src_cli | Src_workspace | Src_persisted | Src_session | Src_hook

record permission_rule =
  rule_channel :: access_channel_kind
  rule_pattern :: string
  rule_source :: rule_source

record permission_table =
  tbl_deny :: "permission_rule list"
  tbl_allow :: "permission_rule list"
  tbl_ask :: "permission_rule list"

text \<open>A layer is a partial table: an absent list is \<open>None\<close>.\<close>

record permission_layer =
  lay_deny :: "permission_rule list option"
  lay_allow :: "permission_rule list option"
  lay_ask :: "permission_rule list option"

definition mk_rule :: "access_channel_kind \<Rightarrow> string \<Rightarrow> rule_source \<Rightarrow> permission_rule" where
  "mk_rule ch p src = \<lparr>rule_channel = ch, rule_pattern = p, rule_source = src\<rparr>"

definition empty_permission_table :: permission_table where
  "empty_permission_table = \<lparr>tbl_deny = [], tbl_allow = [], tbl_ask = []\<rparr>"

definition builtin_deny :: "permission_rule list" where
  "builtin_deny =
     [mk_rule K_bash ''rm'' Src_builtin,
      mk_rule K_fs_write ''.git/*'' Src_builtin,
      mk_rule K_fs_write ''.git'' Src_builtin]"

definition builtin_bash_deny_heads :: "string list" where
  "builtin_bash_deny_heads =
     map rule_pattern
       (filter (\<lambda>r. rule_channel r = K_bash \<and> CHR ''*'' \<notin> set (rule_pattern r)) builtin_deny)"

definition unsafe_bash_allow_rule :: permission_rule where
  "unsafe_bash_allow_rule = mk_rule K_bash ''(unsafe-shell-syntax)'' Src_builtin"

definition push_layer :: "permission_table \<Rightarrow> permission_layer \<Rightarrow> permission_table" where
  "push_layer out l =
     \<lparr>tbl_deny = tbl_deny out @ (case lay_deny l of None \<Rightarrow> [] | Some rs \<Rightarrow> rs),
      tbl_allow = tbl_allow out @ (case lay_allow l of None \<Rightarrow> [] | Some rs \<Rightarrow> rs),
      tbl_ask = tbl_ask out @ (case lay_ask l of None \<Rightarrow> [] | Some rs \<Rightarrow> rs)\<rparr>"

definition compose_permission_table :: "permission_layer list \<Rightarrow> permission_table" where
  "compose_permission_table layers =
     foldl push_layer \<lparr>tbl_deny = builtin_deny, tbl_allow = [], tbl_ask = []\<rparr> layers"

section \<open>The matcher\<close>

datatype table_decision =
  T_Deny permission_rule | T_Allow permission_rule | T_Ask permission_rule | T_Fallthrough

definition plan_op_text :: "plan_op \<Rightarrow> string" where
  "plan_op_text op = (case op of Op_Draft \<Rightarrow> ''draft'' | Op_Update \<Rightarrow> ''update'' | Op_Finalize \<Rightarrow> ''finalize'')"

text \<open>\<open>planId ? ... : ...\<close> treats the empty string as absent.\<close>

fun primary_key :: "access_channel \<Rightarrow> string" where
  "primary_key (Fs_Read p) = p"
| "primary_key (Fs_Write p _) = p"
| "primary_key (Bash h _ _) = h"
| "primary_key (Mcp s t) = s @ ''/'' @ t"
| "primary_key (Network h) = (case h of None \<Rightarrow> '''' | Some x \<Rightarrow> x)"
| "primary_key (Plan_Ch op pid) =
     (case pid of None \<Rightarrow> plan_op_text op
      | Some i \<Rightarrow> if i = '''' then plan_op_text op else plan_op_text op @ '' '' @ i)"
| "primary_key (Plan_Progress pid) = (case pid of None \<Rightarrow> '''' | Some i \<Rightarrow> i)"

definition match_pattern :: "string \<Rightarrow> string \<Rightarrow> bool" where
  "match_pattern pattern v =
     (if pattern = ''*'' then True
      else if pattern = v then True
      else if ends_with pattern '' *'' then
        (let p = take (length pattern - 2) pattern
         in v = p \<or> starts_with v (p @ '' '') \<or> starts_with v (p @ ''/''))
      else if ends_with pattern ''/*'' then
        starts_with v (take (length pattern - 1) pattern)
      else False)"

definition matches_rule :: "permission_rule \<Rightarrow> access_channel \<Rightarrow> bool" where
  "matches_rule r ch =
     (if rule_channel r \<noteq> channel_kind ch then False
      else match_pattern (rule_pattern r) (primary_key ch))"

definition is_bash_without_head :: "access_channel \<Rightarrow> bool" where
  "is_bash_without_head ch = (case ch of Bash h _ _ \<Rightarrow> h = '''' | _ \<Rightarrow> False)"

definition is_bash_unsafe_for_allow :: "access_channel \<Rightarrow> bool" where
  "is_bash_unsafe_for_allow ch = (case ch of Bash _ u _ \<Rightarrow> u | _ \<Rightarrow> False)"

text \<open>The second deny loop runs on the channel whose head is replaced by the nested deny head.\<close>

definition nested_channel :: "access_channel \<Rightarrow> access_channel option" where
  "nested_channel ch =
     (case ch of
        Bash h u (Some n) \<Rightarrow> if n = '''' then None else Some (Bash n u (Some n))
      | _ \<Rightarrow> None)"

definition nested_deny :: "permission_table \<Rightarrow> access_channel \<Rightarrow> permission_rule option" where
  "nested_deny tbl ch =
     (case nested_channel ch of
        None \<Rightarrow> None
      | Some ch' \<Rightarrow> find (\<lambda>r. rule_channel r = K_bash \<and> matches_rule r ch') (tbl_deny tbl))"

definition unsafe_ask :: "permission_table \<Rightarrow> access_channel \<Rightarrow> permission_rule option" where
  "unsafe_ask tbl ch =
     (if is_bash_unsafe_for_allow ch then
        (case find (\<lambda>r. matches_rule r ch) (tbl_ask tbl) of
           Some r \<Rightarrow> Some r
         | None \<Rightarrow>
             (case find (\<lambda>r. matches_rule r ch) (tbl_allow tbl) of
                Some r \<Rightarrow> Some unsafe_bash_allow_rule
              | None \<Rightarrow> None))
      else None)"

definition match_against_table :: "permission_table \<Rightarrow> access_channel \<Rightarrow> table_decision" where
  "match_against_table tbl ch =
     (case find (\<lambda>r. matches_rule r ch) (tbl_deny tbl) of
        Some r \<Rightarrow> T_Deny r
      | None \<Rightarrow>
     (case nested_deny tbl ch of
        Some r \<Rightarrow> T_Deny r
      | None \<Rightarrow>
     (if is_bash_without_head ch then T_Fallthrough
      else
     (case unsafe_ask tbl ch of
        Some r \<Rightarrow> T_Ask r
      | None \<Rightarrow>
     (case find (\<lambda>r. matches_rule r ch) (tbl_allow tbl) of
        Some r \<Rightarrow> T_Allow r
      | None \<Rightarrow>
     (case find (\<lambda>r. matches_rule r ch) (tbl_ask tbl) of
        Some r \<Rightarrow> T_Ask r
      | None \<Rightarrow> T_Fallthrough))))))"

section \<open>What the matcher promises\<close>

text \<open>
  The verdict by rule sets alone: the specification the loops refine.  \<open>V_Deny\<close> needs one matching
  deny rule, directly or on the nested head; a channel without a bash head goes no further; an unsafe
  bash channel can at best ask.
\<close>

datatype verdict = V_Deny | V_Allow | V_Ask | V_Fall

fun verdict_of :: "table_decision \<Rightarrow> verdict" where
  "verdict_of (T_Deny _) = V_Deny"
| "verdict_of (T_Allow _) = V_Allow"
| "verdict_of (T_Ask _) = V_Ask"
| "verdict_of T_Fallthrough = V_Fall"

definition rule_hits :: "permission_rule set \<Rightarrow> access_channel \<Rightarrow> bool" where
  "rule_hits R ch \<longleftrightarrow> (\<exists>r \<in> R. matches_rule r ch)"

definition deny_hits :: "permission_rule set \<Rightarrow> access_channel \<Rightarrow> bool" where
  "deny_hits D ch \<longleftrightarrow> rule_hits D ch \<or> (\<exists>ch'. nested_channel ch = Some ch' \<and> rule_hits D ch')"

definition spec_verdict ::
  "permission_rule set \<Rightarrow> permission_rule set \<Rightarrow> permission_rule set \<Rightarrow> access_channel \<Rightarrow> verdict" where
  "spec_verdict D A K ch =
     (if deny_hits D ch then V_Deny
      else if is_bash_without_head ch then V_Fall
      else if is_bash_unsafe_for_allow ch
        then (if rule_hits K ch \<or> rule_hits A ch then V_Ask else V_Fall)
      else if rule_hits A ch then V_Allow
      else if rule_hits K ch then V_Ask
      else V_Fall)"

lemma find_rule_hits: "(\<exists>r. find (\<lambda>r. matches_rule r ch) rs = Some r) \<longleftrightarrow> rule_hits (set rs) ch"
  by (cases "find (\<lambda>r. matches_rule r ch) rs") (auto simp: rule_hits_def find_None dest: find_SomeD)

lemma find_rule_None: "find (\<lambda>r. matches_rule r ch) rs = None \<longleftrightarrow> \<not> rule_hits (set rs) ch"
  by (auto simp: rule_hits_def find_None)

lemma nested_channel_bash:
  "nested_channel ch = Some ch' \<Longrightarrow> channel_kind ch = K_bash \<and> channel_kind ch' = K_bash"
  by (auto simp: nested_channel_def split: access_channel.splits option.splits if_splits)

lemma nested_deny_None:
  "nested_deny tbl ch = None \<longleftrightarrow> \<not> (\<exists>ch'. nested_channel ch = Some ch' \<and> rule_hits (set (tbl_deny tbl)) ch')"
  by (cases "nested_channel ch")
     (auto simp: nested_deny_def find_None rule_hits_def matches_rule_def dest: nested_channel_bash)

lemma unsafe_ask_None:
  "unsafe_ask tbl ch = None \<longleftrightarrow>
     \<not> (is_bash_unsafe_for_allow ch \<and>
        (rule_hits (set (tbl_ask tbl)) ch \<or> rule_hits (set (tbl_allow tbl)) ch))"
  by (auto simp: unsafe_ask_def find_rule_None [symmetric] split: option.splits)

lemma verdict_refines:
  "verdict_of (match_against_table tbl ch) =
     spec_verdict (set (tbl_deny tbl)) (set (tbl_allow tbl)) (set (tbl_ask tbl)) ch"
proof (cases "deny_hits (set (tbl_deny tbl)) ch")
  case True
  then have "find (\<lambda>r. matches_rule r ch) (tbl_deny tbl) \<noteq> None \<or> nested_deny tbl ch \<noteq> None"
    by (simp add: deny_hits_def nested_deny_None find_rule_None)
  with True show ?thesis
    by (auto simp: match_against_table_def spec_verdict_def simp del: not_None_eq split: option.splits)
next
  case False
  then have d: "find (\<lambda>r. matches_rule r ch) (tbl_deny tbl) = None" and n: "nested_deny tbl ch = None"
    by (auto simp: deny_hits_def nested_deny_None find_rule_None)
  have a: "rule_hits (set (tbl_allow tbl)) ch \<longleftrightarrow> find (\<lambda>r. matches_rule r ch) (tbl_allow tbl) \<noteq> None"
    and k: "rule_hits (set (tbl_ask tbl)) ch \<longleftrightarrow> find (\<lambda>r. matches_rule r ch) (tbl_ask tbl) \<noteq> None"
    by (simp_all add: find_rule_None)
  show ?thesis
    by (cases "find (\<lambda>r. matches_rule r ch) (tbl_allow tbl)";
        cases "find (\<lambda>r. matches_rule r ch) (tbl_ask tbl)")
       (simp_all add: match_against_table_def spec_verdict_def unsafe_ask_def d n a k False
          del: not_None_eq)
qed

section \<open>Layering\<close>

definition layer_rules :: "(permission_layer \<Rightarrow> permission_rule list option) \<Rightarrow> permission_layer list \<Rightarrow> permission_rule list" where
  "layer_rules sel ls = concat (map (\<lambda>l. case sel l of None \<Rightarrow> [] | Some rs \<Rightarrow> rs) ls)"

lemma foldl_push_layer:
  "foldl push_layer t ls =
     \<lparr>tbl_deny = tbl_deny t @ layer_rules lay_deny ls,
      tbl_allow = tbl_allow t @ layer_rules lay_allow ls,
      tbl_ask = tbl_ask t @ layer_rules lay_ask ls\<rparr>"
  by (induction ls arbitrary: t) (simp_all add: push_layer_def layer_rules_def)

lemma compose_deny [simp]:
  "tbl_deny (compose_permission_table ls) = builtin_deny @ layer_rules lay_deny ls"
  and compose_allow [simp]: "tbl_allow (compose_permission_table ls) = layer_rules lay_allow ls"
  and compose_ask [simp]: "tbl_ask (compose_permission_table ls) = layer_rules lay_ask ls"
  by (simp_all add: compose_permission_table_def foldl_push_layer)

lemma rule_hits_mono: "R \<subseteq> S \<Longrightarrow> rule_hits R ch \<Longrightarrow> rule_hits S ch"
  by (auto simp: rule_hits_def)

lemma deny_hits_mono: "R \<subseteq> S \<Longrightarrow> deny_hits R ch \<Longrightarrow> deny_hits S ch"
  by (auto simp: deny_hits_def dest: rule_hits_mono)

lemma verdict_Deny: "verdict_of d = V_Deny \<longleftrightarrow> (\<exists>r. d = T_Deny r)"
  and verdict_Allow: "verdict_of d = V_Allow \<longleftrightarrow> (\<exists>r. d = T_Allow r)"
  by (cases d; simp)+

lemma match_denies_iff:
  "(\<exists>r. match_against_table tbl ch = T_Deny r) \<longleftrightarrow> deny_hits (set (tbl_deny tbl)) ch"
  unfolding verdict_Deny [symmetric]
  by (simp add: verdict_refines spec_verdict_def)

lemma match_allows_iff:
  "(\<exists>r. match_against_table tbl ch = T_Allow r) \<longleftrightarrow>
     \<not> deny_hits (set (tbl_deny tbl)) ch \<and> \<not> is_bash_without_head ch \<and>
     \<not> is_bash_unsafe_for_allow ch \<and> rule_hits (set (tbl_allow tbl)) ch"
  unfolding verdict_Allow [symmetric]
  by (simp add: verdict_refines spec_verdict_def)

text \<open>
  The interface the policy engine relies on: a source of table decisions that denies what is
  forbidden and never allows, on its own, what must be supervised.
\<close>

locale verdict_source =
  fixes lookup :: "access_channel \<Rightarrow> table_decision"
    and forbidden :: "access_channel \<Rightarrow> bool"
    and supervised :: "access_channel \<Rightarrow> bool"
  assumes forbidden_denied: "forbidden ch \<Longrightarrow> \<exists>r. lookup ch = T_Deny r"
    and supervised_not_allowed: "supervised ch \<Longrightarrow> lookup ch \<noteq> T_Allow r"

interpretation composed: verdict_source
  "match_against_table (compose_permission_table layers)"
  "deny_hits (set builtin_deny)" "is_bash_unsafe_for_allow" for layers
proof
  fix ch
  assume "deny_hits (set builtin_deny) ch"
  then show "\<exists>r. match_against_table (compose_permission_table layers) ch = T_Deny r"
    unfolding match_denies_iff by (rule deny_hits_mono [rotated]) simp
next
  fix ch r
  assume "is_bash_unsafe_for_allow ch"
  then show "match_against_table (compose_permission_table layers) ch \<noteq> T_Allow r"
    using match_allows_iff by blast
qed

section \<open>Properties\<close>

text \<open>C29.  The five loops of the matcher compute exactly the verdict the rule sets determine: order
and duplicates of rules, and the layer a rule came from, never change the verdict.\<close>

theorem match_against_table_refines_spec:
  "verdict_of (match_against_table tbl ch) =
     spec_verdict (set (tbl_deny tbl)) (set (tbl_allow tbl)) (set (tbl_ask tbl)) ch"
  by (rule verdict_refines)

text \<open> No configuration, persisted record, CLI flag or session layer overrides the builtin deny
list: if a builtin rule matches the channel, or its nested deny head, the composed table denies it.\<close>

theorem builtin_deny_not_overridable:
  assumes "deny_hits (set builtin_deny) ch"
  shows "\<exists>r. match_against_table (compose_permission_table layers) ch = T_Deny r"
  using assms by (rule composed.forbidden_denied)

theorem builtin_deny_not_overridable_witness:
  "\<exists>r. match_against_table (compose_permission_table
          [\<lparr>lay_deny = None, lay_allow = Some [mk_rule K_bash ''*'' Src_cli], lay_ask = None\<rparr>])
        (Bash ''bash'' True (Some ''rm'')) = T_Deny r"
  by (rule builtin_deny_not_overridable)
     (simp add: deny_hits_def rule_hits_def nested_channel_def builtin_deny_def mk_rule_def
        matches_rule_def match_pattern_def)

text \<open> A later layer can only add denials: what a stack of layers denies stays denied whatever
is stacked on top.\<close>

theorem deny_is_sticky:
  assumes "match_against_table (compose_permission_table layers) ch = T_Deny r"
  shows "\<exists>r'. match_against_table (compose_permission_table (layers @ extra)) ch = T_Deny r'"
proof -
  from assms have "deny_hits (set (tbl_deny (compose_permission_table layers))) ch"
    using match_denies_iff by blast
  then show ?thesis
    unfolding match_denies_iff by (rule deny_hits_mono [rotated]) (auto simp: layer_rules_def)
qed

theorem deny_is_sticky_witness:
  "\<exists>r'. match_against_table (compose_permission_table
      ([] @ [\<lparr>lay_deny = None, lay_allow = Some [mk_rule K_fs_write ''*'' Src_session], lay_ask = None\<rparr>]))
     (Fs_Write ''.git/config'' Op_Modify) = T_Deny r'"
proof -
  have "match_against_table (compose_permission_table []) (Fs_Write ''.git/config'' Op_Modify)
      = T_Deny (mk_rule K_fs_write ''.git/*'' Src_builtin)"
    by (simp add: match_against_table_def layer_rules_def builtin_deny_def mk_rule_def matches_rule_def
        match_pattern_def ends_with_def)
  then show ?thesis by (rule deny_is_sticky)
qed

text \<open> A bash line whose syntax can run more than its head is never auto-approved by an allow
rule, and neither is a line with no identifiable head: an allow needs a safe, headed channel that an
allow rule matches and no deny rule reaches.\<close>

theorem table_allow_is_safe:
  assumes "match_against_table tbl ch = T_Allow r"
  shows "r \<in> set (tbl_allow tbl) \<and> matches_rule r ch \<and> \<not> is_bash_unsafe_for_allow ch \<and>
    \<not> is_bash_without_head ch \<and> \<not> deny_hits (set (tbl_deny tbl)) ch"
proof -
  have "find (\<lambda>r. matches_rule r ch) (tbl_allow tbl) = Some r"
    using assms by (auto simp: match_against_table_def split: option.splits if_splits)
  then have "r \<in> set (tbl_allow tbl) \<and> matches_rule r ch" by (rule find_SomeD)
  with assms match_allows_iff [of tbl ch] show ?thesis by blast
qed

theorem table_allow_is_safe_witness:
  "mk_rule K_bash ''git *'' Src_cli \<in> {mk_rule K_bash ''git *'' Src_cli} \<and>
   \<not> is_bash_unsafe_for_allow (Bash ''git'' False None)"
proof -
  let ?t = "\<lparr>tbl_deny = [], tbl_allow = [mk_rule K_bash ''git *'' Src_cli], tbl_ask = []\<rparr>"
  have "match_against_table ?t (Bash ''git'' False None) = T_Allow (mk_rule K_bash ''git *'' Src_cli)"
    by (simp add: match_against_table_def nested_deny_def nested_channel_def unsafe_ask_def
        is_bash_without_head_def is_bash_unsafe_for_allow_def mk_rule_def matches_rule_def
        match_pattern_def ends_with_def)
  from table_allow_is_safe [OF this] show ?thesis by simp
qed

text \<open> The pattern grammar: a pattern matches everything if it is a star, itself, and, when it
ends in space-star or slash-star, exactly the documented extensions of its prefix.\<close>

theorem match_pattern_language:
  "match_pattern pattern v \<longleftrightarrow>
     pattern = ''*'' \<or> pattern = v \<or>
     (\<exists>q rest. pattern = q @ '' *'' \<and> (v = q \<or> v = q @ '' '' @ rest \<or> v = q @ ''/'' @ rest)) \<or>
     (\<exists>q rest. pattern = q @ ''/*'' \<and> v = q @ ''/'' @ rest)"
proof -
  have a: "ends_with pattern '' *'' \<longleftrightarrow> (\<exists>q. pattern = q @ '' *'')"
    and b: "ends_with pattern ''/*'' \<longleftrightarrow> (\<exists>q. pattern = q @ ''/*'')"
    by (simp_all only: ends_with_iff_append)
  show ?thesis
    by (auto simp: match_pattern_def Let_def a b starts_with_iff_append)
qed

end
