(* ===== verification/Policy_Engine.thy ===== *)
theory Policy_Engine
  imports Decision_Table
begin

text \<open>
  The policy engine of \<open>src/policy/engine.ts\<close> with the modes of \<open>src/policy/modes.ts\<close> and the
  subjects and decisions of \<open>src/policy/decision.ts\<close>.  \<open>decide\<close> is the body of the closure that
  \<open>createPolicyEngine\<close> returns, on every branch and with the texts it builds.
\<close>

section \<open>Modes\<close>

datatype policy_mode = M_default | M_accept_edits | M_plan | M_yolo

definition mode_text :: "policy_mode \<Rightarrow> string" where
  "mode_text m = (case m of M_default \<Rightarrow> ''default'' | M_accept_edits \<Rightarrow> ''accept-edits''
     | M_plan \<Rightarrow> ''plan'' | M_yolo \<Rightarrow> ''yolo'')"

definition policy_modes :: "string list" where
  "policy_modes = map mode_text [M_default, M_accept_edits, M_plan, M_yolo]"

definition policy_mode_list :: string where
  "policy_mode_list = join_with '', '' policy_modes"

definition legacy_policy_mode_hints :: "(string \<times> string) list" where
  "legacy_policy_mode_hints =
     [(''auto'', ''auto has been replaced by yolo''),
      (''confirm-write'', ''confirm-write has been replaced by default''),
      (''read-only'', ''read-only has been replaced by plan''),
      (''confirm-bash'', ''confirm-bash has been replaced by accept-edits''),
      (''confirm-all'', ''confirm-all is no longer available; use default for normal approvals or plan for inspection-only work'')]"

definition is_policy_mode :: "string \<Rightarrow> bool" where
  "is_policy_mode v \<longleftrightarrow> v \<in> set policy_modes"

definition policy_mode_migration_hint :: "string \<Rightarrow> string option" where
  "policy_mode_migration_hint v = map_of legacy_policy_mode_hints v"

definition format_policy_mode_error :: "string \<Rightarrow> string \<Rightarrow> string" where
  "format_policy_mode_error v subj =
     (let prefix_text = (case policy_mode_migration_hint v of
          Some h \<Rightarrow> h @ ''; ''
        | None \<Rightarrow> ''Unknown '' @ subj @ '': '' @ v @ ''; '')
      in prefix_text @ ''expected one of: '' @ policy_mode_list)"

section \<open>Subjects and decisions\<close>

datatype tool_access = A_read | A_write | A_exec | A_plan

definition access_text :: "tool_access \<Rightarrow> string" where
  "access_text a = (case a of A_read \<Rightarrow> ''read'' | A_write \<Rightarrow> ''write'' | A_exec \<Rightarrow> ''exec'' | A_plan \<Rightarrow> ''plan'')"

record tool_display =
  dsp_title :: string
  dsp_detail :: "string option"
  dsp_path :: "string option"
  dsp_command :: "string option"
  dsp_server :: "string option"
  dsp_tool :: "string option"

record tx_info =
  txi_enabled :: bool
  txi_txId :: "string option"
  txi_edit_mode :: bool

record diff_summary =
  filesChanged :: nat
  additions :: nat
  deletions :: nat

datatype request_source = Req_hook | Req_tool | Req_runtime

definition source_text :: "request_source \<Rightarrow> string" where
  "source_text s = (case s of Req_hook \<Rightarrow> ''hook'' | Req_tool \<Rightarrow> ''tool'' | Req_runtime \<Rightarrow> ''runtime'')"

datatype policy_subject =
    Tool_Subject (ts_toolName: string) (ts_access: tool_access) (ts_channel: access_channel)
      (ts_display: tool_display) (ts_tx: "tx_info option")
  | Tx_Apply_Subject (ta_txId: string) (ta_diff: diff_summary) (ta_validators: "string list")
      (ta_blocking: "string list") (ta_artifact: string)
  | Permission_Request_Subject (pr_source: request_source) (pr_toolName: "string option")
      (pr_reason: string) (pr_caps: "string list")

datatype decided_by = By_policy | By_user | By_hook

datatype approval_decision =
    Allow (al_reason: "string option") (decidedBy: decided_by)
  | Deny (de_reason: string) (decidedBy: decided_by)
  | Ask (as_prompt: string) (decidedBy: decided_by)

section \<open>The engine\<close>

definition kind_text :: "access_channel_kind \<Rightarrow> string" where
  "kind_text k = (case k of K_fs_read \<Rightarrow> ''fs-read'' | K_fs_write \<Rightarrow> ''fs-write'' | K_bash \<Rightarrow> ''bash''
     | K_mcp \<Rightarrow> ''mcp'' | K_network \<Rightarrow> ''network'' | K_plan \<Rightarrow> ''plan'' | K_plan_progress \<Rightarrow> ''plan-progress'')"

definition rule_source_text :: "rule_source \<Rightarrow> string" where
  "rule_source_text s = (case s of Src_builtin \<Rightarrow> ''builtin'' | Src_cli \<Rightarrow> ''cli'' | Src_workspace \<Rightarrow> ''workspace''
     | Src_persisted \<Rightarrow> ''persisted'' | Src_session \<Rightarrow> ''session'' | Src_hook \<Rightarrow> ''hook'')"

definition describe_rule :: "string \<Rightarrow> permission_rule \<Rightarrow> string \<Rightarrow> string" where
  "describe_rule kind r toolName =
     kind @ '' by '' @ rule_source_text (rule_source r) @ '' rule \"'' @ kind_text (rule_channel r) @ '': ''
       @ rule_pattern r @ ''\" (subject: '' @ toolName @ '')''"

text \<open>A line that is pushed only when its field is present and non-empty.\<close>

definition opt_line :: "string \<Rightarrow> string option \<Rightarrow> string list" where
  "opt_line label v = (case v of None \<Rightarrow> [] | Some t \<Rightarrow> if t = '''' then [] else [label @ t])"

definition newline :: string where
  "newline = [CHR 0x0A]"

fun format_approval_prompt :: "policy_mode \<Rightarrow> policy_subject \<Rightarrow> string" where
  "format_approval_prompt mode (Tool_Subject toolName access ch dsp tx) =
     join_with newline
       ([dsp_title dsp, ''tool: '' @ toolName, ''access: '' @ access_text access, ''policy: '' @ mode_text mode]
        @ opt_line ''path: '' (dsp_path dsp)
        @ opt_line ''command: '' (dsp_command dsp)
        @ opt_line ''tx: '' (case tx of None \<Rightarrow> None | Some t \<Rightarrow> txi_txId t)
        @ opt_line ''detail: '' (dsp_detail dsp))"
| "format_approval_prompt mode (Tx_Apply_Subject txId diff validators blocking artifact) =
     join_with newline
       ([''Apply transaction?'', ''tx: '' @ txId,
         ''diff: '' @ show_nat (filesChanged diff) @ '' files changed (+'' @ show_nat (additions diff)
           @ ''/-'' @ show_nat (deletions diff) @ '')'',
         ''validators: '' @ show_nat (length validators),
         ''blocking failures: '' @ show_nat (length blocking)]
        @ (if length blocking > 0 then [''blocking failure details: '' @ join_with '', '' blocking] else [])
        @ [''artifact: '' @ artifact, ''policy: '' @ mode_text mode])"
| "format_approval_prompt mode (Permission_Request_Subject src toolName reason caps) =
     join_with newline
       ([''Allow permission request?'', ''source: '' @ source_text src]
        @ opt_line ''tool: '' toolName
        @ [''reason: '' @ reason,
           ''capabilities: '' @ (let j = join_with '', '' caps in if j = '''' then ''none'' else j),
           ''policy: '' @ mode_text mode])"

definition apply_table_decision ::
  "policy_mode \<Rightarrow> table_decision \<Rightarrow> policy_subject \<Rightarrow> approval_decision option" where
  "apply_table_decision mode td subject =
     (case td of
        T_Deny r \<Rightarrow> Some (Deny (describe_rule ''deny'' r (ts_toolName subject)) By_policy)
      | T_Allow r \<Rightarrow> Some (Allow (Some (describe_rule ''allow'' r (ts_toolName subject))) By_policy)
      | T_Ask r \<Rightarrow> Some (Ask (format_approval_prompt mode subject) By_policy)
      | T_Fallthrough \<Rightarrow> None)"

fun decide_plan_hard_deny :: "policy_subject \<Rightarrow> approval_decision option" where
  "decide_plan_hard_deny (Permission_Request_Subject _ _ _ _) =
     Some (Deny ''policy mode plan blocks permission requests'' By_policy)"
| "decide_plan_hard_deny (Tx_Apply_Subject _ _ _ _ _) =
     Some (Deny ''policy mode plan blocks transaction apply'' By_policy)"
| "decide_plan_hard_deny (Tool_Subject _ access _ _ _) =
     (if access \<noteq> A_read \<and> access \<noteq> A_plan
      then Some (Deny (''policy mode plan blocks '' @ access_text access @ '' tools'') By_policy)
      else None)"

fun requires_confirmation :: "policy_mode \<Rightarrow> policy_subject \<Rightarrow> bool" where
  "requires_confirmation mode (Tx_Apply_Subject _ _ _ blocking _) =
     (if mode = M_default then True
      else if mode = M_accept_edits then length blocking > 0
      else False)"
| "requires_confirmation mode (Tool_Subject _ access _ _ _) =
     (if mode = M_default then access = A_write \<or> access = A_exec
      else if mode = M_accept_edits then access = A_exec
      else False)"
| "requires_confirmation mode (Permission_Request_Subject _ _ _ _) = False"

definition decide_permission_request :: "policy_mode \<Rightarrow> policy_subject \<Rightarrow> approval_decision" where
  "decide_permission_request mode subject =
     (if mode = M_yolo then Allow None By_policy
      else Ask (format_approval_prompt mode subject) By_policy)"

text \<open>The preset: what the engine answers once the table has nothing to say.\<close>

definition decide_preset :: "policy_mode \<Rightarrow> policy_subject \<Rightarrow> approval_decision" where
  "decide_preset mode subject =
     (if mode = M_yolo then Allow None By_policy
      else if requires_confirmation mode subject
        then Ask (format_approval_prompt mode subject) By_policy
      else Allow None By_policy)"

definition decide_with ::
  "(access_channel \<Rightarrow> table_decision) \<Rightarrow> policy_mode \<Rightarrow> policy_subject \<Rightarrow> approval_decision" where
  "decide_with lookup mode subject =
     (case (if mode = M_plan then decide_plan_hard_deny subject else None) of
        Some d \<Rightarrow> d
      | None \<Rightarrow>
     (case subject of
        Permission_Request_Subject _ _ _ _ \<Rightarrow> decide_permission_request mode subject
      | Tool_Subject _ _ ch _ _ \<Rightarrow>
          (case apply_table_decision mode (lookup ch) subject of
             Some d \<Rightarrow> d
           | None \<Rightarrow> decide_preset mode subject)
      | Tx_Apply_Subject _ _ _ _ _ \<Rightarrow> decide_preset mode subject))"

definition decide :: "policy_mode \<Rightarrow> permission_table \<Rightarrow> policy_subject \<Rightarrow> approval_decision" where
  "decide mode tbl subject = decide_with (match_against_table tbl) mode subject"

section \<open>Orders on modes and decisions\<close>

text \<open>
  Modes are ordered by how much they leave to the user: plan, default, accept-edits, yolo; decisions
  by how permissive they are: deny, ask, allow.  The orders are the specification, the engine knows none.
\<close>

fun mode_rank :: "policy_mode \<Rightarrow> nat" where
  "mode_rank M_plan = 0" | "mode_rank M_default = 1" | "mode_rank M_accept_edits = 2" | "mode_rank M_yolo = 3"

datatype behavior = B_deny | B_ask | B_allow

fun behavior_rank :: "behavior \<Rightarrow> nat" where
  "behavior_rank B_deny = 0" | "behavior_rank B_ask = 1" | "behavior_rank B_allow = 2"

fun behavior_of :: "approval_decision \<Rightarrow> behavior" where
  "behavior_of (Allow _ _) = B_allow"
| "behavior_of (Deny _ _) = B_deny"
| "behavior_of (Ask _ _) = B_ask"

instantiation policy_mode :: linorder
begin

definition less_eq_policy_mode :: "policy_mode \<Rightarrow> policy_mode \<Rightarrow> bool" where
  "less_eq_policy_mode a b \<longleftrightarrow> mode_rank a \<le> mode_rank b"

definition less_policy_mode :: "policy_mode \<Rightarrow> policy_mode \<Rightarrow> bool" where
  "less_policy_mode a b \<longleftrightarrow> mode_rank a < mode_rank b"

instance
proof
  fix x y :: policy_mode
  assume "x \<le> y" and "y \<le> x"
  then show "x = y" by (cases x; cases y; simp add: less_eq_policy_mode_def)
qed (auto simp: less_eq_policy_mode_def less_policy_mode_def)

end

instantiation behavior :: linorder
begin

definition less_eq_behavior :: "behavior \<Rightarrow> behavior \<Rightarrow> bool" where
  "less_eq_behavior a b \<longleftrightarrow> behavior_rank a \<le> behavior_rank b"

definition less_behavior :: "behavior \<Rightarrow> behavior \<Rightarrow> bool" where
  "less_behavior a b \<longleftrightarrow> behavior_rank a < behavior_rank b"

instance
proof
  fix x y :: behavior
  assume "x \<le> y" and "y \<le> x"
  then show "x = y" by (cases x; cases y; simp add: less_eq_behavior_def)
qed (auto simp: less_eq_behavior_def less_behavior_def)

end

lemmas engine_defs = decide_def decide_with_def decide_preset_def decide_permission_request_def
  apply_table_decision_def

section \<open>Clients of a verdict source\<close>

context verdict_source
begin

lemma forbidden_tool_denied:
  assumes "forbidden ch"
  shows "behavior_of (decide_with lookup mode (Tool_Subject n a ch d tx)) = B_deny"
proof -
  from assms obtain r where "lookup ch = T_Deny r" using forbidden_denied by blast
  then show ?thesis by (auto simp: engine_defs split: option.splits)
qed

lemma supervised_tool_asks:
  assumes "supervised ch" and "mode \<noteq> M_yolo" and "a = A_exec"
  shows "behavior_of (decide_with lookup mode (Tool_Subject n a ch d tx)) \<noteq> B_allow"
proof -
  have "lookup ch \<noteq> T_Allow r" for r using assms(1) by (rule supervised_not_allowed)
  with assms(2,3) show ?thesis
    by (cases mode) (auto simp: engine_defs split: option.splits table_decision.splits)
qed

end

lemma decide_composed:
  "decide mode (compose_permission_table layers) s =
     decide_with (match_against_table (compose_permission_table layers)) mode s"
  by (simp add: decide_def)

lemma decide_table_cases:
  "decide mode tbl (Tool_Subject n a ch d tx) =
     (if mode = M_plan \<and> a \<noteq> A_read \<and> a \<noteq> A_plan
      then Deny (''policy mode plan blocks '' @ access_text a @ '' tools'') By_policy
      else (case apply_table_decision mode (match_against_table tbl ch) (Tool_Subject n a ch d tx) of
              Some r \<Rightarrow> r | None \<Rightarrow> decide_preset mode (Tool_Subject n a ch d tx)))"
  by (auto simp: decide_def decide_with_def split: option.splits)

section \<open>Properties\<close>

text \<open> In every mode, with every stack of layers, a tool whose channel a builtin deny rule
reaches is denied: the mode cannot relax the deny floor.\<close>

theorem builtin_deny_holds_in_every_mode:
  assumes "deny_hits (set builtin_deny) ch"
  shows "behavior_of (decide mode (compose_permission_table layers) (Tool_Subject n a ch d tx)) = B_deny"
  unfolding decide_composed using assms by (rule composed.forbidden_tool_denied)

theorem builtin_deny_holds_in_every_mode_witness:
  "behavior_of (decide M_yolo (compose_permission_table [])
     (Tool_Subject ''bash'' A_exec (Bash ''rm'' False None)
        \<lparr>dsp_title = ''Allow bash command?'', dsp_detail = None, dsp_path = None,
         dsp_command = Some ''rm x'', dsp_server = None, dsp_tool = None\<rparr> None)) = B_deny"
  by (rule builtin_deny_holds_in_every_mode)
     (simp add: deny_hits_def rule_hits_def builtin_deny_def mk_rule_def matches_rule_def match_pattern_def)

text \<open>A more permissive mode never gives a stricter decision: along plan, default, accept-edits,
yolo the behaviour moves from deny over ask to allow, for every table and every subject.\<close>

theorem decide_mono_in_mode:
  assumes "m \<le> m'"
  shows "behavior_of (decide m tbl s) \<le> behavior_of (decide m' tbl s)"
proof (cases s)
  case (Tool_Subject n a ch d tx)
  then show ?thesis
    using assms
    by (cases m; cases m'; cases "match_against_table tbl ch"; cases a)
       (simp_all add: engine_defs less_eq_policy_mode_def less_eq_behavior_def)
next
  case (Tx_Apply_Subject t df v b ar)
  then show ?thesis
    using assms
    by (cases m; cases m') (simp_all add: engine_defs less_eq_policy_mode_def less_eq_behavior_def)
next
  case (Permission_Request_Subject src t r c)
  then show ?thesis
    using assms
    by (cases m; cases m') (simp_all add: engine_defs less_eq_policy_mode_def less_eq_behavior_def)
qed

theorem decide_mono_in_mode_witness:
  "M_default \<le> M_yolo \<and>
   behavior_of (decide M_default empty_permission_table (Permission_Request_Subject Req_hook None ''r'' []))
     \<le> behavior_of (decide M_yolo empty_permission_table (Permission_Request_Subject Req_hook None ''r'' []))"
proof -
  have "M_default \<le> M_yolo" by (simp add: less_eq_policy_mode_def)
  then show ?thesis using decide_mono_in_mode by blast
qed

text \<open> Outside yolo, a bash command whose syntax is unsafe for allow rules is never run without
the user: whatever allow rules the layers hold, the engine asks or denies.\<close>

theorem unsafe_bash_never_auto_allowed:
  assumes "mode \<noteq> M_yolo" and "is_bash_unsafe_for_allow ch"
  shows "behavior_of (decide mode (compose_permission_table layers) (Tool_Subject n A_exec ch d tx)) \<noteq> B_allow"
  unfolding decide_composed by (rule composed.supervised_tool_asks [OF assms(2,1) refl])

theorem unsafe_bash_never_auto_allowed_witness:
  "behavior_of (decide M_accept_edits (compose_permission_table
      [\<lparr>lay_deny = None, lay_allow = Some [mk_rule K_bash ''*'' Src_cli], lay_ask = None\<rparr>])
     (Tool_Subject ''bash'' A_exec (Bash ''git'' True None)
        \<lparr>dsp_title = ''t'', dsp_detail = None, dsp_path = None, dsp_command = None,
         dsp_server = None, dsp_tool = None\<rparr> None)) \<noteq> B_allow"
  by (rule unsafe_bash_never_auto_allowed) (simp_all add: is_bash_unsafe_for_allow_def)

text \<open> Plan mode is read-only: it denies every write or exec tool, every transaction apply and
every permission request, whatever the table allows.\<close>

theorem plan_mode_is_read_only:
  "behavior_of (decide M_plan tbl s) \<noteq> B_deny \<Longrightarrow>
     (\<exists>n a ch d tx. s = Tool_Subject n a ch d tx \<and> a \<in> {A_read, A_plan})"
  by (cases s) (auto simp: decide_table_cases engine_defs split: if_splits)

theorem plan_mode_is_read_only_witness:
  "\<exists>n a ch d tx.
     Tool_Subject ''read'' A_read (Fs_Read ''README.md'')
       \<lparr>dsp_title = ''t'', dsp_detail = None, dsp_path = None, dsp_command = None,
        dsp_server = None, dsp_tool = None\<rparr> None = Tool_Subject n a ch d tx \<and> a \<in> {A_read, A_plan}"
  by (rule plan_mode_is_read_only [where tbl = empty_permission_table])
     (simp add: engine_defs match_against_table_def empty_permission_table_def nested_deny_def
        nested_channel_def unsafe_ask_def is_bash_without_head_def is_bash_unsafe_for_allow_def)

end
