(* ===== verification/Permissions_Grammar.thy ===== *)
theory Permissions_Grammar
  imports Policy_Engine
begin

text \<open>
  The rule grammar \<open>src/policy/permissions-grammar.ts\<close>: \<open>parse_permission_rule_string\<close> and its
  inverse \<open>format_permission_rule\<close>.  A thrown \<open>PermissionGrammarError\<close> is \<open>Inl\<close> of a value that names
  the branch and carries what its message interpolates.
\<close>

text \<open>Untyped configuration input, as far as the parser inspects it: \<open>R_other t\<close> is any value whose
\<open>typeof\<close> is \<open>t\<close> and which is neither a string nor an array.\<close>

datatype raw_value = R_undefined | R_string string | R_array "raw_value list" | R_other string

fun js_typeof :: "raw_value \<Rightarrow> string" where
  "js_typeof R_undefined = ''undefined''"
| "js_typeof (R_string _) = ''string''"
| "js_typeof (R_array _) = ''object''"
| "js_typeof (R_other t) = t"

definition valid_channels :: "access_channel_kind list" where
  "valid_channels = [K_fs_read, K_fs_write, K_bash, K_mcp, K_network, K_plan, K_plan_progress]"

datatype grammar_error =
    Ge_not_string (ge_ctx: string) (ge_typeof: string)
  | Ge_empty (ge_ctx: string)
  | Ge_no_colon (ge_ctx: string) (ge_raw: string)
  | Ge_empty_channel (ge_ctx: string) (ge_raw: string)
  | Ge_empty_pattern (ge_ctx: string) (ge_raw: string)
  | Ge_unknown_channel (ge_ctx: string) (ge_raw: string) (ge_channel: string)
  | Ge_not_array (ge_ctx: string)

text \<open>\<open>VALID_CHANNELS.has\<close> together with the cast to the channel kind.\<close>

definition channel_of_text :: "string \<Rightarrow> access_channel_kind option" where
  "channel_of_text t = find (\<lambda>k. kind_text k = t) valid_channels"

definition parse_permission_rule_string ::
  "raw_value \<Rightarrow> rule_source \<Rightarrow> string \<Rightarrow> (grammar_error, permission_rule) result" where
  "parse_permission_rule_string raw src ctx =
     (case raw of
        R_string s \<Rightarrow>
          (let trimmed = trim s in
           if trimmed = '''' then Inl (Ge_empty ctx)
           else (case index_of (CHR '':'') trimmed of
              None \<Rightarrow> Inl (Ge_no_colon ctx s)
            | Some colonIdx \<Rightarrow>
                (let channelRaw = trim (take colonIdx trimmed);
                     pattern = trim (drop (colonIdx + 1) trimmed)
                 in if channelRaw = '''' then Inl (Ge_empty_channel ctx s)
                    else if pattern = '''' then Inl (Ge_empty_pattern ctx s)
                    else (case channel_of_text channelRaw of
                            None \<Rightarrow> Inl (Ge_unknown_channel ctx s channelRaw)
                          | Some k \<Rightarrow> Inr (mk_rule k pattern src)))))
      | _ \<Rightarrow> Inl (Ge_not_string ctx (js_typeof raw)))"

text \<open>\<open>raw.map\<close> stops at the first entry that throws.\<close>

fun parse_entries :: "raw_value list \<Rightarrow> nat \<Rightarrow> rule_source \<Rightarrow> string \<Rightarrow> (grammar_error, permission_rule list) result" where
  "parse_entries [] i src ctx = Inr []"
| "parse_entries (e # es) i src ctx =
     (case parse_permission_rule_string e src (ctx @ ''['' @ show_nat i @ '']'') of
        Inl m \<Rightarrow> Inl m
      | Inr r \<Rightarrow> (case parse_entries es (Suc i) src ctx of Inl m \<Rightarrow> Inl m | Inr rs \<Rightarrow> Inr (r # rs)))"

definition parse_permission_rule_strings ::
  "raw_value \<Rightarrow> rule_source \<Rightarrow> string \<Rightarrow> (grammar_error, permission_rule list) result" where
  "parse_permission_rule_strings raw src ctx =
     (case raw of
        R_undefined \<Rightarrow> Inr []
      | R_array es \<Rightarrow> parse_entries es 0 src ctx
      | _ \<Rightarrow> Inl (Ge_not_array ctx))"

definition format_permission_rule :: "permission_rule \<Rightarrow> string" where
  "format_permission_rule r = kind_text (rule_channel r) @ '': '' @ rule_pattern r"

section \<open>Lemmas\<close>

lemma kind_text_inj: "kind_text k = kind_text k' \<longleftrightarrow> k = k'"
  by (cases k; cases k') (simp_all add: kind_text_def)

lemma channel_of_kind_text [simp]: "channel_of_text (kind_text k) = Some k"
  by (cases k) (simp_all add: channel_of_text_def valid_channels_def kind_text_def)

lemma channel_of_text_Some: "channel_of_text t = Some k \<longleftrightarrow> t = kind_text k"
  by (auto simp: channel_of_text_def dest: find_SomeD) (simp add: channel_of_text_def [symmetric])

lemma kind_text_no_colon: "CHR '':'' \<notin> set (kind_text k)"
  by (cases k) (simp_all add: kind_text_def)

lemma kind_text_trim [simp]: "trim (kind_text k) = kind_text k"
  by (cases k) (simp_all add: kind_text_def trim_def js_space_def)

lemma kind_text_nonempty [simp]: "kind_text k \<noteq> ''''"
  by (cases k) (simp_all add: kind_text_def)

lemma trim_space_Cons [simp]: "trim (CHR '' '' # s) = trim s"
  by (simp add: trim_def js_space_def)

lemma trim_kind_text_append:
  assumes "p \<noteq> ''''" and "trim p = p"
  shows "trim (kind_text k @ '': '' @ p) = kind_text k @ '': '' @ p"
proof (rule trim_ident)
  show "\<not> js_space (hd (kind_text k @ '': '' @ p))"
    by (cases k) (simp_all add: kind_text_def js_space_def)
  show "\<not> js_space (last (kind_text k @ '': '' @ p))"
    using assms trim_ends [of p] by simp
qed

text \<open>The parser accepts exactly the strings of the documented grammar.\<close>

lemma parse_rule_Inr_iff:
  "parse_permission_rule_string (R_string s) src ctx = Inr r \<longleftrightarrow>
     (\<exists>c p. trim s = c @ '':'' @ p \<and> CHR '':'' \<notin> set c \<and> trim c = kind_text (rule_channel r) \<and>
        trim p = rule_pattern r \<and> rule_pattern r \<noteq> '''' \<and> rule_source r = src)"
  (is "?L \<longleftrightarrow> ?R")
proof
  assume ?L
  then obtain i where i: "index_of (CHR '':'') (trim s) = Some i"
    by (auto simp: parse_permission_rule_string_def Let_def split: if_splits option.splits)
  then obtain c p where cp: "trim s = c @ CHR '':'' # p" "CHR '':'' \<notin> set c" "length c = i"
    by (auto simp: index_of_Some_append)
  with \<open>?L\<close> i have "trim c = kind_text (rule_channel r) \<and> trim p = rule_pattern r \<and>
      rule_pattern r \<noteq> '''' \<and> rule_source r = src"
    by (auto simp: parse_permission_rule_string_def Let_def channel_of_text_Some mk_rule_def
        split: if_splits option.splits)
  with cp show ?R by auto
next
  assume ?R
  then obtain c p where cp: "trim s = c @ CHR '':'' # p" "CHR '':'' \<notin> set c"
    "trim c = kind_text (rule_channel r)" "trim p = rule_pattern r" "rule_pattern r \<noteq> ''''"
    "rule_source r = src" by auto
  then show ?L
    by (simp add: parse_permission_rule_string_def Let_def index_of_append mk_rule_def)
qed

lemma parsed_pattern_trimmed:
  "parse_permission_rule_string (R_string s) src ctx = Inr r \<Longrightarrow>
     trim (rule_pattern r) = rule_pattern r \<and> rule_pattern r \<noteq> '''' \<and> rule_source r = src"
  unfolding parse_rule_Inr_iff by (metis trim_trim)

section \<open>Properties\<close>

text \<open>Formatting a rule and parsing it back gives the rule, for every rule the parser can
produce: printing a rule for the user and reading it again loses nothing.\<close>

theorem parse_format_roundtrip:
  assumes "parse_permission_rule_string (R_string s) src ctx = Inr r"
  shows "parse_permission_rule_string (R_string (format_permission_rule r)) src ctx' = Inr r"
proof -
  from parsed_pattern_trimmed [OF assms]
  have t: "trim (rule_pattern r) = rule_pattern r" "rule_pattern r \<noteq> ''''" "rule_source r = src"
    by auto
  have "trim (format_permission_rule r) =
      kind_text (rule_channel r) @ '':'' @ (CHR '' '' # rule_pattern r)"
    using trim_kind_text_append [OF t(2,1)] by (simp add: format_permission_rule_def)
  with t show ?thesis
    unfolding parse_rule_Inr_iff by (metis kind_text_no_colon kind_text_trim trim_space_Cons)
qed

theorem parse_format_roundtrip_witness:
  "parse_permission_rule_string (R_string (format_permission_rule (mk_rule K_bash ''git *'' Src_cli)))
     Src_cli ''--allow'' = Inr (mk_rule K_bash ''git *'' Src_cli)"
proof -
  have "parse_permission_rule_string (R_string ''  bash:git * '') Src_cli ''--allow''
      = Inr (mk_rule K_bash ''git *'' Src_cli)"
    by (simp add: parse_permission_rule_string_def Let_def trim_def js_space_def mk_rule_def
        channel_of_text_def valid_channels_def kind_text_def)
  then show ?thesis by (rule parse_format_roundtrip)
qed

text \<open>The parser accepts a string exactly when it has the form channel, colon, pattern with a
known channel and a non-blank pattern; everything else is an error value.\<close>

theorem parse_accepts_exactly_the_grammar:
  "is_ok (parse_permission_rule_string (R_string s) src ctx) \<longleftrightarrow>
     (\<exists>c p k. trim s = c @ '':'' @ p \<and> CHR '':'' \<notin> set c \<and> trim c = kind_text k \<and> trim p \<noteq> '''')"
  (is "?L \<longleftrightarrow> ?R")
proof
  assume ?L
  then show ?R unfolding is_ok_iff parse_rule_Inr_iff by metis
next
  assume ?R
  then obtain c p k where "trim s = c @ '':'' @ p" "CHR '':'' \<notin> set c" "trim c = kind_text k" "trim p \<noteq> ''''"
    by blast
  then have "parse_permission_rule_string (R_string s) src ctx = Inr (mk_rule k (trim p) src)"
    unfolding parse_rule_Inr_iff by (auto simp: mk_rule_def)
  then show ?L by simp
qed

end
