(* ===== verification/Workspace_Store.thy ===== *)
theory Workspace_Store
  imports Permissions_Grammar
begin

text \<open>
  The per-workspace records under the Cliq home: the trust gate of \<open>src/session/trust.ts\<close>, the
  persisted permissions of \<open>src/session/permissions.ts\<close> and the runtime table of
  \<open>src/policy/compose-runtime.ts\<close>.  The disk maps the two files of a workspace to their parsed JSON;
  a file may be missing, unparsable or unreadable.
\<close>

section \<open>JSON values and the disk\<close>

text \<open>Numbers other than integers never match a record and are one opaque case.\<close>

datatype json =
    J_null | J_bool bool | J_int int | J_other_number
  | J_string string | J_array "json list" | J_object "(string \<times> json) list"

text \<open>\<open>x && typeof x === 'object'\<close>, and a property read on such a value (an array has none of the
record's fields).\<close>

fun json_is_object :: "json \<Rightarrow> bool" where
  "json_is_object (J_array _) = True"
| "json_is_object (J_object _) = True"
| "json_is_object _ = False"

fun json_field :: "json \<Rightarrow> string \<Rightarrow> json option" where
  "json_field (J_object fs) k = map_of fs k"
| "json_field _ k = None"

fun json_text :: "json option \<Rightarrow> string option" where
  "json_text (Some (J_string s)) = Some s"
| "json_text _ = None"

datatype ws_file = Permissions_File string | Trust_File string

datatype file_content = Parsed json | Garbage | Unreadable string

type_synonym disk = "ws_file \<Rightarrow> file_content option"

record trust_context =
  workspaceRealPath :: string
  workspaceId :: string

text \<open>\<open>fs.readFile\<close> and \<open>JSON.parse\<close>: a missing file and an unparsable one read as absent, any other
I/O error is rethrown.\<close>

definition read_json :: "disk \<Rightarrow> ws_file \<Rightarrow> (string, json option) result" where
  "read_json d f =
     (case d f of
        None \<Rightarrow> Inr None
      | Some (Unreadable m) \<Rightarrow> Inl m
      | Some Garbage \<Rightarrow> Inr None
      | Some (Parsed j) \<Rightarrow> Inr (Some j))"

text \<open>Write to a temporary file, then rename: the target changes only if every step succeeds
(\<open>fault\<close> is the message of the step that fails).\<close>

definition atomic_write :: "string option \<Rightarrow> ws_file \<Rightarrow> json \<Rightarrow> disk \<Rightarrow> (string, disk) result" where
  "atomic_write fault f j d = (case fault of Some m \<Rightarrow> Inl m | None \<Rightarrow> Inr (d(f := Some (Parsed j))))"

section \<open>Persisted permissions\<close>

record persisted_rule =
  pr_channel :: access_channel_kind
  pr_pattern :: string

record permissions_record =
  perm_workspaceId :: string
  perm_realPath :: string
  perm_decidedAt :: string
  perm_allow :: "persisted_rule list"
  perm_deny :: "persisted_rule list"

definition sanitize_item :: "json \<Rightarrow> persisted_rule option" where
  "sanitize_item item =
     (if \<not> json_is_object item then None
      else (case (json_text (json_field item ''channel''), json_text (json_field item ''pattern'')) of
              (Some c, Some p) \<Rightarrow>
                (case channel_of_text c of
                   None \<Rightarrow> None
                 | Some k \<Rightarrow> Some \<lparr>pr_channel = k, pr_pattern = p\<rparr>)
            | _ \<Rightarrow> None))"

definition sanitize_rules :: "json option \<Rightarrow> persisted_rule list option" where
  "sanitize_rules v =
     (case v of
        None \<Rightarrow> Some []
      | Some (J_array items) \<Rightarrow> Some (List.map_filter sanitize_item items)
      | Some _ \<Rightarrow> None)"

definition decode_permissions :: "trust_context \<Rightarrow> json \<Rightarrow> permissions_record option" where
  "decode_permissions ctx parsed =
     (if \<not> json_is_object parsed then None
      else (case (json_text (json_field parsed ''workspaceId''),
                  json_text (json_field parsed ''workspaceRealPath''),
                  json_text (json_field parsed ''decidedAt'')) of
              (Some wid, Some path, Some stamp) \<Rightarrow>
                if json_field parsed ''version'' \<noteq> Some (J_int 1) then None
                else if wid \<noteq> workspaceId ctx then None
                else (case (sanitize_rules (json_field parsed ''allow''),
                            sanitize_rules (json_field parsed ''deny'')) of
                        (Some al, Some de) \<Rightarrow>
                          Some \<lparr>perm_workspaceId = wid, perm_realPath = path, perm_decidedAt = stamp,
                                perm_allow = al, perm_deny = de\<rparr>
                      | _ \<Rightarrow> None)
            | _ \<Rightarrow> None))"

definition read_persisted_permissions ::
  "trust_context \<Rightarrow> disk \<Rightarrow> (string, permissions_record option) result" where
  "read_persisted_permissions ctx d =
     (case read_json d (Permissions_File (workspaceId ctx)) of
        Inl m \<Rightarrow> Inl m
      | Inr None \<Rightarrow> Inr None
      | Inr (Some j) \<Rightarrow> Inr (decode_permissions ctx j))"

definition encode_rule :: "persisted_rule \<Rightarrow> json" where
  "encode_rule r = J_object [(''channel'', J_string (kind_text (pr_channel r))), (''pattern'', J_string (pr_pattern r))]"

definition encode_permissions :: "permissions_record \<Rightarrow> json" where
  "encode_permissions r =
     J_object [(''version'', J_int 1), (''workspaceId'', J_string (perm_workspaceId r)),
       (''workspaceRealPath'', J_string (perm_realPath r)), (''decidedAt'', J_string (perm_decidedAt r)),
       (''allow'', J_array (map encode_rule (perm_allow r))),
       (''deny'', J_array (map encode_rule (perm_deny r)))]"

definition write_persisted_permissions ::
  "string option \<Rightarrow> string \<Rightarrow> trust_context \<Rightarrow> persisted_rule list \<Rightarrow> persisted_rule list \<Rightarrow> disk
     \<Rightarrow> (string, permissions_record \<times> disk) result" where
  "write_persisted_permissions fault now ctx al de d =
     (let v = \<lparr>perm_workspaceId = workspaceId ctx, perm_realPath = workspaceRealPath ctx,
               perm_decidedAt = now, perm_allow = al, perm_deny = de\<rparr>
      in case atomic_write fault (Permissions_File (workspaceId ctx)) (encode_permissions v) d of
           Inl m \<Rightarrow> Inl m
         | Inr d' \<Rightarrow> Inr (v, d'))"

datatype persist_kind = Persist_allow | Persist_deny

definition push_if_new :: "persisted_rule \<Rightarrow> persisted_rule list \<Rightarrow> persisted_rule list" where
  "push_if_new r rs =
     (if List.list_ex (\<lambda>q. pr_channel q = pr_channel r \<and> pr_pattern q = pr_pattern r) rs then rs else rs @ [r])"

definition append_persisted_permission ::
  "string option \<Rightarrow> string \<Rightarrow> trust_context \<Rightarrow> persist_kind \<Rightarrow> persisted_rule \<Rightarrow> disk
     \<Rightarrow> (string, permissions_record \<times> disk) result" where
  "append_persisted_permission fault now ctx kind r d =
     (case read_persisted_permissions ctx d of
        Inl m \<Rightarrow> Inl m
      | Inr current \<Rightarrow>
          (let al = (case current of None \<Rightarrow> [] | Some c \<Rightarrow> perm_allow c);
               de = (case current of None \<Rightarrow> [] | Some c \<Rightarrow> perm_deny c)
           in case kind of
                Persist_allow \<Rightarrow> write_persisted_permissions fault now ctx (push_if_new r al) de d
              | Persist_deny \<Rightarrow> write_persisted_permissions fault now ctx al (push_if_new r de) d))"

section \<open>The runtime table\<close>

definition to_persisted_rule :: "persisted_rule \<Rightarrow> permission_rule" where
  "to_persisted_rule r = mk_rule (pr_channel r) (pr_pattern r) Src_persisted"

definition permission_layer_from_persisted :: "permissions_record \<Rightarrow> permission_layer" where
  "permission_layer_from_persisted rec =
     \<lparr>lay_deny = Some (map to_persisted_rule (perm_deny rec)),
      lay_allow = Some (map to_persisted_rule (perm_allow rec)), lay_ask = Some []\<rparr>"

definition compose_runtime_permission_table ::
  "trust_context \<Rightarrow> disk \<Rightarrow> permission_layer option \<Rightarrow> permission_layer option
     \<Rightarrow> (string, permission_table) result" where
  "compose_runtime_permission_table ctx d wsConfig cli =
     (case read_persisted_permissions ctx d of
        Inl m \<Rightarrow> Inl m
      | Inr persisted \<Rightarrow>
          Inr (compose_permission_table
            ((case wsConfig of None \<Rightarrow> []
                | Some c \<Rightarrow> [\<lparr>lay_deny = Some (case lay_deny c of None \<Rightarrow> [] | Some rs \<Rightarrow> rs),
                             lay_allow = Some (case lay_allow c of None \<Rightarrow> [] | Some rs \<Rightarrow> rs),
                             lay_ask = Some (case lay_ask c of None \<Rightarrow> [] | Some rs \<Rightarrow> rs)\<rparr>])
             @ (case persisted of None \<Rightarrow> [] | Some rec \<Rightarrow> [permission_layer_from_persisted rec])
             @ (case cli of None \<Rightarrow> [] | Some l \<Rightarrow> [l]))))"

section \<open>Workspace trust\<close>

datatype trust_decision = Trusted | Denied

datatype env_trust = Env_trust | Env_deny

definition js_lower_char :: "char \<Rightarrow> char" where
  "js_lower_char c =
     (let n = (of_char c :: nat)
      in if (65 \<le> n \<and> n \<le> 90) \<or> (192 \<le> n \<and> n \<le> 222 \<and> n \<noteq> 215) then char_of (n + 32) else c)"

definition js_lower :: "string \<Rightarrow> string" where
  "js_lower s = map js_lower_char s"

datatype trust_error = Invalid_trust_env string

definition parse_trust_env :: "string option \<Rightarrow> (trust_error, env_trust option) result" where
  "parse_trust_env env =
     (case env of
        None \<Rightarrow> Inr None
      | Some e \<Rightarrow>
          (let raw = trim e in
           if raw = '''' then Inr None
           else (let norm = js_lower raw in
                 if norm \<in> {''trust'', ''trusted'', ''1'', ''yes''} then Inr (Some Env_trust)
                 else if norm \<in> {''deny'', ''untrusted'', ''0'', ''no''} then Inr (Some Env_deny)
                 else Inl (Invalid_trust_env raw))))"

definition decision_of_text :: "string \<Rightarrow> trust_decision option" where
  "decision_of_text t = (if t = ''trusted'' then Some Trusted else if t = ''denied'' then Some Denied else None)"

definition decode_trust :: "trust_context \<Rightarrow> json \<Rightarrow> trust_decision option" where
  "decode_trust ctx parsed =
     (if \<not> json_is_object parsed then None
      else (case (json_text (json_field parsed ''workspaceId''),
                  json_text (json_field parsed ''workspaceRealPath''),
                  json_text (json_field parsed ''decidedAt''),
                  Option.bind (json_text (json_field parsed ''decision'')) decision_of_text) of
              (Some wid, Some path, Some stamp, Some dec) \<Rightarrow>
                if json_field parsed ''version'' \<noteq> Some (J_int 1) then None
                else if wid \<noteq> workspaceId ctx then None
                else Some dec
            | _ \<Rightarrow> None))"

definition read_persisted_trust :: "trust_context \<Rightarrow> disk \<Rightarrow> (string, trust_decision option) result" where
  "read_persisted_trust ctx d =
     (case read_json d (Trust_File (workspaceId ctx)) of
        Inl m \<Rightarrow> Inl m
      | Inr None \<Rightarrow> Inr None
      | Inr (Some j) \<Rightarrow> Inr (decode_trust ctx j))"

definition trust_text :: "trust_decision \<Rightarrow> string" where
  "trust_text t = (case t of Trusted \<Rightarrow> ''trusted'' | Denied \<Rightarrow> ''denied'')"

definition encode_trust :: "string \<Rightarrow> trust_context \<Rightarrow> trust_decision \<Rightarrow> json" where
  "encode_trust now ctx dec =
     J_object [(''version'', J_int 1), (''workspaceId'', J_string (workspaceId ctx)),
       (''workspaceRealPath'', J_string (workspaceRealPath ctx)),
       (''decision'', J_string (trust_text dec)), (''decidedAt'', J_string now)]"

definition write_persisted_trust ::
  "string option \<Rightarrow> string \<Rightarrow> trust_context \<Rightarrow> trust_decision \<Rightarrow> disk \<Rightarrow> (string, disk) result" where
  "write_persisted_trust fault now ctx dec d =
     atomic_write fault (Trust_File (workspaceId ctx)) (encode_trust now ctx dec) d"

datatype trust_verdict = Trust_ok_env | Trust_ok_persisted
  | Trust_invalid_env string | Trust_env_deny | Trust_previously_declined | Trust_unknown

definition evaluate_trust_non_interactive ::
  "trust_context \<Rightarrow> string option \<Rightarrow> disk \<Rightarrow> (string, trust_verdict) result" where
  "evaluate_trust_non_interactive ctx env d =
     (case parse_trust_env env of
        Inl (Invalid_trust_env raw) \<Rightarrow> Inr (Trust_invalid_env raw)
      | Inr (Some Env_deny) \<Rightarrow> Inr Trust_env_deny
      | Inr (Some Env_trust) \<Rightarrow> Inr Trust_ok_env
      | Inr None \<Rightarrow>
          (case read_persisted_trust ctx d of
             Inl m \<Rightarrow> Inl m
           | Inr (Some Trusted) \<Rightarrow> Inr Trust_ok_persisted
           | Inr (Some Denied) \<Rightarrow> Inr Trust_previously_declined
           | Inr None \<Rightarrow> Inr Trust_unknown))"

section \<open>Codecs\<close>

lemma decode_encode_rule [simp]: "sanitize_item (encode_rule r) = Some r"
  by (simp add: sanitize_item_def encode_rule_def)

lemma map_filter_encode [simp]: "List.map_filter sanitize_item (map encode_rule rs) = rs"
  by (induction rs) (simp_all add: List.map_filter_simps)

lemma decode_encode_permissions [simp]:
  "decode_permissions ctx (encode_permissions r) =
     (if perm_workspaceId r = workspaceId ctx then Some r else None)"
  by (simp add: decode_permissions_def encode_permissions_def sanitize_rules_def)

lemma decode_encode_trust [simp]: "decode_trust ctx (encode_trust now ctx dec) = Some dec"
  by (cases dec) (simp_all add: decode_trust_def encode_trust_def trust_text_def decision_of_text_def)

text \<open>
  Both records share one contract, the interface their callers rely on: a successful write is what the
  next read of that workspace returns, other files keep their contents, and a failed write changes nothing.
\<close>

locale record_store =
  fixes rd :: "trust_context \<Rightarrow> disk \<Rightarrow> (string, 'r option) result"
    and wr :: "trust_context \<Rightarrow> 'r \<Rightarrow> disk \<Rightarrow> disk"
    and file_of :: "trust_context \<Rightarrow> ws_file"
    and stamped :: "trust_context \<Rightarrow> 'r \<Rightarrow> bool"
  assumes rd_wr: "stamped ctx r \<Longrightarrow> rd ctx (wr ctx r d) = Inr (Some r)"
    and wr_frame: "f \<noteq> file_of ctx \<Longrightarrow> wr ctx r d f = d f"
    and rd_local: "d (file_of ctx) = d' (file_of ctx) \<Longrightarrow> rd ctx d = rd ctx d'"
begin

lemma rd_other:
  assumes "file_of ctx' \<noteq> file_of ctx"
  shows "rd ctx' (wr ctx r d) = rd ctx' d"
  by (rule rd_local) (simp add: wr_frame assms)

lemma last_write_wins:
  assumes "stamped ctx r'"
  shows "rd ctx (wr ctx r' (wr ctx r d)) = Inr (Some r')"
  using assms by (rule rd_wr)

end

definition store_permissions :: "trust_context \<Rightarrow> permissions_record \<Rightarrow> disk \<Rightarrow> disk" where
  "store_permissions ctx r d = d(Permissions_File (workspaceId ctx) := Some (Parsed (encode_permissions r)))"

definition store_trust :: "string \<Rightarrow> trust_context \<Rightarrow> trust_decision \<Rightarrow> disk \<Rightarrow> disk" where
  "store_trust now ctx dec d = d(Trust_File (workspaceId ctx) := Some (Parsed (encode_trust now ctx dec)))"

interpretation permissions: record_store read_persisted_permissions store_permissions
  "\<lambda>ctx. Permissions_File (workspaceId ctx)" "\<lambda>ctx r. perm_workspaceId r = workspaceId ctx"
  by unfold_locales
     (auto simp: read_persisted_permissions_def store_permissions_def read_json_def)

interpretation trust: record_store read_persisted_trust "store_trust now"
  "\<lambda>ctx. Trust_File (workspaceId ctx)" "\<lambda>ctx r. True" for now
  by unfold_locales
     (auto simp: read_persisted_trust_def store_trust_def read_json_def)

lemma write_permissions_Inr:
  "write_persisted_permissions fault now ctx al de d = Inr (v, d') \<longleftrightarrow>
     fault = None \<and> d' = store_permissions ctx v d \<and>
     v = \<lparr>perm_workspaceId = workspaceId ctx, perm_realPath = workspaceRealPath ctx,
          perm_decidedAt = now, perm_allow = al, perm_deny = de\<rparr>"
  by (auto simp: write_persisted_permissions_def atomic_write_def Let_def store_permissions_def
      split: option.splits)

definition current_allow :: "trust_context \<Rightarrow> disk \<Rightarrow> persisted_rule list" where
  "current_allow ctx d =
     (case read_persisted_permissions ctx d of Inr (Some r) \<Rightarrow> perm_allow r | _ \<Rightarrow> [])"

definition current_deny :: "trust_context \<Rightarrow> disk \<Rightarrow> persisted_rule list" where
  "current_deny ctx d =
     (case read_persisted_permissions ctx d of Inr (Some r) \<Rightarrow> perm_deny r | _ \<Rightarrow> [])"

lemma append_Inr:
  assumes "append_persisted_permission fault now ctx kind r d = Inr (v, d')"
  shows "d' = store_permissions ctx v d \<and> perm_workspaceId v = workspaceId ctx \<and>
    perm_allow v = (if kind = Persist_allow then push_if_new r (current_allow ctx d) else current_allow ctx d) \<and>
    perm_deny v = (if kind = Persist_deny then push_if_new r (current_deny ctx d) else current_deny ctx d)"
  using assms
  by (auto simp: append_persisted_permission_def Let_def write_permissions_Inr current_allow_def
      current_deny_def split: sum.splits option.splits persist_kind.splits)

lemma persisted_rule_eq: "pr_channel q = pr_channel r \<and> pr_pattern q = pr_pattern r \<longleftrightarrow> q = (r :: persisted_rule)"
  by (cases q; cases r) auto

lemma push_if_new_eq: "push_if_new r rs = (if r \<in> set rs then rs else rs @ [r])"
  by (simp add: push_if_new_def list_ex_iff persisted_rule_eq)

lemma push_if_new_set: "set (push_if_new r rs) = insert r (set rs)"
  and push_if_new_distinct: "distinct rs \<Longrightarrow> distinct (push_if_new r rs)"
  by (auto simp: push_if_new_eq)

lemma current_after_append:
  assumes "append_persisted_permission fault now ctx kind r d = Inr (v, d')"
  shows "read_persisted_permissions ctx d' = Inr (Some v)"
  using append_Inr [OF assms] by (simp add: permissions.rd_wr)

section \<open>Properties\<close>

text \<open> Appending a rule is durable and minimal: the next read returns the old lists with exactly
that rule added to the chosen list (once), the other list unchanged.\<close>

theorem append_permission_durable:
  assumes "append_persisted_permission fault now ctx kind r d = Inr (v, d')"
  shows "read_persisted_permissions ctx d' = Inr (Some v) \<and>
    set (perm_allow v) = (if kind = Persist_allow then insert r (set (current_allow ctx d)) else set (current_allow ctx d)) \<and>
    set (perm_deny v) = (if kind = Persist_deny then insert r (set (current_deny ctx d)) else set (current_deny ctx d)) \<and>
    (distinct (current_allow ctx d) \<longrightarrow> distinct (perm_allow v))"
  using current_after_append [OF assms] append_Inr [OF assms]
  by (auto simp: push_if_new_set push_if_new_distinct)

theorem append_permission_durable_witness:
  "read_persisted_permissions \<lparr>workspaceRealPath = ''/w'', workspaceId = ''id''\<rparr>
     (store_permissions \<lparr>workspaceRealPath = ''/w'', workspaceId = ''id''\<rparr>
        \<lparr>perm_workspaceId = ''id'', perm_realPath = ''/w'', perm_decidedAt = ''t'',
         perm_allow = [\<lparr>pr_channel = K_bash, pr_pattern = ''git''\<rparr>], perm_deny = []\<rparr> (\<lambda>_. None))
   = Inr (Some \<lparr>perm_workspaceId = ''id'', perm_realPath = ''/w'', perm_decidedAt = ''t'',
         perm_allow = [\<lparr>pr_channel = K_bash, pr_pattern = ''git''\<rparr>], perm_deny = []\<rparr>)"
proof -
  have "append_persisted_permission None ''t'' \<lparr>workspaceRealPath = ''/w'', workspaceId = ''id''\<rparr>
      Persist_allow \<lparr>pr_channel = K_bash, pr_pattern = ''git''\<rparr> (\<lambda>_. None)
    = Inr (\<lparr>perm_workspaceId = ''id'', perm_realPath = ''/w'', perm_decidedAt = ''t'',
         perm_allow = [\<lparr>pr_channel = K_bash, pr_pattern = ''git''\<rparr>], perm_deny = []\<rparr>,
        store_permissions \<lparr>workspaceRealPath = ''/w'', workspaceId = ''id''\<rparr>
        \<lparr>perm_workspaceId = ''id'', perm_realPath = ''/w'', perm_decidedAt = ''t'',
         perm_allow = [\<lparr>pr_channel = K_bash, pr_pattern = ''git''\<rparr>], perm_deny = []\<rparr> (\<lambda>_. None))"
    by (simp add: append_persisted_permission_def read_persisted_permissions_def read_json_def
        push_if_new_def write_permissions_Inr)
  from append_permission_durable [OF this] show ?thesis by blast
qed

text \<open> A corrupt, foreign or missing permissions file never elevates: unless the file parses to a
version 1 record of this very workspace, the runtime table is the one composed without it.\<close>

theorem corrupt_permissions_are_absent:
  assumes "\<And>j. d (Permissions_File (workspaceId ctx)) = Some (Parsed j) \<Longrightarrow>
      json_field j ''version'' \<noteq> Some (J_int 1) \<or>
      json_field j ''workspaceId'' \<noteq> Some (J_string (workspaceId ctx))"
    and "\<And>m. d (Permissions_File (workspaceId ctx)) \<noteq> Some (Unreadable m)"
  shows "compose_runtime_permission_table ctx d wsConfig cli =
         compose_runtime_permission_table ctx (\<lambda>_. None) wsConfig cli"
proof -
  have "decode_permissions ctx j = None" if "d (Permissions_File (workspaceId ctx)) = Some (Parsed j)" for j
    using assms(1) [OF that]
    by (auto simp: decode_permissions_def split: option.splits if_splits elim!: json_text.elims)
  then have "read_persisted_permissions ctx d = Inr None"
    using assms(2)
    by (auto simp: read_persisted_permissions_def read_json_def split: option.splits file_content.splits)
  moreover have "read_persisted_permissions ctx (\<lambda>_. None) = Inr None"
    by (simp add: read_persisted_permissions_def read_json_def)
  ultimately show ?thesis by (simp add: compose_runtime_permission_table_def)
qed

theorem corrupt_permissions_are_absent_witness:
  "compose_runtime_permission_table \<lparr>workspaceRealPath = ''/w'', workspaceId = ''id''\<rparr>
     (\<lambda>_. Some (Parsed (J_object [(''version'', J_int 2)]))) None None =
   compose_runtime_permission_table \<lparr>workspaceRealPath = ''/w'', workspaceId = ''id''\<rparr> (\<lambda>_. None) None None"
  by (rule corrupt_permissions_are_absent) auto

text \<open> Non-interactive entry is granted exactly on an explicit trust value in the environment or,
with no value there, on a stored decision to trust this workspace.\<close>

theorem trust_gate_grants_iff:
  "evaluate_trust_non_interactive ctx env d \<in> {Inr Trust_ok_env, Inr Trust_ok_persisted} \<longleftrightarrow>
     parse_trust_env env = Inr (Some Env_trust) \<or>
     (parse_trust_env env = Inr None \<and> read_persisted_trust ctx d = Inr (Some Trusted))"
  by (auto simp: evaluate_trust_non_interactive_def
      split: sum.splits option.splits env_trust.splits trust_decision.splits trust_error.splits)

end
