(* ===== verification/Interactive_Policy.thy ===== *)
theory Interactive_Policy
  imports Workspace_Store
begin

text \<open>
  The interactive engine of \<open>src/policy/interactive-policy.ts\<close> with the approval scopes of
  \<open>src/policy/approval-scope.ts\<close>, wired as \<open>src/cli.ts\<close> wires them: the engine, the shared permission
  table the scopes push to, and the disk the workspace scope writes before it touches the table.
\<close>

section \<open>Approval scopes\<close>

datatype approval_scope = Scope_session | Scope_workspace

fun approval_subject_to_permission_rule :: "policy_subject \<Rightarrow> rule_source \<Rightarrow> permission_rule option" where
  "approval_subject_to_permission_rule (Tool_Subject n a ch d tx) src =
     (let key = primary_key ch in if key = '''' then None else Some (mk_rule (channel_kind ch) key src))"
| "approval_subject_to_permission_rule (Tx_Apply_Subject _ _ _ _ _) src = None"
| "approval_subject_to_permission_rule (Permission_Request_Subject _ _ _ _) src = None"

fun subject_kind_text :: "policy_subject \<Rightarrow> string" where
  "subject_kind_text (Tool_Subject _ _ _ _ _) = ''tool''"
| "subject_kind_text (Tx_Apply_Subject _ _ _ _ _) = ''tx-apply''"
| "subject_kind_text (Permission_Request_Subject _ _ _ _) = ''permission-request''"

text \<open>Result of extending a scope: \<open>None\<close> for ok, \<open>Some reason\<close> for a soft failure; with the table and
the disk afterwards.\<close>

definition push_allow :: "permission_rule \<Rightarrow> permission_table \<Rightarrow> permission_table" where
  "push_allow r tbl = tbl\<lparr>tbl_allow := tbl_allow tbl @ [r]\<rparr>"

definition extend_approval_scope ::
  "trust_context \<Rightarrow> string option \<Rightarrow> string \<Rightarrow> policy_subject \<Rightarrow> approval_scope \<Rightarrow> permission_table \<Rightarrow> disk
     \<Rightarrow> string option \<times> permission_table \<times> disk" where
  "extend_approval_scope ctx fault now subject scope tbl d =
     (case approval_subject_to_permission_rule subject
             (if scope = Scope_session then Src_session else Src_persisted) of
        None \<Rightarrow> (Some (''cannot derive a permission rule from '' @ subject_kind_text subject @ '' subject''), tbl, d)
      | Some r \<Rightarrow>
          (if scope = Scope_workspace then
             (case append_persisted_permission fault now ctx Persist_allow
                     \<lparr>pr_channel = rule_channel r, pr_pattern = rule_pattern r\<rparr> d of
                Inl m \<Rightarrow> (Some m, tbl, d)
              | Inr (v, d') \<Rightarrow> (None, push_allow r tbl, d'))
           else (None, push_allow r tbl, d)))"

section \<open>The interactive engine\<close>

datatype choice = Ch_allow | Ch_deny | Ch_allow_turn | Ch_allow_session | Ch_allow_workspace

record live_policy =
  lp_mode :: policy_mode
  lp_table :: permission_table
  lp_disk :: disk
  lp_allowTurn :: bool

text \<open>\<open>rebuildForExtendedAllow\<close> makes a new inner engine over the same mode and the same (mutated) table,
so the state after it is the state with the pushed table.\<close>

definition live_decide ::
  "trust_context \<Rightarrow> string option \<Rightarrow> string \<Rightarrow> policy_subject \<Rightarrow> choice \<Rightarrow> live_policy
     \<Rightarrow> approval_decision \<times> (approval_scope \<times> string) option \<times> live_policy" where
  "live_decide ctx fault now subject userChoice st =
     (let decision = decide (lp_mode st) (lp_table st) subject in
      if behavior_of decision \<noteq> B_ask then (decision, None, st)
      else if lp_allowTurn st then (Allow None By_user, None, st)
      else (case userChoice of
          Ch_allow \<Rightarrow> (Allow None By_user, None, st)
        | Ch_allow_turn \<Rightarrow> (Allow None By_user, None, st\<lparr>lp_allowTurn := True\<rparr>)
        | Ch_deny \<Rightarrow> (Deny ''user denied via TUI approval modal'' By_user, None, st)
        | _ \<Rightarrow>
            (let scope = (if userChoice = Ch_allow_session then Scope_session else Scope_workspace);
                 (failure, tbl', d') = extend_approval_scope ctx fault now subject scope (lp_table st) (lp_disk st)
             in (Allow None By_user, map_option (\<lambda>m. (scope, m)) failure,
                 st\<lparr>lp_table := tbl', lp_disk := d'\<rparr>))))"

definition set_mode :: "policy_mode \<Rightarrow> live_policy \<Rightarrow> live_policy" where
  "set_mode m st = st\<lparr>lp_mode := m\<rparr>"

definition reset_turn :: "live_policy \<Rightarrow> live_policy" where
  "reset_turn st = st\<lparr>lp_allowTurn := False\<rparr>"

inductive live_step :: "trust_context \<Rightarrow> live_policy \<Rightarrow> live_policy \<Rightarrow> bool" for ctx where
  decides: "live_decide ctx fault now subject c st = (decision, failure, st') \<Longrightarrow> live_step ctx st st'"
| sets_mode: "live_step ctx st (set_mode m st)"
| resets: "live_step ctx st (reset_turn st)"

inductive live_reachable :: "trust_context \<Rightarrow> live_policy \<Rightarrow> live_policy \<Rightarrow> bool" for ctx s0 where
  live_start: "live_reachable ctx s0 s0"
| live_next: "live_reachable ctx s0 s \<Longrightarrow> live_step ctx s t \<Longrightarrow> live_reachable ctx s0 t"

inductive_cases live_stepE: "live_step ctx st st'"

section \<open>Invariants\<close>

text \<open>Every allow rule the table claims to be persisted is in the stored record of the workspace.\<close>

definition persisted_backed :: "trust_context \<Rightarrow> live_policy \<Rightarrow> bool" where
  "persisted_backed ctx st \<longleftrightarrow>
     (\<forall>r \<in> set (tbl_allow (lp_table st)). rule_source r = Src_persisted \<longrightarrow>
        \<lparr>pr_channel = rule_channel r, pr_pattern = rule_pattern r\<rparr> \<in> set (current_allow ctx (lp_disk st)))"

lemma derived_rule_source: "approval_subject_to_permission_rule s src = Some r \<Longrightarrow> rule_source r = src"
  by (cases s) (auto simp: Let_def mk_rule_def split: if_splits)

lemma extend_cases:
  assumes "extend_approval_scope ctx fault now s scope tbl d = (failure, tbl', d')"
  obtains (failed) "tbl' = tbl" "d' = d" "failure \<noteq> None"
  | (session) r where "scope = Scope_session" "failure = None" "tbl' = push_allow r tbl" "d' = d" "rule_source r = Src_session"
  | (workspace) r v where "scope = Scope_workspace" "failure = None" "tbl' = push_allow r tbl" "rule_source r = Src_persisted"
      "append_persisted_permission fault now ctx Persist_allow
         \<lparr>pr_channel = rule_channel r, pr_pattern = rule_pattern r\<rparr> d = Inr (v, d')"
  using assms derived_rule_source
  by (cases scope) (fastforce simp: extend_approval_scope_def split: option.splits sum.splits if_splits)+

lemma live_decide_cases:
  assumes "live_decide ctx fault now s c st = (decision, failure, st')"
  obtains (frame) "lp_table st' = lp_table st" "lp_disk st' = lp_disk st" "lp_mode st' = lp_mode st"
  | (extended) f scope where "lp_mode st' = lp_mode st"
      "extend_approval_scope ctx fault now s scope (lp_table st) (lp_disk st) = (f, lp_table st', lp_disk st')"
      "c \<in> {Ch_allow_session, Ch_allow_workspace}" "scope = Scope_workspace \<longleftrightarrow> c = Ch_allow_workspace"
  using assms
  by (cases c) (auto simp: live_decide_def Let_def split: if_splits prod.splits)

lemma push_allow_simps [simp]:
  "tbl_deny (push_allow r t) = tbl_deny t" "tbl_allow (push_allow r t) = tbl_allow t @ [r]"
  "tbl_ask (push_allow r t) = tbl_ask t"
  by (simp_all add: push_allow_def)

lemma extend_deny_frame:
  "extend_approval_scope ctx fault now s scope tbl d = (failure, tbl', d') \<Longrightarrow> tbl_deny tbl' = tbl_deny tbl"
  by (erule extend_cases) simp_all

lemma live_step_deny_frame: "live_step ctx st st' \<Longrightarrow> tbl_deny (lp_table st') = tbl_deny (lp_table st)"
  by (erule live_stepE)
     (auto simp: set_mode_def reset_turn_def elim!: live_decide_cases dest: extend_deny_frame)

lemma live_reachable_deny_frame:
  "live_reachable ctx s0 s \<Longrightarrow> tbl_deny (lp_table s) = tbl_deny (lp_table s0)"
  by (induction rule: live_reachable.induct) (auto dest: live_step_deny_frame)

lemma current_allow_after_append:
  assumes "append_persisted_permission fault now ctx Persist_allow r d = Inr (v, d')"
  shows "set (current_allow ctx d') = insert r (set (current_allow ctx d))"
  using current_after_append [OF assms] append_Inr [OF assms]
  by (simp add: current_allow_def push_if_new_set)

lemma extend_persisted_backed:
  assumes "extend_approval_scope ctx fault now s scope (lp_table st) (lp_disk st) = (f, lp_table st', lp_disk st')"
    and "persisted_backed ctx st"
  shows "persisted_backed ctx st'"
  using assms(1)
proof (cases rule: extend_cases)
  case failed
  with assms(2) show ?thesis by (simp add: persisted_backed_def)
next
  case (session r)
  with assms(2) show ?thesis by (auto simp: persisted_backed_def)
next
  case (workspace r v)
  with assms(2) show ?thesis
    using current_allow_after_append [OF workspace(5)] by (auto simp: persisted_backed_def)
qed

lemma live_step_persisted_backed:
  assumes "live_step ctx st st'" and "persisted_backed ctx st"
  shows "persisted_backed ctx st'"
  using assms(1)
proof (cases rule: live_step.cases)
  case (decides fault now s c decision failure)
  from decides show ?thesis
  proof (cases rule: live_decide_cases)
    case frame
    with assms(2) show ?thesis by (simp add: persisted_backed_def)
  next
    case (extended f scope)
    then show ?thesis using assms(2) extend_persisted_backed by blast
  qed
qed (use assms(2) in \<open>simp_all add: persisted_backed_def set_mode_def reset_turn_def\<close>)

section \<open>Properties\<close>

text \<open> Persist before mutate: in every reachable state of an interactive session, each allow rule
the table shows as persisted really is in the workspace record on disk, even when writes fail.\<close>

theorem persisted_rules_are_on_disk:
  assumes "live_reachable ctx s0 s" and "persisted_backed ctx s0"
  shows "persisted_backed ctx s"
  using assms by (induction rule: live_reachable.induct) (auto dest: live_step_persisted_backed)

theorem persisted_rules_are_on_disk_witness:
  "persisted_backed \<lparr>workspaceRealPath = ''/w'', workspaceId = ''id''\<rparr>
     (set_mode M_yolo \<lparr>lp_mode = M_default, lp_table = empty_permission_table, lp_disk = (\<lambda>_. None), lp_allowTurn = False\<rparr>)"
  by (rule persisted_rules_are_on_disk [OF live_next [OF live_start sets_mode]])
     (simp add: persisted_backed_def empty_permission_table_def)

text \<open> A failed scope extension leaves both the table and the disk as they were: no session-lived
allow survives a failed write.\<close>

theorem failed_extension_changes_nothing:
  assumes "extend_approval_scope ctx fault now s scope tbl d = (Some reason, tbl', d')"
  shows "tbl' = tbl \<and> d' = d"
  using assms by (cases rule: extend_cases) auto

theorem failed_extension_changes_nothing_witness:
  "empty_permission_table = empty_permission_table \<and> (\<lambda>_::ws_file. None :: file_content option) = (\<lambda>_. None)"
proof -
  have "extend_approval_scope \<lparr>workspaceRealPath = ''/w'', workspaceId = ''id''\<rparr> (Some ''EACCES'') ''t''
      (Tool_Subject ''edit'' A_write (Fs_Write ''a'' Op_Modify)
        \<lparr>dsp_title = ''t'', dsp_detail = None, dsp_path = None, dsp_command = None, dsp_server = None, dsp_tool = None\<rparr> None)
      Scope_workspace empty_permission_table (\<lambda>_. None) = (Some ''EACCES'', empty_permission_table, (\<lambda>_. None))"
    by (simp add: extend_approval_scope_def append_persisted_permission_def read_persisted_permissions_def
        read_json_def write_persisted_permissions_def atomic_write_def mk_rule_def)
  from failed_extension_changes_nothing [OF this] show ?thesis .
qed

text \<open> The user is never asked to overrule a denial, and every request is resolved: what the inner
engine denies stays denied, and no answer of the interactive engine is a question.\<close>

theorem live_decide_resolves:
  "live_decide ctx fault now s c st = (decision, failure, st') \<Longrightarrow>
     behavior_of decision \<noteq> B_ask \<and>
     (behavior_of (decide (lp_mode st) (lp_table st) s) = B_deny \<longrightarrow> behavior_of decision = B_deny \<and> st' = st) \<and>
     (behavior_of decision = B_allow \<longrightarrow> behavior_of (decide (lp_mode st) (lp_table st) s) \<noteq> B_deny)"
  by (cases c) (auto simp: live_decide_def Let_def split: if_splits prod.splits)

theorem live_decide_resolves_witness:
  "behavior_of (Deny ''policy mode plan blocks transaction apply'' By_policy) \<noteq> B_ask"
proof -
  let ?st = "\<lparr>lp_mode = M_plan, lp_table = empty_permission_table, lp_disk = (\<lambda>_. None), lp_allowTurn = True\<rparr>"
  let ?s = "Tx_Apply_Subject ''tx'' \<lparr>filesChanged = 1, additions = 2, deletions = 0\<rparr> [] [] ''a''"
  have "live_decide \<lparr>workspaceRealPath = ''/w'', workspaceId = ''id''\<rparr> None ''t'' ?s Ch_allow ?st
      = (Deny ''policy mode plan blocks transaction apply'' By_policy, None, ?st)"
    by (simp add: live_decide_def engine_defs)
  from live_decide_resolves [OF this] show ?thesis by blast
qed

text \<open>C1.  No sequence of approvals, mode switches and turn resets reaches past the deny floor: in
every state reachable from a session on a composed table, a channel a builtin rule reaches is denied.\<close>

theorem session_never_escapes_builtin_deny:
  assumes "live_reachable ctx s0 s" and "lp_table s0 = compose_permission_table layers"
    and "deny_hits (set builtin_deny) ch"
  shows "behavior_of (fst (live_decide ctx fault now (Tool_Subject n a ch d tx) c s)) = B_deny"
proof -
  have "tbl_deny (lp_table s) = builtin_deny @ layer_rules lay_deny layers"
    using live_reachable_deny_frame [OF assms(1)] assms(2) by simp
  then have "deny_hits (set (tbl_deny (lp_table s))) ch"
    by (intro deny_hits_mono [OF _ assms(3)]) simp
  then obtain r where "match_against_table (lp_table s) ch = T_Deny r"
    using match_denies_iff by blast
  then have "behavior_of (decide (lp_mode s) (lp_table s) (Tool_Subject n a ch d tx)) = B_deny"
    by (simp add: decide_table_cases apply_table_decision_def)
  then show ?thesis by (simp add: live_decide_def Let_def)
qed

theorem session_never_escapes_builtin_deny_witness:
  "behavior_of (fst (live_decide \<lparr>workspaceRealPath = ''/w'', workspaceId = ''id''\<rparr> None ''t''
     (Tool_Subject ''bash'' A_exec (Bash ''rm'' True None)
        \<lparr>dsp_title = ''t'', dsp_detail = None, dsp_path = None, dsp_command = None, dsp_server = None, dsp_tool = None\<rparr> None)
     Ch_allow_session
     (set_mode M_yolo \<lparr>lp_mode = M_default, lp_table = compose_permission_table [], lp_disk = (\<lambda>_. None), lp_allowTurn = True\<rparr>)))
   = B_deny"
  by (rule session_never_escapes_builtin_deny [OF live_next [OF live_start sets_mode], where layers = "[]"])
     (simp_all add: deny_hits_def rule_hits_def builtin_deny_def mk_rule_def matches_rule_def match_pattern_def)

text \<open> An approval extended to a scope covers exactly the approved key, unless that key itself
reads as a wildcard pattern (a star, or an ending in space-star or slash-star): then the derived rule
covers more than the user saw, up to every key of the channel for the key star.\<close>

theorem derived_rule_scope:
  assumes "approval_subject_to_permission_rule (Tool_Subject n a ch d tx) src = Some r"
  shows "(primary_key ch \<noteq> ''*'' \<and> \<not> ends_with (primary_key ch) '' *'' \<and> \<not> ends_with (primary_key ch) ''/*''
        \<longrightarrow> (\<forall>ch'. matches_rule r ch' \<longleftrightarrow> channel_kind ch' = channel_kind ch \<and> primary_key ch' = primary_key ch))
    \<and> (primary_key ch = ''*'' \<longrightarrow> (\<forall>ch'. matches_rule r ch' \<longleftrightarrow> channel_kind ch' = channel_kind ch))"
proof -
  from assms have r: "r = mk_rule (channel_kind ch) (primary_key ch) src"
    by (auto simp: Let_def split: if_splits)
  show ?thesis by (auto simp: r matches_rule_def mk_rule_def match_pattern_def)
qed

theorem derived_rule_scope_witness:
  "\<forall>ch'. matches_rule (mk_rule K_fs_write ''*'' Src_session) ch' \<longleftrightarrow> channel_kind ch' = K_fs_write"
proof -
  have "approval_subject_to_permission_rule (Tool_Subject ''edit'' A_write (Fs_Write ''*'' Op_Modify)
      \<lparr>dsp_title = ''t'', dsp_detail = None, dsp_path = None, dsp_command = None, dsp_server = None, dsp_tool = None\<rparr> None)
      Src_session = Some (mk_rule K_fs_write ''*'' Src_session)"
    by (simp add: Let_def)
  from derived_rule_scope [OF this] show ?thesis by simp
qed

end
