(* ===== verification/Json_Repair.thy ===== *)
theory Json_Repair
  imports Prelude
begin

text \<open>
  The repair of model output in \<open>src/protocol/model/json-repair.ts\<close>: invalid escapes and raw control
  characters inside string literals are rewritten, everything else is copied.  The output so far is the
  value of the recursion; the state is whether the cursor is inside a literal.
\<close>

definition valid_short_escapes :: "char list" where
  "valid_short_escapes = [CHR 0x22, CHR 0x5C, CHR ''/'', CHR ''b'', CHR ''f'', CHR ''n'', CHR ''r'', CHR ''t'']"

definition hex_digit :: "char \<Rightarrow> bool" where
  "hex_digit c = (c \<in> set ''0123456789abcdefABCDEF'')"

definition hex4 :: "string \<Rightarrow> bool" where
  "hex4 s = (length s = 4 \<and> list_all hex_digit s)"

definition is_control :: "char \<Rightarrow> bool" where
  "is_control c = ((of_char c :: nat) < 32)"

text \<open>The escape of a control character; \<open>code.toString(16).padStart(4, '0')\<close> in the default case.\<close>

definition control_escape :: "char \<Rightarrow> string" where
  "control_escape c =
     (if c = CHR 0x08 then [CHR 0x5C, CHR ''b'']
      else if c = CHR 0x0C then [CHR 0x5C, CHR ''f'']
      else if c = CHR 0x0A then [CHR 0x5C, CHR ''n'']
      else if c = CHR 0x0D then [CHR 0x5C, CHR ''r'']
      else if c = CHR 0x09 then [CHR 0x5C, CHR ''t'']
      else [CHR 0x5C, CHR ''u'', CHR ''0'', CHR ''0'',
            ''0123456789abcdef'' ! (of_char c div 16), ''0123456789abcdef'' ! (of_char c mod 16)])"

function repair_go :: "bool \<Rightarrow> string \<Rightarrow> string" where
  "repair_go inString [] = []"
| "repair_go False (c # rest) = c # repair_go (c = CHR 0x22) rest"
| "repair_go True (c # rest) =
     (if c = CHR 0x22 then c # repair_go False rest
      else if c = CHR 0x5C then
        (if rest = [] then [CHR 0x5C, CHR 0x5C]
         else if hd rest \<in> set valid_short_escapes then c # hd rest # repair_go True (drop 1 rest)
         else if hd rest = CHR ''u'' \<and> hex4 (take 4 (drop 1 rest)) then c # take 5 rest @ repair_go True (drop 5 rest)
         else CHR 0x5C # CHR 0x5C # repair_go True rest)
      else if is_control c then control_escape c @ repair_go True rest
      else c # repair_go True rest)"
  by pat_completeness auto
termination by (relation "measure (\<lambda>(b, s). length s)") auto

definition repair_json_strings :: "string \<Rightarrow> string" where
  "repair_json_strings raw = repair_go False raw"

section \<open>Texts whose literals are well formed\<close>

text \<open>Inside a literal every backslash starts a JSON escape and no control character is raw.\<close>

function literals_ok :: "bool \<Rightarrow> string \<Rightarrow> bool" where
  "literals_ok inString [] = True"
| "literals_ok False (c # rest) = literals_ok (c = CHR 0x22) rest"
| "literals_ok True (c # rest) =
     (if c = CHR 0x22 then literals_ok False rest
      else if c = CHR 0x5C then
        (if rest = [] then False
         else if hd rest \<in> set valid_short_escapes then literals_ok True (drop 1 rest)
         else if hd rest = CHR ''u'' \<and> hex4 (take 4 (drop 1 rest)) then literals_ok True (drop 5 rest)
         else False)
      else if is_control c then False
      else literals_ok True rest)"
  by pat_completeness auto
termination by (relation "measure (\<lambda>(b, s). length s)") auto

declare repair_go.simps(3) [simp del] literals_ok.simps(3) [simp del]

lemma literals_ok_short: "e \<in> set valid_short_escapes \<Longrightarrow> literals_ok True (CHR 0x5C # e # s) = literals_ok True s"
  by (simp add: literals_ok.simps(3))

lemma u_not_short: "CHR ''u'' \<notin> set valid_short_escapes"
  by (simp add: valid_short_escapes_def)

lemma literals_ok_u:
  "hex4 h \<Longrightarrow> literals_ok True (CHR 0x5C # CHR ''u'' # h @ s) = literals_ok True s"
  using u_not_short by (subst literals_ok.simps(3)) (auto simp: hex4_def)

lemma literals_ok_control: "is_control c \<Longrightarrow> literals_ok True (control_escape c @ s) = literals_ok True s"
proof -
  assume c: "is_control c"
  have m: "x \<in> set ''bfnrt'' \<Longrightarrow> x \<in> set valid_short_escapes" for x
    by (auto simp: valid_short_escapes_def)
  have d: "\<forall>n<16. hex_digit (''0123456789abcdef'' ! n)"
    by code_simp
  have "hex4 [CHR ''0'', CHR ''0'', ''0123456789abcdef'' ! (of_char c div 16), ''0123456789abcdef'' ! (of_char c mod 16)]"
  proof -
    have "hex_digit (CHR ''0'')" by code_simp
    moreover have "(of_char c :: nat) div 16 < 16" using c by (simp add: is_control_def)
    moreover have "(of_char c :: nat) mod 16 < 16" by simp
    ultimately show ?thesis using d by (simp add: hex4_def)
  qed
  from literals_ok_u [OF this, of s] show ?thesis
    unfolding control_escape_def by (auto simp: literals_ok_short m)
qed

lemma take5: "rest \<noteq> [] \<Longrightarrow> take 5 rest = hd rest # take 4 (drop 1 rest)"
  by (cases rest) auto

lemma literals_ok_plain:
  "literals_ok True (CHR 0x22 # s) = literals_ok False s"
  "c \<noteq> CHR 0x22 \<Longrightarrow> c \<noteq> CHR 0x5C \<Longrightarrow> \<not> is_control c \<Longrightarrow> literals_ok True (c # s) = literals_ok True s"
  by (simp_all add: literals_ok.simps(3))

lemma repair_go_ok: "literals_ok b (repair_go b s)"
proof (induction b s rule: repair_go.induct)
  case (1 b)
  show ?case by simp
next
  case (2 c rest)
  then show ?case by (cases "c = CHR 0x22") simp_all
next
  case (3 c rest)
  consider (close) "c = CHR 0x22"
    | (eos) "c \<noteq> CHR 0x22" "c = CHR 0x5C" "rest = []"
    | (short) "c \<noteq> CHR 0x22" "c = CHR 0x5C" "rest \<noteq> []" "hd rest \<in> set valid_short_escapes"
    | (hex) "c \<noteq> CHR 0x22" "c = CHR 0x5C" "rest \<noteq> []" "hd rest \<notin> set valid_short_escapes"
        "hd rest = CHR ''u'' \<and> hex4 (take 4 (drop 1 rest))"
    | (bad) "c \<noteq> CHR 0x22" "c = CHR 0x5C" "rest \<noteq> []" "hd rest \<notin> set valid_short_escapes"
        "\<not> (hd rest = CHR ''u'' \<and> hex4 (take 4 (drop 1 rest)))"
    | (control) "c \<noteq> CHR 0x22" "c \<noteq> CHR 0x5C" "is_control c"
    | (plain) "c \<noteq> CHR 0x22" "c \<noteq> CHR 0x5C" "\<not> is_control c" by blast
  then show ?case
  proof cases
    case close
    with "3.IH"(1) show ?thesis by (simp add: repair_go.simps(3) literals_ok_plain)
  next
    case eos
    have "CHR 0x5C \<in> set valid_short_escapes" by (simp add: valid_short_escapes_def)
    with eos show ?thesis by (simp add: repair_go.simps(3) literals_ok.simps(3))
  next
    case short
    from "3.IH"(2) [OF short] short(4) show ?thesis
      unfolding repair_go.simps(3) if_not_P [OF short(1)] if_P [OF short(2)] if_not_P [OF short(3)] if_P [OF short(4)]
      unfolding short(2) by (simp add: literals_ok_short)
  next
    case hex
    from "3.IH"(3) [OF hex] hex(5) show ?thesis
      unfolding repair_go.simps(3) if_not_P [OF hex(1)] if_P [OF hex(2)] if_not_P [OF hex(3)] if_not_P [OF hex(4)]
        if_P [OF hex(5)] take5 [OF hex(3)]
      unfolding hex(2) by (simp add: literals_ok_u)
  next
    case bad
    have "CHR 0x5C \<in> set valid_short_escapes" by (simp add: valid_short_escapes_def)
    with "3.IH"(4) [OF bad] show ?thesis
      unfolding repair_go.simps(3) if_not_P [OF bad(1)] if_P [OF bad(2)] if_not_P [OF bad(3)] if_not_P [OF bad(4)]
        if_not_P [OF bad(5)]
      by (simp add: literals_ok_short)
  next
    case control
    from "3.IH"(5) [OF control] literals_ok_control [OF control(3)] control show ?thesis
      by (simp add: repair_go.simps(3))
  next
    case plain
    from "3.IH"(6) [OF plain] plain show ?thesis
      by (simp add: repair_go.simps(3) literals_ok_plain)
  qed
qed

lemma repair_go_id: "literals_ok b s \<Longrightarrow> repair_go b s = s"
proof (induction b s rule: literals_ok.induct)
  case (3 c rest)
  then show ?case
    by (cases rest) (auto simp: repair_go.simps(3) literals_ok.simps(3) split: if_split_asm)
qed auto

text \<open>Repairing makes every string literal well formed and leaves exactly the texts alone whose literals
already are: it is idempotent and never touches a valid document.\<close>

theorem repair_fixpoint:
  "literals_ok False (repair_json_strings s) \<and> (repair_json_strings s = s \<longleftrightarrow> literals_ok False s)"
  using repair_go_ok [of False s] repair_go_id [of False s] by (auto simp: repair_json_strings_def)

end
