(* ===== verification/Model_Actions.thy ===== *)
theory Model_Actions
  imports Workspace_Store Json_Repair
begin

text \<open>
  The action parser of \<open>src/protocol/model/actions.ts\<close>.  \<open>JSON.parse\<close> enters as the argument \<open>json_parse\<close>
  (a value or the message of its SyntaxError); its objects are association lists with distinct keys.  A
  number is kept as the JSON value it is.
\<close>

section \<open>Actions\<close>

datatype item_status = Pending_Item | In_Progress | Completed_Item

record plan_item =
  pi_id :: "string option"
  pi_title :: string
  pi_status :: "item_status option"
  pi_notes :: "string option"

record todo_item =
  ti_id :: "string option"
  ti_title :: string
  ti_status :: item_status
  ti_activeForm :: "string option"
  ti_notes :: "string option"

datatype plan_action =
    Draft string string "plan_item list option" \<comment> \<open>title, content, items\<close>
  | Update "string option" "string option" string "plan_item list option" \<comment> \<open>planId, title, content, items\<close>
  | Finalize "string option"

datatype resource_mode = Read_Mode | List_Mode

datatype model_action =
    Bash_Action string
  | Edit_Action string string string \<comment> \<open>path, old_text, new_text\<close>
  | Read_Action string "json option" "json option" \<comment> \<open>path, start_line, end_line\<close>
  | Ls_Action "string option"
  | Find_Action "string option" string
  | Grep_Action "string option" string
  | Skill_Action string
  | Skill_Resource_Action string "string option" "resource_mode option"
  | Mcp_Action string string "json option"
  | Plan_Action plan_action
  | Todo_Action "string option" "todo_item list"
  | Message_Action string

datatype action_error =
    Invalid_json string
  | Invalid_action_object
  | Not_one_key
  | Unknown_key string
  | Unsupported_action

section \<open>Fields\<close>

text \<open>\<open>opt_string\<close>: the field is undefined or a string; \<open>opt_number\<close>: undefined or a number.  The outer
\<open>None\<close> says that the field has another type.\<close>

definition as_object :: "json option \<Rightarrow> json option" where
  "as_object v = (case v of Some (J_object fs) \<Rightarrow> Some (J_object fs) | _ \<Rightarrow> None)"

definition opt_string :: "json option \<Rightarrow> string option option" where
  "opt_string v = (case v of None \<Rightarrow> Some None | Some (J_string s) \<Rightarrow> Some (Some s) | _ \<Rightarrow> None)"

definition opt_number :: "json option \<Rightarrow> json option option" where
  "opt_number v =
     (case v of None \<Rightarrow> Some None
      | Some (J_int n) \<Rightarrow> Some (Some (J_int n)) | Some J_other_number \<Rightarrow> Some (Some J_other_number) | _ \<Rightarrow> None)"

definition opt_object :: "json option \<Rightarrow> json option option" where
  "opt_object v = (case v of None \<Rightarrow> Some None | Some (J_object fs) \<Rightarrow> Some (Some (J_object fs)) | _ \<Rightarrow> None)"

definition status_text :: "item_status \<Rightarrow> string" where
  "status_text s = (case s of Pending_Item \<Rightarrow> ''pending'' | In_Progress \<Rightarrow> ''in_progress'' | Completed_Item \<Rightarrow> ''completed'')"

definition status_of :: "json option \<Rightarrow> item_status option" where
  "status_of v =
     (if v = Some (J_string ''pending'') then Some Pending_Item
      else if v = Some (J_string ''in_progress'') then Some In_Progress
      else if v = Some (J_string ''completed'') then Some Completed_Item
      else None)"

definition mode_of :: "json option \<Rightarrow> resource_mode option option" where
  "mode_of v =
     (if v = None then Some None
      else if v = Some (J_string ''read'') then Some (Some Read_Mode)
      else if v = Some (J_string ''list'') then Some (Some List_Mode)
      else None)"

section \<open>Items\<close>

definition parse_plan_item_action :: "json \<Rightarrow> plan_item option" where
  "parse_plan_item_action v =
     (case as_object (Some v) of
        None \<Rightarrow> None
      | Some item \<Rightarrow>
          (case (json_text (json_field item ''title''), opt_string (json_field item ''id''),
                 opt_string (json_field item ''notes'')) of
             (Some title, Some i, Some notes) \<Rightarrow>
               (if trim title = [] then None
                else if json_field item ''status'' = None
                  then Some \<lparr>pi_id = i, pi_title = title, pi_status = None, pi_notes = notes\<rparr>
                else (case status_of (json_field item ''status'') of
                    None \<Rightarrow> None
                  | Some st \<Rightarrow> Some \<lparr>pi_id = i, pi_title = title, pi_status = Some st, pi_notes = notes\<rparr>))
           | _ \<Rightarrow> None))"

definition parse_todo_item_action :: "json \<Rightarrow> todo_item option" where
  "parse_todo_item_action v =
     (case as_object (Some v) of
        None \<Rightarrow> None
      | Some item \<Rightarrow>
          (case (opt_string (json_field item ''id''), json_text (json_field item ''title''),
                 status_of (json_field item ''status''), opt_string (json_field item ''activeForm''),
                 opt_string (json_field item ''notes'')) of
             (Some i, Some title, Some st, Some active, Some notes) \<Rightarrow>
               (if trim title = [] then None
                else (let activeForm = (case active of None \<Rightarrow> [] | Some a \<Rightarrow> trim a) in
                  Some \<lparr>ti_id = i, ti_title = title, ti_status = st,
                        ti_activeForm = (if activeForm = [] then None else Some activeForm), ti_notes = notes\<rparr>))
           | _ \<Rightarrow> None))"

fun parse_all :: "('a \<Rightarrow> 'b option) \<Rightarrow> 'a list \<Rightarrow> 'b list option" where
  "parse_all f [] = Some []"
| "parse_all f (x # xs) =
     (case f x of None \<Rightarrow> None | Some y \<Rightarrow> (case parse_all f xs of None \<Rightarrow> None | Some ys \<Rightarrow> Some (y # ys)))"

text \<open>The outer \<open>None\<close> is null (not an item array), the inner one undefined.\<close>

definition parse_plan_items :: "json option \<Rightarrow> plan_item list option option" where
  "parse_plan_items v =
     (case v of None \<Rightarrow> Some None
      | Some (J_array xs) \<Rightarrow> map_option Some (parse_all parse_plan_item_action xs)
      | _ \<Rightarrow> None)"

definition parse_todo_items :: "json option \<Rightarrow> todo_item list option" where
  "parse_todo_items v =
     (case v of Some (J_array xs) \<Rightarrow> parse_all parse_todo_item_action xs | _ \<Rightarrow> None)"

section \<open>One action\<close>

text \<open>Each reader is one of the parser's if-blocks: the action, or \<open>None\<close> to fall to the next block.\<close>

definition read_edit :: "json \<Rightarrow> model_action option" where
  "read_edit r =
     (case as_object (json_field r ''edit'') of
        None \<Rightarrow> None
      | Some e \<Rightarrow>
          (case (json_text (json_field e ''path''), json_text (json_field e ''old_text''),
                 json_text (json_field e ''new_text'')) of
             (Some p, Some old, Some new) \<Rightarrow> Some (Edit_Action p old new)
           | _ \<Rightarrow> None))"

definition read_read :: "json \<Rightarrow> model_action option" where
  "read_read r =
     (case as_object (json_field r ''read'') of
        None \<Rightarrow> None
      | Some e \<Rightarrow>
          (case (json_text (json_field e ''path''), opt_number (json_field e ''start_line''),
                 opt_number (json_field e ''end_line'')) of
             (Some p, Some s, Some t) \<Rightarrow> Some (Read_Action p s t)
           | _ \<Rightarrow> None))"

definition read_ls :: "json \<Rightarrow> model_action option" where
  "read_ls r =
     (case as_object (json_field r ''ls'') of
        None \<Rightarrow> None
      | Some e \<Rightarrow> map_option Ls_Action (opt_string (json_field e ''path'')))"

definition read_find :: "json \<Rightarrow> model_action option" where
  "read_find r =
     (case as_object (json_field r ''find'') of
        None \<Rightarrow> None
      | Some e \<Rightarrow>
          (case (opt_string (json_field e ''path''), json_text (json_field e ''name'')) of
             (Some p, Some n) \<Rightarrow> Some (Find_Action p n)
           | _ \<Rightarrow> None))"

definition read_grep :: "json \<Rightarrow> model_action option" where
  "read_grep r =
     (case as_object (json_field r ''grep'') of
        None \<Rightarrow> None
      | Some e \<Rightarrow>
          (case (opt_string (json_field e ''path''), json_text (json_field e ''pattern'')) of
             (Some p, Some n) \<Rightarrow> Some (Grep_Action p n)
           | _ \<Rightarrow> None))"

definition read_skill :: "json \<Rightarrow> model_action option" where
  "read_skill r =
     (case as_object (json_field r ''skill'') of
        None \<Rightarrow> None
      | Some e \<Rightarrow> map_option Skill_Action (json_text (json_field e ''name'')))"

definition read_skill_resource :: "json \<Rightarrow> model_action option" where
  "read_skill_resource r =
     (case as_object (json_field r ''skillResource'') of
        None \<Rightarrow> None
      | Some e \<Rightarrow>
          (case (json_text (json_field e ''skill''), opt_string (json_field e ''path''), mode_of (json_field e ''mode'')) of
             (Some s, Some p, Some m) \<Rightarrow> Some (Skill_Resource_Action s p m)
           | _ \<Rightarrow> None))"

definition read_mcp :: "json \<Rightarrow> model_action option" where
  "read_mcp r =
     (case as_object (json_field r ''mcp'') of
        None \<Rightarrow> None
      | Some e \<Rightarrow>
          (case (json_text (json_field e ''server''), json_text (json_field e ''tool''),
                 opt_object (json_field e ''arguments'')) of
             (Some s, Some t, Some a) \<Rightarrow> Some (Mcp_Action s t a)
           | _ \<Rightarrow> None))"

text \<open>A plan whose items do not parse throws at once.\<close>

definition read_plan_op :: "json \<Rightarrow> plan_item list option \<Rightarrow> plan_action option" where
  "read_plan_op e items =
     (case (json_field e ''op'' = Some (J_string ''draft''), json_text (json_field e ''title''),
            json_text (json_field e ''content'')) of
        (True, Some title, Some content) \<Rightarrow> Some (Draft title content items)
      | _ \<Rightarrow>
     (case (json_field e ''op'' = Some (J_string ''update''), opt_string (json_field e ''planId''),
            opt_string (json_field e ''title''), json_text (json_field e ''content'')) of
        (True, Some pid, Some title, Some content) \<Rightarrow> Some (Update pid title content items)
      | _ \<Rightarrow>
     (case (json_field e ''op'' = Some (J_string ''finalize''), opt_string (json_field e ''planId'')) of
        (True, Some pid) \<Rightarrow> Some (Finalize pid)
      | _ \<Rightarrow> None)))"

definition read_plan :: "json \<Rightarrow> (action_error, model_action option) result" where
  "read_plan r =
     (case as_object (json_field r ''plan'') of
        None \<Rightarrow> Inr None
      | Some e \<Rightarrow>
          (case parse_plan_items (json_field e ''items'') of
             None \<Rightarrow> Inl Unsupported_action
           | Some items \<Rightarrow> Inr (map_option Plan_Action (read_plan_op e items))))"

definition read_todo :: "json \<Rightarrow> model_action option" where
  "read_todo r =
     (case as_object (json_field r ''todo'') of
        None \<Rightarrow> None
      | Some e \<Rightarrow>
          (case (parse_todo_items (json_field e ''items''), opt_string (json_field e ''planId'')) of
             (Some items, Some pid) \<Rightarrow> Some (Todo_Action pid items)
           | _ \<Rightarrow> None))"

definition top_level_actions :: "string list" where
  "top_level_actions =
     [''bash'', ''edit'', ''read'', ''ls'', ''find'', ''grep'', ''skill'', ''skillResource'', ''mcp'', ''plan'',
      ''todo'', ''message'']"

fun first_some :: "'a option list \<Rightarrow> 'a option" where
  "first_some [] = None"
| "first_some (x # xs) = (case x of Some v \<Rightarrow> Some v | None \<Rightarrow> first_some xs)"

definition action_of_value :: "json \<Rightarrow> (action_error, model_action) result" where
  "action_of_value parsed =
     (case parsed of
        J_object fs \<Rightarrow>
          (if length fs \<noteq> 1 then Inl Not_one_key
           else (case first_some
               [map_option Bash_Action (json_text (json_field parsed ''bash'')),
                map_option Message_Action (json_text (json_field parsed ''message'')),
                read_edit parsed, read_read parsed, read_ls parsed, read_find parsed, read_grep parsed,
                read_skill parsed, read_skill_resource parsed, read_mcp parsed] of
               Some a \<Rightarrow> Inr a
             | None \<Rightarrow>
                 and_then (read_plan parsed) (\<lambda>p.
                 (case first_some [p, read_todo parsed] of
                    Some a \<Rightarrow> Inr a
                  | None \<Rightarrow>
                      (if fst (hd fs) \<notin> set top_level_actions then Inl (Unknown_key (fst (hd fs)))
                       else Inl Unsupported_action)))))
      | _ \<Rightarrow> Inl Invalid_action_object)"

definition parse_model_action ::
  "(string \<Rightarrow> (string, json) result) \<Rightarrow> string \<Rightarrow> (action_error, model_action) result" where
  "parse_model_action json_parse content =
     (case json_parse content of
        Inr parsed \<Rightarrow> action_of_value parsed
      | Inl firstError \<Rightarrow>
          (case json_parse (repair_json_strings content) of
             Inr parsed \<Rightarrow> action_of_value parsed
           | Inl _ \<Rightarrow> Inl (Invalid_json firstError)))"

section \<open>Rendering\<close>

text \<open>The JSON value of an action, optional fields left out, and the actions that have one.\<close>

definition opt_field :: "string \<Rightarrow> json option \<Rightarrow> (string \<times> json) list" where
  "opt_field k v = (case v of None \<Rightarrow> [] | Some x \<Rightarrow> [(k, x)])"

definition opt_text :: "string \<Rightarrow> string option \<Rightarrow> (string \<times> json) list" where
  "opt_text k v = opt_field k (map_option J_string v)"

definition mode_text_of :: "resource_mode \<Rightarrow> string" where
  "mode_text_of m = (case m of Read_Mode \<Rightarrow> ''read'' | List_Mode \<Rightarrow> ''list'')"

definition render_plan_item :: "plan_item \<Rightarrow> json" where
  "render_plan_item i =
     J_object (opt_text ''id'' (pi_id i) @ [(''title'', J_string (pi_title i))]
       @ opt_text ''status'' (map_option status_text (pi_status i)) @ opt_text ''notes'' (pi_notes i))"

definition render_todo_item :: "todo_item \<Rightarrow> json" where
  "render_todo_item i =
     J_object (opt_text ''id'' (ti_id i) @ [(''title'', J_string (ti_title i)),
         (''status'', J_string (status_text (ti_status i)))]
       @ opt_text ''activeForm'' (ti_activeForm i) @ opt_text ''notes'' (ti_notes i))"

definition items_field :: "plan_item list option \<Rightarrow> (string \<times> json) list" where
  "items_field items = opt_field ''items'' (map_option (\<lambda>is. J_array (map render_plan_item is)) items)"

fun render_plan :: "plan_action \<Rightarrow> json" where
  "render_plan (Draft title content items) =
     J_object ([(''op'', J_string ''draft''), (''title'', J_string title), (''content'', J_string content)]
       @ items_field items)"
| "render_plan (Update pid title content items) =
     J_object ((''op'', J_string ''update'') # opt_text ''planId'' pid @ opt_text ''title'' title
       @ (''content'', J_string content) # items_field items)"
| "render_plan (Finalize pid) = J_object ((''op'', J_string ''finalize'') # opt_text ''planId'' pid)"

fun action_key :: "model_action \<Rightarrow> string" where
  "action_key (Bash_Action _) = ''bash''"
| "action_key (Edit_Action _ _ _) = ''edit''"
| "action_key (Read_Action _ _ _) = ''read''"
| "action_key (Ls_Action _) = ''ls''"
| "action_key (Find_Action _ _) = ''find''"
| "action_key (Grep_Action _ _) = ''grep''"
| "action_key (Skill_Action _) = ''skill''"
| "action_key (Skill_Resource_Action _ _ _) = ''skillResource''"
| "action_key (Mcp_Action _ _ _) = ''mcp''"
| "action_key (Plan_Action _) = ''plan''"
| "action_key (Todo_Action _ _) = ''todo''"
| "action_key (Message_Action _) = ''message''"

fun render_body :: "model_action \<Rightarrow> json" where
  "render_body (Bash_Action s) = J_string s"
| "render_body (Edit_Action p old new) =
     J_object [(''path'', J_string p), (''old_text'', J_string old), (''new_text'', J_string new)]"
| "render_body (Read_Action p s e) =
     J_object ((''path'', J_string p) # opt_field ''start_line'' s @ opt_field ''end_line'' e)"
| "render_body (Ls_Action p) = J_object (opt_text ''path'' p)"
| "render_body (Find_Action p n) = J_object (opt_text ''path'' p @ [(''name'', J_string n)])"
| "render_body (Grep_Action p n) = J_object (opt_text ''path'' p @ [(''pattern'', J_string n)])"
| "render_body (Skill_Action n) = J_object [(''name'', J_string n)]"
| "render_body (Skill_Resource_Action s p m) =
     J_object ((''skill'', J_string s) # opt_text ''path'' p @ opt_text ''mode'' (map_option mode_text_of m))"
| "render_body (Mcp_Action s t a) =
     J_object ((''server'', J_string s) # (''tool'', J_string t) # opt_field ''arguments'' a)"
| "render_body (Plan_Action p) = render_plan p"
| "render_body (Todo_Action pid items) =
     J_object (opt_text ''planId'' pid @ [(''items'', J_array (map render_todo_item items))])"
| "render_body (Message_Action s) = J_string s"

definition render_action :: "model_action \<Rightarrow> json" where
  "render_action a = J_object [(action_key a, render_body a)]"

definition is_number :: "json \<Rightarrow> bool" where
  "is_number v = (case v of J_int _ \<Rightarrow> True | J_other_number \<Rightarrow> True | _ \<Rightarrow> False)"

definition wf_plan_item :: "plan_item \<Rightarrow> bool" where
  "wf_plan_item i = (trim (pi_title i) \<noteq> [])"

definition wf_todo_item :: "todo_item \<Rightarrow> bool" where
  "wf_todo_item i =
     (trim (ti_title i) \<noteq> [] \<and> (case ti_activeForm i of None \<Rightarrow> True | Some a \<Rightarrow> a \<noteq> [] \<and> trim a = a))"

definition wf_items :: "plan_item list option \<Rightarrow> bool" where
  "wf_items items = (case items of None \<Rightarrow> True | Some is \<Rightarrow> list_all wf_plan_item is)"

fun wf_action :: "model_action \<Rightarrow> bool" where
  "wf_action (Read_Action p s e) = (pred_option is_number s \<and> pred_option is_number e)"
| "wf_action (Mcp_Action s t a) = pred_option (\<lambda>v. \<exists>fs. v = J_object fs) a"
| "wf_action (Plan_Action (Draft t c items)) = wf_items items"
| "wf_action (Plan_Action (Update p t c items)) = wf_items items"
| "wf_action (Todo_Action pid items) = list_all wf_todo_item items"
| "wf_action _ = True"

subsection \<open>Parsing what was rendered\<close>

lemma parse_all_map: "list_all (\<lambda>x. f (g x) = Some x) xs \<Longrightarrow> parse_all f (map g xs) = Some xs"
  by (induction xs) auto

lemma parse_all_wf: "parse_all f xs = Some ys \<Longrightarrow> (\<And>x y. f x = Some y \<Longrightarrow> P y) \<Longrightarrow> list_all P ys"
  by (induction xs arbitrary: ys) (auto split: option.splits)

lemma status_of_text [simp]: "status_of (Some (J_string (status_text s))) = Some s"
  by (cases s) (simp_all add: status_of_def status_text_def)

lemma mode_of_text [simp]: "mode_of (Some (J_string (mode_text_of s))) = Some (Some s)"
  by (cases s) (simp_all add: mode_of_def mode_text_of_def)

lemma opt_string_simps [simp]:
  "opt_string None = Some None" "opt_string (Some (J_string s)) = Some (Some s)"
  "opt_string (map_option J_string x) = Some x"
  by (cases x; simp add: opt_string_def)+

lemma opt_number_ok: "pred_option is_number v \<Longrightarrow> opt_number v = Some v"
  by (cases v) (auto simp: opt_number_def is_number_def split: json.splits)

lemma opt_object_ok: "pred_option (\<lambda>v. \<exists>fs. v = J_object fs) v \<Longrightarrow> opt_object v = Some v"
  by (cases v) (auto simp: opt_object_def)

declare map_of_append [simp del]

lemma json_field_opt_append [simp]:
  "map_of (opt_field k v @ ys) k' = (if k = k' \<and> v \<noteq> None then v else map_of ys k')"
  "map_of (opt_field k v) k' = (if k = k' then v else None)"
  by (cases v; simp add: opt_field_def)+

lemma as_object_J [simp]: "as_object (Some (J_object fs)) = Some (J_object fs)"
  by (simp add: as_object_def)

lemma plan_item_roundtrip: "wf_plan_item i \<Longrightarrow> parse_plan_item_action (render_plan_item i) = Some i"
  by (cases i; cases "pi_status i")
     (auto simp: parse_plan_item_action_def render_plan_item_def opt_text_def wf_plan_item_def)

lemma todo_item_roundtrip: "wf_todo_item i \<Longrightarrow> parse_todo_item_action (render_todo_item i) = Some i"
  by (cases i; cases "ti_activeForm i")
     (auto simp: parse_todo_item_action_def render_todo_item_def opt_text_def wf_todo_item_def)

lemma plan_items_roundtrip:
  "wf_items items \<Longrightarrow> parse_plan_items (map_option (\<lambda>is. J_array (map render_plan_item is)) items) = Some items"
  by (cases items)
     (auto simp: parse_plan_items_def wf_items_def list_all_iff plan_item_roundtrip intro!: parse_all_map)

lemma todo_items_roundtrip:
  "list_all wf_todo_item items \<Longrightarrow> parse_todo_items (Some (J_array (map render_todo_item items))) = Some items"
  by (auto simp: parse_todo_items_def list_all_iff todo_item_roundtrip intro!: parse_all_map)

lemma read_plan_roundtrip:
  "wf_action (Plan_Action p) \<Longrightarrow> read_plan (J_object [(''plan'', render_plan p)]) = Inr (Some (Plan_Action p))"
proof (cases p)
  case (Draft t c items)
  assume "wf_action (Plan_Action p)"
  with Draft plan_items_roundtrip [of items] show ?thesis
    by (simp add: read_plan_def read_plan_op_def items_field_def)
next
  case (Update pid t c items)
  assume "wf_action (Plan_Action p)"
  with Update plan_items_roundtrip [of items] show ?thesis
    by (simp add: read_plan_def read_plan_op_def items_field_def opt_text_def)
next
  case (Finalize pid)
  then show ?thesis
    by (simp add: read_plan_def read_plan_op_def opt_text_def parse_plan_items_def)
qed

text \<open>Every reader looks at its own key only.\<close>

lemma other_key:
  "k \<noteq> ''edit'' \<Longrightarrow> read_edit (J_object [(k, v)]) = None"
  "k \<noteq> ''read'' \<Longrightarrow> read_read (J_object [(k, v)]) = None"
  "k \<noteq> ''ls'' \<Longrightarrow> read_ls (J_object [(k, v)]) = None"
  "k \<noteq> ''find'' \<Longrightarrow> read_find (J_object [(k, v)]) = None"
  "k \<noteq> ''grep'' \<Longrightarrow> read_grep (J_object [(k, v)]) = None"
  "k \<noteq> ''skill'' \<Longrightarrow> read_skill (J_object [(k, v)]) = None"
  "k \<noteq> ''skillResource'' \<Longrightarrow> read_skill_resource (J_object [(k, v)]) = None"
  "k \<noteq> ''mcp'' \<Longrightarrow> read_mcp (J_object [(k, v)]) = None"
  "k \<noteq> ''plan'' \<Longrightarrow> read_plan (J_object [(k, v)]) = Inr None"
  "k \<noteq> ''todo'' \<Longrightarrow> read_todo (J_object [(k, v)]) = None"
  by (simp_all add: read_edit_def read_read_def read_ls_def read_find_def read_grep_def read_skill_def
      read_skill_resource_def read_mcp_def read_plan_def read_todo_def as_object_def)

lemma action_value_roundtrip: "wf_action a \<Longrightarrow> action_of_value (render_action a) = Inr a"
proof (cases a)
  case (Bash_Action s)
  then show ?thesis by (simp add: action_of_value_def render_action_def)
next
  case (Edit_Action p old new)
  then show ?thesis by (simp add: action_of_value_def render_action_def other_key read_edit_def)
next
  case (Read_Action p s e)
  assume "wf_action a"
  with Read_Action show ?thesis
    by (simp add: action_of_value_def render_action_def other_key read_read_def opt_number_ok)
next
  case (Ls_Action p)
  then show ?thesis
    by (simp add: action_of_value_def render_action_def other_key read_ls_def opt_text_def)
next
  case (Find_Action p n)
  then show ?thesis
    by (simp add: action_of_value_def render_action_def other_key read_find_def opt_text_def)
next
  case (Grep_Action p n)
  then show ?thesis
    by (simp add: action_of_value_def render_action_def other_key read_grep_def opt_text_def)
next
  case (Skill_Action n)
  then show ?thesis by (simp add: action_of_value_def render_action_def other_key read_skill_def)
next
  case (Skill_Resource_Action s p m)
  then show ?thesis
    by (cases m) (simp_all add: action_of_value_def render_action_def other_key read_skill_resource_def opt_text_def mode_of_def [of None])
next
  case (Mcp_Action s t args)
  assume "wf_action a"
  with Mcp_Action show ?thesis
    by (simp add: action_of_value_def render_action_def other_key read_mcp_def opt_object_ok)
next
  case (Plan_Action p)
  assume "wf_action a"
  with Plan_Action read_plan_roundtrip [of p] show ?thesis
    by (simp add: action_of_value_def render_action_def other_key)
next
  case (Todo_Action pid items)
  assume "wf_action a"
  with Todo_Action todo_items_roundtrip [of items] show ?thesis
    by (simp add: action_of_value_def render_action_def other_key read_todo_def opt_text_def)
next
  case (Message_Action s)
  then show ?thesis by (simp add: action_of_value_def render_action_def)
qed

subsection \<open>What the parser accepts\<close>

lemma opt_number_SomeD: "opt_number v = Some w \<Longrightarrow> pred_option is_number w"
  by (auto simp: opt_number_def is_number_def split: option.splits json.splits)

lemma opt_object_SomeD: "opt_object v = Some w \<Longrightarrow> pred_option (\<lambda>v. \<exists>fs. v = J_object fs) w"
  by (auto simp: opt_object_def split: option.splits json.splits)

lemma parse_plan_item_wf: "parse_plan_item_action v = Some i \<Longrightarrow> wf_plan_item i"
  by (auto simp: parse_plan_item_action_def wf_plan_item_def split: option.splits if_splits)

lemma parse_todo_item_wf: "parse_todo_item_action v = Some i \<Longrightarrow> wf_todo_item i"
  by (auto simp: parse_todo_item_action_def wf_todo_item_def trim_trim Let_def split: option.splits if_splits)

lemma parse_plan_items_wf: "parse_plan_items v = Some items \<Longrightarrow> wf_items items"
  by (auto simp: parse_plan_items_def wf_items_def split: option.splits json.splits
      dest!: parse_all_wf [OF _ parse_plan_item_wf])

lemma parse_todo_items_wf: "parse_todo_items v = Some items \<Longrightarrow> list_all wf_todo_item items"
  by (auto simp: parse_todo_items_def split: option.splits json.splits
      dest!: parse_all_wf [OF _ parse_todo_item_wf])

lemma read_plan_op_wf: "read_plan_op e items = Some p \<Longrightarrow> wf_items items \<Longrightarrow> wf_action (Plan_Action p)"
  by (auto simp: read_plan_op_def split: option.splits bool.splits)

definition sound_reader :: "string \<Rightarrow> (json \<Rightarrow> model_action option) \<Rightarrow> bool" where
  "sound_reader k f \<longleftrightarrow>
     (\<forall>k' v a. f (J_object [(k', v)]) = Some a \<longrightarrow> k' = k \<and> action_key a = k \<and> wf_action a)"

lemma sound_readers:
  "sound_reader ''edit'' read_edit" "sound_reader ''read'' read_read" "sound_reader ''ls'' read_ls"
  "sound_reader ''find'' read_find" "sound_reader ''grep'' read_grep" "sound_reader ''skill'' read_skill"
  "sound_reader ''skillResource'' read_skill_resource" "sound_reader ''mcp'' read_mcp"
  "sound_reader ''todo'' read_todo"
  unfolding sound_reader_def
  by (auto simp: read_edit_def read_read_def read_ls_def read_find_def read_grep_def read_skill_def
      read_skill_resource_def read_mcp_def read_todo_def as_object_def
      split: option.splits if_splits dest: opt_number_SomeD opt_object_SomeD parse_todo_items_wf)

lemma sound_reader_list:
  assumes "first_some (map (\<lambda>(k, f). f (J_object [(k', v)])) rs) = Some a" and "\<forall>(k, f)\<in>set rs. sound_reader k f"
  shows "action_key a = k' \<and> wf_action a"
  using assms by (induction rs) (auto simp: sound_reader_def split: option.splits)

lemma text_readers:
  "sound_reader ''bash'' (\<lambda>r. map_option Bash_Action (json_text (json_field r ''bash'')))"
  "sound_reader ''message'' (\<lambda>r. map_option Message_Action (json_text (json_field r ''message'')))"
  by (auto simp: sound_reader_def split: if_splits)

lemma read_plan_sound:
  "read_plan (J_object [(k, v)]) = Inr p \<Longrightarrow> p = Some a \<Longrightarrow> k = ''plan'' \<and> action_key a = ''plan'' \<and> wf_action a"
  by (auto simp: read_plan_def as_object_def split: option.splits if_splits
      dest!: parse_plan_items_wf dest: read_plan_op_wf)

lemma action_value_sound:
  assumes "action_of_value j = Inr a"
  shows "wf_action a \<and> (\<exists>v. j = J_object [(action_key a, v)])"
proof -
  from assms obtain fs where j: "j = J_object fs" and "length fs = 1"
    by (auto simp: action_of_value_def split: json.splits if_splits)
  then obtain k v where fs: "fs = [(k, v)]" by (cases fs) auto
  let ?r = "J_object [(k, v)]"
  let ?rs = "[(''bash'', \<lambda>r. map_option Bash_Action (json_text (json_field r ''bash''))),
      (''message'', \<lambda>r. map_option Message_Action (json_text (json_field r ''message''))),
      (''edit'', read_edit), (''read'', read_read), (''ls'', read_ls), (''find'', read_find), (''grep'', read_grep),
      (''skill'', read_skill), (''skillResource'', read_skill_resource), (''mcp'', read_mcp)]"
  let ?first = "first_some (map (\<lambda>(k', f). f ?r) ?rs)"
  have def: "action_of_value j = (case ?first of Some a \<Rightarrow> Inr a
      | None \<Rightarrow> and_then (read_plan ?r) (\<lambda>p. case first_some [p, read_todo ?r] of Some a \<Rightarrow> Inr a
          | None \<Rightarrow> if k \<notin> set top_level_actions then Inl (Unknown_key k) else Inl Unsupported_action))"
    unfolding j fs action_of_value_def
    by (simp only: json.case list.map prod.case list.sel fst_conv list.size add_0 One_nat_def simp_thms if_False)
  have "wf_action a \<and> action_key a = k"
  proof (cases ?first)
    case (Some b)
    have "\<forall>(k, f)\<in>set ?rs. sound_reader k f" by (simp add: sound_readers text_readers)
    from sound_reader_list [OF Some this] Some assms show ?thesis unfolding def by simp
  next
    case None
    with assms obtain p where p: "read_plan ?r = Inr p" "first_some [p, read_todo ?r] = Some a"
      unfolding def by (auto simp: and_then_Inr split: option.splits if_splits)
    then show ?thesis
      using read_plan_sound [OF p(1)] sound_readers(9) by (cases p) (auto simp: sound_reader_def split: option.splits)
  qed
  with j fs show ?thesis by blast
qed

text \<open>C39. Every well-formed action is the value of its JSON rendering, whatever the options present.\<close>

theorem action_roundtrip:
  assumes "json_parse content = Inr (render_action a)" and "wf_action a"
  shows "parse_model_action json_parse content = Inr a"
  using assms by (simp add: parse_model_action_def action_value_roundtrip)

theorem action_roundtrip_witness:
  "parse_model_action (\<lambda>s. if s = ''{\"bash\":\"ls\"}'' then Inr (J_object [(''bash'', J_string ''ls'')]) else Inl ''bad'')
     ''{\"bash\":\"ls\"}'' = Inr (Bash_Action ''ls'')"
  by (rule action_roundtrip) (simp_all add: render_action_def)

text \<open>The parser never invents an action: what it returns is the single key of a JSON object that the model
wrote, or that its repaired output holds, and the action is well formed.\<close>

theorem parsed_action_is_what_was_written:
  assumes "parse_model_action json_parse content = Inr a"
  shows "wf_action a \<and>
    (\<exists>source v. source \<in> {content, repair_json_strings content} \<and>
       json_parse source = Inr (J_object [(action_key a, v)]))"
proof -
  from assms obtain source j where "source \<in> {content, repair_json_strings content}" "json_parse source = Inr j"
    "action_of_value j = Inr a"
    by (auto simp: parse_model_action_def split: sum.splits)
  with action_value_sound [of j a] show ?thesis by blast
qed

theorem parsed_action_is_what_was_written_witness:
  "wf_action (Todo_Action None [])"
  by (rule parsed_action_is_what_was_written [of "\<lambda>s. Inr (J_object [(''todo'', J_object [(''items'', J_array [])])])"
        "''x''", THEN conjunct1])
     (simp add: parse_model_action_def action_of_value_def other_key read_todo_def parse_todo_items_def)

end
