(* ===== verification/Bash_Tokens.thy ===== *)
theory Bash_Tokens
  imports Decision_Table
begin

text \<open>
  The tokenizer of \<open>src/policy/bash-parse.ts\<close> and the predicates on single tokens.  A token list is an
  argument vector; \<open>token_weight\<close> (the characters of the tokens and one separator each) is the measure by
  which the analysis terminates.
\<close>

type_synonym tokens = "string list"

section \<open>Tokenizer\<close>

text \<open>
  \<open>tok_go\<close> is the loop of \<open>tokenizeWords\<close>: the rest of the input, the words pushed so far, the buffer and
  the open quote.  An unterminated quote gives no words at all.
\<close>

definition flush :: "string list \<Rightarrow> string \<Rightarrow> string list" where
  "flush out buf = (if buf \<noteq> '''' then out @ [buf] else out)"

fun tok_go :: "bool \<Rightarrow> string \<Rightarrow> string list \<Rightarrow> string \<Rightarrow> char option \<Rightarrow> tokens" where
  "tok_go stop [] out buf q = (if q \<noteq> None then [] else flush out buf)"
| "tok_go stop (ch # rest) out buf (Some q) =
     (if ch = CHR 0x5C \<and> q = CHR 0x22 \<and> rest \<noteq> []
        then tok_go stop (drop 1 rest) out (buf @ take 1 rest) (Some q)
      else if ch = q then tok_go stop rest out buf None
      else tok_go stop rest out (buf @ [ch]) (Some q))"
| "tok_go stop (ch # rest) out buf None =
     (if ch = CHR 0x22 \<or> ch = CHR 0x27 then tok_go stop rest out buf (Some ch)
      else if ch = CHR '' '' \<or> ch = CHR 0x09 then tok_go stop rest (flush out buf) [] None
      else if stop \<and> ch \<in> {CHR ''|'', CHR ''&'', CHR '';'', CHR 0x0A} then flush out buf
      else tok_go stop rest out (buf @ [ch]) None)"

definition tokenize_words :: "string \<Rightarrow> tokens" where
  "tokenize_words input = tok_go False input [] [] None"

definition tokenize_leading_words :: "string \<Rightarrow> tokens" where
  "tokenize_leading_words input = tok_go True input [] [] None"

section \<open>Predicates on tokens\<close>

text \<open>\<open>split('/').filter(Boolean).pop()\<close>: a token of slashes only has no basename (\<open>undefined\<close>).\<close>

definition token_basename :: "string \<Rightarrow> string option" where
  "token_basename token =
     (if CHR ''/'' \<in> set token
      then (case filter (\<lambda>p. p \<noteq> []) (split_on (CHR ''/'') token) of [] \<Rightarrow> None | ps \<Rightarrow> Some (last ps))
      else Some token)"

definition is_env_assignment :: "string \<Rightarrow> bool" where
  "is_env_assignment token =
     (case token of
        [] \<Rightarrow> False
      | c # cs \<Rightarrow> (js_letter c \<or> c = CHR ''_'') \<and>
          (case dropWhile (\<lambda>x. js_letter x \<or> js_digit x \<or> x = CHR ''_'') cs of
             [] \<Rightarrow> False | x # _ \<Rightarrow> x = CHR ''=''))"

definition basename_in :: "string \<Rightarrow> string list \<Rightarrow> bool" where
  "basename_in token names = (case token_basename token of None \<Rightarrow> False | Some b \<Rightarrow> b \<in> set names)"

definition is_command_wrapper :: "string \<Rightarrow> bool" where
  "is_command_wrapper token = basename_in token [''sudo'', ''env'', ''doas'', ''nice'']"

definition prefix_command_wrapper_heads :: "string list" where
  "prefix_command_wrapper_heads =
     [''catchsegv'', ''chronic'', ''flock'', ''ionice'', ''nohup'', ''setsid'', ''stdbuf'', ''taskset'',
      ''time'', ''timeout'', ''unshare'', ''watch'']"

definition is_prefix_command_wrapper :: "string \<Rightarrow> bool" where
  "is_prefix_command_wrapper token = basename_in token prefix_command_wrapper_heads"

definition privilege_wrapper_heads :: "string list" where
  "privilege_wrapper_heads = [''runuser'', ''su'', ''sudo'']"

text \<open>The regular expression of a combined short option containing c: a dash, then letters only.\<close>

definition short_flags_with_c :: "string \<Rightarrow> bool" where
  "short_flags_with_c token =
     (case token of [] \<Rightarrow> False
      | d # fs \<Rightarrow> d = CHR ''-'' \<and> list_all js_letter fs \<and> CHR ''c'' \<in> set fs)"

definition is_shell_command_string_flag :: "string \<Rightarrow> bool" where
  "is_shell_command_string_flag token =
     (if token = ''-c'' \<or> token = ''--command'' then True else short_flags_with_c token)"

definition is_privilege_command_string_flag :: "string \<Rightarrow> bool" where
  "is_privilege_command_string_flag token =
     (token = ''-c'' \<or> token = ''--command'' \<or> starts_with token ''--command='' \<or> short_flags_with_c token)"

definition is_command_terminator_token :: "string \<Rightarrow> bool" where
  "is_command_terminator_token token = (token \<in> {'';'', ''&'', ''|'', [CHR 0x0A]})"

section \<open>Weight\<close>

definition token_weight :: "tokens \<Rightarrow> nat" where
  "token_weight ts = sum_list (map (\<lambda>t. length t + 1) ts)"

lemma token_weight_simps [simp]:
  "token_weight [] = 0" "token_weight (t # ts) = length t + 1 + token_weight ts"
  "token_weight (ts @ us) = token_weight ts + token_weight us"
  by (simp_all add: token_weight_def)

lemma token_weight_flush: "token_weight (flush out buf) \<le> token_weight out + length buf + 1"
  by (simp add: flush_def)

lemma tok_go_weight:
  "token_weight (tok_go stop s out buf q) \<le> token_weight out + length buf + length s + 1"
proof (induction stop s out buf q rule: tok_go.induct)
  case (1 stop out buf q)
  show ?case using token_weight_flush [of out buf] by simp
next
  case (2 stop ch rest out buf q)
  consider (esc) "ch = CHR 0x5C \<and> q = CHR 0x22 \<and> rest \<noteq> []"
    | (close) "\<not> (ch = CHR 0x5C \<and> q = CHR 0x22 \<and> rest \<noteq> [])" "ch = q"
    | (other) "\<not> (ch = CHR 0x5C \<and> q = CHR 0x22 \<and> rest \<noteq> [])" "ch \<noteq> q" by blast
  then show ?case
  proof cases
    case esc
    from "2.IH"(1) [OF this] esc show ?thesis by (cases rest) simp_all
  next
    case close
    from "2.IH"(2) [OF this] show ?thesis
      unfolding tok_go.simps if_not_P [OF close(1)] if_P [OF close(2)] by simp
  next
    case other
    from "2.IH"(3) [OF this] show ?thesis
      unfolding tok_go.simps if_not_P [OF other(1)] if_not_P [OF other(2)] by simp
  qed
next
  case (3 stop ch rest out buf)
  consider (qt) "ch = CHR 0x22 \<or> ch = CHR 0x27"
    | (space) "\<not> (ch = CHR 0x22 \<or> ch = CHR 0x27)" "ch = CHR '' '' \<or> ch = CHR 0x09"
    | (op) "\<not> (ch = CHR 0x22 \<or> ch = CHR 0x27)" "\<not> (ch = CHR '' '' \<or> ch = CHR 0x09)"
        "stop \<and> ch \<in> {CHR ''|'', CHR ''&'', CHR '';'', CHR 0x0A}"
    | (other) "\<not> (ch = CHR 0x22 \<or> ch = CHR 0x27)" "\<not> (ch = CHR '' '' \<or> ch = CHR 0x09)"
        "\<not> (stop \<and> ch \<in> {CHR ''|'', CHR ''&'', CHR '';'', CHR 0x0A})" by blast
  then show ?case
  proof cases
    case qt
    from "3.IH"(1) [OF this] qt show ?thesis by simp
  next
    case space
    from "3.IH"(2) [OF this] space token_weight_flush [of out buf] show ?thesis by simp
  next
    case op
    then show ?thesis using token_weight_flush [of out buf] by (simp only: tok_go.simps if_False if_True) simp
  next
    case other
    from "3.IH"(3) [OF this] show ?thesis
      unfolding tok_go.simps if_not_P [OF other(1)] if_not_P [OF other(2)] if_not_P [OF other(3)] by simp
  qed
qed

lemma tokenize_words_weight: "token_weight (tokenize_words s) \<le> length s + 1"
  using tok_go_weight [of False s "[]" "[]" None] by (simp add: tokenize_words_def)

lemma length_join_weight: "ts \<noteq> [] \<Longrightarrow> length (join_with '' '' ts) + 1 = token_weight ts"
  unfolding token_weight_def by (rule length_join_space)

lemma length_join_le: "length (join_with '' '' ts) \<le> token_weight ts - 1"
  using length_join_weight [of ts] by (cases ts) auto

lemma token_weight_drop: "token_weight (drop n ts) \<le> token_weight ts"
  by (metis append_take_drop_id le_add2 token_weight_simps(3))

lemma token_weight_take: "token_weight (take n ts) \<le> token_weight ts"
  by (metis append_take_drop_id le_add1 token_weight_simps(3))

lemma token_weight_split:
  assumes "i \<le> j" "j \<le> length ts"
  shows "token_weight ts = token_weight (take i ts) + token_weight (take (j - i) (drop i ts)) + token_weight (drop j ts)"
proof -
  have "ts = take i ts @ take (j - i) (drop i ts) @ drop j ts"
    using assms by (metis append_take_drop_id drop_drop le_add_diff_inverse2)
  then show ?thesis by (metis add.assoc token_weight_simps(3))
qed

lemma weight_nth: "i < length ts \<Longrightarrow> length (ts ! i) + 1 \<le> token_weight ts"
proof (induction ts arbitrary: i)
  case Nil
  then show ?case by simp
next
  case (Cons a ts)
  show ?case
  proof (cases i)
    case 0
    then show ?thesis by simp
  next
    case (Suc j)
    with Cons.prems have "length (ts ! j) + 1 \<le> token_weight ts" by (intro Cons.IH) simp
    with Suc show ?thesis by simp
  qed
qed

section \<open>Words are never empty\<close>

lemma flush_nonempty: "[] \<notin> set out \<Longrightarrow> [] \<notin> set (flush out buf)"
  by (auto simp: flush_def)

lemma tok_go_nonempty: "[] \<notin> set out \<Longrightarrow> [] \<notin> set (tok_go stop s out buf q)"
  by (induction stop s out buf q rule: tok_go.induct) (auto simp: flush_nonempty)

lemma tokenize_words_nonempty: "[] \<notin> set (tokenize_words s)"
  by (simp add: tokenize_words_def tok_go_nonempty)

end
