(* ===== verification/Bash_Wrappers.thy ===== *)
theory Bash_Wrappers
  imports Bash_Tokens
begin

text \<open>
  How \<open>src/policy/bash-parse.ts\<close> skips the options of wrapper commands (\<open>timeout\<close>, \<open>env\<close>, \<open>sudo\<close>, ...)
  to find the wrapped command.  Every scanner is a loop over an index into the token list; \<open>scan\<close> is that
  loop, and a scanner gives the step it makes on one token.
\<close>

section \<open>The scanning loop\<close>

text \<open>\<open>Skip1\<close> is \<open>i += 1; continue\<close>, \<open>Skip2\<close> is \<open>i += 2; continue\<close>, \<open>Halt k\<close> leaves the loop at \<open>i + k\<close>.\<close>

datatype 's scan_step = Skip1 's | Skip2 's | Halt nat

function scan :: "('s \<Rightarrow> string \<Rightarrow> 's scan_step) \<Rightarrow> tokens \<Rightarrow> 's \<Rightarrow> nat \<Rightarrow> nat" where
  "scan f ts s i =
     (if i < length ts
      then (case f s (ts ! i) of
              Skip1 s' \<Rightarrow> scan f ts s' (i + 1)
            | Skip2 s' \<Rightarrow> scan f ts s' (i + 2)
            | Halt k \<Rightarrow> i + k)
      else i)"
  by pat_completeness auto
termination
  by (relation "measure (\<lambda>(f, ts, s, i). length ts - i)") auto

declare scan.simps [simp del]

lemma scan_ge: "i \<le> scan f ts s i"
proof (induction f ts s i rule: scan.induct)
  case (1 f ts s i)
  show ?case
  proof (cases "i < length ts")
    case True
    then show ?thesis
      using "1.IH"
      by (cases "f s (ts ! i)") (subst scan.simps, force)+
  next
    case False
    then show ?thesis by (subst scan.simps) simp
  qed
qed

text \<open>The contract of every scanner: it never moves back.\<close>

locale index_scanner =
  fixes skip :: "tokens \<Rightarrow> nat \<Rightarrow> nat"
  assumes ge: "i \<le> skip ts i"
begin

lemma progress: "i < j \<Longrightarrow> i < skip ts j"
  using ge [of j ts] by simp

lemma drop_weight: "i < length ts \<Longrightarrow> token_weight (drop (skip ts (Suc i)) ts) < token_weight (drop i ts)"
proof -
  assume i: "i < length ts"
  have "Suc i \<le> skip ts (Suc i)" by (rule ge)
  then have "drop (skip ts (Suc i)) ts = drop (skip ts (Suc i) - Suc i) (drop (Suc i) ts)"
    by simp
  then have "token_weight (drop (skip ts (Suc i)) ts) \<le> token_weight (drop (Suc i) ts)"
    by (metis token_weight_drop)
  also have "\<dots> < token_weight (drop i ts)"
    using i by (simp add: Cons_nth_drop_Suc [symmetric])
  finally show ?thesis .
qed

end

section \<open>Short options\<close>

fun short_option_scan :: "string list \<Rightarrow> string list \<Rightarrow> string \<Rightarrow> nat option" where
  "short_option_scan noValue separated [] = Some 1"
| "short_option_scan noValue separated (flag # rest) =
     (if [flag] \<in> set separated then Some (if rest = [] then 2 else 1)
      else if [flag] \<notin> set noValue then None
      else short_option_scan noValue separated rest)"

text \<open>The token must start with one dash and not be a lone dash.\<close>

definition skip_short_option_token :: "string \<Rightarrow> string list \<Rightarrow> string list \<Rightarrow> nat option" where
  "skip_short_option_token token noValue separated =
     (if \<not> starts_with token ''-'' \<or> starts_with token ''--'' \<or> token = ''-'' then None
      else short_option_scan noValue separated (drop 1 token))"

definition ionice_no_value_short_flags :: "string list" where
  "ionice_no_value_short_flags = [''p'', ''t'']"

definition time_no_value_short_flags :: "string list" where
  "time_no_value_short_flags = [''a'', ''h'', ''l'', ''p'', ''q'', ''v'']"

definition unshare_no_value_short_flags :: "string list" where
  "unshare_no_value_short_flags = [''f'', ''i'', ''m'', ''n'', ''p'', ''r'', ''U'']"

definition skip_time_short_option_token :: "string \<Rightarrow> nat option" where
  "skip_time_short_option_token token = skip_short_option_token token time_no_value_short_flags [''f'', ''o'']"

text \<open>Advance by the result of a short-option test (which is 1 or 2).\<close>

definition skip_by :: "nat \<Rightarrow> 's \<Rightarrow> 's scan_step" where
  "skip_by k s = (if k = 2 then Skip2 s else Skip1 s)"

definition any_prefix :: "string list \<Rightarrow> string \<Rightarrow> bool" where
  "any_prefix ps token = List.list_ex (\<lambda>p. starts_with token p) ps"

section \<open>Prefix wrappers\<close>

definition skip_simple_prefix_wrapper_args :: "tokens \<Rightarrow> nat \<Rightarrow> nat" where
  "skip_simple_prefix_wrapper_args ts start =
     scan (\<lambda>_ token. if token = ''--'' then Halt 1
                      else if \<not> starts_with token ''-'' then Halt 0
                      else Skip1 ()) ts () start"

definition skip_nohup_wrapper_args :: "tokens \<Rightarrow> nat \<Rightarrow> nat" where
  "skip_nohup_wrapper_args ts start = (if at ts start = Some ''--'' then start + 1 else start)"

text \<open>The state is \<open>consumedLockTarget\<close>.\<close>

definition skip_flock_wrapper_args :: "tokens \<Rightarrow> nat \<Rightarrow> nat" where
  "skip_flock_wrapper_args ts start =
     scan (\<lambda>consumed token.
        if token = ''--'' then Skip1 consumed
        else if consumed then Halt 0
        else if token \<in> {''-E'', ''--conflict-exit-code'', ''-w'', ''--wait'', ''--timeout''} then Skip2 consumed
        else if any_prefix [''-E'', ''-w'', ''--conflict-exit-code='', ''--wait='', ''--timeout=''] token
          then Skip1 consumed
        else if starts_with token ''-'' then Skip1 consumed
        else Skip1 True) ts False start"

definition skip_ionice_wrapper_args :: "tokens \<Rightarrow> nat \<Rightarrow> nat" where
  "skip_ionice_wrapper_args ts start =
     scan (\<lambda>_ token.
        if token = ''--'' then Halt 1
        else if token \<in> {''-c'', ''--class'', ''-n'', ''--classdata''} then Skip2 ()
        else if any_prefix [''--class='', ''--classdata=''] token then Skip1 ()
        else (case skip_short_option_token token ionice_no_value_short_flags [''c'', ''n''] of
                Some k \<Rightarrow> skip_by k ()
              | None \<Rightarrow> if starts_with token ''-'' then Skip1 () else Halt 0)) ts () start"

text \<open>\<open>/^-[ks].+/\<close>: the dot does not match a line terminator.\<close>

definition short_attached :: "string \<Rightarrow> string \<Rightarrow> bool" where
  "short_attached flags token =
     (case token of
        d # k # c # _ \<Rightarrow> d = CHR ''-'' \<and> k \<in> set flags \<and> c \<noteq> CHR 0x0A \<and> c \<noteq> CHR 0x0D
      | _ \<Rightarrow> False)"

definition skip_timeout_wrapper_args :: "tokens \<Rightarrow> nat \<Rightarrow> nat" where
  "skip_timeout_wrapper_args ts start =
     (let i = scan (\<lambda>_ token.
        if token = ''--'' then Halt 1
        else if token \<in> {''-k'', ''--kill-after'', ''-s'', ''--signal''} then Skip2 ()
        else if short_attached ''ks'' token then Skip1 ()
        else if any_prefix [''--kill-after='', ''--signal=''] token then Skip1 ()
        else if token \<in> {''--foreground'', ''--preserve-status'', ''-v'', ''--verbose''} then Skip1 ()
        else Halt 0) ts () start
      in if i < length ts then i + 1 else i)"

definition skip_stdbuf_wrapper_args :: "tokens \<Rightarrow> nat \<Rightarrow> nat" where
  "skip_stdbuf_wrapper_args ts start =
     scan (\<lambda>_ token.
        if token = ''--'' then Halt 1
        else if token \<in> {''-i'', ''--input'', ''-o'', ''--output'', ''-e'', ''--error''} then Skip2 ()
        else if short_attached ''ioe'' token \<or> any_prefix [''--input='', ''--output='', ''--error=''] token
          then Skip1 ()
        else Halt 0) ts () start"

text \<open>The state is \<open>consumedMaskOrCpuList\<close>.\<close>

definition skip_taskset_wrapper_args :: "tokens \<Rightarrow> nat \<Rightarrow> nat" where
  "skip_taskset_wrapper_args ts start =
     scan (\<lambda>consumed token.
        if token = ''--'' then Halt 1
        else if token = ''-c'' \<or> token = ''--cpu-list'' then Skip2 True
        else if starts_with token ''--cpu-list='' then Skip1 True
        else if token = ''-a'' \<or> token = ''--all-tasks'' then Skip1 consumed
        else if token = ''-p'' \<or> token = ''--pid'' then Halt 2
        else if starts_with token ''-'' then Skip1 consumed
        else if \<not> consumed then Skip1 True
        else Halt 0) ts False start"

definition unshare_value_flags :: "string list" where
  "unshare_value_flags =
     [''--map-user'', ''--map-group'', ''--map-users'', ''--map-groups'', ''--map-auto'', ''--root'', ''--wd'',
      ''--setuid'', ''--setgid'', ''--kill-child'', ''--mount-proc'', ''--propagation'']"

definition skip_unshare_wrapper_args :: "tokens \<Rightarrow> nat \<Rightarrow> nat" where
  "skip_unshare_wrapper_args ts start =
     scan (\<lambda>_ token.
        if token = ''--'' then Halt 1
        else if token \<in> set unshare_value_flags then Skip2 ()
        else if any_prefix (map (\<lambda>f. f @ ''='') unshare_value_flags) token then Skip1 ()
        else (case skip_short_option_token token unshare_no_value_short_flags [] of
                Some k \<Rightarrow> skip_by k ()
              | None \<Rightarrow> if starts_with token ''-'' then Skip1 () else Halt 0)) ts () start"

definition skip_watch_wrapper_args :: "tokens \<Rightarrow> nat \<Rightarrow> nat" where
  "skip_watch_wrapper_args ts start =
     scan (\<lambda>_ token.
        if token = ''--'' then Halt 1
        else if token \<in> {''-n'', ''--interval'', ''-d'', ''--differences'', ''-p'', ''--precise''} then Skip2 ()
        else if any_prefix [''--interval='', ''--differences='', ''--precise=''] token then Skip1 ()
        else if starts_with token ''-'' then Skip1 ()
        else Halt 0) ts () start"

definition skip_time_wrapper_args :: "tokens \<Rightarrow> nat \<Rightarrow> nat" where
  "skip_time_wrapper_args ts start =
     scan (\<lambda>_ token.
        if token = ''--'' then Halt 1
        else if token \<in> {''-f'', ''--format'', ''-o'', ''--output''} then Skip2 ()
        else if any_prefix [''--format='', ''--output=''] token then Skip1 ()
        else (case skip_time_short_option_token token of
                Some k \<Rightarrow> skip_by k ()
              | None \<Rightarrow>
                  if token \<in> {''--append'', ''--portability'', ''--quiet'', ''--verbose''} then Skip1 ()
                  else Halt 0)) ts () start"

definition skip_prefix_command_wrapper :: "tokens \<Rightarrow> nat \<Rightarrow> nat" where
  "skip_prefix_command_wrapper ts wrapperIndex =
     (let head = token_basename (ts ! wrapperIndex); start = wrapperIndex + 1 in
      if head = Some ''catchsegv'' \<or> head = Some ''chronic'' \<or> head = Some ''setsid''
        then skip_simple_prefix_wrapper_args ts start
      else if head = Some ''flock'' then skip_flock_wrapper_args ts start
      else if head = Some ''ionice'' then skip_ionice_wrapper_args ts start
      else if head = Some ''timeout'' then skip_timeout_wrapper_args ts start
      else if head = Some ''time'' then skip_time_wrapper_args ts start
      else if head = Some ''nohup'' then skip_nohup_wrapper_args ts start
      else if head = Some ''taskset'' then skip_taskset_wrapper_args ts start
      else if head = Some ''stdbuf'' then skip_stdbuf_wrapper_args ts start
      else if head = Some ''unshare'' then skip_unshare_wrapper_args ts start
      else if head = Some ''watch'' then skip_watch_wrapper_args ts start
      else start)"

section \<open>Command wrappers\<close>

definition separated_value_flags :: "string list" where
  "separated_value_flags = [''-u'', ''-g'', ''-p'', ''-n'', ''--priority'', ''--adjustment'']"

definition attached_value_flag_prefixes :: "string list" where
  "attached_value_flag_prefixes = [''--user='', ''--group='', ''--prompt='', ''--priority='', ''--adjustment='']"

text \<open>\<open>skipEnvOption\<close> as an advance: 0 where the source returns the index unchanged.\<close>

definition env_option_advance :: "string \<Rightarrow> nat" where
  "env_option_advance token =
     (if token = ''-'' \<or> token = ''--'' then 0
      else if is_env_assignment token then 1
      else if \<not> starts_with token ''-'' then 0
      else if token \<in> {''-u'', ''--unset'', ''-C'', ''--chdir'', ''--block-signal'', ''--ignore-signal'',
                       ''--default-signal''} then 2
      else if any_prefix [''--unset='', ''--chdir='', ''--block-signal='', ''--ignore-signal='',
                          ''--default-signal=''] token then 1
      else 1)"

definition skip_env_option :: "tokens \<Rightarrow> nat \<Rightarrow> nat" where
  "skip_env_option ts index = index + env_option_advance (ts ! index)"

definition skip_env_assignments :: "tokens \<Rightarrow> nat \<Rightarrow> nat" where
  "skip_env_assignments ts start =
     scan (\<lambda>_ token. if is_env_assignment token then Skip1 () else Halt 0) ts () start"

definition skip_env_wrapper_flags :: "tokens \<Rightarrow> nat \<Rightarrow> nat" where
  "skip_env_wrapper_flags ts start =
     skip_env_assignments ts
       (scan (\<lambda>_ token.
          if token = ''-'' \<or> token = ''--'' then Skip1 ()
          else (let k = env_option_advance token in if k = 0 then Halt 0 else skip_by k ())) ts () start)"

definition skip_wrapper_flags :: "tokens \<Rightarrow> nat \<Rightarrow> nat" where
  "skip_wrapper_flags ts wrapperIndex =
     (if token_basename (ts ! wrapperIndex) = Some ''env'' then skip_env_wrapper_flags ts (wrapperIndex + 1)
      else scan (\<lambda>_ token.
          if token = ''--'' then Halt 1
          else if \<not> starts_with token ''-'' then Halt 0
          else if token \<in> set separated_value_flags then Skip2 ()
          else if any_prefix attached_value_flag_prefixes token then Skip1 ()
          else Skip1 ()) ts () (wrapperIndex + 1))"

text \<open>After a privilege wrapper: the lone dash is skipped for \<open>su\<close> and \<open>runuser\<close> only.\<close>

definition skip_privilege_wrapper_for_wrapped_command :: "tokens \<Rightarrow> nat \<Rightarrow> nat" where
  "skip_privilege_wrapper_for_wrapped_command ts startIndex =
     scan (\<lambda>_ token.
        if token = ''--'' then Halt 1
        else if token = ''-'' \<and> token_basename (ts ! startIndex) \<noteq> Some ''sudo'' then Skip1 ()
        else if \<not> starts_with token ''-'' then Halt 0
        else if token \<in> {''-u'', ''--user'', ''-g'', ''--group''} then Skip2 ()
        else if any_prefix [''--user='', ''--group=''] token then Skip1 ()
        else Skip1 ()) ts () (startIndex + 1)"

section \<open>The contract holds\<close>

interpretation simple: index_scanner skip_simple_prefix_wrapper_args
  by unfold_locales (simp add: skip_simple_prefix_wrapper_args_def scan_ge)

interpretation nohup: index_scanner skip_nohup_wrapper_args
  by unfold_locales (simp add: skip_nohup_wrapper_args_def)

interpretation flock: index_scanner skip_flock_wrapper_args
  by unfold_locales (simp add: skip_flock_wrapper_args_def scan_ge)

interpretation ionice: index_scanner skip_ionice_wrapper_args
  by unfold_locales (simp add: skip_ionice_wrapper_args_def scan_ge)

interpretation timeout: index_scanner skip_timeout_wrapper_args
  by unfold_locales (simp add: skip_timeout_wrapper_args_def Let_def scan_ge le_SucI)

interpretation stdbuf: index_scanner skip_stdbuf_wrapper_args
  by unfold_locales (simp add: skip_stdbuf_wrapper_args_def scan_ge)

interpretation taskset: index_scanner skip_taskset_wrapper_args
  by unfold_locales (simp add: skip_taskset_wrapper_args_def scan_ge)

interpretation unshare: index_scanner skip_unshare_wrapper_args
  by unfold_locales (simp add: skip_unshare_wrapper_args_def scan_ge)

interpretation watch: index_scanner skip_watch_wrapper_args
  by unfold_locales (simp add: skip_watch_wrapper_args_def scan_ge)

interpretation time: index_scanner skip_time_wrapper_args
  by unfold_locales (simp add: skip_time_wrapper_args_def scan_ge)

interpretation assignments: index_scanner skip_env_assignments
  by unfold_locales (simp add: skip_env_assignments_def scan_ge)

interpretation env_flags: index_scanner skip_env_wrapper_flags
  by unfold_locales
     (simp add: skip_env_wrapper_flags_def order.trans [OF scan_ge assignments.ge])

lemma skip_wrapper_flags_gt [skip_ge]: "i < skip_wrapper_flags ts i"
  using env_flags.ge [of "i + 1" ts] scan_ge [of "i + 1"]
  by (auto simp: skip_wrapper_flags_def less_eq_Suc_le)

lemma skip_prefix_command_wrapper_gt [skip_ge]: "i < skip_prefix_command_wrapper ts i"
  by (auto simp: skip_prefix_command_wrapper_def Let_def intro: simple.progress flock.progress
      ionice.progress timeout.progress time.progress nohup.progress taskset.progress stdbuf.progress
      unshare.progress watch.progress)

lemma skip_privilege_gt [skip_ge]: "i < skip_privilege_wrapper_for_wrapped_command ts i"
  using scan_ge [of "i + 1"] by (auto simp: skip_privilege_wrapper_for_wrapped_command_def less_eq_Suc_le)

end
