(* ===== verification/Bash_Inline.thy ===== *)
theory Bash_Inline
  imports Bash_Wrappers
begin

text \<open>
  The extractors of \<open>src/policy/bash-parse.ts\<close>: the payload of \<open>env -S\<close>, of \<open>sh -c\<close>, of a privilege
  wrapper, of \<open>script\<close> and \<open>flock\<close>, of a script interpreter and of a git shell alias.  Reads past the
  end of the token list give \<open>None\<close>, the source's \<open>?? null\<close>.
\<close>

section \<open>Split strings of env\<close>

text \<open>\<open>indexOf('S', 1)\<close> on the token and the tests before and after it; the result is the attached text, if
any.\<close>

definition extract_env_short_split_string :: "string \<Rightarrow> string option option" where
  "extract_env_short_split_string token =
     (if \<not> starts_with token ''-'' \<or> starts_with token ''--'' \<or> token = ''-'' then None
      else (case index_of (CHR ''S'') (drop 1 token) of
          None \<Rightarrow> None
        | Some k \<Rightarrow>
            (if \<not> list_all (\<lambda>c. c = CHR ''i'' \<or> c = CHR ''v'') (take k (drop 1 token)) then None
             else (let attached = drop (k + 2) token in Some (if attached = '''' then None else Some attached)))))"

datatype env_scan =
    Env_flag nat \<comment> \<open>a split flag whose string is the next token\<close>
  | Env_attached nat string \<comment> \<open>a split string attached to the token at this index\<close>
  | Env_none

function env_split_scan :: "tokens \<Rightarrow> nat \<Rightarrow> env_scan" where
  "env_split_scan ts i =
     (if i < length ts then
        (let token = ts ! i in
         if token = ''-'' \<or> token = ''--'' then env_split_scan ts (i + 1)
         else if token = ''-S'' \<or> token = ''--split-string'' then Env_flag i
         else if starts_with token ''--split-string='' then Env_attached i (drop 15 token)
         else (case extract_env_short_split_string token of
                 Some (Some attached) \<Rightarrow> Env_attached i attached
               | Some None \<Rightarrow> Env_flag i
               | None \<Rightarrow>
                   (if env_option_advance token = 0 then Env_none
                    else env_split_scan ts (i + env_option_advance token))))
      else Env_none)"
  by pat_completeness auto
termination
  by (relation "measure (\<lambda>(ts, i). length ts - i)") auto

declare env_split_scan.simps [simp del]

text \<open>The number of tokens consumed from the wrapper on, and the tokens that replace them.\<close>

definition expand_env_split_string :: "tokens \<Rightarrow> nat \<Rightarrow> (nat \<times> tokens) option" where
  "expand_env_split_string ts wrapperIndex =
     (if token_basename (ts ! wrapperIndex) \<noteq> Some ''env'' then None
      else (case env_split_scan ts (wrapperIndex + 1) of
          Env_none \<Rightarrow> None
        | Env_attached i payload \<Rightarrow>
            (let splitTokens = tokenize_words payload in
             if splitTokens = [] then None else Some (i - wrapperIndex + 1, splitTokens))
        | Env_flag i \<Rightarrow>
            (case at ts (i + 1) of
               None \<Rightarrow> None
             | Some splitString \<Rightarrow>
                 (let splitTokens = tokenize_words splitString in
                  if splitTokens = [] then None else Some (i - wrapperIndex + 2, splitTokens)))))"

text \<open>\<open>tokens.splice(i, consumed, ...expanded)\<close>.\<close>

definition splice :: "tokens \<Rightarrow> nat \<Rightarrow> nat \<times> tokens \<Rightarrow> tokens" where
  "splice ts i e = take i ts @ snd e @ drop (i + fst e) ts"

subsection \<open>A splice shrinks the argument vector\<close>

definition env_scan_ok :: "tokens \<Rightarrow> nat \<Rightarrow> env_scan \<Rightarrow> bool" where
  "env_scan_ok ts i r \<longleftrightarrow>
     (case r of
        Env_flag j \<Rightarrow> i \<le> j \<and> j < length ts
      | Env_attached j payload \<Rightarrow> i \<le> j \<and> j < length ts \<and> length payload \<le> length (ts ! j)
      | Env_none \<Rightarrow> True)"

lemma env_scan_ok_mono: "env_scan_ok ts j r \<Longrightarrow> i \<le> j \<Longrightarrow> env_scan_ok ts i r"
  by (auto simp: env_scan_ok_def split: env_scan.splits)

lemma short_split_length:
  "extract_env_short_split_string token = Some (Some attached) \<Longrightarrow> length attached \<le> length token"
  by (auto simp: extract_env_short_split_string_def Let_def split: if_splits option.splits)

lemma env_split_scan_ok: "env_scan_ok ts i (env_split_scan ts i)"
proof (induction ts i rule: env_split_scan.induct)
  case (1 ts i)
  show ?case
  proof (cases "i < length ts")
    case False
    then show ?thesis by (subst env_split_scan.simps) (simp add: env_scan_ok_def)
  next
    case True
    consider (dash) "ts ! i = ''-'' \<or> ts ! i = ''--''"
      | (flag) "\<not> (ts ! i = ''-'' \<or> ts ! i = ''--'')" "ts ! i = ''-S'' \<or> ts ! i = ''--split-string''"
      | (long) "\<not> (ts ! i = ''-'' \<or> ts ! i = ''--'')" "\<not> (ts ! i = ''-S'' \<or> ts ! i = ''--split-string'')"
          "starts_with (ts ! i) ''--split-string=''"
      | (short) "\<not> (ts ! i = ''-'' \<or> ts ! i = ''--'')" "\<not> (ts ! i = ''-S'' \<or> ts ! i = ''--split-string'')"
          "\<not> starts_with (ts ! i) ''--split-string=''" by blast
    then show ?thesis
    proof cases
      case dash
      from "1.IH"(1) [OF True refl dash] have "env_scan_ok ts i (env_split_scan ts (i + 1))"
        by (rule env_scan_ok_mono) simp
      then show ?thesis
        by (subst env_split_scan.simps) (simp only: Let_def True dash if_True)
    next
      case flag
      with True show ?thesis
        by (subst env_split_scan.simps) (auto simp: env_scan_ok_def)
    next
      case long
      with True show ?thesis
        by (subst env_split_scan.simps) (auto simp: env_scan_ok_def Let_def)
    next
      case short
      show ?thesis
      proof (cases "extract_env_short_split_string (ts ! i)")
        case None
        show ?thesis
        proof (cases "env_option_advance (ts ! i) = 0")
          case True
          with \<open>i < length ts\<close> short None show ?thesis
            by (subst env_split_scan.simps) (simp add: env_scan_ok_def Let_def)
        next
          case False
          from "1.IH"(2) [OF \<open>i < length ts\<close> refl short None False]
          have "env_scan_ok ts i (env_split_scan ts (i + env_option_advance (ts ! i)))"
            by (rule env_scan_ok_mono) simp
          with \<open>i < length ts\<close> short None False show ?thesis
            by (subst env_split_scan.simps) (simp add: Let_def)
        qed
      next
        case (Some a)
        with True short show ?thesis
          by (subst env_split_scan.simps)
             (auto simp: env_scan_ok_def Let_def split: option.splits dest: short_split_length)
      qed
    qed
  qed
qed

lemma expand_env_bounds:
  assumes "expand_env_split_string ts i = Some (consumed, new)" and "i < length ts"
  shows "i + consumed \<le> length ts \<and> 2 \<le> consumed \<and>
    token_weight new < token_weight (take consumed (drop i ts))"
proof -
  have ok: "env_scan_ok ts (i + 1) (env_split_scan ts (i + 1))" by (rule env_split_scan_ok)
  have last_heavy: "token_weight (take (Suc n) (drop i ts)) \<ge> length (ts ! (i + n)) + 2"
    if "1 \<le> n" "i + n < length ts" for n
  proof -
    have "take (Suc n) (drop i ts) = take n (drop i ts) @ [ts ! (i + n)]"
      using that by (simp add: take_Suc_conv_app_nth)
    moreover have "1 \<le> token_weight (take n (drop i ts))"
      using that by (cases "drop i ts"; cases n) auto
    ultimately show ?thesis by simp
  qed
  show ?thesis
  proof (cases "env_split_scan ts (i + 1)")
    case (Env_flag j)
    with assms(1) have c: "j + 1 < length ts" "consumed = j - i + 2" "new = tokenize_words (ts ! (j + 1))"
      by (auto simp: expand_env_split_string_def at_def Let_def split: if_splits option.splits)
    from Env_flag ok have j: "i + 1 \<le> j" by (simp add: env_scan_ok_def)
    have "token_weight new \<le> length (ts ! (j + 1)) + 1"
      unfolding c by (rule tokenize_words_weight)
    moreover have "consumed = Suc (j + 1 - i)" using c(2) j by simp
    moreover have n: "1 \<le> j + 1 - i" "i + (j + 1 - i) = j + 1" using j by auto
    moreover from last_heavy [OF n(1)] n(2) c(1)
    have "length (ts ! (j + 1)) + 2 \<le> token_weight (take (Suc (j + 1 - i)) (drop i ts))" by simp
    ultimately show ?thesis using c(1) by simp
  next
    case (Env_attached j payload)
    with assms(1) have c: "consumed = j - i + 1" "new = tokenize_words payload"
      by (auto simp: expand_env_split_string_def Let_def split: if_splits)
    from Env_attached ok have j: "i + 1 \<le> j" "j < length ts" "length payload \<le> length (ts ! j)"
      by (simp_all add: env_scan_ok_def)
    have "token_weight new \<le> length payload + 1"
      unfolding c by (rule tokenize_words_weight)
    moreover have "consumed = Suc (j - i)" using c(1) by simp
    moreover have n: "1 \<le> j - i" "i + (j - i) = j" using j by auto
    moreover from last_heavy [OF n(1)] n(2) j(2)
    have "length (ts ! j) + 2 \<le> token_weight (take (Suc (j - i)) (drop i ts))" by simp
    ultimately show ?thesis using j by simp
  next
    case Env_none
    with assms(1) show ?thesis by (simp add: expand_env_split_string_def split: if_splits)
  qed
qed

lemma splice_weight:
  assumes "expand_env_split_string ts i = Some e" and "i < length ts"
  shows "token_weight (splice ts i e) < token_weight ts"
    and "token_weight (drop i (splice ts i e)) < token_weight (drop i ts)"
proof -
  obtain consumed new where e: "e = (consumed, new)" by (cases e)
  from expand_env_bounds [OF assms(1) [unfolded e] assms(2)]
  have b: "i + consumed \<le> length ts" "token_weight new < token_weight (take consumed (drop i ts))"
    by auto
  have d: "token_weight (drop i ts) = token_weight (take consumed (drop i ts)) + token_weight (drop (i + consumed) ts)"
    using token_weight_split [of 0 consumed "drop i ts"] b(1) by (simp add: add.commute)
  have "token_weight ts = token_weight (take i ts) + token_weight (drop i ts)"
    using token_weight_split [of 0 i ts] assms(2) by simp
  with b d show "token_weight (splice ts i e) < token_weight ts"
    by (simp add: splice_def e)
  show "token_weight (drop i (splice ts i e)) < token_weight (drop i ts)"
    using b d assms(2) by (simp add: splice_def e)
qed

section \<open>Privilege wrappers\<close>

text \<open>The loop of \<open>extractPrivilegeWrapperInlineScriptFromTokens\<close>; the state is \<open>consumedUserOption\<close>.\<close>

function privilege_inline_scan :: "tokens \<Rightarrow> string \<Rightarrow> bool \<Rightarrow> nat \<Rightarrow> string option" where
  "privilege_inline_scan ts head consumedUserOption i =
     (if i < length ts then
        (let token = ts ! i in
         if token = ''--'' then None
         else if token \<in> {''-u'', ''--user'', ''-g'', ''--group''} then privilege_inline_scan ts head True (i + 2)
         else if any_prefix [''--user='', ''--group=''] token then privilege_inline_scan ts head True (i + 1)
         else if \<not> starts_with token ''-'' then
           (if head \<in> {''su'', ''runuser''} \<and> \<not> consumedUserOption \<and>
               (case at ts (i + 1) of None \<Rightarrow> False | Some nxt \<Rightarrow> is_privilege_command_string_flag nxt)
            then privilege_inline_scan ts head consumedUserOption (i + 1)
            else None)
         else if token = ''-c'' \<or> token = ''--command'' then at ts (i + 1)
         else if starts_with token ''--command='' then Some (drop 10 token)
         else if short_flags_with_c token then at ts (i + 1)
         else privilege_inline_scan ts head consumedUserOption (i + 1))
      else None)"
  by pat_completeness auto
termination
  by (relation "measure (\<lambda>(ts, h, c, i). length ts - i)") auto

declare privilege_inline_scan.simps [simp del]

definition extract_privilege_wrapper_inline_script_from_tokens :: "tokens \<Rightarrow> nat \<Rightarrow> string option" where
  "extract_privilege_wrapper_inline_script_from_tokens ts startIndex =
     (case token_basename (ts ! startIndex) of
        None \<Rightarrow> None
      | Some head \<Rightarrow>
          (if head \<notin> set privilege_wrapper_heads then None
           else privilege_inline_scan ts head False (startIndex + 1)))"

definition privilege_wrapper_head_with_inline_script :: "tokens \<Rightarrow> nat \<Rightarrow> string option" where
  "privilege_wrapper_head_with_inline_script ts index =
     (if index \<ge> length ts then None
      else (case token_basename (ts ! index) of
          None \<Rightarrow> None
        | Some head \<Rightarrow>
            (if head \<notin> set privilege_wrapper_heads then None
             else if extract_privilege_wrapper_inline_script_from_tokens ts index \<noteq> None then Some head
             else None)))"

section \<open>Execution wrappers\<close>

lemma token_weight_drop_step: "i < j \<Longrightarrow> i < length ts \<Longrightarrow> token_weight (drop j ts) < token_weight (drop i ts)"
proof -
  assume "i < j" "i < length ts"
  then have "drop j ts = drop (j - Suc i) (drop (Suc i) ts)" by simp
  then have "token_weight (drop j ts) \<le> token_weight (drop (Suc i) ts)" by (metis token_weight_drop)
  also have "\<dots> < token_weight (drop i ts)"
    using \<open>i < length ts\<close> by (simp add: Cons_nth_drop_Suc [symmetric])
  finally show ?thesis .
qed

text \<open>\<open>skipExecutionWrappers\<close> splices the token list in place; the model returns it with the index.\<close>

function skip_execution_wrappers :: "tokens \<Rightarrow> nat \<Rightarrow> tokens \<times> nat" where
  "skip_execution_wrappers ts i =
     (if i < length ts then
        (case expand_env_split_string ts i of
           Some e \<Rightarrow> skip_execution_wrappers (splice ts i e) i
         | None \<Rightarrow>
             (if privilege_wrapper_head_with_inline_script ts i \<noteq> None then (ts, i)
              else if is_command_wrapper (ts ! i) then skip_execution_wrappers ts (skip_wrapper_flags ts i)
              else if is_prefix_command_wrapper (ts ! i)
                then skip_execution_wrappers ts (skip_prefix_command_wrapper ts i)
              else (ts, i)))
      else (ts, i))"
  by pat_completeness auto
termination
  by (relation "measure (\<lambda>(ts, i). token_weight (drop i ts))")
     (auto simp: skip_ge splice_weight intro: token_weight_drop_step)

declare skip_execution_wrappers.simps [simp del]

lemma skip_execution_wrappers_weight:
  "skip_execution_wrappers ts i = (ts', i') \<Longrightarrow> token_weight ts' \<le> token_weight ts"
proof (induction ts i rule: skip_execution_wrappers.induct)
  case (1 ts i)
  show ?case
  proof (cases "i < length ts")
    case True
    note lt = this
    show ?thesis
    proof (cases "expand_env_split_string ts i")
      case (Some e)
      with lt "1.prems" have "skip_execution_wrappers (splice ts i e) i = (ts', i')"
        by (subst (asm) skip_execution_wrappers.simps) simp
      with "1.IH"(3) [OF lt Some] splice_weight(1) [OF Some lt] show ?thesis by simp
    next
      case None
      with lt "1.prems" "1.IH"(1,2) [OF lt None] show ?thesis
        by (subst (asm) skip_execution_wrappers.simps) (auto split: if_splits)
    qed
  next
    case False
    with "1.prems" show ?thesis by (subst (asm) skip_execution_wrappers.simps) simp
  qed
qed



definition extract_privilege_wrapper_inline_script :: "string \<Rightarrow> string option" where
  "extract_privilege_wrapper_inline_script commandLine =
     (let trimmed = trim commandLine in
      if trimmed = '''' then None
      else (let ts = tokenize_words trimmed; i = skip_env_assignments ts 0 in
            if privilege_wrapper_head_with_inline_script ts i \<noteq> None
            then extract_privilege_wrapper_inline_script_from_tokens ts i
            else (let (ts', i') = skip_execution_wrappers ts i in
                  if i' \<ge> length ts' then None
                  else extract_privilege_wrapper_inline_script_from_tokens ts' i')))"

section \<open>Shell interpreters\<close>

definition shell_interpreter_heads :: "string list" where
  "shell_interpreter_heads = [''ash'', ''bash'', ''dash'', ''fish'', ''ksh'', ''sh'', ''zsh'']"

definition shell_option_value_flags :: "string list" where
  "shell_option_value_flags = [''-o'', ''+o'', ''-O'', ''+O'', ''--init-file'', ''--rcfile'']"

definition shell_option_attached_value_prefixes :: "string list" where
  "shell_option_attached_value_prefixes = [''--init-file='', ''--rcfile='']"

function shell_inline_scan :: "tokens \<Rightarrow> nat \<Rightarrow> string option" where
  "shell_inline_scan ts i =
     (if i < length ts then
        (let token = ts ! i in
         if is_shell_command_string_flag token then at ts (i + 1)
         else if starts_with token ''--command='' then Some (drop 10 token)
         else if token \<in> set shell_option_value_flags \<or> any_prefix shell_option_attached_value_prefixes token
           then shell_inline_scan ts (if token \<in> set shell_option_value_flags then i + 2 else i + 1)
         else if starts_with token ''-'' then shell_inline_scan ts (i + 1)
         else None)
      else None)"
  by pat_completeness auto
termination
  by (relation "measure (\<lambda>(ts, i). length ts - i)") auto

declare shell_inline_scan.simps [simp del]

definition extract_shell_inline_script_from_tokens :: "tokens \<Rightarrow> nat \<Rightarrow> string option" where
  "extract_shell_inline_script_from_tokens ts startIndex =
     (if startIndex \<ge> length ts then None
      else (let head = token_basename (ts ! startIndex); i = startIndex + 1 in
        if head = Some ''busybox'' then
          (if i \<ge> length ts then None
           else if basename_in (ts ! i) shell_interpreter_heads then shell_inline_scan ts (i + 1)
           else None)
        else if basename_in (ts ! startIndex) shell_interpreter_heads then shell_inline_scan ts i
        else None))"

text \<open>The wrapper loop of \<open>extractShellInlineScript\<close> (and, with the privilege test added, of
\<open>parseBashCommandHead\<close>): \<open>None\<close> where the source returns null after the flags.\<close>

function unwrap_command_wrappers :: "tokens \<Rightarrow> nat \<Rightarrow> (tokens \<times> nat) option" where
  "unwrap_command_wrappers ts i =
     (if i < length ts \<and> is_command_wrapper (ts ! i) then
        (case expand_env_split_string ts i of
           Some e \<Rightarrow> unwrap_command_wrappers (splice ts i e) i
         | None \<Rightarrow>
             (if skip_wrapper_flags ts i \<ge> length ts then None
              else unwrap_command_wrappers ts (skip_wrapper_flags ts i)))
      else Some (ts, i))"
  by pat_completeness auto
termination
  by (relation "measure (\<lambda>(ts, i). token_weight (drop i ts))")
     (auto simp: skip_ge splice_weight intro: token_weight_drop_step)

declare unwrap_command_wrappers.simps [simp del]

definition extract_shell_inline_script :: "string \<Rightarrow> string option" where
  "extract_shell_inline_script commandLine =
     (let trimmed = trim commandLine in
      if trimmed = '''' then None
      else (let ts = tokenize_words trimmed in
        if ts = [] then None
        else (case unwrap_command_wrappers ts (skip_env_assignments ts 0) of
            None \<Rightarrow> None
          | Some (ts', i) \<Rightarrow> if i \<ge> length ts' then None else extract_shell_inline_script_from_tokens ts' i)))"

section \<open>Script interpreters\<close>

definition script_interpreter_heads :: "string list" where
  "script_interpreter_heads =
     [''node'', ''nodejs'', ''perl'', ''php'', ''python'', ''python3'', ''ruby'', ''lua'', ''luajit'']"

text \<open>\<open>\d*(?:\.\d+)*\<close> up to the end of the string.\<close>

definition version_tail :: "string \<Rightarrow> bool" where
  "version_tail s =
     (case split_on (CHR ''.'') s of
        [] \<Rightarrow> False
      | p # ps \<Rightarrow> list_all js_digit p \<and> list_all (\<lambda>q. q \<noteq> [] \<and> list_all js_digit q) ps)"

definition versioned :: "string \<Rightarrow> string \<Rightarrow> bool" where
  "versioned base s = (starts_with s base \<and> version_tail (drop (length base) s))"

text \<open>\<open>luajit(?:-\d+(?:\.\d+)*)?\<close>.\<close>

definition versioned_luajit :: "string \<Rightarrow> bool" where
  "versioned_luajit s =
     (s = ''luajit'' \<or>
      (starts_with s ''luajit-'' \<and>
       (let r = drop 7 s in r \<noteq> [] \<and> hd r \<noteq> CHR ''.'' \<and> version_tail r)))"

definition is_node_interpreter_head :: "string \<Rightarrow> bool" where
  "is_node_interpreter_head h = (versioned ''node'' h \<or> versioned ''nodejs'' h)"

definition is_python_interpreter_head :: "string \<Rightarrow> bool" where
  "is_python_interpreter_head h = (versioned ''python'' h \<or> versioned ''pypy'' h)"

definition is_perl_interpreter_head :: "string \<Rightarrow> bool" where
  "is_perl_interpreter_head h = versioned ''perl'' h"

definition is_ruby_interpreter_head :: "string \<Rightarrow> bool" where
  "is_ruby_interpreter_head h = versioned ''ruby'' h"

definition is_php_interpreter_head :: "string \<Rightarrow> bool" where
  "is_php_interpreter_head h = versioned ''php'' h"

definition is_lua_interpreter_head :: "string \<Rightarrow> bool" where
  "is_lua_interpreter_head h = (versioned ''lua'' h \<or> versioned_luajit h)"

text \<open>A token without a basename is \<open>undefined\<close>, which no set holds and no pattern matches.\<close>

definition is_script_interpreter_head :: "string \<Rightarrow> bool" where
  "is_script_interpreter_head h =
     (h \<in> set script_interpreter_heads \<or>
      List.list_ex (\<lambda>test. test h)
        [is_node_interpreter_head, is_perl_interpreter_head, is_php_interpreter_head,
         is_python_interpreter_head, is_ruby_interpreter_head, is_lua_interpreter_head])"

definition script_inline_short_flags :: "string \<Rightarrow> string" where
  "script_inline_short_flags h =
     (if is_node_interpreter_head h then ''ep''
      else if is_python_interpreter_head h then ''c''
      else if is_perl_interpreter_head h then ''eE''
      else if is_ruby_interpreter_head h then ''e''
      else if is_php_interpreter_head h then ''r''
      else if is_lua_interpreter_head h then ''e''
      else [])"

definition is_script_inline_flag :: "string \<Rightarrow> string \<Rightarrow> bool" where
  "is_script_inline_flag h token =
     (if token = ''--command'' \<or> token = ''--eval'' then True
      else if is_node_interpreter_head h \<and> token = ''--print'' then True
      else if \<not> starts_with token ''-'' \<or> starts_with token ''--'' then False
      else List.list_ex (\<lambda>c. c \<in> set (script_inline_short_flags h)) (drop 1 token))"

text \<open>The first inline flag of a short option group, with the text after it unless that is empty.\<close>

fun attached_after_flag :: "string \<Rightarrow> string \<Rightarrow> string option" where
  "attached_after_flag flags [] = None"
| "attached_after_flag flags (c # cs) =
     (if c \<in> set flags then (if cs = [] then None else Some cs) else attached_after_flag flags cs)"

definition extract_attached_script_inline :: "string \<Rightarrow> string \<Rightarrow> string option" where
  "extract_attached_script_inline h token =
     (if starts_with token ''--command='' then Some (drop 10 token)
      else if starts_with token ''--eval='' then Some (drop 7 token)
      else if is_node_interpreter_head h \<and> starts_with token ''--print='' then Some (drop 8 token)
      else if \<not> starts_with token ''-'' \<or> starts_with token ''--'' then None
      else attached_after_flag (script_inline_short_flags h) (drop 1 token))"

function script_inline_scan :: "tokens \<Rightarrow> string \<Rightarrow> nat \<Rightarrow> string option" where
  "script_inline_scan ts h i =
     (if i < length ts then
        (case extract_attached_script_inline h (ts ! i) of
           Some attached \<Rightarrow> Some attached
         | None \<Rightarrow>
             (if is_script_inline_flag h (ts ! i) then at ts (i + 1) else script_inline_scan ts h (i + 1)))
      else None)"
  by pat_completeness auto
termination
  by (relation "measure (\<lambda>(ts, h, i). length ts - i)") auto

declare script_inline_scan.simps [simp del]

definition extract_script_interpreter_inline_from_tokens :: "tokens \<Rightarrow> nat \<Rightarrow> string option" where
  "extract_script_interpreter_inline_from_tokens ts startIndex =
     (if startIndex \<ge> length ts then None
      else (case token_basename (ts ! startIndex) of
          None \<Rightarrow> None
        | Some h \<Rightarrow>
            (if \<not> is_script_interpreter_head h then None else script_inline_scan ts h (startIndex + 1))))"

section \<open>The script and flock wrappers\<close>

function script_wrapper_scan :: "tokens \<Rightarrow> nat \<Rightarrow> string option" where
  "script_wrapper_scan ts i =
     (if i < length ts then
        (if ts ! i = ''-c'' \<or> ts ! i = ''--command'' then at ts (i + 1)
         else if starts_with (ts ! i) ''--command='' then Some (drop 10 (ts ! i))
         else script_wrapper_scan ts (i + 1))
      else None)"
  by pat_completeness auto
termination
  by (relation "measure (\<lambda>(ts, i). length ts - i)") auto

declare script_wrapper_scan.simps [simp del]

definition extract_script_wrapper_inline_from_tokens :: "tokens \<Rightarrow> nat \<Rightarrow> string option" where
  "extract_script_wrapper_inline_from_tokens ts startIndex =
     (if startIndex \<ge> length ts then None
      else if token_basename (ts ! startIndex) \<noteq> Some ''script'' then None
      else script_wrapper_scan ts (startIndex + 1))"

definition extract_flock_wrapper_inline_from_tokens :: "tokens \<Rightarrow> nat \<Rightarrow> string option" where
  "extract_flock_wrapper_inline_from_tokens ts startIndex =
     (if startIndex \<ge> length ts \<or> token_basename (ts ! startIndex) \<noteq> Some ''flock'' then None
      else (case at ts (skip_flock_wrapper_args ts (startIndex + 1)) of
          None \<Rightarrow> None
        | Some token \<Rightarrow>
            (if token = ''-c'' \<or> token = ''--command''
             then at ts (skip_flock_wrapper_args ts (startIndex + 1) + 1)
             else if starts_with token ''--command='' then Some (drop 10 token)
             else None)))"

section \<open>Git shell aliases\<close>

definition extract_git_shell_alias_payload :: "string option \<Rightarrow> string option" where
  "extract_git_shell_alias_payload config =
     (case config of
        None \<Rightarrow> None
      | Some c \<Rightarrow>
          (case index_of (CHR ''='') c of
             None \<Rightarrow> None
           | Some separator \<Rightarrow>
               (if separator = 0 then None
                else (let key = take separator c; v = drop (separator + 1) c; name = drop 6 key in
                  if \<not> (starts_with key ''alias.'' \<and> name \<noteq> [] \<and>
                        list_all (\<lambda>x. x \<noteq> CHR ''.'' \<and> x \<noteq> CHR ''='' \<and> \<not> js_space x) name) then None
                  else if starts_with v ''!'' then Some (drop 1 v)
                  else None))))"

function git_alias_scan :: "tokens \<Rightarrow> nat \<Rightarrow> string list" where
  "git_alias_scan ts j =
     (if j < length ts then
        (let token = ts ! j;
             (config, j') =
               (if token = ''-c'' \<or> token = ''--config'' then (at ts (j + 1), j + 1)
                else if starts_with token ''-c'' \<and> length token > 2 then (Some (drop 2 token), j)
                else if starts_with token ''--config='' then (Some (drop 9 token), j)
                else (None, j))
         in (case extract_git_shell_alias_payload config of None \<Rightarrow> [] | Some p \<Rightarrow> [p])
            @ git_alias_scan ts (j' + 1))
      else [])"
  by pat_completeness auto
termination
  by (relation "measure (\<lambda>(ts, j). length ts - j)") (auto split: if_splits)

declare git_alias_scan.simps [simp del]

definition extract_git_shell_alias_payloads :: "string \<Rightarrow> string list" where
  "extract_git_shell_alias_payloads commandLine =
     (let trimmed = trim commandLine in
      if trimmed = [] then []
      else (let ts = tokenize_words trimmed;
                (ts', i) = skip_execution_wrappers ts (skip_env_assignments ts 0)
            in if i \<ge> length ts' \<or> token_basename (ts' ! i) \<noteq> Some ''git'' then []
               else git_alias_scan ts' (i + 1)))"

definition git_shell_alias_has_unsafe_allow_syntax :: "string \<Rightarrow> bool" where
  "git_shell_alias_has_unsafe_allow_syntax commandLine = (length (extract_git_shell_alias_payloads commandLine) > 0)"

end
