(* ===== verification/Bash_Analysis.thy ===== *)
theory Bash_Analysis
  imports Bash_Inline
begin

text \<open>
  The analyses of \<open>src/policy/bash-parse.ts\<close> that the policy consults: the head of a line, the scan for
  syntax that may run more than the head, and the search for a builtin-denied head in wrapped and nested
  scripts.

  \<open>parseBashCommandHead\<close> throws a TypeError when the head is a token of slashes only, so it and every
  caller return \<open>Inl Type_error\<close> or \<open>Inr\<close> the value of the source.  The mutually recursive deny scan
  terminates because a payload is shorter than the vector it is taken from; the nested scans carry the
  source's depth as the levels that are left, \<open>MAX_SHELL_INLINE_DEPTH - depth\<close>.
\<close>

datatype js_error = Type_error

section \<open>Unsafe syntax in one line\<close>

definition operator_leading :: "string \<Rightarrow> bool" where
  "operator_leading s = (case s of [] \<Rightarrow> False | c # _ \<Rightarrow> c \<in> set ''&|;<>(){}!'')"

text \<open>\<open>prev\<close> is \<open>trimmed[i - 1]\<close>, the rest is the input from \<open>i\<close> on, \<open>q\<close> the open quote.\<close>

fun unsafe_scan :: "char option \<Rightarrow> string \<Rightarrow> char option \<Rightarrow> bool" where
  "unsafe_scan prev [] q = False"
| "unsafe_scan prev (ch # rest) q =
     (if ch = CHR 0x5C then unsafe_scan (at rest 0) (drop 1 rest) q
      else if q = Some (CHR 0x27) then unsafe_scan (Some ch) rest (if ch = CHR 0x27 then None else q)
      else if q = Some (CHR 0x22) then
        (if ch = CHR 0x22 then unsafe_scan (Some ch) rest None
         else if ch = CHR 0x60 then True
         else if ch = CHR ''$'' \<and> starts_with rest ''('' then True
         else unsafe_scan (Some ch) rest q)
      else if ch = CHR 0x27 \<or> ch = CHR 0x22 then unsafe_scan (Some ch) rest (Some ch)
      else if ch = CHR 0x0A \<or> ch = CHR '';'' \<or> ch = CHR ''|'' then True
      else if ch = CHR ''&'' \<and> \<not> starts_with rest ''>'' \<and> prev \<noteq> Some (CHR ''>'') then True
      else if ch = CHR 0x60 then True
      else if ch = CHR ''$'' \<and> starts_with rest ''('' then True
      else if (ch = CHR ''<'' \<or> ch = CHR ''>'') \<and> starts_with rest ''('' then True
      else unsafe_scan (Some ch) rest q)"

definition unsafe_allow_syntax_in_fragment :: "string \<Rightarrow> bool" where
  "unsafe_allow_syntax_in_fragment commandLine =
     (let trimmed = trim commandLine in
      if trimmed = [] then False
      else if operator_leading trimmed then False
      else unsafe_scan None trimmed None)"

function env_split_unsafe :: "tokens \<Rightarrow> nat \<Rightarrow> bool" where
  "env_split_unsafe ts i =
     (if i < length ts then
        (case expand_env_split_string ts i of
           None \<Rightarrow> env_split_unsafe ts (i + 1)
         | Some e \<Rightarrow>
             (if unsafe_allow_syntax_in_fragment (join_with '' '' (snd e)) then True
              else env_split_unsafe (splice ts i e) i))
      else False)"
  by pat_completeness auto
termination
  by (relation "measure (\<lambda>(ts, i). token_weight (drop i ts))")
     (auto simp: splice_weight intro: token_weight_drop_step)

declare env_split_unsafe.simps [simp del]

definition env_split_expansions_have_unsafe_syntax :: "string \<Rightarrow> bool" where
  "env_split_expansions_have_unsafe_syntax commandLine =
     (let trimmed = trim commandLine in
      if trimmed = [] then False else env_split_unsafe (tokenize_words trimmed) 0)"

section \<open>Embedded inline scripts\<close>

record embedded =
  shellScripts :: "string list"
  hasScriptInterpreter :: bool
  hasFindExec :: bool

definition is_find_exec :: "string \<Rightarrow> bool" where
  "is_find_exec token =
     (token = ''-exec'' \<or> token = ''-execdir'' \<or> starts_with token ''-exec='' \<or> starts_with token ''-execdir='')"

definition option_to_list :: "'a option \<Rightarrow> 'a list" where
  "option_to_list x = (case x of None \<Rightarrow> [] | Some v \<Rightarrow> [v])"

definition embedded_at :: "tokens \<Rightarrow> nat \<Rightarrow> embedded \<Rightarrow> embedded" where
  "embedded_at ts i acc =
     \<lparr>shellScripts = shellScripts acc
        @ option_to_list (extract_shell_inline_script_from_tokens ts i)
        @ option_to_list (extract_script_wrapper_inline_from_tokens ts i)
        @ option_to_list (extract_flock_wrapper_inline_from_tokens ts i),
      hasScriptInterpreter = (hasScriptInterpreter acc \<or> extract_script_interpreter_inline_from_tokens ts i \<noteq> None),
      hasFindExec = (hasFindExec acc \<or> is_find_exec (ts ! i))\<rparr>"

function embedded_scan :: "tokens \<Rightarrow> nat \<Rightarrow> embedded \<Rightarrow> embedded" where
  "embedded_scan ts i acc =
     (if i < length ts then
        (case expand_env_split_string ts i of
           Some e \<Rightarrow> embedded_scan (splice ts i e) i acc
         | None \<Rightarrow> embedded_scan ts (i + 1) (embedded_at ts i acc))
      else acc)"
  by pat_completeness auto
termination
  by (relation "measure (\<lambda>(ts, i, acc). token_weight (drop i ts))")
     (auto simp: splice_weight intro: token_weight_drop_step)

declare embedded_scan.simps [simp del]

definition no_embedded :: embedded where
  "no_embedded = \<lparr>shellScripts = [], hasScriptInterpreter = False, hasFindExec = False\<rparr>"

definition analyze_embedded_inline_scripts :: "string \<Rightarrow> embedded" where
  "analyze_embedded_inline_scripts commandLine =
     (let trimmed = trim commandLine in
      if trimmed = [] then no_embedded else embedded_scan (tokenize_words trimmed) 0 no_embedded)"

text \<open>The \<open>Set\<close> of scripts in insertion order: the leading shell script, then the embedded ones.\<close>

fun dedup_onto :: "'a list \<Rightarrow> 'a list \<Rightarrow> 'a list" where
  "dedup_onto out [] = out"
| "dedup_onto out (x # xs) = dedup_onto (if x \<in> set out then out else out @ [x]) xs"

definition shell_script_set :: "string \<Rightarrow> string list" where
  "shell_script_set commandLine =
     dedup_onto [] (option_to_list (extract_shell_inline_script commandLine)
                    @ shellScripts (analyze_embedded_inline_scripts commandLine))"

section \<open>The head of a line\<close>

datatype head_unwrap =
    Unwrap_null
  | Unwrap_head string
  | Unwrap_at tokens nat

function unwrap_head :: "tokens \<Rightarrow> nat \<Rightarrow> head_unwrap" where
  "unwrap_head ts i =
     (if i < length ts \<and> is_command_wrapper (ts ! i) then
        (case expand_env_split_string ts i of
           Some e \<Rightarrow> unwrap_head (splice ts i e) i
         | None \<Rightarrow>
             (case privilege_wrapper_head_with_inline_script ts i of
                Some h \<Rightarrow> Unwrap_head h
              | None \<Rightarrow>
                  (if skip_wrapper_flags ts i \<ge> length ts then Unwrap_null
                   else unwrap_head ts (skip_wrapper_flags ts i))))
      else Unwrap_at ts i)"
  by pat_completeness auto
termination
  by (relation "measure (\<lambda>(ts, i). token_weight (drop i ts))")
     (auto simp: skip_ge splice_weight intro: token_weight_drop_step)

declare unwrap_head.simps [simp del]

definition parse_bash_command_head :: "string \<Rightarrow> (js_error, string option) result" where
  "parse_bash_command_head commandLine =
     (let trimmed = trim commandLine in
      if trimmed = [] then Inr None
      else if operator_leading trimmed then Inr None
      else (let ts = tokenize_leading_words trimmed; i = skip_env_assignments ts 0 in
        if ts = [] then Inr None
        else if i \<ge> length ts then Inr None
        else (case unwrap_head ts i of
            Unwrap_null \<Rightarrow> Inr None
          | Unwrap_head h \<Rightarrow> Inr (Some h)
          | Unwrap_at ts' j \<Rightarrow>
              (case at ts' j of
                 None \<Rightarrow> Inl Type_error
               | Some head \<Rightarrow>
                   (if head = [] then Inr None
                    else (case token_basename head of
                        None \<Rightarrow> Inl Type_error
                      | Some basename \<Rightarrow>
                          (if starts_with basename ''-'' then Inr None
                           else if basename = [] then Inr None
                           else Inr (Some basename))))))))"

section \<open>Payloads are shorter than the vector they come from\<close>

text \<open>\<open>inline_ok ts k s\<close>: the payload \<open>s\<close>, as a vector, weighs less than the tokens from \<open>k\<close> on.\<close>

definition inline_ok :: "tokens \<Rightarrow> nat \<Rightarrow> string \<Rightarrow> bool" where
  "inline_ok ts k s \<longleftrightarrow> length s + 1 < token_weight (drop k ts)"

lemma inline_ok_nth: "k < j \<Longrightarrow> j < length ts \<Longrightarrow> length s \<le> length (ts ! j) \<Longrightarrow> inline_ok ts k s"
proof -
  assume a: "k < j" "j < length ts" "length s \<le> length (ts ! j)"
  have "drop (Suc k) ts ! (j - Suc k) = ts ! j" "j - Suc k < length (drop (Suc k) ts)" using a by auto
  with weight_nth [of "j - Suc k" "drop (Suc k) ts"] a
  have "length s + 1 \<le> token_weight (drop (Suc k) ts)" by simp
  moreover have "token_weight (drop (Suc k) ts) < token_weight (drop k ts)"
    using a by (intro token_weight_drop_step) auto
  ultimately show ?thesis by (simp add: inline_ok_def)
qed

lemma inline_ok_at: "at ts j = Some s \<Longrightarrow> k < j \<Longrightarrow> inline_ok ts k s"
  by (auto simp: at_def split: if_splits intro: inline_ok_nth)

lemma shell_inline_scan_ok: "shell_inline_scan ts i = Some s \<Longrightarrow> k < i \<Longrightarrow> inline_ok ts k s"
proof (induction "length ts - i" arbitrary: i rule: less_induct)
  case less
  have IH: "i < length ts \<Longrightarrow> i < j \<Longrightarrow> shell_inline_scan ts j = Some s \<Longrightarrow> inline_ok ts k s" for j
    using less(1) [of j] less(3) by simp
  have I1: "i < length ts \<Longrightarrow> shell_inline_scan ts (i + 1) = Some s \<Longrightarrow> inline_ok ts k s"
    and I2: "i < length ts \<Longrightarrow> shell_inline_scan ts (i + 2) = Some s \<Longrightarrow> inline_ok ts k s"
    and A: "at ts (i + 1) = Some s \<Longrightarrow> inline_ok ts k s"
    and P: "i < length ts \<Longrightarrow> Some (drop 10 (ts ! i)) = Some s \<Longrightarrow> inline_ok ts k s"
    using IH [of "i + 1"] IH [of "i + 2"] less(3) by (auto intro: inline_ok_at inline_ok_nth)
  from less(2) show ?case
    by (subst (asm) shell_inline_scan.simps)
       (simp only: Let_def option.distinct split: if_split_asm, simp_all only: HOL.simp_thms if_True if_False I1 I2 A P option.distinct)
qed

lemma script_wrapper_scan_ok: "script_wrapper_scan ts i = Some s \<Longrightarrow> k < i \<Longrightarrow> inline_ok ts k s"
proof (induction "length ts - i" arbitrary: i rule: less_induct)
  case less
  have IH: "i < length ts \<Longrightarrow> i < j \<Longrightarrow> script_wrapper_scan ts j = Some s \<Longrightarrow> inline_ok ts k s" for j
    using less(1) [of j] less(3) by simp
  from less(2,3) IH [of "i + 1"] show ?case
    by (subst (asm) script_wrapper_scan.simps)
       (auto split: if_split_asm intro: inline_ok_at inline_ok_nth)
qed

lemma privilege_inline_scan_ok: "privilege_inline_scan ts h c i = Some s \<Longrightarrow> k < i \<Longrightarrow> inline_ok ts k s"
proof (induction "length ts - i" arbitrary: i c rule: less_induct)
  case less
  have IH: "i < length ts \<Longrightarrow> i < j \<Longrightarrow> privilege_inline_scan ts h c' j = Some s \<Longrightarrow> inline_ok ts k s" for j c'
    using less(1) [of j c'] less(3) by simp
  have I1: "i < length ts \<Longrightarrow> privilege_inline_scan ts h c' (i + 1) = Some s \<Longrightarrow> inline_ok ts k s"
    and I2: "i < length ts \<Longrightarrow> privilege_inline_scan ts h c' (i + 2) = Some s \<Longrightarrow> inline_ok ts k s"
    and A: "at ts (i + 1) = Some s \<Longrightarrow> inline_ok ts k s"
    and P: "i < length ts \<Longrightarrow> Some (drop 10 (ts ! i)) = Some s \<Longrightarrow> inline_ok ts k s" for c'
    using IH [of "i + 1" c'] IH [of "i + 2" c'] less(3) by (auto intro: inline_ok_at inline_ok_nth)
  from less(2) show ?case
    by (subst (asm) privilege_inline_scan.simps)
       (simp only: Let_def option.distinct split: if_split_asm, simp_all only: HOL.simp_thms if_True if_False I1 I2 A P option.distinct)
qed

lemma shell_extract_ok: "extract_shell_inline_script_from_tokens ts i = Some s \<Longrightarrow> inline_ok ts i s"
  by (auto simp: extract_shell_inline_script_from_tokens_def Let_def split: if_splits
      intro: shell_inline_scan_ok)

lemma privilege_extract_ok: "extract_privilege_wrapper_inline_script_from_tokens ts i = Some s \<Longrightarrow> inline_ok ts i s"
  by (auto simp: extract_privilege_wrapper_inline_script_from_tokens_def split: if_splits option.splits
      intro: privilege_inline_scan_ok)

lemma script_extract_ok: "extract_script_wrapper_inline_from_tokens ts i = Some s \<Longrightarrow> inline_ok ts i s"
  by (auto simp: extract_script_wrapper_inline_from_tokens_def split: if_splits intro: script_wrapper_scan_ok)

lemma flock_extract_ok: "extract_flock_wrapper_inline_from_tokens ts i = Some s \<Longrightarrow> inline_ok ts i s"
proof -
  assume a: "extract_flock_wrapper_inline_from_tokens ts i = Some s"
  have g: "i < skip_flock_wrapper_args ts (i + 1)" using flock.progress [of i "i + 1" ts] by simp
  with a show ?thesis
    by (auto simp: extract_flock_wrapper_inline_from_tokens_def split: if_splits option.splits
        intro: inline_ok_at) (auto simp: at_def split: if_splits intro: inline_ok_nth)
qed

section \<open>Denied heads in wrapped commands\<close>

type_synonym deny_result = "(js_error, string option) result"

definition find_deny :: "string option \<Rightarrow> string option" where
  "find_deny head = (case head of None \<Rightarrow> None | Some h \<Rightarrow> if h \<in> set builtin_bash_deny_heads then Some h else None)"

definition direct_wrapped_deny_heads :: "string list" where
  "direct_wrapped_deny_heads = [''busybox'', ''builtin'']"

fun skip_dashes :: "tokens \<Rightarrow> tokens" where
  "skip_dashes [] = []"
| "skip_dashes (t # ts) = (if starts_with t ''-'' then skip_dashes ts else t # ts)"

definition wrapped_builtin_deny_head_after_direct_wrapper :: "tokens \<Rightarrow> nat \<Rightarrow> string option" where
  "wrapped_builtin_deny_head_after_direct_wrapper ts wrapperIndex =
     (case skip_dashes (drop (wrapperIndex + 1) ts) of
        [] \<Rightarrow> None
      | t # _ \<Rightarrow> find_deny (token_basename t))"

definition is_separator_token :: "string \<Rightarrow> bool" where
  "is_separator_token token = (is_command_terminator_token token \<or> token = ''&&'' \<or> token = ''||'')"

fun scoped_tokens :: "tokens \<Rightarrow> tokens" where
  "scoped_tokens [] = []"
| "scoped_tokens (t # ts) = (if is_separator_token t then [] else t # scoped_tokens ts)"

text \<open>The first payload of \<open>extractShell... ?? extractPrivilege... ?? extractScript... ?? extractFlock...\<close>.\<close>

definition argv_inline_script :: "tokens \<Rightarrow> nat \<Rightarrow> string option" where
  "argv_inline_script ts index =
     (case extract_shell_inline_script_from_tokens ts index of
        Some s \<Rightarrow> Some s
      | None \<Rightarrow>
          (case extract_privilege_wrapper_inline_script_from_tokens ts index of
             Some s \<Rightarrow> Some s
           | None \<Rightarrow>
               (case extract_script_wrapper_inline_from_tokens ts index of
                  Some s \<Rightarrow> Some s
                | None \<Rightarrow> extract_flock_wrapper_inline_from_tokens ts index)))"

lemma argv_inline_script_ok: "argv_inline_script ts i = Some s \<Longrightarrow> inline_ok ts i s"
  by (auto simp: argv_inline_script_def split: option.splits
      dest: shell_extract_ok privilege_extract_ok script_extract_ok flock_extract_ok)

lemma inline_ok_tokenize: "inline_ok ts i s \<Longrightarrow> token_weight (tokenize_words s) < token_weight (drop i ts)"
  using tokenize_words_weight [of s] by (simp add: inline_ok_def)

lemma scoped_tokens_weight: "token_weight (scoped_tokens ts) \<le> token_weight ts"
  by (induction ts) auto

lemma trimmed_words_weight: "token_weight (tokenize_words (trim s)) \<le> length s + 1"
  using tokenize_words_weight [of "trim s"] length_trim_le [of s] by simp

lemma direct_step:
  "(ts, i) = skip_execution_wrappers (tokenize_words (trim s)) k \<Longrightarrow> token_weight (drop i ts) \<le> length s + 1"
  using skip_execution_wrappers_weight [of "tokenize_words (trim s)" k ts i] trimmed_words_weight [of s]
    token_weight_drop [of i ts] by simp

lemma scoped_step: "token_weight (scoped_tokens (drop i ts)) \<le> token_weight (drop i ts)"
  by (rule scoped_tokens_weight)

lemma scoped_join_step:
  "scoped_tokens (drop i ts) \<noteq> [] \<Longrightarrow> length (join_with '' '' (scoped_tokens (drop i ts))) + 1 \<le> token_weight (drop i ts)"
  using length_join_weight [of "scoped_tokens (drop i ts)"] scoped_step [of i ts] by simp

text \<open>
  An index past the vector is a TypeError (\<open>undefined.includes\<close>).  The loop that ends
  \<open>bashDirectWrappedBuiltinDenyHead\<close> returns null on every path and leaves no trace.
\<close>

function bash_direct_wrapped_builtin_deny_head :: "string \<Rightarrow> deny_result"
  and privilege_wrapper_builtin_deny_head :: "tokens \<Rightarrow> nat \<Rightarrow> deny_result"
  and scan_argv_for_builtin_deny_head :: "tokens \<Rightarrow> nat \<Rightarrow> deny_result"
  and argv_token_builtin_deny_head :: "tokens \<Rightarrow> nat \<Rightarrow> deny_result"
  and builtin_deny_head_from_command_tokens :: "tokens \<Rightarrow> deny_result"
where
  "bash_direct_wrapped_builtin_deny_head commandLine =
     (if trim commandLine = [] then Inr None
      else (case skip_execution_wrappers (tokenize_words (trim commandLine))
                   (skip_env_assignments (tokenize_words (trim commandLine)) 0) of
          (ts, i) \<Rightarrow>
            (if i \<ge> length ts then Inr None
             else if find_deny (token_basename (ts ! i)) \<noteq> None then Inr (find_deny (token_basename (ts ! i)))
             else if basename_in (ts ! i) direct_wrapped_deny_heads
               then Inr (wrapped_builtin_deny_head_after_direct_wrapper ts i)
             else privilege_wrapper_builtin_deny_head ts i)))"
| "privilege_wrapper_builtin_deny_head ts startIndex =
     (if startIndex \<ge> length ts then Inl Type_error
      else (case extract_privilege_wrapper_inline_script_from_tokens ts startIndex of
          Some s \<Rightarrow> builtin_deny_head_from_command_tokens (tokenize_words s)
        | None \<Rightarrow>
            (if \<not> basename_in (ts ! startIndex) privilege_wrapper_heads then Inr None
             else if skip_privilege_wrapper_for_wrapped_command ts startIndex \<ge> length ts then Inr None
             else scan_argv_for_builtin_deny_head ts (skip_privilege_wrapper_for_wrapped_command ts startIndex))))"
| "scan_argv_for_builtin_deny_head ts startIndex =
     (if scoped_tokens (drop startIndex ts) = [] then Inr None
      else (case argv_token_builtin_deny_head (scoped_tokens (drop startIndex ts)) 0 of
          Inl e \<Rightarrow> Inl e
        | Inr (Some h) \<Rightarrow> Inr (Some h)
        | Inr None \<Rightarrow> bash_direct_wrapped_builtin_deny_head (join_with '' '' (scoped_tokens (drop startIndex ts)))))"
| "argv_token_builtin_deny_head ts index =
     (if index \<ge> length ts then Inl Type_error
      else if is_separator_token (ts ! index) then Inr None
      else (case argv_inline_script ts index of
          Some s \<Rightarrow> builtin_deny_head_from_command_tokens (tokenize_words s)
        | None \<Rightarrow>
            (if find_deny (token_basename (ts ! index)) \<noteq> None then Inr (find_deny (token_basename (ts ! index)))
             else if basename_in (ts ! index) direct_wrapped_deny_heads
               then Inr (wrapped_builtin_deny_head_after_direct_wrapper ts index)
             else Inr None)))"
| "builtin_deny_head_from_command_tokens ts =
     (if ts = [] then Inr None
      else (case parse_bash_command_head (join_with '' '' ts) of
          Inl e \<Rightarrow> Inl e
        | Inr head \<Rightarrow>
            (if find_deny head \<noteq> None then Inr head
             else bash_direct_wrapped_builtin_deny_head (join_with '' '' ts))))"
  by pat_completeness auto
termination
  apply (relation "measures
    [case_sum (case_sum (\<lambda>cl. length cl + 1) (\<lambda>(ts, i). token_weight (drop i ts)))
       (case_sum (\<lambda>(ts, i). token_weight (drop i ts))
          (case_sum (\<lambda>(ts, i). token_weight (drop i ts)) token_weight)),
     case_sum (case_sum (\<lambda>_. 1) (\<lambda>_. 0)) (case_sum (\<lambda>_. 2) (case_sum (\<lambda>_. 0) (\<lambda>_. 2)))]")
  apply (simp_all only: in_measures sum.case prod.case wf_measures)
  subgoal for cl
  proof -
    obtain ts i where e: "skip_execution_wrappers (tokenize_words (trim cl))
        (skip_env_assignments (tokenize_words (trim cl)) 0) = (ts, i)" by (cases rule: prod.exhaust)
    from direct_step [OF e [symmetric]] show ?thesis unfolding e prod.case by linarith
  qed
  subgoal by (rule disjI1, rule token_weight_drop_step) (auto simp: skip_ge)
  subgoal by (simp add: inline_ok_tokenize privilege_extract_ok)
  subgoal for ts i using scoped_step [of i ts] by (simp add: nat_less_le)
  subgoal for ts i using scoped_join_step [of i ts] by (simp add: nat_less_le)
  subgoal by (simp add: inline_ok_tokenize argv_inline_script_ok)
  subgoal for ts using length_join_weight [of ts] by simp
  done

declare bash_direct_wrapped_builtin_deny_head.simps [simp del]
  privilege_wrapper_builtin_deny_head.simps [simp del]
  scan_argv_for_builtin_deny_head.simps [simp del]
  argv_token_builtin_deny_head.simps [simp del]
  builtin_deny_head_from_command_tokens.simps [simp del]

section \<open>Denied heads in nested scripts\<close>

text \<open>\<open>if (first) return first;\<close> and then the second search.\<close>

abbreviation or_else :: "deny_result \<Rightarrow> deny_result \<Rightarrow> deny_result" where
  "or_else r s \<equiv> (case r of Inl e \<Rightarrow> Inl e | Inr h \<Rightarrow> (case h of None \<Rightarrow> s | Some d \<Rightarrow> Inr (Some d)))"

fun first_deny :: "(string \<Rightarrow> deny_result) \<Rightarrow> string list \<Rightarrow> deny_result" where
  "first_deny f [] = Inr None"
| "first_deny f (x # xs) = or_else (f x) (first_deny f xs)"

definition denied_head_of :: "string \<Rightarrow> deny_result" where
  "denied_head_of line =
     (case parse_bash_command_head line of
        Inl e \<Rightarrow> Inl e
      | Inr head \<Rightarrow> Inr (find_deny head))"

function env_split_deny_scan :: "tokens \<Rightarrow> nat \<Rightarrow> deny_result" where
  "env_split_deny_scan ts i =
     (if i < length ts then
        (case expand_env_split_string ts i of
           None \<Rightarrow> env_split_deny_scan ts (i + 1)
         | Some e \<Rightarrow>
             or_else (builtin_deny_head_from_command_tokens (snd e)) (env_split_deny_scan (splice ts i e) i))
      else Inr None)"
  by pat_completeness auto
termination
  by (relation "measure (\<lambda>(ts, i). token_weight (drop i ts))")
     (auto simp: splice_weight intro: token_weight_drop_step)

declare env_split_deny_scan.simps [simp del]

definition env_split_expansions_nested_builtin_deny_head :: "string \<Rightarrow> deny_result" where
  "env_split_expansions_nested_builtin_deny_head commandLine =
     (if trim commandLine = [] then Inr None
      else env_split_deny_scan (tokenize_words (trim commandLine)) 0)"

definition max_shell_inline_depth :: nat where
  "max_shell_inline_depth = 8"

text \<open>\<open>n\<close> levels of nesting are left: \<open>depth >= MAX_SHELL_INLINE_DEPTH\<close> is \<open>n = 0\<close>.\<close>

fun bash_nested_builtin_deny_head_inner :: "nat \<Rightarrow> string \<Rightarrow> deny_result" where
  "bash_nested_builtin_deny_head_inner n commandLine =
     or_else (env_split_expansions_nested_builtin_deny_head commandLine)
       (or_else
          (first_deny
             (\<lambda>payload. or_else (builtin_deny_head_from_command_tokens (tokenize_words payload))
                (if n = 0 then Inr None else bash_nested_builtin_deny_head_inner (n - 1) payload))
             (extract_git_shell_alias_payloads commandLine))
          (first_deny
             (\<lambda>nested. or_else (denied_head_of nested)
                (if n = 0 then Inr None else bash_nested_builtin_deny_head_inner (n - 1) nested))
             (shell_script_set commandLine)))"

declare bash_nested_builtin_deny_head_inner.simps [simp del]

definition bash_nested_builtin_deny_head :: "string \<Rightarrow> deny_result" where
  "bash_nested_builtin_deny_head commandLine =
     or_else (bash_direct_wrapped_builtin_deny_head commandLine)
       (or_else
          (case extract_privilege_wrapper_inline_script commandLine of
             None \<Rightarrow> Inr None
           | Some script \<Rightarrow>
               or_else (denied_head_of script)
                 (bash_nested_builtin_deny_head_inner max_shell_inline_depth script))
          (bash_nested_builtin_deny_head_inner max_shell_inline_depth commandLine))"

section \<open>The verdict on a line\<close>

definition bash_delegation_heads :: "string list" where
  "bash_delegation_heads = [''builtin'', ''command'', ''eval'', ''exec'', ''source'', ''.'', ''xargs'']"

fun any_unsafe :: "(string \<Rightarrow> (js_error, bool) result) \<Rightarrow> string list \<Rightarrow> (js_error, bool) result" where
  "any_unsafe f [] = Inr False"
| "any_unsafe f (x # xs) =
     (case f x of Inl e \<Rightarrow> Inl e | Inr b \<Rightarrow> if b then Inr True else any_unsafe f xs)"

definition delegating_head :: "string option \<Rightarrow> bool" where
  "delegating_head head =
     (case head of None \<Rightarrow> False | Some h \<Rightarrow> starts_with h ''-'' \<or> h \<in> set bash_delegation_heads)"

fun bash_command_has_unsafe_allow_syntax_inner :: "nat \<Rightarrow> string \<Rightarrow> (js_error, bool) result" where
  "bash_command_has_unsafe_allow_syntax_inner n commandLine =
     (if unsafe_allow_syntax_in_fragment commandLine then Inr True
      else if env_split_expansions_have_unsafe_syntax commandLine then Inr True
      else if git_shell_alias_has_unsafe_allow_syntax commandLine then Inr True
      else (case parse_bash_command_head commandLine of
          Inl e \<Rightarrow> Inl e
        | Inr head \<Rightarrow>
            (if delegating_head head then Inr True
             else if hasScriptInterpreter (analyze_embedded_inline_scripts commandLine) \<or>
                     hasFindExec (analyze_embedded_inline_scripts commandLine) then Inr True
             else (case bash_nested_builtin_deny_head commandLine of
                 Inl e \<Rightarrow> Inl e
               | Inr d \<Rightarrow>
                   (if d \<noteq> None then Inr True
                    else any_unsafe
                      (\<lambda>nested. if n = 0 then Inr True
                                else bash_command_has_unsafe_allow_syntax_inner (n - 1) nested)
                      (shell_script_set commandLine))))))"

declare bash_command_has_unsafe_allow_syntax_inner.simps [simp del]

definition bash_command_has_unsafe_allow_syntax :: "string \<Rightarrow> (js_error, bool) result" where
  "bash_command_has_unsafe_allow_syntax commandLine =
     bash_command_has_unsafe_allow_syntax_inner max_shell_inline_depth commandLine"

end
