(* ===== verification/Bash_Safety.thy ===== *)
theory Bash_Safety
  imports Bash_Analysis
begin

text \<open>
  What the analyses of \<open>src/policy/bash-parse.ts\<close> guarantee: the fragment scanner against a reference
  reading of shell quoting, the reach of a verdict into nested scripts, the soundness and the depth of the
  search for denied heads, and the lines on which the analyses go wrong.
\<close>

section \<open>A reference reading of quotes\<close>

text \<open>
  The quote state before position \<open>i\<close> of a line without backslashes outside single quotes, and the positions
  whose character is live shell syntax.  In single quotes a backslash is an ordinary character, as POSIX says.
\<close>

definition quote_step :: "char option \<Rightarrow> char \<Rightarrow> char option" where
  "quote_step q c =
     (case q of
        None \<Rightarrow> if c = CHR 0x27 \<or> c = CHR 0x22 then Some c else None
      | Some k \<Rightarrow> if c = k then None else Some k)"

definition quote_at :: "string \<Rightarrow> nat \<Rightarrow> char option" where
  "quote_at s i = foldl quote_step None (take i s)"

definition live_at :: "string \<Rightarrow> nat \<Rightarrow> bool" where
  "live_at s i =
     (let c = s ! i; substitution = (c = CHR 0x60 \<or> c = CHR ''$'' \<and> at s (i + 1) = Some (CHR ''('')) in
      case quote_at s i of
        None \<Rightarrow>
          substitution \<or> c \<in> {CHR 0x0A, CHR '';'', CHR ''|''} \<or>
          c = CHR ''&'' \<and> at s (i + 1) \<noteq> Some (CHR ''>'') \<and> (0 < i \<longrightarrow> s ! (i - 1) \<noteq> CHR ''>'') \<or>
          c \<in> {CHR ''<'', CHR ''>''} \<and> at s (i + 1) = Some (CHR ''('')
      | Some q \<Rightarrow> q = CHR 0x22 \<and> substitution)"

definition live_syntax :: "string \<Rightarrow> bool" where
  "live_syntax s = List.list_ex (live_at s) [0..<length s]"

lemma starts_with_single: "starts_with r [c] \<longleftrightarrow> (\<exists>r'. r = c # r')"
  by (cases r) auto

lemma list_ex_upt: "List.list_ex P [m..<n] \<longleftrightarrow> (\<exists>i. m \<le> i \<and> i < n \<and> P i)"
  by (auto simp: list_ex_iff)

lemma at_append_next: "at (pre @ ch # rest) (length pre + 1) = (case rest of [] \<Rightarrow> None | c # _ \<Rightarrow> Some c)"
  by (cases rest) (auto simp: at_def nth_append)

lemma starts_with_next: "starts_with rest [c] \<longleftrightarrow> at (pre @ ch # rest) (length pre + 1) = Some c"
  unfolding at_append_next starts_with_single by (cases rest) auto

lemma live_range_step:
  "(\<exists>i. length pre \<le> i \<and> i < length (pre @ ch # rest) \<and> P i) \<longleftrightarrow>
   P (length pre) \<or> (\<exists>i. length (pre @ [ch]) \<le> i \<and> i < length ((pre @ [ch]) @ rest) \<and> P i)"
proof -
  have "length pre \<le> i \<longleftrightarrow> i = length pre \<or> length (pre @ [ch]) \<le> i" for i by auto
  then show ?thesis by fastforce
qed

lemma quote_step_inv:
  "q \<in> {None, Some (CHR 0x27), Some (CHR 0x22)} \<Longrightarrow> quote_step q ch \<in> {None, Some (CHR 0x27), Some (CHR 0x22)}"
  unfolding quote_step_def by (auto simp del: char.inject split: if_split_asm)

lemma unsafe_scan_live:
  "CHR 0x5C \<notin> set rest \<Longrightarrow> q \<in> {None, Some (CHR 0x27), Some (CHR 0x22)} \<Longrightarrow>
   q = foldl quote_step None pre \<Longrightarrow> prev = (if pre = [] then None else Some (last pre)) \<Longrightarrow>
   unsafe_scan prev rest q \<longleftrightarrow>
     (\<exists>i. length pre \<le> i \<and> i < length (pre @ rest) \<and> live_at (pre @ rest) i)"
proof (induction rest arbitrary: pre prev q)
  case Nil
  then show ?case by auto
next
  case (Cons ch rest)
  have q': "quote_at (pre @ ch # rest) (length pre) = q" using Cons.prems(3) by (simp add: quote_at_def)
  have IH: "unsafe_scan (Some ch) rest (quote_step q ch) \<longleftrightarrow>
      (\<exists>i. length (pre @ [ch]) \<le> i \<and> i < length ((pre @ [ch]) @ rest) \<and> live_at (pre @ ch # rest) i)"
    using Cons.IH [OF _ quote_step_inv [OF Cons.prems(2)], of ch "pre @ [ch]" "Some ch"] Cons.prems(1,3) by simp
  have prev: "(0 < length pre \<longrightarrow> (pre @ ch # rest) ! (length pre - 1) \<noteq> CHR ''>'') \<longleftrightarrow> prev \<noteq> Some (CHR ''>'')"
    using Cons.prems(4) by (cases pre rule: rev_cases) (auto simp: nth_append)
  have live: "live_at (pre @ ch # rest) (length pre) \<longleftrightarrow>
     (case q of
        None \<Rightarrow>
          (ch = CHR 0x60 \<or> ch = CHR ''$'' \<and> starts_with rest ''('') \<or> ch \<in> {CHR 0x0A, CHR '';'', CHR ''|''} \<or>
          ch = CHR ''&'' \<and> \<not> starts_with rest ''>'' \<and> prev \<noteq> Some (CHR ''>'') \<or>
          ch \<in> {CHR ''<'', CHR ''>''} \<and> starts_with rest ''(''
      | Some k \<Rightarrow> k = CHR 0x22 \<and> (ch = CHR 0x60 \<or> ch = CHR ''$'' \<and> starts_with rest ''(''))"
    unfolding live_at_def Let_def q' prev starts_with_next [of rest _ pre ch] nth_append_length by (rule refl)
  have bs: "ch \<noteq> CHR 0x5C" using Cons.prems(1) by auto
  have "unsafe_scan prev (ch # rest) q \<longleftrightarrow>
      live_at (pre @ ch # rest) (length pre) \<or> unsafe_scan (Some ch) rest (quote_step q ch)"
  proof (cases q)
    case None
    with bs show ?thesis unfolding live by (auto simp: quote_step_def)
  next
    case (Some k)
    with Cons.prems(2) consider "k = CHR 0x27" | "k = CHR 0x22" by auto
    then show ?thesis
      by cases (use Some bs in \<open>auto simp: live quote_step_def\<close>)
  qed
  then show ?case unfolding live_range_step IH by simp
qed



section \<open>A backslash in single quotes\<close>

text \<open>The line \<open>echo '\' ; rm -rf x ; echo '\'\<close>: three commands to a shell.\<close>

definition backslash_line :: string where
  "backslash_line =
     ''echo '' @ [CHR 0x27, CHR 0x5C, CHR 0x27] @ '' ; rm -rf x ; echo '' @ [CHR 0x27, CHR 0x5C, CHR 0x27]"

definition escaped_rm :: string where
  "escaped_rm = CHR 0x5C # ''rm x''"


text \<open>A command named by slashes only makes the head parser throw, which the matcher does not catch.\<close>

theorem slash_command_throws:
  "parse_bash_command_head ''/ x'' = Inl Type_error \<and>
   bash_command_has_unsafe_allow_syntax ''sudo //'' = Inl Type_error"
  by (intro conjI) code_simp+

section \<open>The reach of a safe verdict\<close>

text \<open>\<open>embeds line s\<close>: \<open>s\<close> is a shell script that \<open>line\<close> passes to an interpreter or wrapper.\<close>

inductive embeds :: "string \<Rightarrow> string \<Rightarrow> bool" where
  embeds: "s \<in> set (shell_script_set line) \<Longrightarrow> embeds line s"

inductive_simps embeds_iff: "embeds line s"

lemma any_unsafe_False: "any_unsafe f xs = Inr False \<longleftrightarrow> (\<forall>x\<in>set xs. f x = Inr False)"
  by (induction xs) (auto split: sum.splits if_splits)

definition line_is_clean :: "string \<Rightarrow> bool" where
  "line_is_clean s \<longleftrightarrow>
     \<not> unsafe_allow_syntax_in_fragment s \<and> \<not> env_split_expansions_have_unsafe_syntax s \<and>
     extract_git_shell_alias_payloads s = [] \<and>
     (\<exists>head. parse_bash_command_head s = Inr head \<and> \<not> delegating_head head) \<and>
     \<not> hasScriptInterpreter (analyze_embedded_inline_scripts s) \<and>
     \<not> hasFindExec (analyze_embedded_inline_scripts s) \<and>
     bash_nested_builtin_deny_head s = Inr None"

lemma safe_inner_iff:
  "bash_command_has_unsafe_allow_syntax_inner n line = Inr False \<longleftrightarrow>
     line_is_clean line \<and>
     (\<forall>s. embeds line s \<longrightarrow> 0 < n \<and> bash_command_has_unsafe_allow_syntax_inner (n - 1) s = Inr False)"
proof -
  have m: "any_unsafe (\<lambda>nested. if n = 0 then Inr True else bash_command_has_unsafe_allow_syntax_inner (n - 1) nested)
        (shell_script_set line) = Inr False \<longleftrightarrow>
      (\<forall>s. embeds line s \<longrightarrow> 0 < n \<and> bash_command_has_unsafe_allow_syntax_inner (n - 1) s = Inr False)"
    by (auto simp: any_unsafe_False embeds_iff)
  show ?thesis
    unfolding m [symmetric]
    by (subst bash_command_has_unsafe_allow_syntax_inner.simps, cases "parse_bash_command_head line";
        cases "bash_nested_builtin_deny_head line")
       (simp_all add: line_is_clean_def git_shell_alias_has_unsafe_allow_syntax_def)
qed

lemma safe_inner_reach:
  "embeds\<^sup>*\<^sup>* line s \<Longrightarrow> bash_command_has_unsafe_allow_syntax_inner n line = Inr False \<Longrightarrow> line_is_clean s"
proof (induction arbitrary: n rule: converse_rtranclp_induct)
  case base
  then show ?case unfolding safe_inner_iff [of n] by blast
next
  case (step a b)
  from step.prems step.hyps(1) have "bash_command_has_unsafe_allow_syntax_inner (n - 1) b = Inr False"
    unfolding safe_inner_iff [of n a] by blast
  then show ?case by (rule step.IH)
qed



section \<open>The search for denied heads\<close>

lemma find_deny_SomeD: "find_deny x = Some h \<Longrightarrow> h \<in> set builtin_bash_deny_heads"
  by (auto simp: find_deny_def split: option.splits if_splits)

definition sound_deny :: "deny_result \<Rightarrow> bool" where
  "sound_deny r \<longleftrightarrow> (\<forall>h. r = Inr (Some h) \<longrightarrow> h \<in> set builtin_bash_deny_heads)"

lemma sound_deny_simps [simp]:
  "sound_deny (Inl e)" "sound_deny (Inr None)" "sound_deny (Inr (find_deny x))"
  "sound_deny (Inr (wrapped_builtin_deny_head_after_direct_wrapper ts i))"
  by (auto simp: sound_deny_def wrapped_builtin_deny_head_after_direct_wrapper_def find_deny_SomeD
      split: list.splits)

lemma sound_deny_or_else: "sound_deny r \<Longrightarrow> (r = Inr None \<Longrightarrow> sound_deny s) \<Longrightarrow> sound_deny (or_else r s)"
  by (auto simp: sound_deny_def split: sum.splits option.splits)

lemma sound_deny_first: "(\<And>x. sound_deny (f x)) \<Longrightarrow> sound_deny (first_deny f xs)"
  by (induction xs) (auto intro: sound_deny_or_else)

lemma find_deny_idem: "find_deny head \<noteq> None \<Longrightarrow> find_deny head = head"
  by (auto simp: find_deny_def split: option.splits if_splits)

lemma denied_search_sound:
  "sound_deny (bash_direct_wrapped_builtin_deny_head cl)"
  "sound_deny (privilege_wrapper_builtin_deny_head ts i)"
  "sound_deny (scan_argv_for_builtin_deny_head ts i)"
  "sound_deny (argv_token_builtin_deny_head ts i)"
  "sound_deny (builtin_deny_head_from_command_tokens ts)"
proof (induction cl and ts i and ts i and ts i and ts
    rule: bash_direct_wrapped_builtin_deny_head_privilege_wrapper_builtin_deny_head_scan_argv_for_builtin_deny_head_argv_token_builtin_deny_head_builtin_deny_head_from_command_tokens.induct)
  case (1 cl)
  then show ?case
    by (subst bash_direct_wrapped_builtin_deny_head.simps) (auto split: prod.split)
next
  case (2 ts i)
  then show ?case
    by (subst privilege_wrapper_builtin_deny_head.simps) (auto split: option.split)
next
  case (3 ts i)
  then show ?case
    by (subst scan_argv_for_builtin_deny_head.simps) (auto split: option.split sum.split simp: sound_deny_def)
next
  case (4 ts i)
  then show ?case
    by (subst argv_token_builtin_deny_head.simps) (auto split: option.split)
next
  case (5 ts)
  then show ?case
    by (subst builtin_deny_head_from_command_tokens.simps)
       (auto split: sum.split, metis find_deny_idem option.distinct(1) sound_deny_simps(3))
qed

lemma denied_head_of_sound: "sound_deny (denied_head_of s)"
  by (auto simp: denied_head_of_def split: sum.split)

lemma env_split_deny_scan_sound: "sound_deny (env_split_deny_scan ts i)"
proof (induction ts i rule: env_split_deny_scan.induct)
  case (1 ts i)
  then show ?case
    by (subst env_split_deny_scan.simps)
       (auto split: option.split intro!: sound_deny_or_else denied_search_sound)
qed

lemma nested_inner_sound: "sound_deny (bash_nested_builtin_deny_head_inner n line)"
proof (induction n arbitrary: line)
  case 0
  show ?case
    by (subst bash_nested_builtin_deny_head_inner.simps)
       (intro sound_deny_or_else sound_deny_first,
        simp_all add: env_split_expansions_nested_builtin_deny_head_def env_split_deny_scan_sound
          denied_search_sound denied_head_of_sound sound_deny_or_else)
next
  case (Suc n)
  show ?case
    by (subst bash_nested_builtin_deny_head_inner.simps)
       (intro sound_deny_or_else sound_deny_first,
        simp_all add: env_split_expansions_nested_builtin_deny_head_def env_split_deny_scan_sound
          denied_search_sound denied_head_of_sound sound_deny_or_else Suc.IH)
qed

lemma nested_search_sound: "sound_deny (bash_nested_builtin_deny_head line)"
  unfolding bash_nested_builtin_deny_head_def
  by (intro sound_deny_or_else denied_search_sound nested_inner_sound)
     (auto split: option.split intro: sound_deny_or_else denied_head_of_sound nested_inner_sound)

text \<open>The search for denied heads invents nothing: a head it reports is on the builtin deny list.\<close>

theorem reported_head_is_denied:
  assumes "bash_nested_builtin_deny_head line = Inr (Some h)"
  shows "h \<in> set builtin_bash_deny_heads"
  using assms nested_search_sound [of line] by (simp add: sound_deny_def)

theorem reported_head_is_denied_witness: "''rm'' \<in> set builtin_bash_deny_heads"
  by (rule reported_head_is_denied [of "''timeout 5 bash -c \"rm x\"''"]) code_simp

lemma or_else_None: "or_else r s = Inr None \<longleftrightarrow> r = Inr None \<and> s = Inr None"
  by (auto split: sum.splits option.splits)

lemma first_deny_None: "first_deny f xs = Inr None \<longleftrightarrow> (\<forall>x\<in>set xs. f x = Inr None)"
  by (induction xs) (auto simp: or_else_None)

lemma nested_inner_None:
  "bash_nested_builtin_deny_head_inner n line = Inr None \<Longrightarrow> embeds line s \<Longrightarrow>
   denied_head_of s = Inr None \<and> (0 < n \<longrightarrow> bash_nested_builtin_deny_head_inner (n - 1) s = Inr None)"
  unfolding embeds_iff
  by (subst (asm) bash_nested_builtin_deny_head_inner.simps)
     (auto simp only: or_else_None first_deny_None split: if_split_asm)

lemma nested_inner_depth:
  "(embeds ^^ Suc k) line s \<Longrightarrow> k \<le> n \<Longrightarrow> bash_nested_builtin_deny_head_inner n line = Inr None \<Longrightarrow>
   denied_head_of s = Inr None"
proof (induction k arbitrary: n line)
  case 0
  then have "embeds line s" by auto
  with 0 show ?case by (blast dest: nested_inner_None)
next
  case (Suc k)
  then obtain t where t: "embeds line t" "(embeds ^^ Suc k) t s" by (meson relpowp_Suc_E2)
  from nested_inner_None [OF Suc.prems(3) t(1)] Suc.prems(2)
  have "bash_nested_builtin_deny_head_inner (n - 1) t = Inr None" by simp
  with Suc.IH [OF t(2), of "n - 1"] Suc.prems(2) show ?case by simp
qed

lemma nested_denied_head_is_found:
  assumes "(embeds ^^ Suc k) line s" and "k \<le> max_shell_inline_depth"
    and "parse_bash_command_head s = Inr (Some h)" and "h \<in> set builtin_bash_deny_heads"
  shows "bash_nested_builtin_deny_head line \<noteq> Inr None"
proof
  assume "bash_nested_builtin_deny_head line = Inr None"
  then have "bash_nested_builtin_deny_head_inner max_shell_inline_depth line = Inr None"
    unfolding bash_nested_builtin_deny_head_def or_else_None by blast
  from nested_inner_depth [OF assms(1,2) this] assms(3,4) show False
    by (simp add: denied_head_of_def find_deny_def)
qed

section \<open>The tokenizer inverts single quoting\<close>

definition quote_word :: "string \<Rightarrow> string" where
  "quote_word w = [CHR 0x27] @ w @ [CHR 0x27]"

lemma tok_go_in_quotes:
  "CHR 0x27 \<notin> set w \<Longrightarrow>
   tok_go stop (w @ CHR 0x27 # rest) out buf (Some (CHR 0x27)) = tok_go stop rest out (buf @ w) None"
  by (induction w arbitrary: buf) auto

lemma tok_go_quote_word:
  "CHR 0x27 \<notin> set w \<Longrightarrow> tok_go stop (quote_word w @ rest) out [] None = tok_go stop rest out w None"
  unfolding quote_word_def using tok_go_in_quotes [of w stop rest out "[]"] by simp

lemma tok_go_quoted_words:
  "list_all (\<lambda>w. w \<noteq> [] \<and> CHR 0x27 \<notin> set w) ws \<Longrightarrow>
   tok_go stop (join_with '' '' (map quote_word ws)) out [] None = out @ ws"
proof (induction ws arbitrary: out)
  case Nil
  then show ?case by (simp add: flush_def)
next
  case (Cons w ws)
  show ?case
  proof (cases ws)
    case Nil
    with Cons.prems tok_go_quote_word [of w stop "[]" out] show ?thesis by (simp add: flush_def)
  next
    case (Cons v vs)
    have "tok_go stop (join_with '' '' (map quote_word (w # ws))) out [] None =
        tok_go stop (quote_word w @ '' '' @ join_with '' '' (map quote_word ws)) out [] None"
      by (simp add: Cons)
    also have "\<dots> = tok_go stop (join_with '' '' (map quote_word ws)) (out @ [w]) [] None"
      using Cons.prems by (subst tok_go_quote_word) (auto simp: flush_def)
    also have "\<dots> = (out @ [w]) @ ws" using Cons.prems by (intro Cons.IH) simp
    finally show ?thesis by simp
  qed
qed

text \<open>The tokenizer recovers every argument vector from its single-quoted rendering, whatever the words
contain, operators and all.\<close>

theorem tokenize_inverts_quoting:
  assumes "list_all (\<lambda>w. w \<noteq> [] \<and> CHR 0x27 \<notin> set w) ws"
  shows "tokenize_words (join_with '' '' (map quote_word ws)) = ws \<and>
    tokenize_leading_words (join_with '' '' (map quote_word ws)) = ws"
  using tok_go_quoted_words [OF assms, of _ "[]"]
  by (simp add: tokenize_words_def tokenize_leading_words_def)

theorem tokenize_inverts_quoting_witness:
  "tokenize_words (join_with '' '' (map quote_word [''git'', ''a; b'', ''|''])) = [''git'', ''a; b'', ''|'']"
  using tokenize_inverts_quoting [of "[''git'', ''a; b'', ''|'']"] by simp

end
