(* ===== verification/Subjects.thy ===== *)
theory Subjects
  imports Model_Actions Bash_Safety Policy_Engine
begin

text \<open>
  The approval subjects of \<open>src/policy/subjects.ts\<close>: the channel, the display and the subject of a tool
  action.  A TypeError of the bash analyses goes through.  \<open>JSON.stringify\<close> of the action, whose text is
  only shown, is the argument \<open>stringify\<close>.  The action that the source's subject also carries is left to the
  caller.
\<close>

record tool_definition =
  td_name :: string
  td_access :: tool_access

fun extract_read_path :: "model_action \<Rightarrow> string option" where
  "extract_read_path (Read_Action p s e) = Some p"
| "extract_read_path (Ls_Action p) = Some (case p of None \<Rightarrow> [] | Some x \<Rightarrow> x)"
| "extract_read_path (Find_Action p n) = Some (case p of None \<Rightarrow> [] | Some x \<Rightarrow> x)"
| "extract_read_path (Grep_Action p n) = Some (case p of None \<Rightarrow> [] | Some x \<Rightarrow> x)"
| "extract_read_path _ = None"

text \<open>An optional text that is spread in only when truthy.\<close>

definition truthy_text :: "string option \<Rightarrow> string option" where
  "truthy_text v = (case v of None \<Rightarrow> None | Some s \<Rightarrow> if s = [] then None else Some s)"

fun plan_channel :: "plan_action \<Rightarrow> access_channel" where
  "plan_channel (Draft title content items) = Plan_Ch Op_Draft None"
| "plan_channel (Update pid title content items) = Plan_Ch Op_Update (truthy_text pid)"
| "plan_channel (Finalize pid) = Plan_Ch Op_Finalize (truthy_text pid)"

definition derive_channel :: "tool_definition \<Rightarrow> model_action \<Rightarrow> (js_error, access_channel) result" where
  "derive_channel definition0 action =
     (case action of
        Bash_Action line \<Rightarrow>
          and_then (parse_bash_command_head line) (\<lambda>head.
          and_then (bash_nested_builtin_deny_head line) (\<lambda>nested.
          and_then (bash_command_has_unsafe_allow_syntax line) (\<lambda>unsafe.
          Inr (Bash (case head of None \<Rightarrow> [] | Some h \<Rightarrow> h) unsafe (truthy_text nested)))))
      | Edit_Action path _ _ \<Rightarrow> Inr (Fs_Write path Op_Modify)
      | Plan_Action p \<Rightarrow> Inr (plan_channel p)
      | Todo_Action pid items \<Rightarrow> Inr (Plan_Progress (truthy_text pid))
      | Mcp_Action server tool args \<Rightarrow> Inr (Mcp server tool)
      | _ \<Rightarrow>
          (case extract_read_path action of
             Some p \<Rightarrow> Inr (Fs_Read p)
           | None \<Rightarrow> if td_access definition0 = A_read then Inr (Fs_Read []) else Inr (Fs_Write [] Op_Modify)))"

definition max_fallback_detail_length :: nat where
  "max_fallback_detail_length = 300"

definition truncated_detail_marker :: string where
  "truncated_detail_marker = ''... (truncated)''"

definition format_fallback_detail :: "(model_action \<Rightarrow> string) \<Rightarrow> model_action \<Rightarrow> string" where
  "format_fallback_detail stringify action =
     (let detail = stringify action in
      if length detail \<le> max_fallback_detail_length then detail
      else take (max_fallback_detail_length - length truncated_detail_marker) detail @ truncated_detail_marker)"

definition no_display :: "string \<Rightarrow> tool_display" where
  "no_display title =
     \<lparr>dsp_title = title, dsp_detail = None, dsp_path = None, dsp_command = None, dsp_server = None, dsp_tool = None\<rparr>"

definition build_tool_display :: "(model_action \<Rightarrow> string) \<Rightarrow> string \<Rightarrow> model_action \<Rightarrow> bool \<Rightarrow> tool_display" where
  "build_tool_display stringify toolName action txEnabled =
     (let detail = Some (format_fallback_detail stringify action) in
      case action of
        Bash_Action line \<Rightarrow> (no_display ''Allow bash command?'')\<lparr>dsp_command := Some line\<rparr>
      | Edit_Action path _ _ \<Rightarrow>
          (no_display (if txEnabled then ''Allow staged edit?'' else ''Allow edit?''))\<lparr>dsp_path := Some path\<rparr>
      | Plan_Action _ \<Rightarrow> (no_display ''Record plan artifact?'')\<lparr>dsp_detail := detail\<rparr>
      | Todo_Action _ _ \<Rightarrow> (no_display ''Update plan progress?'')\<lparr>dsp_detail := detail\<rparr>
      | Mcp_Action server tool _ \<Rightarrow>
          (no_display ''Allow MCP tool?'')\<lparr>dsp_server := Some server, dsp_tool := Some tool, dsp_detail := detail\<rparr>
      | _ \<Rightarrow> (no_display (''Allow '' @ toolName @ ''?''))\<lparr>dsp_detail := detail\<rparr>)"

definition build_tool_approval_subject ::
  "(model_action \<Rightarrow> string) \<Rightarrow> tool_definition \<Rightarrow> model_action \<Rightarrow> tx_info option \<Rightarrow> (js_error, policy_subject) result" where
  "build_tool_approval_subject stringify definition0 action tx =
     and_then (derive_channel definition0 action) (\<lambda>channel.
     Inr (Tool_Subject (td_name definition0) (td_access definition0) channel
       (build_tool_display stringify (td_name definition0) action
          (case tx of None \<Rightarrow> False | Some t \<Rightarrow> txi_enabled t)) tx))"

text \<open>The transaction of a review snapshot; without a diff summary the subject throws.\<close>

record review_tx =
  rtx_id :: string
  rtx_diffSummary :: "diff_summary option"
  rtx_validators :: "string list option"
  rtx_blockingFailures :: "string list option"

definition build_tx_apply_approval_subject :: "review_tx \<Rightarrow> string \<Rightarrow> (string, policy_subject) result" where
  "build_tx_apply_approval_subject tx artifactRef =
     (case rtx_diffSummary tx of
        None \<Rightarrow> Inl (''tx '' @ rtx_id tx @ '' cannot build approval subject without diffSummary'')
      | Some d \<Rightarrow>
          Inr (Tx_Apply_Subject (rtx_id tx) d (case rtx_validators tx of None \<Rightarrow> [] | Some v \<Rightarrow> v)
            (case rtx_blockingFailures tx of None \<Rightarrow> [] | Some b \<Rightarrow> b) artifactRef))"

section \<open>From the action to the decision\<close>

lemma builtin_heads: "set builtin_bash_deny_heads = {''rm''}"
  by (simp add: builtin_bash_deny_heads_def builtin_deny_def mk_rule_def)

lemma rm_hits: "rule_hits (set builtin_deny) (Bash ''rm'' u n)"
  by (simp add: rule_hits_def builtin_deny_def mk_rule_def matches_rule_def match_pattern_def)

lemma bash_subject:
  assumes "build_tool_approval_subject stringify definition0 (Bash_Action line) tx = Inr subject"
  obtains head nested unsafe d where "parse_bash_command_head line = Inr head"
    "bash_nested_builtin_deny_head line = Inr nested" "bash_command_has_unsafe_allow_syntax line = Inr unsafe"
    "subject = Tool_Subject (td_name definition0) (td_access definition0)
       (Bash (case head of None \<Rightarrow> [] | Some h \<Rightarrow> h) unsafe (truthy_text nested)) d tx"
  using assms by (auto simp: build_tool_approval_subject_def derive_channel_def and_then_Inr)



definition bash_tool :: tool_definition where
  "bash_tool = \<lparr>td_name = ''bash'', td_access = A_exec\<rparr>"



end
