(* ===== verification/Canonical_Time.thy ===== *)
theory Canonical_Time
  imports Prelude
begin

text \<open>
  Canonical times of \<open>src/kernel/identity.ts\<close>: the spelling \<open>YYYY-MM-DDTHH:MM:SS.mmmZ\<close> of a nonnegative
  Unix millisecond.  The calendar is the proleptic Gregorian one that \<open>Date\<close> uses, counted up from 1970.
  \<open>Date.parse\<close> of a matching text whose fields overflow (31 February, 24:00) rolls over, as V8 does; the
  comparison with the respelled time rejects it, and would also if the result were NaN.
\<close>

datatype time_error =
    Invalid_time \<comment> \<open>the text does not match the pattern\<close>
  | Year_out_of_range
  | Noncanonical_spelling
  | Not_a_safe_nonnegative_integer
  | Invalid_date \<comment> \<open>the RangeError of \<open>toISOString\<close> beyond the range of \<open>Date\<close>\<close>
  | Bad_duration
  | Duration_overflow

definition max_safe_integer :: int where
  "max_safe_integer = 9007199254740991"

definition max_date :: int where
  "max_date = 8640000000000000"

section \<open>The calendar\<close>

definition leap_year :: "nat \<Rightarrow> bool" where
  "leap_year y = (y mod 4 = 0 \<and> (y mod 100 \<noteq> 0 \<or> y mod 400 = 0))"

definition year_days :: "nat \<Rightarrow> nat" where
  "year_days y = (if leap_year y then 366 else 365)"

definition month_days :: "nat \<Rightarrow> nat \<Rightarrow> nat" where
  "month_days y m =
     (if m = 2 then (if leap_year y then 29 else 28) else if m = 4 \<or> m = 6 \<or> m = 9 \<or> m = 11 then 30 else 31)"

definition days_before_year :: "nat \<Rightarrow> nat" where
  "days_before_year y = sum_list (map year_days [1970..<y])"

definition days_before_month :: "nat \<Rightarrow> nat \<Rightarrow> nat" where
  "days_before_month y m = sum_list (map (month_days y) [1..<m])"

text \<open>The year and the day of the year; the month and the day of the month, counted from zero.\<close>

function year_from :: "nat \<Rightarrow> nat \<Rightarrow> nat \<times> nat" where
  "year_from y d = (if d < year_days y then (y, d) else year_from (y + 1) (d - year_days y))"
  by pat_completeness auto
termination by (relation "measure snd") (auto simp: year_days_def split: if_splits)

function month_from :: "nat \<Rightarrow> nat \<Rightarrow> nat \<Rightarrow> nat \<times> nat" where
  "month_from y m d = (if m \<ge> 12 \<or> d < month_days y m then (m, d) else month_from y (m + 1) (d - month_days y m))"
  by pat_completeness auto
termination by (relation "measure (\<lambda>(y, m, d). 12 - m)") auto

declare year_from.simps [simp del] month_from.simps [simp del]

definition civil_of_days :: "nat \<Rightarrow> nat \<times> nat \<times> nat" where
  "civil_of_days n =
     (let (y, d) = year_from 1970 n; (m, r) = month_from y 1 d in (y, m, r + 1))"

section \<open>Decimal fields\<close>

fun pad :: "nat \<Rightarrow> nat \<Rightarrow> string" where
  "pad 0 n = []"
| "pad (Suc w) n = pad w (n div 10) @ [digit_char n]"

definition digit_value :: "char \<Rightarrow> nat" where
  "digit_value c = (of_char c :: nat) - 48"

definition nat_of_digits :: "string \<Rightarrow> nat" where
  "nat_of_digits s = foldl (\<lambda>n c. 10 * n + digit_value c) 0 s"

definition field :: "string \<Rightarrow> nat \<Rightarrow> nat \<Rightarrow> string" where
  "field s i n = take n (drop i s)"

definition matches_time_pattern :: "string \<Rightarrow> bool" where
  "matches_time_pattern s =
     (length s = 24 \<and>
      field s 4 1 = ''-'' \<and> field s 7 1 = ''-'' \<and> field s 10 1 = ''T'' \<and> field s 13 1 = '':'' \<and>
      field s 16 1 = '':'' \<and> field s 19 1 = ''.'' \<and> field s 23 1 = ''Z'' \<and>
      list_all js_digit (field s 0 4 @ field s 5 2 @ field s 8 2 @ field s 11 2 @ field s 14 2 @ field s 17 2
        @ field s 20 3))"

section \<open>Encoding and parsing\<close>

definition to_iso_string :: "nat \<Rightarrow> string" where
  "to_iso_string ms =
     (let (y, m, d) = civil_of_days (ms div 86400000); t = ms mod 86400000 in
      (if y \<le> 9999 then pad 4 y else ''+'' @ pad 6 y) @ ''-'' @ pad 2 m @ ''-'' @ pad 2 d @ ''T'' @ pad 2 (t div 3600000) @ '':'' @
      pad 2 (t div 60000 mod 60) @ '':'' @ pad 2 (t div 1000 mod 60) @ ''.'' @ pad 3 (t mod 1000) @ ''Z'')"

definition encode_canonical_time :: "int \<Rightarrow> (time_error, string) result" where
  "encode_canonical_time unixMs =
     (if unixMs < 0 \<or> unixMs > max_safe_integer then Inl Not_a_safe_nonnegative_integer
      else if unixMs > max_date then Inl Invalid_date
      else (let y = fst (civil_of_days (nat unixMs div 86400000)) in
            if y < 1970 \<or> y > 9999 then Inl Year_out_of_range
            else Inr (to_iso_string (nat unixMs))))"

definition date_parse :: "string \<Rightarrow> nat option" where
  "date_parse s =
     (let y = nat_of_digits (field s 0 4); m = nat_of_digits (field s 5 2); d = nat_of_digits (field s 8 2);
          h = nat_of_digits (field s 11 2); mi = nat_of_digits (field s 14 2); sec = nat_of_digits (field s 17 2);
          frac = nat_of_digits (field s 20 3) in
      if 1 \<le> m \<and> m \<le> 12 \<and> 1 \<le> d \<and> d \<le> 31 \<and> mi \<le> 59 \<and> sec \<le> 59 \<and>
         (h \<le> 23 \<or> h = 24 \<and> mi = 0 \<and> sec = 0 \<and> frac = 0)
      then Some ((days_before_year y + days_before_month y m + (d - 1)) * 86400000
                 + h * 3600000 + mi * 60000 + sec * 1000 + frac)
      else None)"

definition parse_canonical_time :: "string \<Rightarrow> (time_error, int) result" where
  "parse_canonical_time value =
     (if \<not> matches_time_pattern value then Inl Invalid_time
      else (let year = nat_of_digits (field value 0 4) in
        if year < 1970 \<or> year > 9999 then Inl Year_out_of_range
        else (case date_parse value of
            None \<Rightarrow> Inl Noncanonical_spelling
          | Some unixMs \<Rightarrow>
              (if int unixMs > max_safe_integer then Inl Noncanonical_spelling
               else (case encode_canonical_time (int unixMs) of
                   Inl e \<Rightarrow> Inl e
                 | Inr s \<Rightarrow> if s \<noteq> value then Inl Noncanonical_spelling else Inr (int unixMs))))))"

definition add_canonical_duration :: "string \<Rightarrow> int \<Rightarrow> (time_error, string) result" where
  "add_canonical_duration start durationMs =
     (if durationMs \<le> 0 \<or> durationMs > max_safe_integer then Inl Bad_duration
      else (case parse_canonical_time start of
          Inl e \<Rightarrow> Inl e
        | Inr t \<Rightarrow>
            (if t + durationMs > max_safe_integer then Inl Duration_overflow
             else encode_canonical_time (t + durationMs))))"

section \<open>The calendar inverts\<close>

lemma year_from_sound:
  "year_from y d = (y', d') \<Longrightarrow> 1970 \<le> y \<Longrightarrow>
   days_before_year y + d = days_before_year y' + d' \<and> d' < year_days y' \<and> y \<le> y'"
proof (induction y d arbitrary: y' d' rule: year_from.induct)
  case (1 y d)
  show ?case
  proof (cases "d < year_days y")
    case True
    with "1.prems" show ?thesis by (subst (asm) year_from.simps) auto
  next
    case False
    with "1.prems" have "year_from (y + 1) (d - year_days y) = (y', d')"
      by (subst (asm) year_from.simps) simp
    from "1.IH" [OF False this] "1.prems"(2) False show ?thesis
      by (auto simp: days_before_year_def)
  qed
qed

lemma month_from_sound:
  "month_from y m d = (m', d') \<Longrightarrow> 1 \<le> m \<Longrightarrow> m \<le> 12 \<Longrightarrow> days_before_month y m + d < year_days y \<Longrightarrow>
   days_before_month y m + d = days_before_month y m' + d' \<and> d' < month_days y m' \<and> m \<le> m' \<and> m' \<le> 12"
proof (induction y m d arbitrary: m' d' rule: month_from.induct)
  case (1 y m d)
  show ?case
  proof (cases "m \<ge> 12 \<or> d < month_days y m")
    case True
    then have e: "m' = m" "d' = d" using "1.prems"(1) by (subst (asm) month_from.simps, simp)+
    have "d < month_days y m"
    proof (cases "m = 12")
      case True
      have "days_before_month y 12 = (if leap_year y then 335 else 334)"
        by (simp add: days_before_month_def month_days_def upt_rec)
      with "1.prems"(4) True show ?thesis by (auto simp: year_days_def month_days_def split: if_splits)
    qed (use True "1.prems"(3) in auto)
    with e "1.prems" show ?thesis by simp
  next
    case False
    with "1.prems"(1) have "month_from y (m + 1) (d - month_days y m) = (m', d')"
      by (subst (asm) month_from.simps) auto
    moreover have s: "days_before_month y (m + 1) = days_before_month y m + month_days y m"
      using "1.prems"(2) by (simp add: days_before_month_def)
    ultimately show ?thesis using "1.IH" [OF False] "1.prems" False by auto
  qed
qed

lemma civil_of_days_sound:
  assumes "civil_of_days n = (y, m, d)"
  shows "days_before_year y + days_before_month y m + (d - 1) = n \<and> 1970 \<le> y \<and>
    1 \<le> m \<and> m \<le> 12 \<and> 1 \<le> d \<and> d \<le> month_days y m"
proof -
  obtain e where y: "year_from 1970 n = (y, e)" and m: "month_from y 1 e = (m, d - 1)" and d: "1 \<le> d"
    using assms by (auto simp: civil_of_days_def split: prod.splits)
  from year_from_sound [OF y] have e: "n = days_before_year y + e" "e < year_days y" "1970 \<le> y"
    by (auto simp: days_before_year_def)
  from month_from_sound [OF m] e(2) have "e = days_before_month y m + (d - 1)" "d - 1 < month_days y m" "1 \<le> m" "m \<le> 12"
    by (auto simp: days_before_month_def)
  with e d show ?thesis by auto
qed

section \<open>The decimal fields invert\<close>

lemma length_pad [simp]: "length (pad w n) = w"
  by (induction w arbitrary: n) auto

lemma digit_char_cases: "digit_char n \<in> set ''0123456789''"
  unfolding digit_char_def by (rule nth_mem) simp

lemma digit_value_digit_char: "digit_value (digit_char n) = n mod 10"
proof -
  have "n mod 10 \<in> {0,1,2,3,4,5,6,7,8,9}" unfolding insert_iff empty_iff by presburger
  then show ?thesis by (auto simp: digit_char_def digit_value_def)
qed

lemma pad_digits: "list_all js_digit (pad w n)"
  by (induction w arbitrary: n) (auto simp: js_digit_def digit_char_cases simp del: set_simps)

lemma nat_of_digits_snoc: "nat_of_digits (s @ [c]) = 10 * nat_of_digits s + digit_value c"
  by (simp add: nat_of_digits_def)

lemma nat_of_digits_pad: "n < 10 ^ w \<Longrightarrow> nat_of_digits (pad w n) = n"
proof (induction w arbitrary: n)
  case 0
  then show ?case by (simp add: nat_of_digits_def)
next
  case (Suc w)
  then have "n div 10 < 10 ^ w" by (simp add: less_mult_imp_div_less mult.commute)
  with Suc.IH show ?case by (simp add: nat_of_digits_snoc digit_value_digit_char)
qed

definition iso_text :: "nat \<Rightarrow> nat \<Rightarrow> nat \<Rightarrow> nat \<Rightarrow> nat \<Rightarrow> nat \<Rightarrow> nat \<Rightarrow> string" where
  "iso_text y m d h mi sec frac =
     pad 4 y @ ''-'' @ pad 2 m @ ''-'' @ pad 2 d @ ''T'' @ pad 2 h @ '':'' @ pad 2 mi @ '':'' @ pad 2 sec @ ''.''
       @ pad 3 frac @ ''Z''"

lemma iso_text_fields:
  "field (iso_text y m d h mi sec frac) 0 4 = pad 4 y"
  "field (iso_text y m d h mi sec frac) 5 2 = pad 2 m"
  "field (iso_text y m d h mi sec frac) 8 2 = pad 2 d"
  "field (iso_text y m d h mi sec frac) 11 2 = pad 2 h"
  "field (iso_text y m d h mi sec frac) 14 2 = pad 2 mi"
  "field (iso_text y m d h mi sec frac) 17 2 = pad 2 sec"
  "field (iso_text y m d h mi sec frac) 20 3 = pad 3 frac"
  "matches_time_pattern (iso_text y m d h mi sec frac)"
  by (simp_all add: field_def iso_text_def matches_time_pattern_def pad_digits del: pad.simps)

lemma month_days_bounds: "d \<le> month_days y m \<Longrightarrow> d \<le> 31"
  by (auto simp: month_days_def split: if_splits)

lemma date_parse_iso:
  assumes c: "civil_of_days (n div 86400000) = (y, m, d)" and y: "y \<le> 9999"
  shows "date_parse (to_iso_string n) = Some n \<and> matches_time_pattern (to_iso_string n) \<and>
    nat_of_digits (field (to_iso_string n) 0 4) = y"
proof -
  define t where "t = n mod 86400000"
  from civil_of_days_sound [OF c]
  have s: "days_before_year y + days_before_month y m + (d - 1) = n div 86400000" "1970 \<le> y"
    "1 \<le> m" "m \<le> 12" "1 \<le> d" "d \<le> month_days y m" by auto
  from month_days_bounds [OF s(6)] have "d \<le> 31" .
  have iso: "to_iso_string n =
      iso_text y m d (t div 3600000) (t div 60000 mod 60) (t div 1000 mod 60) (t mod 1000)"
    using y by (simp add: to_iso_string_def c iso_text_def t_def Let_def)
  have t: "t < 86400000" by (simp add: t_def)
  have h: "t div 3600000 \<le> 23" using t by (simp add: less_mult_imp_div_less less_Suc_eq_le [symmetric])
  have nums: "nat_of_digits (pad 4 y) = y" "nat_of_digits (pad 2 m) = m" "nat_of_digits (pad 2 d) = d"
    "nat_of_digits (pad 2 (t div 3600000)) = t div 3600000"
    "nat_of_digits (pad 2 (t div 60000 mod 60)) = t div 60000 mod 60"
    "nat_of_digits (pad 2 (t div 1000 mod 60)) = t div 1000 mod 60"
    "nat_of_digits (pad 3 (t mod 1000)) = t mod 1000"
    using y s \<open>d \<le> 31\<close> h by (intro nat_of_digits_pad; simp)+
  have "t div 3600000 * 3600000 + t div 60000 mod 60 * 60000 + t div 1000 mod 60 * 1000 + t mod 1000 = t"
  proof -
    have a: "t div 3600000 = t div 60000 div 60" by (simp add: div_mult2_eq [symmetric])
    have b: "t div 60000 = t div 1000 div 60" by (simp add: div_mult2_eq [symmetric])
    have "t div 60000 = t div 60000 div 60 * 60 + t div 60000 mod 60" by simp
    moreover have "t div 1000 = t div 1000 div 60 * 60 + t div 1000 mod 60" by simp
    moreover have "t = t div 1000 * 1000 + t mod 1000" by simp
    ultimately show ?thesis using a b by linarith
  qed
  moreover have "n div 86400000 * 86400000 + t = n" by (simp add: t_def)
  ultimately have v: "(days_before_year y + days_before_month y m + (d - 1)) * 86400000 + t div 3600000 * 3600000
      + t div 60000 mod 60 * 60000 + t div 1000 mod 60 * 1000 + t mod 1000 = n"
    unfolding s(1) by linarith
  have guard: "1 \<le> m \<and> m \<le> 12 \<and> 1 \<le> d \<and> d \<le> 31 \<and> t div 60000 mod 60 \<le> 59 \<and> t div 1000 mod 60 \<le> 59 \<and>
      (t div 3600000 \<le> 23 \<or> t div 3600000 = 24 \<and> t div 60000 mod 60 = 0 \<and> t div 1000 mod 60 = 0 \<and> t mod 1000 = 0)"
    using s \<open>d \<le> 31\<close> h by (auto simp: less_Suc_eq_le [symmetric])
  show ?thesis
    unfolding iso date_parse_def iso_text_fields nums Let_def if_P [OF guard] v by (simp add: iso_text_fields)
qed

lemma encode_ok:
  assumes "encode_canonical_time n = Inr s"
  shows "0 \<le> n \<and> n \<le> max_safe_integer \<and> s = to_iso_string (nat n) \<and>
    (\<exists>y m d. civil_of_days (nat n div 86400000) = (y, m, d) \<and> 1970 \<le> y \<and> y \<le> 9999)"
  using assms by (cases "civil_of_days (nat n div 86400000)")
    (auto simp: encode_canonical_time_def Let_def split: if_splits)

lemma parse_iff_encode:
  "parse_canonical_time s = Inr n \<longleftrightarrow> encode_canonical_time n = Inr s"
proof
  assume "parse_canonical_time s = Inr n"
  then show "encode_canonical_time n = Inr s"
    by (auto simp: parse_canonical_time_def Let_def split: if_splits option.splits sum.splits)
next
  assume e: "encode_canonical_time n = Inr s"
  from encode_ok [OF e] obtain y m d where n: "0 \<le> n" "n \<le> max_safe_integer" "s = to_iso_string (nat n)"
    "civil_of_days (nat n div 86400000) = (y, m, d)" "1970 \<le> y" "y \<le> 9999" by auto
  from date_parse_iso [OF n(4,6)] n e show "parse_canonical_time s = Inr n"
    by (simp add: parse_canonical_time_def)
qed

text \<open>Encoding and parsing of canonical times are inverse: every time that encodes parses back to itself,
and every text that parses is the encoding of its value.\<close>

theorem canonical_time_roundtrip:
  "parse_canonical_time s = Inr n \<longleftrightarrow> encode_canonical_time n = Inr s"
  by (rule parse_iff_encode)

end
