(* ===== verification/Kernel_Budget.thy ===== *)
theory Kernel_Budget
  imports Canonical_Time
begin

text \<open>
  Budget counters of the durable kernel: the arithmetic of \<open>src/state/invariants.ts\<close>, the comparisons of
  \<open>src/state/decoders.ts\<close> and \<open>src/state/recovery-closure.ts\<close>, and the faults of \<open>src/state/errors.ts\<close>.

  A number is an integer; \<open>Number.isSafeInteger\<close> bounds it.  The sum of two safe integers may round, but it is safe
  exactly when the exact sum is.
\<close>

section \<open>Faults\<close>

datatype kernel_code =
    Admission_key_conflict | Request_id_conflict | Artifact_mismatch | Agent_handoff_pending | Model_retry_pending
  | Budget_exhausted | Event_cursor_expired | Invalid_request | Lease_fenced | Not_found | Recovery_required
  | Revision_conflict | State_transition_invalid | Unsupported_platform

text \<open>
  Besides the storage errors: the private exception of the settlement, a write that SQLite rejects, and the
  \<open>TypeError\<close> of a validation.
\<close>

datatype kernel_fault = Storage kernel_code | Reducer_snapshot_changed | Sql_abort | Type_error

type_synonym 'a kernel = "(kernel_fault, 'a) result"

text \<open>\<open>stateOperation\<close>: a \<open>TypeError\<close> becomes a storage error.\<close>

definition state_operation :: "kernel_code \<Rightarrow> 'a kernel \<Rightarrow> 'a kernel" where
  "state_operation code = map_error (\<lambda>e. if e = Type_error then Storage code else e)"

section \<open>Counters\<close>

definition safe_integer :: "int \<Rightarrow> bool" where
  "safe_integer n = (- max_safe_integer \<le> n \<and> n \<le> max_safe_integer)"

definition require_safe_integer :: "int \<Rightarrow> int \<Rightarrow> unit kernel" where
  "require_safe_integer n minimum = throw_if (\<not> safe_integer n \<or> n < minimum) (Storage State_transition_invalid)"

record budget_usage =
  bu_modelTokens :: int
  bu_costMicros :: int
  bu_toolCalls :: int
  bu_repairAttempts :: int

definition budget_fields :: "(budget_usage \<Rightarrow> int) list" where
  "budget_fields = [bu_modelTokens, bu_costMicros, bu_toolCalls, bu_repairAttempts]"

definition zero_budget :: budget_usage where
  "zero_budget = \<lparr>bu_modelTokens = 0, bu_costMicros = 0, bu_toolCalls = 0, bu_repairAttempts = 0\<rparr>"

definition map_budget :: "(int \<Rightarrow> int \<Rightarrow> int) \<Rightarrow> budget_usage \<Rightarrow> budget_usage \<Rightarrow> budget_usage" where
  "map_budget f a b =
     \<lparr>bu_modelTokens = f (bu_modelTokens a) (bu_modelTokens b), bu_costMicros = f (bu_costMicros a) (bu_costMicros b),
      bu_toolCalls = f (bu_toolCalls a) (bu_toolCalls b), bu_repairAttempts = f (bu_repairAttempts a) (bu_repairAttempts b)\<rparr>"

text \<open>\<open>decodeBudgetUsage\<close> on a value that has the four fields.\<close>

definition decode_budget_usage :: "budget_usage \<Rightarrow> budget_usage kernel" where
  "decode_budget_usage b =
     (if list_all (\<lambda>f. safe_integer (f b) \<and> 0 \<le> f b) budget_fields then Inr b
      else Inl (Storage State_transition_invalid))"

definition is_zero_budget :: "budget_usage \<Rightarrow> bool" where
  "is_zero_budget b = list_all (\<lambda>f. f b = 0) budget_fields"

definition add_budget :: "budget_usage \<Rightarrow> budget_usage \<Rightarrow> budget_usage kernel" where
  "add_budget a b =
     (let s = map_budget (+) a b in
      if list_all (\<lambda>f. safe_integer (f s) \<and> 0 \<le> f s) budget_fields then Inr s
      else Inl (Storage State_transition_invalid))"

definition subtract_budget :: "budget_usage \<Rightarrow> budget_usage \<Rightarrow> budget_usage kernel" where
  "subtract_budget a b =
     (let s = map_budget (-) a b in
      if list_all (\<lambda>f. safe_integer (f s) \<and> 0 \<le> f s) budget_fields then Inr s
      else Inl (Storage State_transition_invalid))"

definition assert_budget_within ::
  "budget_usage \<Rightarrow> budget_usage \<Rightarrow> budget_usage \<Rightarrow> budget_usage \<Rightarrow> unit kernel" where
  "assert_budget_within consumed reserved required ceilings =
     throw_if (\<not> list_all (\<lambda>f. safe_integer (f consumed + f reserved + f required) \<and>
         f consumed + f reserved + f required \<le> f ceilings) budget_fields) (Storage Budget_exhausted)"

definition budget_less_than_or_equal :: "budget_usage \<Rightarrow> budget_usage \<Rightarrow> bool" where
  "budget_less_than_or_equal a b = list_all (\<lambda>f. f a \<le> f b) budget_fields"

definition budget_equal :: "budget_usage \<Rightarrow> budget_usage \<Rightarrow> bool" where
  "budget_equal a b = (budget_less_than_or_equal a b \<and> budget_less_than_or_equal b a)"

section \<open>Sums\<close>

definition proper_budget :: "budget_usage \<Rightarrow> bool" where
  "proper_budget b = list_all (\<lambda>f. safe_integer (f b) \<and> 0 \<le> f b) budget_fields"

lemma budget_eqI:
  assumes "\<And>f. f \<in> set budget_fields \<Longrightarrow> f a = f b"
  shows "a = (b :: budget_usage)"
  using assms [of bu_modelTokens] assms [of bu_costMicros] assms [of bu_toolCalls] assms [of bu_repairAttempts]
  by (simp add: budget_fields_def)

lemma map_budget_field [simp]: "f \<in> set budget_fields \<Longrightarrow> f (map_budget g a b) = g (f a) (f b)"
  by (auto simp: budget_fields_def map_budget_def)

lemma zero_budget_field [simp]: "f \<in> set budget_fields \<Longrightarrow> f zero_budget = 0"
  by (auto simp: budget_fields_def zero_budget_def)

lemma is_zero_budget_iff: "is_zero_budget b \<longleftrightarrow> b = zero_budget"
  by (auto simp: is_zero_budget_def list_all_iff intro!: budget_eqI)

lemma budget_equal_iff [simp]: "budget_equal a b \<longleftrightarrow> a = b"
  by (auto simp: budget_equal_def budget_less_than_or_equal_def list_all_iff intro!: budget_eqI order.antisym)

lemma budget_less_refl [simp]: "budget_less_than_or_equal b b"
  by (simp add: budget_less_than_or_equal_def list_all_iff)

lemma proper_budget_field: "proper_budget b \<Longrightarrow> f \<in> set budget_fields \<Longrightarrow> 0 \<le> f b \<and> f b \<le> max_safe_integer"
  by (auto simp: proper_budget_def list_all_iff safe_integer_def)

lemma proper_budgetI: "(\<And>f. f \<in> set budget_fields \<Longrightarrow> 0 \<le> f b \<and> f b \<le> max_safe_integer) \<Longrightarrow> proper_budget b"
  by (force simp: proper_budget_def list_all_iff safe_integer_def max_safe_integer_def)

lemma proper_zero [simp]: "proper_budget zero_budget"
  by (rule proper_budgetI) (simp add: max_safe_integer_def)

lemma decode_budget_Inr [simp]: "decode_budget_usage b = Inr c \<longleftrightarrow> c = b \<and> proper_budget b"
  by (auto simp: decode_budget_usage_def proper_budget_def)

lemma add_budget_Inr: "add_budget a b = Inr c \<longleftrightarrow> c = map_budget (+) a b \<and> proper_budget c"
  by (auto simp: add_budget_def proper_budget_def Let_def)

lemma subtract_budget_Inr: "subtract_budget a b = Inr c \<longleftrightarrow> c = map_budget (-) a b \<and> proper_budget c"
  by (auto simp: subtract_budget_def proper_budget_def Let_def)

lemma map_budget_minus_plus: "map_budget (+) (map_budget (-) a b) b = a"
  by (rule budget_eqI) simp

lemma map_budget_zero [simp]: "map_budget (+) a zero_budget = a" "map_budget (+) zero_budget a = a"
  by (rule budget_eqI; simp)+

text \<open>The sum of a list; the checked sum succeeds when every partial sum is a proper budget.\<close>

definition budget_sum :: "budget_usage list \<Rightarrow> budget_usage" where
  "budget_sum bs = foldr (map_budget (+)) bs zero_budget"

lemma budget_sum_field: "f \<in> set budget_fields \<Longrightarrow> f (budget_sum bs) = sum_list (map f bs)"
  by (induction bs) (simp_all add: budget_sum_def)

lemma budget_sum_simps [simp]:
  "budget_sum [] = zero_budget" "budget_sum (b # bs) = map_budget (+) b (budget_sum bs)"
  by (simp_all add: budget_sum_def)

lemma budget_sum_append: "budget_sum (as @ bs) = map_budget (+) (budget_sum as) (budget_sum bs)"
  by (rule budget_eqI) (simp add: budget_sum_field)

lemma proper_sum_prefix:
  assumes "proper_budget (budget_sum (as @ bs))" and "list_all proper_budget (as @ bs)"
  shows "proper_budget (budget_sum as)"
proof (rule proper_budgetI)
  fix f assume f: "f \<in> set budget_fields"
  have pos: "0 \<le> sum_list (map f as)" "0 \<le> sum_list (map f bs)"
    using assms(2) f proper_budget_field by (auto simp: list_all_iff intro!: sum_list_nonneg)
  moreover have "sum_list (map f as) + sum_list (map f bs) \<le> max_safe_integer"
    using proper_budget_field [OF assms(1) f] f by (simp add: budget_sum_field)
  ultimately show "0 \<le> f (budget_sum as) \<and> f (budget_sum as) \<le> max_safe_integer"
    using f by (simp add: budget_sum_field)
qed

end
