(* ===== verification/Invocation_Journal.thy ===== *)
theory Invocation_Journal
  imports Kernel_Budget
begin

text \<open>
  The journal of invocation attempts: its entries (\<open>src/kernel/types.ts\<close>) with their decoder
  (\<open>src/state/invariants.ts\<close>), the readers of \<open>src/state/repositories/journal.ts\<close> and the checks that SQLite makes
  on an insert (\<open>src/state/schema.ts\<close>).

  A time is the number of milliseconds that its canonical text stands for.  Content addresses are ideal: the
  address of a settlement or of a worker's wait is that value itself, every other one a digest.  The rows of one run are a list in
  order of insertion.
\<close>

section \<open>Entries\<close>

datatype op_kind = Op_model | Op_tool | Op_mcp_server | Op_mcp | Op_verifier | Op_publish

datatype replay_class = Replay_retry | Replay_workspace_rollback_retry | Replay_reconcile | Replay_manual

datatype invocation_phase = Prepared | Dispatch_claimed | Completed | Failed | Unknown | Abandoned

text \<open>The digest of a settlement is left out: it is right by construction.\<close>

record budget_settlement =
  bs_runId :: string
  bs_opId :: string
  bs_attempt :: int
  bs_preparedJournalSeq :: int
  bs_terminalJournalSeq :: int
  bs_terminalPhase :: invocation_phase
  bs_reserved :: budget_usage
  bs_consumed :: budget_usage
  bs_released :: budget_usage
  bs_budgetConsumedBefore :: budget_usage
  bs_budgetConsumedAfter :: budget_usage
  bs_budgetReservedBefore :: budget_usage
  bs_budgetReservedAfter :: budget_usage
  bs_settledAt :: int

text \<open>
  A wait for the death of a worker, and what its automatic probes have come to.  What a dispatch repeats from its
  subject, and the digests over both, are left out: they are right by construction.
\<close>

datatype artifact_ref =
    Artifact string
  | Settlement_artifact budget_settlement
  | Wait_artifact worker_death_wait
and worker_death_wait = Worker_death_wait
  (ww_runId: string)
  (ww_createdFromRevision: int)
  (ww_createdAt: int)
  (ww_frontierRef: artifact_ref)
  (ww_subject: worker_death_subject)
  (ww_probeState: probe_state)
and worker_death_subject = Worker_death_subject
  (wd_oldWorkerLaunchId: string)
  (wd_oldLeaseEpoch: int)
  (wd_oldWorkerIdentity: string)
  (wd_processContainmentRef: artifact_ref)
  (wd_workspaceGenerationRef: artifact_ref)
  (wd_openInvocationRefs: "string list")
and probe_state =
    Probe_manual_only
  | Probe_pending int int "(artifact_ref \<times> string) option" \<comment> \<open>count, next probe, last evidence\<close>
  | Probe_in_flight int probe_dispatch
  | Probe_exhausted int artifact_ref string
  | Probe_user_in_flight int probe_dispatch
and probe_dispatch = Probe_dispatch
  (pd_probeOrdinal: int)
  (pd_probeNonceDigest: string)
  (pd_probeStartedAt: int)
  (pd_probeDeadlineAt: int)
  (pd_owningSupervisorInstanceId: string)
  (pd_inspectionTargetDigest: string)

record journal_entry =
  je_seq :: int
  je_runId :: string
  je_opId :: string
  je_opKind :: op_kind
  je_attempt :: int
  je_leaseEpoch :: int
  je_phase :: invocation_phase
  je_target :: string
  je_requestRef :: artifact_ref
  je_sandboxLaunchSpecRef :: "artifact_ref option"
  je_replayClass :: replay_class
  je_idempotencyKey :: "string option"
  je_grantRef :: "artifact_ref option"
  je_dispatchId :: "string option"
  je_supervisorInstanceId :: "string option"
  je_stateOwnerEpoch :: "int option"
  je_brokerFenceTokenDigest :: "string option"
  je_resultRef :: "artifact_ref option"
  je_receiptRef :: "artifact_ref option"
  je_errorRef :: "artifact_ref option"
  je_evidenceRef :: "artifact_ref option"
  je_evidenceDigest :: "string option"
  je_attestationRef :: "artifact_ref option"
  je_budgetDelta :: budget_usage
  je_budgetSettlementRef :: "artifact_ref option"
  je_timestamp :: int

section \<open>The decoder of entries\<close>

definition hex64 :: "string \<Rightarrow> bool" where
  "hex64 s = (length s = 64 \<and> list_all (\<lambda>c. js_digit c \<or> c \<in> set ''abcdef'') s)"

definition artifact_ref_ok :: "artifact_ref \<Rightarrow> bool" where
  "artifact_ref_ok r = (case r of Artifact s \<Rightarrow> hex64 s | _ \<Rightarrow> True)"

definition optional :: "('a \<Rightarrow> bool) \<Rightarrow> 'a option \<Rightarrow> bool" where
  "optional P v = (case v of None \<Rightarrow> True | Some x \<Rightarrow> P x)"

definition present :: "('a \<Rightarrow> bool) \<Rightarrow> 'a option \<Rightarrow> bool" where
  "present P v = (case v of None \<Rightarrow> False | Some x \<Rightarrow> P x)"

definition int_at_least :: "int \<Rightarrow> int \<Rightarrow> bool" where
  "int_at_least minimum n = (safe_integer n \<and> minimum \<le> n)"

definition evidence_pair_ok :: "journal_entry \<Rightarrow> bool" where
  "evidence_pair_ok e =
     ((je_evidenceRef e = None) = (je_evidenceDigest e = None) \<and>
      optional artifact_ref_ok (je_evidenceRef e) \<and> optional hex64 (je_evidenceDigest e))"

definition journal_base_ok :: "journal_entry \<Rightarrow> bool" where
  "journal_base_ok e =
     (int_at_least 1 (je_seq e) \<and> je_runId e \<noteq> [] \<and> je_opId e \<noteq> [] \<and> int_at_least 0 (je_attempt e) \<and>
      int_at_least 1 (je_leaseEpoch e) \<and> je_target e \<noteq> [] \<and> artifact_ref_ok (je_requestRef e) \<and>
      optional (\<lambda>s. s \<noteq> []) (je_idempotencyKey e) \<and> optional artifact_ref_ok (je_grantRef e) \<and>
      is_ok (decode_budget_usage (je_budgetDelta e)) \<and> evidence_pair_ok e)"

definition claim_identity_ok :: "journal_entry \<Rightarrow> bool" where
  "claim_identity_ok e =
     (present (\<lambda>s. s \<noteq> []) (je_dispatchId e) \<and> present (\<lambda>s. s \<noteq> []) (je_supervisorInstanceId e) \<and>
      present (int_at_least 1) (je_stateOwnerEpoch e) \<and> optional artifact_ref_ok (je_sandboxLaunchSpecRef e) \<and>
      optional hex64 (je_brokerFenceTokenDigest e))"

definition no_claim_keys :: "journal_entry \<Rightarrow> bool" where
  "no_claim_keys e =
     (je_sandboxLaunchSpecRef e = None \<and> je_dispatchId e = None \<and> je_supervisorInstanceId e = None \<and>
      je_stateOwnerEpoch e = None \<and> je_brokerFenceTokenDigest e = None)"

definition no_evidence :: "journal_entry \<Rightarrow> bool" where
  "no_evidence e = (je_evidenceRef e = None \<and> je_evidenceDigest e = None)"

text \<open>The branches of the phases; each rejects the keys that its list leaves out.\<close>

fun phase_fields_ok :: "invocation_phase \<Rightarrow> journal_entry \<Rightarrow> bool" where
  "phase_fields_ok Prepared e =
     (no_claim_keys e \<and> je_resultRef e = None \<and> je_receiptRef e = None \<and> je_errorRef e = None \<and> no_evidence e \<and>
      je_attestationRef e = None \<and> je_budgetSettlementRef e = None)"
| "phase_fields_ok Dispatch_claimed e =
     (claim_identity_ok e \<and> is_zero_budget (je_budgetDelta e) \<and> je_resultRef e = None \<and> je_receiptRef e = None \<and>
      je_errorRef e = None \<and> no_evidence e \<and> je_attestationRef e = None \<and> je_budgetSettlementRef e = None)"
| "phase_fields_ok Completed e =
     (je_errorRef e = None \<and> no_evidence e \<and> je_attestationRef e = None \<and> claim_identity_ok e \<and>
      present artifact_ref_ok (je_budgetSettlementRef e) \<and> (je_resultRef e \<noteq> None \<or> je_receiptRef e \<noteq> None) \<and>
      optional artifact_ref_ok (je_resultRef e) \<and> optional artifact_ref_ok (je_receiptRef e))"
| "phase_fields_ok Unknown e =
     (je_resultRef e = None \<and> je_receiptRef e = None \<and> je_errorRef e = None \<and> je_attestationRef e = None \<and>
      claim_identity_ok e \<and> je_evidenceRef e \<noteq> None \<and> present artifact_ref_ok (je_budgetSettlementRef e))"
| "phase_fields_ok Abandoned e =
     (je_resultRef e = None \<and> je_receiptRef e = None \<and> je_errorRef e = None \<and> no_evidence e \<and> claim_identity_ok e \<and>
      present artifact_ref_ok (je_attestationRef e) \<and> present artifact_ref_ok (je_budgetSettlementRef e) \<and>
      is_zero_budget (je_budgetDelta e))"
| "phase_fields_ok Failed e =
     (je_resultRef e = None \<and> je_attestationRef e = None \<and>
      present artifact_ref_ok (je_errorRef e) \<and> present artifact_ref_ok (je_budgetSettlementRef e) \<and>
      (if je_dispatchId e \<noteq> None \<or> je_supervisorInstanceId e \<noteq> None \<or> je_stateOwnerEpoch e \<noteq> None then
         claim_identity_ok e \<and> (je_evidenceRef e \<noteq> None \<or> je_opKind e = Op_verifier) \<and>
         optional artifact_ref_ok (je_receiptRef e)
       else no_claim_keys e \<and> je_receiptRef e = None \<and> no_evidence e \<and> is_zero_budget (je_budgetDelta e)))"

definition decode_invocation_journal_entry :: "journal_entry \<Rightarrow> journal_entry kernel" where
  "decode_invocation_journal_entry e =
     (if journal_base_ok e \<and> phase_fields_ok (je_phase e) e then Inr e else Inl (Storage State_transition_invalid))"

section \<open>Readers\<close>

definition read_invocation_attempt :: "journal_entry list \<Rightarrow> string \<Rightarrow> int \<Rightarrow> journal_entry list" where
  "read_invocation_attempt js opId attempt = filter (\<lambda>e. je_opId e = opId \<and> je_attempt e = attempt) js"

definition read_operation_journal :: "journal_entry list \<Rightarrow> string \<Rightarrow> journal_entry list" where
  "read_operation_journal js opId = filter (\<lambda>e. je_opId e = opId) js"

text \<open>\<open>ORDER BY attempt DESC LIMIT 1\<close>\<close>

fun highest_attempt :: "journal_entry list \<Rightarrow> journal_entry option" where
  "highest_attempt [] = None"
| "highest_attempt (e # es) =
     (case highest_attempt es of None \<Rightarrow> Some e | Some h \<Rightarrow> Some (if je_attempt e < je_attempt h then h else e))"

definition read_highest_prepared_attempt :: "journal_entry list \<Rightarrow> string \<Rightarrow> journal_entry option" where
  "read_highest_prepared_attempt js opId = highest_attempt (filter (\<lambda>e. je_opId e = opId \<and> je_phase e = Prepared) js)"

definition max_of :: "int list \<Rightarrow> int \<Rightarrow> int" where
  "max_of ns start = foldr max ns start"

definition next_seq :: "journal_entry list \<Rightarrow> int" where
  "next_seq js = max_of (map je_seq js) 0 + 1"

definition next_journal_sequence :: "journal_entry list \<Rightarrow> int kernel" where
  "next_journal_sequence js =
     (if \<not> safe_integer (next_seq js) \<or> next_seq js < 1 then Inl (Storage Recovery_required) else Inr (next_seq js))"

section \<open>Inserting\<close>

definition phases_of_attempt :: "journal_entry list \<Rightarrow> journal_entry \<Rightarrow> invocation_phase list" where
  "phases_of_attempt js e = map je_phase (read_invocation_attempt js (je_opId e) (je_attempt e))"

text \<open>The trigger \<open>run_journal_validate_insert\<close>; \<open>js\<close> are the rows of the run of \<open>e\<close>.\<close>

definition run_journal_validate_insert :: "journal_entry list \<Rightarrow> journal_entry \<Rightarrow> bool" where
  "run_journal_validate_insert js e =
     (let ps = phases_of_attempt js e; ph = je_phase e;
          prepared = filter (\<lambda>f. je_opId f = je_opId e \<and> je_phase f = Prepared) js in
      je_seq e = next_seq js \<and>
      0 \<le> je_attempt e \<and>
      (ph = Prepared \<longrightarrow> je_attempt e = (if prepared = [] then 0 else max_of (map je_attempt prepared) (je_attempt (hd prepared)) + 1)) \<and>
      (ph \<noteq> Prepared \<longrightarrow> Prepared \<in> set ps) \<and>
      (ph = Dispatch_claimed \<longrightarrow> set ps \<inter> {Dispatch_claimed, Completed, Failed, Unknown, Abandoned} = {}) \<and>
      (ph \<in> {Completed, Failed, Unknown, Abandoned} \<longrightarrow> set ps \<inter> {Completed, Failed, Abandoned} = {}) \<and>
      (ph \<in> {Completed, Failed, Abandoned} \<longrightarrow>
         (case find (\<lambda>f. je_phase f = Unknown) (read_invocation_attempt js (je_opId e) (je_attempt e)) of
            None \<Rightarrow> True
          | Some u \<Rightarrow> je_budgetSettlementRef e \<noteq> None \<and> je_budgetSettlementRef e = je_budgetSettlementRef u)) \<and>
      (ph \<in> {Completed, Unknown} \<longrightarrow> Dispatch_claimed \<in> set ps) \<and>
      (ph = Abandoned \<longrightarrow> Unknown \<in> set ps))"

text \<open>The constraints of the table: the primary key and the phases of an attempt are unique.\<close>

definition run_journal_constraints :: "journal_entry list \<Rightarrow> journal_entry \<Rightarrow> bool" where
  "run_journal_constraints js e =
     (1 \<le> je_seq e \<and> je_seq e \<notin> set (map je_seq js) \<and> je_phase e \<notin> set (phases_of_attempt js e))"

definition append_invocation_journal_entry :: "journal_entry list \<Rightarrow> journal_entry \<Rightarrow> journal_entry list kernel" where
  "append_invocation_journal_entry js e =
     and_then (decode_invocation_journal_entry e) (\<lambda>_.
     and_then (next_journal_sequence js) (\<lambda>expected.
     if je_seq e \<noteq> expected then Inl (Storage State_transition_invalid)
     else if \<not> run_journal_validate_insert js e \<or> \<not> run_journal_constraints js e then Inl Sql_abort
     else Inr (js @ [e])))"

section \<open>Facts\<close>

lemma read_attempt_append:
  "read_invocation_attempt (js @ [e]) opId a =
     read_invocation_attempt js opId a @ (if je_opId e = opId \<and> je_attempt e = a then [e] else [])"
  by (simp add: read_invocation_attempt_def)

lemma set_read_attempt [simp]:
  "e \<in> set (read_invocation_attempt js opId a) \<longleftrightarrow> e \<in> set js \<and> je_opId e = opId \<and> je_attempt e = a"
  by (auto simp: read_invocation_attempt_def)

lemma highest_attempt_None [simp]: "highest_attempt es = None \<longleftrightarrow> es = []"
  by (cases es) (auto split: option.splits)

lemma highest_attempt_Some:
  "highest_attempt es = Some h \<Longrightarrow> h \<in> set es \<and> (\<forall>e\<in>set es. je_attempt e \<le> je_attempt h)"
proof (induction es arbitrary: h)
  case (Cons e es)
  then show ?case by (cases "highest_attempt es") (fastforce split: if_splits)+
qed simp

lemma max_of_append: "max_of (ns @ [n]) start = max_of ns (max n start)"
  by (simp add: max_of_def)

lemma append_entry_Inr:
  "append_invocation_journal_entry js e = Inr js' \<longleftrightarrow>
     js' = js @ [e] \<and> journal_base_ok e \<and> phase_fields_ok (je_phase e) e \<and> safe_integer (next_seq js) \<and> 1 \<le> next_seq js \<and>
     je_seq e = next_seq js \<and> run_journal_validate_insert js e \<and> run_journal_constraints js e"
  by (auto simp: append_invocation_journal_entry_def and_then_Inr decode_invocation_journal_entry_def
      next_journal_sequence_def split: if_splits)

end
