(* ===== verification/Model_Retry.thy ===== *)
theory Model_Retry
  imports Invocation_Journal
begin

text \<open>
  The retry interpreter of \<open>src/runtime/model-retry.ts\<close>: it replays the durable journal of one model
  operation and says whether the next attempt may be prepared.  A retry entry holds the fields of a journal entry
  that the interpreter reads, its time as text; a thrown TypeError names its message.
\<close>

section \<open>Journal entries and policy\<close>

record retry_entry =
  re_seq :: int
  re_runId :: string
  re_opId :: string
  re_opKind :: op_kind
  re_attempt :: int
  re_phase :: invocation_phase
  re_target :: string
  re_requestRef :: string
  re_replayClass :: replay_class
  re_resultRef :: "string option"
  re_errorRef :: "string option"
  re_evidenceRef :: "string option"
  re_budgetSettlementRef :: "string option"
  re_timestamp :: string

record retry_policy =
  maxDispatchedAttempts :: int
  maxZeroByteTransportRetriesPerAttempt :: int
  postAttemptDelaysMs :: "int list"

datatype model_retry_kind =
    Ready int
  | Backoff int string
  | Pending int invocation_phase
  | Finished int string
  | Exhausted int string

datatype retry_error =
    Invalid_policy
  | Mixed_identities
  | Not_journal_order
  | Not_contiguous
  | Overtakes_attempt
  | Ceiling_exceeded
  | Backoff_bypassed
  | No_prepared_owner
  | Not_single_claim
  | Invalid_settlement
  | No_typed_result
  | No_failure_evidence
  | Bad_time time_error

text \<open>An optional reference is falsy when it is absent or the empty string.\<close>

definition truthy :: "string option \<Rightarrow> bool" where
  "truthy x = (case x of None \<Rightarrow> False | Some s \<Rightarrow> s \<noteq> [])"

section \<open>Replaying the journal\<close>

record replay =
  rp_dispatchedAttempts :: int
  rp_lastDispatchSettledAt :: "int option"
  rp_previous :: "retry_entry option"
  rp_attempts :: "retry_entry list list"

definition initial_replay :: replay where
  "initial_replay =
     \<lparr>rp_dispatchedAttempts = 0, rp_lastDispatchSettledAt = None, rp_previous = None, rp_attempts = []\<rparr>"

definition time_of :: "string \<Rightarrow> (retry_error, int) result" where
  "time_of t = map_error Bad_time (parse_canonical_time t)"

text \<open>\<open>postAttemptDelaysMs[i] ?? 0\<close>.\<close>

definition delay_at :: "retry_policy \<Rightarrow> int \<Rightarrow> int" where
  "delay_at p i =
     (if i < 0 then 0 else (case at (postAttemptDelaysMs p) (nat i) of None \<Rightarrow> 0 | Some d \<Rightarrow> d))"

definition ready_at :: "retry_policy \<Rightarrow> replay \<Rightarrow> int option" where
  "ready_at p st =
     (case rp_lastDispatchSettledAt st of
        None \<Rightarrow> None
      | Some t \<Rightarrow> Some (t + delay_at p (rp_dispatchedAttempts st - 1)))"

definition too_early :: "int \<Rightarrow> int option \<Rightarrow> bool" where
  "too_early t ready = (case ready of None \<Rightarrow> False | Some r \<Rightarrow> t < r)"

definition assert_eligible :: "retry_policy \<Rightarrow> replay \<Rightarrow> string \<Rightarrow> (retry_error, unit) result" where
  "assert_eligible p st timestamp =
     and_then (throw_if (rp_dispatchedAttempts st \<ge> maxDispatchedAttempts p) Ceiling_exceeded) (\<lambda>_.
     and_then (time_of timestamp) (\<lambda>t.
     throw_if (too_early t (ready_at p st)) Backoff_bypassed))"

text \<open>\<open>attempts.at(-1)?.at(-1)\<close>.\<close>

definition last_entry :: "replay \<Rightarrow> retry_entry option" where
  "last_entry st =
     (if rp_attempts st = [] then None
      else if last (rp_attempts st) = [] then None else Some (last (last (rp_attempts st))))"

definition check_order :: "replay \<Rightarrow> retry_entry \<Rightarrow> (retry_error, unit) result" where
  "check_order st entry =
     (case rp_previous st of
        None \<Rightarrow> Inr ()
      | Some previous \<Rightarrow>
          and_then (throw_if (re_seq entry \<le> re_seq previous) Not_journal_order) (\<lambda>_.
          and_then (time_of (re_timestamp entry)) (\<lambda>t.
          and_then (time_of (re_timestamp previous)) (\<lambda>t'.
          throw_if (t < t') Not_journal_order))))"

definition check_prior :: "replay \<Rightarrow> retry_entry \<Rightarrow> (retry_error, unit) result" where
  "check_prior st entry =
     (case last_entry st of
        None \<Rightarrow> Inr ()
      | Some prior \<Rightarrow>
          and_then (throw_if (re_phase prior \<notin> {Failed, Unknown} \<or> \<not> truthy (re_budgetSettlementRef prior) \<or>
                              re_seq prior \<ge> re_seq entry) Overtakes_attempt) (\<lambda>_.
          and_then (time_of (re_timestamp prior)) (\<lambda>t'.
          and_then (time_of (re_timestamp entry)) (\<lambda>t.
          throw_if (t' > t) Overtakes_attempt))))"

definition attempt_of :: "replay \<Rightarrow> int \<Rightarrow> retry_entry list option" where
  "attempt_of st a = (if a < 0 then None else at (rp_attempts st) (nat a))"

definition push_entry :: "replay \<Rightarrow> retry_entry \<Rightarrow> retry_entry list list" where
  "push_entry st entry =
     (rp_attempts st)[nat (re_attempt entry) := rp_attempts st ! nat (re_attempt entry) @ [entry]]"

definition settlement_ok :: "retry_entry \<Rightarrow> retry_entry \<Rightarrow> bool" where
  "settlement_ok previous entry \<longleftrightarrow>
     re_phase entry \<in> {Completed, Failed, Unknown} \<and> truthy (re_budgetSettlementRef entry) \<and>
     (re_phase previous = Dispatch_claimed \<or> re_phase previous = Prepared \<and> re_phase entry = Failed \<or>
      re_phase previous = Unknown \<and> re_phase entry \<in> {Completed, Failed})"

definition replay_entry :: "retry_policy \<Rightarrow> retry_entry \<Rightarrow> replay \<Rightarrow> retry_entry \<Rightarrow> (retry_error, replay) result" where
  "replay_entry p first st0 entry =
     and_then (throw_if (re_opKind entry \<noteq> Op_model \<or> re_runId entry \<noteq> re_runId first \<or>
         re_opId entry \<noteq> re_opId first \<or> re_target entry \<noteq> re_target first \<or>
         re_replayClass entry \<noteq> Replay_retry) Mixed_identities) (\<lambda>_.
     and_then (check_order st0 entry) (\<lambda>_.
     (let st = st0\<lparr>rp_previous := Some entry\<rparr> in
      if re_phase entry = Prepared then
        and_then (throw_if (re_attempt entry \<noteq> int (length (rp_attempts st))) Not_contiguous) (\<lambda>_.
        and_then (check_prior st entry) (\<lambda>_.
        and_then (assert_eligible p st (re_timestamp entry)) (\<lambda>_.
        Inr (st\<lparr>rp_attempts := rp_attempts st @ [[entry]]\<rparr>))))
      else
        (case attempt_of st (re_attempt entry) of
           None \<Rightarrow> Inl No_prepared_owner
         | Some attempt \<Rightarrow>
             and_then (throw_if (re_requestRef entry \<noteq> re_requestRef (hd attempt)) No_prepared_owner) (\<lambda>_.
             if re_phase entry = Dispatch_claimed then
               and_then (throw_if (re_attempt entry \<noteq> int (length (rp_attempts st)) - 1 \<or> length attempt \<noteq> 1)
                 Not_single_claim) (\<lambda>_.
               and_then (assert_eligible p st (re_timestamp entry)) (\<lambda>_.
               Inr (st\<lparr>rp_dispatchedAttempts := rp_dispatchedAttempts st + 1, rp_attempts := push_entry st entry\<rparr>)))
             else
               and_then (throw_if (\<not> settlement_ok (last attempt) entry) Invalid_settlement) (\<lambda>_.
               if List.list_ex (\<lambda>row. re_phase row = Dispatch_claimed) attempt \<and> re_phase (last attempt) = Dispatch_claimed
               then and_then (time_of (re_timestamp entry)) (\<lambda>t.
                      Inr (st\<lparr>rp_lastDispatchSettledAt := Some t, rp_attempts := push_entry st entry\<rparr>))
               else Inr (st\<lparr>rp_attempts := push_entry st entry\<rparr>)))))))"

fun replay_journal :: "retry_policy \<Rightarrow> retry_entry \<Rightarrow> replay \<Rightarrow> retry_entry list \<Rightarrow> (retry_error, replay) result" where
  "replay_journal p first st [] = Inr st"
| "replay_journal p first st (e # es) =
     and_then (replay_entry p first st e) (\<lambda>st'. replay_journal p first st' es)"

section \<open>The state of the operation\<close>

record retry_state_view =
  mrs_kind :: model_retry_kind
  mrs_dispatchedAttempts :: int

definition frozen_policy :: retry_policy where
  "frozen_policy =
     \<lparr>maxDispatchedAttempts = 3, maxZeroByteTransportRetriesPerAttempt = 0, postAttemptDelaysMs = [500, 2000]\<rparr>"

definition retry_kind :: "retry_policy \<Rightarrow> int \<Rightarrow> replay \<Rightarrow> (retry_error, model_retry_kind) result" where
  "retry_kind p sampled st =
     (case last_entry st of
        None \<Rightarrow> Inr (Ready 0)
      | Some l \<Rightarrow>
          (if re_phase l = Prepared \<or> re_phase l = Dispatch_claimed then Inr (Pending (re_attempt l) (re_phase l))
           else if re_phase l = Completed then
             (if \<not> truthy (re_resultRef l) then Inl No_typed_result
              else Inr (Finished (re_attempt l) (the (re_resultRef l))))
           else if rp_dispatchedAttempts st = maxDispatchedAttempts p then
             (let evidenceRef = (if re_phase l = Unknown then re_evidenceRef l else re_errorRef l) in
              if \<not> truthy evidenceRef then Inl No_failure_evidence
              else Inr (Exhausted (re_attempt l) (the evidenceRef)))
           else if too_early sampled (ready_at p st)
             then Inr (Backoff (re_attempt l + 1) (to_iso_string (nat (the (ready_at p st)))))
           else Inr (Ready (re_attempt l + 1))))"

definition replay_of :: "retry_policy \<Rightarrow> retry_entry list \<Rightarrow> (retry_error, replay) result" where
  "replay_of p entries = replay_journal p (hd entries) initial_replay entries"

definition model_retry_state :: "retry_policy \<Rightarrow> retry_entry list \<Rightarrow> string \<Rightarrow> (retry_error, retry_state_view) result" where
  "model_retry_state p entries now =
     and_then (throw_if (maxDispatchedAttempts p \<noteq> 3 \<or> maxZeroByteTransportRetriesPerAttempt p \<noteq> 0 \<or>
         postAttemptDelaysMs p \<noteq> [500, 2000]) Invalid_policy) (\<lambda>_.
     and_then (time_of now) (\<lambda>sampled.
     and_then (replay_of p entries) (\<lambda>st.
     and_then (retry_kind p sampled st) (\<lambda>k.
     Inr \<lparr>mrs_kind = k, mrs_dispatchedAttempts = rp_dispatchedAttempts st\<rparr>))))"

section \<open>What an accepted entry looks like\<close>

lemma replay_entry_cases:
  assumes "replay_entry p first st entry = Inr st'"
  obtains (prepared) "re_phase entry = Prepared" "re_attempt entry = int (length (rp_attempts st))"
      "check_order st entry = Inr ()" "check_prior st entry = Inr ()"
      "assert_eligible p st (re_timestamp entry) = Inr ()"
      "st' = st\<lparr>rp_previous := Some entry, rp_attempts := rp_attempts st @ [[entry]]\<rparr>"
  | (claimed) a where "re_phase entry = Dispatch_claimed" "attempt_of st (re_attempt entry) = Some a"
      "re_attempt entry = int (length (rp_attempts st)) - 1" "length a = 1"
      "check_order st entry = Inr ()" "assert_eligible p st (re_timestamp entry) = Inr ()"
      "st' = st\<lparr>rp_previous := Some entry, rp_dispatchedAttempts := rp_dispatchedAttempts st + 1,
                rp_attempts := push_entry st entry\<rparr>"
  | (settled) a settledAt where "re_phase entry \<noteq> Prepared" "re_phase entry \<noteq> Dispatch_claimed"
      "attempt_of st (re_attempt entry) = Some a" "settlement_ok (last a) entry"
      "check_order st entry = Inr ()"
      "st' = st\<lparr>rp_previous := Some entry, rp_lastDispatchSettledAt := settledAt,
                rp_attempts := push_entry st entry\<rparr>"
proof -
  have rp [simp]: "last_entry (st\<lparr>rp_previous := x\<rparr>) = last_entry st"
    "attempt_of (st\<lparr>rp_previous := x\<rparr>) n = attempt_of st n"
    "push_entry (st\<lparr>rp_previous := x\<rparr>) entry = push_entry st entry"
    "check_prior (st\<lparr>rp_previous := x\<rparr>) entry = check_prior st entry"
    "ready_at p (st\<lparr>rp_previous := x\<rparr>) = ready_at p st"
    "assert_eligible p (st\<lparr>rp_previous := x\<rparr>) t = assert_eligible p st t" for x n t
    by (simp_all add: last_entry_def attempt_of_def push_entry_def check_prior_def ready_at_def assert_eligible_def
        split: option.split)
  note e = assms [unfolded replay_entry_def Let_def and_then_Inr]
  then have o: "check_order st entry = Inr ()" by auto
  show thesis
  proof (cases "re_phase entry = Prepared")
    case True
    with e show thesis by (intro prepared) (auto simp: and_then_Inr)
  next
    case False
    with e obtain a where a: "attempt_of st (re_attempt entry) = Some a" by (auto split: option.splits)
    show thesis
    proof (cases "re_phase entry = Dispatch_claimed")
      case True
      with e a False show thesis by (intro claimed [of a]) (auto simp: and_then_Inr)
    next
      case False
      have np: "re_phase entry \<noteq> Prepared" by fact
      show thesis
      proof (cases "List.list_ex (\<lambda>row. re_phase row = Dispatch_claimed) a \<and> re_phase (last a) = Dispatch_claimed")
        case True
        with e a np False obtain t where "settlement_ok (last a) entry"
          "st' = st\<lparr>rp_previous := Some entry, rp_lastDispatchSettledAt := Some t, rp_attempts := push_entry st entry\<rparr>"
          by (auto simp: and_then_Inr)
        then show thesis by (rule settled [OF np False a _ o])
      next
        case False
        with e a np \<open>re_phase entry \<noteq> Dispatch_claimed\<close> have s: "settlement_ok (last a) entry"
          "st' = st\<lparr>rp_previous := Some entry, rp_attempts := push_entry st entry\<rparr>"
          by (auto simp: and_then_Inr)
        then have "st' = st\<lparr>rp_previous := Some entry, rp_lastDispatchSettledAt := rp_lastDispatchSettledAt st,
            rp_attempts := push_entry st entry\<rparr>" by simp
        then show thesis by (rule settled [OF np \<open>re_phase entry \<noteq> Dispatch_claimed\<close> a s(1) o])
      qed
    qed
  qed
qed

lemma replay_journal_snoc:
  "replay_journal p first st (es @ [e]) = and_then (replay_journal p first st es) (\<lambda>st'. replay_entry p first st' e)"
proof (induction es arbitrary: st)
  case Nil
  show ?case by (cases "replay_entry p first st e") auto
next
  case (Cons a es)
  then show ?case by (cases "replay_entry p first st a") auto
qed

section \<open>Invariant\<close>

definition claims :: "retry_entry list \<Rightarrow> nat" where
  "claims es = length (filter (\<lambda>e. re_phase e = Dispatch_claimed) es)"

definition attempt_inv :: "retry_entry list \<Rightarrow> nat \<Rightarrow> retry_entry list \<Rightarrow> bool" where
  "attempt_inv es i a \<longleftrightarrow>
     a = filter (\<lambda>e. re_attempt e = int i) es \<and>
     a \<noteq> [] \<and> re_phase (hd a) = Prepared \<and> claims a \<le> 1 \<and>
     (\<forall>e\<in>set a. re_phase e \<noteq> Abandoned \<and>
        (re_phase e \<in> {Completed, Failed, Unknown} \<longrightarrow> truthy (re_budgetSettlementRef e)))"

definition time_ordered :: "retry_entry list \<Rightarrow> bool" where
  "time_ordered es \<longleftrightarrow>
     (\<forall>e\<in>set es. re_seq e \<le> re_seq (last es) \<and>
        (\<exists>t t'. time_of (re_timestamp e) = Inr t \<and> time_of (re_timestamp (last es)) = Inr t' \<and> t \<le> t'))"

definition replay_inv :: "replay \<Rightarrow> retry_entry list \<Rightarrow> bool" where
  "replay_inv st es \<longleftrightarrow>
     rp_previous st = (if es = [] then None else Some (last es)) \<and>
     rp_dispatchedAttempts st = int (claims es) \<and> rp_dispatchedAttempts st \<le> 3 \<and>
     (\<forall>i<length (rp_attempts st). attempt_inv es i (rp_attempts st ! i)) \<and>
     (\<forall>e\<in>set es. 0 \<le> re_attempt e \<and> re_attempt e < int (length (rp_attempts st))) \<and>
     (es = [] \<longrightarrow> st = initial_replay) \<and> time_ordered es"

lemma claims_simps [simp]:
  "claims [] = 0" "claims (e # es) = (if re_phase e = Dispatch_claimed then 1 else 0) + claims es"
  "claims (es @ fs) = claims es + claims fs"
  by (simp_all add: claims_def)

lemma attempt_invD:
  assumes "attempt_inv es i a"
  shows "a = filter (\<lambda>e. re_attempt e = int i) es" "a \<noteq> []" "re_phase (hd a) = Prepared" "claims a \<le> 1"
    "e \<in> set a \<Longrightarrow> re_phase e \<noteq> Abandoned"
    "e \<in> set a \<Longrightarrow> re_phase e \<in> {Completed, Failed, Unknown} \<Longrightarrow> truthy (re_budgetSettlementRef e)"
  using assms unfolding attempt_inv_def by blast+

lemma attempt_inv_other: "attempt_inv es i a \<Longrightarrow> re_attempt e \<noteq> int i \<Longrightarrow> attempt_inv (es @ [e]) i a"
  by (auto simp: attempt_inv_def)

lemma push_entry_nth:
  assumes "attempt_of st (re_attempt entry) = Some a" and "i < length (rp_attempts st)"
  shows "push_entry st entry ! i =
    (if int i = re_attempt entry then a @ [entry] else rp_attempts st ! i) \<and>
    (int i = re_attempt entry \<longrightarrow> rp_attempts st ! i = a)"
proof (cases "int i = re_attempt entry")
  case True
  then have "nat (re_attempt entry) = i" by simp
  with assms True show ?thesis by (auto simp: push_entry_def attempt_of_def at_def split: if_splits)
next
  case False
  with assms have "nat (re_attempt entry) \<noteq> i" by (auto simp: attempt_of_def split: if_splits)
  with False assms show ?thesis by (simp add: push_entry_def)
qed

lemma attempts_inv_push:
  assumes inv: "\<forall>i<length (rp_attempts st). attempt_inv es i (rp_attempts st ! i)"
    and a: "attempt_of st (re_attempt entry) = Some a"
    and ok: "re_phase entry \<noteq> Abandoned" "claims (a @ [entry]) \<le> 1"
      "re_phase entry \<in> {Completed, Failed, Unknown} \<longrightarrow> truthy (re_budgetSettlementRef entry)"
  shows "\<forall>i<length (push_entry st entry). attempt_inv (es @ [entry]) i (push_entry st entry ! i)"
proof (intro allI impI)
  fix i assume "i < length (push_entry st entry)"
  then have i: "i < length (rp_attempts st)" by (simp add: push_entry_def)
  from inv i have old: "attempt_inv es i (rp_attempts st ! i)" by blast
  show "attempt_inv (es @ [entry]) i (push_entry st entry ! i)"
  proof (cases "int i = re_attempt entry")
    case True
    with push_entry_nth [OF a i] have e: "push_entry st entry ! i = a @ [entry]" "rp_attempts st ! i = a" by auto
    from old ok True show ?thesis unfolding e attempt_inv_def by auto
  next
    case False
    with push_entry_nth [OF a i] old show ?thesis by (auto intro: attempt_inv_other)
  qed
qed

lemma check_order_time:
  assumes "check_order st e = Inr ()" and "rp_previous st = (if es = [] then None else Some (last es))"
    and "time_ordered es" and "es = [] \<Longrightarrow> \<exists>t. time_of (re_timestamp e) = Inr t"
  shows "time_ordered (es @ [e])"
proof (cases "es = []")
  case True
  with assms(4) show ?thesis by (auto simp: time_ordered_def)
next
  case False
  with assms(1,2) obtain t t' where t: "re_seq (last es) < re_seq e" "time_of (re_timestamp e) = Inr t"
    "time_of (re_timestamp (last es)) = Inr t'" "t' \<le> t"
    by (auto simp: check_order_def and_then_Inr)
  with assms(3) show ?thesis by (fastforce simp: time_ordered_def)
qed

lemma attempt_of_inv:
  assumes "\<forall>i<length (rp_attempts st). attempt_inv es i (rp_attempts st ! i)" and "attempt_of st n = Some a"
  shows "attempt_inv es (nat n) a"
  using assms by (auto simp: attempt_of_def at_def split: if_splits)

lemma assert_eligible_frozen:
  "assert_eligible frozen_policy st t = Inr () \<longleftrightarrow>
     rp_dispatchedAttempts st < 3 \<and> (\<exists>s. time_of t = Inr s \<and> \<not> too_early s (ready_at frozen_policy st))"
  by (auto simp: assert_eligible_def and_then_Inr frozen_policy_def)

lemma replay_entry_inv:
  assumes inv: "replay_inv st es" and step: "replay_entry frozen_policy first st e = Inr st'"
  shows "replay_inv st' (es @ [e])"
proof -
  from inv have old: "\<forall>i<length (rp_attempts st). attempt_inv es i (rp_attempts st ! i)"
    and prev: "rp_previous st = (if es = [] then None else Some (last es))"
    and d: "rp_dispatchedAttempts st = int (claims es)" "rp_dispatchedAttempts st \<le> 3"
    and emp: "es = [] \<Longrightarrow> rp_attempts st = []" and ord: "time_ordered es"
    and rng: "\<forall>e\<in>set es. 0 \<le> re_attempt e \<and> re_attempt e < int (length (rp_attempts st))"
    by (auto simp: replay_inv_def initial_replay_def)
  show ?thesis
  proof (cases rule: replay_entry_cases [OF step, case_names prepared claimed settled])
    case prepared
    from prepared(5) have "\<exists>t. time_of (re_timestamp e) = Inr t" by (auto simp: assert_eligible_frozen)
    with check_order_time [OF prepared(3) prev ord] have "time_ordered (es @ [e])" by blast
    moreover have "attempt_inv (es @ [e]) i ((rp_attempts st @ [[e]]) ! i)" if "i < length (rp_attempts st) + 1" for i
    proof (cases "i < length (rp_attempts st)")
      case True
      with old prepared(2) have "attempt_inv (es @ [e]) i (rp_attempts st ! i)" by (auto intro: attempt_inv_other)
      with True show ?thesis by (simp add: nth_append)
    next
      case False
      with that have "i = length (rp_attempts st)" by simp
      moreover from rng have "filter (\<lambda>e. re_attempt e = int (length (rp_attempts st))) es = []"
        by (auto simp: filter_empty_conv)
      ultimately show ?thesis using prepared by (simp add: attempt_inv_def)
    qed
    ultimately show ?thesis using d prepared rng by (auto simp: replay_inv_def)
  next
    case (claimed a)
    from claimed(4) obtain x where a: "a = [x]" by (cases a) auto
    from attempt_of_inv [OF old claimed(2)] have "re_phase (hd a) = Prepared" unfolding attempt_inv_def by blast
    with a have "claims (a @ [e]) \<le> 1" by simp
    from attempts_inv_push [OF old claimed(2) _ this] claimed(1)
    have "\<forall>i<length (push_entry st e). attempt_inv (es @ [e]) i (push_entry st e ! i)" by simp
    moreover have "time_ordered (es @ [e])"
      using check_order_time [OF claimed(5) prev ord] claimed(6) by (auto simp: assert_eligible_frozen)
    moreover have "0 \<le> re_attempt e" "re_attempt e < int (length (rp_attempts st))"
      using claimed(2,3) by (auto simp: attempt_of_def split: if_splits)
    ultimately show ?thesis using d claimed rng by (auto simp: replay_inv_def assert_eligible_frozen push_entry_def)
  next
    case (settled a s)
    have "claims (a @ [e]) \<le> 1"
      using attempt_invD(4) [OF attempt_of_inv [OF old settled(3)]] settled(2) by simp
    moreover from settled(4) have "re_phase e \<noteq> Abandoned" "truthy (re_budgetSettlementRef e)"
      by (auto simp: settlement_ok_def)
    ultimately have "\<forall>i<length (push_entry st e). attempt_inv (es @ [e]) i (push_entry st e ! i)"
      using attempts_inv_push [OF old settled(3)] by blast
    moreover have "es \<noteq> []" using emp settled(3) by (auto simp: attempt_of_def at_def split: if_splits)
    then have "time_ordered (es @ [e])" using check_order_time [OF settled(5) prev ord] by blast
    moreover have "0 \<le> re_attempt e" "re_attempt e < int (length (rp_attempts st))"
      using settled(3) by (auto simp: attempt_of_def at_def split: if_splits)
    ultimately show ?thesis using d settled rng by (auto simp: replay_inv_def push_entry_def)
  qed
qed

lemma replay_of_inv: "replay_of frozen_policy es = Inr st \<Longrightarrow> replay_inv st es"
  unfolding replay_of_def
proof -
  have "replay_journal frozen_policy first initial_replay es = Inr st \<Longrightarrow> replay_inv st es" for first
  proof (induction es arbitrary: st rule: rev_induct)
    case Nil
    then show ?case by (auto simp: replay_inv_def initial_replay_def time_ordered_def)
  next
    case (snoc e es)
    then show ?case by (auto simp: replay_journal_snoc and_then_Inr intro: replay_entry_inv)
  qed
  then show "replay_journal frozen_policy (hd es) initial_replay es = Inr st \<Longrightarrow> replay_inv st es" .
qed

lemma frozen_policy_unique:
  "(maxDispatchedAttempts p \<noteq> 3 \<or> maxZeroByteTransportRetriesPerAttempt p \<noteq> 0 \<or>
    postAttemptDelaysMs p \<noteq> [500, 2000]) \<longleftrightarrow> p \<noteq> frozen_policy"
  by (cases p) (auto simp: frozen_policy_def)

lemma model_retry_state_Inr:
  "model_retry_state p es now = Inr s \<longleftrightarrow>
     p = frozen_policy \<and>
     (\<exists>t st. time_of now = Inr t \<and> replay_of p es = Inr st \<and> retry_kind p t st = Inr (mrs_kind s) \<and>
        mrs_dispatchedAttempts s = rp_dispatchedAttempts st)"
  unfolding model_retry_state_def frozen_policy_unique and_then_Inr throw_if_simps by (cases s) auto

text \<open>An accepted journal claims at most three dispatches, at most one for each attempt, and the interpreter
reports exactly their number.\<close>

theorem dispatch_ceiling:
  assumes "model_retry_state p es now = Inr s"
  shows "mrs_dispatchedAttempts s = int (claims es) \<and> claims es \<le> 3 \<and>
    claims (filter (\<lambda>e. re_attempt e = i) es) \<le> 1"
proof -
  from assms obtain st where st: "replay_of frozen_policy es = Inr st"
    "mrs_dispatchedAttempts s = rp_dispatchedAttempts st"
    unfolding model_retry_state_Inr by blast
  from replay_of_inv [OF st(1)] have inv: "rp_dispatchedAttempts st = int (claims es)" "rp_dispatchedAttempts st \<le> 3"
    "\<forall>i<length (rp_attempts st). attempt_inv es i (rp_attempts st ! i)"
    "\<forall>e\<in>set es. 0 \<le> re_attempt e \<and> re_attempt e < int (length (rp_attempts st))"
    by (auto simp: replay_inv_def)
  have "claims (filter (\<lambda>e. re_attempt e = i) es) \<le> 1"
  proof (cases "0 \<le> i \<and> i < int (length (rp_attempts st))")
    case True
    with inv(3) have "attempt_inv es (nat i) (rp_attempts st ! nat i)" by auto
    from attempt_invD(1,4) [OF this] True show ?thesis by simp
  next
    case False
    with inv(4) have "filter (\<lambda>e. re_attempt e = i) es = []" by (auto simp: filter_empty_conv)
    then show ?thesis by simp
  qed
  with st(2) inv(1,2) show ?thesis by simp
qed

text \<open>\<open>follows es e\<close>: \<open>e\<close> is an entry of the same operation that comes after \<open>es\<close> in the journal.\<close>

definition follows :: "retry_entry list \<Rightarrow> retry_entry \<Rightarrow> bool" where
  "follows es e \<longleftrightarrow>
     re_opKind e = Op_model \<and> re_replayClass e = Replay_retry \<and>
     (es \<noteq> [] \<longrightarrow> re_runId e = re_runId (hd es) \<and> re_opId e = re_opId (hd es) \<and> re_target e = re_target (hd es) \<and>
        re_seq (last es) < re_seq e \<and>
        (\<exists>t t'. time_of (re_timestamp (last es)) = Inr t' \<and> time_of (re_timestamp e) = Inr t \<and> t' \<le> t))"

lemma follows_check_order:
  "follows es e \<Longrightarrow> rp_previous st = (if es = [] then None else Some (last es)) \<Longrightarrow> check_order st e = Inr ()"
  by (auto simp: follows_def check_order_def and_then_Inr)

lemma last_entry_in:
  assumes "replay_inv st es" and "last_entry st = Some l"
  shows "rp_attempts st \<noteq> [] \<and> l \<in> set es \<and> re_attempt l = int (length (rp_attempts st)) - 1 \<and>
    re_phase l \<noteq> Abandoned \<and> (re_phase l \<in> {Completed, Failed, Unknown} \<longrightarrow> truthy (re_budgetSettlementRef l))"
proof -
  from assms(2) have ne: "rp_attempts st \<noteq> []" and l: "l = last (last (rp_attempts st))"
    by (auto simp: last_entry_def split: if_splits)
  from ne assms(1) have inv: "attempt_inv es (length (rp_attempts st) - 1) (last (rp_attempts st))"
    by (auto simp: replay_inv_def last_conv_nth)
  from attempt_invD(2) [OF inv] have l': "l \<in> set (last (rp_attempts st))" by (simp add: l)
  then have "l \<in> set (filter (\<lambda>e. re_attempt e = int (length (rp_attempts st) - 1)) es)"
    by (subst (asm) attempt_invD(1) [OF inv])
  moreover have "int (length (rp_attempts st) - 1) = int (length (rp_attempts st)) - 1"
    using ne by (cases "rp_attempts st") auto
  ultimately show ?thesis using ne attempt_invD(5,6) [OF inv l'] by simp
qed

lemma last_entry_None: "replay_inv st es \<Longrightarrow> last_entry st = None \<longleftrightarrow> rp_attempts st = []"
proof -
  assume inv: "replay_inv st es"
  have "last (rp_attempts st) \<noteq> []" if "rp_attempts st \<noteq> []"
  proof -
    from that inv have "attempt_inv es (length (rp_attempts st) - 1) (last (rp_attempts st))"
      by (auto simp: replay_inv_def last_conv_nth)
    then show ?thesis by (rule attempt_invD(2))
  qed
  then show ?thesis by (simp add: last_entry_def)
qed

lemma check_prior_iff:
  assumes inv: "replay_inv st es" and f: "follows es e" and l: "last_entry st = Some l"
  shows "check_prior st e = Inr () \<longleftrightarrow> re_phase l \<in> {Failed, Unknown}"
proof -
  from last_entry_in [OF inv l] have le: "l \<in> set es"
    and b: "re_phase l \<in> {Completed, Failed, Unknown} \<longrightarrow> truthy (re_budgetSettlementRef l)" by auto
  from inv le obtain t t' where t: "re_seq l \<le> re_seq (last es)" "time_of (re_timestamp l) = Inr t"
    "time_of (re_timestamp (last es)) = Inr t'" "t \<le> t'"
    by (auto simp: replay_inv_def time_ordered_def)
  from f le t(3) obtain u where u: "time_of (re_timestamp e) = Inr u" "t' \<le> u" "re_seq (last es) < re_seq e"
    by (auto simp: follows_def)
  from t u b l show ?thesis by (auto simp: check_prior_def and_then_Inr)
qed

lemma frozen_max: "maxDispatchedAttempts frozen_policy = 3"
  by (simp add: frozen_policy_def)

lemma retry_kind_Ready_iff:
  assumes inv: "replay_inv st es" and f: "follows es e" and t: "time_of (re_timestamp e) = Inr t"
  shows "retry_kind frozen_policy t st = Inr (Ready (re_attempt e)) \<longleftrightarrow>
    re_attempt e = int (length (rp_attempts st)) \<and> check_prior st e = Inr () \<and>
    assert_eligible frozen_policy st (re_timestamp e) = Inr ()"
proof (cases "last_entry st")
  case None
  with last_entry_None [OF inv] have "rp_attempts st = []" by simp
  with inv have "st = initial_replay" by (cases es) (auto simp: replay_inv_def)
  with t show ?thesis
    by (auto simp: retry_kind_def check_prior_def initial_replay_def last_entry_def assert_eligible_frozen
        ready_at_def too_early_def)
next
  case (Some l)
  note l = last_entry_in [OF inv Some]
  have d: "rp_dispatchedAttempts st \<le> 3" using inv by (simp add: replay_inv_def)
  from l d t show ?thesis
    unfolding check_prior_iff [OF inv f Some] retry_kind_def Some
    by (cases "re_phase l") (auto simp: assert_eligible_frozen frozen_max Let_def)
qed

lemma replay_of_snoc:
  assumes "replay_of p h = Inr st"
  shows "replay_of p (h @ [e]) = replay_entry p (hd (h @ [e])) st e"
proof (cases h)
  case Nil
  with assms show ?thesis by (cases "replay_entry p e st e") (auto simp: replay_of_def)
next
  case (Cons a as)
  with assms show ?thesis
    unfolding replay_of_def using replay_journal_snoc [of p a initial_replay "a # as" e] by simp
qed

lemma replay_prepared:
  assumes inv: "replay_inv st h" and f: "follows h e" and ph: "re_phase e = Prepared"
  shows "replay_entry p (hd (h @ [e])) st e = Inr st' \<longleftrightarrow>
    re_attempt e = int (length (rp_attempts st)) \<and> check_prior st e = Inr () \<and>
    assert_eligible p st (re_timestamp e) = Inr () \<and>
    st' = st\<lparr>rp_previous := Some e, rp_attempts := rp_attempts st @ [[e]]\<rparr>"
proof
  assume "replay_entry p (hd (h @ [e])) st e = Inr st'"
  then show "re_attempt e = int (length (rp_attempts st)) \<and> check_prior st e = Inr () \<and>
    assert_eligible p st (re_timestamp e) = Inr () \<and>
    st' = st\<lparr>rp_previous := Some e, rp_attempts := rp_attempts st @ [[e]]\<rparr>"
    by (cases rule: replay_entry_cases) (use ph in auto)
next
  assume a: "re_attempt e = int (length (rp_attempts st)) \<and> check_prior st e = Inr () \<and>
    assert_eligible p st (re_timestamp e) = Inr () \<and>
    st' = st\<lparr>rp_previous := Some e, rp_attempts := rp_attempts st @ [[e]]\<rparr>"
  have o: "check_order st e = Inr ()"
    using inv by (intro follows_check_order [OF f]) (simp add: replay_inv_def)
  have g: "check_prior (st\<lparr>rp_previous := Some e\<rparr>) e = check_prior st e"
    "assert_eligible p (st\<lparr>rp_previous := Some e\<rparr>) t = assert_eligible p st t" for t
    by (simp_all add: check_prior_def last_entry_def assert_eligible_def ready_at_def split: option.split)
  have i: "re_opKind e = Op_model" "re_runId (hd (h @ [e])) = re_runId e" "re_opId (hd (h @ [e])) = re_opId e"
      "re_target (hd (h @ [e])) = re_target e" "re_replayClass e = Replay_retry"
    using f by (cases h; auto simp: follows_def)+
  from a show "replay_entry p (hd (h @ [e])) st e = Inr st'"
    unfolding replay_entry_def Let_def g by (simp add: o i ph g)
qed

text \<open>C31. The gate and the interpreter agree: after an accepted journal a further attempt may be prepared exactly
when the interpreter, asked at that moment, says that attempt is ready; it is then pending.  So no attempt is
prepared early, out of turn, over a pending or completed attempt or past the ceiling, and none that is ready is
refused.\<close>

theorem prepare_iff_ready:
  assumes "model_retry_state p h (re_timestamp e) = Inr s" and "re_phase e = Prepared" and "follows h e"
  shows "(\<exists>d. model_retry_state p (h @ [e]) (re_timestamp e) =
            Inr \<lparr>mrs_kind = Pending (re_attempt e) Prepared, mrs_dispatchedAttempts = d\<rparr>) \<longleftrightarrow>
         mrs_kind s = Ready (re_attempt e)"
proof -
  from assms(1) obtain t st where p: "p = frozen_policy" and t: "time_of (re_timestamp e) = Inr t"
    and st: "replay_of frozen_policy h = Inr st" and k: "retry_kind frozen_policy t st = Inr (mrs_kind s)"
    unfolding model_retry_state_Inr by blast
  note inv = replay_of_inv [OF st]
  have pend: "retry_kind frozen_policy t (st\<lparr>rp_previous := Some e, rp_attempts := rp_attempts st @ [[e]]\<rparr>)
      = Inr (Pending (re_attempt e) Prepared)"
    using assms(2) by (simp add: retry_kind_def last_entry_def)
  have "(\<exists>d. model_retry_state p (h @ [e]) (re_timestamp e) =
            Inr \<lparr>mrs_kind = Pending (re_attempt e) Prepared, mrs_dispatchedAttempts = d\<rparr>) \<longleftrightarrow>
      (\<exists>st'. replay_of frozen_policy (h @ [e]) = Inr st' \<and> retry_kind frozen_policy t st' = Inr (Pending (re_attempt e) Prepared))"
    unfolding model_retry_state_Inr p by (auto simp: t)
  also have "\<dots> \<longleftrightarrow> re_attempt e = int (length (rp_attempts st)) \<and> check_prior st e = Inr () \<and>
      assert_eligible frozen_policy st (re_timestamp e) = Inr ()"
    unfolding replay_of_snoc [OF st] replay_prepared [OF inv assms(3,2)] using pend by auto
  also have "\<dots> \<longleftrightarrow> mrs_kind s = Ready (re_attempt e)"
    unfolding retry_kind_Ready_iff [OF inv assms(3) t, symmetric] k by simp
  finally show ?thesis .
qed

definition sample_entry :: "int \<Rightarrow> int \<Rightarrow> invocation_phase \<Rightarrow> string \<Rightarrow> retry_entry" where
  "sample_entry n a ph t =
     \<lparr>re_seq = n, re_runId = ''run'', re_opId = ''op'', re_opKind = Op_model, re_attempt = a, re_phase = ph,
      re_target = ''model'', re_requestRef = ''req'', re_replayClass = Replay_retry, re_resultRef = None,
      re_errorRef = Some ''e'', re_evidenceRef = Some ''v'', re_budgetSettlementRef = Some ''b'', re_timestamp = t\<rparr>"

lemma pad_numeral: "pad (numeral k) n = pad (pred_numeral k) (n div 10) @ [digit_char n]"
  unfolding numeral_eq_Suc [of k] by (rule pad.simps)

lemma sample_times:
  "time_of ''1970-01-01T00:00:00.000Z'' = Inr 0" "time_of ''1970-01-01T00:00:00.010Z'' = Inr 10"
  "time_of ''1970-01-01T00:00:00.510Z'' = Inr 510"
proof -
  have y: "year_from 1970 0 = (1970, 0)" by (subst year_from.simps) (simp add: year_days_def)
  have m: "month_from 1970 1 0 = (1, 0)" by (subst month_from.simps) (simp add: month_days_def)
  have c: "civil_of_days 0 = (1970, 1, 1)" by (simp add: civil_of_days_def y m [simplified])
  show "time_of ''1970-01-01T00:00:00.000Z'' = Inr 0" "time_of ''1970-01-01T00:00:00.010Z'' = Inr 10"
    "time_of ''1970-01-01T00:00:00.510Z'' = Inr 510"
    unfolding time_of_def map_error_Inr parse_iff_encode
    by (simp_all add: encode_canonical_time_def max_safe_integer_def max_date_def c to_iso_string_def
        digit_char_def pad_numeral)
qed

definition sample_history :: "retry_entry list" where
  "sample_history =
     [sample_entry 1 0 Prepared ''1970-01-01T00:00:00.000Z'', sample_entry 2 0 Dispatch_claimed ''1970-01-01T00:00:00.000Z'',
      sample_entry 3 0 Failed ''1970-01-01T00:00:00.010Z'']"

lemma sample_state:
  "model_retry_state frozen_policy sample_history ''1970-01-01T00:00:00.510Z'' =
     Inr \<lparr>mrs_kind = Ready 1, mrs_dispatchedAttempts = 1\<rparr>"
  by (simp add: model_retry_state_def frozen_policy_def sample_times replay_of_def sample_history_def
      sample_entry_def replay_entry_def check_order_def initial_replay_def check_prior_def last_entry_def
      assert_eligible_def ready_at_def too_early_def attempt_of_def at_def push_entry_def settlement_ok_def
      truthy_def delay_at_def retry_kind_def)

theorem prepare_iff_ready_witness:
  "\<exists>d. model_retry_state frozen_policy
         (sample_history @ [sample_entry 4 1 Prepared ''1970-01-01T00:00:00.510Z'']) ''1970-01-01T00:00:00.510Z''
       = Inr \<lparr>mrs_kind = Pending 1 Prepared, mrs_dispatchedAttempts = d\<rparr>"
proof -
  let ?e = "sample_entry 4 1 Prepared ''1970-01-01T00:00:00.510Z''"
  have s: "model_retry_state frozen_policy sample_history (re_timestamp ?e) =
      Inr \<lparr>mrs_kind = Ready 1, mrs_dispatchedAttempts = 1\<rparr>"
    unfolding sample_entry_def by (simp add: sample_state)
  have f: "follows sample_history ?e"
    by (simp add: follows_def sample_history_def sample_entry_def sample_times)
  have "re_phase ?e = Prepared" by (simp add: sample_entry_def)
  from prepare_iff_ready [OF s this f] show ?thesis by (simp add: sample_entry_def)
qed

theorem dispatch_ceiling_witness: "claims sample_history \<le> 3"
proof -
  from dispatch_ceiling [OF sample_state] show ?thesis by blast
qed

end
