(* ===== verification/Strict_Json.thy ===== *)
theory Strict_Json
  imports Prelude "HOL-Library.Word"
begin

text \<open>
  The strict JSON parser of \<open>src/kernel/json.ts\<close> over full JavaScript strings: lists of 16-bit code units.
  The offset is represented by the rest of the source.  A number is kept as its token, the decimal whose
  nearest double \<open>Number\<close> returns; whether that double is finite is decided exactly.  An object lists its
  members in source order.

  The recursion of \<open>parseValue\<close> carries fuel: \<open>2 * length + 1\<close> levels suffice for any source, and running
  out is an error value of its own that is shown never to occur.
\<close>

section \<open>Code units\<close>

type_synonym units = "16 word list"

definition unit_of :: "char \<Rightarrow> 16 word" where
  "unit_of c = of_nat (of_char c)"

definition lit :: "string \<Rightarrow> units" where
  "lit s = map unit_of s"

definition json_space :: "16 word \<Rightarrow> bool" where
  "json_space u = (u = 32 \<or> u = 9 \<or> u = 10 \<or> u = 13)"

definition unit_digit :: "16 word \<Rightarrow> bool" where
  "unit_digit u = (48 \<le> u \<and> u \<le> 57)"

definition skip_whitespace :: "units \<Rightarrow> units" where
  "skip_whitespace s = dropWhile json_space s"

text \<open>\<open>Buffer.byteLength(s, 'utf8')\<close>; an unpaired surrogate is encoded as U+FFFD.\<close>

fun utf8_length :: "units \<Rightarrow> nat" where
  "utf8_length [] = 0"
| "utf8_length (u # s) =
     (if u < 0x80 then 1 + utf8_length s
      else if u < 0x800 then 2 + utf8_length s
      else if 0xD800 \<le> u \<and> u \<le> 0xDBFF \<and> (case s of [] \<Rightarrow> False | v # _ \<Rightarrow> 0xDC00 \<le> v \<and> v \<le> 0xDFFF)
        then 4 + utf8_length (drop 1 s)
      else 3 + utf8_length s)"

section \<open>Values and errors\<close>

datatype jval =
    Null | Boolean bool | Number_token units | Text units
  | Elements "jval list" | Members "(units \<times> jval) list"

datatype json_fault =
    Trailing_content | Nesting_exceeded | Expected_value | Expected_literal units | Invalid_string
  | Control_character | Unterminated_string | Invalid_number | Invalid_after_number | Not_finite
  | Expected_comma_or_bracket | Trailing_comma | Expected_key | Duplicate_key units | Expected_colon
  | Expected_comma_or_brace | Too_many_entries | Out_of_fuel

text \<open>A fault with the part of the source it points at; \<open>fail\<close> reports the byte offset of that point.\<close>

type_synonym fault_at = "json_fault \<times> units"

definition max_json_depth :: nat where "max_json_depth = 32"

definition max_json_container_entries :: nat where "max_json_container_entries = 10000"

section \<open>Literals, strings and numbers\<close>

definition parse_literal :: "units \<Rightarrow> jval \<Rightarrow> units \<Rightarrow> (fault_at, jval \<times> units) result" where
  "parse_literal literal v s =
     (if take (length literal) s \<noteq> literal then Inl (Expected_literal literal, s)
      else Inr (v, drop (length literal) s))"

text \<open>The scan for the closing quote: the source after it, or the fault.\<close>

fun scan_string :: "bool \<Rightarrow> units \<Rightarrow> (json_fault \<times> units option, units) result" where
  "scan_string escaped [] = Inl (Unterminated_string, None)"
| "scan_string escaped (u # s) =
     (if escaped then scan_string False s
      else if u = 0x5C then scan_string True s
      else if u = 0x22 then Inr s
      else if u \<le> 0x1F then Inl (Control_character, Some (u # s))
      else scan_string False s)"

definition hex_value :: "16 word \<Rightarrow> 16 word option" where
  "hex_value u =
     (if 48 \<le> u \<and> u \<le> 57 then Some (u - 48)
      else if 97 \<le> u \<and> u \<le> 102 then Some (u - 87)
      else if 65 \<le> u \<and> u \<le> 70 then Some (u - 55)
      else None)"

definition short_escape :: "16 word \<Rightarrow> 16 word option" where
  "short_escape u =
     (if u = 0x22 \<or> u = 0x5C \<or> u = 0x2F then Some u
      else if u = 98 then Some 8
      else if u = 102 then Some 12
      else if u = 110 then Some 10
      else if u = 114 then Some 13
      else if u = 116 then Some 9
      else None)"

definition hex_unit :: "units \<Rightarrow> 16 word option" where
  "hex_unit s =
     (case map hex_value s of
        [Some a, Some b, Some c, Some d] \<Rightarrow> Some (a * 4096 + b * 256 + c * 16 + d)
      | _ \<Rightarrow> None)"

text \<open>\<open>JSON.parse\<close> of the token between its quotes.\<close>

function decode_string :: "units \<Rightarrow> units option" where
  "decode_string [] = Some []"
| "decode_string (u # s) =
     (if u = 0x5C then
        (case s of
           [] \<Rightarrow> None
         | e # r \<Rightarrow>
             (case short_escape e of
                Some v \<Rightarrow> map_option (Cons v) (decode_string r)
              | None \<Rightarrow>
                  (if e = 117 then
                     (case hex_unit (take 4 r) of
                        None \<Rightarrow> None
                      | Some v \<Rightarrow> map_option (Cons v) (decode_string (drop 4 r)))
                   else None)))
      else if u \<le> 0x1F \<or> u = 0x22 then None
      else map_option (Cons u) (decode_string s))"
  by pat_completeness auto
termination by (relation "measure length") auto

text \<open>\<open>s\<close> starts with the opening quote.\<close>

definition parse_string :: "units \<Rightarrow> (fault_at, units \<times> units) result" where
  "parse_string s =
     (case scan_string False (drop 1 s) of
        Inl (f, p) \<Rightarrow> Inl (f, case p of None \<Rightarrow> s | Some t \<Rightarrow> t)
      | Inr rest \<Rightarrow>
          (case decode_string (take (length s - length rest - 2) (drop 1 s)) of
             None \<Rightarrow> Inl (Invalid_string, s)
           | Some t \<Rightarrow> Inr (t, rest)))"

text \<open>\<open>NUMBER_PREFIX\<close>: the longest match, by its parts.\<close>

definition take_digits :: "units \<Rightarrow> units \<times> units" where
  "take_digits s = (takeWhile unit_digit s, dropWhile unit_digit s)"

definition int_part :: "units \<Rightarrow> (units \<times> units) option" where
  "int_part s =
     (case s of
        [] \<Rightarrow> None
      | u # r \<Rightarrow> if u = 48 then Some ([u], r) else if unit_digit u then Some (take_digits s) else None)"

definition fraction_part :: "units \<Rightarrow> units \<times> units" where
  "fraction_part s =
     (case s of
        [] \<Rightarrow> ([], s)
      | u # r \<Rightarrow> if u = 46 \<and> fst (take_digits r) \<noteq> [] then (u # fst (take_digits r), snd (take_digits r)) else ([], s))"

definition exponent_part :: "units \<Rightarrow> units \<times> units" where
  "exponent_part s =
     (case s of
        [] \<Rightarrow> ([], s)
      | u # r \<Rightarrow>
          (let sign = (case r of [] \<Rightarrow> [] | v # _ \<Rightarrow> if v = 43 \<or> v = 45 then [v] else []);
               ds = take_digits (drop (length sign) r)
           in if (u = 101 \<or> u = 69) \<and> fst ds \<noteq> [] then (u # sign @ fst ds, snd ds) else ([], s)))"

definition number_prefix :: "units \<Rightarrow> (units \<times> units) option" where
  "number_prefix s =
     (let sign = (case s of [] \<Rightarrow> [] | v # _ \<Rightarrow> if v = 45 then [v] else []) in
      case int_part (drop (length sign) s) of
        None \<Rightarrow> None
      | Some (i, r) \<Rightarrow>
          (case fraction_part r of
             (f, r') \<Rightarrow> (case exponent_part r' of (e, r'') \<Rightarrow> Some (sign @ i @ f @ e, r''))))"

text \<open>The magnitude of a token is \<open>mantissa * 10 ^ exponent\<close>; it rounds to infinity from \<open>2 ^ 1024 - 2 ^ 970\<close>
on.\<close>

definition digits_value :: "units \<Rightarrow> nat" where
  "digits_value ds = foldl (\<lambda>n u. 10 * n + (unat u - 48)) 0 ds"

definition token_mantissa :: "units \<Rightarrow> nat" where
  "token_mantissa token = digits_value (filter unit_digit (takeWhile (\<lambda>u. u \<noteq> 101 \<and> u \<noteq> 69) token))"

definition token_exponent :: "units \<Rightarrow> int" where
  "token_exponent token =
     (let m = takeWhile (\<lambda>u. u \<noteq> 101 \<and> u \<noteq> 69) token;
          e = drop (length m + 1) token;
          v = int (digits_value (filter unit_digit e));
          places = int (length (drop 1 (dropWhile (\<lambda>u. u \<noteq> 46) m)))
      in (if 45 \<in> set e then - v else v) - places)"

definition finite_token :: "units \<Rightarrow> bool" where
  "finite_token token =
     (let m = token_mantissa token; e = token_exponent token; limit = 2 ^ 1024 - 2 ^ 970 in
      if e \<ge> 0 then m * 10 ^ nat e < limit else m < limit * 10 ^ nat (- e))"

definition parse_number :: "units \<Rightarrow> (fault_at, jval \<times> units) result" where
  "parse_number s =
     (case number_prefix s of
        None \<Rightarrow> Inl (Invalid_number, s)
      | Some (token, rest) \<Rightarrow>
          (if (case rest of [] \<Rightarrow> False | u # _ \<Rightarrow> \<not> json_space u \<and> u \<noteq> 44 \<and> u \<noteq> 93 \<and> u \<noteq> 125)
           then Inl (Invalid_after_number, rest)
           else if \<not> finite_token token then Inl (Not_finite, s)
           else Inr (Number_token token, rest)))"

section \<open>Values\<close>

text \<open>The values that are no container; the value branches of \<open>parseValue\<close>.\<close>

definition parse_scalar :: "units \<Rightarrow> (fault_at, jval \<times> units) result" where
  "parse_scalar s =
     (case s of
        [] \<Rightarrow> Inl (Expected_value, s)
      | u # r \<Rightarrow>
          (if u = 34 then and_then (parse_string s) (\<lambda>(t, rest). Inr (Text t, rest))
           else if u = 116 then parse_literal (lit ''true'') (Boolean True) s
           else if u = 102 then parse_literal (lit ''false'') (Boolean False) s
           else if u = 110 then parse_literal (lit ''null'') Null s
           else if u = 45 \<or> unit_digit u then parse_number s
           else Inl (Expected_value, s)))"

text \<open>After an element: the closing unit ends the container (\<open>True\<close>), a comma leads to the next element.\<close>

definition after_element :: "16 word \<Rightarrow> json_fault \<Rightarrow> units \<Rightarrow> (fault_at, bool \<times> units) result" where
  "after_element close fault rest =
     (let t = skip_whitespace rest; next = skip_whitespace (drop 1 t) in
      if take 1 t = [close] then Inr (True, drop 1 t)
      else if take 1 t \<noteq> [44] then Inl (fault, t)
      else if take 1 next = [close] then Inl (Trailing_comma, next)
      else Inr (False, next))"

text \<open>An object key up to its value: the key, whether it is new, the entry count and the colon.\<close>

definition parse_key :: "units list \<Rightarrow> units \<Rightarrow> nat \<Rightarrow> (fault_at, units \<times> units) result" where
  "parse_key keys s n =
     (if take 1 s \<noteq> [34] then Inl (Expected_key, s)
      else and_then (parse_string s) (\<lambda>(key, rest).
        (let t = skip_whitespace rest in
         if key \<in> set keys then Inl (Duplicate_key key, s)
         else if n + 1 > max_json_container_entries then Inl (Too_many_entries, rest)
         else if take 1 t \<noteq> [58] then Inl (Expected_colon, t)
         else Inr (key, skip_whitespace (drop 1 t)))))"

definition opens_with :: "16 word \<Rightarrow> units \<Rightarrow> bool" where
  "opens_with u s = (take 1 s = [u])"

text \<open>\<open>n\<close> counts the container entries of the whole document.  The loops take the values read so far.\<close>

function parse_value :: "nat \<Rightarrow> nat \<Rightarrow> units \<Rightarrow> nat \<Rightarrow> (fault_at, jval \<times> units \<times> nat) result"
  and parse_array :: "nat \<Rightarrow> nat \<Rightarrow> jval list \<Rightarrow> units \<Rightarrow> nat \<Rightarrow> (fault_at, jval \<times> units \<times> nat) result"
  and parse_object :: "nat \<Rightarrow> nat \<Rightarrow> (units \<times> jval) list \<Rightarrow> units \<Rightarrow> nat \<Rightarrow> (fault_at, jval \<times> units \<times> nat) result"
where
  "parse_value 0 depth s n = Inl (Out_of_fuel, s)"
| "parse_value (Suc fuel) depth s n =
     (if (opens_with 123 s \<or> opens_with 91 s) \<and> depth \<ge> max_json_depth then Inl (Nesting_exceeded, s)
      else if opens_with 123 s then
        (if opens_with 125 (skip_whitespace (drop 1 s)) then Inr (Members [], drop 1 (skip_whitespace (drop 1 s)), n)
         else parse_object fuel (depth + 1) [] (skip_whitespace (drop 1 s)) n)
      else if opens_with 91 s then
        (if opens_with 93 (skip_whitespace (drop 1 s)) then Inr (Elements [], drop 1 (skip_whitespace (drop 1 s)), n)
         else parse_array fuel (depth + 1) [] (skip_whitespace (drop 1 s)) n)
      else and_then (parse_scalar s) (\<lambda>(v, rest). Inr (v, rest, n)))"
| "parse_array 0 depth values s n = Inl (Out_of_fuel, s)"
| "parse_array (Suc fuel) depth values s n =
     (if n + 1 > max_json_container_entries then Inl (Too_many_entries, s)
      else (case parse_value fuel depth s (n + 1) of
          Inl f \<Rightarrow> Inl f
        | Inr (v, rest, n') \<Rightarrow>
            (case after_element 93 Expected_comma_or_bracket rest of
               Inl f \<Rightarrow> Inl f
             | Inr (closed, rest') \<Rightarrow>
                 if closed then Inr (Elements (values @ [v]), rest', n')
                 else parse_array fuel depth (values @ [v]) rest' n')))"
| "parse_object 0 depth members s n = Inl (Out_of_fuel, s)"
| "parse_object (Suc fuel) depth members s n =
     (case parse_key (map fst members) s n of
        Inl f \<Rightarrow> Inl f
      | Inr (key, rest) \<Rightarrow>
          (case parse_value fuel depth rest (n + 1) of
             Inl f \<Rightarrow> Inl f
           | Inr (v, rest', n') \<Rightarrow>
               (case after_element 125 Expected_comma_or_brace rest' of
                  Inl f \<Rightarrow> Inl f
                | Inr (closed, rest'') \<Rightarrow>
                    if closed then Inr (Members (members @ [(key, v)]), rest'', n')
                    else parse_object fuel depth (members @ [(key, v)]) rest'' n')))"
  by pat_completeness auto
termination
  by (relation "measure (case_sum fst (case_sum fst fst))") auto

definition parse_source :: "units \<Rightarrow> (fault_at, jval) result" where
  "parse_source source =
     and_then (parse_value (2 * length source + 1) 0 (skip_whitespace source) 0) (\<lambda>(v, rest, n).
       if skip_whitespace rest \<noteq> [] then Inl (Trailing_content, skip_whitespace rest) else Inr v)"

definition parse_json_strict :: "units \<Rightarrow> (json_fault \<times> nat, jval) result" where
  "parse_json_strict source =
     map_error (\<lambda>(f, at_rest). (f, utf8_length (take (length source - length at_rest) source))) (parse_source source)"

section \<open>Every step consumes input\<close>

lemma skip_whitespace_length: "length (skip_whitespace s) \<le> length s"
  by (simp add: skip_whitespace_def length_dropWhile_le)

lemma scan_string_length: "scan_string e s = Inr rest \<Longrightarrow> length rest < length s"
  by (induction e s rule: scan_string.induct) (auto split: if_splits)

lemma parse_string_length: "parse_string s = Inr (t, rest) \<Longrightarrow> length rest < length s"
  by (auto simp: parse_string_def split: sum.splits option.splits dest!: scan_string_length)

lemma parse_literal_length: "parse_literal l v s = Inr (w, rest) \<Longrightarrow> l \<noteq> [] \<Longrightarrow> length rest < length s"
  by (cases s; cases l) (auto simp: parse_literal_def split: if_splits)

lemma take_digits_length: "length (snd (take_digits s)) \<le> length s"
  by (simp add: take_digits_def length_dropWhile_le)

lemma int_part_length: "int_part s = Some (i, r) \<Longrightarrow> length r < length s"
proof (cases s)
  case (Cons u t)
  assume "int_part s = Some (i, r)"
  with Cons show ?thesis
    using length_dropWhile_le [of unit_digit t]
    by (auto simp: int_part_def take_digits_def split: if_splits)
qed (simp add: int_part_def)

lemma fraction_part_length: "length (snd (fraction_part s)) \<le> length s"
  using take_digits_length [of "tl s"] by (cases s) (auto simp: fraction_part_def)

lemma exponent_part_length: "length (snd (exponent_part s)) \<le> length s"
proof (cases s)
  case (Cons u r)
  have "length (snd (take_digits (drop k r))) \<le> length r" for k
    using take_digits_length [of "drop k r"] by simp
  with Cons show ?thesis by (auto simp: exponent_part_def Let_def intro: le_SucI)
qed (simp add: exponent_part_def)

lemma number_prefix_length:
  assumes "number_prefix s = Some (token, rest)"
  shows "length rest < length s"
proof -
  from assms obtain k i r where i: "int_part (drop k s) = Some (i, r)"
    and rest: "rest = snd (exponent_part (snd (fraction_part r)))"
    by (auto simp: number_prefix_def Let_def split: option.splits prod.splits)
  from int_part_length [OF i] have "length r < length s" by simp
  moreover have "length rest \<le> length r"
    unfolding rest using exponent_part_length fraction_part_length le_trans by blast
  ultimately show ?thesis by simp
qed

lemma parse_number_length: "parse_number s = Inr (v, rest) \<Longrightarrow> length rest < length s"
  by (auto simp: parse_number_def split: option.splits if_splits dest: number_prefix_length)

lemma lit_nonempty: "c \<noteq> [] \<Longrightarrow> lit c \<noteq> []"
  by (simp add: lit_def)

lemma parse_scalar_length: "parse_scalar s = Inr (v, rest) \<Longrightarrow> length rest < length s"
  by (cases s)
     (auto simp: parse_scalar_def and_then_Inr split: if_splits
       dest: parse_string_length parse_number_length parse_literal_length [OF _ lit_nonempty])

lemma after_element_length:
  "after_element c f rest = Inr (b, rest') \<Longrightarrow> length rest' < length rest"
proof -
  assume a: "after_element c f rest = Inr (b, rest')"
  let ?t = "skip_whitespace rest"
  from a have ne: "?t \<noteq> []" by (auto simp: after_element_def Let_def split: if_splits)
  from a have "rest' = drop 1 ?t \<or> rest' = skip_whitespace (drop 1 ?t)"
    by (auto simp: after_element_def Let_def split: if_splits)
  then have "length rest' \<le> length (drop 1 ?t)" using skip_whitespace_length [of "drop 1 ?t"] by auto
  with ne skip_whitespace_length [of rest] show ?thesis by (cases ?t) auto
qed

lemma parse_key_length: "parse_key keys s n = Inr (key, rest) \<Longrightarrow> length rest < length s"
proof -
  assume a: "parse_key keys s n = Inr (key, rest)"
  then obtain r where r: "parse_string s = Inr (key, r)" "rest = skip_whitespace (drop 1 (skip_whitespace r))"
    by (auto simp: parse_key_def and_then_Inr Let_def split: if_splits)
  from r(2) skip_whitespace_length [of "drop 1 (skip_whitespace r)"] skip_whitespace_length [of r]
  have "length rest \<le> length r" by simp
  with parse_string_length [OF r(1)] show ?thesis by simp
qed

lemma opens_with_nonempty: "opens_with u s \<Longrightarrow> s \<noteq> []"
  by (auto simp: opens_with_def)

lemma drop_ws_length: "s \<noteq> [] \<Longrightarrow> length (skip_whitespace (drop 1 s)) < length s"
  using skip_whitespace_length [of "drop 1 s"] by (cases s) auto

lemma parse_value_length:
  "parse_value fuel depth s n = Inr (v, rest, n') \<Longrightarrow> length rest < length s"
  "parse_array fuel depth vs s n = Inr (v, rest, n') \<Longrightarrow> length rest < length s"
  "parse_object fuel depth ms s n = Inr (v, rest, n') \<Longrightarrow> length rest < length s"
proof (induction fuel depth s n and fuel depth vs s n and fuel depth ms s n
    arbitrary: v rest n' and v rest n' and v rest n' rule: parse_value_parse_array_parse_object.induct)
  case (2 fuel depth s n)
  show ?case
  proof (cases "s = []")
    case True
    with "2.prems" show ?thesis by (simp add: opens_with_def parse_scalar_def)
  next
    case False
    note d = drop_ws_length [OF False]
    from "2.prems" "2.IH" d show ?thesis
      by (auto simp: and_then_Inr dest: parse_scalar_length split: if_split_asm)
  qed
next
  case (4 fuel depth vs s n)
  from "4.prems" obtain w r m b r' where w: "parse_value fuel depth s (n + 1) = Inr (w, r, m)"
    "after_element 93 Expected_comma_or_bracket r = Inr (b, r')"
    and e: "if b then v = Elements (vs @ [w]) \<and> rest = r' \<and> n' = m
            else parse_array fuel depth (vs @ [w]) r' m = Inr (v, rest, n')"
    and g: "\<not> n + 1 > max_json_container_entries"
    by (auto split: if_split_asm sum.splits prod.splits)
  from "4.IH"(1) [OF g w(1)] after_element_length [OF w(2)] have "length r' < length s" by simp
  with e "4.IH"(2) [OF g w(1) refl refl w(2) refl] show ?case by (cases b) fastforce+
next
  case (6 fuel depth ms s n)
  from "6.prems" obtain key q w r m b r' where k: "parse_key (map fst ms) s n = Inr (key, q)"
    and w: "parse_value fuel depth q (n + 1) = Inr (w, r, m)"
    "after_element 125 Expected_comma_or_brace r = Inr (b, r')"
    and e: "if b then v = Members (ms @ [(key, w)]) \<and> rest = r' \<and> n' = m
            else parse_object fuel depth (ms @ [(key, w)]) r' m = Inr (v, rest, n')"
    by (auto split: if_split_asm sum.splits prod.splits)
  from parse_key_length [OF k] "6.IH"(1) [OF k refl w(1)] after_element_length [OF w(2)]
  have "length r' < length s" by simp
  with e "6.IH"(2) [OF k refl w(1) refl refl w(2) refl] show ?case by (cases b) fastforce+
qed auto

section \<open>The fuel suffices\<close>

definition fueled :: "(fault_at, 'a) result \<Rightarrow> bool" where
  "fueled r \<longleftrightarrow> (\<forall>p. r \<noteq> Inl (Out_of_fuel, p))"

lemma fueled_simps [simp]:
  "fueled (Inr x)" "fueled (Inl (f, p)) \<longleftrightarrow> f \<noteq> Out_of_fuel"
  by (auto simp: fueled_def)

lemma scan_string_fueled: "scan_string e s = Inl (f, p) \<Longrightarrow> f \<noteq> Out_of_fuel"
  by (induction e s rule: scan_string.induct) (auto split: if_splits)

lemma parse_string_fueled: "fueled (parse_string s)"
  by (auto simp: parse_string_def split: sum.split option.split dest: scan_string_fueled)

lemma parse_scalar_fueled: "fueled (parse_scalar s)"
proof -
  have l: "fueled (parse_literal l v t)" for l v t by (simp add: parse_literal_def)
  have n: "fueled (parse_number t)" for t by (auto simp: parse_number_def split: option.split)
  have t: "fueled (and_then (parse_string t) (\<lambda>(t, rest). Inr (Text t, rest)))" for t
    using parse_string_fueled [of t] by (cases "parse_string t") auto
  show ?thesis by (cases s) (simp_all add: parse_scalar_def l n t)
qed

lemma after_element_fueled: "f \<noteq> Out_of_fuel \<Longrightarrow> fueled (after_element c f s)"
  by (simp add: after_element_def Let_def)

lemma parse_key_fueled: "fueled (parse_key keys s n)"
  using parse_string_fueled [of s]
  by (cases "parse_string s") (auto simp: parse_key_def Let_def)

lemma parse_value_fueled:
  "2 * length s + 1 \<le> fuel \<Longrightarrow> fueled (parse_value fuel depth s n)"
  "2 * length s + 2 \<le> fuel \<Longrightarrow> fueled (parse_array fuel depth vs s n)"
  "2 * length s + 2 \<le> fuel \<Longrightarrow> fueled (parse_object fuel depth ms s n)"
proof (induction fuel depth s n and fuel depth vs s n and fuel depth ms s n
    rule: parse_value_parse_array_parse_object.induct)
  case (2 fuel depth s n)
  show ?case
  proof (cases "s = []")
    case True
    then show ?thesis by (simp add: opens_with_def parse_scalar_def)
  next
    case False
    from drop_ws_length [OF False] "2.prems" have f: "2 * length (skip_whitespace (drop 1 s)) + 2 \<le> fuel" by simp
    have "fueled (and_then (parse_scalar s) (\<lambda>(v, rest). Inr (v, rest, n)))"
      using parse_scalar_fueled [of s] by (cases "parse_scalar s") auto
    with "2.IH"(1) [OF _ _ _ f] "2.IH"(2) [OF _ _ _ _ f] show ?thesis by simp
  qed
next
  case (4 fuel depth vs s n)
  show ?case
  proof (cases "parse_value fuel depth s (n + 1)")
    case (Inl e)
    with 4 show ?thesis by (cases e) auto
  next
    case (Inr x)
    obtain w r m where x: "parse_value fuel depth s (n + 1) = Inr (w, r, m)" using Inr by (cases x) auto
    show ?thesis
    proof (cases "after_element 93 Expected_comma_or_bracket r")
      case (Inl e)
      with x after_element_fueled [of Expected_comma_or_bracket 93 r] show ?thesis by (cases e) auto
    next
      case (Inr y)
      then obtain b r' where y: "after_element 93 Expected_comma_or_bracket r = Inr (b, r')" by (cases y) auto
      from parse_value_length(1) [OF x] after_element_length [OF y] "4.prems" have "2 * length r' + 2 \<le> fuel" by simp
      with "4.IH"(2) [OF _ x refl refl y refl] x y show ?thesis by auto
    qed
  qed
next
  case (6 fuel depth ms s n)
  show ?case
  proof (cases "parse_key (map fst ms) s n")
    case (Inl e)
    with parse_key_fueled [of "map fst ms" s n] show ?thesis by (cases e) auto
  next
    case (Inr k)
    then obtain key q where k: "parse_key (map fst ms) s n = Inr (key, q)" by (cases k) auto
    from parse_key_length [OF k] "6.prems" have q: "2 * length q + 1 \<le> fuel" by simp
    show ?thesis
    proof (cases "parse_value fuel depth q (n + 1)")
      case (Inl e)
      with "6.IH"(1) [OF k refl q] k show ?thesis by (cases e) auto
    next
      case (Inr x)
      obtain w r m where x: "parse_value fuel depth q (n + 1) = Inr (w, r, m)" using Inr by (cases x) auto
      show ?thesis
      proof (cases "after_element 125 Expected_comma_or_brace r")
        case (Inl e)
        with k x after_element_fueled [of Expected_comma_or_brace 125 r] show ?thesis by (cases e) auto
      next
        case (Inr y)
        then obtain b r' where y: "after_element 125 Expected_comma_or_brace r = Inr (b, r')" by (cases y) auto
        from parse_value_length(1) [OF x] after_element_length [OF y] parse_key_length [OF k] "6.prems"
        have "2 * length r' + 2 \<le> fuel" by simp
        with "6.IH"(2) [OF k refl x refl refl y refl] k x y show ?thesis by auto
      qed
    qed
  qed
qed auto

lemma parse_source_fueled: "fueled (parse_source source)"
proof -
  have "fueled (parse_value (2 * length source + 1) 0 (skip_whitespace source) 0)"
    by (rule parse_value_fueled(1)) (simp add: skip_whitespace_length)
  then show ?thesis
    by (cases "parse_value (2 * length source + 1) 0 (skip_whitespace source) 0") (auto simp: parse_source_def)
qed

text \<open>C40. The parser always returns: a value or one of its own faults, at an offset of the source; the fuel of the
model never runs out.\<close>

theorem strict_parser_total:
  "(\<exists>v. parse_json_strict source = Inr v) \<or>
   (\<exists>f k. parse_json_strict source = Inl (f, k) \<and> f \<noteq> Out_of_fuel)"
  using parse_source_fueled [of source]
  by (cases "parse_source source") (auto simp: parse_json_strict_def map_error_def)

section \<open>Bounds of a parsed value\<close>

text \<open>\<open>nested_within d v\<close>: at most \<open>d\<close> containers are nested in \<open>v\<close>.\<close>

fun nested_within :: "nat \<Rightarrow> jval \<Rightarrow> bool" where
  "nested_within d (Elements vs) = (0 < d \<and> (\<forall>v\<in>set vs. nested_within (d - 1) v))"
| "nested_within d (Members ms) = (0 < d \<and> (\<forall>m\<in>set ms. nested_within (d - 1) (snd m)))"
| "nested_within d v = True"

fun container_entries :: "jval \<Rightarrow> nat" where
  "container_entries (Elements vs) = length vs + sum_list (map container_entries vs)"
| "container_entries (Members ms) = length ms + sum_list (map (\<lambda>m. container_entries (snd m)) ms)"
| "container_entries v = 0"

fun distinct_keys :: "jval \<Rightarrow> bool" where
  "distinct_keys (Elements vs) = (\<forall>v\<in>set vs. distinct_keys v)"
| "distinct_keys (Members ms) = (distinct (map fst ms) \<and> (\<forall>m\<in>set ms. distinct_keys (snd m)))"
| "distinct_keys v = True"

fun finite_numbers :: "jval \<Rightarrow> bool" where
  "finite_numbers (Number_token t) = finite_token t"
| "finite_numbers (Elements vs) = (\<forall>v\<in>set vs. finite_numbers v)"
| "finite_numbers (Members ms) = (\<forall>m\<in>set ms. finite_numbers (snd m))"
| "finite_numbers v = True"

definition bounded_value :: "nat \<Rightarrow> jval \<Rightarrow> bool" where
  "bounded_value depth v \<longleftrightarrow> nested_within (max_json_depth - depth) v \<and> distinct_keys v \<and> finite_numbers v"

lemma parse_scalar_bounded: "parse_scalar s = Inr (v, rest) \<Longrightarrow> bounded_value d v \<and> container_entries v = 0"
  by (auto simp: parse_scalar_def parse_literal_def parse_number_def bounded_value_def and_then_Inr
      split: list.splits if_splits option.splits)

lemma parse_key_new: "parse_key keys s n = Inr (key, rest) \<Longrightarrow> key \<notin> set keys \<and> n + 1 \<le> max_json_container_entries"
  by (auto simp: parse_key_def and_then_Inr Let_def split: if_splits)

definition elements_ok :: "nat \<Rightarrow> jval list \<Rightarrow> nat \<Rightarrow> jval \<Rightarrow> nat \<Rightarrow> bool" where
  "elements_ok depth vs n v n' \<longleftrightarrow>
     (\<exists>ws. v = Elements (vs @ ws) \<and> n' = n + container_entries (Elements ws) \<and> (\<forall>w\<in>set ws. bounded_value depth w))"

definition members_ok :: "nat \<Rightarrow> (units \<times> jval) list \<Rightarrow> nat \<Rightarrow> jval \<Rightarrow> nat \<Rightarrow> bool" where
  "members_ok depth ms n v n' \<longleftrightarrow>
     (\<exists>ws. v = Members (ms @ ws) \<and> n' = n + container_entries (Members ws) \<and>
        (\<forall>w\<in>set ws. bounded_value depth (snd w)) \<and> (distinct (map fst ms) \<longrightarrow> distinct (map fst (ms @ ws))))"

lemma elements_bounded:
  "elements_ok (Suc depth) [] n v n' \<Longrightarrow> depth < max_json_depth \<Longrightarrow>
   bounded_value depth v \<and> n' = n + container_entries v"
  by (auto simp: elements_ok_def bounded_value_def)

lemma members_bounded:
  "members_ok (Suc depth) [] n v n' \<Longrightarrow> depth < max_json_depth \<Longrightarrow>
   bounded_value depth v \<and> n' = n + container_entries v"
  by (auto simp: members_ok_def bounded_value_def)

lemma elements_step:
  "elements_ok depth (vs @ [w]) m v n' \<Longrightarrow> bounded_value depth w \<Longrightarrow> m = n + 1 + container_entries w \<Longrightarrow>
   elements_ok depth vs n v n'"
  unfolding elements_ok_def by (elim exE, rule_tac x = "w # ws" in exI) auto

lemma members_step:
  "members_ok depth (ms @ [(key, w)]) m v n' \<Longrightarrow> bounded_value depth w \<Longrightarrow> m = n + 1 + container_entries w \<Longrightarrow>
   key \<notin> set (map fst ms) \<Longrightarrow> members_ok depth ms n v n'"
  unfolding members_ok_def by (elim exE, rule_tac x = "(key, w) # ws" in exI) auto

lemma parse_value_bounded:
  "parse_value fuel depth s n = Inr (v, rest, n') \<Longrightarrow> n \<le> max_json_container_entries \<Longrightarrow>
   bounded_value depth v \<and> n' = n + container_entries v \<and> n' \<le> max_json_container_entries"
  "parse_array fuel depth vs s n = Inr (v, rest, n') \<Longrightarrow> n \<le> max_json_container_entries \<Longrightarrow>
   elements_ok depth vs n v n' \<and> n' \<le> max_json_container_entries"
  "parse_object fuel depth ms s n = Inr (v, rest, n') \<Longrightarrow> n \<le> max_json_container_entries \<Longrightarrow>
   members_ok depth ms n v n' \<and> n' \<le> max_json_container_entries"
proof (induction fuel depth s n and fuel depth vs s n and fuel depth ms s n
    arbitrary: v rest n' and v rest n' and v rest n' rule: parse_value_parse_array_parse_object.induct)
  case (2 fuel depth s n)
  consider (object) "opens_with 123 s" "\<not> ((opens_with 123 s \<or> opens_with 91 s) \<and> depth \<ge> max_json_depth)"
    | (array) "\<not> opens_with 123 s" "opens_with 91 s" "\<not> ((opens_with 123 s \<or> opens_with 91 s) \<and> depth \<ge> max_json_depth)"
    | (scalar) "\<not> opens_with 123 s" "\<not> opens_with 91 s"
    using "2.prems"(1) by (auto split: if_split_asm)
  then show ?case
  proof cases
    case object
    then have d: "depth < max_json_depth" by auto
    show ?thesis
    proof (cases "opens_with 125 (skip_whitespace (drop 1 s))")
      case True
      with "2.prems" object d show ?thesis by (auto simp: bounded_value_def)
    next
      case False
      with "2.prems"(1) object have "parse_object fuel (depth + 1) [] (skip_whitespace (drop 1 s)) n = Inr (v, rest, n')"
        by (simp split: if_split_asm)
      from "2.IH"(1) [OF object(2,1) False this "2.prems"(2)] members_bounded [OF _ d, of n v n'] show ?thesis by simp
    qed
  next
    case array
    then have d: "depth < max_json_depth" by auto
    show ?thesis
    proof (cases "opens_with 93 (skip_whitespace (drop 1 s))")
      case True
      with "2.prems" array d show ?thesis by (auto simp: bounded_value_def)
    next
      case False
      with "2.prems"(1) array have "parse_array fuel (depth + 1) [] (skip_whitespace (drop 1 s)) n = Inr (v, rest, n')"
        by (simp split: if_split_asm)
      from "2.IH"(2) [OF array(3,1,2) False this "2.prems"(2)] elements_bounded [OF _ d, of n v n'] show ?thesis by simp
    qed
  next
    case scalar
    with "2.prems" show ?thesis by (auto simp: and_then_Inr dest: parse_scalar_bounded [of _ _ _ depth])
  qed
next
  case (4 fuel depth vs s n)
  from "4.prems"(1) obtain w r m b r' where w: "parse_value fuel depth s (n + 1) = Inr (w, r, m)"
    "after_element 93 Expected_comma_or_bracket r = Inr (b, r')"
    and e: "if b then v = Elements (vs @ [w]) \<and> rest = r' \<and> n' = m
            else parse_array fuel depth (vs @ [w]) r' m = Inr (v, rest, n')"
    and g: "\<not> n + 1 > max_json_container_entries"
    by (auto split: if_split_asm sum.splits prod.splits)
  from "4.IH"(1) [OF g w(1)] g have h: "bounded_value depth w" "m = n + 1 + container_entries w"
    "m \<le> max_json_container_entries" by auto
  show ?case
  proof (cases b)
    case True
    with e h show ?thesis by (auto simp: elements_ok_def)
  next
    case False
    with e "4.IH"(2) [OF g w(1) refl refl w(2) refl False _ h(3)] elements_step [OF _ h(1,2)] show ?thesis by auto
  qed
next
  case (6 fuel depth ms s n)
  from "6.prems"(1) obtain key q w r m b r' where k: "parse_key (map fst ms) s n = Inr (key, q)"
    and w: "parse_value fuel depth q (n + 1) = Inr (w, r, m)"
    "after_element 125 Expected_comma_or_brace r = Inr (b, r')"
    and e: "if b then v = Members (ms @ [(key, w)]) \<and> rest = r' \<and> n' = m
            else parse_object fuel depth (ms @ [(key, w)]) r' m = Inr (v, rest, n')"
    by (auto split: if_split_asm sum.splits prod.splits)
  from parse_key_new [OF k] have new: "key \<notin> set (map fst ms)" "n + 1 \<le> max_json_container_entries" by auto
  from "6.IH"(1) [OF k refl w(1) new(2)] have h: "bounded_value depth w" "m = n + 1 + container_entries w"
    "m \<le> max_json_container_entries" by auto
  show ?case
  proof (cases b)
    case True
    with e h new show ?thesis by (auto simp: members_ok_def)
  next
    case False
    with e "6.IH"(2) [OF k refl w(1) refl refl w(2) refl False _ h(3)] members_step [OF _ h(1,2) new(1)] show ?thesis by auto
  qed
qed auto

section \<open>Checking a value\<close>

text \<open>
  \<open>assertBoundedJsonValue\<close> on a JavaScript value.  A hole of an array is \<open>None\<close>; an object is plain or not; the
  values outside the JSON domain are one case.  The values are finite trees, so the test for cycles, which a
  tree passes, is left out.
\<close>

datatype js_value =
    Js_null | Js_boolean bool | Js_number bool \<comment> \<open>whether it is finite\<close> | Js_text units
  | Js_array "js_value option list" | Js_object bool "(units \<times> js_value) list" | Js_outside

datatype bounded_fault = Non_finite | Outside_domain | Depth_exceeded | Sparse_array | Entries_exceeded | Not_plain

fun visit :: "nat \<Rightarrow> nat \<Rightarrow> js_value \<Rightarrow> (bounded_fault, nat) result"
  and visit_array :: "nat \<Rightarrow> nat \<Rightarrow> js_value option list \<Rightarrow> (bounded_fault, nat) result"
  and visit_object :: "nat \<Rightarrow> nat \<Rightarrow> (units \<times> js_value) list \<Rightarrow> (bounded_fault, nat) result"
where
  "visit depth n Js_null = Inr n"
| "visit depth n (Js_boolean b) = Inr n"
| "visit depth n (Js_text t) = Inr n"
| "visit depth n (Js_number fin) = (if fin then Inr n else Inl Non_finite)"
| "visit depth n Js_outside = Inl Outside_domain"
| "visit depth n (Js_array vs) = (if depth \<ge> max_json_depth then Inl Depth_exceeded else visit_array depth n vs)"
| "visit depth n (Js_object plain ms) =
     (if depth \<ge> max_json_depth then Inl Depth_exceeded
      else if \<not> plain then Inl Not_plain
      else visit_object depth n ms)"
| "visit_array depth n [] = Inr n"
| "visit_array depth n (None # vs) = Inl Sparse_array"
| "visit_array depth n (Some v # vs) =
     (if n + 1 > max_json_container_entries then Inl Entries_exceeded
      else (case visit (depth + 1) (n + 1) v of Inl e \<Rightarrow> Inl e | Inr n' \<Rightarrow> visit_array depth n' vs))"
| "visit_object depth n [] = Inr n"
| "visit_object depth n ((k, v) # ms) =
     (if n + 1 > max_json_container_entries then Inl Entries_exceeded
      else (case visit (depth + 1) (n + 1) v of Inl e \<Rightarrow> Inl e | Inr n' \<Rightarrow> visit_object depth n' ms))"

definition assert_bounded_json_value :: "js_value \<Rightarrow> (bounded_fault, unit) result" where
  "assert_bounded_json_value v = and_then (visit 0 0 v) (\<lambda>_. Inr ())"

text \<open>The JavaScript value that the parser returns.\<close>

fun js_of :: "jval \<Rightarrow> js_value" where
  "js_of Null = Js_null"
| "js_of (Boolean b) = Js_boolean b"
| "js_of (Number_token t) = Js_number (finite_token t)"
| "js_of (Text t) = Js_text t"
| "js_of (Elements vs) = Js_array (map (\<lambda>v. Some (js_of v)) vs)"
| "js_of (Members ms) = Js_object True (map (\<lambda>m. (fst m, js_of (snd m))) ms)"

lemma visit_array_ok:
  assumes "\<And>v n. v \<in> set vs \<Longrightarrow> n + container_entries v \<le> max_json_container_entries \<Longrightarrow>
      visit (depth + 1) n (js_of v) = Inr (n + container_entries v)"
    and "n + container_entries (Elements vs) \<le> max_json_container_entries"
  shows "visit_array depth n (map (\<lambda>v. Some (js_of v)) vs) = Inr (n + container_entries (Elements vs))"
  using assms by (induction vs arbitrary: n) auto

lemma visit_object_ok:
  assumes "\<And>m n. m \<in> set ms \<Longrightarrow> n + container_entries (snd m) \<le> max_json_container_entries \<Longrightarrow>
      visit (depth + 1) n (js_of (snd m)) = Inr (n + container_entries (snd m))"
    and "n + container_entries (Members ms) \<le> max_json_container_entries"
  shows "visit_object depth n (map (\<lambda>m. (fst m, js_of (snd m))) ms) = Inr (n + container_entries (Members ms))"
  using assms by (induction ms arbitrary: n) auto

lemma visit_ok:
  "nested_within (max_json_depth - depth) v \<Longrightarrow> finite_numbers v \<Longrightarrow>
   n + container_entries v \<le> max_json_container_entries \<Longrightarrow>
   visit depth n (js_of v) = Inr (n + container_entries v)"
proof (induction v arbitrary: depth n)
  case (Elements vs)
  have "visit_array depth n (map (\<lambda>v. Some (js_of v)) vs) = Inr (n + container_entries (Elements vs))"
  proof (rule visit_array_ok [OF _ Elements.prems(3)])
    fix v n assume "v \<in> set vs" "n + container_entries v \<le> max_json_container_entries"
    with Elements.prems show "visit (depth + 1) n (js_of v) = Inr (n + container_entries v)"
      by (intro Elements.IH) auto
  qed
  with Elements.prems(1) show ?case by simp
next
  case (Members ms)
  have "visit_object depth n (map (\<lambda>m. (fst m, js_of (snd m))) ms) = Inr (n + container_entries (Members ms))"
  proof (rule visit_object_ok [OF _ Members.prems(3)])
    fix m n assume m: "m \<in> set ms" "n + container_entries (snd m) \<le> max_json_container_entries"
    with Members.prems have "nested_within (max_json_depth - (depth + 1)) (snd m)" "finite_numbers (snd m)" by auto
    with m show "visit (depth + 1) n (js_of (snd m)) = Inr (n + container_entries (snd m))"
      by (intro Members.IH [of m]) (auto simp: snds.simps)
  qed
  with Members.prems(1) show ?case by simp
qed auto

text \<open>What the strict parser returns is bounded: at most 32 containers deep, at most 10000 container entries,
no key twice in an object, every number finite; and the value check accepts it.\<close>

theorem strict_parser_bounded:
  assumes "parse_json_strict source = Inr v"
  shows "nested_within 32 v \<and> container_entries v \<le> 10000 \<and> distinct_keys v \<and> finite_numbers v \<and>
    assert_bounded_json_value (js_of v) = Inr ()"
proof -
  from assms obtain rest n where
    "parse_value (2 * length source + 1) 0 (skip_whitespace source) 0 = Inr (v, rest, n)"
    by (auto simp: parse_json_strict_def parse_source_def and_then_Inr split: if_splits)
  from parse_value_bounded(1) [OF this]
  have b: "bounded_value 0 v" "container_entries v \<le> max_json_container_entries" by auto
  with visit_ok [of 0 v 0] have "assert_bounded_json_value (js_of v) = Inr ()"
    by (simp add: assert_bounded_json_value_def bounded_value_def)
  with b show ?thesis
    by (simp add: bounded_value_def max_json_depth_def max_json_container_entries_def)
qed

theorem strict_parser_bounded_witness:
  "distinct_keys (Members [(lit ''a'', Elements [Boolean True])])"
proof -
  have "parse_json_strict (lit ''{\"a\": [true]}'') = Inr (Members [(lit ''a'', Elements [Boolean True])])"
    by code_simp
  from strict_parser_bounded [OF this] show ?thesis by blast
qed

end
