(* ===== verification/Context_Window.thy ===== *)
theory Context_Window
  imports Canonical_Time
begin

text \<open>
  The live context of a run in \<open>src/runtime/context-compaction.ts\<close>: validation of the segment partition
  against the durable items, the boundaries at which whole tool batches are closed, and the replacement of a
  compacted prefix.  \<open>canonicalSha256\<close> rests on node's crypto module and is the argument \<open>sha\<close> on the values
  the source hashes.  Items and segments are typed, so the tests for unknown keys and format tags hold by
  construction.
\<close>

section \<open>Items and segments\<close>

datatype stop_reason = Stop_end | Stop_tool_calls | Stop_cancelled

text \<open>The fields the context code reads; a batch is its list of call ids.\<close>

datatype item_body =
    Model_Turn stop_reason
  | Tool_Batch "string list"
  | Tool_Result (res_batch: string) (res_call: string) (res_index: int)
  | Compaction (cov_from: int) (cov_through: int) (cmp_summaryRef: string) (cmp_summaryDigest: string) (cmp_source: string)
  | Policy_Decision
  | Input_Request string string int
  | User_Input string string int
  | Other_Item \<comment> \<open>a kind this version does not know\<close>

record continuation_item =
  ci_itemId :: string
  ci_runId :: string
  ci_body :: item_body
  ci_unread :: string \<comment> \<open>the canonical bytes of the fields this code never reads\<close>

record context_item =
  cx_itemSeq :: int
  cx_itemRef :: string
  cx_item :: continuation_item

datatype segment_kind =
    Raw "(int \<times> string) list"
  | Summary (sm_compactionItemId: string) (sm_summaryRef: string) (sm_summaryDigest: string) (sm_source: string)
      (sm_preserved: "string list")
  | Excluded_control string

record segment =
  sg_from :: int
  sg_through :: int
  sg_kind :: segment_kind

record context_manifest =
  cm_runId :: string
  cm_throughItemSeq :: int
  cm_admittedContextRef :: string
  cm_segments :: "segment list"
  cm_assemblyRef :: string
  cm_projectionDigest :: string

text \<open>What is hashed: an item, the logical source of a range, raw rows, a manifest without its digest.\<close>

datatype hashed =
    H_item continuation_item
  | H_source "(int \<times> string \<times> string) list"
  | H_rows "(int \<times> string) list"
  | H_manifest string int string "segment list" string

datatype context_error =
    Cursor_or_digest | Ids_not_unique | Durable_row_differs | Not_a_partition | Raw_rows_differ
  | Control_in_raw | Source_digest | Summary_not_backed | Visible_hidden | Missing_suffix
  | Turn_overtakes_batch | Batch_without_turn | Result_out_of_order | Input_out_of_order
  | Unsupported_item | Open_batch

section \<open>Validation\<close>

fun kind_name :: "item_body \<Rightarrow> string" where
  "kind_name (Model_Turn _) = ''model_turn''"
| "kind_name (Tool_Batch _) = ''assistant_tool_batch''"
| "kind_name (Tool_Result _ _ _) = ''tool_result''"
| "kind_name (Compaction _ _ _ _ _) = ''context_compaction''"
| "kind_name Policy_Decision = ''policy_decision''"
| "kind_name (Input_Request _ _ _) = ''input_request''"
| "kind_name (User_Input _ _ _) = ''user_input''"
| "kind_name Other_Item = ''other''"

definition item_kind :: "context_item \<Rightarrow> string" where
  "item_kind e = kind_name (ci_body (cx_item e))"

definition model_visible :: "context_item \<Rightarrow> bool" where
  "model_visible e = (item_kind e \<in> {''model_turn'', ''tool_result'', ''user_input''})"

definition control_item :: "context_item \<Rightarrow> bool" where
  "control_item e =
     (item_kind e \<in> {''assistant_tool_batch'', ''context_compaction'', ''policy_decision'', ''input_request''})"

definition context_source_digest :: "(hashed \<Rightarrow> string) \<Rightarrow> context_item list \<Rightarrow> string" where
  "context_source_digest sha items = sha (H_source (map (\<lambda>e. (cx_itemSeq e, item_kind e, cx_itemRef e)) items))"

text \<open>\<open>items.slice(fromItemSeq - 1, throughItemSeq)\<close>.\<close>

definition source_of :: "context_item list \<Rightarrow> segment \<Rightarrow> context_item list" where
  "source_of items sg = take (nat (sg_through sg - (sg_from sg - 1))) (drop (nat (sg_from sg - 1)) items)"

definition summary_backed :: "context_item list \<Rightarrow> context_item list \<Rightarrow> segment \<Rightarrow> bool" where
  "summary_backed items source sg =
     (case sg_kind sg of
        Summary cid ref digest src preserved \<Rightarrow>
          (case find (\<lambda>e. ci_itemId (cx_item e) = cid) items of
             None \<Rightarrow> False
           | Some e \<Rightarrow>
               ci_body (cx_item e) = Compaction (sg_from sg) (sg_through sg) ref digest src \<and>
               distinct preserved \<and> (\<forall>r\<in>set preserved. \<exists>s\<in>set source. cx_itemRef s = r))
      | _ \<Rightarrow> False)"

definition check_segment ::
  "(hashed \<Rightarrow> string) \<Rightarrow> context_item list \<Rightarrow> int \<Rightarrow> segment \<Rightarrow> (context_error, unit) result" where
  "check_segment sha items through sg =
     (if sg_from sg \<noteq> through + 1 \<or> sg_through sg > max_safe_integer \<or> sg_through sg < sg_from sg \<or>
         sg_through sg > int (length items) then Inl Not_a_partition
      else (let source = source_of items sg in
        case sg_kind sg of
          Raw rows \<Rightarrow>
            (if sha (H_rows rows) \<noteq> sha (H_rows (map (\<lambda>e. (cx_itemSeq e, cx_itemRef e)) source)) then Inl Raw_rows_differ
             else throw_if (\<exists>e\<in>set source. \<not> model_visible e) Control_in_raw)
        | Summary cid ref digest src preserved \<Rightarrow>
            (if src \<noteq> context_source_digest sha source then Inl Source_digest
             else throw_if (\<not> summary_backed items source sg) Summary_not_backed)
        | Excluded_control src \<Rightarrow>
            (if src \<noteq> context_source_digest sha source then Inl Source_digest
             else throw_if (\<exists>e\<in>set source. \<not> control_item e) Visible_hidden)))"

fun check_segments ::
  "(hashed \<Rightarrow> string) \<Rightarrow> context_item list \<Rightarrow> int \<Rightarrow> segment list \<Rightarrow> (context_error, int) result" where
  "check_segments sha items through [] = Inr through"
| "check_segments sha items through (sg # sgs) =
     and_then (check_segment sha items through sg) (\<lambda>_. check_segments sha items (sg_through sg) sgs)"

definition durable_rows :: "(hashed \<Rightarrow> string) \<Rightarrow> string \<Rightarrow> context_item list \<Rightarrow> bool" where
  "durable_rows sha runId items =
     (\<forall>i<length items. cx_itemSeq (items ! i) = int i + 1 \<and> ci_runId (cx_item (items ! i)) = runId \<and>
        sha (H_item (cx_item (items ! i))) = cx_itemRef (items ! i))"

definition manifest_digest :: "(hashed \<Rightarrow> string) \<Rightarrow> context_manifest \<Rightarrow> string" where
  "manifest_digest sha c =
     sha (H_manifest (cm_runId c) (cm_throughItemSeq c) (cm_admittedContextRef c) (cm_segments c) (cm_assemblyRef c))"

definition validate_context_items ::
  "(hashed \<Rightarrow> string) \<Rightarrow> context_manifest \<Rightarrow> context_item list \<Rightarrow> (context_error, unit) result" where
  "validate_context_items sha c items =
     and_then (throw_if (cm_throughItemSeq c \<noteq> int (length items) \<or> manifest_digest sha c \<noteq> cm_projectionDigest c)
       Cursor_or_digest) (\<lambda>_.
     and_then (throw_if (\<not> distinct (map (\<lambda>e. ci_itemId (cx_item e)) items)) Ids_not_unique) (\<lambda>_.
     and_then (throw_if (\<not> durable_rows sha (cm_runId c) items) Durable_row_differs) (\<lambda>_.
     and_then (check_segments sha items 0 (cm_segments c)) (\<lambda>through.
     throw_if (through \<noteq> int (length items)) Missing_suffix))))"

section \<open>Closed boundaries\<close>

record batch_state =
  bs_batch :: "(string \<times> string list) option" \<comment> \<open>the open batch: item id and call ids\<close>
  bs_awaiting :: bool
  bs_nextIndex :: nat
  bs_closed :: "int set"

definition no_batch :: batch_state where
  "no_batch = \<lparr>bs_batch = None, bs_awaiting = False, bs_nextIndex = 0, bs_closed = {}\<rparr>"

text \<open>The item refers to the next call of the open batch.\<close>

definition next_call :: "batch_state \<Rightarrow> string \<Rightarrow> string \<Rightarrow> int \<Rightarrow> bool" where
  "next_call st batchItemId callId index =
     (case bs_batch st of
        None \<Rightarrow> False
      | Some (bid, calls) \<Rightarrow>
          batchItemId = bid \<and> index = int (bs_nextIndex st) \<and> at calls (bs_nextIndex st) = Some callId)"

definition batch_step :: "batch_state \<Rightarrow> context_item \<Rightarrow> (context_error, batch_state) result" where
  "batch_step st e =
     (case ci_body (cx_item e) of
        Model_Turn reason \<Rightarrow>
          (if bs_batch st \<noteq> None \<or> bs_awaiting st then Inl Turn_overtakes_batch
           else Inr (st\<lparr>bs_awaiting := (reason = Stop_tool_calls)\<rparr>))
      | Tool_Batch calls \<Rightarrow>
          (if \<not> bs_awaiting st \<or> bs_batch st \<noteq> None \<or> calls = [] then Inl Batch_without_turn
           else Inr (st\<lparr>bs_batch := Some (ci_itemId (cx_item e), calls), bs_awaiting := False, bs_nextIndex := 0\<rparr>))
      | Tool_Result b c i \<Rightarrow>
          (if \<not> next_call st b c i then Inl Result_out_of_order
           else Inr (st\<lparr>bs_nextIndex := bs_nextIndex st + 1,
                        bs_batch := (case bs_batch st of
                            None \<Rightarrow> None
                          | Some (bid, calls) \<Rightarrow> if bs_nextIndex st + 1 = length calls then None else Some (bid, calls))\<rparr>))
      | Input_Request b c i \<Rightarrow> (if \<not> next_call st b c i then Inl Input_out_of_order else Inr st)
      | User_Input b c i \<Rightarrow> (if \<not> next_call st b c i then Inl Input_out_of_order else Inr st)
      | Compaction _ _ _ _ _ \<Rightarrow> Inr st
      | Policy_Decision \<Rightarrow> Inr st
      | Other_Item \<Rightarrow> Inl Unsupported_item)"

definition is_open :: "batch_state \<Rightarrow> bool" where
  "is_open st = (bs_batch st \<noteq> None \<or> bs_awaiting st)"

fun batch_run :: "batch_state \<Rightarrow> context_item list \<Rightarrow> (context_error, batch_state) result" where
  "batch_run st [] = Inr st"
| "batch_run st (e # es) =
     and_then (batch_step st e) (\<lambda>st'.
     batch_run (if is_open st' then st' else st'\<lparr>bs_closed := insert (cx_itemSeq e) (bs_closed st')\<rparr>) es)"

definition closed_boundaries :: "context_item list \<Rightarrow> (context_error, int set) result" where
  "closed_boundaries items =
     and_then (batch_run no_batch items) (\<lambda>st. if is_open st then Inl Open_batch else Inr (bs_closed st))"

section \<open>Replacing a compacted prefix\<close>

record compaction_plan =
  cp_throughItemSeq :: int
  cp_sourceItemsDigest :: string

definition replace_compacted_prefix ::
  "context_manifest \<Rightarrow> compaction_plan \<Rightarrow> string \<Rightarrow> string \<Rightarrow> string \<Rightarrow> context_manifest" where
  "replace_compacted_prefix c plan itemId summaryRef summaryDigest =
     c\<lparr>cm_segments :=
        \<lparr>sg_from = 1, sg_through = cp_throughItemSeq plan,
         sg_kind = Summary itemId summaryRef summaryDigest (cp_sourceItemsDigest plan) []\<rparr>
        # filter (\<lambda>sg. sg_from sg > cp_throughItemSeq plan) (cm_segments c)\<rparr>"

section \<open>Appending items\<close>

text \<open>
  \<open>planContinuationCommit\<close> of \<open>src/state/continuation-commit.ts\<close>: every new item gets the next sequence
  number, its digest as reference, and a segment of its own.
\<close>

definition added_items :: "(hashed \<Rightarrow> string) \<Rightarrow> int \<Rightarrow> continuation_item list \<Rightarrow> context_item list" where
  "added_items sha through items =
     map (\<lambda>(i, item). \<lparr>cx_itemSeq = through + int i + 1, cx_itemRef = sha (H_item item), cx_item = item\<rparr>)
       (enumerate 0 items)"

definition own_segment :: "(hashed \<Rightarrow> string) \<Rightarrow> context_item \<Rightarrow> segment" where
  "own_segment sha e =
     \<lparr>sg_from = cx_itemSeq e, sg_through = cx_itemSeq e,
      sg_kind = (if model_visible e then Raw [(cx_itemSeq e, cx_itemRef e)]
                 else Excluded_control (context_source_digest sha [e]))\<rparr>"

definition append_context :: "(hashed \<Rightarrow> string) \<Rightarrow> context_manifest \<Rightarrow> context_item list \<Rightarrow> context_manifest" where
  "append_context sha c added =
     (let c' = c\<lparr>cm_segments := cm_segments c @ map (own_segment sha) added,
                 cm_throughItemSeq := cm_throughItemSeq c + int (length added)\<rparr>
      in c'\<lparr>cm_projectionDigest := manifest_digest sha c'\<rparr>)"

definition plan_continuation_commit ::
  "(hashed \<Rightarrow> string) \<Rightarrow> context_manifest \<Rightarrow> context_item list \<Rightarrow> continuation_item list \<Rightarrow>
   (context_error, context_manifest \<times> context_item list) result" where
  "plan_continuation_commit sha c existing items =
     (let added = added_items sha (cm_throughItemSeq c) items;
          c' = append_context sha c added
      in and_then (validate_context_items sha c' (existing @ added)) (\<lambda>_. Inr (c', existing @ added)))"

section \<open>The segment walk\<close>

lemma check_segments_append:
  "check_segments sha items t (as @ bs) = and_then (check_segments sha items t as) (\<lambda>u. check_segments sha items u bs)"
proof (induction as arbitrary: t)
  case (Cons a as)
  then show ?case by (cases "check_segment sha items t a") auto
qed simp

lemma check_segment_range:
  assumes "check_segment sha items t sg = Inr ()"
  shows "sg_from sg = t + 1" "sg_from sg \<le> sg_through sg" "sg_through sg \<le> int (length items)"
  using assms unfolding check_segment_def by (auto split: if_splits)

lemma check_segments_range:
  assumes "check_segments sha items t sgs = Inr u"
  shows "t \<le> u \<and> (\<forall>sg\<in>set sgs. t < sg_from sg \<and> sg_from sg \<le> sg_through sg \<and> sg_through sg \<le> u)"
  using assms
proof (induction sgs arbitrary: t)
  case (Cons sg sgs)
  then have c: "check_segment sha items t sg = Inr ()" and r: "check_segments sha items (sg_through sg) sgs = Inr u"
    by (auto simp: and_then_Inr)
  show ?case using check_segment_range [OF c] Cons.IH [OF r] by force
qed simp

lemma check_segments_member:
  assumes "check_segments sha items t sgs = Inr u" and "sg \<in> set sgs" and "0 \<le> t"
  shows "\<exists>t'\<ge>0. check_segment sha items t' sg = Inr ()"
proof -
  obtain as bs where s: "sgs = as @ sg # bs" using assms(2) by (metis split_list)
  obtain t' where t': "check_segments sha items t as = Inr t'" and c: "check_segment sha items t' sg = Inr ()"
    using assms(1) by (auto simp: s check_segments_append and_then_Inr)
  from check_segments_range [OF t'] assms(3) have "0 \<le> t'" by linarith
  with c show ?thesis by blast
qed

lemma slice_append:
  "take (b - a) (drop a xs) @ take (c - b) (drop b xs) = take (c - a) (drop a xs)" if "a \<le> b" "b \<le> c" for xs :: "'a list"
proof -
  have "take ((b - a) + (c - b)) (drop a xs) = take (b - a) (drop a xs) @ take (c - b) (drop (b - a) (drop a xs))"
    by (rule take_add)
  with that show ?thesis by simp
qed

lemma check_segments_concat:
  assumes "check_segments sha items t sgs = Inr u" and "0 \<le> t"
  shows "concat (map (source_of items) sgs) = take (nat u - nat t) (drop (nat t) items)"
  using assms
proof (induction sgs arbitrary: t)
  case (Cons sg sgs)
  then have c: "check_segment sha items t sg = Inr ()" and r: "check_segments sha items (sg_through sg) sgs = Inr u"
    by (auto simp: and_then_Inr)
  note range = check_segment_range [OF c]
  have "source_of items sg = take (nat (sg_through sg) - nat t) (drop (nat t) items)"
    using range Cons.prems(2) by (simp add: source_of_def nat_diff_distrib)
  moreover have "nat t \<le> nat (sg_through sg)" "nat (sg_through sg) \<le> nat u"
    using range check_segments_range [OF r] Cons.prems(2) by auto
  ultimately show ?case
    using Cons.IH [OF r] range Cons.prems(2) slice_append [of "nat t" "nat (sg_through sg)" "nat u" items] by simp
qed simp

lemma source_of_append:
  assumes "0 < sg_from sg" and "sg_through sg \<le> int (length items)"
  shows "source_of (items @ new) sg = source_of items sg"
proof -
  have "nat (sg_through sg - (sg_from sg - 1)) \<le> length items - nat (sg_from sg - 1)" using assms by linarith
  then show ?thesis by (simp add: source_of_def)
qed

lemma check_segment_append_items:
  assumes c: "check_segment sha items t sg = Inr ()" and t: "0 \<le> t"
  shows "check_segment sha (items @ new) t sg = Inr ()"
proof -
  note range = check_segment_range [OF c]
  have s: "source_of (items @ new) sg = source_of items sg"
    by (rule source_of_append) (use range t in auto)
  have b: "summary_backed (items @ new) (source_of items sg) sg" if "summary_backed items (source_of items sg) sg"
    using that by (auto simp: summary_backed_def find_append split: segment_kind.splits option.splits)
  show ?thesis
    using c range b unfolding check_segment_def s
    by (auto simp: Let_def split: segment_kind.splits if_splits)
qed

lemma check_segments_append_items:
  assumes "check_segments sha items t sgs = Inr u" and "0 \<le> t"
  shows "check_segments sha (items @ new) t sgs = Inr u"
  using assms
proof (induction sgs arbitrary: t)
  case (Cons sg sgs)
  then have c: "check_segment sha items t sg = Inr ()" and r: "check_segments sha items (sg_through sg) sgs = Inr u"
    by (auto simp: and_then_Inr)
  have "0 \<le> sg_through sg" using check_segment_range [OF c] Cons.prems(2) by simp
  then show ?case using Cons.IH [OF r] check_segment_append_items [OF c Cons.prems(2)] by simp
qed simp

section \<open>Extending a validated context\<close>

lemma validate_iff:
  "validate_context_items sha c items = Inr () \<longleftrightarrow>
     cm_throughItemSeq c = int (length items) \<and> manifest_digest sha c = cm_projectionDigest c \<and>
     distinct (map (\<lambda>e. ci_itemId (cx_item e)) items) \<and> durable_rows sha (cm_runId c) items \<and>
     check_segments sha items 0 (cm_segments c) = Inr (int (length items))"
  unfolding validate_context_items_def by (auto simp: and_then_Inr)

lemma length_added [simp]: "length (added_items sha t news) = length news"
  by (simp add: added_items_def)

lemma added_nth:
  "i < length news \<Longrightarrow> added_items sha t news ! i =
     \<lparr>cx_itemSeq = t + int i + 1, cx_itemRef = sha (H_item (news ! i)), cx_item = news ! i\<rparr>"
  by (simp add: added_items_def nth_enumerate_eq)

lemma cx_item_added: "map cx_item (added_items sha t news) = news"
  by (rule nth_equalityI) (simp_all add: added_nth)

lemma durable_rows_added:
  assumes "durable_rows sha r items" and "\<forall>x\<in>set news. ci_runId x = r"
  shows "durable_rows sha r (items @ added_items sha (int (length items)) news)"
  using assms unfolding durable_rows_def
  by (auto simp: nth_append added_nth)

lemma known_kind: "model_visible e \<or> control_item e \<or> ci_body (cx_item e) = Other_Item"
  by (cases "ci_body (cx_item e)") (auto simp: model_visible_def control_item_def item_kind_def)

lemma source_of_single:
  assumes "sg_from sg = int (length xs) + 1" and "sg_through sg = int (length xs) + 1"
  shows "source_of (xs @ e # ys) sg = [e]"
  using assms by (simp add: source_of_def)

lemma check_own_segment:
  assumes "cx_itemSeq e = int (length xs) + 1" and "ci_body (cx_item e) \<noteq> Other_Item"
    and "int (length xs) + 1 \<le> max_safe_integer"
  shows "check_segment sha (xs @ e # ys) (int (length xs)) (own_segment sha e) = Inr ()"
proof -
  have s: "source_of (xs @ e # ys) (own_segment sha e) = [e]"
    by (rule source_of_single) (simp_all add: own_segment_def assms(1))
  show ?thesis
    using assms known_kind [of e]
    unfolding check_segment_def s by (auto simp: own_segment_def Let_def)
qed

lemma check_own_segments:
  assumes "\<forall>i<length es. cx_itemSeq (es ! i) = int (length xs + i) + 1"
    and "\<forall>e\<in>set es. ci_body (cx_item e) \<noteq> Other_Item" and "int (length (xs @ es)) \<le> max_safe_integer"
  shows "check_segments sha (xs @ es) (int (length xs)) (map (own_segment sha) es) = Inr (int (length (xs @ es)))"
  using assms
proof (induction es arbitrary: xs)
  case (Cons e es)
  have c: "check_segment sha (xs @ e # es) (int (length xs)) (own_segment sha e) = Inr ()"
    by (rule check_own_segment) (use Cons.prems in auto)
  have t: "sg_through (own_segment sha e) = int (length (xs @ [e]))"
    using Cons.prems(1) by (auto simp: own_segment_def)
  have "check_segments sha ((xs @ [e]) @ es) (int (length (xs @ [e]))) (map (own_segment sha) es)
      = Inr (int (length ((xs @ [e]) @ es)))"
  proof (rule Cons.IH)
    show "\<forall>i<length es. cx_itemSeq (es ! i) = int (length (xs @ [e]) + i) + 1"
    proof (intro allI impI)
      fix i
      assume "i < length es"
      then show "cx_itemSeq (es ! i) = int (length (xs @ [e]) + i) + 1"
        using spec [OF Cons.prems(1), of "Suc i"] by simp
    qed
  qed (use Cons.prems in auto)
  with c t show ?case by simp
qed simp

text \<open>The part of the plan both reducers share: new items behind any segments that cover the old ones.\<close>

definition admissible_items :: "context_manifest \<Rightarrow> context_item list \<Rightarrow> continuation_item list \<Rightarrow> bool" where
  "admissible_items c items news =
     ((\<forall>x\<in>set news. ci_runId x = cm_runId c \<and> ci_body x \<noteq> Other_Item) \<and>
      distinct (map ci_itemId news) \<and>
      (\<forall>x\<in>set news. \<forall>e\<in>set items. ci_itemId (cx_item e) \<noteq> ci_itemId x) \<and>
      int (length items) + int (length news) \<le> max_safe_integer)"

lemma append_validates:
  assumes v: "cm_throughItemSeq c = int (length items)" "distinct (map (\<lambda>e. ci_itemId (cx_item e)) items)"
      "durable_rows sha (cm_runId c) items"
    and adm: "admissible_items c items news"
    and segs: "check_segments sha (items @ added_items sha (int (length items)) news) 0 (cm_segments c)
                 = Inr (int (length items))"
  shows "validate_context_items sha (append_context sha c (added_items sha (int (length items)) news))
           (items @ added_items sha (int (length items)) news) = Inr ()"
proof -
  define es where "es = added_items sha (int (length items)) news"
  have items_es: "map cx_item es = news" by (simp add: es_def cx_item_added)
  then have ids: "map (\<lambda>e. ci_itemId (cx_item e)) es = map ci_itemId news"
    and set_es: "set news = cx_item ` set es" by (simp_all add: items_es [symmetric] comp_def)
  have own: "check_segments sha (items @ es) (int (length items)) (map (own_segment sha) es) = Inr (int (length (items @ es)))"
    by (rule check_own_segments) (use adm set_es in \<open>auto simp: es_def added_nth admissible_items_def\<close>)
  have "distinct (map (\<lambda>e. ci_itemId (cx_item e)) (items @ es))"
    using v(2) adm set_es unfolding admissible_items_def map_append distinct_append ids by fastforce
  moreover have "durable_rows sha (cm_runId c) (items @ es)"
    unfolding es_def by (rule durable_rows_added [OF v(3)]) (use adm in \<open>simp add: admissible_items_def\<close>)
  ultimately show ?thesis
    using v(1) own segs
    by (simp add: validate_iff append_context_def manifest_digest_def Let_def check_segments_append es_def [symmetric])
qed

text \<open>A commit of new items to a validated context cannot be refused and leaves a validated context that
  covers the old and the new items: every item of a kind the context knows, with a fresh id and the id of the
  run, gets its own segment, raw exactly when the model sees it.\<close>

theorem continuation_commit_validates:
  assumes "validate_context_items sha c items = Inr ()" and "admissible_items c items news"
  shows "\<exists>c' rows. plan_continuation_commit sha c items news = Inr (c', rows) \<and>
     validate_context_items sha c' rows = Inr () \<and>
     map cx_item rows = map cx_item items @ news \<and> cm_runId c' = cm_runId c \<and>
     (\<exists>added. cm_segments c' = cm_segments c @ added \<and>
        (\<forall>e\<in>set rows. e \<notin> set items \<longrightarrow>
          (\<exists>sg\<in>set added. sg_from sg = cx_itemSeq e \<and> sg_through sg = cx_itemSeq e \<and>
             (model_visible e \<longleftrightarrow> sg_kind sg = Raw [(cx_itemSeq e, cx_itemRef e)]))))"
proof -
  define es where "es = added_items sha (int (length items)) news"
  have v: "cm_throughItemSeq c = int (length items)" "distinct (map (\<lambda>e. ci_itemId (cx_item e)) items)"
    "durable_rows sha (cm_runId c) items" "check_segments sha items 0 (cm_segments c) = Inr (int (length items))"
    using assms(1) by (simp_all add: validate_iff)
  have ok: "validate_context_items sha (append_context sha c es) (items @ es) = Inr ()"
    unfolding es_def
    by (rule append_validates [OF v(1-3) assms(2)]) (rule check_segments_append_items [OF v(4)], simp)
  then have plan: "plan_continuation_commit sha c items news = Inr (append_context sha c es, items @ es)"
    by (simp add: plan_continuation_commit_def v(1) es_def Let_def)
  have segs: "cm_segments (append_context sha c es) = cm_segments c @ map (own_segment sha) es"
    "cm_runId (append_context sha c es) = cm_runId c"
    by (simp_all add: append_context_def Let_def)
  have own: "\<exists>sg\<in>set (map (own_segment sha) es). sg_from sg = cx_itemSeq e \<and> sg_through sg = cx_itemSeq e \<and>
      (model_visible e \<longleftrightarrow> sg_kind sg = Raw [(cx_itemSeq e, cx_itemRef e)])" if "e \<in> set es" for e
    using that by (intro bexI [of _ "own_segment sha e"]) (auto simp: own_segment_def)
  show ?thesis
    by (intro exI conjI, rule plan, rule ok)
      (use segs own in \<open>auto simp: es_def cx_item_added\<close>)
qed

section \<open>What a validated context shows\<close>

definition segment_contract :: "context_item list \<Rightarrow> segment \<Rightarrow> bool" where
  "segment_contract items sg =
     (case sg_kind sg of
        Raw _ \<Rightarrow> (\<forall>e\<in>set (source_of items sg). model_visible e)
      | Excluded_control _ \<Rightarrow> (\<forall>e\<in>set (source_of items sg). \<not> model_visible e)
      | Summary cid ref digest src preserved \<Rightarrow>
          (\<exists>e\<in>set items. ci_itemId (cx_item e) = cid \<and>
             ci_body (cx_item e) = Compaction (sg_from sg) (sg_through sg) ref digest src))"

lemma check_segment_contract:
  "check_segment sha items t sg = Inr () \<Longrightarrow> segment_contract items sg"
  unfolding check_segment_def segment_contract_def summary_backed_def Let_def
  by (auto simp: model_visible_def control_item_def split: segment_kind.splits if_splits option.splits
      dest!: find_SomeD)

text \<open>C33. The segments of a validated context are a partition of the durable items in order, each of them
  covered once; a raw segment holds only what the model may see, an excluded segment hides nothing the model
  should see, and a summary stands for the exact range of a compaction item that is itself durable.\<close>

theorem validated_context_is_a_partition:
  assumes "validate_context_items sha c items = Inr ()"
  shows "concat (map (source_of items) (cm_segments c)) = items \<and>
     (\<forall>sg\<in>set (cm_segments c). source_of items sg \<noteq> [] \<and> segment_contract items sg)"
proof -
  have r: "check_segments sha items 0 (cm_segments c) = Inr (int (length items))"
    using assms by (simp add: validate_iff)
  have "source_of items sg \<noteq> [] \<and> segment_contract items sg" if sg: "sg \<in> set (cm_segments c)" for sg
  proof -
    from check_segments_member [OF r sg] obtain t where t: "0 \<le> t" "check_segment sha items t sg = Inr ()" by auto
    with check_segment_range [OF t(2)] have "source_of items sg \<noteq> []" by (simp add: source_of_def)
    with check_segment_contract [OF t(2)] show ?thesis by simp
  qed
  with check_segments_concat [OF r] show ?thesis by simp
qed

section \<open>Compaction keeps the context valid\<close>

lemma check_segments_suffix:
  assumes "check_segments sha items t sgs = Inr u" and "sg \<in> set sgs"
  shows "check_segments sha items (sg_through sg) (filter (\<lambda>s. sg_from s > sg_through sg) sgs) = Inr u"
proof -
  obtain as bs where s: "sgs = as @ sg # bs" using assms(2) by (metis split_list)
  obtain t' where as: "check_segments sha items t as = Inr t'" and c: "check_segment sha items t' sg = Inr ()"
    and bs: "check_segments sha items (sg_through sg) bs = Inr u"
    using assms(1) by (auto simp: s check_segments_append and_then_Inr)
  note range = check_segment_range [OF c]
  have "filter (\<lambda>s. sg_from s > sg_through sg) (as @ [sg]) = []"
    using check_segments_range [OF as] range by (fastforce simp: filter_empty_conv)
  moreover have "filter (\<lambda>s. sg_from s > sg_through sg) bs = bs"
    using check_segments_range [OF bs] by (auto simp: filter_id_conv)
  ultimately show ?thesis using bs by (auto simp: s split: if_splits)
qed

lemma check_summary:
  assumes c: "check_segment sha items t sg = Inr ()" and t: "0 \<le> t"
    and fresh: "\<forall>e\<in>set items. ci_itemId (cx_item e) \<noteq> ci_itemId (cx_item x)"
    and body: "ci_body (cx_item x) = Compaction 1 (sg_through sg) ref digest src"
    and src: "src = context_source_digest sha (take (nat (sg_through sg)) items)"
  shows "check_segment sha (items @ [x]) 0
     \<lparr>sg_from = 1, sg_through = sg_through sg, sg_kind = Summary (ci_itemId (cx_item x)) ref digest src []\<rparr> = Inr ()"
proof -
  note range = check_segment_range [OF c]
  have safe: "sg_through sg \<le> max_safe_integer" using c by (auto simp: check_segment_def split: if_splits)
  have "find (\<lambda>e. ci_itemId (cx_item e) = ci_itemId (cx_item x)) items = None"
    using fresh by (simp add: find_None)
  then have f: "find (\<lambda>e. ci_itemId (cx_item e) = ci_itemId (cx_item x)) (items @ [x]) = Some x"
    by (simp add: find_append)
  have "nat (sg_through sg) \<le> length items" using range by linarith
  then have s: "source_of (items @ [x]) \<lparr>sg_from = 1, sg_through = sg_through sg, sg_kind = k\<rparr>
      = take (nat (sg_through sg)) items" for k
    by (simp add: source_of_def)
  show ?thesis
    using range t safe f body src unfolding check_segment_def s by (simp add: Let_def summary_backed_def)
qed

text \<open>C32. Compacting a prefix that ends at a segment boundary cannot be refused: with the compaction item appended
  the context is valid again, the summary stands for exactly the items up to the boundary, the segments behind
  the boundary are untouched, and the item itself is excluded control.\<close>

theorem compaction_validates:
  assumes v: "validate_context_items sha c items = Inr ()" and sg: "sg \<in> set (cm_segments c)"
    and plan: "cp_throughItemSeq plan = sg_through sg"
      "cp_sourceItemsDigest plan = context_source_digest sha (take (nat (sg_through sg)) items)"
    and adm: "admissible_items c items [x]"
    and body: "ci_body x = Compaction 1 (sg_through sg) ref digest (cp_sourceItemsDigest plan)"
  shows "\<exists>c' rows own. plan_continuation_commit sha (replace_compacted_prefix c plan (ci_itemId x) ref digest) items [x]
       = Inr (c', rows) \<and> validate_context_items sha c' rows = Inr () \<and>
     cm_segments c' =
       \<lparr>sg_from = 1, sg_through = sg_through sg,
        sg_kind = Summary (ci_itemId x) ref digest (cp_sourceItemsDigest plan) []\<rparr>
       # filter (\<lambda>s. sg_from s > sg_through sg) (cm_segments c) @ [own] \<and>
     own = \<lparr>sg_from = int (length items) + 1, sg_through = int (length items) + 1,
            sg_kind = Excluded_control (context_source_digest sha [last rows])\<rparr>"
proof -
  define r where "r = replace_compacted_prefix c plan (ci_itemId x) ref digest"
  define e where "e = \<lparr>cx_itemSeq = int (length items) + 1, cx_itemRef = sha (H_item x), cx_item = x\<rparr>"
  have es: "added_items sha (int (length items)) [x] = [e]"
    by (simp add: added_items_def e_def)
  have vs: "cm_throughItemSeq c = int (length items)" "distinct (map (\<lambda>e. ci_itemId (cx_item e)) items)"
    "durable_rows sha (cm_runId c) items" "check_segments sha items 0 (cm_segments c) = Inr (int (length items))"
    using v by (simp_all add: validate_iff)
  have rr: "cm_runId r = cm_runId c" "cm_throughItemSeq r = cm_throughItemSeq c"
    by (simp_all add: r_def replace_compacted_prefix_def)
  obtain t where t: "0 \<le> t" "check_segment sha items t sg = Inr ()"
    using check_segments_member [OF vs(4) sg] by auto
  have rest: "check_segments sha (items @ [e]) (sg_through sg) (filter (\<lambda>s. sg_from s > sg_through sg) (cm_segments c))
      = Inr (int (length items))"
    using check_segment_range [OF t(2)] t(1)
    by (intro check_segments_append_items [OF check_segments_suffix [OF vs(4) sg]]) simp
  have head: "check_segment sha (items @ [e]) 0
      \<lparr>sg_from = 1, sg_through = sg_through sg,
       sg_kind = Summary (ci_itemId (cx_item e)) ref digest (cp_sourceItemsDigest plan) []\<rparr> = Inr ()"
    by (rule check_summary [OF t(2,1)]) (use adm body plan in \<open>auto simp: admissible_items_def e_def\<close>)
  have segs: "check_segments sha (items @ [e]) 0 (cm_segments r) = Inr (int (length items))"
    using head rest by (simp add: r_def replace_compacted_prefix_def plan e_def)
  have ok: "validate_context_items sha (append_context sha r [e]) (items @ [e]) = Inr ()"
    using append_validates [of r items sha "[x]"] vs rr segs adm by (simp add: es admissible_items_def)
  have "plan_continuation_commit sha r items [x] = Inr (append_context sha r [e], items @ [e])"
    using ok by (simp add: plan_continuation_commit_def rr vs(1) es Let_def)
  moreover have "\<not> model_visible e"
    by (simp add: model_visible_def item_kind_def e_def body)
  ultimately show ?thesis
    using ok unfolding r_def [symmetric]
    by (intro exI [of _ "append_context sha r [e]"] exI [of _ "items @ [e]"] exI [of _ "own_segment sha e"])
      (auto simp: append_context_def Let_def own_segment_def r_def replace_compacted_prefix_def plan e_def)
qed

section \<open>Closed boundaries split a context\<close>

text \<open>Two walks agree when they differ only in the boundaries already collected and, with no batch open, in the index.\<close>

definition same_batch :: "batch_state \<Rightarrow> batch_state \<Rightarrow> bool" where
  "same_batch s s' \<longleftrightarrow> bs_batch s = bs_batch s' \<and> bs_awaiting s = bs_awaiting s' \<and>
     (bs_batch s \<noteq> None \<longrightarrow> bs_nextIndex s = bs_nextIndex s')"

lemma next_call_same: "same_batch s s' \<Longrightarrow> next_call s b c i = next_call s' b c i"
  by (auto simp: same_batch_def next_call_def split: option.splits)

lemma batch_step_same:
  assumes "same_batch s s'" and "batch_step s e = Inr u"
  shows "\<exists>u'. batch_step s' e = Inr u' \<and> same_batch u u' \<and> bs_closed u = bs_closed s \<and> bs_closed u' = bs_closed s'"
  using assms next_call_same [OF assms(1)]
  by (cases "ci_body (cx_item e)")
    (auto simp: batch_step_def same_batch_def next_call_def split: if_splits option.splits)

lemma batch_run_same:
  assumes "same_batch s s'" and "batch_run s es = Inr u"
  shows "\<exists>u' N. batch_run s' es = Inr u' \<and> same_batch u u' \<and>
     bs_closed u = bs_closed s \<union> N \<and> bs_closed u' = bs_closed s' \<union> N \<and> N \<subseteq> cx_itemSeq ` set es"
  using assms
proof (induction es arbitrary: s s')
  case Nil
  then show ?case by (intro exI [of _ s'] exI [of _ "{}"]) auto
next
  case (Cons e es)
  from Cons.prems(2) obtain v where v: "batch_step s e = Inr v" by (auto simp: and_then_Inr)
  obtain v' where v': "batch_step s' e = Inr v'" "same_batch v v'" "bs_closed v = bs_closed s" "bs_closed v' = bs_closed s'"
    using batch_step_same [OF Cons.prems(1) v] by blast
  have o: "is_open v' = is_open v" using v'(2) by (simp add: is_open_def same_batch_def)
  define m where "m = (\<lambda>w :: batch_state. if is_open v then w else w\<lparr>bs_closed := insert (cx_itemSeq e) (bs_closed w)\<rparr>)"
  have "same_batch (m v) (m v')" using v'(2) by (simp add: m_def same_batch_def)
  moreover have "batch_run (m v) es = Inr u" using Cons.prems(2) by (simp add: v m_def)
  ultimately obtain u' N where u': "batch_run (m v') es = Inr u'" "same_batch u u'"
      "bs_closed u = bs_closed (m v) \<union> N" "bs_closed u' = bs_closed (m v') \<union> N" "N \<subseteq> cx_itemSeq ` set es"
    using Cons.IH [of "m v" "m v'"] by blast
  have run: "batch_run s' (e # es) = Inr u'" using u'(1) by (simp add: v'(1) o m_def)
  define B where "B = (if is_open v then {} else {cx_itemSeq e})"
  have m: "bs_closed (m w) = bs_closed w \<union> B" for w by (simp add: m_def B_def)
  have "bs_closed u = bs_closed s \<union> (B \<union> N)" "bs_closed u' = bs_closed s' \<union> (B \<union> N)"
    using u'(3,4) v'(3,4) by (simp_all add: m Un_assoc)
  moreover have "B \<union> N \<subseteq> cx_itemSeq ` set (e # es)" using u'(5) by (auto simp: B_def)
  ultimately show ?case using run u'(2) by blast
qed

lemma batch_run_append: "batch_run s (xs @ ys) = and_then (batch_run s xs) (\<lambda>u. batch_run u ys)"
proof (induction xs arbitrary: s)
  case (Cons x xs)
  then show ?case by (cases "batch_step s x") auto
qed simp

lemma batch_run_last:
  assumes "batch_run s (xs @ [x]) = Inr u" and "cx_itemSeq x \<notin> cx_itemSeq ` set xs" and "cx_itemSeq x \<notin> bs_closed s"
  shows "cx_itemSeq x \<in> bs_closed u \<longleftrightarrow> \<not> is_open u"
proof -
  obtain v where v: "batch_run s xs = Inr v" and b: "batch_run v [x] = Inr u"
    using assms(1) by (auto simp: batch_run_append and_then_Inr)
  obtain w where w: "batch_step v x = Inr w" using b by (auto simp: and_then_Inr)
  have "same_batch s s" "same_batch v v" by (simp_all add: same_batch_def)
  then obtain N where "bs_closed v = bs_closed s \<union> N" "N \<subseteq> cx_itemSeq ` set xs" "bs_closed w = bs_closed v"
    using batch_run_same [OF _ v] batch_step_same [OF _ w] by metis
  with assms(2,3) have "cx_itemSeq x \<notin> bs_closed w" by blast
  with b w show ?thesis by (auto simp: is_open_def split: if_splits)
qed

text \<open>C34. The closed boundaries are exactly the places where a history can be cut: the part before a boundary and
  the part behind it are both complete histories, every tool batch lies wholly in one of them, and the two
  parts have together the boundaries of the whole.\<close>

theorem closed_boundary_cuts:
  assumes "xs \<noteq> []" and "distinct (map cx_itemSeq (xs @ ys))"
  shows "closed_boundaries (xs @ ys) = Inr C \<and> cx_itemSeq (last xs) \<in> C \<longleftrightarrow>
     (\<exists>A B. closed_boundaries xs = Inr A \<and> closed_boundaries ys = Inr B \<and> C = A \<union> B)"
proof -
  obtain zs x where xs: "xs = zs @ [x]" using assms(1) by (metis append_butlast_last_id)
  have x_new: "cx_itemSeq x \<notin> cx_itemSeq ` set zs" "cx_itemSeq x \<notin> cx_itemSeq ` set ys"
    using assms(2) by (auto simp: xs)
  have last_iff: "cx_itemSeq x \<in> bs_closed v \<longleftrightarrow> \<not> is_open v" if "batch_run no_batch xs = Inr v" for v
    by (rule batch_run_last [OF that [unfolded xs] x_new(1)]) (simp add: no_batch_def)
  have closed_same: "same_batch v no_batch" if "\<not> is_open v" for v
    using that by (cases "bs_batch v") (simp_all add: is_open_def same_batch_def no_batch_def)
  have empty: "bs_closed no_batch = {}" by (simp add: no_batch_def)
  show ?thesis
  proof
    assume l: "closed_boundaries (xs @ ys) = Inr C \<and> cx_itemSeq (last xs) \<in> C"
    then obtain v u where v: "batch_run no_batch xs = Inr v" and u: "batch_run v ys = Inr u" "\<not> is_open u" "C = bs_closed u"
      by (auto simp: closed_boundaries_def batch_run_append and_then_Inr split: if_splits)
    obtain N where N: "bs_closed u = bs_closed v \<union> N" "N \<subseteq> cx_itemSeq ` set ys"
      using batch_run_same [OF _ u(1), of v] by (auto simp: same_batch_def)
    with l u(3) x_new(2) have "cx_itemSeq x \<in> bs_closed v" by (auto simp: xs)
    with last_iff [OF v] have o: "\<not> is_open v" by simp
    obtain u' M where M: "batch_run no_batch ys = Inr u'" "same_batch u u'"
        "bs_closed u = bs_closed v \<union> M" "bs_closed u' = bs_closed no_batch \<union> M"
      using batch_run_same [OF closed_same [OF o] u(1)] by blast
    have "\<not> is_open u'" using M(2) u(2) by (simp add: is_open_def same_batch_def)
    with v o M u show "\<exists>A B. closed_boundaries xs = Inr A \<and> closed_boundaries ys = Inr B \<and> C = A \<union> B"
      by (intro exI [of _ "bs_closed v"] exI [of _ "bs_closed u'"]) (auto simp: closed_boundaries_def empty)
  next
    assume "\<exists>A B. closed_boundaries xs = Inr A \<and> closed_boundaries ys = Inr B \<and> C = A \<union> B"
    then obtain v w where v: "batch_run no_batch xs = Inr v" "\<not> is_open v" and w: "batch_run no_batch ys = Inr w"
        "\<not> is_open w" and C: "C = bs_closed v \<union> bs_closed w"
      by (auto simp: closed_boundaries_def and_then_Inr split: if_splits)
    have "same_batch no_batch v" using closed_same [OF v(2)] by (auto simp: same_batch_def)
    then obtain u M where u: "batch_run v ys = Inr u" "same_batch w u"
        "bs_closed w = bs_closed no_batch \<union> M" "bs_closed u = bs_closed v \<union> M"
      using batch_run_same [OF _ w(1)] by blast
    have "\<not> is_open u" using u(2) w(2) by (simp add: is_open_def same_batch_def)
    moreover have "bs_closed u = C" using u(3,4) C empty by simp
    ultimately have "closed_boundaries (xs @ ys) = Inr C"
      by (simp add: closed_boundaries_def batch_run_append v(1) u(1))
    moreover have "cx_itemSeq (last xs) \<in> C" using last_iff [OF v(1)] v(2) C by (simp add: xs)
    ultimately show "closed_boundaries (xs @ ys) = Inr C \<and> cx_itemSeq (last xs) \<in> C" by simp
  qed
qed

section \<open>A sample history\<close>

definition sample_sha :: "hashed \<Rightarrow> string" where
  "sample_sha h = (case h of
     H_item x \<Rightarrow> ''item:'' @ ci_itemId x
   | H_source rows \<Rightarrow> ''source:'' @ concat (map (snd \<circ> snd) rows)
   | H_rows rows \<Rightarrow> ''rows:'' @ concat (map snd rows)
   | H_manifest r t adm sgs asm \<Rightarrow> ''manifest:'' @ r @ asm)"

definition sample_news :: "continuation_item list" where
  "sample_news =
     [\<lparr>ci_itemId = ''turn'', ci_runId = ''r'', ci_body = Model_Turn Stop_tool_calls, ci_unread = []\<rparr>,
      \<lparr>ci_itemId = ''batch'', ci_runId = ''r'', ci_body = Tool_Batch [''c0''], ci_unread = []\<rparr>,
      \<lparr>ci_itemId = ''result'', ci_runId = ''r'', ci_body = Tool_Result ''batch'' ''c0'' 0, ci_unread = []\<rparr>]"

definition sample_empty :: context_manifest where
  "sample_empty =
     \<lparr>cm_runId = ''r'', cm_throughItemSeq = 0, cm_admittedContextRef = ''admitted'', cm_segments = [],
      cm_assemblyRef = ''assembly'', cm_projectionDigest = ''manifest:rassembly''\<rparr>"

definition sample_items :: "context_item list" where
  "sample_items = added_items sample_sha 0 sample_news"

definition sample_context :: context_manifest where
  "sample_context = append_context sample_sha sample_empty sample_items"

definition sample_compaction :: continuation_item where
  "sample_compaction = \<lparr>ci_itemId = ''compaction'', ci_runId = ''r'',
     ci_body = Compaction 1 3 ''ref'' ''digest'' ''source:item:turnitem:batchitem:result'', ci_unread = []\<rparr>"

lemma sample_empty_valid: "validate_context_items sample_sha sample_empty [] = Inr ()"
  by (simp add: validate_iff sample_empty_def sample_sha_def manifest_digest_def durable_rows_def)

lemma sample_admissible: "admissible_items sample_empty [] sample_news"
  by (simp add: admissible_items_def sample_news_def sample_empty_def max_safe_integer_def)

lemma sample_items_simp: "sample_items =
    [\<lparr>cx_itemSeq = 1, cx_itemRef = ''item:turn'', cx_item = sample_news ! 0\<rparr>,
     \<lparr>cx_itemSeq = 2, cx_itemRef = ''item:batch'', cx_item = sample_news ! 1\<rparr>,
     \<lparr>cx_itemSeq = 3, cx_itemRef = ''item:result'', cx_item = sample_news ! 2\<rparr>]"
  by (simp add: sample_items_def sample_news_def added_items_def sample_sha_def)

lemma sample_valid: "validate_context_items sample_sha sample_context sample_items = Inr ()"
  using append_validates [of sample_empty "[]" sample_sha sample_news] sample_admissible
  by (simp add: sample_context_def sample_items_def durable_rows_def sample_empty_def)

theorem continuation_commit_validates_witness:
  "\<exists>c' rows. plan_continuation_commit sample_sha sample_empty [] sample_news = Inr (c', rows) \<and>
     map cx_item rows = sample_news"
  using continuation_commit_validates [OF sample_empty_valid sample_admissible] by auto

theorem validated_context_is_a_partition_witness:
  "concat (map (source_of sample_items) (cm_segments sample_context)) = sample_items"
  using validated_context_is_a_partition [OF sample_valid] by simp

theorem compaction_validates_witness:
  "\<exists>c' rows. plan_continuation_commit sample_sha
     (replace_compacted_prefix sample_context
        \<lparr>cp_throughItemSeq = 3, cp_sourceItemsDigest = ''source:item:turnitem:batchitem:result''\<rparr>
        ''compaction'' ''ref'' ''digest'') sample_items [sample_compaction] = Inr (c', rows) \<and>
     map sg_through (cm_segments c') = [3, 4]"
proof -
  define sg where "sg = own_segment sample_sha (last sample_items)"
  have mem: "sg \<in> set (cm_segments sample_context)" and t: "sg_through sg = 3"
    by (simp_all add: sg_def sample_context_def append_context_def sample_items_simp Let_def own_segment_def)
  have "admissible_items sample_context sample_items [sample_compaction]"
    by (simp add: admissible_items_def sample_context_def append_context_def Let_def sample_items_simp sample_news_def
        sample_compaction_def sample_empty_def max_safe_integer_def)
  moreover have "context_source_digest sample_sha (take (nat 3) sample_items) = ''source:item:turnitem:batchitem:result''"
    by (simp add: sample_items_simp context_source_digest_def sample_sha_def)
  moreover have "map sg_through (filter (\<lambda>s. sg_from s > 3) (cm_segments sample_context)) = []"
    by (simp add: sample_context_def append_context_def Let_def sample_items_simp own_segment_def sample_empty_def)
  moreover have "length sample_items = 3" by (simp add: sample_items_simp)
  ultimately show ?thesis
    using compaction_validates [OF sample_valid mem, of "\<lparr>cp_throughItemSeq = 3, cp_sourceItemsDigest = ''source:item:turnitem:batchitem:result''\<rparr>" sample_compaction "''ref''" "''digest''"]
    by (fastforce simp: t sample_compaction_def)
qed

theorem closed_boundary_cuts_witness:
  "closed_boundaries sample_items = Inr {3} \<and> closed_boundaries [] = Inr {} \<and>
   cx_itemSeq (last sample_items) \<in> {3}"
proof -
  have "closed_boundaries sample_items = Inr {3}"
    by (simp add: closed_boundaries_def sample_items_simp sample_news_def no_batch_def batch_step_def
        is_open_def next_call_def at_def)
  moreover have "closed_boundaries [] = Inr {}" by (simp add: closed_boundaries_def no_batch_def is_open_def)
  moreover have "sample_items \<noteq> []" "distinct (map cx_itemSeq (sample_items @ []))" by (simp_all add: sample_items_simp)
  ultimately show ?thesis using closed_boundary_cuts [of sample_items "[]" "{3}"] by simp
qed

end
