(* ===== verification/Tx_Types.thy ===== *)
theory Tx_Types
  imports Prelude
begin

text \<open>
  Data of the workspace transactions: \<open>src/workspace/transactions/types.ts\<close> and \<open>diff.ts\<close>, and the
  transaction records of \<open>src/session/types.ts\<close>.  An optional field is an option; times are strings.
\<close>

section \<open>Transactions\<close>

datatype tx_state = Staging | Finalized | Validated | Approved | Applied | Aborted | Applied_partial

datatype severity = Blocking | Advisory

datatype validator_status = V_pass | V_fail | V_error

record tx_diff_summary =
  ds_filesChanged :: nat
  ds_additions :: nat
  ds_deletions :: nat
  ds_creates :: "string list"
  ds_modifies :: "string list"
  ds_deletes :: "string list"

record override_entry =
  ov_validatorName :: string
  ov_reason :: "string option"
  ov_by :: string
  ov_ts :: string

record validator_summary =
  vs_name :: string
  vs_severity :: severity
  vs_status :: validator_status
  vs_durationMs :: nat

record transaction =
  tx_id :: string
  tx_state :: tx_state
  tx_workspaceId :: string
  tx_sessionId :: string
  tx_workspaceRealPath :: string
  tx_createdAt :: string
  tx_updatedAt :: string
  tx_diffSummary :: "tx_diff_summary option"
  tx_validators :: "validator_summary list option"
  tx_blockingFailures :: "string list option"
  tx_overridesApplied :: "override_entry list option"
  tx_ghostSnapshotId :: "string option"

datatype apply_phase = Apply_pending | Apply_writing | Apply_committed | Apply_finalized | Apply_failed_partial

record apply_progress =
  ap_phase :: apply_phase
  ap_ghostSnapshotId :: string
  ap_startedAt :: string
  ap_filesPlanned :: "string list"
  ap_filesWritten :: "string list"
  ap_error :: "(string \<times> string option) option" \<comment> \<open>stage and path; the message text is not kept\<close>

datatype abort_phase = Aborting | Abort_done

datatype abort_reason =
    Validator_fail | User_abort | Apply_error | Apply_conflicted | Staging_error | Partial_restored | Partial_kept

record abort_progress =
  ab_phase :: abort_phase
  ab_reason :: abort_reason
  ab_startedAt :: string
  ab_ts :: string

datatype diff_entry =
    Diff_create (de_path: string) (de_new: string)
  | Diff_modify (de_path: string) (de_old: string) (de_new: string)
  | Diff_delete (de_path: string) (de_old: string)

record bash_effect =
  be_command :: string
  be_exitCode :: int
  be_pathsChanged :: "string list"

section \<open>Identifiers\<close>

definition tx_id_prefix :: string where "tx_id_prefix = ''tx_''"

definition id_char :: "char \<Rightarrow> bool" where
  "id_char c = (js_letter c \<or> js_digit c \<or> c = CHR ''_'' \<or> c = CHR ''-'')"

definition crockford_char :: "char \<Rightarrow> bool" where
  "crockford_char c = (c \<in> set ''0123456789ABCDEFGHJKMNPQRSTVWXYZ'')"

definition is_valid_tx_id :: "string \<Rightarrow> bool" where
  "is_valid_tx_id s =
     (starts_with s tx_id_prefix \<and>
      (let rest = drop 3 s in 1 \<le> length rest \<and> length rest \<le> 124 \<and> list_all id_char rest))"

definition is_strict_tx_id :: "string \<Rightarrow> bool" where
  "is_strict_tx_id s =
     (starts_with s tx_id_prefix \<and> length (drop 3 s) = 26 \<and> list_all crockford_char (drop 3 s))"

definition open_record_id :: "string \<Rightarrow> string" where "open_record_id i = ''txrec_open_'' @ i"
definition apply_record_id :: "string \<Rightarrow> string" where "apply_record_id i = ''txrec_apply_'' @ i"
definition abort_record_id :: "string \<Rightarrow> string" where "abort_record_id i = ''txrec_abort_'' @ i"

text \<open>\<open>makeTxId\<close>: the 48 bits of the time and 80 random bits, padded to 130, five bits a character.\<close>

fun bits_value :: "bool list \<Rightarrow> nat" where
  "bits_value [] = 0"
| "bits_value (b # bs) = (if b then 2 ^ length bs else 0) + bits_value bs"

fun crockford_digits :: "nat \<Rightarrow> bool list \<Rightarrow> string" where
  "crockford_digits 0 bits = []"
| "crockford_digits (Suc n) bits =
     (''0123456789ABCDEFGHJKMNPQRSTVWXYZ'' ! bits_value (take 5 bits)) # crockford_digits n (drop 5 bits)"

definition make_tx_id :: "bool list \<Rightarrow> bool list \<Rightarrow> string" where
  "make_tx_id time rand = tx_id_prefix @ crockford_digits 26 (time @ rand @ replicate (130 - length (time @ rand)) False)"

section \<open>Summaries\<close>

record validator_counts =
  vc_blockingPass :: nat
  vc_blockingFail :: nat
  vc_advisoryPass :: nat
  vc_advisoryFail :: nat
  vc_advisoryNames :: "string list"

definition no_counts :: validator_counts where
  "no_counts = \<lparr>vc_blockingPass = 0, vc_blockingFail = 0, vc_advisoryPass = 0, vc_advisoryFail = 0, vc_advisoryNames = []\<rparr>"

definition count_validator :: "validator_summary \<Rightarrow> validator_counts \<Rightarrow> validator_counts" where
  "count_validator v c =
     (if vs_severity v = Blocking then
        (if vs_status v = V_pass then c\<lparr>vc_blockingPass := vc_blockingPass c + 1\<rparr>
         else c\<lparr>vc_blockingFail := vc_blockingFail c + 1\<rparr>)
      else if vs_status v = V_pass then c\<lparr>vc_advisoryPass := vc_advisoryPass c + 1\<rparr>
      else c\<lparr>vc_advisoryFail := vc_advisoryFail c + 1, vc_advisoryNames := vc_advisoryNames c @ [vs_name v]\<rparr>)"

definition validator_summary_from_results :: "validator_summary list \<Rightarrow> validator_counts" where
  "validator_summary_from_results vs = fold count_validator vs no_counts"

definition validator_summary_from_tx :: "transaction \<Rightarrow> validator_counts" where
  "validator_summary_from_tx tx =
     validator_summary_from_results (case tx_validators tx of None \<Rightarrow> [] | Some vs \<Rightarrow> vs)"

text \<open>\<open>summarizeDiff\<close>: only modified files count, by their numbers of lines (natural subtraction is \<open>max(0, \<dots>)\<close>).\<close>

definition line_count :: "string \<Rightarrow> nat" where
  "line_count s = length (split_on CHR 0x0A s)"

fun summarize_entry :: "diff_entry \<Rightarrow> tx_diff_summary \<Rightarrow> tx_diff_summary" where
  "summarize_entry (Diff_modify p old new) s =
     s\<lparr>ds_modifies := ds_modifies s @ [p],
       ds_additions := ds_additions s + (line_count new - line_count old),
       ds_deletions := ds_deletions s + (line_count old - line_count new)\<rparr>"
| "summarize_entry _ s = s"

definition summarize_diff :: "diff_entry list \<Rightarrow> tx_diff_summary" where
  "summarize_diff files = fold summarize_entry files
     \<lparr>ds_filesChanged = length files, ds_additions = 0, ds_deletions = 0, ds_creates = [], ds_modifies = [], ds_deletes = []\<rparr>"

section \<open>Session records\<close>

datatype record_body =
    Tx_opened (ro_txId: string) (ro_name: "string option")
  | Tx_applied (ra_txId: string) (ra_diffSummary: tx_diff_summary) (ra_validators: validator_counts)
      (ra_overrides: "override_entry list") (ra_artifactRef: string) (ra_ghostSnapshotId: string)
  | Tx_aborted (rb_txId: string) (rb_reason: abort_reason) (rb_note: "string option")
      (rb_failedValidators: "string list option") (rb_files: "string list \<times> string list \<times> string list")
      (rb_artifactRef: string) (rb_appliedPartial: "(string list \<times> string \<times> bool) option")
  | Other_Record \<comment> \<open>a record of another kind\<close>

record session_record =
  sr_id :: string
  sr_content :: string
  sr_body :: record_body

record session =
  ss_id :: string
  ss_records :: "session_record list"
  ss_activeTxId :: "string option"

definition has_record :: "session \<Rightarrow> string \<Rightarrow> bool" where
  "has_record s i = list_ex (\<lambda>r. sr_id r = i) (ss_records s)"

fun reason_text :: "abort_reason \<Rightarrow> string" where
  "reason_text Validator_fail = ''validator-fail''"
| "reason_text User_abort = ''user-abort''"
| "reason_text Apply_error = ''apply-error''"
| "reason_text Apply_conflicted = ''apply-conflict''"
| "reason_text Staging_error = ''staging-error''"
| "reason_text Partial_restored = ''apply-failed-partial-restored''"
| "reason_text Partial_kept = ''apply-failed-partial-kept''"

section \<open>Runtime events\<close>

datatype tx_event =
    Ev_staging_start string
  | Ev_finalized string tx_diff_summary
  | Ev_validated string validator_counts "string list"
  | Ev_applied string tx_diff_summary validator_counts string \<comment> \<open>with the id of the ghost snapshot\<close>
  | Ev_aborted (ev_txId: string) (ev_reason: abort_reason) (ev_failed: "string list option")
  | Ev_error (ev_code: string) (ev_recoverable: bool)

section \<open>Lemmas\<close>

lemma record_ids_distinct [simp]:
  "open_record_id i \<noteq> apply_record_id j" "open_record_id i \<noteq> abort_record_id j" "apply_record_id i \<noteq> abort_record_id j"
  "apply_record_id i \<noteq> open_record_id j" "abort_record_id i \<noteq> open_record_id j" "abort_record_id i \<noteq> apply_record_id j"
  by (simp_all add: open_record_id_def apply_record_id_def abort_record_id_def)

lemma record_ids_inject [simp]:
  "open_record_id i = open_record_id j \<longleftrightarrow> i = j" "apply_record_id i = apply_record_id j \<longleftrightarrow> i = j"
  "abort_record_id i = abort_record_id j \<longleftrightarrow> i = j"
  by (simp_all add: open_record_id_def apply_record_id_def abort_record_id_def)

lemma bits_value_less: "bits_value bs < 2 ^ length bs"
  by (induction bs) auto

lemma crockford_digits_chars: "length (crockford_digits n bits) = n \<and> list_all crockford_char (crockford_digits n bits)"
proof (induction n arbitrary: bits)
  case (Suc n)
  let ?alphabet = "''0123456789ABCDEFGHJKMNPQRSTVWXYZ''"
  have "bits_value (take 5 bits) < 2 ^ length (take 5 bits)" by (rule bits_value_less)
  also have "\<dots> \<le> 2 ^ 5" by (rule power_increasing) auto
  finally have "bits_value (take 5 bits) < length ?alphabet" by simp
  then have "?alphabet ! bits_value (take 5 bits) \<in> set ?alphabet" by (rule nth_mem)
  then show ?case using Suc.IH by (simp add: crockford_char_def)
qed simp

lemma crockford_is_id_char: "crockford_char c \<Longrightarrow> id_char c"
  by (auto simp: crockford_char_def id_char_def js_letter_def js_digit_def)

lemma strict_is_valid: "is_strict_tx_id s \<Longrightarrow> is_valid_tx_id s"
  by (auto simp: is_strict_tx_id_def is_valid_tx_id_def Let_def list_all_iff crockford_is_id_char)

lemma make_tx_id_strict: "is_strict_tx_id (make_tx_id time rand)"
  by (simp add: is_strict_tx_id_def make_tx_id_def tx_id_prefix_def crockford_digits_chars)

text \<open>A valid id is one path segment: no separator and no dot can occur in it.\<close>

lemma valid_tx_id_segment:
  assumes "is_valid_tx_id s"
  shows "CHR ''/'' \<notin> set s \<and> CHR 0x5C \<notin> set s \<and> CHR ''.'' \<notin> set s \<and> s \<noteq> []"
proof -
  from assms obtain r where s: "s = ''tx_'' @ r" and r: "\<forall>c\<in>set r. id_char c"
    by (auto simp: is_valid_tx_id_def starts_with_iff_append tx_id_prefix_def list_all_iff Let_def)
  have "\<not> id_char (CHR ''/'')" "\<not> id_char (CHR 0x5C)" "\<not> id_char (CHR ''.'')"
    by (simp_all add: id_char_def js_letter_def js_digit_def)
  with r show ?thesis by (auto simp: s)
qed

end
