(* ===== verification/Tx_Store.thy ===== *)
theory Tx_Store
  imports Tx_Types "HOL-Library.AList"
begin

text \<open>
  The transaction store of \<open>src/workspace/transactions/store.ts\<close> and the programs that run on it.  A program
  returns its result, the final world and every world that a crash can leave behind: one after each durable
  write.  A state file is replaced by a rename, so it is written whole or not at all.

  Paths of workspace files are relative to the workspace.  The disk may change under the program and may fail
  while workspace files are read or written: the faults it meets are taken from a schedule in the world.
  The in-memory session is the one on disk, the clock is a field of the world, and locks are always obtained.
\<close>

section \<open>The world\<close>

datatype recovery_action =
    Apply_pending_reverted | Apply_pending_orphan_discarded | Apply_writing_partial | Apply_committed_stage_c
  | Apply_finalized_state | Abort_aborting_resumed | Abort_finalized_state | No_op

datatype recovery_warning =
    Orphan_discarded tx_state
  | Partial_written "string list"
  | Cross_session_skipped string string

record recovery_outcome =
  rc_txId :: string
  rc_action :: recovery_action
  rc_warning :: "recovery_warning option"
  rc_ts :: string

record tx_dir =
  td_state :: "transaction option"
  td_apply :: "apply_progress option"
  td_abort :: "abort_progress option"
  td_diff :: "diff_entry list option"
  td_overlay :: "(string \<times> string) list" \<comment> \<open>files in the order of the walk\<close>
  td_effects :: "bash_effect list"
  td_artifactErrors :: "string list" \<comment> \<open>what reading the validator artifacts reports\<close>
  td_recovery :: "recovery_outcome option"

definition empty_tx_dir :: tx_dir where
  "empty_tx_dir = \<lparr>td_state = None, td_apply = None, td_abort = None, td_diff = None, td_overlay = [],
     td_effects = [], td_artifactErrors = [], td_recovery = None\<rparr>"

type_synonym files = "string \<Rightarrow> string option"

datatype fault =
    Calm
  | External string "string option" \<comment> \<open>another program rewrites or removes the file first\<close>
  | Io_failure

record world =
  w_root :: "(string \<times> tx_dir) list" \<comment> \<open>directories in listing order\<close>
  w_files :: files
  w_session :: session
  w_snapshots :: "string \<Rightarrow> files option"
  w_now :: string
  w_faults :: "fault list"
  w_events :: "tx_event list" \<comment> \<open>emitted so far\<close>

datatype apply_rejection = Wrong_state tx_state | Being_aborted | Already_in_flight | Index_changed

datatype abort_rejection =
    Apply_in_flight apply_phase | Exclusive_flags | Flag_required | Flag_without_partial "tx_state option"
  | Ghost_id_missing

datatype tx_error =
    Invalid_tx_id
  | Tx_not_found
  | Apply_rejected apply_rejection
  | Apply_conflict string
  | Apply_partial (ep_path: string) (ep_ghost: string)
  | Metadata_missing
  | Abort_rejected abort_rejection
  | Diff_missing
  | Unsupported_op string
  | Read_failed string
  | Snapshot_failed string
  | Index_check_failed
  | Stage_b_state_changed
  | Apply_progress_missing
  | Decision_without_ghost
  | Restore_failed
  | State_required tx_state tx_state
  | Tx_vanished
  | State_race tx_state tx_state
  | Staged_view_failed
  | Confirm_missing

section \<open>Programs\<close>

type_synonym 'a prog = "world \<Rightarrow> (tx_error, 'a) result \<times> world \<times> world list"

definition ret :: "'a \<Rightarrow> 'a prog" where
  "ret x w = (Inr x, w, [])"

definition throw :: "tx_error \<Rightarrow> 'a prog" where
  "throw e w = (Inl e, w, [])"

definition then_do :: "'a prog \<Rightarrow> ('a \<Rightarrow> 'b prog) \<Rightarrow> 'b prog" where
  "then_do m f w =
     (case m w of
        (Inl e, w', ws) \<Rightarrow> (Inl e, w', ws)
      | (Inr x, w', ws) \<Rightarrow> (case f x w' of (r, w'', ws') \<Rightarrow> (r, w'', ws @ ws')))"

text \<open>\<open>try \<dots> catch\<close>.\<close>

definition catching :: "'a prog \<Rightarrow> (tx_error \<Rightarrow> 'a prog) \<Rightarrow> 'a prog" where
  "catching m h w =
     (case m w of
        (Inr x, w', ws) \<Rightarrow> (Inr x, w', ws)
      | (Inl e, w', ws) \<Rightarrow> (case h e w' of (r, w'', ws') \<Rightarrow> (r, w'', ws @ ws')))"

definition observe :: "(world \<Rightarrow> 'a) \<Rightarrow> 'a prog" where
  "observe g w = (Inr (g w), w, [])"

definition effect :: "(world \<Rightarrow> world) \<Rightarrow> unit prog" where
  "effect g w = (Inr (), g w, [g w])"

definition throw_when :: "bool \<Rightarrow> tx_error \<Rightarrow> unit prog" where
  "throw_when c e = (if c then throw e else ret ())"

definition result_of :: "'a prog \<Rightarrow> world \<Rightarrow> (tx_error, 'a) result" where
  "result_of m w = fst (m w)"

definition world_after :: "'a prog \<Rightarrow> world \<Rightarrow> world" where
  "world_after m w = fst (snd (m w))"

text \<open>An emitted event is not durable.\<close>

definition emit :: "tx_event \<Rightarrow> unit prog" where
  "emit e w = (Inr (), w\<lparr>w_events := w_events w @ [e]\<rparr>, [])"

text \<open>The worlds a crash can leave behind.\<close>

definition crash_points :: "'a prog \<Rightarrow> world \<Rightarrow> world set" where
  "crash_points m w = insert w (set (snd (snd (m w))))"

section \<open>The store\<close>

definition dir_of :: "world \<Rightarrow> string \<Rightarrow> tx_dir" where
  "dir_of w i = (case map_of (w_root w) i of None \<Rightarrow> empty_tx_dir | Some d \<Rightarrow> d)"

definition set_dir :: "string \<Rightarrow> tx_dir \<Rightarrow> world \<Rightarrow> world" where
  "set_dir i d w = w\<lparr>w_root := AList.update i d (w_root w)\<rparr>"

text \<open>\<open>txDir\<close> refuses an id that could leave the store.\<close>

definition checked :: "string \<Rightarrow> unit prog" where
  "checked i = throw_when (\<not> is_valid_tx_id i) Invalid_tx_id"

definition read_dir :: "(tx_dir \<Rightarrow> 'a) \<Rightarrow> string \<Rightarrow> 'a prog" where
  "read_dir f i = then_do (checked i) (\<lambda>_. observe (\<lambda>w. f (dir_of w i)))"

definition write_dir :: "(tx_dir \<Rightarrow> tx_dir) \<Rightarrow> string \<Rightarrow> unit prog" where
  "write_dir f i = then_do (checked i) (\<lambda>_. effect (\<lambda>w. set_dir i (f (dir_of w i)) w))"

definition read_tx_state :: "string \<Rightarrow> transaction option prog" where
  "read_tx_state = read_dir td_state"

definition write_tx_state :: "transaction \<Rightarrow> unit prog" where
  "write_tx_state tx = write_dir (\<lambda>d. d\<lparr>td_state := Some tx\<rparr>) (tx_id tx)"

definition read_apply_progress :: "string \<Rightarrow> apply_progress option prog" where
  "read_apply_progress = read_dir td_apply"

definition write_apply_progress :: "string \<Rightarrow> apply_progress \<Rightarrow> unit prog" where
  "write_apply_progress i p = write_dir (\<lambda>d. d\<lparr>td_apply := Some p\<rparr>) i"

definition delete_apply_progress :: "string \<Rightarrow> unit prog" where
  "delete_apply_progress i = write_dir (\<lambda>d. d\<lparr>td_apply := None\<rparr>) i"

definition read_abort_progress :: "string \<Rightarrow> abort_progress option prog" where
  "read_abort_progress = read_dir td_abort"

definition write_abort_progress :: "string \<Rightarrow> abort_progress \<Rightarrow> unit prog" where
  "write_abort_progress i p = write_dir (\<lambda>d. d\<lparr>td_abort := Some p\<rparr>) i"

definition read_diff :: "string \<Rightarrow> diff_entry list option prog" where
  "read_diff = read_dir td_diff"

definition write_diff :: "string \<Rightarrow> diff_entry list \<Rightarrow> unit prog" where
  "write_diff i fs = write_dir (\<lambda>d. d\<lparr>td_diff := Some fs\<rparr>) i"

text \<open>\<open>withTxLock\<close> creates the directory before it takes the lock.\<close>

definition with_tx_lock :: "string \<Rightarrow> 'a prog \<Rightarrow> 'a prog" where
  "with_tx_lock i body = then_do (write_dir (\<lambda>d. d) i) (\<lambda>_. body)"

definition create_tx :: "string \<Rightarrow> string \<Rightarrow> string \<Rightarrow> string \<Rightarrow> transaction prog" where
  "create_tx i workspaceId sessionId realPath =
     then_do (observe w_now) (\<lambda>ts.
     let tx = \<lparr>tx_id = i, tx_state = Staging, tx_workspaceId = workspaceId, tx_sessionId = sessionId,
               tx_workspaceRealPath = realPath, tx_createdAt = ts, tx_updatedAt = ts, tx_diffSummary = None,
               tx_validators = None, tx_blockingFailures = None, tx_overridesApplied = None, tx_ghostSnapshotId = None\<rparr> in
     then_do (write_tx_state tx) (\<lambda>_. ret tx))"

text \<open>\<open>mutateSession\<close>: the mutator works on a copy, which is saved when it returns.\<close>

definition mutate_session :: "(session \<Rightarrow> session prog) \<Rightarrow> unit prog" where
  "mutate_session mutator =
     then_do (observe w_session) (\<lambda>s.
     then_do (mutator s) (\<lambda>s'. effect (\<lambda>w. w\<lparr>w_session := s'\<rparr>)))"

section \<open>Workspace files\<close>

text \<open>Each access to a workspace file meets the next fault of the schedule.\<close>

definition next_fault :: "fault prog" where
  "next_fault w =
     (case w_faults w of
        [] \<Rightarrow> (Inr Calm, w, [])
      | Calm # fs \<Rightarrow> (Inr Calm, w\<lparr>w_faults := fs\<rparr>, [])
      | Io_failure # fs \<Rightarrow> (Inr Io_failure, w\<lparr>w_faults := fs\<rparr>, [])
      | External p c # fs \<Rightarrow>
          (let w' = w\<lparr>w_faults := fs, w_files := (w_files w)(p := c)\<rparr> in (Inr (External p c), w', [w'])))"

definition read_file :: "string \<Rightarrow> string prog" where
  "read_file p =
     then_do next_fault (\<lambda>f.
     if f = Io_failure then throw (Read_failed p)
     else then_do (observe (\<lambda>w. w_files w p)) (\<lambda>c.
       case c of None \<Rightarrow> throw (Read_failed p) | Some s \<Rightarrow> ret s))"

definition tmp_path :: "string \<Rightarrow> string" where
  "tmp_path p = p @ ''.cliq-tx-tmp''"

definition set_file :: "string \<Rightarrow> string option \<Rightarrow> world \<Rightarrow> world" where
  "set_file p c w = w\<lparr>w_files := (w_files w)(p := c)\<rparr>"

text \<open>
  Write and sync the temporary file, rename it over the target, sync the directory: each of the three may
  fail, the last one with the new content in place.
\<close>

definition write_file :: "string \<Rightarrow> string \<Rightarrow> unit prog" where
  "write_file p c =
     then_do next_fault (\<lambda>f.
     if f = Io_failure then throw (Read_failed p)
     else then_do (effect (set_file (tmp_path p) (Some c))) (\<lambda>_.
     then_do next_fault (\<lambda>g.
     if g = Io_failure then throw (Read_failed p)
     else then_do (effect (\<lambda>w. set_file p (Some c) (set_file (tmp_path p) None w))) (\<lambda>_.
     then_do next_fault (\<lambda>h.
     if h = Io_failure then throw (Read_failed p) else ret ())))))"

end
