(* ===== verification/Tx_Apply.thy ===== *)
theory Tx_Apply
  imports Tx_Store
begin

text \<open>
  The apply protocol of \<open>src/workspace/transactions/apply.ts\<close>: preflight and snapshot (stage A), the writes
  (stage B), the session record and the final state (stage C).

  What git and node's crypto module do is an argument: the content hash, the comparison of the git index with
  the validated one, the ghost snapshot and its restoration.
\<close>

datatype index_check = Index_same | Index_differs | Index_check_error

record tx_env =
  en_sha :: "string \<Rightarrow> string"
  en_index :: "world \<Rightarrow> index_check"
  en_snapshot :: "world \<Rightarrow> string option" \<comment> \<open>the id of the snapshot, if git could take one\<close>
  en_restore :: "files \<Rightarrow> files \<Rightarrow> files option" \<comment> \<open>the snapshot, the current files\<close>

record plan_entry =
  pe_path :: string
  pe_fingerprint :: string
  pe_newContent :: string

section \<open>Stage A\<close>

definition preflight_entry :: "tx_env \<Rightarrow> diff_entry \<Rightarrow> plan_entry prog" where
  "preflight_entry env e =
     (case e of
        Diff_modify p old new \<Rightarrow>
          then_do (read_file p) (\<lambda>real.
          if real \<noteq> old then throw (Apply_conflict p)
          else ret \<lparr>pe_path = p, pe_fingerprint = en_sha env real, pe_newContent = new\<rparr>)
      | Diff_create p _ \<Rightarrow> throw (Unsupported_op p)
      | Diff_delete p _ \<Rightarrow> throw (Unsupported_op p))"

fun preflight :: "tx_env \<Rightarrow> diff_entry list \<Rightarrow> plan_entry list prog" where
  "preflight env [] = ret []"
| "preflight env (e # es) =
     then_do (preflight_entry env e) (\<lambda>p. then_do (preflight env es) (\<lambda>ps. ret (p # ps)))"

text \<open>\<open>createApplyPreSnapshot\<close> of \<open>snapshot.ts\<close>.\<close>

definition create_apply_pre_snapshot :: "tx_env \<Rightarrow> string prog" where
  "create_apply_pre_snapshot env =
     then_do (observe (en_snapshot env)) (\<lambda>i.
     case i of
       None \<Rightarrow> throw (Snapshot_failed [])
     | Some ghost \<Rightarrow>
         then_do (effect (\<lambda>w. w\<lparr>w_snapshots := (w_snapshots w)(ghost := Some (w_files w))\<rparr>)) (\<lambda>_. ret ghost))"

definition check_index :: "tx_env \<Rightarrow> unit prog" where
  "check_index env =
     then_do (observe (en_index env)) (\<lambda>ix.
     case ix of
       Index_same \<Rightarrow> ret ()
     | Index_differs \<Rightarrow> throw (Apply_rejected Index_changed)
     | Index_check_error \<Rightarrow> throw Index_check_failed)"

text \<open>A4 and A5.\<close>

definition begin_apply :: "tx_env \<Rightarrow> string \<Rightarrow> plan_entry list \<Rightarrow> (plan_entry list \<times> string) prog" where
  "begin_apply env i plan =
     then_do (create_apply_pre_snapshot env) (\<lambda>ghost.
     then_do (observe w_now) (\<lambda>ts.
     then_do (write_apply_progress i
       \<lparr>ap_phase = Apply_pending, ap_ghostSnapshotId = ghost, ap_startedAt = ts,
        ap_filesPlanned = map pe_path plan, ap_filesWritten = [], ap_error = None\<rparr>) (\<lambda>_.
     ret (plan, ghost))))"

definition stage_a_body :: "tx_env \<Rightarrow> string \<Rightarrow> (plan_entry list \<times> string) prog" where
  "stage_a_body env i =
     then_do (check_index env) (\<lambda>_.
     then_do (read_diff i) (\<lambda>d.
     case d of
       None \<Rightarrow> throw Diff_missing
     | Some entries \<Rightarrow>
         then_do (preflight env entries) (begin_apply env i)))"

definition run_stage_a :: "tx_env \<Rightarrow> string \<Rightarrow> (plan_entry list \<times> string) prog" where
  "run_stage_a env i = with_tx_lock i
     (then_do (read_tx_state i) (\<lambda>t.
      case t of
        None \<Rightarrow> throw Tx_not_found
      | Some tx \<Rightarrow>
          then_do (throw_when (tx_state tx \<noteq> Approved) (Apply_rejected (Wrong_state (tx_state tx)))) (\<lambda>_.
          then_do (read_abort_progress i) (\<lambda>ab.
          then_do (throw_when (ab \<noteq> None) (Apply_rejected Being_aborted)) (\<lambda>_.
          then_do (read_apply_progress i) (\<lambda>ap.
          then_do (throw_when (ap \<noteq> None) (Apply_rejected Already_in_flight)) (\<lambda>_.
          stage_a_body env i)))))))"

section \<open>Stage B\<close>

definition fail_partial :: "transaction \<Rightarrow> string \<Rightarrow> apply_progress \<Rightarrow> string \<Rightarrow> string \<Rightarrow> unit prog \<Rightarrow> 'a prog" where
  "fail_partial tx i p stage path cleanup =
     then_do (write_tx_state (tx\<lparr>tx_state := Applied_partial\<rparr>)) (\<lambda>_.
     then_do (write_apply_progress i (p\<lparr>ap_phase := Apply_failed_partial, ap_error := Some (stage, Some path)\<rparr>)) (\<lambda>_.
     then_do cleanup (\<lambda>_.
     throw (Apply_partial path (ap_ghostSnapshotId p)))))"

definition write_planned ::
  "tx_env \<Rightarrow> transaction \<Rightarrow> string \<Rightarrow> apply_progress \<Rightarrow> plan_entry \<Rightarrow> apply_progress prog" where
  "write_planned env tx i p e =
     then_do (catching (read_file (pe_path e)) (\<lambda>_. fail_partial tx i p ''B3a'' (pe_path e) (ret ()))) (\<lambda>real.
     then_do (if en_sha env real \<noteq> pe_fingerprint e then fail_partial tx i p ''B3a'' (pe_path e) (ret ()) else ret ()) (\<lambda>_.
     then_do (catching (write_file (pe_path e) (pe_newContent e))
       (\<lambda>_. fail_partial tx i p ''B3b'' (pe_path e) (effect (set_file (tmp_path (pe_path e)) None)))) (\<lambda>_.
     let p' = p\<lparr>ap_filesWritten := ap_filesWritten p @ [pe_path e]\<rparr> in
     then_do (write_apply_progress i p') (\<lambda>_. ret p'))))"

fun write_plan ::
  "tx_env \<Rightarrow> transaction \<Rightarrow> string \<Rightarrow> apply_progress \<Rightarrow> plan_entry list \<Rightarrow> apply_progress prog" where
  "write_plan env tx i p [] = ret p"
| "write_plan env tx i p (e # es) = then_do (write_planned env tx i p e) (\<lambda>p'. write_plan env tx i p' es)"

definition run_stage_b :: "tx_env \<Rightarrow> string \<Rightarrow> plan_entry list \<Rightarrow> string prog" where
  "run_stage_b env i plan = with_tx_lock i
     (then_do (read_tx_state i) (\<lambda>t.
      case t of
        None \<Rightarrow> then_do (delete_apply_progress i) (\<lambda>_. throw Stage_b_state_changed)
      | Some tx \<Rightarrow>
          if tx_state tx \<noteq> Approved then then_do (delete_apply_progress i) (\<lambda>_. throw Stage_b_state_changed)
          else then_do (read_apply_progress i) (\<lambda>ap.
            case ap of
              None \<Rightarrow> throw Apply_progress_missing
            | Some p0 \<Rightarrow>
                let p = p0\<lparr>ap_phase := Apply_writing\<rparr> in
                then_do (write_apply_progress i p) (\<lambda>_.
                then_do (write_plan env tx i p plan) (\<lambda>p'.
                then_do (write_apply_progress i (p'\<lparr>ap_phase := Apply_committed\<rparr>)) (\<lambda>_.
                ret (ap_ghostSnapshotId p')))))))"

section \<open>Stage C\<close>

definition clear_active :: "string \<Rightarrow> session \<Rightarrow> session" where
  "clear_active i s = (if ss_activeTxId s = Some i then s\<lparr>ss_activeTxId := None\<rparr> else s)"

definition push_record :: "session_record \<Rightarrow> session \<Rightarrow> session" where
  "push_record r s = s\<lparr>ss_records := ss_records s @ [r]\<rparr>"

definition applied_record :: "string \<Rightarrow> string \<Rightarrow> transaction \<Rightarrow> tx_diff_summary \<Rightarrow> session_record" where
  "applied_record i ghost tx d =
     \<lparr>sr_id = apply_record_id i,
      sr_content = ''Transaction '' @ i @ '' applied: '' @ show_nat (ds_filesChanged d) @ '' files changed'',
      sr_body = Tx_applied i d (validator_summary_from_tx tx)
        (case tx_overridesApplied tx of None \<Rightarrow> [] | Some os \<Rightarrow> os) (''tx/'' @ i @ ''/'') ghost\<rparr>"

text \<open>The decision under the lock: nothing to do, or the transaction to record.\<close>

definition stage_c_decision :: "string \<Rightarrow> session \<Rightarrow> transaction option prog" where
  "stage_c_decision i s = with_tx_lock i
     (then_do (read_apply_progress i) (\<lambda>ap.
      then_do (read_tx_state i) (\<lambda>t.
      ret (case (ap, t) of
        (Some p, Some tx) \<Rightarrow>
          if ap_phase p = Apply_finalized \<and> tx_state tx = Applied \<and> ss_activeTxId s \<noteq> Some i \<and>
             has_record s (apply_record_id i)
          then None else Some tx
      | _ \<Rightarrow> None))))"

definition stage_c_session :: "string \<Rightarrow> string \<Rightarrow> session \<Rightarrow> session prog" where
  "stage_c_session i ghost s =
     then_do (stage_c_decision i s) (\<lambda>decision.
     case decision of
       None \<Rightarrow> ret s
     | Some tx \<Rightarrow>
         (case tx_diffSummary tx of
            None \<Rightarrow> throw Metadata_missing
          | Some d \<Rightarrow>
              ret (clear_active i
                (if has_record s (apply_record_id i) then s else push_record (applied_record i ghost tx d) s))))"

definition stage_c_tx :: "string \<Rightarrow> string \<Rightarrow> unit prog" where
  "stage_c_tx i ghost = with_tx_lock i
     (then_do (read_apply_progress i) (\<lambda>ap.
      then_do (read_tx_state i) (\<lambda>t.
      case (ap, t) of
        (Some p, Some tx) \<Rightarrow>
          then_do (if ap_phase p \<noteq> Apply_finalized then write_apply_progress i (p\<lparr>ap_phase := Apply_finalized\<rparr>) else ret ()) (\<lambda>_.
          if tx_state tx \<noteq> Applied then write_tx_state (tx\<lparr>tx_state := Applied, tx_ghostSnapshotId := Some ghost\<rparr>) else ret ())
      | _ \<Rightarrow> ret ())))"

definition run_stage_c :: "string \<Rightarrow> string \<Rightarrow> unit prog" where
  "run_stage_c i ghost =
     then_do (mutate_session (stage_c_session i ghost)) (\<lambda>_. stage_c_tx i ghost)"

definition apply_tx :: "tx_env \<Rightarrow> string \<Rightarrow> (string \<times> string list) prog" where
  "apply_tx env i =
     then_do (run_stage_a env i) (\<lambda>a.
     then_do (run_stage_b env i (fst a)) (\<lambda>ghost.
     then_do (run_stage_c i ghost) (\<lambda>_.
     ret (ghost, map pe_path (fst a)))))"

end
