(* ===== verification/Tx_Abort.thy ===== *)
theory Tx_Abort
  imports Tx_Apply
begin

text \<open>The abort protocol of \<open>src/workspace/transactions/abort.ts\<close>, steps AB0 to AB7.\<close>

record abort_request =
  aq_restoreConfirmed :: bool
  aq_keepPartial :: bool
  aq_reason :: "abort_reason option"
  aq_note :: "string option"

record abort_decision =
  ad_reason :: abort_reason
  ad_restoreConfirmed :: bool
  ad_partialFiles :: "string list option"
  ad_ghostSnapshotId :: "string option"

definition in_flight_phases :: "apply_phase list" where
  "in_flight_phases = [Apply_pending, Apply_writing, Apply_committed]"

text \<open>AB0 and AB3a.\<close>

definition reject_in_flight :: "apply_progress option \<Rightarrow> unit prog" where
  "reject_in_flight ap =
     (case ap of
        None \<Rightarrow> ret ()
      | Some p \<Rightarrow> throw_when (ap_phase p \<in> set in_flight_phases) (Abort_rejected (Apply_in_flight (ap_phase p))))"

text \<open>AB0a: the flags belong to a partially applied transaction, which needs exactly one.\<close>

definition check_flags :: "abort_request \<Rightarrow> tx_state option \<Rightarrow> unit prog" where
  "check_flags q st =
     (if st = Some Applied_partial then
        throw_when (\<not> aq_restoreConfirmed q \<and> \<not> aq_keepPartial q) (Abort_rejected Flag_required)
      else throw_when (aq_restoreConfirmed q \<or> aq_keepPartial q) (Abort_rejected (Flag_without_partial st)))"

definition exclusive_flags :: "abort_request \<Rightarrow> unit prog" where
  "exclusive_flags q = throw_when (aq_restoreConfirmed q \<and> aq_keepPartial q) (Abort_rejected Exclusive_flags)"

definition check_ab0a :: "abort_request \<Rightarrow> string \<Rightarrow> unit prog" where
  "check_ab0a q i =
     then_do (read_tx_state i) (\<lambda>t.
     case t of
       None \<Rightarrow> ret ()
     | Some tx \<Rightarrow> then_do (exclusive_flags q) (\<lambda>_. check_flags q (Some (tx_state tx))))"

text \<open>AB3a.5: the reason, and for a partial application its files and snapshot.\<close>

definition resolve_reason ::
  "abort_request \<Rightarrow> transaction option \<Rightarrow> apply_progress option \<Rightarrow> abort_decision prog" where
  "resolve_reason q t ap =
     (case t of
        Some tx \<Rightarrow>
          if tx_state tx = Applied_partial then
            then_do (exclusive_flags q) (\<lambda>_.
            then_do (check_flags q (Some Applied_partial)) (\<lambda>_.
            ret \<lparr>ad_reason = (if aq_restoreConfirmed q then Partial_restored else Partial_kept),
                 ad_restoreConfirmed = aq_restoreConfirmed q,
                 ad_partialFiles = Some (case ap of None \<Rightarrow> [] | Some p \<Rightarrow> ap_filesWritten p),
                 ad_ghostSnapshotId = (case ap of None \<Rightarrow> tx_ghostSnapshotId tx | Some p \<Rightarrow> Some (ap_ghostSnapshotId p))\<rparr>))
          else then_do (check_flags q (Some (tx_state tx))) (\<lambda>_.
            ret \<lparr>ad_reason = (case aq_reason q of None \<Rightarrow> User_abort | Some r \<Rightarrow> r), ad_restoreConfirmed = False,
                 ad_partialFiles = None, ad_ghostSnapshotId = None\<rparr>)
      | None \<Rightarrow> then_do (check_flags q None) (\<lambda>_.
            ret \<lparr>ad_reason = (case aq_reason q of None \<Rightarrow> User_abort | Some r \<Rightarrow> r), ad_restoreConfirmed = False,
                 ad_partialFiles = None, ad_ghostSnapshotId = None\<rparr>))"

text \<open>AB3b: all four terminal markers.\<close>

definition abort_converged :: "string \<Rightarrow> transaction option \<Rightarrow> abort_progress option \<Rightarrow> session \<Rightarrow> bool" where
  "abort_converged i t ab s =
     (map_option tx_state t = Some Aborted \<and> map_option ab_phase ab = Some Abort_done \<and>
      ss_activeTxId s \<noteq> Some i \<and> has_record s (abort_record_id i))"

definition decide_abort :: "abort_request \<Rightarrow> string \<Rightarrow> abort_decision option prog" where
  "decide_abort q i =
     then_do (then_do (read_apply_progress i) reject_in_flight) (\<lambda>_.
     then_do (check_ab0a q i) (\<lambda>_.
     with_tx_lock i
       (then_do (read_tx_state i) (\<lambda>t.
        then_do (read_apply_progress i) (\<lambda>ap.
        then_do (reject_in_flight ap) (\<lambda>_.
        then_do (resolve_reason q t ap) (\<lambda>d.
        then_do (read_abort_progress i) (\<lambda>ab.
        then_do (observe w_session) (\<lambda>s.
        ret (if abort_converged i t ab s then None else Some d))))))))))"

definition partial_reason :: "abort_reason \<Rightarrow> bool" where
  "partial_reason r = (r = Partial_restored \<or> r = Partial_kept)"

definition aborted_record ::
  "string \<Rightarrow> abort_decision \<Rightarrow> string option \<Rightarrow> transaction option \<Rightarrow> session_record" where
  "aborted_record i d note t =
     (let summary = Option.bind t tx_diffSummary;
          fields = (\<lambda>f. case summary of None \<Rightarrow> [] | Some s \<Rightarrow> f s) in
      \<lparr>sr_id = abort_record_id i,
       sr_content = ''Transaction '' @ i @ '' aborted: '' @ reason_text (ad_reason d),
       sr_body = Tx_aborted i (ad_reason d) (if note = Some [] then None else note)
         (case Option.bind t tx_blockingFailures of None \<Rightarrow> None | Some fs \<Rightarrow> if fs = [] then None else Some fs)
         (fields ds_creates, fields ds_modifies, fields ds_deletes) (''tx/'' @ i @ ''/'')
         (if partial_reason (ad_reason d)
          then Some (case ad_partialFiles d of None \<Rightarrow> [] | Some fs \<Rightarrow> fs, the (ad_ghostSnapshotId d), ad_restoreConfirmed d)
          else None)\<rparr>)"

text \<open>AB4, under the lock of the session and then the lock of the transaction.\<close>

definition mark_aborting :: "string \<Rightarrow> abort_reason \<Rightarrow> unit prog" where
  "mark_aborting i reason = with_tx_lock i
     (then_do (read_abort_progress i) (\<lambda>ab.
      if map_option ab_phase ab = Some Aborting then ret ()
      else then_do (observe w_now) (\<lambda>ts.
        write_abort_progress i
          \<lparr>ab_phase = Aborting, ab_reason = reason,
           ab_startedAt = (case ab of None \<Rightarrow> ts | Some p \<Rightarrow> ab_startedAt p), ab_ts = ts\<rparr>)))"

definition abort_session_phase ::
  "string \<Rightarrow> abort_decision \<Rightarrow> string option \<Rightarrow> transaction option \<Rightarrow> session \<Rightarrow> session prog" where
  "abort_session_phase i d note t s =
     then_do (if has_record s (abort_record_id i) then ret () else mark_aborting i (ad_reason d)) (\<lambda>_.
     ret (clear_active i
       (if has_record s (abort_record_id i) then s else push_record (aborted_record i d note t) s)))"

text \<open>AB6 and AB7.\<close>

definition abort_tx_phase :: "string \<Rightarrow> unit prog" where
  "abort_tx_phase i = with_tx_lock i
     (then_do (read_abort_progress i) (\<lambda>ab.
      then_do (read_tx_state i) (\<lambda>t.
      then_do (observe w_now) (\<lambda>ts.
      then_do (case ab of
          None \<Rightarrow> ret ()
        | Some p \<Rightarrow> if ab_phase p \<noteq> Abort_done then write_abort_progress i (p\<lparr>ab_phase := Abort_done, ab_ts := ts\<rparr>) else ret ()) (\<lambda>_.
      case t of
        None \<Rightarrow> ret ()
      | Some tx \<Rightarrow> if tx_state tx \<noteq> Aborted then write_tx_state (tx\<lparr>tx_state := Aborted\<rparr>) else ret ())))))"

text \<open>An absent or empty snapshot id is refused.\<close>

definition ghost_missing :: "string option \<Rightarrow> bool" where
  "ghost_missing g = (g = None \<or> g = Some [])"

definition run_abort_write_phase :: "string \<Rightarrow> string option \<Rightarrow> abort_decision \<Rightarrow> unit prog" where
  "run_abort_write_phase i note d =
     then_do (read_tx_state i) (\<lambda>t.
     then_do (throw_when (partial_reason (ad_reason d) \<and> ghost_missing (ad_ghostSnapshotId d)) Decision_without_ghost) (\<lambda>_.
     then_do (mutate_session (abort_session_phase i d note t)) (\<lambda>_.
     abort_tx_phase i)))"

text \<open>\<open>restoreWorkspaceCheckpoint\<close>: the snapshot must be on record, git does the rest.\<close>

definition restore_workspace_checkpoint :: "tx_env \<Rightarrow> string \<Rightarrow> unit prog" where
  "restore_workspace_checkpoint env ghost =
     then_do (observe (\<lambda>w. Option.bind (w_snapshots w ghost) (\<lambda>snap. en_restore env snap (w_files w)))) (\<lambda>r.
     case r of
       None \<Rightarrow> throw Restore_failed
     | Some fs \<Rightarrow> effect (\<lambda>w. w\<lparr>w_files := fs\<rparr>))"

definition abort_tx :: "tx_env \<Rightarrow> abort_request \<Rightarrow> string \<Rightarrow> abort_reason option prog" where
  "abort_tx env q i =
     then_do (decide_abort q i) (\<lambda>decision.
     case decision of
       None \<Rightarrow> ret None
     | Some d \<Rightarrow>
         then_do (if ad_reason d = Partial_restored then
             then_do (throw_when (ghost_missing (ad_ghostSnapshotId d)) (Abort_rejected Ghost_id_missing)) (\<lambda>_.
             restore_workspace_checkpoint env (the (ad_ghostSnapshotId d)))
           else ret ()) (\<lambda>_.
         then_do (run_abort_write_phase i (aq_note q) d) (\<lambda>_.
         ret (Some (ad_reason d)))))"

end
