(* ===== verification/Tx_Recovery.thy ===== *)
theory Tx_Recovery
  imports Tx_Abort
begin

text \<open>
  Crash recovery of \<open>src/workspace/transactions/recovery.ts\<close> and \<open>recoverAtStart\<close> of \<open>coordinator.ts\<close>: the scan
  for transactions a crash left behind, the action for each, and its record.
\<close>

datatype abort_recovery = Resume_aborting | Finalize_aborted

datatype recovery_task =
    Task_apply (tk_id: string) (tk_tx: transaction) (tk_apply: apply_progress)
  | Task_abort (tk_id: string) (tk_tx: transaction) (tk_kind: abort_recovery) (tk_abort: abort_progress)

section \<open>The scan\<close>

definition apply_tasks :: "string \<Rightarrow> transaction \<Rightarrow> apply_progress option \<Rightarrow> recovery_task list" where
  "apply_tasks i tx ap =
     (case ap of
        None \<Rightarrow> []
      | Some p \<Rightarrow>
          if ap_phase p \<in> {Apply_pending, Apply_writing, Apply_committed, Apply_finalized} \<and>
             \<not> (ap_phase p = Apply_finalized \<and> tx_state tx = Applied)
          then [Task_apply i tx p] else [])"

definition abort_tasks :: "string \<Rightarrow> transaction \<Rightarrow> abort_progress option \<Rightarrow> recovery_task list" where
  "abort_tasks i tx ab =
     (case ab of
        None \<Rightarrow> []
      | Some p \<Rightarrow>
          if ab_phase p = Aborting then [Task_abort i tx Resume_aborting p]
          else if ab_phase p = Abort_done \<and> tx_state tx \<noteq> Aborted then [Task_abort i tx Finalize_aborted p] else [])"

definition scan_dir :: "string \<Rightarrow> recovery_task list prog" where
  "scan_dir i =
     then_do (read_tx_state i) (\<lambda>t.
     case t of
       None \<Rightarrow> ret []
     | Some tx \<Rightarrow>
         then_do (read_apply_progress i) (\<lambda>ap.
         then_do (read_abort_progress i) (\<lambda>ab.
         ret (apply_tasks i tx ap @ abort_tasks i tx ab))))"

fun scan_names :: "string list \<Rightarrow> recovery_task list prog" where
  "scan_names [] = ret []"
| "scan_names (i # is) =
     then_do (if starts_with i tx_id_prefix then scan_dir i else ret []) (\<lambda>ts.
     then_do (scan_names is) (\<lambda>us. ret (ts @ us)))"

definition scan_for_recovery :: "recovery_task list prog" where
  "scan_for_recovery = then_do (observe (\<lambda>w. map fst (w_root w))) scan_names"

section \<open>The actions\<close>

definition outcome :: "string \<Rightarrow> recovery_action \<Rightarrow> recovery_warning option \<Rightarrow> string \<Rightarrow> recovery_outcome" where
  "outcome i a warn ts = \<lparr>rc_txId = i, rc_action = a, rc_warning = warn, rc_ts = ts\<rparr>"

definition recover_phase :: "string \<Rightarrow> string \<Rightarrow> transaction \<Rightarrow> apply_progress \<Rightarrow> recovery_outcome prog" where
  "recover_phase i ts tx p =
     (case ap_phase p of
        Apply_pending \<Rightarrow>
          then_do (delete_apply_progress i) (\<lambda>_.
          ret (if tx_state tx = Approved then outcome i Apply_pending_reverted None ts
               else outcome i Apply_pending_orphan_discarded (Some (Orphan_discarded (tx_state tx))) ts))
      | Apply_writing \<Rightarrow>
          then_do (write_tx_state (tx\<lparr>tx_state := Applied_partial\<rparr>)) (\<lambda>_.
          then_do (write_apply_progress i (p\<lparr>ap_phase := Apply_failed_partial, ap_error := Some (''recovery'', None)\<rparr>)) (\<lambda>_.
          ret (outcome i Apply_writing_partial (Some (Partial_written (ap_filesWritten p))) ts)))
      | Apply_finalized \<Rightarrow>
          then_do (if tx_state tx \<noteq> Applied
            then write_tx_state (tx\<lparr>tx_state := Applied, tx_ghostSnapshotId := Some (ap_ghostSnapshotId p)\<rparr>) else ret ()) (\<lambda>_.
          ret (outcome i Apply_finalized_state None ts))
      | _ \<Rightarrow> ret (outcome i No_op None ts))"

definition recover_apply :: "string \<Rightarrow> apply_progress \<Rightarrow> recovery_outcome prog" where
  "recover_apply i seen =
     then_do (observe w_now) (\<lambda>ts.
     if ap_phase seen = Apply_committed then
       then_do (read_apply_progress i) (\<lambda>ap.
       case ap of
         None \<Rightarrow> ret (outcome i No_op None ts)
       | Some p \<Rightarrow>
           if ap_phase p \<noteq> Apply_committed then ret (outcome i No_op None ts)
           else then_do (run_stage_c i (ap_ghostSnapshotId p)) (\<lambda>_.
             ret (outcome i Apply_committed_stage_c None ts)))
     else with_tx_lock i
       (then_do (read_tx_state i) (\<lambda>t.
        then_do (read_apply_progress i) (\<lambda>ap.
        case (t, ap) of
          (Some tx, Some p) \<Rightarrow> recover_phase i ts tx p
        | _ \<Rightarrow> ret (outcome i No_op None ts)))))"

definition resume_request :: "abort_progress \<Rightarrow> abort_request" where
  "resume_request p =
     \<lparr>aq_restoreConfirmed = (ab_reason p = Partial_restored), aq_keepPartial = (ab_reason p = Partial_kept),
      aq_reason = Some (ab_reason p), aq_note = None\<rparr>"

definition recover_abort :: "string \<Rightarrow> abort_recovery \<Rightarrow> abort_progress \<Rightarrow> recovery_outcome prog" where
  "recover_abort i kind seen =
     then_do (observe w_now) (\<lambda>ts.
     if kind = Resume_aborting then
       then_do (decide_abort (resume_request seen) i) (\<lambda>decision.
       case decision of
         None \<Rightarrow> ret (outcome i No_op None ts)
       | Some d \<Rightarrow>
           then_do (run_abort_write_phase i None d) (\<lambda>_.
           ret (outcome i Abort_aborting_resumed None ts)))
     else with_tx_lock i
       (then_do (read_tx_state i) (\<lambda>t.
        case t of
          None \<Rightarrow> ret (outcome i No_op None ts)
        | Some tx \<Rightarrow>
            then_do (if tx_state tx \<noteq> Aborted then write_tx_state (tx\<lparr>tx_state := Aborted\<rparr>) else ret ()) (\<lambda>_.
            ret (outcome i Abort_finalized_state None ts)))))"

definition write_recovery_record :: "recovery_outcome \<Rightarrow> unit prog" where
  "write_recovery_record oc = write_dir (\<lambda>d. d\<lparr>td_recovery := Some oc\<rparr>) (rc_txId oc)"

definition perform :: "recovery_task \<Rightarrow> recovery_outcome prog" where
  "perform task =
     (case task of
        Task_apply i tx p \<Rightarrow> recover_apply i p
      | Task_abort i tx kind p \<Rightarrow> recover_abort i kind p)"

definition recover_task :: "recovery_task \<Rightarrow> recovery_outcome prog" where
  "recover_task task =
     then_do (perform task) (\<lambda>oc.
     then_do (if rc_action oc \<noteq> No_op then write_recovery_record oc else ret ()) (\<lambda>_. ret oc))"

fun recover_tasks :: "recovery_task list \<Rightarrow> recovery_outcome list prog" where
  "recover_tasks [] = ret []"
| "recover_tasks (t # ts) = then_do (recover_task t) (\<lambda>oc. then_do (recover_tasks ts) (\<lambda>ocs. ret (oc # ocs)))"

definition recover_all :: "recovery_outcome list prog" where
  "recover_all = then_do scan_for_recovery recover_tasks"

section \<open>Recovery at the start of a command\<close>

text \<open>Another session's transaction is recorded and left alone.\<close>

definition skip_task :: "string \<Rightarrow> recovery_task \<Rightarrow> unit prog" where
  "skip_task sessionId task =
     then_do (observe w_now) (\<lambda>ts.
     write_recovery_record
       (outcome (tk_id task) No_op (Some (Cross_session_skipped (tx_sessionId (tk_tx task)) sessionId)) ts))"

fun recover_own_tasks ::
  "string \<Rightarrow> recovery_task list \<Rightarrow> (recovery_outcome list \<times> string list) prog" where
  "recover_own_tasks sessionId [] = ret ([], [])"
| "recover_own_tasks sessionId (t # ts) =
     (if tx_sessionId (tk_tx t) \<noteq> sessionId then
        then_do (skip_task sessionId t) (\<lambda>_.
        then_do (recover_own_tasks sessionId ts) (\<lambda>r. ret (fst r, tk_id t # snd r)))
      else
        then_do (recover_task t) (\<lambda>oc.
        then_do (recover_own_tasks sessionId ts) (\<lambda>r. ret (oc # fst r, snd r))))"

definition recover_at_start :: "(recovery_outcome list \<times> string list) prog" where
  "recover_at_start =
     then_do scan_for_recovery (\<lambda>tasks.
     then_do (observe (\<lambda>w. ss_id (w_session w))) (\<lambda>sessionId. recover_own_tasks sessionId tasks))"

end
