(* ===== verification/Tx_Coordinator.thy ===== *)
theory Tx_Coordinator
  imports Tx_Recovery
begin

text \<open>
  The operations of \<open>src/workspace/transactions/coordinator.ts\<close>: open, status, list, finalize, validate, approve,
  apply and abort.  The validators are programs outside the model: an argument gives the result of each on the
  staged view, or says that the view could not be made.
\<close>

record coordinator_ctx =
  cc_workspaceId :: string
  cc_workspaceRealPath :: string
  cc_sessionId :: string

section \<open>Open, status, list\<close>

definition opened_record :: "string \<Rightarrow> string option \<Rightarrow> session_record" where
  "opened_record i name =
     (let named = (case name of None \<Rightarrow> None | Some n \<Rightarrow> if n = [] then None else Some n) in
      \<lparr>sr_id = open_record_id i,
       sr_content = (case named of None \<Rightarrow> ''Transaction opened ('' @ i @ '')''
                     | Some n \<Rightarrow> ''Transaction '' @ [CHR 0x22] @ n @ [CHR 0x22] @ '' opened ('' @ i @ '')''),
       sr_body = Tx_opened i named\<rparr>)"

definition open_tx :: "coordinator_ctx \<Rightarrow> string \<Rightarrow> bool \<Rightarrow> string option \<Rightarrow> transaction prog" where
  "open_tx ctx i explicit name =
     then_do (create_tx i (cc_workspaceId ctx) (cc_sessionId ctx) (cc_workspaceRealPath ctx)) (\<lambda>tx.
     then_do (mutate_session (\<lambda>s.
       ret ((if explicit then push_record (opened_record i name) s else s)\<lparr>ss_activeTxId := Some i\<rparr>))) (\<lambda>_.
     ret tx))"

record tx_status_info =
  ts_tx :: transaction
  ts_hasApplyProgress :: bool
  ts_hasAbortProgress :: bool

definition get_tx_status :: "string \<Rightarrow> tx_status_info option prog" where
  "get_tx_status i =
     then_do (read_tx_state i) (\<lambda>t.
     case t of
       None \<Rightarrow> ret None
     | Some tx \<Rightarrow>
         then_do (read_apply_progress i) (\<lambda>ap.
         then_do (read_abort_progress i) (\<lambda>ab.
         ret (Some \<lparr>ts_tx = tx, ts_hasApplyProgress = (ap \<noteq> None), ts_hasAbortProgress = (ab \<noteq> None)\<rparr>))))"

fun list_names :: "string \<Rightarrow> string list \<Rightarrow> transaction list prog" where
  "list_names workspaceId [] = ret []"
| "list_names workspaceId (i # is) =
     then_do (if starts_with i tx_id_prefix then read_tx_state i else ret None) (\<lambda>t.
     then_do (list_names workspaceId is) (\<lambda>txs.
     ret (case t of
       None \<Rightarrow> txs
     | Some tx \<Rightarrow> if tx_workspaceId tx = workspaceId then tx # txs else txs)))"

text \<open>Canonical times all have the same length, so the code's string comparison is the lexicographic order.\<close>

fun string_le :: "string \<Rightarrow> string \<Rightarrow> bool" where
  "string_le [] t = True"
| "string_le (c # s) [] = False"
| "string_le (c # s) (d # t) =
     (of_char c < (of_char d :: nat) \<or> (c = d \<and> string_le s t))"

fun insert_by_creation :: "transaction \<Rightarrow> transaction list \<Rightarrow> transaction list" where
  "insert_by_creation tx [] = [tx]"
| "insert_by_creation tx (u # us) =
     (if string_le (tx_createdAt tx) (tx_createdAt u) then tx # u # us else u # insert_by_creation tx us)"

definition list_tx :: "coordinator_ctx \<Rightarrow> transaction list prog" where
  "list_tx ctx =
     then_do (observe (\<lambda>w. map fst (w_root w))) (\<lambda>names.
     then_do (list_names (cc_workspaceId ctx) names) (\<lambda>txs. ret (foldr insert_by_creation txs [])))"

definition get_active_tx :: "transaction option prog" where
  "get_active_tx =
     then_do (observe (\<lambda>w. ss_activeTxId (w_session w))) (\<lambda>active.
     case active of
       None \<Rightarrow> ret None
     | Some i \<Rightarrow> if i = [] then ret None else read_tx_state i)"

section \<open>Finalize\<close>

text \<open>\<open>computeDiff\<close> reads every staged file and its original.\<close>

fun compute_diff :: "(string \<times> string) list \<Rightarrow> diff_entry list prog" where
  "compute_diff [] = ret []"
| "compute_diff ((p, new) # fs) =
     then_do (read_file p) (\<lambda>old.
     then_do (compute_diff fs) (\<lambda>es. ret (Diff_modify p old new # es)))"

definition only_modifies :: "diff_entry list \<Rightarrow> bool" where
  "only_modifies = list_all (\<lambda>e. case e of Diff_modify _ _ _ \<Rightarrow> True | _ \<Rightarrow> False)"

text \<open>The critical section shared by the next three operations: the state is read again under the lock.\<close>

definition advance :: "string \<Rightarrow> tx_state \<Rightarrow> (transaction \<Rightarrow> transaction) \<Rightarrow> unit prog" where
  "advance i from f = with_tx_lock i
     (then_do (read_tx_state i) (\<lambda>t.
      case t of
        None \<Rightarrow> throw Tx_vanished
      | Some cur \<Rightarrow>
          if tx_state cur \<noteq> from then throw (State_race from (tx_state cur)) else write_tx_state (f cur)))"

definition require_state :: "string \<Rightarrow> tx_state \<Rightarrow> transaction prog" where
  "require_state i st =
     then_do (read_tx_state i) (\<lambda>t.
     case t of
       None \<Rightarrow> throw Tx_not_found
     | Some tx \<Rightarrow> if tx_state tx \<noteq> st then throw (State_required st (tx_state tx)) else ret tx)"

definition finalize_tx :: "string \<Rightarrow> tx_diff_summary prog" where
  "finalize_tx i =
     then_do (require_state i Staging) (\<lambda>_.
     then_do (read_dir td_overlay i) (\<lambda>overlay.
     then_do (compute_diff overlay) (\<lambda>entries.
     then_do (throw_when (\<not> only_modifies entries) (Unsupported_op [])) (\<lambda>_.
     let summary = summarize_diff entries in
     then_do (write_diff i entries) (\<lambda>_.
     then_do (advance i Staging (\<lambda>cur. cur\<lparr>tx_state := Finalized, tx_diffSummary := Some summary\<rparr>)) (\<lambda>_.
     ret summary))))))"

section \<open>Validate\<close>

definition blocking_failures :: "validator_summary list \<Rightarrow> string list" where
  "blocking_failures results =
     map vs_name (filter (\<lambda>r. vs_severity r = Blocking \<and> (vs_status r = V_fail \<or> vs_status r = V_error)) results)"

definition validate_tx ::
  "(world \<Rightarrow> validator_summary list option) \<Rightarrow> string \<Rightarrow> (validator_summary list \<times> string list) prog" where
  "validate_tx run_validators i =
     then_do (require_state i Finalized) (\<lambda>_.
     then_do (observe run_validators) (\<lambda>r.
     case r of
       None \<Rightarrow> throw Staged_view_failed
     | Some results \<Rightarrow>
         let failures = blocking_failures results in
         then_do (advance i Finalized
           (\<lambda>cur. cur\<lparr>tx_state := Validated, tx_validators := Some results, tx_blockingFailures := Some failures\<rparr>)) (\<lambda>_.
         ret (results, failures))))"

section \<open>Approve\<close>

record approve_options =
  ao_overrides :: "string list"
  ao_overrideAll :: bool
  ao_allowValidatorError :: "string list"
  ao_reason :: "string option"
  ao_by :: "string option"

definition no_overrides :: approve_options where
  "no_overrides = \<lparr>ao_overrides = [], ao_overrideAll = False, ao_allowValidatorError = [], ao_reason = None, ao_by = None\<rparr>"

definition validator_status_of :: "transaction \<Rightarrow> string \<Rightarrow> validator_status option" where
  "validator_status_of tx name =
     (case tx_validators tx of
        None \<Rightarrow> None
      | Some vs \<Rightarrow> map_option vs_status (find (\<lambda>v. vs_name v = name) vs))"

definition covered :: "approve_options \<Rightarrow> transaction \<Rightarrow> string \<Rightarrow> bool" where
  "covered opts tx name =
     (ao_overrideAll opts \<or> name \<in> set (ao_overrides opts) \<or>
      (validator_status_of tx name = Some V_error \<and> name \<in> set (ao_allowValidatorError opts)))"

definition failures_of :: "transaction \<Rightarrow> string list" where
  "failures_of tx = (case tx_blockingFailures tx of None \<Rightarrow> [] | Some fs \<Rightarrow> fs)"

definition overrides_for :: "approve_options \<Rightarrow> string \<Rightarrow> transaction \<Rightarrow> override_entry list" where
  "overrides_for opts ts tx =
     map (\<lambda>name. \<lparr>ov_validatorName = name, ov_reason = ao_reason opts,
                  ov_by = (case ao_by opts of None \<Rightarrow> ''cli'' | Some b \<Rightarrow> b), ov_ts = ts\<rparr>)
       (filter (\<lambda>name. ao_overrideAll opts \<or> name \<in> set (ao_overrides opts) \<or> name \<in> set (ao_allowValidatorError opts))
         (failures_of tx))"

text \<open>The result is the list of uncovered failures, empty when the transaction was approved.\<close>

definition approve_tx :: "approve_options \<Rightarrow> string \<Rightarrow> string list prog" where
  "approve_tx opts i =
     then_do (require_state i Validated) (\<lambda>tx.
     let uncovered = filter (\<lambda>name. \<not> covered opts tx name) (failures_of tx) in
     if uncovered \<noteq> [] then ret uncovered
     else then_do (observe w_now) (\<lambda>ts.
       then_do (advance i Validated
         (\<lambda>cur. cur\<lparr>tx_state := Approved,
            tx_overridesApplied :=
              Some ((case tx_overridesApplied cur of None \<Rightarrow> [] | Some os \<Rightarrow> os) @ overrides_for opts ts tx)\<rparr>)) (\<lambda>_.
       ret [])))"

section \<open>Apply and abort\<close>

datatype apply_failure = F_rejected | F_conflict | F_partial | F_metadata_missing | F_unknown

definition classify_apply_error :: "tx_error \<Rightarrow> apply_failure" where
  "classify_apply_error e =
     (case e of
        Apply_conflict _ \<Rightarrow> F_conflict
      | Apply_partial _ _ \<Rightarrow> F_partial
      | Apply_rejected _ \<Rightarrow> F_rejected
      | Metadata_missing \<Rightarrow> F_metadata_missing
      | _ \<Rightarrow> F_unknown)"

text \<open>The errors of apply and abort become values.\<close>

definition coord_apply :: "tx_env \<Rightarrow> string \<Rightarrow> (apply_failure + string \<times> string list) prog" where
  "coord_apply env i =
     catching (then_do (apply_tx env i) (\<lambda>r. ret (Inr r))) (\<lambda>e. ret (Inl (classify_apply_error e)))"

datatype abort_failure = A_rejected | A_unknown

definition classify_abort_error :: "tx_error \<Rightarrow> abort_failure" where
  "classify_abort_error e = (case e of Abort_rejected _ \<Rightarrow> A_rejected | _ \<Rightarrow> A_unknown)"

text \<open>The operator's reason becomes the note; the typed reason is left to the protocol.\<close>

definition coord_abort ::
  "tx_env \<Rightarrow> string \<Rightarrow> bool \<Rightarrow> bool \<Rightarrow> string option \<Rightarrow> (abort_failure + abort_reason option) prog" where
  "coord_abort env i restoreConfirmed keepPartial reason =
     catching
       (then_do (abort_tx env
          \<lparr>aq_restoreConfirmed = restoreConfirmed, aq_keepPartial = keepPartial, aq_reason = None, aq_note = reason\<rparr> i)
          (\<lambda>r. ret (Inr r)))
       (\<lambda>e. ret (Inl (classify_abort_error e)))"

end
