(* ===== verification/Tx_Inspect.thy ===== *)
theory Tx_Inspect
  imports Tx_Store
begin

text \<open>
  The review of a transaction in \<open>src/workspace/transactions/inspect.ts\<close>: the snapshot of its files and the texts
  shown to the user.  What reading the validator artifacts reports is a field of the directory.
\<close>

record review_snapshot =
  rv_tx :: transaction
  rv_diff :: "diff_entry list option"
  rv_bashEffects :: "bash_effect list"
  rv_validatorResults :: "validator_summary list"
  rv_artifactErrors :: "string list"
  rv_artifactRef :: string

definition tx_artifact_ref :: "string \<Rightarrow> string" where
  "tx_artifact_ref i = ''tx/'' @ i @ ''/''"

definition read_tx_review_snapshot :: "string \<Rightarrow> review_snapshot prog" where
  "read_tx_review_snapshot i =
     then_do (read_tx_state i) (\<lambda>t.
     case t of
       None \<Rightarrow> throw Tx_not_found
     | Some tx \<Rightarrow>
         then_do (read_diff i) (\<lambda>d.
         then_do (read_dir td_effects i) (\<lambda>effects.
         then_do (read_dir td_artifactErrors i) (\<lambda>errors.
         ret \<lparr>rv_tx = tx, rv_diff = d, rv_bashEffects = effects,
              rv_validatorResults = (case tx_validators tx of None \<Rightarrow> [] | Some vs \<Rightarrow> vs),
              rv_artifactErrors = errors, rv_artifactRef = tx_artifact_ref i\<rparr>))))"

definition newline :: string where "newline = [CHR 0x0A]"

definition show_int :: "int \<Rightarrow> string" where
  "show_int n = (if n < 0 then CHR ''-'' # show_nat (nat (- n)) else show_nat (nat n))"

text \<open>\<open>countLines\<close>: a final newline does not begin a line.\<close>

definition count_lines :: "string \<Rightarrow> nat" where
  "count_lines s =
     (if s = [] then 0
      else (let body = (if last s = CHR 0x0A then butlast s else s) in
        if body = [] then 0 else line_count body))"

fun format_diff_entry :: "diff_entry \<Rightarrow> string" where
  "format_diff_entry (Diff_create p new) = ''A '' @ p @ '' (+'' @ show_nat (count_lines new) @ ''/-0)''"
| "format_diff_entry (Diff_delete p old) = ''D '' @ p @ '' (+0/-'' @ show_nat (count_lines old) @ '')''"
| "format_diff_entry (Diff_modify p old new) =
     ''M '' @ p @ '' (net +'' @ show_nat (count_lines new - count_lines old) @ ''/-'' @
     show_nat (count_lines old - count_lines new) @ '')''"

definition format_tx_diff :: "review_snapshot \<Rightarrow> string" where
  "format_tx_diff s =
     (case rv_diff s of
        None \<Rightarrow> ''No staged file changes.''
      | Some [] \<Rightarrow> ''No staged file changes.''
      | Some es \<Rightarrow> join_with newline (map format_diff_entry es))"

definition empty_diff_summary :: tx_diff_summary where
  "empty_diff_summary = \<lparr>ds_filesChanged = 0, ds_additions = 0, ds_deletions = 0, ds_creates = [], ds_modifies = [], ds_deletes = []\<rparr>"

definition get_diff_summary :: "review_snapshot \<Rightarrow> tx_diff_summary" where
  "get_diff_summary s =
     (case tx_diffSummary (rv_tx s) of
        Some d \<Rightarrow> d
      | None \<Rightarrow> (case rv_diff s of Some es \<Rightarrow> summarize_diff es | None \<Rightarrow> empty_diff_summary))"

definition format_diff_summary :: "tx_diff_summary \<Rightarrow> string" where
  "format_diff_summary d =
     show_nat (ds_filesChanged d) @ '' files changed (net +'' @ show_nat (ds_additions d) @ ''/-'' @
     show_nat (ds_deletions d) @ '')''"

definition format_validator_summary :: "validator_summary list \<Rightarrow> string" where
  "format_validator_summary vs =
     (let c = validator_summary_from_results vs in
      ''blocking '' @ show_nat (vc_blockingPass c) @ '' pass / '' @ show_nat (vc_blockingFail c) @ '' fail, advisory '' @
      show_nat (vc_advisoryPass c) @ '' pass / '' @ show_nat (vc_advisoryFail c) @ '' fail'')"

fun state_text :: "tx_state \<Rightarrow> string" where
  "state_text Staging = ''staging''"
| "state_text Finalized = ''finalized''"
| "state_text Validated = ''validated''"
| "state_text Approved = ''approved''"
| "state_text Applied = ''applied''"
| "state_text Aborted = ''aborted''"
| "state_text Applied_partial = ''applied-partial''"

definition format_tx_show :: "review_snapshot \<Rightarrow> string" where
  "format_tx_show s =
     (let tx = rv_tx s in
      join_with newline
       ([''tx: '' @ tx_id tx,
         ''state: '' @ state_text (tx_state tx),
         ''workspace: '' @ tx_workspaceId tx,
         ''session: '' @ tx_sessionId tx,
         ''created: '' @ tx_createdAt tx,
         ''updated: '' @ tx_updatedAt tx,
         ''diff: '' @ format_diff_summary (get_diff_summary s),
         ''validators: '' @ format_validator_summary (rv_validatorResults s),
         ''bash effects: '' @ show_nat (length (rv_bashEffects s)),
         ''artifact: '' @ rv_artifactRef s]
        @ (if rv_artifactErrors s = [] then []
           else [''validator artifact errors: '' @ join_with ''; '' (rv_artifactErrors s)])))"

fun status_text :: "validator_status \<Rightarrow> string" where
  "status_text V_pass = ''PASS''" | "status_text V_fail = ''FAIL''" | "status_text V_error = ''ERROR''"

fun severity_text :: "severity \<Rightarrow> string" where
  "severity_text Blocking = ''blocking''" | "severity_text Advisory = ''advisory''"

definition format_tx_validators :: "review_snapshot \<Rightarrow> string" where
  "format_tx_validators s =
     (let rows = map (\<lambda>v. status_text (vs_status v) @ '' '' @ severity_text (vs_severity v) @ '' '' @ vs_name v @ '' '' @
             show_nat (vs_durationMs v) @ ''ms'') (rv_validatorResults s)
           @ map (\<lambda>e. ''ERROR artifact '' @ e) (rv_artifactErrors s)
      in if rows = [] then ''No validators recorded.'' else join_with newline rows)"

definition format_effect :: "bash_effect \<Rightarrow> string" where
  "format_effect e =
     ''- '' @ be_command e @ '' (exit '' @ show_int (be_exitCode e) @ '')'' @
     (if be_pathsChanged e = [] then [] else '' ['' @ join_with '', '' (be_pathsChanged e) @ '']'')"

definition format_tx_apply_review :: "review_snapshot \<Rightarrow> string" where
  "format_tx_apply_review s =
     (let tx = rv_tx s; d = get_diff_summary s;
          failures = (case tx_blockingFailures tx of None \<Rightarrow> [] | Some fs \<Rightarrow> fs) in
      join_with newline
       ([''Transaction '' @ tx_id tx @ '' is ready to apply.'', [],
         ''Files changed: '' @ show_nat (ds_filesChanged d) @ '' (+'' @ show_nat (ds_additions d) @ ''/-'' @
           show_nat (ds_deletions d) @ '')'',
         ''Validators: '' @ format_validator_summary (rv_validatorResults s),
         ''Blocking failures: '' @ (if failures = [] then ''none'' else join_with '', '' failures),
         ''Bash effects: '' @ show_nat (length (rv_bashEffects s)),
         ''Artifact: '' @ rv_artifactRef s]
        @ (if rv_bashEffects s = [] then [] else [[], ''Bash effects:''] @ map format_effect (rv_bashEffects s))
        @ (if rv_artifactErrors s = [] then []
           else [[], ''Validator artifact errors:''] @ map (\<lambda>e. ''- '' @ e) (rv_artifactErrors s))))"

end
