(* ===== verification/Tx_Turn.thy ===== *)
theory Tx_Turn
  imports Tx_Coordinator Tx_Inspect
begin

text \<open>
  The lifecycle of the implicit transaction of a turn in \<open>src/runtime/tx-runner.ts\<close>: opened when the turn starts,
  driven through finalize, validate, approve and apply when it ends, aborted when it cannot be applied.
\<close>

datatype tx_auto = Per_turn | Manual
datatype apply_policy = Interactive | Auto_on_pass | Manual_only

record apply_review =
  ar_txId :: string
  ar_prompt :: string
  ar_diffSummary :: tx_diff_summary
  ar_validators :: "validator_summary list"
  ar_blockingFailures :: "string list"
  ar_bashEffects :: "bash_effect list"
  ar_artifactRef :: string

record tx_runner_options =
  to_auto :: tx_auto
  to_applyPolicy :: apply_policy
  to_headless :: bool
  to_validators :: "world \<Rightarrow> validator_summary list option"
  to_confirmApply :: "(apply_review \<Rightarrow> bool) option"

text \<open>The error says that interactive application needs a terminal.\<close>

definition assert_headless_compatible :: "tx_runner_options \<Rightarrow> (unit, unit) result" where
  "assert_headless_compatible opts = throw_if (to_headless opts \<and> to_applyPolicy opts = Interactive) ()"

definition open_turn_tx ::
  "coordinator_ctx \<Rightarrow> tx_runner_options \<Rightarrow> string \<Rightarrow> (transaction option \<times> bool) prog" where
  "open_turn_tx ctx opts fresh =
     then_do get_active_tx (\<lambda>existing.
     case existing of
       Some tx \<Rightarrow> ret (Some tx, False)
     | None \<Rightarrow>
         if to_auto opts \<noteq> Per_turn then ret (None, False)
         else then_do (open_tx ctx fresh False None) (\<lambda>tx.
           then_do (emit (Ev_staging_start (tx_id tx))) (\<lambda>_. ret (Some tx, True))))"

text \<open>Abort through the coordinator and emit \<open>tx-aborted\<close>; the result of the abort is not looked at.\<close>

definition abort_and_emit :: "tx_env \<Rightarrow> string \<Rightarrow> abort_reason \<Rightarrow> string list option \<Rightarrow> unit prog" where
  "abort_and_emit env i reason failed =
     then_do (coord_abort env i False False (Some (reason_text reason))) (\<lambda>_.
     emit (Ev_aborted i reason failed))"

definition abort_stale_implicit_turn_tx :: "tx_env \<Rightarrow> transaction \<Rightarrow> unit prog" where
  "abort_stale_implicit_turn_tx env tx =
     then_do get_active_tx (\<lambda>current.
     case current of
       None \<Rightarrow> ret ()
     | Some cur \<Rightarrow>
         if tx_id cur \<noteq> tx_id tx \<or> tx_state cur \<noteq> Staging then ret ()
         else abort_and_emit env (tx_id tx) User_abort None)"

definition review_of :: "string \<Rightarrow> review_snapshot \<Rightarrow> tx_diff_summary \<Rightarrow> string list \<Rightarrow> apply_review" where
  "review_of i s summary failures =
     \<lparr>ar_txId = i, ar_prompt = format_tx_apply_review s,
      ar_diffSummary = (case tx_diffSummary (rv_tx s) of Some d \<Rightarrow> d | None \<Rightarrow> summary),
      ar_validators = rv_validatorResults s,
      ar_blockingFailures = (case tx_blockingFailures (rv_tx s) of Some fs \<Rightarrow> fs | None \<Rightarrow> failures),
      ar_bashEffects = rv_bashEffects s, ar_artifactRef = rv_artifactRef s\<rparr>"

text \<open>Whether the user lets the application go on.\<close>

definition confirm_apply :: "tx_runner_options \<Rightarrow> string \<Rightarrow> tx_diff_summary \<Rightarrow> string list \<Rightarrow> bool prog" where
  "confirm_apply opts i summary failures =
     (if to_applyPolicy opts = Interactive then
        (case to_confirmApply opts of
           None \<Rightarrow> throw Confirm_missing
         | Some ask \<Rightarrow>
             then_do (read_tx_review_snapshot i) (\<lambda>s. ret (ask (review_of i s summary failures))))
      else ret True)"

definition emit_apply_result ::
  "tx_env \<Rightarrow> string \<Rightarrow> tx_diff_summary \<Rightarrow> validator_summary list \<Rightarrow> (apply_failure + string \<times> string list) \<Rightarrow> unit prog" where
  "emit_apply_result env i summary validators r =
     (case r of
        Inr (ghost, _) \<Rightarrow> emit (Ev_applied i summary (validator_summary_from_results validators) ghost)
      | Inl F_conflict \<Rightarrow> emit (Ev_error ''tx-apply-conflict'' True)
      | Inl F_partial \<Rightarrow> emit (Ev_error ''tx-apply-partial'' False)
      | Inl _ \<Rightarrow>
          then_do (emit (Ev_error ''tx-overlay-error'' True)) (\<lambda>_. abort_and_emit env i Staging_error None))"

definition approve_and_apply ::
  "tx_env \<Rightarrow> string \<Rightarrow> tx_diff_summary \<Rightarrow> validator_summary list \<Rightarrow> unit prog" where
  "approve_and_apply env i summary validators =
     then_do (approve_tx no_overrides i) (\<lambda>uncovered.
     if uncovered \<noteq> [] then abort_and_emit env i Validator_fail (Some uncovered)
     else then_do (coord_apply env i) (emit_apply_result env i summary validators))"

definition finish_turn_tx :: "tx_env \<Rightarrow> tx_runner_options \<Rightarrow> string \<Rightarrow> unit prog" where
  "finish_turn_tx env opts i =
     then_do (finalize_tx i) (\<lambda>summary.
     then_do (emit (Ev_finalized i summary)) (\<lambda>_.
     if ds_filesChanged summary = 0 then abort_and_emit env i User_abort None
     else
       then_do (validate_tx (to_validators opts) i) (\<lambda>v.
       then_do (emit (Ev_validated i (validator_summary_from_results (fst v)) (snd v))) (\<lambda>_.
       if snd v \<noteq> [] then abort_and_emit env i Validator_fail (Some (snd v))
       else if to_applyPolicy opts = Manual_only then ret ()
       else then_do (confirm_apply opts i summary (snd v)) (\<lambda>ok.
         if \<not> ok then abort_and_emit env i User_abort None
         else approve_and_apply env i summary (fst v))))))"

end
