(* ===== verification/Tx_Logic.thy ===== *)
theory Tx_Logic
  imports Tx_Turn
begin

text \<open>
  A logic for programs on the transaction store: \<open>wp m C Q w\<close> says that the result and the final world of \<open>m\<close>
  started in \<open>w\<close> satisfy \<open>Q\<close>, and that every world a crash can leave behind on the way satisfies \<open>C\<close>.
\<close>

definition wp :: "'a prog \<Rightarrow> (world \<Rightarrow> bool) \<Rightarrow> ((tx_error, 'a) result \<Rightarrow> world \<Rightarrow> bool) \<Rightarrow> world \<Rightarrow> bool" where
  "wp m C Q w = (case m w of (r, w', ws) \<Rightarrow> Q r w' \<and> (\<forall>v\<in>set ws. C v))"

text \<open>Postconditions that pass an error on, or a value.\<close>

definition follow :: "((tx_error, 'b) result \<Rightarrow> world \<Rightarrow> bool) \<Rightarrow> ('a \<Rightarrow> world \<Rightarrow> bool) \<Rightarrow>
  (tx_error, 'a) result \<Rightarrow> world \<Rightarrow> bool" where
  "follow Q F r = (case r of Inl e \<Rightarrow> Q (Inl e) | Inr x \<Rightarrow> F x)"

definition rescue :: "((tx_error, 'a) result \<Rightarrow> world \<Rightarrow> bool) \<Rightarrow> (tx_error \<Rightarrow> world \<Rightarrow> bool) \<Rightarrow>
  (tx_error, 'a) result \<Rightarrow> world \<Rightarrow> bool" where
  "rescue Q H r = (case r of Inl e \<Rightarrow> H e | Inr x \<Rightarrow> Q (Inr x))"

lemma follow_simps [simp]:
  "follow Q F (Inl e) = Q (Inl e)" "follow Q F (Inr x) = F x" "rescue P H (Inl e) = H e" "rescue P H (Inr x) = P (Inr x)"
  by (simp_all add: follow_def rescue_def)

lemma wp_then_do: "wp (then_do m f) C Q w = wp m C (follow Q (\<lambda>x. wp (f x) C Q)) w"
  by (auto simp: wp_def then_do_def split: prod.splits sum.splits)

lemma wp_catching: "wp (catching m h) C Q w = wp m C (rescue Q (\<lambda>e. wp (h e) C Q)) w"
  by (auto simp: wp_def catching_def split: prod.splits sum.splits)

lemma wp_basic:
  "wp (ret x) C Q w = Q (Inr x) w"
  "wp (throw e) C Q w = Q (Inl e) w"
  "wp (observe g) C Q w = Q (Inr (g w)) w"
  "wp (effect h) C Q' w = (Q' (Inr ()) (h w) \<and> C (h w))"
  "wp (throw_when c e) C Q' w = (if c then Q' (Inl e) w else Q' (Inr ()) w)"
  "wp (emit ev) C Q' w = Q' (Inr ()) (w\<lparr>w_events := w_events w @ [ev]\<rparr>)"
  by (simp_all add: wp_def ret_def throw_def observe_def effect_def throw_when_def emit_def)

lemma wp_if: "wp (if c then m else n) C Q w = (if c then wp m C Q w else wp n C Q w)"
  by simp

lemmas wp_simps = wp_then_do wp_catching wp_basic

lemma wp_conseq:
  assumes "wp m C Q w" and "\<And>r v. Q r v \<Longrightarrow> Q' r v" and "\<And>v. C v \<Longrightarrow> C' v"
  shows "wp m C' Q' w"
  using assms by (auto simp: wp_def split: prod.splits)

lemma wp_result: "wp m C Q w \<Longrightarrow> Q (result_of m w) (world_after m w)"
  by (auto simp: wp_def result_of_def world_after_def split: prod.splits)

lemma wp_crash: "wp m C Q w \<Longrightarrow> C w \<Longrightarrow> v \<in> crash_points m w \<Longrightarrow> C v"
  by (auto simp: wp_def crash_points_def split: prod.splits)

lemma wp_iff:
  "wp m C Q w \<longleftrightarrow> Q (result_of m w) (world_after m w) \<and> (\<forall>v \<in> set (snd (snd (m w))). C v)"
  by (auto simp: wp_def result_of_def world_after_def split: prod.splits)

definition post :: "(tx_error \<Rightarrow> world \<Rightarrow> bool) \<Rightarrow> ('a \<Rightarrow> world \<Rightarrow> bool) \<Rightarrow> (tx_error, 'a) result \<Rightarrow> world \<Rightarrow> bool" where
  "post E F r v = (case r of Inl e \<Rightarrow> E e v | Inr x \<Rightarrow> F x v)"

lemma post_simps [simp]: "post E F (Inl e) v = E e v" "post E F (Inr x) v = F x v"
  by (simp_all add: post_def)

lemma wp_bind:
  assumes "wp m C (post E F) w" and "\<And>e v. E e v \<Longrightarrow> Q (Inl e) v" and "\<And>x v. F x v \<Longrightarrow> wp (f x) C Q v"
  shows "wp (then_do m f) C Q w"
  unfolding wp_then_do
proof (rule wp_conseq [OF assms(1)])
  show "follow Q (\<lambda>x. wp (f x) C Q) r v" if "post E F r v" for r v
    using that assms(2,3) by (cases r) simp_all
qed

lemma wp_post_mono:
  assumes "wp m C (post E F) w" and "\<And>e v. E e v \<Longrightarrow> Q (Inl e) v" and "\<And>x v. F x v \<Longrightarrow> Q (Inr x) v"
  shows "wp m C Q w"
proof (rule wp_conseq [OF assms(1)])
  show "Q r v" if "post E F r v" for r v
    using that assms(2,3) by (cases r) simp_all
qed

section \<open>Directories\<close>

lemma map_of_set_dir [simp]: "map_of (w_root (set_dir i d w)) = (map_of (w_root w))(i \<mapsto> d)"
  by (simp add: set_dir_def AList.update_conv')

lemma dir_of_set_dir [simp]: "dir_of (set_dir i d w) j = (if j = i then d else dir_of w j)"
  by (simp add: dir_of_def)

lemma fst_set_dir [simp]: "fst ` set (w_root (set_dir i d w)) = insert i (fst ` set (w_root w))"
  unfolding dom_map_of_conv_image_fst [symmetric] by simp

lemma keys_set_dir [simp]:
  "i \<in> fst ` set (w_root w) \<Longrightarrow> map fst (w_root (set_dir i d w)) = map fst (w_root w)"
  by (simp add: set_dir_def update_keys)

lemma set_dir_fields [simp]:
  "w_files (set_dir i d w) = w_files w" "w_session (set_dir i d w) = w_session w"
  "w_snapshots (set_dir i d w) = w_snapshots w" "w_now (set_dir i d w) = w_now w"
  "w_faults (set_dir i d w) = w_faults w" "w_events (set_dir i d w) = w_events w"
  by (simp_all add: set_dir_def)

lemma dir_of_cong: "w_root v = w_root w \<Longrightarrow> dir_of v = dir_of w"
  by (simp add: dir_of_def fun_eq_iff)

lemma set_file_fields [simp]:
  "w_root (set_file p c w) = w_root w" "w_session (set_file p c w) = w_session w"
  "w_snapshots (set_file p c w) = w_snapshots w" "w_faults (set_file p c w) = w_faults w"
  "w_now (set_file p c w) = w_now w" "w_files (set_file p c w) = (w_files w)(p := c)"
  by (simp_all add: set_file_def)

lemma dir_of_set_file [simp]: "dir_of (set_file p c w) = dir_of w"
  by (rule dir_of_cong) simp

lemma wp_read_dir: "is_valid_tx_id i \<Longrightarrow> wp (read_dir f i) C Q w = Q (Inr (f (dir_of w i))) w"
  by (simp add: read_dir_def checked_def wp_simps)

lemma wp_write_dir:
  "is_valid_tx_id i \<Longrightarrow> wp (write_dir f i) C Q w =
     (Q (Inr ()) (set_dir i (f (dir_of w i)) w) \<and> C (set_dir i (f (dir_of w i)) w))"
  by (simp add: write_dir_def checked_def wp_simps)

lemma wp_store:
  assumes "is_valid_tx_id i"
  shows "wp (read_tx_state i) C Qt w = Qt (Inr (td_state (dir_of w i))) w"
    "wp (read_apply_progress i) C Qp w = Qp (Inr (td_apply (dir_of w i))) w"
    "wp (read_abort_progress i) C Qb w = Qb (Inr (td_abort (dir_of w i))) w"
    "wp (read_diff i) C Qd w = Qd (Inr (td_diff (dir_of w i))) w"
    "wp (write_apply_progress i p) C Q w =
       (let v = set_dir i ((dir_of w i)\<lparr>td_apply := Some p\<rparr>) w in Q (Inr ()) v \<and> C v)"
    "wp (delete_apply_progress i) C Q w =
       (let v = set_dir i ((dir_of w i)\<lparr>td_apply := None\<rparr>) w in Q (Inr ()) v \<and> C v)"
    "wp (write_abort_progress i b) C Q w =
       (let v = set_dir i ((dir_of w i)\<lparr>td_abort := Some b\<rparr>) w in Q (Inr ()) v \<and> C v)"
    "wp (write_diff i es) C Q w =
       (let v = set_dir i ((dir_of w i)\<lparr>td_diff := Some es\<rparr>) w in Q (Inr ()) v \<and> C v)"
    "tx_id tx = i \<Longrightarrow> wp (write_tx_state tx) C Q w =
       (let v = set_dir i ((dir_of w i)\<lparr>td_state := Some tx\<rparr>) w in Q (Inr ()) v \<and> C v)"
  using assms
  by (simp_all add: read_tx_state_def read_apply_progress_def read_abort_progress_def read_diff_def
      write_apply_progress_def delete_apply_progress_def write_abort_progress_def write_diff_def write_tx_state_def
      wp_read_dir wp_write_dir Let_def)

lemma wp_with_tx_lock:
  "is_valid_tx_id i \<Longrightarrow> wp (with_tx_lock i m) C Q w =
     (C (set_dir i (dir_of w i) w) \<and> wp m C Q (set_dir i (dir_of w i) w))"
  by (auto simp: with_tx_lock_def wp_then_do wp_write_dir)

lemma wp_mutate_session:
  "wp (mutate_session f) C Q w =
     wp (f (w_session w)) C (follow Q (\<lambda>s v. Q (Inr ()) (v\<lparr>w_session := s\<rparr>) \<and> C (v\<lparr>w_session := s\<rparr>))) w"
  unfolding mutate_session_def wp_simps by simp

section \<open>Workspace files\<close>

text \<open>What an access to a workspace file can change besides writing it.\<close>

definition disturbed :: "world \<Rightarrow> world \<Rightarrow> bool" where
  "disturbed w v \<longleftrightarrow> v = w\<lparr>w_files := w_files v, w_faults := w_faults v\<rparr>"

lemma disturbed_refl [simp]: "disturbed w w"
  by (simp add: disturbed_def)

lemma disturbed_trans: "disturbed u v \<Longrightarrow> disturbed v w \<Longrightarrow> disturbed u w"
  by (cases u; cases v; cases w) (simp add: disturbed_def)

lemma disturbed_set_file: "disturbed w v \<Longrightarrow> disturbed w (set_file p c v)"
  by (cases w; cases v) (simp add: disturbed_def set_file_def)

lemma disturbed_fields:
  assumes "disturbed w v"
  shows "w_root v = w_root w" "w_session v = w_session w" "w_snapshots v = w_snapshots w" "dir_of v = dir_of w"
    "w_now v = w_now w"
  using assms by (cases w; cases v; simp add: disturbed_def dir_of_def fun_eq_iff)+

lemma wp_next_fault:
  assumes "\<And>f v. disturbed w v \<Longrightarrow> (w_faults w = [] \<Longrightarrow> v = w \<and> f = Calm) \<Longrightarrow> Q (Inr f) v"
    and "\<And>v. disturbed w v \<Longrightarrow> w_faults w \<noteq> [] \<Longrightarrow> C v"
  shows "wp next_fault C Q w"
proof (cases "w_faults w")
  case Nil
  then show ?thesis using assms(1) [of w Calm] by (simp add: wp_def next_fault_def)
next
  case (Cons f fs)
  have d: "disturbed w (w\<lparr>w_faults := fs\<rparr>)" "disturbed w (w\<lparr>w_faults := fs, w_files := g\<rparr>)" for g
    by (cases w; simp add: disturbed_def)+
  show ?thesis
    using assms d Cons by (cases f) (auto simp: wp_def next_fault_def Let_def)
qed

lemma wp_read_file:
  assumes "\<And>v. disturbed w v \<Longrightarrow> (w_faults w = [] \<Longrightarrow> v = w \<and> w_files w p = None) \<Longrightarrow> Q (Inl (Read_failed p)) v"
    and "\<And>v s. disturbed w v \<Longrightarrow> (w_faults w = [] \<Longrightarrow> v = w) \<Longrightarrow> w_files v p = Some s \<Longrightarrow> Q (Inr s) v"
    and "\<And>v. disturbed w v \<Longrightarrow> w_faults w \<noteq> [] \<Longrightarrow> C v"
  shows "wp (read_file p) C Q w"
  unfolding read_file_def wp_then_do
proof (rule wp_next_fault, goal_cases)
  case (1 f v)
  then show ?case
    using assms(1) [of v] assms(2) [of v] by (cases "w_files v p") (auto simp: wp_simps)
next
  case (2 v)
  then show ?case by (rule assms(3))
qed

definition file_written :: "string \<Rightarrow> string \<Rightarrow> world \<Rightarrow> world" where
  "file_written p c w = set_file p (Some c) (set_file (tmp_path p) None (set_file (tmp_path p) (Some c) w))"

lemma wp_write_file:
  assumes calm: "w_faults w = [] \<Longrightarrow> C (set_file (tmp_path p) (Some c) w) \<and> C (file_written p c w) \<and>
      Q (Inr ()) (file_written p c w)"
    and other: "\<And>v. disturbed w v \<Longrightarrow> w_faults w \<noteq> [] \<Longrightarrow> C v \<and> Q (Inl (Read_failed p)) v \<and> Q (Inr ()) v"
  shows "wp (write_file p c) C Q w"
proof (cases "w_faults w = []")
  case True
  have nf: "wp next_fault C Q' v = Q' (Inr Calm) v" if "w_faults v = []" for Q' v
    using that by (simp add: wp_def next_fault_def)
  show ?thesis using calm [OF True] True by (simp add: write_file_def wp_simps nf file_written_def)
next
  case False
  have step: "wp next_fault C Q' v" if "disturbed w v" "\<And>f u. disturbed w u \<Longrightarrow> Q' (Inr f) u" for Q' v
    by (rule wp_next_fault) (use that other False disturbed_trans in blast)+
  have other': "C v" "Q (Inl (Read_failed p)) v" "Q (Inr ()) v" if "disturbed w v" for v
    using other [OF that False] by auto
  show ?thesis
    unfolding write_file_def wp_then_do
    by (rule step) (auto simp: wp_simps intro!: step other' disturbed_set_file)
qed

end
