(* ===== verification/Tx_Crash.thy ===== *)
theory Tx_Crash
  imports Tx_Logic
begin

text \<open>
  Crash safety of the apply protocol: one invariant describes every world that a crash of \<open>applyTx\<close>, or of the
  recovery after it, can leave behind; from every such world recovery converges.
\<close>

section \<open>The worlds between approval and application\<close>

definition apply_entry :: "files \<Rightarrow> diff_entry \<Rightarrow> files" where
  "apply_entry f e = f(tmp_path (de_path e) := None, de_path e := Some (de_new e))"

definition apply_entries :: "diff_entry list \<Rightarrow> files \<Rightarrow> files" where
  "apply_entries es f = foldl apply_entry f es"

text \<open>The first \<open>k\<close> entries are written, the next one perhaps as well, or only to its temporary file.\<close>

definition half_written :: "diff_entry list \<Rightarrow> files \<Rightarrow> nat \<Rightarrow> files \<Rightarrow> bool" where
  "half_written es f k g \<longleftrightarrow> g = apply_entries (take k es) f \<or>
     (k < length es \<and> (g = (apply_entries (take k es) f)(tmp_path (de_path (es ! k)) := Some (de_new (es ! k))) \<or>
                       g = apply_entries (take (Suc k) es) f))"

definition clean_paths :: "diff_entry list \<Rightarrow> bool" where
  "clean_paths es \<longleftrightarrow> distinct (map de_path es) \<and> (\<forall>e\<in>set es. \<forall>e'\<in>set es. tmp_path (de_path e) \<noteq> de_path e')"

text \<open>An approved transaction of the session with a saved diff, and no protocol of it under way.\<close>

definition ready :: "world \<Rightarrow> string \<Rightarrow> transaction \<Rightarrow> diff_entry list \<Rightarrow> bool" where
  "ready w i tx es \<longleftrightarrow> is_valid_tx_id i \<and> i \<in> fst ` set (w_root w) \<and> tx_id tx = i \<and> tx_state tx = Approved \<and>
     tx_diffSummary tx \<noteq> None \<and>
     td_state (dir_of w i) = Some tx \<and> td_apply (dir_of w i) = None \<and> td_abort (dir_of w i) = None \<and>
     td_diff (dir_of w i) = Some es"

definition recorded :: "string \<Rightarrow> string \<Rightarrow> transaction \<Rightarrow> session \<Rightarrow> session" where
  "recorded i ghost tx s =
     clear_active i (if has_record s (apply_record_id i) then s
       else push_record (applied_record i ghost tx (the (tx_diffSummary tx))) s)"

text \<open>What the run of \<open>i\<close> leaves alone.\<close>

definition framed :: "string \<Rightarrow> world \<Rightarrow> world \<Rightarrow> bool" where
  "framed i w v \<longleftrightarrow> map fst (w_root v) = map fst (w_root w) \<and> (\<forall>j. j \<noteq> i \<longrightarrow> dir_of v j = dir_of w j) \<and>
     td_abort (dir_of v i) = td_abort (dir_of w i) \<and> td_diff (dir_of v i) = td_diff (dir_of w i)"

text \<open>The files by the phase of the progress file; said only of runs without faults (\<open>calm\<close>).\<close>

definition files_ok :: "diff_entry list \<Rightarrow> files \<Rightarrow> apply_progress option \<Rightarrow> world \<Rightarrow> bool" where
  "files_ok es f ap v \<longleftrightarrow> w_faults v = [] \<and>
     (case ap of
        None \<Rightarrow> w_files v = f
      | Some p \<Rightarrow> w_snapshots v (ap_ghostSnapshotId p) = Some f \<and>
          (case ap_phase p of
             Apply_pending \<Rightarrow> w_files v = f
           | Apply_writing \<Rightarrow> \<exists>k\<le>length es. ap_filesWritten p = map de_path (take k es) \<and> half_written es f k (w_files v)
           | Apply_failed_partial \<Rightarrow> \<exists>k\<le>length es. ap_filesWritten p = map de_path (take k es) \<and> half_written es f k (w_files v)
           | _ \<Rightarrow> w_files v = apply_entries es f))"

definition phase_ok :: "world \<Rightarrow> string \<Rightarrow> transaction \<Rightarrow> apply_progress option \<Rightarrow> world \<Rightarrow> bool" where
  "phase_ok w i tx ap v \<longleftrightarrow>
     (case ap of
        None \<Rightarrow> td_state (dir_of v i) = Some tx \<and> w_session v = w_session w
      | Some p \<Rightarrow>
          (case ap_phase p of
             Apply_pending \<Rightarrow> td_state (dir_of v i) = Some tx \<and> w_session v = w_session w
           | Apply_writing \<Rightarrow>
               td_state (dir_of v i) \<in> {Some tx, Some (tx\<lparr>tx_state := Applied_partial\<rparr>)} \<and> w_session v = w_session w
           | Apply_failed_partial \<Rightarrow>
               td_state (dir_of v i) = Some (tx\<lparr>tx_state := Applied_partial\<rparr>) \<and> w_session v = w_session w
           | Apply_committed \<Rightarrow>
               td_state (dir_of v i) = Some tx \<and>
               w_session v \<in> {w_session w, recorded i (ap_ghostSnapshotId p) tx (w_session w)}
           | Apply_finalized \<Rightarrow>
               td_state (dir_of v i) \<in>
                 {Some tx, Some (tx\<lparr>tx_state := Applied, tx_ghostSnapshotId := Some (ap_ghostSnapshotId p)\<rparr>)} \<and>
               w_session v = recorded i (ap_ghostSnapshotId p) tx (w_session w)))"

definition apply_inv :: "bool \<Rightarrow> world \<Rightarrow> string \<Rightarrow> transaction \<Rightarrow> diff_entry list \<Rightarrow> world \<Rightarrow> bool" where
  "apply_inv calm w i tx es v \<longleftrightarrow> framed i w v \<and> phase_ok w i tx (td_apply (dir_of v i)) v \<and>
     (calm \<longrightarrow> files_ok es (w_files w) (td_apply (dir_of v i)) v)"

section \<open>Bookkeeping\<close>

lemma framed_refl [simp]: "framed i w w"
  by (simp add: framed_def)

lemma framed_keys: "framed i w v \<Longrightarrow> i \<in> fst ` set (w_root w) \<Longrightarrow> i \<in> fst ` set (w_root v)"
  unfolding framed_def by (metis image_set)

lemma framed_set_dir:
  assumes "framed i w v" and "i \<in> fst ` set (w_root w)"
    and "td_abort d = td_abort (dir_of w i)" and "td_diff d = td_diff (dir_of w i)"
  shows "framed i w (set_dir i d v)"
  using assms framed_keys [OF assms(1,2)] by (simp add: framed_def)

lemma framed_disturbed: "framed i w v \<Longrightarrow> disturbed v u \<Longrightarrow> framed i w u"
  by (simp add: framed_def disturbed_fields)

lemma framed_cong: "framed i w v \<Longrightarrow> w_root u = w_root v \<Longrightarrow> framed i w u"
  using dir_of_cong [of u v] by (simp add: framed_def)

lemma recorded_idem [simp]: "recorded i g tx (recorded i g' tx s) = recorded i g' tx s"
  by (auto simp: recorded_def clear_active_def push_record_def has_record_def applied_record_def)

lemma recorded_has: "has_record (recorded i g tx s) (apply_record_id i)" "ss_activeTxId (recorded i g tx s) \<noteq> Some i"
  by (auto simp: recorded_def clear_active_def push_record_def has_record_def applied_record_def)

lemma ss_id_recorded [simp]: "ss_id (recorded i g tx s) = ss_id s"
  by (simp add: recorded_def clear_active_def push_record_def)

lemma apply_entries_Suc:
  "k < length es \<Longrightarrow> apply_entries (take (Suc k) es) f = apply_entry (apply_entries (take k es) f) (es ! k)"
  by (simp add: apply_entries_def take_Suc_conv_app_nth)

lemma apply_entries_other:
  "\<forall>e\<in>set es. p \<noteq> de_path e \<and> p \<noteq> tmp_path (de_path e) \<Longrightarrow> apply_entries es f p = f p"
proof (induction es arbitrary: f)
  case (Cons e es)
  have "apply_entries (e # es) f p = apply_entries es (apply_entry f e) p" by (simp add: apply_entries_def)
  also have "\<dots> = apply_entry f e p" using Cons by simp
  also have "\<dots> = f p" using Cons.prems by (simp add: apply_entry_def)
  finally show ?case .
qed (simp add: apply_entries_def)

lemma tmp_path_inject [simp]: "tmp_path p = tmp_path q \<longleftrightarrow> p = q"
  by (simp add: tmp_path_def)

lemma apply_entries_at:
  assumes "clean_paths es" and "e \<in> set es"
  shows "apply_entries es f (de_path e) = Some (de_new e)"
  using assms
proof (induction es arbitrary: f)
  case (Cons x es)
  have step: "apply_entries (x # es) f = apply_entries es (apply_entry f x)" by (simp add: apply_entries_def)
  have clean: "clean_paths es" using Cons.prems(1) by (simp add: clean_paths_def)
  show ?case
  proof (cases "e \<in> set es")
    case True
    then show ?thesis using Cons.IH [OF clean] by (simp add: step)
  next
    case False
    then have e: "e = x" using Cons.prems(2) by simp
    have "apply_entries es (apply_entry f x) (de_path x) = apply_entry f x (de_path x)"
      by (rule apply_entries_other) (use Cons.prems(1) in \<open>force simp: clean_paths_def\<close>)
    then show ?thesis by (simp add: step e apply_entry_def)
  qed
qed simp

text \<open>Entries not yet written still have their original content.\<close>

lemma apply_entries_rest:
  assumes "clean_paths es" and "k < length es"
  shows "apply_entries (take k es) f (de_path (es ! k)) = f (de_path (es ! k))"
proof (rule apply_entries_other, intro ballI)
  fix e
  assume e: "e \<in> set (take k es)"
  then obtain j where j: "j < k" "e = es ! j" by (auto simp: in_set_conv_nth)
  have "de_path (es ! k) \<noteq> de_path (es ! j)"
    using assms j nth_eq_iff_index_eq [of "map de_path es" k j] by (auto simp: clean_paths_def)
  moreover have "tmp_path (de_path (es ! j)) \<noteq> de_path (es ! k)"
    using assms j by (auto simp: clean_paths_def dest: nth_mem)
  ultimately show "de_path (es ! k) \<noteq> de_path e \<and> de_path (es ! k) \<noteq> tmp_path (de_path e)"
    using j(2) by simp
qed

section \<open>Stage A\<close>

definition plan_of :: "tx_env \<Rightarrow> diff_entry list \<Rightarrow> plan_entry list" where
  "plan_of env es =
     map (\<lambda>e. \<lparr>pe_path = de_path e, pe_fingerprint = en_sha env (de_old e), pe_newContent = de_new e\<rparr>) es"

definition originals_present :: "diff_entry list \<Rightarrow> files \<Rightarrow> bool" where
  "originals_present es f \<longleftrightarrow> (\<forall>e\<in>set es. f (de_path e) = Some (de_old e))"

lemma wp_preflight:
  assumes "\<And>v. disturbed w v \<Longrightarrow> w_faults w \<noteq> [] \<Longrightarrow> C v"
    and "\<And>v e. disturbed w v \<Longrightarrow> (w_faults w = [] \<Longrightarrow> v = w) \<Longrightarrow> Q (Inl e) v"
    and "\<And>v. disturbed w v \<Longrightarrow> (w_faults w = [] \<Longrightarrow> v = w \<and> originals_present es (w_files w)) \<Longrightarrow>
           Q (Inr (plan_of env es)) v"
  shows "wp (preflight env es) C Q w"
  using assms
proof (induction es arbitrary: w Q)
  case Nil
  then show ?case by (simp add: wp_basic plan_of_def originals_present_def)
next
  case (Cons e es)
  show ?case
  proof (cases e)
    case (Diff_modify p old new)
    let ?pe = "\<lparr>pe_path = p, pe_fingerprint = en_sha env old, pe_newContent = new\<rparr>"
    have rest: "wp (preflight env es) C (follow Q (\<lambda>ps. wp (ret (?pe # ps)) C Q)) u"
      if u: "disturbed w u" "w_faults w = [] \<Longrightarrow> u = w" "w_files u p = Some old" for u
    proof (rule Cons.IH, goal_cases)
      case (1 v)
      then show ?case using Cons.prems(1) u(2) disturbed_trans [OF u(1)] by metis
    next
      case (2 v x)
      then show ?case using Cons.prems(2) u(2) disturbed_trans [OF u(1)] by simp
    next
      case (3 v)
      then have "Q (Inr (plan_of env (e # es))) v"
        using u disturbed_trans [OF u(1)]
        by (intro Cons.prems(3)) (auto simp: originals_present_def Diff_modify)
      then show ?case by (simp add: wp_basic plan_of_def Diff_modify)
    qed
    show ?thesis
      unfolding preflight.simps wp_then_do Diff_modify preflight_entry_def diff_entry.case
    proof (rule wp_read_file, goal_cases)
      case (1 v)
      then show ?case using Cons.prems(2) by simp
    next
      case (2 v c)
      then show ?case using rest [of v] Cons.prems(2) [of v "Apply_conflict p"] by (simp add: wp_basic)
    next
      case (3 v)
      then show ?case using Cons.prems(1) by simp
    qed
  qed (use Cons.prems(2) in \<open>simp_all add: wp_then_do wp_basic preflight_entry_def\<close>)
qed

text \<open>The world stage A hands over.\<close>

definition handed_over ::
  "bool \<Rightarrow> world \<Rightarrow> string \<Rightarrow> transaction \<Rightarrow> diff_entry list \<Rightarrow> string \<Rightarrow> apply_progress \<Rightarrow> world \<Rightarrow> bool" where
  "handed_over calm w i tx es ghost p v \<longleftrightarrow>
     framed i w v \<and> td_state (dir_of v i) = Some tx \<and> td_apply (dir_of v i) = Some p \<and> w_session v = w_session w \<and>
     ap_phase p = Apply_pending \<and> ap_ghostSnapshotId p = ghost \<and> ap_filesWritten p = [] \<and>
     (calm \<longrightarrow> w_faults v = [] \<and> w_snapshots v ghost = Some (w_files w) \<and> w_files v = w_files w \<and>
        originals_present es (w_files w))"

lemma readyD:
  assumes "ready w i tx es"
  shows "is_valid_tx_id i" "i \<in> fst ` set (w_root w)" "tx_id tx = i" "tx_state tx = Approved"
    "td_state (dir_of w i) = Some tx" "td_apply (dir_of w i) = None" "td_abort (dir_of w i) = None"
    "td_diff (dir_of w i) = Some es" "tx_diffSummary tx \<noteq> None"
  using assms by (simp_all add: ready_def)

lemma apply_inv_initial:
  assumes "ready w i tx es" and "calm \<Longrightarrow> w_faults w = []"
    and "framed i w v" and "w_session v = w_session w" and "dir_of v i = dir_of w i"
    and "calm \<Longrightarrow> w_files v = w_files w \<and> w_faults v = []"
  shows "apply_inv calm w i tx es v"
  using assms readyD [OF assms(1)] by (auto simp: apply_inv_def phase_ok_def files_ok_def)

lemma stage_a_wp:
  assumes r: "ready w i tx es" and calm: "calm \<Longrightarrow> w_faults w = []"
  shows "wp (run_stage_a env i) (apply_inv calm w i tx es)
    (post (\<lambda>_ v. apply_inv calm w i tx es v)
      (\<lambda>(plan, ghost) v. plan = plan_of env es \<and> (\<exists>p. handed_over calm w i tx es ghost p v))) w"
proof -
  note rd = readyD [OF r]
  define w1 where "w1 = set_dir i (dir_of w i) w"
  have w1: "framed i w w1" "w_session w1 = w_session w" "dir_of w1 i = dir_of w i" "w_files w1 = w_files w"
    "w_faults w1 = w_faults w" "w_snapshots w1 = w_snapshots w"
    by (simp_all add: w1_def framed_set_dir rd)
  have inv: "apply_inv calm w i tx es u" if "disturbed w1 u" "calm \<Longrightarrow> u = w1" for u
    by (rule apply_inv_initial [OF r calm])
      (use that w1 calm disturbed_fields [OF that(1)] framed_disturbed [OF w1(1) that(1)] in auto)
  have snap: "wp (begin_apply env i plan) (apply_inv calm w i tx es)
      (post (\<lambda>_ v. apply_inv calm w i tx es v)
      (\<lambda>(plan, ghost) v. plan = plan_of env es \<and> (\<exists>p. handed_over calm w i tx es ghost p v))) u"
    if u: "disturbed w1 u" "calm \<Longrightarrow> u = w1 \<and> originals_present es (w_files w1)" and plan: "plan = plan_of env es" for u plan
  proof (cases "en_snapshot env u")
    case None
    then show ?thesis
      using inv [OF u(1)] u(2) by (simp add: begin_apply_def create_apply_pre_snapshot_def wp_simps)
  next
    case (Some ghost)
    define v where "v = u\<lparr>w_snapshots := (w_snapshots u)(ghost := Some (w_files u))\<rparr>"
    have du: "dir_of u i = dir_of w i" "w_session u = w_session w" "framed i w u"
      using disturbed_fields [OF u(1)] w1 framed_disturbed [OF w1(1) u(1)] by simp_all
    have v: "framed i w v" "dir_of v = dir_of u" "w_session v = w_session u" "w_files v = w_files u" "w_faults v = w_faults u"
      "w_snapshots v ghost = Some (w_files u)"
      using framed_cong [OF du(3), of v] dir_of_cong [of v u] by (simp_all add: v_def)
    have c: "apply_inv calm w i tx es v"
      by (rule apply_inv_initial [OF r calm]) (use v du u w1 calm in auto)
    define p where "p = \<lparr>ap_phase = Apply_pending, ap_ghostSnapshotId = ghost, ap_startedAt = w_now u,
        ap_filesPlanned = map pe_path plan, ap_filesWritten = [], ap_error = None\<rparr>"
    define z where "z = set_dir i ((dir_of v i)\<lparr>td_apply := Some p\<rparr>) v"
    have fz: "framed i w z"
      unfolding z_def by (rule framed_set_dir [OF v(1) rd(2)]) (simp_all add: v du)
    have h: "handed_over calm w i tx es ghost p z"
      using fz u w1 calm v du rd by (auto simp: handed_over_def z_def p_def)
    then have cz: "apply_inv calm w i tx es z"
      using fz by (auto simp: handed_over_def apply_inv_def phase_ok_def files_ok_def)
    have now: "w_now v = w_now u" by (simp add: v_def)
    show ?thesis
      using Some rd(1) c h [unfolded z_def p_def] cz [unfolded z_def p_def] plan
      by (auto simp: begin_apply_def create_apply_pre_snapshot_def wp_simps wp_store Let_def v_def [symmetric] now)
  qed
  have i1: "apply_inv calm w i tx es w1" by (rule inv) simp_all
  have pre: "wp (preflight env es) (apply_inv calm w i tx es)
      (follow Q (\<lambda>plan. wp (begin_apply env i plan) (apply_inv calm w i tx es) Q)) w1"
    if Q: "Q = (post (\<lambda>_ v. apply_inv calm w i tx es v)
      (\<lambda>(plan, ghost) v. plan = plan_of env es \<and> (\<exists>p. handed_over calm w i tx es ghost p v)))" for Q
  proof (rule wp_preflight, goal_cases)
    case (1 v)
    then show ?case using inv calm w1(5) by auto
  next
    case (2 v e)
    then show ?case using inv calm w1(5) by (auto simp: Q)
  next
    case (3 v)
    have "calm \<Longrightarrow> w_faults w1 = []" using calm w1(5) by simp
    with 3 show ?case using snap [OF 3(1) _ refl] by (simp add: Q)
  qed
  show ?thesis
    using pre [OF refl] i1 rd unfolding run_stage_a_def stage_a_body_def check_index_def
    by (cases "en_index env w1")
      (simp_all add: wp_with_tx_lock w1_def [symmetric] wp_then_do wp_store wp_basic w1)
qed

section \<open>Stage B\<close>

definition writing_at ::
  "bool \<Rightarrow> world \<Rightarrow> string \<Rightarrow> transaction \<Rightarrow> diff_entry list \<Rightarrow> string \<Rightarrow> nat \<Rightarrow> apply_progress \<Rightarrow> world \<Rightarrow> bool" where
  "writing_at calm w i tx es ghost k p v \<longleftrightarrow>
     framed i w v \<and> td_state (dir_of v i) = Some tx \<and> td_apply (dir_of v i) = Some p \<and> w_session v = w_session w \<and>
     ap_phase p = Apply_writing \<and> ap_ghostSnapshotId p = ghost \<and>
     (calm \<longrightarrow> w_faults v = [] \<and> w_snapshots v ghost = Some (w_files w) \<and>
        ap_filesWritten p = map de_path (take k es) \<and> w_files v = apply_entries (take k es) (w_files w))"

lemma writing_disturbed:
  assumes "writing_at calm w i tx es g k p v" and "disturbed v u" and "calm \<Longrightarrow> u = v"
  shows "writing_at calm w i tx es g k p u"
  using assms framed_disturbed [of i w v u] disturbed_fields [OF assms(2)] by (cases calm) (auto simp: writing_at_def)

lemma writing_inv:
  assumes "writing_at calm w i tx es g k p v" and "k \<le> length es"
  shows "apply_inv calm w i tx es v"
  using assms by (auto simp: writing_at_def apply_inv_def phase_ok_def files_ok_def half_written_def)

lemma half_inv:
  assumes "writing_at True w i tx es g k p v" and "k \<le> length es" and "w_root u = w_root v" "w_session u = w_session v"
    "w_snapshots u = w_snapshots v" "w_faults u = w_faults v" and "half_written es (w_files w) k (w_files u)"
  shows "apply_inv True w i tx es u"
  using assms framed_cong [of i w v u] dir_of_cong [of u v]
  by (auto simp: writing_at_def apply_inv_def phase_ok_def files_ok_def)

lemma fail_partial_wp:
  assumes r: "ready w i tx es" and v: "writing_at False w i tx es g k p v"
    and cleanup: "cleanup = ret () \<or> cleanup = effect (set_file f None)"
    and Q: "\<And>e u. apply_inv False w i tx es u \<Longrightarrow> Q (Inl e) u"
  shows "wp (fail_partial tx i p st path cleanup) (apply_inv False w i tx es) Q v"
proof -
  note rd = readyD [OF r]
  define u1 where "u1 = set_dir i ((dir_of v i)\<lparr>td_state := Some (tx\<lparr>tx_state := Applied_partial\<rparr>)\<rparr>) v"
  define p' where "p' = p\<lparr>ap_phase := Apply_failed_partial, ap_error := Some (st, Some path)\<rparr>"
  define u2 where "u2 = set_dir i ((dir_of u1 i)\<lparr>td_apply := Some p'\<rparr>) u1"
  have f: "framed i w v" using v by (simp add: writing_at_def)
  then have ab: "td_abort (dir_of v i) = td_abort (dir_of w i)" "td_diff (dir_of v i) = td_diff (dir_of w i)"
    by (simp_all add: framed_def)
  have f1: "framed i w u1" unfolding u1_def by (rule framed_set_dir [OF f rd(2)]) (simp_all add: ab)
  have f2: "framed i w u2" unfolding u2_def by (rule framed_set_dir [OF f1 rd(2)]) (simp_all add: ab u1_def)
  have i1: "apply_inv False w i tx es u1"
    using v f1 by (auto simp: apply_inv_def phase_ok_def writing_at_def u1_def)
  have i2: "apply_inv False w i tx es u2"
    using v f2 by (auto simp: apply_inv_def phase_ok_def writing_at_def u2_def u1_def p'_def)
  have i3: "apply_inv False w i tx es (set_file f None u2)"
    using i2 framed_cong [OF f2, of "set_file f None u2"] dir_of_cong [of "set_file f None u2" u2]
    by (simp add: apply_inv_def phase_ok_def cong: option.case_cong apply_phase.case_cong)
  show ?thesis
    using cleanup i1 i2 i3 Q rd
    by (auto simp: fail_partial_def wp_then_do wp_basic wp_store Let_def u1_def [symmetric] p'_def [symmetric] u2_def [symmetric])
qed

lemma write_planned_wp_faulty:
  assumes r: "ready w i tx es" and v: "writing_at False w i tx es g k p v" and k: "k < length es"
  shows "wp (write_planned env tx i p e) (apply_inv False w i tx es)
    (post (\<lambda>_ u. apply_inv False w i tx es u)
      (\<lambda>p' u. writing_at False w i tx es g (Suc k) p' u)) v"
proof -
  note rd = readyD [OF r]
  let ?C = "apply_inv False w i tx es"
  have at: "writing_at False w i tx es g k p u" if "disturbed v u" for u
    by (rule writing_disturbed [OF v that]) simp
  have inv: "?C u" if "disturbed v u" for u
    using writing_inv [OF at [OF that]] k by simp
  define done1 where "done1 = p\<lparr>ap_filesWritten := ap_filesWritten p @ [pe_path e]\<rparr>"
  have last: "writing_at False w i tx es g (Suc k) done1 (set_dir i ((dir_of u i)\<lparr>td_apply := Some done1\<rparr>) u)"
    if "disturbed v u" for u
    using at [OF that] framed_set_dir [of i w u "(dir_of u i)\<lparr>td_apply := Some done1\<rparr>"] rd(2)
    by (auto simp: writing_at_def done1_def framed_def)
  have last_inv: "?C (set_dir i ((dir_of u i)\<lparr>td_apply := Some done1\<rparr>) u)" if "disturbed v u" for u
    using writing_inv [OF last [OF that]] k by simp
  have wr: "wp (write_file (pe_path e) (pe_newContent e)) ?C Q u"
    if "disturbed v u" and "\<And>x. disturbed v x \<Longrightarrow> Q (Inl (Read_failed (pe_path e))) x \<and> Q (Inr ()) x" for Q u
  proof (rule wp_write_file)
    show "?C (set_file (tmp_path (pe_path e)) (Some (pe_newContent e)) u) \<and>
        ?C (file_written (pe_path e) (pe_newContent e) u) \<and> Q (Inr ()) (file_written (pe_path e) (pe_newContent e) u)"
      using that(1,2) inv by (simp add: file_written_def disturbed_set_file)
  qed (use that inv disturbed_trans in blast)
  show ?thesis
    unfolding write_planned_def wp_then_do wp_catching
  proof (rule wp_read_file, goal_cases)
    case (1 u)
    then show ?case by (auto intro!: fail_partial_wp [OF r at [OF 1(1)]])
  next
    case (2 u s)
    then show ?case
      by (auto simp: wp_then_do wp_catching wp_basic wp_store rd Let_def done1_def [symmetric]
          intro!: fail_partial_wp [OF r at] wr last last_inv)
  next
    case (3 u)
    show ?case by (rule inv [OF 3(1)])
  qed
qed

lemma write_planned_wp_calm:
  assumes r: "ready w i tx es" and v: "writing_at True w i tx es g k p v" and k: "k < length es"
    and clean: "clean_paths es" and orig: "originals_present es (w_files w)"
  shows "wp (write_planned env tx i p (plan_of env es ! k)) (apply_inv True w i tx es)
    (post (\<lambda>_ u. False)
      (\<lambda>p' u. writing_at True w i tx es g (Suc k) p' u)) v"
proof -
  note rd = readyD [OF r]
  let ?C = "apply_inv True w i tx es"
  let ?e = "es ! k"
  have e: "plan_of env es ! k = \<lparr>pe_path = de_path ?e, pe_fingerprint = en_sha env (de_old ?e), pe_newContent = de_new ?e\<rparr>"
    using k by (simp add: plan_of_def)
  have vf: "w_files v = apply_entries (take k es) (w_files w)" "w_faults v = []" "framed i w v"
    "td_state (dir_of v i) = Some tx" "td_apply (dir_of v i) = Some p"
    using v by (simp_all add: writing_at_def)
  have old: "w_files v (de_path ?e) = Some (de_old ?e)"
    using apply_entries_rest [OF clean k] orig k by (simp add: vf originals_present_def)
  define u0 where "u0 = set_file (tmp_path (de_path ?e)) (Some (de_new ?e)) v"
  define u1 where "u1 = file_written (de_path ?e) (de_new ?e) v"
  have d: "w_root u0 = w_root v" "w_root u1 = w_root v" "dir_of u0 = dir_of v" "dir_of u1 = dir_of v"
    by (auto simp: u0_def u1_def file_written_def intro!: dir_of_cong)
  have files1: "w_files u1 = apply_entries (take (Suc k) es) (w_files w)"
    using k by (simp add: u1_def file_written_def vf apply_entries_Suc apply_entry_def)
  have i0: "?C u0"
    by (rule half_inv [OF v]) (use k in \<open>simp_all add: u0_def half_written_def vf\<close>)
  have i1: "?C u1"
    by (rule half_inv [OF v])
      (use k files1 in \<open>simp_all add: half_written_def\<close>, simp_all add: u1_def file_written_def)
  define p' where "p' = p\<lparr>ap_filesWritten := ap_filesWritten p @ [de_path ?e]\<rparr>"
  define u2 where "u2 = set_dir i ((dir_of v i)\<lparr>td_apply := Some p'\<rparr>) u1"
  have f2: "framed i w u2"
    unfolding u2_def
    by (rule framed_set_dir [OF framed_cong [OF vf(3) d(2)] rd(2)]) (use vf(3) in \<open>simp_all add: framed_def\<close>)
  have "writing_at True w i tx es g (Suc k) p' u2"
    using v f2 files1 k
    by (auto simp: writing_at_def u2_def p'_def u1_def file_written_def take_Suc_conv_app_nth)
  moreover from this have "?C u2" using writing_inv k by simp
  ultimately show ?thesis
    unfolding write_planned_def wp_then_do wp_catching e
    apply (intro wp_read_file)
    using old vf(2) i0 i1
    by (auto simp: wp_then_do wp_catching wp_basic wp_store rd Let_def p'_def [symmetric] d u2_def [symmetric]
        u0_def [symmetric] u1_def [symmetric] intro!: wp_write_file)
qed

lemma write_planned_wp:
  assumes r: "ready w i tx es" and v: "writing_at calm w i tx es g k p v" and k: "k < length es"
    and clean: "calm \<Longrightarrow> clean_paths es \<and> originals_present es (w_files w)"
  shows "wp (write_planned env tx i p (plan_of env es ! k)) (apply_inv calm w i tx es)
    (post (\<lambda>_ u. \<not> calm \<and> apply_inv calm w i tx es u) (\<lambda>p' u. writing_at calm w i tx es g (Suc k) p' u)) v"
proof (cases calm)
  case True
  with assms have "clean_paths es" "originals_present es (w_files w)" "writing_at True w i tx es g k p v" by auto
  from write_planned_wp_calm [OF r this(3) k this(1,2), of env] show ?thesis
    by (simp add: True)
next
  case False
  with v have "writing_at False w i tx es g k p v" by simp
  from write_planned_wp_faulty [OF r this k, of env "plan_of env es ! k"] show ?thesis
    by (simp add: False)
qed

lemma write_plan_wp:
  assumes r: "ready w i tx es" and clean: "calm \<Longrightarrow> clean_paths es \<and> originals_present es (w_files w)"
    and v: "writing_at calm w i tx es g k p v" and k: "k \<le> length es"
  shows "wp (write_plan env tx i p (drop k (plan_of env es))) (apply_inv calm w i tx es)
    (post (\<lambda>_ u. \<not> calm \<and> apply_inv calm w i tx es u)
      (\<lambda>p' u. writing_at calm w i tx es g (length es) p' u)) v"
  using v k
proof (induction "length es - k" arbitrary: k p v)
  case 0
  then have "k = length es" by simp
  with 0 show ?case by (simp add: plan_of_def wp_basic)
next
  case (Suc n)
  then have k: "k < length es" by simp
  then have d: "drop k (plan_of env es) = plan_of env es ! k # drop (Suc k) (plan_of env es)"
    using Cons_nth_drop_Suc [of k "plan_of env es"] by (simp add: plan_of_def)
  have next_ok: "wp (write_plan env tx i p' (drop (Suc k) (plan_of env es))) (apply_inv calm w i tx es)
    (post (\<lambda>_ u. \<not> calm \<and> apply_inv calm w i tx es u)
      (\<lambda>p' u. writing_at calm w i tx es g (length es) p' u)) u"
    if "writing_at calm w i tx es g (Suc k) p' u" for p' u
    by (rule Suc.hyps(1)) (use Suc.hyps(2) k that in auto)
  show ?case
    unfolding d write_plan.simps
    by (rule wp_bind [OF write_planned_wp [OF r Suc.prems(1) k clean]]) (use next_ok in auto)
qed

text \<open>The world stage B hands over.\<close>

definition committed_at ::
  "bool \<Rightarrow> world \<Rightarrow> string \<Rightarrow> transaction \<Rightarrow> diff_entry list \<Rightarrow> string \<Rightarrow> apply_progress \<Rightarrow> world \<Rightarrow> bool" where
  "committed_at calm w i tx es ghost p v \<longleftrightarrow>
     framed i w v \<and> td_state (dir_of v i) = Some tx \<and> td_apply (dir_of v i) = Some p \<and>
     w_session v \<in> {w_session w, recorded i ghost tx (w_session w)} \<and>
     ap_phase p = Apply_committed \<and> ap_ghostSnapshotId p = ghost \<and>
     (calm \<longrightarrow> w_faults v = [] \<and> w_snapshots v ghost = Some (w_files w) \<and> w_files v = apply_entries es (w_files w))"

lemma committed_inv: "committed_at calm w i tx es g p v \<Longrightarrow> apply_inv calm w i tx es v"
  by (auto simp: committed_at_def apply_inv_def phase_ok_def files_ok_def)

lemma stage_b_wp:
  assumes r: "ready w i tx es" and clean: "calm \<Longrightarrow> clean_paths es"
    and v: "handed_over calm w i tx es g p v"
  shows "wp (run_stage_b env i (plan_of env es)) (apply_inv calm w i tx es)
    (post (\<lambda>_ u. \<not> calm \<and> apply_inv calm w i tx es u)
      (\<lambda>g' u. g' = g \<and> (\<exists>p'. committed_at calm w i tx es g p' u))) v"
proof -
  note rd = readyD [OF r]
  have f: "framed i w v" using v by (simp add: handed_over_def)
  then have ab: "td_abort (dir_of v i) = td_abort (dir_of w i)" "td_diff (dir_of v i) = td_diff (dir_of w i)"
    by (simp_all add: framed_def)
  define v1 where "v1 = set_dir i (dir_of v i) v"
  have f1: "framed i w v1" unfolding v1_def by (rule framed_set_dir [OF f rd(2)]) (simp_all add: ab)
  have i1: "apply_inv calm w i tx es v1"
    using v f1 by (auto simp: handed_over_def v1_def apply_inv_def phase_ok_def files_ok_def)
  define q where "q = p\<lparr>ap_phase := Apply_writing\<rparr>"
  define v2 where "v2 = set_dir i ((dir_of v1 i)\<lparr>td_apply := Some q\<rparr>) v1"
  have f2: "framed i w v2" unfolding v2_def by (rule framed_set_dir [OF f1 rd(2)]) (simp_all add: ab v1_def)
  have w2: "writing_at calm w i tx es g 0 q v2"
    using v f2 by (auto simp: handed_over_def writing_at_def v2_def v1_def q_def apply_entries_def)
  then have i2: "apply_inv calm w i tx es v2" using writing_inv by blast
  have orig: "calm \<Longrightarrow> clean_paths es \<and> originals_present es (w_files w)"
    using clean v by (simp add: handed_over_def)
  have fin: "committed_at calm w i tx es g (p'\<lparr>ap_phase := Apply_committed\<rparr>)
      (set_dir i ((dir_of u i)\<lparr>td_apply := Some (p'\<lparr>ap_phase := Apply_committed\<rparr>)\<rparr>) u)"
    if "writing_at calm w i tx es g (length es) p' u" for p' u
    using that framed_set_dir [of i w u "(dir_of u i)\<lparr>td_apply := Some (p'\<lparr>ap_phase := Apply_committed\<rparr>)\<rparr>"] rd(2)
    by (auto simp: writing_at_def committed_at_def framed_def)
  have body: "wp (then_do (write_plan env tx i q (plan_of env es)) (\<lambda>p'.
      then_do (write_apply_progress i (p'\<lparr>ap_phase := Apply_committed\<rparr>)) (\<lambda>_. ret (ap_ghostSnapshotId p'))))
      (apply_inv calm w i tx es)
      (post (\<lambda>_ u. \<not> calm \<and> apply_inv calm w i tx es u)
         (\<lambda>g' u. g' = g \<and> (\<exists>p'. committed_at calm w i tx es g p' u))) v2"
  proof (rule wp_bind [OF write_plan_wp [OF r orig w2, of env, simplified]], goal_cases)
    case (2 p' u)
    from fin [OF 2] committed_inv [OF fin [OF 2]] 2 show ?case
      by (auto simp: wp_then_do wp_basic wp_store rd Let_def writing_at_def)
  qed auto
  have "td_state (dir_of v1 i) = Some tx" "td_apply (dir_of v1 i) = Some p"
    using v by (simp_all add: v1_def handed_over_def)
  with body i1 i2 rd show ?thesis
    unfolding run_stage_b_def wp_with_tx_lock [OF rd(1)] v1_def [symmetric]
    by (simp add: wp_then_do [of "read_tx_state i"] wp_then_do [of "read_apply_progress i"]
        wp_then_do [of "write_apply_progress i q"] wp_store Let_def q_def [symmetric] v2_def [symmetric])
qed

section \<open>Stage C\<close>

lemma files_ok_fields:
  "w_files u = w_files v \<Longrightarrow> w_faults u = w_faults v \<Longrightarrow> w_snapshots u = w_snapshots v \<Longrightarrow>
     files_ok es f ap u = files_ok es f ap v"
  by (simp add: files_ok_def split: option.splits apply_phase.splits)

text \<open>The last world: everything done and recorded.\<close>

definition applied_at ::
  "bool \<Rightarrow> world \<Rightarrow> string \<Rightarrow> transaction \<Rightarrow> diff_entry list \<Rightarrow> string \<Rightarrow> world \<Rightarrow> bool" where
  "applied_at calm w i tx es ghost v \<longleftrightarrow>
     framed i w v \<and> td_state (dir_of v i) = Some (tx\<lparr>tx_state := Applied, tx_ghostSnapshotId := Some ghost\<rparr>) \<and>
     w_session v = recorded i ghost tx (w_session w) \<and>
     (\<exists>p. td_apply (dir_of v i) = Some p \<and> ap_phase p = Apply_finalized \<and> ap_ghostSnapshotId p = ghost) \<and>
     (calm \<longrightarrow> w_faults v = [] \<and> w_snapshots v ghost = Some (w_files w) \<and> w_files v = apply_entries es (w_files w))"

lemma applied_inv: "applied_at calm w i tx es g v \<Longrightarrow> apply_inv calm w i tx es v"
  by (auto simp: applied_at_def apply_inv_def phase_ok_def files_ok_def)

lemma stage_c_wp:
  assumes r: "ready w i tx es" and v: "committed_at calm w i tx es g p v"
  shows "wp (run_stage_c i g) (apply_inv calm w i tx es) (\<lambda>r u. r = Inr () \<and> applied_at calm w i tx es g u) v"
proof -
  note rd = readyD [OF r]
  obtain d where d: "tx_diffSummary tx = Some d" using rd(9) by auto
  have f: "framed i w v" and st: "td_state (dir_of v i) = Some tx" "td_apply (dir_of v i) = Some p"
    "ap_phase p = Apply_committed" "ap_ghostSnapshotId p = g"
    using v by (simp_all add: committed_at_def)
  then have ab: "td_abort (dir_of v i) = td_abort (dir_of w i)" "td_diff (dir_of v i) = td_diff (dir_of w i)"
    by (simp_all add: framed_def)
  define v1 where "v1 = set_dir i (dir_of v i) v"
  have f1: "framed i w v1" unfolding v1_def by (rule framed_set_dir [OF f rd(2)]) (simp_all add: ab)
  have c1: "committed_at calm w i tx es g p v1" using v f1 by (simp add: committed_at_def v1_def)
  define s' where "s' = recorded i g tx (w_session v)"
  have s': "s' = recorded i g tx (w_session w)" using v by (auto simp: s'_def committed_at_def)
  define v2 where "v2 = v1\<lparr>w_session := s'\<rparr>"
  have e2: "w_root v2 = w_root v1" "dir_of v2 = dir_of v1" by (auto simp: v2_def intro!: dir_of_cong)
  have f2: "framed i w v2" by (rule framed_cong [OF f1 e2(1)])
  have c2: "committed_at calm w i tx es g p v2"
    using c1 f2 s' by (auto simp: committed_at_def e2) (simp_all add: v2_def)
  define v3 where "v3 = set_dir i (dir_of v2 i) v2"
  have f3: "framed i w v3" unfolding v3_def by (rule framed_set_dir [OF f2 rd(2)]) (simp_all add: ab e2 v1_def)
  have c3: "committed_at calm w i tx es g p v3" using c2 f3 by (simp add: committed_at_def v3_def)
  define q where "q = p\<lparr>ap_phase := Apply_finalized\<rparr>"
  define v4 where "v4 = set_dir i ((dir_of v3 i)\<lparr>td_apply := Some q\<rparr>) v3"
  have f4: "framed i w v4" unfolding v4_def by (rule framed_set_dir [OF f3 rd(2)]) (simp_all add: ab e2 v1_def v3_def)
  have i4: "apply_inv calm w i tx es v4"
    using c3 f4 s' by (auto simp: committed_at_def apply_inv_def phase_ok_def files_ok_def v4_def q_def v3_def v2_def)
  define v5 where "v5 = set_dir i ((dir_of v4 i)\<lparr>td_state := Some (tx\<lparr>tx_state := Applied, tx_ghostSnapshotId := Some g\<rparr>)\<rparr>) v4"
  have f5: "framed i w v5" unfolding v5_def
    by (rule framed_set_dir [OF f4 rd(2)]) (simp_all add: ab e2 v1_def v3_def v4_def)
  have a5: "applied_at calm w i tx es g v5"
    using c3 f5 s' st by (auto simp: committed_at_def applied_at_def v5_def v4_def q_def v3_def v2_def)
  have states: "td_state (dir_of v1 i) = Some tx" "td_apply (dir_of v1 i) = Some p" "w_session v1 = w_session v"
    "td_state (dir_of v3 i) = Some tx" "td_apply (dir_of v3 i) = Some p"
    by (simp_all add: v1_def v3_def e2 st)
  have i5: "apply_inv calm w i tx es v5" by (rule applied_inv [OF a5])
  have tx_part: "wp (stage_c_tx i g) (apply_inv calm w i tx es) (\<lambda>r u. r = Inr () \<and> applied_at calm w i tx es g u) v2"
    using committed_inv [OF c3] i4 a5 i5 rd states(4,5) st
    by (simp add: stage_c_tx_def wp_with_tx_lock v3_def [symmetric] wp_then_do wp_store wp_basic Let_def
        q_def [symmetric] v4_def [symmetric] v5_def [symmetric])
  have s'_eq: "clear_active i (if has_record (w_session v) (apply_record_id i) then w_session v
      else push_record (applied_record i g tx d) (w_session v)) = s'"
    by (simp add: s'_def recorded_def d)
  show ?thesis
    using committed_inv [OF c1] committed_inv [OF c2] tx_part rd states(1,2) st d
    by (simp add: run_stage_c_def wp_then_do wp_mutate_session stage_c_session_def stage_c_decision_def wp_with_tx_lock
        v1_def [symmetric] wp_store wp_basic s'_eq v2_def [symmetric] split del: if_split)
qed

section \<open>The whole protocol\<close>

lemma apply_tx_wp:
  assumes r: "ready w i tx es" and calm: "calm \<Longrightarrow> w_faults w = [] \<and> clean_paths es"
  shows "wp (apply_tx env i) (apply_inv calm w i tx es)
    (post (\<lambda>_ u. apply_inv calm w i tx es u)
      (\<lambda>(g, ps) u. applied_at calm w i tx es g u \<and> ps = map de_path es)) w"
proof -
  show ?thesis
    unfolding apply_tx_def
  proof (rule wp_bind [OF stage_a_wp [OF r]], goal_cases)
    case (3 a u)
    then obtain ghost p where a: "a = (plan_of env es, ghost)" and h: "handed_over calm w i tx es ghost p u" by auto
    show ?case
      unfolding a fst_conv
    proof (rule wp_bind [OF stage_b_wp [OF r _ h]], goal_cases)
      case (3 g v)
      then obtain p' where "g = ghost" and c: "committed_at calm w i tx es ghost p' v" by auto
      then have g: "g = ghost" by simp
      show ?case
        unfolding g wp_then_do
        by (rule wp_conseq [OF stage_c_wp [OF r c]]) (auto simp: wp_basic plan_of_def)
    qed (use calm in auto)
  qed (use calm in auto)
qed

end
