(* ===== verification/Tx_Sample.thy ===== *)
theory Tx_Sample
  imports Tx_Apply
begin

text \<open>Concrete transactions, worlds and surroundings for the witnesses of the transaction theories.\<close>

definition sample_diff :: "diff_entry list" where
  "sample_diff = [Diff_modify ''a.txt'' ''old'' ''new'', Diff_modify ''b.txt'' ''one'' ''two'']"

definition sample_tx :: "tx_state \<Rightarrow> transaction" where
  "sample_tx st =
     \<lparr>tx_id = ''tx_A'', tx_state = st, tx_workspaceId = ''ws'', tx_sessionId = ''s1'', tx_workspaceRealPath = ''/w'',
      tx_createdAt = ''t0'', tx_updatedAt = ''t0'', tx_diffSummary = Some (summarize_diff sample_diff),
      tx_validators = Some [\<lparr>vs_name = ''lint'', vs_severity = Blocking, vs_status = V_fail, vs_durationMs = 5\<rparr>],
      tx_blockingFailures = Some [''lint''], tx_overridesApplied = None, tx_ghostSnapshotId = None\<rparr>"

definition sample_progress :: "apply_phase \<Rightarrow> string list \<Rightarrow> apply_progress" where
  "sample_progress ph written =
     \<lparr>ap_phase = ph, ap_ghostSnapshotId = ''g'', ap_startedAt = ''t1'', ap_filesPlanned = [''a.txt'', ''b.txt''],
      ap_filesWritten = written, ap_error = None\<rparr>"

definition sample_files :: files where
  "sample_files = [''a.txt'' \<mapsto> ''old'', ''b.txt'' \<mapsto> ''one'']"

text \<open>One transaction in the given state, with the given progress of its application and records of the session.\<close>

definition sample_world :: "tx_state \<Rightarrow> apply_progress option \<Rightarrow> session_record list \<Rightarrow> world" where
  "sample_world st ap records =
     \<lparr>w_root = [(''tx_A'', \<lparr>td_state = Some (sample_tx st), td_apply = ap, td_abort = None, td_diff = Some sample_diff,
        td_overlay = [], td_effects = [], td_artifactErrors = [], td_recovery = None\<rparr>)],
      w_files = sample_files,
      w_session = \<lparr>ss_id = ''s1'', ss_records = records, ss_activeTxId = Some ''tx_A''\<rparr>,
      w_snapshots = [''g'' \<mapsto> sample_files], w_now = ''t2'', w_faults = [], w_events = []\<rparr>"

definition sample_env :: tx_env where
  "sample_env =
     \<lparr>en_sha = (\<lambda>s. s), en_index = (\<lambda>_. Index_same), en_snapshot = (\<lambda>_. Some ''g''),
      en_restore = (\<lambda>snap now. Some snap)\<rparr>"

text \<open>A record of the application, for a session in which the transaction was applied.\<close>

definition sample_applied :: session_record where
  "sample_applied = applied_record ''tx_A'' ''g'' (sample_tx Applied) (summarize_diff sample_diff)"

lemma sample_id: "is_valid_tx_id ''tx_A''"
  by code_simp

lemma sample_fields [simp]:
  "tx_id (sample_tx st) = ''tx_A''" "tx_state (sample_tx st) = st" "tx_sessionId (sample_tx st) = ''s1''"
  "tx_diffSummary (sample_tx st) = Some (summarize_diff sample_diff)" "tx_blockingFailures (sample_tx st) = Some [''lint'']"
  "ap_phase (sample_progress ph written) = ph" "ap_ghostSnapshotId (sample_progress ph written) = ''g''"
  "ap_filesWritten (sample_progress ph written) = written"
  by (simp_all add: sample_tx_def sample_progress_def)

lemma sample_world_fields [simp]:
  "w_root (sample_world st ap rs) = [(''tx_A'', \<lparr>td_state = Some (sample_tx st), td_apply = ap, td_abort = None,
     td_diff = Some sample_diff, td_overlay = [], td_effects = [], td_artifactErrors = [], td_recovery = None\<rparr>)]"
  "w_session (sample_world st ap rs) = \<lparr>ss_id = ''s1'', ss_records = rs, ss_activeTxId = Some ''tx_A''\<rparr>"
  "w_files (sample_world st ap rs) = sample_files" "w_snapshots (sample_world st ap rs) = [''g'' \<mapsto> sample_files]"
  "w_faults (sample_world st ap rs) = []"
  by (simp_all add: sample_world_def)

lemma sample_dir [simp]:
  "td_state (dir_of (sample_world st ap rs) ''tx_A'') = Some (sample_tx st)"
  "td_apply (dir_of (sample_world st ap rs) ''tx_A'') = ap" "td_abort (dir_of (sample_world st ap rs) ''tx_A'') = None"
  "td_diff (dir_of (sample_world st ap rs) ''tx_A'') = Some sample_diff"
  by (simp_all add: dir_of_def)

text \<open>Applying the sample leaves seventeen crash points behind it.\<close>

lemma sample_trace: "length (snd (snd (apply_tx sample_env ''tx_A'' (sample_world Approved None [])))) = 17"
  by code_simp

end
