(* ===== verification/Tx_Converge.thy ===== *)
theory Tx_Converge
  imports Tx_Crash Tx_Sample
begin

text \<open>
  Recovery after a crash of the apply protocol: the scan finds the transaction, one action settles it, and a
  crash during recovery is recovered from in the same way.
\<close>

section \<open>The scan\<close>

definition dir_tasks :: "string \<Rightarrow> tx_dir \<Rightarrow> recovery_task list" where
  "dir_tasks i d =
     (case td_state d of None \<Rightarrow> [] | Some tx \<Rightarrow> apply_tasks i tx (td_apply d) @ abort_tasks i tx (td_abort d))"

definition pending_tasks :: "world \<Rightarrow> recovery_task list" where
  "pending_tasks w =
     concat (map (\<lambda>i. if starts_with i tx_id_prefix then dir_tasks i (dir_of w i) else []) (map fst (w_root w)))"

definition names_valid :: "world \<Rightarrow> bool" where
  "names_valid w \<longleftrightarrow> (\<forall>i\<in>fst ` set (w_root w). starts_with i tx_id_prefix \<longrightarrow> is_valid_tx_id i)"

lemma scan_dir_eq: "is_valid_tx_id i \<Longrightarrow> scan_dir i w = (Inr (dir_tasks i (dir_of w i)), w, [])"
  by (simp add: scan_dir_def then_do_def read_tx_state_def read_apply_progress_def read_abort_progress_def read_dir_def
      checked_def throw_when_def ret_def observe_def dir_tasks_def split: option.splits)

lemma scan_names_eq:
  "\<forall>i\<in>set is. starts_with i tx_id_prefix \<longrightarrow> is_valid_tx_id i \<Longrightarrow>
   scan_names is w = (Inr (concat (map (\<lambda>i. if starts_with i tx_id_prefix then dir_tasks i (dir_of w i) else []) is)), w, [])"
  by (induction "is") (auto simp: then_do_def ret_def scan_dir_eq)

lemma scan_eq: "names_valid w \<Longrightarrow> scan_for_recovery w = (Inr (pending_tasks w), w, [])"
  unfolding scan_for_recovery_def names_valid_def
  by (simp add: then_do_def observe_def scan_names_eq pending_tasks_def)

lemma wp_scan: "names_valid w \<Longrightarrow> wp scan_for_recovery C Q w = Q (Inr (pending_tasks w)) w"
  by (simp add: wp_def scan_eq)

lemma dir_tasks_recovery [simp]: "dir_tasks i (d\<lparr>td_recovery := x\<rparr>) = dir_tasks i d"
  by (simp add: dir_tasks_def split: option.splits)

text \<open>No other transaction waits for recovery.\<close>

definition others_quiet :: "string \<Rightarrow> world \<Rightarrow> bool" where
  "others_quiet i w \<longleftrightarrow> distinct (map fst (w_root w)) \<and> names_valid w \<and>
     (\<forall>j\<in>fst ` set (w_root w). j \<noteq> i \<longrightarrow> dir_tasks j (dir_of w j) = [])"

lemma valid_has_prefix: "is_valid_tx_id i \<Longrightarrow> starts_with i tx_id_prefix"
  by (simp add: is_valid_tx_id_def)

lemma concat_single:
  assumes "distinct xs" and "i \<in> set xs" and "\<And>j. j \<in> set xs \<Longrightarrow> j \<noteq> i \<Longrightarrow> f j = []"
  shows "concat (map f xs) = f i"
  using assms
proof (induction xs)
  case (Cons x xs)
  show ?case
  proof (cases "x = i")
    case True
    then have "\<forall>j\<in>set xs. f j = []" using Cons.prems by auto
    then show ?thesis by (simp add: True concat_eq_Nil_conv)
  next
    case False
    then show ?thesis using Cons by simp
  qed
qed simp

lemma quiet_framed:
  assumes "others_quiet i w" and "framed i w v"
  shows "others_quiet i v"
  using assms unfolding others_quiet_def framed_def names_valid_def by (metis image_set)

lemma quiet_tasks:
  assumes q: "others_quiet i w" and "i \<in> fst ` set (w_root w)" and "is_valid_tx_id i"
  shows "pending_tasks w = dir_tasks i (dir_of w i)"
proof -
  have "pending_tasks w = (if starts_with i tx_id_prefix then dir_tasks i (dir_of w i) else [])"
    unfolding pending_tasks_def
    by (rule concat_single) (use assms in \<open>auto simp: others_quiet_def\<close>)
  then show ?thesis using valid_has_prefix [OF assms(3)] by simp
qed

section \<open>One action settles the transaction\<close>

lemma apply_inv_framed: "apply_inv calm w i tx es v \<Longrightarrow> framed i w v"
  by (simp add: apply_inv_def)

lemma apply_inv_dir_irrelevant:
  assumes "apply_inv calm w i tx es v" and "i \<in> fst ` set (w_root w)"
    and "d = (dir_of v i)\<lparr>td_recovery := x\<rparr>"
  shows "apply_inv calm w i tx es (set_dir i d v)"
proof -
  have f: "framed i w (set_dir i d v)"
    by (rule framed_set_dir [OF apply_inv_framed [OF assms(1)] assms(2)])
      (use assms(1) in \<open>simp_all add: assms(3) apply_inv_def framed_def\<close>)
  have "phase_ok w i tx ap (set_dir i d v) = phase_ok w i tx ap v" "files_ok es f0 ap (set_dir i d v) = files_ok es f0 ap v" for ap f0
    by (simp_all add: phase_ok_def files_ok_def assms(3) cong: option.case_cong apply_phase.case_cong)
  with f assms(1) show ?thesis by (simp add: apply_inv_def assms(3))
qed

definition settled :: "bool \<Rightarrow> world \<Rightarrow> string \<Rightarrow> transaction \<Rightarrow> diff_entry list \<Rightarrow> world \<Rightarrow> bool" where
  "settled calm w i tx es v \<longleftrightarrow> apply_inv calm w i tx es v \<and> dir_tasks i (dir_of v i) = []"

lemma apply_inv_step:
  assumes "ready w i tx es" and "apply_inv calm w i tx es v"
    and "d = (dir_of v i)\<lparr>td_state := st, td_apply := ap\<rparr>"
    and "phase_ok w i tx ap (set_dir i d v)" and "calm \<Longrightarrow> files_ok es (w_files w) ap v"
  shows "apply_inv calm w i tx es (set_dir i d v)"
proof -
  have "framed i w (set_dir i d v)"
    by (rule framed_set_dir [OF apply_inv_framed [OF assms(2)] readyD(2) [OF assms(1)]])
      (use assms(2) in \<open>simp_all add: assms(3) apply_inv_def framed_def\<close>)
  moreover have "files_ok es (w_files w) ap (set_dir i d v) = files_ok es (w_files w) ap v"
    by (rule files_ok_fields) simp_all
  ultimately show ?thesis using assms(4,5) by (simp add: apply_inv_def assms(3))
qed

lemma lock_inv:
  assumes "ready w i tx es" and "apply_inv calm w i tx es v"
  shows "apply_inv calm w i tx es (set_dir i (dir_of v i) v)"
proof (rule apply_inv_step [OF assms, where st = "td_state (dir_of v i)" and ap = "td_apply (dir_of v i)"])
  show "phase_ok w i tx (td_apply (dir_of v i)) (set_dir i (dir_of v i) v)"
    using assms(2) by (simp add: apply_inv_def phase_ok_def cong: option.case_cong apply_phase.case_cong)
qed (use assms(2) in \<open>simp_all add: apply_inv_def\<close>)

lemma settled_tasks:
  assumes r: "ready w i tx es" and v: "apply_inv calm w i tx es v" and t: "td_state (dir_of v i) = Some t"
  shows "dir_tasks i (dir_of v i) = apply_tasks i t (td_apply (dir_of v i))"
proof -
  have "td_abort (dir_of v i) = None" using apply_inv_framed [OF v] readyD(7) [OF r] by (simp add: framed_def)
  then show ?thesis by (simp add: dir_tasks_def t abort_tasks_def)
qed

definition settles :: "bool \<Rightarrow> world \<Rightarrow> string \<Rightarrow> transaction \<Rightarrow> diff_entry list \<Rightarrow> recovery_outcome \<Rightarrow> world \<Rightarrow> bool" where
  "settles calm w i tx es oc u \<longleftrightarrow> settled calm w i tx es u \<and> rc_action oc \<noteq> No_op \<and> rc_txId oc = i"

lemma recover_phase_wp:
  assumes r: "ready w i tx es" and v: "apply_inv calm w i tx es v"
    and t: "td_state (dir_of v i) = Some t" and p: "td_apply (dir_of v i) = Some p"
    and ph: "ap_phase p \<in> {Apply_pending, Apply_writing, Apply_finalized}"
  shows "wp (recover_phase i ts t p) (apply_inv calm w i tx es)
    (post (\<lambda>_ _. False) (settles calm w i tx es)) v"
proof -
  note rd = readyD [OF r]
  note step = apply_inv_step [OF r]
  have inv: "phase_ok w i tx (Some p) v" "calm \<Longrightarrow> files_ok es (w_files w) (Some p) v"
    using v by (auto simp: apply_inv_def p)
  have tid: "tx_id t = i" using inv(1) t ph rd(3) by (auto simp: phase_ok_def)
  show ?thesis
  proof (cases "ap_phase p")
    case Apply_pending
    define u where "u = set_dir i ((dir_of v i)\<lparr>td_apply := None\<rparr>) v"
    have st: "td_state (dir_of v i) = Some tx" "w_session v = w_session w" and tt: "t = tx"
      using inv(1) t by (simp_all add: phase_ok_def Apply_pending)
    have "apply_inv calm w i tx es u"
      unfolding u_def
      by (rule step [OF v, where st = "td_state (dir_of v i)" and ap = None])
        (use st inv(2) in \<open>auto simp: phase_ok_def files_ok_def Apply_pending\<close>)
    moreover have "dir_tasks i (dir_of u i) = []"
      using settled_tasks [OF r calculation, of tx] st by (simp add: u_def apply_tasks_def)
    ultimately show ?thesis
      using rd Apply_pending
      by (simp add: recover_phase_def wp_then_do wp_basic wp_store Let_def u_def [symmetric] settles_def settled_def outcome_def)
  next
    case Apply_writing
    let ?t = "tx\<lparr>tx_state := Applied_partial\<rparr>"
    have tt: "t\<lparr>tx_state := Applied_partial\<rparr> = ?t" and s: "w_session v = w_session w"
      using inv(1) t by (auto simp: phase_ok_def Apply_writing)
    define u1 where "u1 = set_dir i ((dir_of v i)\<lparr>td_state := Some ?t\<rparr>) v"
    define q where "q = p\<lparr>ap_phase := Apply_failed_partial, ap_error := Some (''recovery'', None)\<rparr>"
    define u2 where "u2 = set_dir i ((dir_of u1 i)\<lparr>td_apply := Some q\<rparr>) u1"
    have i1: "apply_inv calm w i tx es u1"
      unfolding u1_def
      by (rule step [OF v, where st = "Some ?t" and ap = "Some p"])
        (use s inv(2) p in \<open>simp_all add: phase_ok_def Apply_writing\<close>)
    have "calm \<Longrightarrow> files_ok es (w_files w) (Some q) v"
      using inv(2) by (auto simp: files_ok_def q_def Apply_writing)
    then have fo: "calm \<Longrightarrow> files_ok es (w_files w) (Some q) u1"
      using files_ok_fields [of u1 v es "w_files w" "Some q"] by (simp add: u1_def)
    have i2: "apply_inv calm w i tx es u2"
      unfolding u2_def
      by (rule step [OF i1, where st = "Some ?t" and ap = "Some q"]) (use s fo in \<open>simp_all add: phase_ok_def q_def u1_def\<close>)
    have "dir_tasks i (dir_of u2 i) = []"
      using settled_tasks [OF r i2, of ?t] by (simp add: u2_def u1_def apply_tasks_def q_def)
    moreover from this have "dir_tasks i ((dir_of u1 i)\<lparr>td_apply := Some q\<rparr>) = []" by (simp add: u2_def)
    ultimately show ?thesis
      using rd Apply_writing i1 i2 tid
      by (simp add: recover_phase_def wp_then_do wp_basic wp_store Let_def tt u1_def [symmetric] q_def [symmetric]
          u2_def [symmetric] settles_def settled_def outcome_def)
  next
    case Apply_finalized
    let ?g = "ap_ghostSnapshotId p"
    let ?t = "tx\<lparr>tx_state := Applied, tx_ghostSnapshotId := Some ?g\<rparr>"
    have s: "w_session v = recorded i ?g tx (w_session w)" and tt: "t = tx \<or> t = ?t"
      using inv(1) t by (auto simp: phase_ok_def Apply_finalized)
    show ?thesis
    proof (cases "t = ?t")
      case True
      then have "dir_tasks i (dir_of v i) = []"
        using settled_tasks [OF r v t] by (simp add: p apply_tasks_def Apply_finalized)
      then show ?thesis
        using v Apply_finalized True
        by (simp add: recover_phase_def wp_then_do wp_basic settles_def settled_def outcome_def)
    next
      case False
      then have tx: "t = tx" using tt by simp
      define u where "u = set_dir i ((dir_of v i)\<lparr>td_state := Some ?t\<rparr>) v"
      have iu: "apply_inv calm w i tx es u"
        unfolding u_def
        by (rule step [OF v, where st = "Some ?t" and ap = "Some p"])
          (use s inv(2) p in \<open>simp_all add: phase_ok_def Apply_finalized\<close>)
      have "dir_tasks i (dir_of u i) = []"
        using settled_tasks [OF r iu, of ?t] by (simp add: u_def p apply_tasks_def Apply_finalized)
      then show ?thesis
        using rd Apply_finalized iu tx
        by (simp add: recover_phase_def wp_then_do wp_basic wp_store Let_def u_def [symmetric] settles_def settled_def outcome_def)
    qed
  qed (use ph in simp_all)
qed

lemma recover_apply_wp:
  assumes r: "ready w i tx es" and v: "apply_inv calm w i tx es v"
    and t: "td_state (dir_of v i) = Some t" and p: "td_apply (dir_of v i) = Some p"
    and ph: "ap_phase p \<noteq> Apply_failed_partial"
  shows "wp (recover_apply i p) (apply_inv calm w i tx es)
    (post (\<lambda>_ _. False) (settles calm w i tx es)) v"
proof (cases "ap_phase p = Apply_committed")
  case True
  note rd = readyD [OF r]
  have c: "committed_at calm w i tx es (ap_ghostSnapshotId p) p v"
    using v True by (auto simp: apply_inv_def phase_ok_def files_ok_def committed_at_def p)
  have fin: "settled calm w i tx es u" if u: "applied_at calm w i tx es (ap_ghostSnapshotId p) u" for u
  proof -
    obtain q where "td_apply (dir_of u i) = Some q" "ap_phase q = Apply_finalized"
      and st: "td_state (dir_of u i) = Some (tx\<lparr>tx_state := Applied, tx_ghostSnapshotId := Some (ap_ghostSnapshotId p)\<rparr>)"
      using u by (auto simp: applied_at_def)
    then show ?thesis
      using applied_inv [OF u] settled_tasks [OF r applied_inv [OF u] st] by (simp add: settled_def apply_tasks_def)
  qed
  have "wp (then_do (run_stage_c i (ap_ghostSnapshotId p)) (\<lambda>_. ret (outcome i Apply_committed_stage_c None (w_now v))))
     (apply_inv calm w i tx es) (post (\<lambda>_ _. False) (settles calm w i tx es)) v"
    unfolding wp_then_do
    by (rule wp_conseq [OF stage_c_wp [OF r c]]) (auto simp: wp_basic settles_def fin outcome_def)
  then show ?thesis
    using True rd p by (simp add: recover_apply_def wp_then_do [of "observe f" for f]
        wp_then_do [of "read_apply_progress i"] wp_basic wp_store)
next
  case False
  have ph': "ap_phase p \<in> {Apply_pending, Apply_writing, Apply_finalized}"
    using ph False by (cases "ap_phase p") simp_all
  define v1 where "v1 = set_dir i (dir_of v i) v"
  have i1: "apply_inv calm w i tx es v1" unfolding v1_def by (rule lock_inv [OF r v])
  have "wp (recover_phase i (w_now v) t p) (apply_inv calm w i tx es)
      (post (\<lambda>_ _. False) (settles calm w i tx es)) v1"
    by (rule recover_phase_wp [OF r i1 _ _ ph']) (simp_all add: v1_def t p)
  then show ?thesis
    using False readyD(1) [OF r] i1
    by (simp add: recover_apply_def wp_then_do wp_basic wp_with_tx_lock v1_def [symmetric] wp_store)
      (simp add: v1_def t p)
qed

section \<open>Recovery at the start of a command\<close>

lemma session_of_inv:
  assumes "ready w i tx es" and "apply_inv calm w i tx es v" and "td_state (dir_of v i) = Some t"
  shows "ss_id (w_session v) = ss_id (w_session w)" "tx_sessionId t = tx_sessionId tx"
  using assms(2,3) by (auto simp: apply_inv_def phase_ok_def split: option.splits apply_phase.splits)

lemma state_of_inv: "apply_inv calm w i tx es v \<Longrightarrow> \<exists>t. td_state (dir_of v i) = Some t"
  by (auto simp: apply_inv_def phase_ok_def split: option.splits apply_phase.splits)

lemma recover_task_wp:
  assumes r: "ready w i tx es" and v: "apply_inv calm w i tx es v"
    and t: "td_state (dir_of v i) = Some t" and p: "td_apply (dir_of v i) = Some p"
    and ph: "ap_phase p \<noteq> Apply_failed_partial"
  shows "wp (recover_task (Task_apply i t p)) (apply_inv calm w i tx es)
    (post (\<lambda>_ _. False) (\<lambda>_. settled calm w i tx es)) v"
  unfolding recover_task_def perform_def recovery_task.case
proof (rule wp_bind [OF recover_apply_wp [OF r v t p ph]], goal_cases)
  case (2 oc u)
  define z where "z = set_dir i ((dir_of u i)\<lparr>td_recovery := Some oc\<rparr>) u"
  have "apply_inv calm w i tx es z"
    unfolding z_def by (rule apply_inv_dir_irrelevant [OF _ readyD(2) [OF r]]) (use 2 in \<open>auto simp: settles_def settled_def\<close>)
  moreover have "dir_tasks i (dir_of z i) = []"
    using 2 by (simp add: z_def settles_def settled_def)
  ultimately show ?case
    using 2 readyD(1) [OF r]
    by (simp add: settles_def settled_def wp_then_do wp_basic write_recovery_record_def wp_write_dir z_def [symmetric])
qed simp

lemma recover_at_start_wp:
  assumes r: "ready w i tx es" and v: "apply_inv calm w i tx es v"
    and own: "tx_sessionId tx = ss_id (w_session w)" and quiet: "others_quiet i w"
  shows "wp recover_at_start (apply_inv calm w i tx es) (post (\<lambda>_ _. False) (\<lambda>_. settled calm w i tx es)) v"
proof -
  obtain t where t: "td_state (dir_of v i) = Some t" using state_of_inv [OF v] by blast
  have q: "others_quiet i v" by (rule quiet_framed [OF quiet apply_inv_framed [OF v]])
  have tasks: "pending_tasks v = apply_tasks i t (td_apply (dir_of v i))"
    using quiet_tasks [OF q framed_keys [OF apply_inv_framed [OF v] readyD(2) [OF r]] readyD(1) [OF r]]
      settled_tasks [OF r v t] by simp
  have sess: "tx_sessionId t = ss_id (w_session v)" using session_of_inv [OF r v t] own by simp
  have names: "names_valid v" using q by (simp add: others_quiet_def)
  show ?thesis
  proof (cases "apply_tasks i t (td_apply (dir_of v i)) = []")
    case True
    then show ?thesis
      using v settled_tasks [OF r v t] names
      by (simp add: recover_at_start_def wp_then_do wp_scan tasks wp_basic settled_def)
  next
    case False
    then obtain p where p: "td_apply (dir_of v i) = Some p" and ph: "ap_phase p \<noteq> Apply_failed_partial"
      and one: "apply_tasks i t (td_apply (dir_of v i)) = [Task_apply i t p]"
      by (auto simp: apply_tasks_def split: option.splits if_splits)
    have "wp (then_do (recover_task (Task_apply i t p)) (\<lambda>oc.
        then_do (recover_own_tasks (ss_id (w_session v)) []) (\<lambda>r. ret (oc # fst r, snd r)))) (apply_inv calm w i tx es)
       (post (\<lambda>_ _. False) (\<lambda>_. settled calm w i tx es)) v"
      by (rule wp_bind [OF recover_task_wp [OF r v t p ph]]) (simp_all add: wp_then_do wp_basic)
    then show ?thesis
      using names sess
      by (simp add: recover_at_start_def wp_then_do [of scan_for_recovery] wp_then_do [of "observe f" for f] wp_scan
          tasks one wp_basic)
  qed
qed

section \<open>Any number of crashes\<close>

text \<open>The worlds left behind when applying \<open>i\<close> is interrupted, and recovery is, any number of times.\<close>

inductive left_behind :: "tx_env \<Rightarrow> string \<Rightarrow> world \<Rightarrow> world \<Rightarrow> bool" for env i w where
  applying: "v \<in> crash_points (apply_tx env i) w \<Longrightarrow> left_behind env i w v"
| recovering: "left_behind env i w u \<Longrightarrow> v \<in> crash_points recover_at_start u \<Longrightarrow> left_behind env i w v"

lemma left_behind_inv:
  assumes r: "ready w i tx es" and own: "tx_sessionId tx = ss_id (w_session w)" and quiet: "others_quiet i w"
    and calm: "calm \<Longrightarrow> w_faults w = [] \<and> clean_paths es"
    and v: "left_behind env i w v"
  shows "apply_inv calm w i tx es v"
  using v
proof induction
  case (applying v)
  have "apply_inv calm w i tx es w"
    using readyD [OF r] calm by (auto simp: apply_inv_def phase_ok_def files_ok_def)
  from wp_crash [OF apply_tx_wp [OF r calm] this applying] show ?case by simp
next
  case (recovering u v)
  from wp_crash [OF recover_at_start_wp [OF r recovering.IH own quiet] recovering.IH recovering.hyps(2)] show ?case .
qed

lemma recovered_settled:
  assumes "ready w i tx es" and "tx_sessionId tx = ss_id (w_session w)" and "others_quiet i w"
    and "calm \<Longrightarrow> w_faults w = [] \<and> clean_paths es" and "left_behind env i w v"
  shows "is_ok (result_of recover_at_start v) \<and> settled calm w i tx es (world_after recover_at_start v)"
  using wp_result [OF recover_at_start_wp [OF assms(1) left_behind_inv [OF assms] assms(2,3)]]
  by (cases "result_of recover_at_start v") auto

lemma settled_cases:
  assumes r: "ready w i tx es" and s: "settled calm w i tx es u"
  shows "(td_state (dir_of u i) = Some tx \<and> td_apply (dir_of u i) = None \<and> w_session u = w_session w) \<or>
    (\<exists>p. td_state (dir_of u i) = Some (tx\<lparr>tx_state := Applied_partial\<rparr>) \<and> td_apply (dir_of u i) = Some p \<and>
       ap_phase p = Apply_failed_partial \<and> w_session u = w_session w) \<or>
    (\<exists>g. applied_at calm w i tx es g u)"
proof (cases "td_apply (dir_of u i)")
  case None
  then show ?thesis using s by (auto simp: settled_def apply_inv_def phase_ok_def)
next
  case (Some p)
  obtain t where t: "td_state (dir_of u i) = Some t" using state_of_inv [of calm w i tx es u] s by (auto simp: settled_def)
  with Some s have "apply_tasks i t (Some p) = []" by (simp add: settled_def dir_tasks_def)
  then have ph: "ap_phase p = Apply_failed_partial \<or> (ap_phase p = Apply_finalized \<and> tx_state t = Applied)"
    by (cases "ap_phase p") (auto simp: apply_tasks_def split: if_splits)
  have inv: "framed i w u" "phase_ok w i tx (Some p) u" "calm \<longrightarrow> files_ok es (w_files w) (Some p) u"
    using s by (simp_all add: settled_def apply_inv_def Some)
  from ph show ?thesis
  proof
    assume "ap_phase p = Apply_failed_partial"
    with inv Some show ?thesis by (auto simp: phase_ok_def)
  next
    assume fin: "ap_phase p = Apply_finalized \<and> tx_state t = Applied"
    then have "t = tx\<lparr>tx_state := Applied, tx_ghostSnapshotId := Some (ap_ghostSnapshotId p)\<rparr>"
      using inv(2) t readyD(4) [OF r] by (auto simp: phase_ok_def)
    then have "applied_at calm w i tx es (ap_ghostSnapshotId p) u"
      using inv Some t fin by (auto simp: phase_ok_def files_ok_def applied_at_def)
    then show ?thesis by blast
  qed
qed

lemma settled_quiet:
  assumes r: "ready w i tx es" and s: "settled calm w i tx es u" and quiet: "others_quiet i w"
  shows "pending_tasks u = []"
proof -
  have f: "framed i w u" using s by (auto simp: settled_def intro: apply_inv_framed)
  show ?thesis
    using quiet_tasks [OF quiet_framed [OF quiet f] framed_keys [OF f readyD(2) [OF r]] readyD(1) [OF r]] s
    by (simp add: settled_def)
qed

section \<open>Crash safety of the apply protocol\<close>

text \<open>C10. Whatever interrupts the application of an approved transaction, and however often recovery is interrupted as
  well, whether other programs change the files or the disk fails meanwhile: the next recovery succeeds and leaves
  nothing to recover, and the transaction is approved again with no trace, or partially applied and marked so, or
  applied with its record in the session and the session released.\<close>

theorem interrupted_apply_converges:
  assumes "ready w i tx es" and "tx_sessionId tx = ss_id (w_session w)" and "others_quiet i w"
    and "left_behind env i w v" and "u = world_after recover_at_start v"
  shows "is_ok (result_of recover_at_start v) \<and> result_of scan_for_recovery u = Inr [] \<and>
    ((td_state (dir_of u i) = Some tx \<and> td_apply (dir_of u i) = None \<and> w_session u = w_session w) \<or>
     (\<exists>p. td_state (dir_of u i) = Some (tx\<lparr>tx_state := Applied_partial\<rparr>) \<and> td_apply (dir_of u i) = Some p \<and>
        ap_phase p = Apply_failed_partial \<and> w_session u = w_session w) \<or>
     (\<exists>g. td_state (dir_of u i) = Some (tx\<lparr>tx_state := Applied, tx_ghostSnapshotId := Some g\<rparr>) \<and>
        map_option ap_phase (td_apply (dir_of u i)) = Some Apply_finalized \<and>
        has_record (w_session u) (apply_record_id i) \<and> ss_activeTxId (w_session u) \<noteq> Some i))"
proof -
  have ok: "is_ok (result_of recover_at_start v)" "settled False w i tx es u"
    using recovered_settled [OF assms(1-3) _ assms(4), of False] assms(5) by auto
  have f: "framed i w u" using ok(2) by (auto simp: settled_def intro: apply_inv_framed)
  have "names_valid u" using quiet_framed [OF assms(3) f] by (simp add: others_quiet_def)
  then have scan: "result_of scan_for_recovery u = Inr []"
    using settled_quiet [OF assms(1) ok(2) assms(3)] by (simp add: result_of_def scan_eq)
  have app: "td_state (dir_of u i) = Some (tx\<lparr>tx_state := Applied, tx_ghostSnapshotId := Some g\<rparr>) \<and>
        map_option ap_phase (td_apply (dir_of u i)) = Some Apply_finalized \<and>
        has_record (w_session u) (apply_record_id i) \<and> ss_activeTxId (w_session u) \<noteq> Some i"
    if "applied_at False w i tx es g u" for g
    using that recorded_has by (auto simp: applied_at_def)
  show ?thesis
    using settled_cases [OF assms(1) ok(2)] ok(1) scan app by blast
qed


section \<open>A crash in the middle of an application\<close>

definition sample_crash :: world where
  "sample_crash = snd (snd (apply_tx sample_env ''tx_A'' (sample_world Approved None []))) ! 9"

lemma sample_left_behind: "left_behind sample_env ''tx_A'' (sample_world Approved None []) sample_crash"
  by (rule applying) (simp add: crash_points_def sample_crash_def sample_trace)

lemma sample_ready: "ready (sample_world Approved None []) ''tx_A'' (sample_tx Approved) sample_diff"
  by (simp add: ready_def sample_id)

lemma sample_quiet: "others_quiet ''tx_A'' (sample_world st ap rs)"
  by (simp add: others_quiet_def names_valid_def sample_id)

lemma sample_clean: "clean_paths sample_diff"
  by (simp add: clean_paths_def sample_diff_def tmp_path_def)

theorem interrupted_apply_converges_witness:
  "is_ok (result_of recover_at_start sample_crash) \<and>
   result_of scan_for_recovery (world_after recover_at_start sample_crash) = Inr []"
  using interrupted_apply_converges [OF sample_ready _ sample_quiet sample_left_behind refl] by simp


end
