(* ===== verification/Tx_Rollback.thy ===== *)
theory Tx_Rollback
  imports Tx_Converge
begin

text \<open>
  What abort guarantees: it never touches an application under way, and it restores a half-applied workspace.
  What it does not: an applied transaction can be aborted, after which recovery never comes to rest.
\<close>

section \<open>Abort and application exclude each other\<close>

lemma abort_tx_in_flight:
  assumes "is_valid_tx_id i" and "td_apply (dir_of w i) = Some p" and "ap_phase p \<in> set in_flight_phases"
  shows "abort_tx env q i w = (Inl (Abort_rejected (Apply_in_flight (ap_phase p))), w, [])"
  using assms
  by (auto simp: abort_tx_def decide_abort_def then_do_def read_apply_progress_def read_dir_def checked_def throw_when_def
      ret_def observe_def reject_in_flight_def in_flight_phases_def throw_def)

text \<open>C16. An abort that meets an application in flight is rejected before it reads or writes anything else: whatever
  its flags and reason, the world is left as it is and no crash point lies on the way.\<close>

theorem in_flight_application_cannot_be_aborted:
  assumes "is_valid_tx_id i" and "td_apply (dir_of w i) = Some p"
    and "ap_phase p \<in> {Apply_pending, Apply_writing, Apply_committed}"
  shows "abort_tx env q i w = (Inl (Abort_rejected (Apply_in_flight (ap_phase p))), w, [])"
  by (rule abort_tx_in_flight) (use assms in \<open>simp_all add: in_flight_phases_def\<close>)

section \<open>Rolling back a partial application\<close>

definition abort_request_of :: "bool \<Rightarrow> bool \<Rightarrow> string option \<Rightarrow> abort_request" where
  "abort_request_of restore keep note =
     \<lparr>aq_restoreConfirmed = restore, aq_keepPartial = keep, aq_reason = None, aq_note = note\<rparr>"

definition aborted_session :: "string \<Rightarrow> abort_decision \<Rightarrow> string option \<Rightarrow> transaction \<Rightarrow> session \<Rightarrow> session" where
  "aborted_session i d note t s =
     clear_active i (if has_record s (abort_record_id i) then s else push_record (aborted_record i d note (Some t)) s)"

lemma aborted_session_has:
  "has_record (aborted_session i d note t s) (abort_record_id i)" "ss_activeTxId (aborted_session i d note t s) \<noteq> Some i"
  by (auto simp: aborted_session_def clear_active_def push_record_def has_record_def aborted_record_def Let_def)

text \<open>The last world of an abort that writes.\<close>

definition aborted_at :: "string \<Rightarrow> abort_decision \<Rightarrow> string option \<Rightarrow> transaction \<Rightarrow> world \<Rightarrow> world \<Rightarrow> bool" where
  "aborted_at i d note t w u \<longleftrightarrow>
     td_state (dir_of u i) = Some (t\<lparr>tx_state := Aborted\<rparr>) \<and> td_apply (dir_of u i) = td_apply (dir_of w i) \<and>
     map_option ab_phase (td_abort (dir_of u i)) = Some Abort_done \<and>
     w_session u = aborted_session i d note t (w_session w) \<and> w_files u = w_files w \<and>
     map fst (w_root u) = map fst (w_root w) \<and> (\<forall>j. j \<noteq> i \<longrightarrow> dir_of u j = dir_of w j)"

lemma wp_trivial_crash: "wp m C Q w \<Longrightarrow> wp m (\<lambda>_. True) Q w"
  by (erule wp_conseq) simp_all

lemma dir_of_session [simp]: "dir_of (w\<lparr>w_session := s\<rparr>) = dir_of w"
  by (rule dir_of_cong) simp

lemma set_dir_session [simp]: "w_root (w\<lparr>w_session := s\<rparr>) = w_root w" "w_files (w\<lparr>w_session := s\<rparr>) = w_files w"
  by simp_all

lemma write_phase_wp:
  assumes i: "is_valid_tx_id i" "i \<in> fst ` set (w_root w)" and t: "td_state (dir_of w i) = Some t" "tx_id t = i"
    and st: "tx_state t \<noteq> Aborted" and g: "partial_reason (ad_reason d) \<Longrightarrow> \<not> ghost_missing (ad_ghostSnapshotId d)"
    and no: "\<not> has_record (w_session w) (abort_record_id i)" and ab: "td_abort (dir_of w i) = None"
  shows "wp (run_abort_write_phase i note d) (\<lambda>_. True) (\<lambda>r u. r = Inr () \<and> aborted_at i d note t w u) w"
proof -
  have s: "clear_active i (push_record (aborted_record i d note (Some t)) (w_session w)) = aborted_session i d note t (w_session w)"
    using no by (simp add: aborted_session_def)
  show ?thesis
    using i t st g no ab
    by (cases "partial_reason (ad_reason d)")
      (simp_all add: run_abort_write_phase_def wp_then_do wp_basic wp_store wp_mutate_session abort_session_phase_def
        mark_aborting_def wp_with_tx_lock abort_tx_phase_def Let_def s aborted_at_def)
qed

lemma decide_wp:
  assumes "is_valid_tx_id i" and "td_state (dir_of w i) = Some t" and "td_abort (dir_of w i) = None"
    and "\<And>p. td_apply (dir_of w i) = Some p \<Longrightarrow> ap_phase p \<notin> set in_flight_phases"
    and "tx_state t \<noteq> Applied_partial \<Longrightarrow> \<not> aq_restoreConfirmed q \<and> \<not> aq_keepPartial q"
    and "tx_state t = Applied_partial \<Longrightarrow> aq_restoreConfirmed q \<noteq> aq_keepPartial q"
    and "d = (if tx_state t = Applied_partial
       then \<lparr>ad_reason = (if aq_restoreConfirmed q then Partial_restored else Partial_kept),
             ad_restoreConfirmed = aq_restoreConfirmed q,
             ad_partialFiles = Some (case td_apply (dir_of w i) of None \<Rightarrow> [] | Some p \<Rightarrow> ap_filesWritten p),
             ad_ghostSnapshotId = (case td_apply (dir_of w i) of None \<Rightarrow> tx_ghostSnapshotId t | Some p \<Rightarrow> Some (ap_ghostSnapshotId p))\<rparr>
       else \<lparr>ad_reason = (case aq_reason q of None \<Rightarrow> User_abort | Some r \<Rightarrow> r), ad_restoreConfirmed = False,
             ad_partialFiles = None, ad_ghostSnapshotId = None\<rparr>)"
  shows "wp (decide_abort q i) (\<lambda>_. True) (\<lambda>r u. r = Inr (Some d) \<and> u = set_dir i (dir_of w i) w) w"
proof -
  have fl: "wp (reject_in_flight (td_apply (dir_of w i))) C Q u = Q (Inr ()) u" for C Q u
    using assms(4) by (cases "td_apply (dir_of w i)") (simp_all add: reject_in_flight_def wp_basic)
  have c: "\<not> abort_converged i (Some t) None (w_session w)" by (simp add: abort_converged_def)
  show ?thesis
    using assms(1-3,5-7) fl c
    by (cases "tx_state t = Applied_partial")
      (auto simp: decide_abort_def wp_then_do wp_basic wp_store wp_with_tx_lock check_ab0a_def exclusive_flags_def
        check_flags_def resolve_reason_def)
qed

lemma coord_abort_wp:
  assumes "wp (abort_tx env \<lparr>aq_restoreConfirmed = rc, aq_keepPartial = kp, aq_reason = None, aq_note = note\<rparr> i) C
     (\<lambda>r u. r = Inr x \<and> P u) w"
  shows "wp (coord_abort env i rc kp note) C (\<lambda>r u. r = Inr (Inr x) \<and> P u) w"
  unfolding coord_abort_def wp_catching wp_then_do
  by (rule wp_conseq [OF assms]) (auto simp: wp_basic)


section \<open>Aborting what was applied\<close>

text \<open>The ordinary abort of a transaction that is not partially applied.\<close>

lemma plain_abort_wp:
  assumes "is_valid_tx_id i" "i \<in> fst ` set (w_root w)"
    and "td_state (dir_of w i) = Some t" "tx_id t = i" "tx_state t \<notin> {Applied_partial, Aborted}"
    and "\<And>p. td_apply (dir_of w i) = Some p \<Longrightarrow> ap_phase p \<notin> set in_flight_phases"
    and "td_abort (dir_of w i) = None" "\<not> has_record (w_session w) (abort_record_id i)"
  shows "\<exists>d. ad_reason d = User_abort \<and> wp (coord_abort env i False False note) (\<lambda>_. True)
    (\<lambda>r u. r = Inr (Inr (Some User_abort)) \<and> aborted_at i d note t w u) w"
proof -
  define d where "d = \<lparr>ad_reason = User_abort, ad_restoreConfirmed = False, ad_partialFiles = None, ad_ghostSnapshotId = None\<rparr>"
  define q where "q = \<lparr>aq_restoreConfirmed = False, aq_keepPartial = False, aq_reason = None, aq_note = note\<rparr>"
  define w1 where "w1 = set_dir i (dir_of w i) w"
  have dec: "wp (decide_abort q i) (\<lambda>_. True) (\<lambda>r u. r = Inr (Some d) \<and> u = w1) w"
    unfolding w1_def by (rule decide_wp) (use assms in \<open>auto simp: q_def d_def\<close>)
  have wr: "wp (run_abort_write_phase i note d) (\<lambda>_. True) (\<lambda>r u. r = Inr () \<and> aborted_at i d note t w1 u) w1"
    by (rule write_phase_wp) (use assms in \<open>simp_all add: d_def w1_def partial_reason_def\<close>)
  have eq: "aborted_at i d note t w1 u = aborted_at i d note t w u" for u
    using assms(2) by (simp add: aborted_at_def w1_def)
  have "wp (abort_tx env q i) (\<lambda>_. True) (\<lambda>r u. r = Inr (Some User_abort) \<and> aborted_at i d note t w u) w"
    unfolding abort_tx_def wp_then_do
  proof (rule wp_conseq [OF dec], goal_cases)
    case (1 r u)
    have "wp (run_abort_write_phase i note d) (\<lambda>_. True)
       (follow (\<lambda>r u. r = Inr (Some User_abort) \<and> aborted_at i d note t w u)
         (\<lambda>_. wp (ret (Some User_abort)) (\<lambda>_. True) (\<lambda>r u. r = Inr (Some User_abort) \<and> aborted_at i d note t w u))) w1"
      by (rule wp_conseq [OF wr]) (auto simp: wp_basic eq)
    with 1 show ?case by (simp add: wp_then_do wp_basic d_def q_def)
  qed simp
  from coord_abort_wp [OF this [unfolded q_def]] show ?thesis
    by (intro exI [of _ d]) (simp add: d_def)
qed

text \<open>A transaction that was applied and then aborted.\<close>

definition both_finished :: "string \<Rightarrow> tx_state \<Rightarrow> world \<Rightarrow> bool" where
  "both_finished i st w \<longleftrightarrow>
     is_valid_tx_id i \<and> i \<in> fst ` set (w_root w) \<and> others_quiet i w \<and>
     (\<exists>t p b. td_state (dir_of w i) = Some t \<and> tx_id t = i \<and> tx_state t = st \<and> tx_sessionId t = ss_id (w_session w) \<and>
        td_apply (dir_of w i) = Some p \<and> ap_phase p = Apply_finalized \<and>
        td_abort (dir_of w i) = Some b \<and> ab_phase b = Abort_done)"

lemma quiet_set_dir:
  assumes "others_quiet i w" and "i \<in> fst ` set (w_root w)"
  shows "others_quiet i (set_dir i d w)"
  using assms by (auto simp: others_quiet_def names_valid_def)

lemma finished_flips:
  assumes w: "both_finished i st w" and st: "st = Applied \<or> st = Aborted"
  shows "wp recover_at_start (\<lambda>_. True)
    (\<lambda>r u. is_ok r \<and> both_finished i (if st = Applied then Aborted else Applied) u) w"
proof -
  from w obtain t p b where i: "is_valid_tx_id i" "i \<in> fst ` set (w_root w)" and q: "others_quiet i w"
    and t: "td_state (dir_of w i) = Some t" "tx_id t = i" "tx_state t = st" "tx_sessionId t = ss_id (w_session w)"
    and p: "td_apply (dir_of w i) = Some p" "ap_phase p = Apply_finalized"
    and b: "td_abort (dir_of w i) = Some b" "ab_phase b = Abort_done"
    by (auto simp: both_finished_def)
  have names: "names_valid w" using q by (simp add: others_quiet_def)
  have tasks: "pending_tasks w = (if st = Applied then [Task_abort i t Finalize_aborted b] else [Task_apply i t p])"
    using quiet_tasks [OF q i(2,1)] st by (auto simp: dir_tasks_def t p b apply_tasks_def abort_tasks_def)
  from st show ?thesis
  proof
    assume "st = Applied"
    with names tasks i t p b q show ?thesis
      by (simp add: recover_at_start_def recover_task_def perform_def recover_abort_def wp_then_do wp_scan wp_basic
          wp_with_tx_lock wp_store write_recovery_record_def wp_write_dir outcome_def Let_def both_finished_def quiet_set_dir)
  next
    assume "st = Aborted"
    with names tasks i t p b q show ?thesis
      by (simp add: recover_at_start_def recover_task_def perform_def recover_apply_def recover_phase_def wp_then_do wp_scan
          wp_basic wp_with_tx_lock wp_store write_recovery_record_def wp_write_dir outcome_def Let_def both_finished_def
          quiet_set_dir)
  qed
qed

text \<open>C36. An applied transaction can be aborted: the protocol answers that it was, although no file is put back, and
  the session then holds both a record that the transaction was applied and one that it was aborted.  From then on
  recovery never comes to rest: every start of a command turns the transaction from aborted to applied or back.\<close>

theorem aborting_an_applied_transaction_never_settles:
  assumes valid: "is_valid_tx_id i" "i \<in> fst ` set (w_root w)" and quiet: "others_quiet i w"
    and tx: "td_state (dir_of w i) = Some t" "tx_id t = i" "tx_state t = Applied" "tx_sessionId t = ss_id (w_session w)"
    and p: "td_apply (dir_of w i) = Some p" "ap_phase p = Apply_finalized"
    and fresh: "td_abort (dir_of w i) = None" "\<not> has_record (w_session w) (abort_record_id i)"
    and applied: "has_record (w_session w) (apply_record_id i)"
    and u: "u = world_after (coord_abort env i False False note) w"
  shows "result_of (coord_abort env i False False note) w = Inr (Inr (Some User_abort)) \<and> w_files u = w_files w \<and>
    has_record (w_session u) (apply_record_id i) \<and> has_record (w_session u) (abort_record_id i) \<and>
    (\<forall>n. map_option tx_state (td_state (dir_of ((world_after recover_at_start ^^ n) u) i))
       = Some (if even n then Aborted else Applied))"
proof -
  obtain d where "ad_reason d = User_abort" and
    "wp (coord_abort env i False False note) (\<lambda>_. True)
      (\<lambda>r u. r = Inr (Inr (Some User_abort)) \<and> aborted_at i d note t w u) w"
    using plain_abort_wp [OF valid tx(1,2) _ _ fresh, of env "note"] tx(3) p by (auto simp: in_flight_phases_def)
  from wp_result [OF this(2)] have res: "result_of (coord_abort env i False False note) w = Inr (Inr (Some User_abort))"
    and fin: "aborted_at i d note t w u" by (auto simp: u)
  have ss: "w_session u = aborted_session i d note t (w_session w)" "w_files u = w_files w" using fin by (simp_all add: aborted_at_def)
  have rec: "has_record (w_session u) (apply_record_id i)" "has_record (w_session u) (abort_record_id i)"
    using applied aborted_session_has
    by (auto simp: ss aborted_session_def clear_active_def push_record_def has_record_def)
  have id: "ss_id (w_session u) = ss_id (w_session w)"
    by (simp add: ss aborted_session_def clear_active_def push_record_def)
  have "others_quiet i u"
    using quiet fin unfolding others_quiet_def names_valid_def aborted_at_def by (metis image_set)
  moreover have "i \<in> fst ` set (w_root u)" using fin valid(2) unfolding aborted_at_def by (metis image_set)
  ultimately have b: "both_finished i Aborted u"
    using fin valid tx p id by (auto simp: both_finished_def aborted_at_def)
  have "both_finished i (if even n then Aborted else Applied) ((world_after recover_at_start ^^ n) u)" for n
  proof (induction n)
    case 0
    then show ?case using b by simp
  next
    case (Suc n)
    from wp_result [OF finished_flips [OF Suc]] show ?case by (auto split: if_splits)
  qed
  then have "map_option tx_state (td_state (dir_of ((world_after recover_at_start ^^ n) u) i))
       = Some (if even n then Aborted else Applied)" for n
    by (fastforce simp: both_finished_def)
  with res ss rec show ?thesis by simp
qed

section \<open>Samples\<close>

theorem in_flight_application_cannot_be_aborted_witness:
  "abort_tx sample_env (abort_request_of False False None) ''tx_A''
     (sample_world Approved (Some (sample_progress Apply_writing [])) []) =
   (Inl (Abort_rejected (Apply_in_flight Apply_writing)),
    sample_world Approved (Some (sample_progress Apply_writing [])) [], [])"
  using in_flight_application_cannot_be_aborted
    [OF sample_id, of "sample_world Approved (Some (sample_progress Apply_writing [])) []" "sample_progress Apply_writing []"]
  by simp


theorem aborting_an_applied_transaction_never_settles_witness:
  "let w = sample_world Applied (Some (sample_progress Apply_finalized [''a.txt'', ''b.txt''])) [sample_applied] in
   result_of (coord_abort sample_env ''tx_A'' False False None) w = Inr (Inr (Some User_abort))"
  using aborting_an_applied_transaction_never_settles
    [OF sample_id _ sample_quiet _ _ _ _ _ _ _ _ _ refl,
     of Applied "Some (sample_progress Apply_finalized [''a.txt'', ''b.txt''])" "[sample_applied]" "sample_tx Applied"
        "sample_progress Apply_finalized [''a.txt'', ''b.txt'']" sample_env None]
  by (simp add: has_record_def Let_def sample_applied_def applied_record_def)

end
