(* ===== verification/Tx_Gate.thy ===== *)
theory Tx_Gate
  imports Tx_Rollback
begin

text \<open>
  What stands between a staged change and the workspace: approval has to cover every blocking failure, and the
  runner of a turn applies only what its validators passed and, in interactive use, the user confirmed.  Events
  are followed with \<open>says P m\<close>: whatever happens, \<open>m\<close> emits nothing but events that satisfy \<open>P\<close>.
\<close>

section \<open>The events of a program\<close>

definition says :: "(tx_event \<Rightarrow> bool) \<Rightarrow> 'a prog \<Rightarrow> bool" where
  "says P m \<longleftrightarrow> (\<forall>w. \<exists>es. w_events (world_after m w) = w_events w @ es \<and> list_all P es)"

named_theorems says_intros

lemma says_wp: "says P m \<longleftrightarrow> (\<forall>w. wp m (\<lambda>_. True) (\<lambda>_ u. \<exists>es. w_events u = w_events w @ es \<and> list_all P es) w)"
  by (simp add: says_def wp_iff)

lemma says_basic [says_intros]:
  "says P (ret x)" "says P (throw e)" "says P (observe g)" "says P (throw_when c e)"
  by (simp_all add: says_wp wp_basic)

lemma says_emit [says_intros]: "P ev \<Longrightarrow> says P (emit ev)"
  by (simp add: says_wp wp_basic)

lemma says_effect [says_intros]: "(\<And>w. w_events (h w) = w_events w) \<Longrightarrow> says P (effect h)"
  by (simp add: says_wp wp_basic)

text \<open>The continuation may assume that its argument was returned.\<close>

lemma says_bind:
  assumes m: "says P m" and f: "\<And>x w. result_of m w = Inr x \<Longrightarrow> says P (f x)"
  shows "says P (then_do m f)"
  unfolding says_def
proof
  fix w
  obtain r w1 ws where e: "m w = (r, w1, ws)" by (metis prod_cases3)
  obtain es where es: "w_events w1 = w_events w @ es" "list_all P es"
    using m [unfolded says_def, rule_format, of w] e by (auto simp: world_after_def)
  show "\<exists>es. w_events (world_after (then_do m f) w) = w_events w @ es \<and> list_all P es"
  proof (cases r)
    case (Inl err)
    with e es show ?thesis by (simp add: then_do_def world_after_def)
  next
    case (Inr x)
    have "says P (f x)" by (rule f [of w]) (simp add: result_of_def e Inr)
    then obtain es' where "w_events (world_after (f x) w1) = w_events w1 @ es'" "list_all P es'"
      by (auto simp: says_def)
    with e es Inr show ?thesis
      by (intro exI [of _ "es @ es'"]) (simp add: then_do_def world_after_def case_prod_unfold)
  qed
qed

lemma says_then_do [says_intros]: "says P m \<Longrightarrow> (\<And>x. says P (f x)) \<Longrightarrow> says P (then_do m f)"
  by (rule says_bind)

lemma says_catching [says_intros]:
  assumes m: "says P m" and h: "\<And>e. says P (h e)"
  shows "says P (catching m h)"
  unfolding says_def
proof
  fix w
  obtain r w1 ws where e: "m w = (r, w1, ws)" by (metis prod_cases3)
  obtain es where es: "w_events w1 = w_events w @ es" "list_all P es"
    using m [unfolded says_def, rule_format, of w] e by (auto simp: world_after_def)
  show "\<exists>es. w_events (world_after (catching m h) w) = w_events w @ es \<and> list_all P es"
  proof (cases r)
    case (Inl err)
    obtain es' where "w_events (world_after (h err) w1) = w_events w1 @ es'" "list_all P es'"
      using h [of err] by (auto simp: says_def)
    with e es Inl show ?thesis
      by (intro exI [of _ "es @ es'"]) (simp add: catching_def world_after_def case_prod_unfold)
  next
    case (Inr x)
    with e es show ?thesis by (simp add: catching_def world_after_def)
  qed
qed

lemma says_cases [says_intros]:
  "says P m \<Longrightarrow> says P n \<Longrightarrow> says P (if c then m else n)"
  "says P m0 \<Longrightarrow> (\<And>x. says P (f0 x)) \<Longrightarrow> says P (case_option m0 f0 a)"
  "(\<And>x. says P (g x)) \<Longrightarrow> (\<And>y. says P (h y)) \<Longrightarrow> says P (case_sum g h s)"
  "(\<And>x y. says P (k x y)) \<Longrightarrow> says P (case_prod k p)"
  by (simp_all split: option.split sum.split prod.split)

lemma says_next_fault [says_intros]: "says P next_fault"
  by (auto simp: says_wp next_fault_def wp_def Let_def split: list.split fault.split)

lemma says_mono: "says P m \<Longrightarrow> (\<And>e. P e \<Longrightarrow> Q e) \<Longrightarrow> says Q m"
  unfolding says_def by (meson list.pred_mono_strong)

section \<open>The store and the protocols emit nothing\<close>

lemma says_store [says_intros]:
  "says P (read_dir f i)" "says P (write_dir g i)"
  by (auto simp: read_dir_def write_dir_def checked_def intro!: says_intros)

lemma says_store_ops [says_intros]:
  "says P (read_tx_state i)" "says P (write_tx_state tx)" "says P (read_apply_progress i)"
  "says P (write_apply_progress i p)" "says P (delete_apply_progress i)" "says P (read_abort_progress i)"
  "says P (write_abort_progress i b)" "says P (read_diff i)" "says P (write_diff i es)"
  by (auto simp: read_tx_state_def write_tx_state_def read_apply_progress_def write_apply_progress_def
      delete_apply_progress_def read_abort_progress_def write_abort_progress_def read_diff_def write_diff_def
      intro!: says_intros)

lemma says_with_tx_lock [says_intros]: "says P m \<Longrightarrow> says P (with_tx_lock i m)"
  by (auto simp: with_tx_lock_def intro!: says_intros)

lemma says_mutate_session [says_intros]: "(\<And>s. says P (f s)) \<Longrightarrow> says P (mutate_session f)"
  by (auto simp: mutate_session_def intro!: says_intros)

lemma set_file_events [simp]: "w_events (set_file p c w) = w_events w"
  by (simp add: set_file_def)

lemma says_files [says_intros]: "says P (read_file p)" "says P (write_file p c)"
  by (auto simp: read_file_def write_file_def intro!: says_intros)

lemma says_preflight [says_intros]: "says P (preflight env es)"
  by (induction es) (auto simp: preflight_entry_def split: diff_entry.split intro!: says_intros)

lemma says_stage_a [says_intros]: "says P (run_stage_a env i)"
  by (auto simp: run_stage_a_def stage_a_body_def check_index_def begin_apply_def create_apply_pre_snapshot_def
      split: index_check.split intro!: says_intros)

lemma says_fail_partial [says_intros]: "says P c \<Longrightarrow> says P (fail_partial tx i p stage path c)"
  by (auto simp: fail_partial_def intro!: says_intros)

lemma says_write_plan [says_intros]: "says P (write_plan env tx i p es)"
  by (induction es arbitrary: p) (auto simp: write_planned_def Let_def intro!: says_intros)

lemma says_stage_b [says_intros]: "says P (run_stage_b env i plan)"
  by (auto simp: run_stage_b_def Let_def intro!: says_intros)

lemma says_stage_c [says_intros]: "says P (run_stage_c i ghost)"
  by (auto simp: run_stage_c_def stage_c_session_def stage_c_decision_def stage_c_tx_def split: option.split
      intro!: says_intros)

lemma says_apply_tx [says_intros]: "says P (apply_tx env i)"
  by (auto simp: apply_tx_def intro!: says_intros)

lemma says_decide_abort [says_intros]: "says P (decide_abort q i)"
  by (auto simp: decide_abort_def reject_in_flight_def check_ab0a_def exclusive_flags_def check_flags_def
      resolve_reason_def split: option.split intro!: says_intros)

lemma says_abort_tx [says_intros]: "says P (abort_tx env q i)"
  by (auto simp: abort_tx_def restore_workspace_checkpoint_def run_abort_write_phase_def abort_session_phase_def
      mark_aborting_def abort_tx_phase_def split: option.split intro!: says_intros)

lemma says_coordinator [says_intros]:
  "says P (coord_apply env i)" "says P (coord_abort env i rc kp note)" "says P (advance i st f)"
  "says P (require_state i st)"
  by (auto simp: coord_apply_def coord_abort_def advance_def require_state_def split: option.split intro!: says_intros)

lemma says_compute_diff [says_intros]: "says P (compute_diff fs)"
  by (induction fs rule: compute_diff.induct) (auto intro!: says_intros)

lemma says_lifecycle [says_intros]:
  "says P (finalize_tx i)" "says P (validate_tx run i)" "says P (approve_tx opts i)"
  by (auto simp: finalize_tx_def validate_tx_def approve_tx_def Let_def split: option.split intro!: says_intros)

lemma says_confirm_apply [says_intros]: "says P (confirm_apply opts i d fs)"
  by (auto simp: confirm_apply_def read_tx_review_snapshot_def split: option.split intro!: says_intros)

section \<open>Approval\<close>

lemma approve_wp:
  assumes "is_valid_tx_id i" and "td_state (dir_of w i) = Some t" and "tx_id t = i"
  shows "wp (approve_tx opts i) (\<lambda>_. True) (\<lambda>r v.
    if tx_state t \<noteq> Validated then r = Inl (State_required Validated (tx_state t)) \<and> v = w
    else if \<not> list_all (covered opts t) (failures_of t)
      then r = Inr (filter (\<lambda>n. \<not> covered opts t n) (failures_of t)) \<and> v = w
    else r = Inr [] \<and> td_state (dir_of v i) = Some (t\<lparr>tx_state := Approved,
        tx_overridesApplied :=
          Some ((case tx_overridesApplied t of None \<Rightarrow> [] | Some l \<Rightarrow> l) @ overrides_for opts (w_now w) t)\<rparr>)) w"
  using assms
  by (auto simp: approve_tx_def require_state_def advance_def wp_then_do wp_basic wp_store wp_with_tx_lock Let_def
      list_all_iff filter_empty_conv)

lemma overrides_name_every_failure:
  assumes "list_all (covered opts t) (failures_of t)"
  shows "map ov_validatorName (overrides_for opts ts t) = failures_of t"
proof -
  have "filter (\<lambda>n. ao_overrideAll opts \<or> n \<in> set (ao_overrides opts) \<or> n \<in> set (ao_allowValidatorError opts)) (failures_of t)
      = failures_of t"
    using assms by (auto simp: covered_def list_all_iff filter_id_conv)
  then show ?thesis by (simp add: overrides_for_def comp_def)
qed

text \<open>C17. Approving a transaction succeeds exactly when it was validated and every blocking failure is covered by an
  override; then it becomes approved and every failure it bypassed is on record, in order.  Otherwise the
  transaction stays as it was.\<close>

theorem approval_covers_every_failure:
  assumes i: "is_valid_tx_id i" and t: "td_state (dir_of w i) = Some t" "tx_id t = i"
  shows "if tx_state t = Validated \<and> (\<forall>n\<in>set (failures_of t). covered opts t n)
    then result_of (approve_tx opts i) w = Inr [] \<and>
      (\<exists>os. map ov_validatorName os = failures_of t \<and>
         td_state (dir_of (world_after (approve_tx opts i) w) i) = Some (t\<lparr>tx_state := Approved,
           tx_overridesApplied := Some ((case tx_overridesApplied t of None \<Rightarrow> [] | Some l \<Rightarrow> l) @ os)\<rparr>))
    else result_of (approve_tx opts i) w \<noteq> Inr [] \<and> world_after (approve_tx opts i) w = w"
  using wp_result [OF approve_wp [OF i t, of opts]] overrides_name_every_failure [of opts t "w_now w"]
  by (auto simp: list_all_iff filter_empty_conv split: if_splits)

section \<open>The end of a turn\<close>

lemma wp_follow_any:
  "(\<And>e v. Q (Inl e) v) \<Longrightarrow> (\<And>x v. F x v) \<Longrightarrow> wp m (\<lambda>_. True) (follow Q F) w"
  by (auto simp: wp_iff follow_def split: sum.split)

lemma validate_result:
  assumes "result_of (validate_tx run i) w = Inr v"
  shows "snd v = blocking_failures (fst v)" "\<exists>u. run u = Some (fst v)"
proof -
  have "wp (validate_tx run i) (\<lambda>_. True)
      (post (\<lambda>_ _. True) (\<lambda>v _. snd v = blocking_failures (fst v) \<and> (\<exists>u. run u = Some (fst v)))) w"
    unfolding validate_tx_def wp_then_do [of "require_state i Finalized"]
    by (rule wp_follow_any) (auto simp: wp_then_do wp_basic Let_def split: option.split intro!: wp_follow_any)
  from wp_result [OF this] assms show "snd v = blocking_failures (fst v)" "\<exists>u. run u = Some (fst v)" by simp_all
qed

lemma confirm_result:
  assumes "result_of (confirm_apply opts i d fs) w = Inr True" and "to_applyPolicy opts = Interactive"
  obtains ask s where "to_confirmApply opts = Some ask" and "ask (review_of i s d fs)"
proof (cases "to_confirmApply opts")
  case None
  with assms show ?thesis by (simp add: confirm_apply_def result_of_def throw_def)
next
  case (Some ask)
  with assms that show ?thesis
    by (auto simp: confirm_apply_def result_of_def then_do_def ret_def split: prod.splits sum.splits)
qed

text \<open>What an \<open>applied\<close> event of a turn presupposes.\<close>

definition rightly_applied :: "tx_runner_options \<Rightarrow> string \<Rightarrow> tx_event \<Rightarrow> bool" where
  "rightly_applied opts i ev =
     (case ev of
        Ev_applied j summary vc ghost \<Rightarrow>
          j = i \<and> to_applyPolicy opts \<noteq> Manual_only \<and>
          (\<exists>u results. to_validators opts u = Some results \<and> blocking_failures results = [] \<and>
             vc = validator_summary_from_results results) \<and>
          (to_applyPolicy opts = Interactive \<longrightarrow>
             (\<exists>ask s. to_confirmApply opts = Some ask \<and> ask (review_of i s summary [])))
      | _ \<Rightarrow> True)"

lemma rightly_applied_simps [simp]:
  "rightly_applied opts i (Ev_finalized j d)" "rightly_applied opts i (Ev_validated j vc fs)"
  "rightly_applied opts i (Ev_aborted j reason failed)" "rightly_applied opts i (Ev_error code rec)"
  by (simp_all add: rightly_applied_def)

lemma says_abort_and_emit [says_intros]: "says (rightly_applied opts i) (abort_and_emit env j reason failed)"
  by (auto simp: abort_and_emit_def intro!: says_intros)

lemma says_approve_and_apply:
  assumes "\<And>ghost. rightly_applied opts i (Ev_applied i d (validator_summary_from_results vs) ghost)"
  shows "says (rightly_applied opts i) (approve_and_apply env i d vs)"
  using assms
  by (auto simp: approve_and_apply_def emit_apply_result_def split: apply_failure.split intro!: says_intros)

lemma says_finish_turn_tx: "says (rightly_applied opts i) (finish_turn_tx env opts i)"
proof -
  have go: "says (rightly_applied opts i) (then_do (confirm_apply opts i d []) (\<lambda>ok.
      if \<not> ok then abort_and_emit env i User_abort None else approve_and_apply env i d vs))"
    if "to_validators opts u = Some vs" "blocking_failures vs = []" "to_applyPolicy opts \<noteq> Manual_only" for d vs u
  proof (rule says_bind [OF says_confirm_apply])
    fix ok w
    assume ok: "result_of (confirm_apply opts i d []) w = Inr ok"
    have "rightly_applied opts i (Ev_applied i d (validator_summary_from_results vs) ghost)" if ok for ghost
      using confirm_result [of opts i d "[]" w] ok that \<open>to_applyPolicy opts \<noteq> Manual_only\<close>
        \<open>to_validators opts u = Some vs\<close> \<open>blocking_failures vs = []\<close>
      by (auto simp: rightly_applied_def)
    then show "says (rightly_applied opts i)
        (if \<not> ok then abort_and_emit env i User_abort None else approve_and_apply env i d vs)"
      by (cases ok) (auto intro!: says_intros says_approve_and_apply)
  qed
  have checked: "says (rightly_applied opts i) (then_do (validate_tx (to_validators opts) i) (\<lambda>v.
       then_do (emit (Ev_validated i (validator_summary_from_results (fst v)) (snd v))) (\<lambda>_.
       if snd v \<noteq> [] then abort_and_emit env i Validator_fail (Some (snd v))
       else if to_applyPolicy opts = Manual_only then ret ()
       else then_do (confirm_apply opts i d (snd v)) (\<lambda>ok.
         if \<not> ok then abort_and_emit env i User_abort None
         else approve_and_apply env i d (fst v)))))" for d
  proof (rule says_bind [OF says_lifecycle(2)])
    fix v w
    assume "result_of (validate_tx (to_validators opts) i) w = Inr v"
    from validate_result [OF this] go [of _ "fst v" d]
    show "says (rightly_applied opts i) (then_do (emit (Ev_validated i (validator_summary_from_results (fst v)) (snd v))) (\<lambda>_.
       if snd v \<noteq> [] then abort_and_emit env i Validator_fail (Some (snd v))
       else if to_applyPolicy opts = Manual_only then ret ()
       else then_do (confirm_apply opts i d (snd v)) (\<lambda>ok.
         if \<not> ok then abort_and_emit env i User_abort None
         else approve_and_apply env i d (fst v))))"
      by (cases "snd v = []"; cases "to_applyPolicy opts = Manual_only")
        (auto intro!: says_then_do [OF says_emit] says_basic says_abort_and_emit)
  qed
  show ?thesis
    unfolding finish_turn_tx_def
    by (intro says_then_do says_lifecycle says_emit says_cases says_abort_and_emit checked) simp
qed


lemma world_after_then_do:
  "result_of m w = Inr x \<Longrightarrow> world_after (then_do m f) w = world_after (f x) (world_after m w)"
  by (cases "m w") (auto simp: then_do_def world_after_def result_of_def split: prod.split)

section \<open>What a turn says about its aborts\<close>

lemma aborted_record_says:
  assumes "ad_reason d = User_abort"
  shows "rb_reason (sr_body (aborted_record i d note t)) = User_abort"
    "rb_note (sr_body (aborted_record i d note t)) = (if note = Some [] then None else note)"
  using assms by (simp_all add: aborted_record_def Let_def)

text \<open>Whatever reason a turn gives for an abort, a failed validator or a staging error, the event carries it but the
  record in the session says that the user aborted, with the reason as a note.\<close>

theorem turn_abort_reason_is_lost:
  assumes valid: "is_valid_tx_id i" "i \<in> fst ` set (w_root w)"
    and tx: "td_state (dir_of w i) = Some t" "tx_id t = i" "tx_state t \<in> {Staging, Finalized, Validated, Approved}"
    and fresh: "td_apply (dir_of w i) = None" "td_abort (dir_of w i) = None" "\<not> has_record (w_session w) (abort_record_id i)"
    and u: "u = world_after (abort_and_emit env i reason failed) w"
  shows "w_events u = w_events w @ [Ev_aborted i reason failed] \<and>
    td_state (dir_of u i) = Some (t\<lparr>tx_state := Aborted\<rparr>) \<and>
    (\<exists>r. ss_records (w_session u) = ss_records (w_session w) @ [r] \<and> sr_id r = abort_record_id i \<and>
       rb_reason (sr_body r) = User_abort \<and> rb_note (sr_body r) = Some (reason_text reason))"
proof -
  let ?note = "Some (reason_text reason)"
  obtain d where d: "ad_reason d = User_abort" and
    a: "wp (coord_abort env i False False ?note) (\<lambda>_. True)
      (\<lambda>r u. r = Inr (Inr (Some User_abort)) \<and> aborted_at i d ?note t w u) w"
    using plain_abort_wp [OF valid tx(1,2) _ _ fresh(2,3), of env ?note] tx(3) fresh(1) by auto
  from wp_result [OF a] have res: "result_of (coord_abort env i False False ?note) w = Inr (Inr (Some User_abort))"
    and fin: "aborted_at i d ?note t w (world_after (coord_abort env i False False ?note) w)" by auto
  have ev: "w_events (world_after (coord_abort env i False False ?note) w) = w_events w"
    using says_coordinator(2) [of "\<lambda>_. False" env i False False ?note] unfolding says_def
    by (metis append_Nil2 list.pred_inject(2) list.exhaust)
  have u': "u = (let v = world_after (coord_abort env i False False ?note) w in
      v\<lparr>w_events := w_events v @ [Ev_aborted i reason failed]\<rparr>)"
    by (simp add: u abort_and_emit_def world_after_then_do [OF res]) (simp add: emit_def world_after_def Let_def)
  have du: "dir_of u = dir_of (world_after (coord_abort env i False False ?note) w)"
    by (rule dir_of_cong) (simp add: u' Let_def)
  have su: "w_session u = w_session (world_after (coord_abort env i False False ?note) w)"
    "w_events u = w_events w @ [Ev_aborted i reason failed]"
    by (simp_all add: u' Let_def ev)
  have "reason_text reason \<noteq> []" by (cases reason) simp_all
  with fin fresh(3) aborted_record_says [OF d, of i ?note "Some t"] show ?thesis
    by (simp add: du su aborted_at_def aborted_session_def clear_active_def push_record_def)
       (simp add: aborted_record_def Let_def)
qed

text \<open>C37.  The abort of a turn emits its event even when the protocol refused it: with an application in flight nothing
  changes but the events, which say that the transaction was aborted.\<close>

theorem refused_abort_is_reported:
  assumes "is_valid_tx_id i" and "td_apply (dir_of w i) = Some p"
    and "ap_phase p \<in> {Apply_pending, Apply_writing, Apply_committed}"
  shows "abort_and_emit env i reason failed w = (Inr (), w\<lparr>w_events := w_events w @ [Ev_aborted i reason failed]\<rparr>, [])"
  using assms abort_tx_in_flight [OF assms(1,2)]
  by (simp add: in_flight_phases_def abort_and_emit_def coord_abort_def then_do_def catching_def emit_def ret_def)

section \<open>Samples\<close>

theorem approval_covers_every_failure_witness:
  "result_of (approve_tx (no_overrides\<lparr>ao_overrides := [''lint'']\<rparr>) ''tx_A'') (sample_world Validated None []) = Inr [] \<and>
   result_of (approve_tx no_overrides ''tx_A'') (sample_world Validated None []) \<noteq> Inr []"
  using approval_covers_every_failure [OF sample_id, of "sample_world Validated None []" "sample_tx Validated"
      "no_overrides\<lparr>ao_overrides := [''lint'']\<rparr>"]
    approval_covers_every_failure [OF sample_id, of "sample_world Validated None []" "sample_tx Validated" no_overrides]
  by (simp add: failures_of_def covered_def no_overrides_def validator_status_of_def sample_tx_def)

theorem turn_abort_reason_is_lost_witness:
  "\<exists>r. ss_records (w_session (world_after (abort_and_emit sample_env ''tx_A'' Validator_fail (Some [''lint'']))
       (sample_world Validated None []))) = [r] \<and> rb_reason (sr_body r) = User_abort"
  using turn_abort_reason_is_lost [OF sample_id _ _ _ _ _ _ _ refl,
      of "sample_world Validated None []" "sample_tx Validated" sample_env Validator_fail "Some [''lint'']"]
  by (auto simp: has_record_def)

theorem refused_abort_is_reported_witness:
  "result_of (abort_and_emit sample_env ''tx_A'' Staging_error None)
     (sample_world Approved (Some (sample_progress Apply_committed [''a.txt'', ''b.txt''])) []) = Inr ()"
  using refused_abort_is_reported [OF sample_id,
      of "sample_world Approved (Some (sample_progress Apply_committed [''a.txt'', ''b.txt''])) []"
         "sample_progress Apply_committed [''a.txt'', ''b.txt'']" sample_env Staging_error None]
  by (simp add: result_of_def)

definition sample_options :: tx_runner_options where
  "sample_options =
     \<lparr>to_auto = Per_turn, to_applyPolicy = Interactive, to_headless = False,
      to_validators = (\<lambda>_. Some [\<lparr>vs_name = ''lint'', vs_severity = Blocking, vs_status = V_pass, vs_durationMs = 5\<rparr>]),
      to_confirmApply = Some (\<lambda>r. ar_txId r = ''tx_A'')\<rparr>"

definition sample_staged :: world where
  "sample_staged = set_dir ''tx_A''
     ((dir_of (sample_world Staging None []) ''tx_A'')\<lparr>td_diff := None, td_overlay := [(''a.txt'', ''new'')]\<rparr>)
     (sample_world Staging None [])"

lemma sample_staged_events: "w_events sample_staged = []"
  by (simp add: sample_staged_def sample_world_def)

definition is_applied :: "tx_event \<Rightarrow> bool" where
  "is_applied e = (case e of Ev_applied j summary vc ghost \<Rightarrow> True | _ \<Rightarrow> False)"

lemma is_applied_iff: "is_applied e \<longleftrightarrow> (\<exists>j summary vc ghost. e = Ev_applied j summary vc ghost)"
  by (cases e) (simp_all add: is_applied_def)

lemma sample_turn_applies: "list_ex is_applied (w_events (world_after (finish_turn_tx sample_env sample_options ''tx_A'') sample_staged))"
  by code_simp


end
