(* ===== verification/Path_Lock.thy ===== *)
theory Path_Lock
  imports Prelude
begin

text \<open>
  The lock of \<open>src/lib/path-lock.ts\<close> as a state machine: every call of \<open>withPathLock\<close> has its own token, takes
  one file operation at a time and may stop forever at any of them; the calls interleave freely.  The lock is a
  directory with an owner file in it.  Removing it is two operations, the owner file and then the directory.
  A fresh modification time is the current time.  An operation that fails for another reason than those of the code's
  branches ends its caller, which is what a crash at that point does.
\<close>

definition lock_timeout :: nat where "lock_timeout = 5000"

section \<open>One caller\<close>

record lock_dir =
  ld_mtime :: nat
  ld_owner :: "(nat \<times> nat) option" \<comment> \<open>token and modification time of the owner file\<close>

datatype removal =
    Stale_lock | Own_lock
  | Failed_write bool \<comment> \<open>the owner could not be written; the flag says that the error is \<open>EEXIST\<close>\<close>

datatype lock_phase =
    Idle | Trying | Writing | Checking | Saw_owner | Saw_none | Waiting
  | Removing removal | Removing_dir removal
  | Holding | Releasing | Finished | Timed_out | Failed | Crashed

text \<open>What follows a removal: \<open>EEXIST\<close> is taken for contention by the outer handler.\<close>

fun after_removal :: "removal \<Rightarrow> lock_phase" where
  "after_removal Stale_lock = Trying"
| "after_removal Own_lock = Finished"
| "after_removal (Failed_write True) = Checking"
| "after_removal (Failed_write False) = Failed"

definition unlink_owner :: "nat \<Rightarrow> lock_dir \<Rightarrow> lock_dir" where
  "unlink_owner n d = (if ld_owner d = None then d else d\<lparr>ld_owner := None, ld_mtime := n\<rparr>)"

inductive caller_step ::
  "nat \<Rightarrow> nat \<Rightarrow> nat \<Rightarrow> lock_dir option \<Rightarrow> lock_phase \<Rightarrow> lock_dir option \<Rightarrow> lock_phase \<Rightarrow> bool" for p n s where
  make_free: "caller_step p n s None Trying (Some \<lparr>ld_mtime = n, ld_owner = None\<rparr>) Writing"
| make_taken: "caller_step p n s (Some d) Trying (Some d) Checking"
| write_owner: "ld_owner d = None \<Longrightarrow>
    caller_step p n s (Some d) Writing (Some (d\<lparr>ld_mtime := n, ld_owner := Some (p, n)\<rparr>)) Holding"
| write_exists: "ld_owner d \<noteq> None \<Longrightarrow> caller_step p n s (Some d) Writing (Some d) (Removing (Failed_write True))"
| write_fails: "caller_step p n s l Writing l (Removing (Failed_write False))"
| see_owner: "ld_owner d \<noteq> None \<Longrightarrow> caller_step p n s (Some d) Checking (Some d) Saw_owner"
| see_none: "Option.bind l ld_owner = None \<Longrightarrow> caller_step p n s l Checking l Saw_none"
| owner_fresh: "ld_owner d = Some (q, m) \<Longrightarrow> n \<le> m + lock_timeout \<Longrightarrow>
    caller_step p n s (Some d) Saw_owner (Some d) Waiting"
| owner_stale: "ld_owner d = Some (q, m) \<Longrightarrow> n > m + lock_timeout \<Longrightarrow>
    caller_step p n s (Some d) Saw_owner (Some d) (Removing Stale_lock)"
| owner_gone: "Option.bind l ld_owner = None \<Longrightarrow> caller_step p n s l Saw_owner l Trying"
| dir_fresh: "n \<le> ld_mtime d + lock_timeout \<Longrightarrow> caller_step p n s (Some d) Saw_none (Some d) Waiting"
| dir_stale: "n > ld_mtime d + lock_timeout \<Longrightarrow> caller_step p n s (Some d) Saw_none (Some d) (Removing Stale_lock)"
| dir_gone: "caller_step p n s None Saw_none None Trying"
| give_up: "n > s + lock_timeout \<Longrightarrow> caller_step p n s l Waiting l Timed_out"
| try_again: "n \<le> s + lock_timeout \<Longrightarrow> caller_step p n s l Waiting l Trying"
| unlink: "caller_step p n s l (Removing k) (map_option (unlink_owner n) l) (Removing_dir k)"
| rmdir: "Option.bind l ld_owner = None \<Longrightarrow> caller_step p n s l (Removing_dir k) None (after_removal k)"
| rmdir_filled: "ld_owner d \<noteq> None \<Longrightarrow> caller_step p n s (Some d) (Removing_dir k) (Some d) (Removing k)"
| beat: "ld_owner d = Some (p, m) \<Longrightarrow>
    caller_step p n s (Some d) Holding (Some (d\<lparr>ld_owner := Some (p, n)\<rparr>)) Holding"
| leave: "caller_step p n s l Holding l Releasing" \<comment> \<open>the callback returned or threw\<close>
| release_own: "ld_owner d = Some (p, m) \<Longrightarrow> caller_step p n s (Some d) Releasing (Some d) (Removing Own_lock)"
| release_lost: "map_option fst (Option.bind l ld_owner) \<noteq> Some p \<Longrightarrow> caller_step p n s l Releasing l Finished"

section \<open>All callers\<close>

record lock_system =
  ls_now :: nat
  ls_lock :: "lock_dir option"
  ls_phase :: "nat \<Rightarrow> lock_phase"
  ls_started :: "nat \<Rightarrow> nat"

definition lock_start :: lock_system where
  "lock_start = \<lparr>ls_now = 0, ls_lock = None, ls_phase = (\<lambda>_. Idle), ls_started = (\<lambda>_. 0)\<rparr>"

text \<open>Between two of these operations a caller is at work on a directory without an owner.\<close>

fun at_work :: "lock_phase \<Rightarrow> bool" where
  "at_work Writing = True"
| "at_work Saw_none = True"
| "at_work (Removing (Failed_write e)) = True"
| "at_work (Removing_dir k) = True"
| "at_work ph = False"

text \<open>
  No caller that is alive is slow: the holder renews its lease in time, and nobody takes longer than the timeout
  from one operation on the lock to the next.
\<close>

definition timely :: "lock_system \<Rightarrow> bool" where
  "timely w \<longleftrightarrow>
     (\<forall>d. ls_lock w = Some d \<longrightarrow>
        (\<forall>q m. ld_owner d = Some (q, m) \<and> ls_phase w q \<noteq> Crashed \<longrightarrow> ls_now w \<le> m + lock_timeout) \<and>
        ((\<exists>p. at_work (ls_phase w p)) \<longrightarrow> ls_now w \<le> ld_mtime d + lock_timeout))"

inductive lock_step :: "lock_system \<Rightarrow> lock_system \<Rightarrow> bool" where
  call: "ls_phase w p = Idle \<Longrightarrow>
    lock_step w (w\<lparr>ls_phase := (ls_phase w)(p := Trying), ls_started := (ls_started w)(p := ls_now w)\<rparr>)"
| act: "caller_step p (ls_now w) (ls_started w p) (ls_lock w) (ls_phase w p) l ph \<Longrightarrow>
    lock_step w (w\<lparr>ls_lock := l, ls_phase := (ls_phase w)(p := ph)\<rparr>)"
| crash: "lock_step w (w\<lparr>ls_phase := (ls_phase w)(p := Crashed)\<rparr>)"
| tick: "timely (w\<lparr>ls_now := ls_now w + k\<rparr>) \<Longrightarrow> lock_step w (w\<lparr>ls_now := ls_now w + k\<rparr>)"

inductive lock_reachable :: "lock_system \<Rightarrow> bool" where
  start: "lock_reachable lock_start"
| step: "lock_reachable w \<Longrightarrow> lock_step w v \<Longrightarrow> lock_reachable v"

section \<open>The lock excludes callers that do not crash\<close>

text \<open>A caller is inside from making the directory to removing it.\<close>

fun inside :: "lock_phase \<Rightarrow> bool" where
  "inside Writing = True"
| "inside Holding = True"
| "inside Releasing = True"
| "inside (Removing k) = True"
| "inside (Removing_dir k) = True"
| "inside ph = False"

text \<open>The directory as the caller inside left it.\<close>

fun owned :: "nat \<Rightarrow> lock_phase \<Rightarrow> lock_dir \<Rightarrow> bool" where
  "owned p Writing d = (ld_owner d = None)"
| "owned p Holding d = (\<exists>m. ld_owner d = Some (p, m))"
| "owned p Releasing d = (\<exists>m. ld_owner d = Some (p, m))"
| "owned p (Removing Own_lock) d = (\<exists>m. ld_owner d = Some (p, m))"
| "owned p (Removing_dir Own_lock) d = (ld_owner d = None)"
| "owned p (Removing (Failed_write False)) d = (ld_owner d = None)"
| "owned p (Removing_dir (Failed_write False)) d = (ld_owner d = None)"
| "owned p ph d = False"

definition fresh :: "lock_system \<Rightarrow> lock_dir \<Rightarrow> bool" where
  "fresh w d \<longleftrightarrow>
     (\<forall>q m. ld_owner d = Some (q, m) \<longrightarrow> ls_now w \<le> m + lock_timeout) \<and>
     (ld_owner d = None \<or> (\<exists>p. ls_phase w p = Saw_none) \<longrightarrow> ls_now w \<le> ld_mtime d + lock_timeout)"

definition exclusive :: "lock_system \<Rightarrow> bool" where
  "exclusive w \<longleftrightarrow>
     (case ls_lock w of
        None \<Rightarrow> \<forall>p. \<not> inside (ls_phase w p)
      | Some d \<Rightarrow> \<exists>p. inside (ls_phase w p) \<and> owned p (ls_phase w p) d \<and> (\<forall>q. q \<noteq> p \<longrightarrow> \<not> inside (ls_phase w q)) \<and> fresh w d)"

lemma exclusive_start: "exclusive lock_start"
  by (simp add: exclusive_def lock_start_def)

lemma owned_inside: "owned p ph d \<Longrightarrow> inside ph"
  by (cases "(p, ph, d)" rule: owned.cases) auto

lemma inside_phases: "inside ph \<longleftrightarrow> ph \<noteq> Idle \<and> ph \<noteq> Trying \<and> ph \<noteq> Checking \<and> ph \<noteq> Saw_owner \<and> ph \<noteq> Saw_none \<and>
    ph \<noteq> Waiting \<and> ph \<noteq> Finished \<and> ph \<noteq> Timed_out \<and> ph \<noteq> Failed \<and> ph \<noteq> Crashed"
  by (cases ph) auto

text \<open>A caller outside moves, and the directory stays.\<close>

lemma exclusive_outside:
  assumes w: "exclusive w" and l: "ls_lock w = l" and ph: "\<not> inside (ls_phase w p)" "\<not> inside ph"
    and sn: "ph = Saw_none \<Longrightarrow> Option.bind l ld_owner = None"
  shows "exclusive (w\<lparr>ls_lock := l, ls_phase := (ls_phase w)(p := ph)\<rparr>)"
proof (cases l)
  case None
  with w l ph show ?thesis by (auto simp: exclusive_def)
next
  case (Some d)
  with w l obtain q where q: "inside (ls_phase w q)" "owned q (ls_phase w q) d"
    "\<forall>r. r \<noteq> q \<longrightarrow> \<not> inside (ls_phase w r)" "fresh w d" by (auto simp: exclusive_def)
  have "p \<noteq> q" using ph(1) q(1) by auto
  moreover have "fresh (w\<lparr>ls_lock := Some d, ls_phase := (ls_phase w)(p := ph)\<rparr>) d"
    using q(4) sn Some by (auto simp: fresh_def split: if_splits)
  ultimately show ?thesis
    using q ph(2) Some by (auto simp: exclusive_def intro!: exI [of _ q])
qed

text \<open>The caller inside moves and stays inside.\<close>

lemma exclusive_inside:
  assumes w: "exclusive w" and p: "inside (ls_phase w p)" and ph: "owned p ph d"
    and d: "\<And>d0. ls_lock w = Some d0 \<Longrightarrow> owned p (ls_phase w p) d0 \<Longrightarrow> fresh w d0 \<Longrightarrow> fresh w d"
  shows "exclusive (w\<lparr>ls_lock := Some d, ls_phase := (ls_phase w)(p := ph)\<rparr>)"
proof -
  from w p obtain d0 where d0: "ls_lock w = Some d0" by (auto simp: exclusive_def split: option.splits)
  with w obtain q where q: "inside (ls_phase w q)" "owned q (ls_phase w q) d0"
    "\<forall>r. r \<noteq> q \<longrightarrow> \<not> inside (ls_phase w r)" "fresh w d0" by (auto simp: exclusive_def)
  have "p = q" using p q(3) by auto
  with d [OF d0] q have "fresh w d" by simp
  moreover have "ph \<noteq> Saw_none" using ph owned_inside by auto
  ultimately have "fresh (w\<lparr>ls_lock := Some d, ls_phase := (ls_phase w)(p := ph)\<rparr>) d"
    by (auto simp: fresh_def split: if_splits)
  then show ?thesis
    using q(3) \<open>p = q\<close> ph owned_inside [OF ph] by (auto simp: exclusive_def intro!: exI [of _ p])
qed

text \<open>What an invariant world says about a caller that is inside.\<close>

lemma exclusive_owned:
  assumes "exclusive w" and "inside (ls_phase w p)"
  shows "\<exists>d. ls_lock w = Some d \<and> owned p (ls_phase w p) d \<and> fresh w d \<and> (\<forall>q. q \<noteq> p \<longrightarrow> \<not> inside (ls_phase w q))"
proof -
  from assms obtain d where d: "ls_lock w = Some d" by (auto simp: exclusive_def split: option.splits)
  with assms(1) obtain q where q: "inside (ls_phase w q)" "owned q (ls_phase w q) d"
    "\<forall>r. r \<noteq> q \<longrightarrow> \<not> inside (ls_phase w r)" "fresh w d" by (auto simp: exclusive_def)
  moreover have "p = q" using assms(2) q(3) by auto
  ultimately show ?thesis using d by simp
qed

lemma exclusive_enter:
  assumes w: "exclusive w" and l: "ls_lock w = None"
  shows "exclusive (w\<lparr>ls_lock := Some \<lparr>ld_mtime = ls_now w, ld_owner = None\<rparr>, ls_phase := (ls_phase w)(p := Writing)\<rparr>)"
  using assms by (auto simp: exclusive_def fresh_def intro!: exI [of _ p])

lemma exclusive_exit:
  assumes w: "exclusive w" and p: "inside (ls_phase w p)" and ph: "\<not> inside ph"
  shows "exclusive (w\<lparr>ls_lock := None, ls_phase := (ls_phase w)(p := ph)\<rparr>)"
  using exclusive_owned [OF w p] ph by (auto simp: exclusive_def)

lemma fresh_lock: "exclusive w \<Longrightarrow> ls_lock w = Some d \<Longrightarrow> fresh w d"
  by (auto simp: exclusive_def)

lemma owned_cases:
  assumes "owned p (Removing k) d"
  obtains "k = Own_lock" "\<exists>m. ld_owner d = Some (p, m)" | "k = Failed_write False" "ld_owner d = None"
  using assms by (cases "(p, Removing k, d)" rule: owned.cases) auto

lemma owned_dir_cases:
  assumes "owned p (Removing_dir k) d"
  shows "ld_owner d = None \<and> (k = Own_lock \<or> k = Failed_write False)"
  using assms by (cases "(p, Removing_dir k, d)" rule: owned.cases) auto

lemma exclusive_act:
  assumes w: "exclusive w"
    and s: "caller_step p (ls_now w) (ls_started w p) (ls_lock w) (ls_phase w p) l ph"
  shows "exclusive (w\<lparr>ls_lock := l, ls_phase := (ls_phase w)(p := ph)\<rparr>)"
  using s
proof cases
  case make_free
  then show ?thesis using exclusive_enter [OF w] by simp
next
  case (write_owner d)
  have "exclusive (w\<lparr>ls_lock := Some (d\<lparr>ld_mtime := ls_now w, ld_owner := Some (p, ls_now w)\<rparr>),
      ls_phase := (ls_phase w)(p := Holding)\<rparr>)"
    by (rule exclusive_inside [OF w]) (use write_owner in \<open>simp_all add: fresh_def\<close>)
  with write_owner show ?thesis by simp
next
  case (write_exists d)
  then show ?thesis using exclusive_owned [OF w, of p] by auto
next
  case write_fails
  with exclusive_owned [OF w, of p] obtain d where "ls_lock w = Some d" "ld_owner d = None" by auto
  with write_fails show ?thesis by (auto intro!: exclusive_inside [OF w])
next
  case (owner_stale d q m)
  then show ?thesis using fresh_lock [OF w, of d] by (auto simp: fresh_def)
next
  case (dir_stale d)
  then have "fresh w d" using fresh_lock [OF w] by simp
  then show ?thesis using dir_stale by (auto simp: fresh_def)
next
  case (unlink k)
  obtain d where d: "ls_lock w = Some d" "owned p (Removing k) d" "fresh w d"
    using exclusive_owned [OF w, of p] unlink by auto
  have f: "fresh w (unlink_owner (ls_now w) d)" using d(3) by (auto simp: fresh_def unlink_owner_def)
  have "owned p (Removing_dir k) (unlink_owner (ls_now w) d)"
    using d(2) by (rule owned_cases) (auto simp: unlink_owner_def)
  then show ?thesis using unlink d f by (auto intro!: exclusive_inside [OF w])
next
  case (rmdir k)
  obtain d where "owned p (Removing_dir k) d" using exclusive_owned [OF w, of p] rmdir by auto
  from owned_dir_cases [OF this] have "\<not> inside (after_removal k)" by auto
  then show ?thesis using exclusive_exit [OF w, of p] rmdir by auto
next
  case (rmdir_filled d k)
  then show ?thesis using exclusive_owned [OF w, of p] owned_dir_cases [of p k d] by auto
next
  case (beat d m)
  have "exclusive (w\<lparr>ls_lock := Some (d\<lparr>ld_owner := Some (p, ls_now w)\<rparr>), ls_phase := (ls_phase w)(p := Holding)\<rparr>)"
    by (rule exclusive_inside [OF w]) (use beat in \<open>simp_all add: fresh_def\<close>)
  with beat show ?thesis by simp
next
  case leave
  with exclusive_owned [OF w, of p] obtain d m where "ls_lock w = Some d" "ld_owner d = Some (p, m)" by auto
  with leave show ?thesis by (auto intro!: exclusive_inside [OF w])
next
  case (release_own d m)
  then show ?thesis by (auto intro!: exclusive_inside [OF w])
next
  case release_lost
  then show ?thesis using exclusive_owned [OF w, of p] by auto
qed (use exclusive_outside [OF w refl, of p ph] in simp_all)

text \<open>The clock and the calls.\<close>

lemma exclusive_tick:
  assumes w: "exclusive w" and t: "timely (w\<lparr>ls_now := ls_now w + k\<rparr>)" and c: "\<forall>p. ls_phase w p \<noteq> Crashed"
  shows "exclusive (w\<lparr>ls_now := ls_now w + k\<rparr>)"
proof (cases "ls_lock w")
  case None
  with w show ?thesis by (simp add: exclusive_def)
next
  case (Some d)
  with w obtain q where q: "inside (ls_phase w q)" "owned q (ls_phase w q) d"
    "\<forall>r. r \<noteq> q \<longrightarrow> \<not> inside (ls_phase w r)" "fresh w d" by (auto simp: exclusive_def)
  have work: "at_work (ls_phase w q)" if "ld_owner d = None"
    using q(2) that by (cases "(q, ls_phase w q, d)" rule: owned.cases) auto
  have saw: "\<exists>p. at_work (ls_phase w p)" if "ls_phase w p = Saw_none" for p using that by (intro exI [of _ p]) simp
  have "fresh (w\<lparr>ls_now := ls_now w + k\<rparr>) d"
    using t c Some work saw unfolding fresh_def timely_def by auto
  then show ?thesis using q Some by (auto simp: exclusive_def intro!: exI [of _ q])
qed

lemma exclusive_started [simp]: "exclusive (w\<lparr>ls_started := s\<rparr>) = exclusive w"
  by (simp add: exclusive_def fresh_def split: option.split)

lemma exclusive_call:
  assumes w: "exclusive w" and "ls_phase w p = Idle"
  shows "exclusive (w\<lparr>ls_phase := (ls_phase w)(p := Trying), ls_started := s\<rparr>)"
proof -
  have "exclusive (w\<lparr>ls_lock := ls_lock w, ls_phase := (ls_phase w)(p := Trying)\<rparr>)"
    by (rule exclusive_outside [OF w refl]) (use assms(2) in simp_all)
  moreover have "w\<lparr>ls_phase := (ls_phase w)(p := Trying), ls_started := s\<rparr> =
      (w\<lparr>ls_lock := ls_lock w, ls_phase := (ls_phase w)(p := Trying)\<rparr>)\<lparr>ls_started := s\<rparr>" by simp
  ultimately show ?thesis by (simp only: exclusive_started)
qed

lemma reachable_exclusive: "lock_reachable w \<Longrightarrow> (\<forall>p. ls_phase w p \<noteq> Crashed) \<Longrightarrow> exclusive w"
proof (induction rule: lock_reachable.induct)
  case start
  show ?case by (rule exclusive_start)
next
  case (step w v)
  from step.hyps(2) show ?case
  proof cases
    case (call p)
    have "ls_phase w q \<noteq> Crashed" for q
      using step.prems [rule_format, of q] call by (cases "q = p") simp_all
    then show ?thesis using call step.IH exclusive_call [of w p] by simp
  next
    case (act p l ph)
    have "ls_phase w p \<noteq> Crashed" using act(2) by (auto elim: caller_step.cases)
    then have "ls_phase w q \<noteq> Crashed" for q
      using step.prems [rule_format, of q] act(1) by (cases "q = p") simp_all
    then show ?thesis using step.IH exclusive_act act by auto
  next
    case (crash p)
    then have "ls_phase v p = Crashed" by simp
    then show ?thesis using step.prems by blast
  next
    case (tick k)
    then show ?thesis using step exclusive_tick by auto
  qed
qed

text \<open>C22. As long as no caller crashes and none is slower than the timeout, at most one caller at a time runs its
  callback, and the lock directory then names it as the owner.\<close>

theorem path_lock_excludes:
  assumes "lock_reachable w" and "\<forall>p. ls_phase w p \<noteq> Crashed" and "ls_phase w p = Holding"
  shows "(\<forall>q. ls_phase w q = Holding \<longrightarrow> q = p) \<and> (\<exists>d m. ls_lock w = Some d \<and> ld_owner d = Some (p, m))"
  using exclusive_owned [OF reachable_exclusive [OF assms(1,2)], of p] assms(3) by auto

section \<open>Runs\<close>

text \<open>A world of three callers.\<close>

definition three :: "nat \<Rightarrow> lock_dir option \<Rightarrow> lock_phase \<Rightarrow> lock_phase \<Rightarrow> lock_phase \<Rightarrow> lock_system" where
  "three n l a b c =
     \<lparr>ls_now = n, ls_lock = l, ls_phase = (\<lambda>_. Idle)(0 := a, 1 := b, 2 := c), ls_started = (\<lambda>_. 0)\<rparr>"

definition three_phases :: "lock_phase \<Rightarrow> lock_phase \<Rightarrow> lock_phase \<Rightarrow> nat \<Rightarrow> lock_phase" where
  "three_phases a b c = (\<lambda>_. Idle)(0 := a, 1 := b, 2 := c)"

lemma three_update [simp]:
  "(three_phases a b c)(0 := x) = three_phases x b c" "(three_phases a b c)(Suc 0 := x) = three_phases a x c"
  "(three_phases a b c)(2 := x) = three_phases a b x"
  by (auto simp: three_phases_def fun_upd_twist fun_eq_iff)

lemma three_eq: "three n l a b c = \<lparr>ls_now = n, ls_lock = l, ls_phase = three_phases a b c, ls_started = (\<lambda>_. 0)\<rparr>"
  by (simp add: three_def three_phases_def)

lemma three_phases_simps [simp]:
  "three_phases a b c 0 = a" "three_phases a b c (Suc 0) = b" "three_phases a b c 2 = c"
  by (simp_all add: three_phases_def)

lemma three_act:
  "caller_step 0 n 0 l a l' a' \<Longrightarrow> lock_reachable (three n l a b c) \<Longrightarrow> lock_reachable (three n l' a' b c)"
  "caller_step 1 n 0 l b l' b' \<Longrightarrow> lock_reachable (three n l a b c) \<Longrightarrow> lock_reachable (three n l' a b' c)"
  "caller_step 2 n 0 l c l' c' \<Longrightarrow> lock_reachable (three n l a b c) \<Longrightarrow> lock_reachable (three n l' a b c')"
  using lock_step.act [of 0 "three n l a b c" l' a'] lock_step.act [of 1 "three n l a b c" l' b']
    lock_step.act [of 2 "three n l a b c" l' c']
  by (auto simp: three_eq intro: lock_reachable.step)

lemma const_update [simp]: "(\<lambda>_. 0)(p := 0) = (\<lambda>_. 0::nat)"
  by auto

lemma three_start: "lock_reachable (three 0 None Trying Trying Trying)"
proof -
  have s: "lock_reachable (three 0 None Idle Idle Idle)"
  proof -
    have "(\<lambda>_. Idle)(0 := Idle, 1 := Idle, 2 := Idle) = (\<lambda>_::nat. Idle)" by auto
    then show ?thesis using lock_reachable.start by (simp only: three_def lock_start_def)
  qed
  have "lock_reachable (three 0 None Trying Idle Idle)"
    using lock_reachable.step [OF s lock_step.call [of _ 0]] by (simp add: three_eq)
  from lock_reachable.step [OF this lock_step.call [of _ 1]] have "lock_reachable (three 0 None Trying Trying Idle)"
    by (simp add: three_eq)
  from lock_reachable.step [OF this lock_step.call [of _ 2]] show ?thesis
    by (simp add: three_eq)
qed

lemma three_crash: "lock_reachable (three n l a b c) \<Longrightarrow> lock_reachable (three n l Crashed b c)"
  using lock_reachable.step [OF _ lock_step.crash [of "three n l a b c" 0]] by (simp add: three_eq)

lemma three_tick:
  "timely (three (n + k) l a b c) \<Longrightarrow> lock_reachable (three n l a b c) \<Longrightarrow> lock_reachable (three (n + k) l a b c)"
  using lock_step.tick [of "three n l a b c" k] by (auto simp: three_def intro: lock_reachable.step)

text \<open>The first caller takes the lock.\<close>

lemma first_holds:
  "lock_reachable (three 0 (Some \<lparr>ld_mtime = 0, ld_owner = Some (0, 0)\<rparr>) Holding Trying Trying)"
proof -
  have "lock_reachable (three 0 (Some \<lparr>ld_mtime = 0, ld_owner = None\<rparr>) Writing Trying Trying)"
    by (rule three_act(1) [OF make_free three_start])
  from three_act(1) [OF write_owner this] show ?thesis by simp
qed

theorem path_lock_excludes_witness:
  "ls_phase (three 0 (Some \<lparr>ld_mtime = 0, ld_owner = Some (0, 0)\<rparr>) Holding Trying Trying) 1 \<noteq> Holding \<and>
   (\<exists>d m. ls_lock (three 0 (Some \<lparr>ld_mtime = 0, ld_owner = Some (0, 0)\<rparr>) Holding Trying Trying) = Some d \<and>
      ld_owner d = Some (0, m))"
proof -
  let ?w = "three 0 (Some \<lparr>ld_mtime = 0, ld_owner = Some (0, 0)\<rparr>) Holding Trying Trying"
  have "\<forall>p. ls_phase ?w p \<noteq> Crashed" by (simp add: three_def)
  from path_lock_excludes [OF first_holds this, of 0]
  have "(\<forall>q. ls_phase ?w q = Holding \<longrightarrow> q = 0) \<and> (\<exists>d m. ls_lock ?w = Some d \<and> ld_owner d = Some (0, m))"
    by (simp add: three_eq)
  then show ?thesis by (metis zero_neq_one)
qed

section \<open>A crash breaks the lock\<close>

text \<open>Both waiters see the lease of the crashed holder lapse before either removes the lock.\<close>

definition dead_lock :: lock_dir where
  "dead_lock = \<lparr>ld_mtime = 0, ld_owner = Some (0, 0)\<rparr>"

lemma both_see_stale:
  "lock_reachable (three 5001 (Some dead_lock) Crashed (Removing Stale_lock) (Removing Stale_lock))"
proof -
  have t: "timely (three (0 + 5001) (Some dead_lock) Crashed Trying Trying)"
    by (simp add: timely_def three_def dead_lock_def)
  have s: "lock_reachable (three 5001 (Some dead_lock) Crashed Trying Trying)"
    using three_tick [OF t] three_crash [OF first_holds] by (simp add: dead_lock_def)
  have o: "ld_owner dead_lock = Some (0, 0)" "ld_owner dead_lock \<noteq> None" "(5001::nat) > 0 + lock_timeout"
    by (simp_all add: dead_lock_def lock_timeout_def)
  have one: "lock_reachable (three 5001 (Some dead_lock) Crashed (Removing Stale_lock) Trying)"
    by (rule three_act(2) [OF owner_stale [OF o(1,3)]], rule three_act(2) [OF see_owner [OF o(2)]],
        rule three_act(2) [OF make_taken s])
  show ?thesis
    by (rule three_act(3) [OF owner_stale [OF o(1,3)]], rule three_act(3) [OF see_owner [OF o(2)]],
        rule three_act(3) [OF make_taken one])
qed

text \<open>A caller that has decided to remove the lock goes on to hold it, whoever has it.\<close>

lemma take_over_second:
  assumes "lock_reachable (three n (Some d) a (Removing Stale_lock) c)"
  shows "lock_reachable (three n (Some \<lparr>ld_mtime = n, ld_owner = Some (1, n)\<rparr>) a Holding c)"
proof -
  have u: "lock_reachable (three n (Some (unlink_owner n d)) a (Removing_dir Stale_lock) c)"
    using three_act(2) [OF unlink assms] by simp
  have "lock_reachable (three n None a Trying c)"
    using three_act(2) [OF rmdir u] by (simp add: unlink_owner_def)
  from three_act(2) [OF write_owner three_act(2) [OF make_free this]] show ?thesis by simp
qed

lemma take_over_third:
  assumes "lock_reachable (three n (Some d) a b (Removing Stale_lock))"
  shows "lock_reachable (three n (Some \<lparr>ld_mtime = n, ld_owner = Some (2, n)\<rparr>) a b Holding)"
proof -
  have u: "lock_reachable (three n (Some (unlink_owner n d)) a b (Removing_dir Stale_lock))"
    using three_act(3) [OF unlink assms] by simp
  have "lock_reachable (three n None a b Trying)"
    using three_act(3) [OF rmdir u] by (simp add: unlink_owner_def)
  from three_act(3) [OF write_owner three_act(3) [OF make_free this]] show ?thesis by simp
qed

text \<open>C26. One crashed holder is enough to break the lock, although nobody is slow: two waiters that both find its lease
  lapsed remove the lock in turn, the second the first one's, and then both run their callbacks.\<close>

theorem path_lock_fails_after_a_crash:
  "\<exists>w. lock_reachable w \<and> (\<forall>p. ls_phase w p = Crashed \<longleftrightarrow> p = 0) \<and> ls_phase w 1 = Holding \<and> ls_phase w 2 = Holding"
proof -
  have "lock_reachable (three 5001 (Some \<lparr>ld_mtime = 5001, ld_owner = Some (2, 5001)\<rparr>) Crashed Holding Holding)"
    by (rule take_over_third [OF take_over_second [OF both_see_stale]])
  then show ?thesis by (intro exI conjI) (auto simp: three_eq three_phases_def split: if_splits)
qed

section \<open>A lapsed lease does not block\<close>

inductive solo :: "nat \<Rightarrow> lock_system \<Rightarrow> lock_system \<Rightarrow> bool" for p where
  nothing: "solo p w w"
| more_act: "caller_step p (ls_now w) (ls_started w p) (ls_lock w) (ls_phase w p) l ph \<Longrightarrow>
    solo p (w\<lparr>ls_lock := l, ls_phase := (ls_phase w)(p := ph)\<rparr>) v \<Longrightarrow> solo p w v"

text \<open>A lock whose lease has lapsed, whether its owner was ever written or not, blocks nobody: a caller that tries
  to take it and is left to run reaches its callback, as the owner of the lock, without waiting.\<close>

theorem lapsed_lock_is_taken_over:
  assumes tr: "ls_phase w p = Trying" and d: "ls_lock w = Some d"
    and st: "case ld_owner d of None \<Rightarrow> ls_now w > ld_mtime d + lock_timeout | Some (q, m) \<Rightarrow> ls_now w > m + lock_timeout"
  shows "\<exists>v. solo p w v \<and> ls_phase v p = Holding \<and> ls_now v = ls_now w \<and>
    ls_lock v = Some \<lparr>ld_mtime = ls_now w, ld_owner = Some (p, ls_now w)\<rparr>"
proof -
  define at_point where "at_point l ph = w\<lparr>ls_lock := l, ls_phase := (ls_phase w)(p := ph)\<rparr>" for l ph
  let ?n = "ls_now w" and ?s = "ls_started w p"
  have go: "solo p (at_point l ph) v" if "caller_step p ?n ?s l ph l' ph'" "solo p (at_point l' ph') v" for l ph l' ph' v
    by (rule more_act [of p "at_point l ph" l' ph']) (use that in \<open>simp_all add: at_point_def\<close>)
  let ?held = "at_point (Some \<lparr>ld_mtime = ?n, ld_owner = Some (p, ?n)\<rparr>) Holding"
  have w: "w = at_point (Some d) Trying" using tr d by (simp add: at_point_def fun_upd_idem)
  have "solo p (at_point None Trying) ?held"
  proof (rule go [OF make_free])
    have e: "solo p ?held ?held" by (rule solo.nothing)
    have a: "caller_step p ?n ?s (Some \<lparr>ld_mtime = ?n, ld_owner = None\<rparr>) Writing (Some \<lparr>ld_mtime = ?n, ld_owner = Some (p, ?n)\<rparr>) Holding"
      using write_owner [of "\<lparr>ld_mtime = ?n, ld_owner = None\<rparr>" p ?n ?s] by simp
    show "solo p (at_point (Some \<lparr>ld_mtime = ?n, ld_owner = None\<rparr>) Writing) ?held"
      by (rule go [OF a e])
  qed
  then have "solo p (at_point (Some (unlink_owner ?n d)) (Removing_dir Stale_lock)) ?held"
    by (intro go [OF rmdir]) (simp_all add: unlink_owner_def)
  then have rm: "solo p (at_point (Some d) (Removing Stale_lock)) ?held"
    by (intro go [OF unlink]) simp
  have "solo p (at_point (Some d) Checking) ?held"
  proof (cases "ld_owner d")
    case None
    then have "solo p (at_point (Some d) Saw_none) ?held"
      by (intro go [OF dir_stale]) (use st rm in simp_all)
    then show ?thesis by (intro go [OF see_none]) (use None in simp_all)
  next
    case (Some a)
    then obtain q m where qm: "ld_owner d = Some (q, m)" by (cases a) auto
    then have "solo p (at_point (Some d) Saw_owner) ?held"
      by (intro go [OF owner_stale]) (use st rm in simp_all)
    then show ?thesis by (intro go [OF see_owner]) (use qm in simp_all)
  qed
  then have "solo p (at_point (Some d) Trying) ?held" by (rule go [OF make_taken])
  then have "solo p w ?held" by (simp only: w [symmetric])
  then show ?thesis by (intro exI [of _ ?held]) (simp add: at_point_def)
qed

theorem lapsed_lock_is_taken_over_witness:
  "\<exists>v. solo 1 (three 5001 (Some dead_lock) Crashed Trying Trying) v \<and> ls_phase v 1 = Holding"
  using lapsed_lock_is_taken_over [of "three 5001 (Some dead_lock) Crashed Trying Trying" 1 dead_lock]
  by (auto simp: three_eq dead_lock_def lock_timeout_def)

end
