(* ===== verification/Canonical_Json.thy ===== *)
theory Canonical_Json
  imports Strict_Json "HOL-Library.Multiset"
begin

text \<open>
  The canonical serializer of \<open>src/kernel/canonical.ts\<close>, whose bytes every digest of the kernel is taken of, and
  its round trip through the strict parser.  A finite number is represented by the text that \<open>JSON.stringify\<close>
  prints for it, which determines it (\<open>-0\<close> and \<open>0\<close> print alike); values are finite trees, so the test for cycles
  is left out.
\<close>

section \<open>Values\<close>

datatype cvalue =
    C_null | C_bool bool
  | C_number "units option" \<comment> \<open>its text, if it is finite\<close>
  | C_text units
  | C_array "cvalue option list" \<comment> \<open>a hole is \<open>None\<close>\<close>
  | C_object bool "(units \<times> cvalue) list" \<comment> \<open>whether it is plain, and its members in insertion order\<close>
  | C_outside \<comment> \<open>undefined, a bigint, a function or a symbol\<close>

datatype canonical_fault = Unpaired_surrogate | Number_not_finite | Value_outside | Hole | Object_not_plain

section \<open>Strings\<close>

definition high_surrogate :: "16 word \<Rightarrow> bool" where
  "high_surrogate u = (0xD800 \<le> u \<and> u \<le> 0xDBFF)"

definition low_surrogate :: "16 word \<Rightarrow> bool" where
  "low_surrogate u = (0xDC00 \<le> u \<and> u \<le> 0xDFFF)"

text \<open>\<open>assertUnicodeScalarString\<close>\<close>

fun scalar_string :: "units \<Rightarrow> bool" where
  "scalar_string [] = True"
| "scalar_string (u # s) =
     (if high_surrogate u then (case s of [] \<Rightarrow> False | v # r \<Rightarrow> low_surrogate v \<and> scalar_string r)
      else \<not> low_surrogate u \<and> scalar_string s)"

text \<open>\<open>JSON.stringify\<close> of a string without unpaired surrogates.\<close>

definition hex_digit :: "16 word \<Rightarrow> 16 word" where
  "hex_digit d = (if d < 10 then d + 48 else d + 87)"

definition quote_unit :: "16 word \<Rightarrow> units" where
  "quote_unit u =
     (if u = 0x22 then [0x5C, 0x22]
      else if u = 0x5C then [0x5C, 0x5C]
      else if u = 8 then [0x5C, 98]
      else if u = 12 then [0x5C, 102]
      else if u = 10 then [0x5C, 110]
      else if u = 13 then [0x5C, 114]
      else if u = 9 then [0x5C, 116]
      else if u \<le> 0x1F then [0x5C, 117, 48, 48, hex_digit (u div 16), hex_digit (u mod 16)]
      else [u])"

definition quote_string :: "units \<Rightarrow> units" where
  "quote_string s = 0x22 # concat (map quote_unit s) @ [0x22]"

section \<open>The serializer\<close>

text \<open>\<open>Array.prototype.sort\<close> of strings compares code units.\<close>

fun units_le :: "units \<Rightarrow> units \<Rightarrow> bool" where
  "units_le [] t = True"
| "units_le (u # s) [] = False"
| "units_le (u # s) (v # t) = (u < v \<or> (u = v \<and> units_le s t))"

fun insert_member :: "units \<times> 'a \<Rightarrow> (units \<times> 'a) list \<Rightarrow> (units \<times> 'a) list" where
  "insert_member m [] = [m]"
| "insert_member m (n # ns) = (if units_le (fst m) (fst n) then m # n # ns else n # insert_member m ns)"

definition sort_members :: "(units \<times> 'a) list \<Rightarrow> (units \<times> 'a) list" where
  "sort_members ms = foldr insert_member ms []"

fun collect :: "('e, 'a) result list \<Rightarrow> ('e, 'a list) result" where
  "collect [] = Inr []"
| "collect (r # rs) = and_then r (\<lambda>x. and_then (collect rs) (\<lambda>xs. Inr (x # xs)))"

definition member_text :: "units \<Rightarrow> (canonical_fault, units) result \<Rightarrow> (canonical_fault, units) result" where
  "member_text key r =
     and_then (throw_if (\<not> scalar_string key) Unpaired_surrogate) (\<lambda>_.
     and_then r (\<lambda>t. Inr (quote_string key @ 58 # t)))"

fun serialize_canonical :: "cvalue \<Rightarrow> (canonical_fault, units) result" where
  "serialize_canonical C_null = Inr (lit ''null'')"
| "serialize_canonical (C_bool b) = Inr (if b then lit ''true'' else lit ''false'')"
| "serialize_canonical (C_number n) = (case n of None \<Rightarrow> Inl Number_not_finite | Some t \<Rightarrow> Inr t)"
| "serialize_canonical (C_text s) = (if scalar_string s then Inr (quote_string s) else Inl Unpaired_surrogate)"
| "serialize_canonical (C_array vs) =
     and_then (collect (map (\<lambda>v. case v of None \<Rightarrow> Inl Hole | Some x \<Rightarrow> serialize_canonical x) vs))
       (\<lambda>ts. Inr (91 # join_with [44] ts @ [93]))"
| "serialize_canonical (C_object plain ms) =
     (if \<not> plain then Inl Object_not_plain
      else and_then (collect (map (\<lambda>m. member_text (fst m) (snd m))
             (sort_members (map (\<lambda>m. (fst m, serialize_canonical (snd m))) ms))))
        (\<lambda>ts. Inr (123 # join_with [44] ts @ [125])))"
| "serialize_canonical C_outside = Inl Value_outside"

text \<open>\<open>normalizeCanonicalText\<close>; the normal form is Unicode's, an argument.\<close>

datatype text_fault = Contains_nul | Text_unpaired_surrogate

definition normalize_canonical_text :: "(units \<Rightarrow> units) \<Rightarrow> units \<Rightarrow> (text_fault, units) result" where
  "normalize_canonical_text nfc s =
     (if 0 \<in> set s then Inl Contains_nul
      else if \<not> scalar_string s then Inl Text_unpaired_surrogate
      else Inr (nfc s))"

text \<open>\<open>canonicalSha256\<close>: the hash of the text, which is encoded as UTF-8.\<close>

definition canonical_sha256 :: "(units \<Rightarrow> string) \<Rightarrow> cvalue \<Rightarrow> (canonical_fault, string) result" where
  "canonical_sha256 sha v = and_then (serialize_canonical v) (\<lambda>t. Inr (sha t))"

section \<open>Quoted strings read back\<close>

lemma small_unit:
  assumes "list_all (\<lambda>n. P (of_nat n :: 16 word)) [0..<k]" and "unat u < k"
  shows "P u"
proof -
  from assms have "P (of_nat (unat u))" unfolding list_all_iff by (metis atLeast0LessThan lessThan_iff set_upt)
  then show ?thesis by simp
qed

lemma hex_digits: "d < 16 \<Longrightarrow> hex_value (hex_digit d) = Some d \<and> hex_digit d \<noteq> 0x5C \<and> hex_digit d \<noteq> 0x22 \<and> \<not> hex_digit d \<le> 0x1F"
proof -
  have "list_all (\<lambda>n. hex_value (hex_digit (of_nat n)) = Some (of_nat n :: 16 word) \<and> hex_digit (of_nat n) \<noteq> 0x5C \<and>
      hex_digit (of_nat n) \<noteq> 0x22 \<and> \<not> hex_digit (of_nat n) \<le> 0x1F) [0..<16]"
    by code_simp
  from small_unit [OF this, of d] show "d < 16 \<Longrightarrow> ?thesis" by (simp add: word_less_nat_alt)
qed

text \<open>A unit is quoted as itself, by a short escape, or by its code.\<close>

lemma quote_unit_cases:
  obtains (plain) "quote_unit u = [u]" "\<not> u \<le> 0x1F" "u \<noteq> 0x22" "u \<noteq> 0x5C"
    | (short) e where "quote_unit u = [0x5C, e]" "short_escape e = Some u"
    | (code) "quote_unit u = [0x5C, 117, 48, 48, hex_digit (u div 16), hex_digit (u mod 16)]" "u \<le> 0x1F"
proof (cases "u \<in> {0x22, 0x5C, 8, 12, 10, 13, 9}")
  case True
  then have "\<exists>e. quote_unit u = [0x5C, e] \<and> short_escape e = Some u"
    by (elim insertE) (simp_all add: quote_unit_def short_escape_def)
  with short show thesis by blast
next
  case False
  then show thesis using plain code by (cases "u \<le> 0x1F") (simp_all add: quote_unit_def)
qed

lemma code_digits: "(u::16 word) \<le> 0x1F \<Longrightarrow> u div 16 < 16 \<and> u mod 16 < 16 \<and> (u div 16) * 16 + u mod 16 = u"
proof -
  have "list_all (\<lambda>n. (of_nat n :: 16 word) div 16 < 16 \<and> (of_nat n :: 16 word) mod 16 < 16 \<and>
      (of_nat n div 16) * 16 + of_nat n mod 16 = (of_nat n :: 16 word)) [0..<32]"
    by code_simp
  from small_unit [OF this, of u] show "u \<le> 0x1F \<Longrightarrow> ?thesis" by (simp add: word_le_nat_alt)
qed

lemma scan_quoted: "scan_string False (concat (map quote_unit t) @ 0x22 # s) = Inr s"
proof (induction t)
  case (Cons u t)
  have "scan_string False (quote_unit u @ r) = scan_string False r" for r
  proof (cases u rule: quote_unit_cases)
    case code
    then show ?thesis using hex_digits [of "u div 16"] hex_digits [of "u mod 16"] code_digits [of u] by simp
  qed simp_all
  with Cons show ?case by simp
qed simp

lemma decode_quoted: "decode_string (concat (map quote_unit t)) = Some t"
proof (induction t)
  case (Cons u t)
  have "decode_string (quote_unit u @ r) = map_option (Cons u) (decode_string r)" for r
  proof (cases u rule: quote_unit_cases)
    case code
    have "hex_unit [48, 48, hex_digit (u div 16), hex_digit (u mod 16)] = Some u"
      using hex_digits [of "u div 16"] hex_digits [of "u mod 16"] code_digits [OF code(2)]
      by (simp add: hex_unit_def hex_value_def [of 48])
    moreover have "short_escape 117 = None" by (simp add: short_escape_def)
    ultimately show ?thesis using code(1) by (simp add: numeral_eq_Suc)
  qed simp_all
  with Cons show ?case by simp
qed simp

lemma parse_quoted: "parse_string (quote_string t @ s) = Inr (t, s)"
  using scan_quoted [of t s] decode_quoted [of t] by (simp add: parse_string_def quote_string_def)

section \<open>The text of a value\<close>

text \<open>What the serializer writes down: members sorted by key.\<close>

fun canonical_form :: "cvalue \<Rightarrow> jval" where
  "canonical_form (C_bool b) = Boolean b"
| "canonical_form (C_number n) = (case n of None \<Rightarrow> Null | Some t \<Rightarrow> Number_token t)"
| "canonical_form (C_text s) = Text s"
| "canonical_form (C_array vs) = Elements (map (\<lambda>v. case v of None \<Rightarrow> Null | Some x \<Rightarrow> canonical_form x) vs)"
| "canonical_form (C_object plain ms) = Members (sort_members (map (\<lambda>m. (fst m, canonical_form (snd m))) ms))"
| "canonical_form _ = Null"

fun json_text :: "jval \<Rightarrow> units" where
  "json_text Null = lit ''null''"
| "json_text (Boolean b) = (if b then lit ''true'' else lit ''false'')"
| "json_text (Number_token t) = t"
| "json_text (Text s) = quote_string s"
| "json_text (Elements vs) = 91 # join_with [44] (map json_text vs) @ [93]"
| "json_text (Members ms) = 123 # join_with [44] (map (\<lambda>m. quote_string (fst m) @ 58 # json_text (snd m)) ms) @ [125]"

lemma insert_member_map: "insert_member (fst m, f (snd m)) (map (\<lambda>m. (fst m, f (snd m))) ms) =
    map (\<lambda>m. (fst m, f (snd m))) (insert_member m ms)"
  by (induction ms) auto

lemma sort_members_map: "sort_members (map (\<lambda>m. (fst m, f (snd m))) ms) = map (\<lambda>m. (fst m, f (snd m))) (sort_members ms)"
  by (induction ms) (simp_all add: sort_members_def insert_member_map [unfolded split_beta])

lemma set_insert_member [simp]: "set (insert_member m ms) = insert m (set ms)"
  by (induction ms) auto

lemma set_sort_members [simp]: "set (sort_members ms) = set ms"
  by (induction ms) (simp_all add: sort_members_def)

lemma collect_Inr: "collect (map f xs) = Inr ys \<longleftrightarrow> list_all2 (\<lambda>x y. f x = Inr y) xs ys"
  by (induction xs arbitrary: ys) (auto simp: and_then_Inr list_all2_Cons1)

lemma collect_map: "collect (map f xs) = Inr ys \<Longrightarrow> (\<And>x y. x \<in> set xs \<Longrightarrow> f x = Inr y \<Longrightarrow> y = g x) \<Longrightarrow> ys = map g xs"
  unfolding collect_Inr by (induction xs arbitrary: ys) (auto simp: list_all2_Cons1)

lemma serialize_text: "serialize_canonical v = Inr s \<Longrightarrow> s = json_text (canonical_form v)"
proof (induction v arbitrary: s)
  case (C_array vs)
  from C_array.prems obtain ts where
    c: "collect (map (\<lambda>v. case v of None \<Rightarrow> Inl Hole | Some x \<Rightarrow> serialize_canonical x) vs) = Inr ts"
    and s: "s = 91 # join_with [44] ts @ [93]" by (auto simp: and_then_Inr)
  have "ts = map (\<lambda>v. json_text (case v of None \<Rightarrow> Null | Some x \<Rightarrow> canonical_form x)) vs"
    by (rule collect_map [OF c]) (use C_array.IH in \<open>auto split: option.splits\<close>)
  with s show ?case by (simp add: comp_def)
next
  case (C_object plain ms)
  from C_object.prems obtain ts where
    c: "collect (map (\<lambda>m. member_text (fst m) (snd m)) (sort_members (map (\<lambda>m. (fst m, serialize_canonical (snd m))) ms))) = Inr ts"
    and s: "s = 123 # join_with [44] ts @ [125]" by (auto simp: and_then_Inr split: if_splits)
  have "ts = map (\<lambda>m. quote_string (fst m) @ 58 # json_text (canonical_form (snd m))) (sort_members ms)"
    using c unfolding sort_members_map map_map
    by (rule collect_map) (use C_object.IH in \<open>auto simp: member_text_def and_then_Inr snds.simps\<close>)
  with s show ?case by (simp add: sort_members_map comp_def)
qed (auto split: option.splits if_splits)

section \<open>Numbers before a delimiter\<close>

definition delimited :: "units \<Rightarrow> bool" where
  "delimited rest \<longleftrightarrow> (case rest of [] \<Rightarrow> True | u # _ \<Rightarrow> u = 44 \<or> u = 93 \<or> u = 125)"

lemma delimited_simps [simp]: "delimited []" "delimited (44 # r)" "delimited (93 # r)" "delimited (125 # r)"
  by (simp_all add: delimited_def)

lemma take_digits_append: "delimited rest \<Longrightarrow> take_digits (s @ rest) = (fst (take_digits s), snd (take_digits s) @ rest)"
proof (induction s)
  case Nil
  then show ?case by (cases rest) (auto simp: take_digits_def delimited_def unit_digit_def)
qed (auto simp: take_digits_def)

lemma int_part_append:
  "delimited rest \<Longrightarrow> int_part (s @ rest) = map_option (\<lambda>(i, r). (i, r @ rest)) (int_part s)"
  using take_digits_append [of rest s]
  by (cases s; cases rest) (auto simp: int_part_def delimited_def unit_digit_def case_prod_unfold)

lemma fraction_part_append:
  "delimited rest \<Longrightarrow> fraction_part (s @ rest) = (fst (fraction_part s), snd (fraction_part s) @ rest)"
  using take_digits_append [of rest "tl s"]
  by (cases s; cases rest) (auto simp: fraction_part_def delimited_def)

lemma exponent_part_append:
  assumes "delimited rest"
  shows "exponent_part (s @ rest) = (fst (exponent_part s), snd (exponent_part s) @ rest)"
proof (cases s)
  case Nil
  with assms show ?thesis by (cases rest) (auto simp: exponent_part_def delimited_def Let_def)
next
  case (Cons u r)
  show ?thesis
  proof (cases r)
    case Nil
    with Cons assms show ?thesis
      using take_digits_append [OF assms, of "[]"]
      by (cases rest) (auto simp: exponent_part_def delimited_def Let_def take_digits_def)
  next
    case (Cons v q)
    with \<open>s = u # r\<close> show ?thesis
      using take_digits_append [OF assms, of r] take_digits_append [OF assms, of q]
      by (auto simp: exponent_part_def Let_def)
  qed
qed

lemma number_prefix_append:
  assumes "delimited rest"
  shows "number_prefix (s @ rest) = map_option (\<lambda>(t, r). (t, r @ rest)) (number_prefix s)"
proof (cases s)
  case Nil
  with assms int_part_append [OF assms, of "[]"] show ?thesis
    by (cases rest) (auto simp: number_prefix_def delimited_def Let_def int_part_def)
next
  case (Cons u r)
  then show ?thesis
    using int_part_append [OF assms, of s] int_part_append [OF assms, of r]
    by (auto simp: number_prefix_def Let_def fraction_part_append [OF assms] exponent_part_append [OF assms]
        split: option.splits prod.splits)
qed

text \<open>The text of a number, as \<open>JSON.stringify\<close> prints one.\<close>

definition number_text :: "units \<Rightarrow> bool" where
  "number_text t \<longleftrightarrow> number_prefix t = Some (t, []) \<and> finite_token t"

lemma parse_number_text: "number_text t \<Longrightarrow> delimited rest \<Longrightarrow> parse_number (t @ rest) = Inr (Number_token t, rest)"
  by (auto simp: parse_number_def number_text_def number_prefix_append delimited_def split: list.splits)

lemma number_text_head:
  assumes "number_text t"
  obtains u r where "t = u # r" "u = 45 \<or> unit_digit u"
proof (cases t)
  case Nil
  with assms show ?thesis by (simp add: number_text_def number_prefix_def int_part_def)
next
  case (Cons u r)
  with assms that show ?thesis
    by (auto simp: number_text_def number_prefix_def int_part_def Let_def unit_digit_def split: if_splits)
qed

section \<open>The strict parser reads the text back\<close>

fun number_texts :: "jval \<Rightarrow> bool" where
  "number_texts (Number_token t) = number_text t"
| "number_texts (Elements vs) = (\<forall>v\<in>set vs. number_texts v)"
| "number_texts (Members ms) = (\<forall>m\<in>set ms. number_texts (snd m))"
| "number_texts v = True"

text \<open>A text starts with a unit that is neither white space nor the end of a container.\<close>

definition starts_value :: "units \<Rightarrow> bool" where
  "starts_value s \<longleftrightarrow> (\<exists>u r. s = u # r \<and> (u = 34 \<or> u = 45 \<or> u = 91 \<or> u = 102 \<or> u = 110 \<or> u = 116 \<or> u = 123 \<or> unit_digit u))"

lemma starts_value_append: "starts_value s \<Longrightarrow> starts_value (s @ r)"
  by (auto simp: starts_value_def)

lemma starts_value_no_space: "starts_value s \<Longrightarrow> skip_whitespace s = s"
  by (auto simp: starts_value_def skip_whitespace_def json_space_def unit_digit_def)

lemma starts_value_not_closed: "starts_value s \<Longrightarrow> take 1 s \<noteq> [93] \<and> take 1 s \<noteq> [125]"
  by (auto simp: starts_value_def unit_digit_def)

lemma starts_value_text: "number_texts v \<Longrightarrow> starts_value (json_text v)"
  by (cases v) (auto simp: starts_value_def lit_def unit_of_def quote_string_def elim!: number_text_head)

lemma starts_value_quoted: "starts_value (quote_string k @ s)"
  by (simp add: starts_value_def quote_string_def)

lemma join_with_Cons: "xs \<noteq> [] \<Longrightarrow> join_with [c] (x # xs) = x @ c # join_with [c] xs"
  by (cases xs) simp_all

lemma after_last:
  "after_element c f (c # rest) = Inr (True, rest)" if "c = 93 \<or> c = 125"
  using that by (auto simp: after_element_def Let_def skip_whitespace_def json_space_def)

lemma after_comma:
  assumes "starts_value s" and "c = 93 \<or> c = 125"
  shows "after_element c f (44 # s) = Inr (False, s)"
  using assms starts_value_not_closed [OF assms(1)] starts_value_no_space [OF assms(1)]
  by (auto simp: after_element_def Let_def skip_whitespace_def [of "44 # s"] json_space_def)

definition reads_back :: "nat \<Rightarrow> jval \<Rightarrow> bool" where
  "reads_back depth v \<longleftrightarrow>
     (\<forall>fuel rest n. delimited rest \<longrightarrow> n + container_entries v \<le> max_json_container_entries \<longrightarrow>
        2 * length (json_text v @ rest) + 1 \<le> fuel \<longrightarrow>
        parse_value fuel depth (json_text v @ rest) n = Inr (v, rest, n + container_entries v))"

lemma parse_array_text:
  assumes "vs \<noteq> []" and "\<forall>v\<in>set vs. number_texts v \<and> reads_back depth v"
    and "n + container_entries (Elements vs) \<le> max_json_container_entries"
    and "2 * length (join_with [44] (map json_text vs) @ 93 # rest) + 2 \<le> fuel"
  shows "parse_array fuel depth acc (join_with [44] (map json_text vs) @ 93 # rest) n =
    Inr (Elements (acc @ vs), rest, n + container_entries (Elements vs))"
  using assms
proof (induction vs arbitrary: acc n fuel)
  case (Cons v vs)
  obtain f where f: "fuel = Suc f" using Cons.prems(4) by (cases fuel) auto
  have v: "number_texts v" "reads_back depth v" using Cons.prems(2) by auto
  have n: "n + 1 \<le> max_json_container_entries" "n + 1 + container_entries v \<le> max_json_container_entries"
    using Cons.prems(3) by auto
  show ?case
  proof (cases "vs = []")
    case True
    have "parse_value f depth (json_text v @ 93 # rest) (n + 1) = Inr (v, 93 # rest, n + 1 + container_entries v)"
      using v(2) n(2) Cons.prems(4) f True unfolding reads_back_def by simp
    with True f n show ?thesis by (simp add: after_last)
  next
    case False
    let ?s = "join_with [44] (map json_text vs) @ 93 # rest"
    have s: "join_with [44] (map json_text (v # vs)) @ 93 # rest = json_text v @ 44 # ?s"
      using False by (simp add: join_with_Cons)
    have st: "starts_value ?s"
    proof -
      obtain w ws where "vs = w # ws" using False by (cases vs) auto
      then show ?thesis
        using starts_value_text [of w] Cons.prems(2) by (cases ws) (auto intro: starts_value_append)
    qed
    have p: "parse_value f depth (json_text v @ 44 # ?s) (n + 1) = Inr (v, 44 # ?s, n + 1 + container_entries v)"
      using v(2) n(2) Cons.prems(4) f unfolding reads_back_def s by simp
    have "parse_array f depth (acc @ [v]) ?s (n + 1 + container_entries v) =
        Inr (Elements ((acc @ [v]) @ vs), rest, n + 1 + container_entries v + container_entries (Elements vs))"
      by (rule Cons.IH) (use False Cons.prems f s in auto)
    with p f n s after_comma [OF st, of 93] show ?thesis by simp
  qed
qed simp

lemma parse_key_text:
  assumes "starts_value s" and "k \<notin> set keys" and "n + 1 \<le> max_json_container_entries"
  shows "parse_key keys (quote_string k @ 58 # s) n = Inr (k, s)"
proof -
  have "take 1 (quote_string k @ 58 # s) = [34]" by (simp add: quote_string_def)
  moreover have "skip_whitespace (58 # s) = 58 # s" by (simp add: skip_whitespace_def json_space_def)
  ultimately show ?thesis
    using assms starts_value_no_space [OF assms(1)] by (simp add: parse_key_def parse_quoted Let_def)
qed

definition member_json :: "units \<times> jval \<Rightarrow> units" where
  "member_json m = quote_string (fst m) @ 58 # json_text (snd m)"

lemma json_text_members: "json_text (Members ms) = 123 # join_with [44] (map member_json ms) @ [125]"
  by (simp add: member_json_def [abs_def])

lemma parse_object_text:
  assumes "ms \<noteq> []" and "\<forall>m\<in>set ms. number_texts (snd m) \<and> reads_back depth (snd m)"
    and "distinct (map fst (acc @ ms))"
    and "n + container_entries (Members ms) \<le> max_json_container_entries"
    and "2 * length (join_with [44] (map member_json ms) @ 125 # rest) + 2 \<le> fuel"
  shows "parse_object fuel depth acc (join_with [44] (map member_json ms) @ 125 # rest) n =
    Inr (Members (acc @ ms), rest, n + container_entries (Members ms))"
  using assms
proof (induction ms arbitrary: acc n fuel)
  case (Cons m ms)
  obtain f where f: "fuel = Suc f" using Cons.prems(5) by (cases fuel) auto
  have v: "number_texts (snd m)" "reads_back depth (snd m)" using Cons.prems(2) by auto
  have n: "n + 1 \<le> max_json_container_entries" "n + 1 + container_entries (snd m) \<le> max_json_container_entries"
    using Cons.prems(4) by auto
  have new: "fst m \<notin> set (map fst acc)" using Cons.prems(3) by auto
  have key: "parse_key (map fst acc) (member_json m @ s) n = Inr (fst m, json_text (snd m) @ s)" for s
    using parse_key_text [OF starts_value_append [OF starts_value_text [OF v(1)]] new n(1)] by (simp add: member_json_def)
  have len: "length (json_text (snd m)) < length (member_json m)" by (simp add: member_json_def)
  show ?case
  proof (cases "ms = []")
    case True
    have "parse_value f depth (json_text (snd m) @ 125 # rest) (n + 1) = Inr (snd m, 125 # rest, n + 1 + container_entries (snd m))"
      using v(2) n(2) Cons.prems(5) f True len unfolding reads_back_def by simp
    with True f n key show ?thesis by (simp add: after_last)
  next
    case False
    let ?s = "join_with [44] (map member_json ms) @ 125 # rest"
    have s: "join_with [44] (map member_json (m # ms)) @ 125 # rest = member_json m @ 44 # ?s"
      using False by (simp add: join_with_Cons)
    have st: "starts_value ?s"
    proof -
      obtain w ws where "ms = w # ws" using False by (cases ms) auto
      then show ?thesis
        using starts_value_quoted by (cases ws) (auto simp: member_json_def)
    qed
    have p: "parse_value f depth (json_text (snd m) @ 44 # ?s) (n + 1) = Inr (snd m, 44 # ?s, n + 1 + container_entries (snd m))"
      using v(2) n(2) Cons.prems(5) f len unfolding reads_back_def s by simp
    have "parse_object f depth (acc @ [m]) ?s (n + 1 + container_entries (snd m)) =
        Inr (Members ((acc @ [m]) @ ms), rest, n + 1 + container_entries (snd m) + container_entries (Members ms))"
      by (rule Cons.IH) (use False Cons.prems f s len in auto)
    with p f n s key after_comma [OF st, of 125] show ?thesis by simp
  qed
qed simp

lemma opens_with_simps [simp]: "opens_with c (u # s) \<longleftrightarrow> u = c" "\<not> opens_with c []"
  by (auto simp: opens_with_def)

lemma parse_literal_text:
  "parse_literal l v (l @ rest) = Inr (v, rest)"
  by (simp add: parse_literal_def)

lemma parse_scalar_text:
  assumes "\<And>vs. v \<noteq> Elements vs" and "\<And>ms. v \<noteq> Members ms" and "number_texts v" and "delimited rest"
  shows "parse_scalar (json_text v @ rest) = Inr (v, rest)"
proof (cases v)
  case Null
  then show ?thesis using parse_literal_text [of "lit ''null''" Null rest] by (simp add: parse_scalar_def lit_def unit_of_def)
next
  case (Boolean b)
  then show ?thesis
    using parse_literal_text [of "lit ''true''" "Boolean True" rest] parse_literal_text [of "lit ''false''" "Boolean False" rest]
    by (simp add: parse_scalar_def lit_def unit_of_def)
next
  case (Number_token t)
  then have t: "number_text t" using assms(3) by simp
  from number_text_head [OF this] obtain u r where u: "t = u # r" "u = 45 \<or> unit_digit u" .
  have "u \<noteq> 34" "u \<noteq> 116" "u \<noteq> 102" "u \<noteq> 110" using u(2) by (auto simp: unit_digit_def)
  with u parse_number_text [OF t assms(4)] Number_token show ?thesis by (simp add: parse_scalar_def)
next
  case (Text s)
  then show ?thesis using parse_quoted [of s rest] by (simp add: parse_scalar_def quote_string_def)
qed (use assms in auto)

lemma scalar_not_open:
  assumes "\<And>vs. v \<noteq> Elements vs" and "\<And>ms. v \<noteq> Members ms" and "number_texts v"
  shows "\<not> opens_with 123 (json_text v @ rest) \<and> \<not> opens_with 91 (json_text v @ rest)"
  using assms by (cases v) (auto simp: lit_def unit_of_def quote_string_def unit_digit_def elim!: number_text_head)

lemma scalar_reads_back:
  assumes "\<And>vs. v \<noteq> Elements vs" and "\<And>ms. v \<noteq> Members ms" and "number_texts v"
  shows "reads_back depth v"
  unfolding reads_back_def
proof (intro allI impI)
  fix fuel rest n
  assume "delimited rest" and "2 * length (json_text v @ rest) + 1 \<le> fuel"
  then obtain f where "fuel = Suc f" by (cases fuel) auto
  moreover have "container_entries v = 0" using assms by (cases v) auto
  moreover note parse_scalar_text [OF assms \<open>delimited rest\<close>] scalar_not_open [OF assms, of rest]
  ultimately show "parse_value fuel depth (json_text v @ rest) n = Inr (v, rest, n + container_entries v)"
    by simp
qed

lemma text_reads_back:
  "number_texts v \<Longrightarrow> nested_within (max_json_depth - depth) v \<Longrightarrow> distinct_keys v \<Longrightarrow> reads_back depth v"
proof (induction v arbitrary: depth)
  case (Elements vs)
  have d: "depth < max_json_depth" using Elements.prems(2) by simp
  have all: "\<forall>v\<in>set vs. number_texts v \<and> reads_back (depth + 1) v"
    using Elements by (auto intro!: Elements.IH)
  show ?case
    unfolding reads_back_def
  proof (intro allI impI)
    fix fuel rest n
    assume a: "n + container_entries (Elements vs) \<le> max_json_container_entries"
      "2 * length (json_text (Elements vs) @ rest) + 1 \<le> fuel"
    then obtain f where f: "fuel = Suc f" by (cases fuel) auto
    show "parse_value fuel depth (json_text (Elements vs) @ rest) n =
        Inr (Elements vs, rest, n + container_entries (Elements vs))"
    proof (cases "vs = []")
      case True
      then show ?thesis using f d by (simp add: skip_whitespace_def json_space_def)
    next
      case False
      then obtain w ws where w: "vs = w # ws" by (cases vs) auto
      let ?s = "join_with [44] (map json_text vs) @ 93 # rest"
      have st: "starts_value ?s"
        using starts_value_text [of w] all w by (cases ws) (auto intro: starts_value_append)
      have "parse_array f (depth + 1) [] ?s n = Inr (Elements ([] @ vs), rest, n + container_entries (Elements vs))"
        by (rule parse_array_text [OF False all a(1)]) (use a(2) f in simp)
      with f d starts_value_no_space [OF st] starts_value_not_closed [OF st] show ?thesis
        by (simp add: opens_with_def [of 93])
    qed
  qed
next
  case (Members ms)
  have d: "depth < max_json_depth" using Members.prems(2) by simp
  have "reads_back (depth + 1) (snd m)" if "m \<in> set ms" for m
    by (rule Members.IH [OF that]) (use Members.prems that in \<open>auto simp: snds.simps\<close>)
  then have all: "\<forall>m\<in>set ms. number_texts (snd m) \<and> reads_back (depth + 1) (snd m)"
    using Members.prems(1) by auto
  have dist: "distinct (map fst ([] @ ms))" using Members.prems(3) by simp
  show ?case
    unfolding reads_back_def
  proof (intro allI impI)
    fix fuel rest n
    assume a: "n + container_entries (Members ms) \<le> max_json_container_entries"
      "2 * length (json_text (Members ms) @ rest) + 1 \<le> fuel"
    then obtain f where f: "fuel = Suc f" by (cases fuel) auto
    show "parse_value fuel depth (json_text (Members ms) @ rest) n =
        Inr (Members ms, rest, n + container_entries (Members ms))"
    proof (cases "ms = []")
      case True
      then show ?thesis using f d by (simp add: skip_whitespace_def json_space_def)
    next
      case False
      then obtain w ws where w: "ms = w # ws" by (cases ms) auto
      let ?s = "join_with [44] (map member_json ms) @ 125 # rest"
      have st: "starts_value ?s"
        using starts_value_quoted w by (cases ws) (auto simp: member_json_def)
      have "parse_object f (depth + 1) [] ?s n = Inr (Members ([] @ ms), rest, n + container_entries (Members ms))"
        by (rule parse_object_text [OF False all dist a(1)]) (use a(2) f in \<open>simp add: json_text_members del: json_text.simps\<close>)
      with f d starts_value_no_space [OF st] starts_value_not_closed [OF st] show ?thesis
        by (simp add: opens_with_def [of 125] json_text_members del: json_text.simps)
    qed
  qed
qed (rule scalar_reads_back; simp)+

lemma parse_json_text:
  assumes "number_texts v" and "nested_within max_json_depth v" and "distinct_keys v"
    and "container_entries v \<le> max_json_container_entries"
  shows "parse_json_strict (json_text v) = Inr v"
proof -
  have "reads_back 0 v" by (rule text_reads_back) (use assms in simp_all)
  then have "parse_value (2 * length (json_text v) + 1) 0 (json_text v) 0 = Inr (v, [], container_entries v)"
    using assms(4) unfolding reads_back_def by (metis add_0 append_Nil2 delimited_simps(1) order_refl)
  with starts_value_no_space [OF starts_value_text [OF assms(1)]] show ?thesis
    by (simp add: parse_json_strict_def parse_source_def skip_whitespace_def)
qed

text \<open>C27. Round trip: whatever the serializer writes, the strict parser reads back as the value it was written from,
members in key order, as long as the value keeps the parser's bounds on nesting and entries and has no key
twice (a JavaScript object cannot).  No unit of a string and no number is changed on the way.\<close>

theorem canonical_json_roundtrip:
  assumes "serialize_canonical v = Inr s" and "number_texts (canonical_form v)"
    and "nested_within max_json_depth (canonical_form v)" and "distinct_keys (canonical_form v)"
    and "container_entries (canonical_form v) \<le> max_json_container_entries"
  shows "parse_json_strict s = Inr (canonical_form v)"
  using serialize_text [OF assms(1)] parse_json_text [OF assms(2-5)] by simp

definition sample_value :: cvalue where
  "sample_value = C_object True [(lit ''b'', C_array [Some C_null, Some (C_number (Some (lit ''-1.5e+3'')))]),
     (lit ''a'', C_text [0x22, 7, 0xD83D, 0xDE00])]"

theorem canonical_json_roundtrip_witness:
  "parse_json_strict (lit ''{'' @ [34, 97, 34, 58, 34, 92, 34, 92, 117, 48, 48, 48, 55, 0xD83D, 0xDE00, 34]
      @ [44, 34, 98, 34] @ lit '':[null,-1.5e+3]}'') = Inr (canonical_form sample_value)"
proof (rule canonical_json_roundtrip)
  show "serialize_canonical sample_value = Inr (lit ''{'' @ [34, 97, 34, 58, 34, 92, 34, 92, 117, 48, 48, 48, 55, 0xD83D, 0xDE00, 34] @ [44, 34, 98, 34] @ lit '':[null,-1.5e+3]}'')" by code_simp
  have "number_prefix (lit ''-1.5e+3'') = Some (lit ''-1.5e+3'', [])" by code_simp
  then have "number_text (lit ''-1.5e+3'')"
    by (simp add: number_text_def finite_token_def token_mantissa_def token_exponent_def lit_def unit_of_def
        unit_digit_def digits_value_def)
  moreover have "canonical_form sample_value =
      Members [(lit ''a'', Text [0x22, 7, 0xD83D, 0xDE00]), (lit ''b'', Elements [Null, Number_token (lit ''-1.5e+3'')])]"
    by code_simp
  ultimately show "number_texts (canonical_form sample_value)" by simp
  show "nested_within max_json_depth (canonical_form sample_value)" by code_simp
  show "distinct_keys (canonical_form sample_value)" by code_simp
  show "container_entries (canonical_form sample_value) \<le> max_json_container_entries" by code_simp
qed

section \<open>Order of members\<close>

lemma units_le_total: "units_le s t \<or> units_le t s"
  by (induction s t rule: units_le.induct) auto

lemma units_le_trans: "units_le s t \<Longrightarrow> units_le t r \<Longrightarrow> units_le s r"
proof (induction s t arbitrary: r rule: units_le.induct)
  case (3 u s v t)
  then show ?case by (cases r) auto
qed auto

lemma units_le_antisym: "units_le s t \<Longrightarrow> units_le t s \<Longrightarrow> s = t"
proof (induction s t rule: units_le.induct)
  case (1 t)
  then show ?case by (cases t) auto
qed auto

definition ordered_members :: "(units \<times> 'a) list \<Rightarrow> bool" where
  "ordered_members ms = sorted_wrt (\<lambda>m n. units_le (fst m) (fst n)) ms"

lemma mset_insert_member [simp]: "mset (insert_member m ms) = add_mset m (mset ms)"
  by (induction ms) auto

lemma mset_sort_members [simp]: "mset (sort_members ms) = mset ms"
  by (induction ms) (simp_all add: sort_members_def)

lemma ordered_insert_member: "ordered_members ms \<Longrightarrow> ordered_members (insert_member m ms)"
proof (induction ms)
  case (Cons n ms)
  then show ?case
    using units_le_total [of "fst m" "fst n"] units_le_trans [of "fst m" "fst n"]
    by (auto simp: ordered_members_def)
qed (simp add: ordered_members_def)

lemma ordered_sort_members: "ordered_members (sort_members ms)"
  by (induction ms) (simp_all add: sort_members_def ordered_insert_member, simp add: ordered_members_def)

text \<open>Members with distinct keys have one ordering.\<close>

lemma ordered_members_unique:
  "mset ms = mset ns \<Longrightarrow> ordered_members ms \<Longrightarrow> ordered_members ns \<Longrightarrow> distinct (map fst ms) \<Longrightarrow> ms = ns"
proof (induction ms arbitrary: ns)
  case (Cons m ms)
  from Cons.prems(1) obtain n ns' where ns: "ns = n # ns'" by (cases ns) auto
  have "m = n"
  proof (rule ccontr)
    assume ne: "m \<noteq> n"
    have "m \<in> set ns'" using Cons.prems(1) ns ne by (metis list.set_intros(1) mset_eq_setD set_ConsD)
    moreover have "n \<in> set ms" using Cons.prems(1) ns ne by (metis list.set_intros(1) mset_eq_setD set_ConsD)
    ultimately have "units_le (fst n) (fst m)" "units_le (fst m) (fst n)"
      using Cons.prems(2,3) ns by (auto simp: ordered_members_def)
    then have "fst m = fst n" by (rule units_le_antisym [rotated])
    with \<open>n \<in> set ms\<close> Cons.prems(4) show False by auto
  qed
  moreover have "ms = ns'"
    by (rule Cons.IH) (use Cons.prems ns \<open>m = n\<close> in \<open>auto simp: ordered_members_def\<close>)
  ultimately show ?case using ns by simp
qed simp

lemma sort_members_permuted:
  "mset ms = mset ns \<Longrightarrow> distinct (map fst ms) \<Longrightarrow> sort_members ms = sort_members ns"
proof (rule ordered_members_unique)
  assume "mset ms = mset ns" and "distinct (map fst ms)"
  then show "mset (sort_members ms) = mset (sort_members ns)" by simp
  have "mset (map fst (sort_members ms)) = mset (map fst ms)" by (simp only: mset_map mset_sort_members)
  from mset_eq_imp_distinct_iff [OF this] \<open>distinct (map fst ms)\<close> show "distinct (map fst (sort_members ms))"
    by simp
qed (rule ordered_sort_members)+

text \<open>The text, and so every digest, does not depend on the order in which an object's members were
inserted, nor on the order at any of the levels above them, errors included for a value whose members all
have a text.\<close>

theorem canonical_ignores_insertion_order:
  assumes "mset ms = mset ns" and "distinct (map fst ms)"
  shows "serialize_canonical (C_object plain ms) = serialize_canonical (C_object plain ns)"
proof -
  let ?f = "\<lambda>m. (fst m, serialize_canonical (snd m))"
  have "mset (map ?f ms) = mset (map ?f ns)" using assms(1) by (metis mset_map)
  moreover have "distinct (map fst (map ?f ms))" using assms(2) by (simp add: comp_def)
  ultimately have "sort_members (map ?f ms) = sort_members (map ?f ns)" by (rule sort_members_permuted)
  then show ?thesis by simp
qed

theorem canonical_ignores_insertion_order_witness:
  "serialize_canonical (C_object True [([98], C_null), ([97], C_outside)]) =
    serialize_canonical (C_object True [([97], C_outside), ([98], C_null)])"
  by (rule canonical_ignores_insertion_order) (simp_all add: add_mset_commute)

end
