(* ===== verification/Worker_Rows.thy ===== *)
theory Worker_Rows
  imports Invocation_Journal
begin

text \<open>
  The rows of worker launches and workspace generations: their types (\<open>src/kernel/types.ts\<close>), their decoders
  (\<open>src/state/invariants.ts\<close>), and what the triggers of their tables accept (\<open>src/state/schema.ts\<close>, at its last
  version).

  A field that a phase may leave out is an option.  The identity hash of a generation is an argument.  Every write is
  decoded; a row that is read back has been written, so that reading does not decode it again.
\<close>

section \<open>Launches\<close>

datatype launch_phase =
  Launch_preparing | Launch_reserved | Launch_preactivated | Launch_activated | Launch_reconciling | Launch_retired

datatype generation_phase =
    Generation_materializing | Generation_preactivated_readonly | Generation_active | Generation_revoking
  | Generation_checkpointing | Generation_fenced_reconciling | Generation_sealed | Generation_quarantined
  | Generation_retired

record worker_preparation =
  wp_stateOwnerEpoch :: int
  wp_sourceCheckpointId :: string
  wp_sourceWorkspaceStateRef :: artifact_ref
  wp_generationCreationNonceDigest :: string
  wp_generationId :: string
  wp_generation :: "(artifact_ref \<times> string) option" \<comment> \<open>reference and identity digest\<close>
  wp_controller :: "(artifact_ref \<times> string) option" \<comment> \<open>birth identity and its digest\<close>
  wp_reservation :: "(string \<times> string \<times> int) option" \<comment> \<open>device, file and owner\<close>

text \<open>\<open>retirementKind\<close> is \<open>'preparation'\<close> or absent.\<close>

record worker_launch =
  wl_launchId :: string
  wl_runId :: string
  wl_plannedRunRevision :: int
  wl_supervisorInstanceId :: string
  wl_spawnNonceDigest :: string
  wl_activationNonceDigest :: string
  wl_phase :: launch_phase
  wl_workspaceGenerationRef :: "artifact_ref option"
  wl_containmentPlanRef :: "artifact_ref option"
  wl_sandboxLaunchSpecRef :: "artifact_ref option"
  wl_workerIdentityDigest :: "string option"
  wl_processContainmentRef :: "artifact_ref option"
  wl_leaseEpoch :: "int option"
  wl_leaseVersion :: "int option"
  wl_leaseExpiresAt :: "int option"
  wl_generationWriteState :: "generation_phase option"
  wl_quiesceId :: "string option"
  wl_activatedAt :: "int option"
  wl_createdAt :: int
  wl_activationDeadlineAt :: int
  wl_preparation :: "worker_preparation option"
  wl_retirementKind :: bool
  wl_retiredAt :: "int option"
  wl_retirementEvidenceRef :: "artifact_ref option"

text \<open>A hash of a run, a checkpoint, a workspace state and a nonce.\<close>

type_synonym identity_hash = "string \<Rightarrow> string \<Rightarrow> artifact_ref \<Rightarrow> string \<Rightarrow> string"

definition canonical_decimal :: "string \<Rightarrow> bool" where
  "canonical_decimal s \<longleftrightarrow> s = ''0'' \<or> (s \<noteq> [] \<and> hd s \<noteq> CHR ''0'' \<and> list_all js_digit s)"

definition bound_pair_ok :: "(artifact_ref \<times> string) option \<Rightarrow> bool" where
  "bound_pair_ok p \<longleftrightarrow> (case p of None \<Rightarrow> True | Some (ref, digest) \<Rightarrow> artifact_ref_ok ref \<and> hex64 digest)"

definition preparation_ok :: "identity_hash \<Rightarrow> worker_launch \<Rightarrow> worker_preparation \<Rightarrow> bool" where
  "preparation_ok idh l p \<longleftrightarrow>
     int_at_least 1 (wp_stateOwnerEpoch p) \<and> wp_sourceCheckpointId p \<noteq> [] \<and>
     artifact_ref_ok (wp_sourceWorkspaceStateRef p) \<and> hex64 (wp_generationCreationNonceDigest p) \<and>
     wp_generationId p = idh (wl_runId l) (wp_sourceCheckpointId p) (wp_sourceWorkspaceStateRef p)
       (wp_generationCreationNonceDigest p) \<and>
     bound_pair_ok (wp_generation p) \<and> bound_pair_ok (wp_controller p) \<and>
     (case wp_reservation p of
        None \<Rightarrow> True
      | Some (device, file, uid) \<Rightarrow> canonical_decimal device \<and> canonical_decimal file \<and> int_at_least 0 uid) \<and>
     wl_activationDeadlineAt l - wl_createdAt l = 120000"

definition no_identity :: "worker_launch \<Rightarrow> bool" where
  "no_identity l \<longleftrightarrow> wl_workerIdentityDigest l = None \<and> wl_processContainmentRef l = None"

definition no_lease :: "worker_launch \<Rightarrow> bool" where
  "no_lease l \<longleftrightarrow> wl_leaseEpoch l = None \<and> wl_leaseExpiresAt l = None \<and> wl_activatedAt l = None"

definition no_retirement :: "worker_launch \<Rightarrow> bool" where
  "no_retirement l \<longleftrightarrow> wl_retiredAt l = None \<and> wl_retirementEvidenceRef l = None"

definition identity_bound :: "worker_launch \<Rightarrow> bool" where
  "identity_bound l \<longleftrightarrow> present hex64 (wl_workerIdentityDigest l) \<and> present artifact_ref_ok (wl_processContainmentRef l)"

definition lease_bound :: "worker_launch \<Rightarrow> bool" where
  "lease_bound l \<longleftrightarrow>
     present (int_at_least 1) (wl_leaseEpoch l) \<and> present (int_at_least 1) (wl_leaseVersion l) \<and>
     wl_leaseExpiresAt l \<noteq> None \<and> wl_activatedAt l \<noteq> None"

text \<open>The branches of the phases of a bound launch.\<close>

fun launch_phase_ok :: "launch_phase \<Rightarrow> worker_launch \<Rightarrow> bool" where
  "launch_phase_ok Launch_reserved l =
     (no_identity l \<and> no_lease l \<and> wl_quiesceId l = None \<and> no_retirement l \<and> wl_leaseVersion l = Some 0 \<and>
      wl_generationWriteState l = Some Generation_preactivated_readonly)"
| "launch_phase_ok Launch_preactivated l =
     (no_lease l \<and> wl_quiesceId l = None \<and> no_retirement l \<and> identity_bound l \<and> wl_leaseVersion l = Some 0 \<and>
      wl_generationWriteState l = Some Generation_preactivated_readonly)"
| "launch_phase_ok Launch_activated l =
     (no_retirement l \<and> identity_bound l \<and> lease_bound l \<and>
      wl_generationWriteState l \<in> {Some Generation_active, Some Generation_revoking, Some Generation_checkpointing} \<and>
      (wl_generationWriteState l = Some Generation_active) = (wl_quiesceId l = None))"
| "launch_phase_ok Launch_reconciling l =
     (no_retirement l \<and> identity_bound l \<and> lease_bound l \<and>
      wl_generationWriteState l = Some Generation_fenced_reconciling \<and> optional (\<lambda>q. q \<noteq> []) (wl_quiesceId l))"
| "launch_phase_ok Launch_retired l =
     (wl_retiredAt l \<noteq> None \<and> present artifact_ref_ok (wl_retirementEvidenceRef l) \<and>
      optional hex64 (wl_workerIdentityDigest l) \<and> optional artifact_ref_ok (wl_processContainmentRef l) \<and>
      optional (int_at_least 1) (wl_leaseEpoch l) \<and> optional (\<lambda>q. q \<noteq> []) (wl_quiesceId l) \<and>
      wl_generationWriteState l \<in>
        {Some Generation_preactivated_readonly, Some Generation_sealed, Some Generation_fenced_reconciling} \<and>
      (wl_generationWriteState l = Some Generation_preactivated_readonly \<longrightarrow>
         wl_leaseVersion l = Some 0 \<and> no_lease l \<and> wl_quiesceId l = None \<and>
         (wl_workerIdentityDigest l \<noteq> None \<longrightarrow> wl_processContainmentRef l \<noteq> None)))"
| "launch_phase_ok Launch_preparing l = False"

definition launch_identity_ok :: "worker_launch \<Rightarrow> bool" where
  "launch_identity_ok l \<longleftrightarrow>
     wl_launchId l \<noteq> [] \<and> wl_runId l \<noteq> [] \<and> int_at_least 1 (wl_plannedRunRevision l) \<and>
     wl_supervisorInstanceId l \<noteq> [] \<and> hex64 (wl_spawnNonceDigest l) \<and> hex64 (wl_activationNonceDigest l)"

definition preparing_launch_ok :: "identity_hash \<Rightarrow> worker_launch \<Rightarrow> bool" where
  "preparing_launch_ok idh l \<longleftrightarrow>
     wl_workspaceGenerationRef l = None \<and> wl_containmentPlanRef l = None \<and> wl_sandboxLaunchSpecRef l = None \<and>
     no_identity l \<and> no_lease l \<and> wl_leaseVersion l = None \<and> wl_generationWriteState l = None \<and> wl_quiesceId l = None \<and>
     (case wl_preparation l of None \<Rightarrow> False | Some p \<Rightarrow> preparation_ok idh l p) \<and>
     (if wl_phase l = Launch_retired then
        (case wl_retiredAt l of None \<Rightarrow> False | Some t \<Rightarrow> wl_createdAt l \<le> t) \<and>
        present artifact_ref_ok (wl_retirementEvidenceRef l)
      else \<not> wl_retirementKind l \<and> no_retirement l)"

definition bound_launch_ok :: "identity_hash \<Rightarrow> worker_launch \<Rightarrow> bool" where
  "bound_launch_ok idh l \<longleftrightarrow>
     present artifact_ref_ok (wl_workspaceGenerationRef l) \<and> present artifact_ref_ok (wl_containmentPlanRef l) \<and>
     present artifact_ref_ok (wl_sandboxLaunchSpecRef l) \<and> present (int_at_least 0) (wl_leaseVersion l) \<and>
     wl_generationWriteState l \<in> {Some Generation_preactivated_readonly, Some Generation_active, Some Generation_revoking,
       Some Generation_checkpointing, Some Generation_fenced_reconciling, Some Generation_sealed} \<and>
     (case wl_preparation l of
        None \<Rightarrow> True
      | Some p \<Rightarrow>
          preparation_ok idh l p \<and> wp_controller p \<noteq> None \<and> wp_reservation p \<noteq> None \<and>
          (case wp_generation p of None \<Rightarrow> False | Some (ref, _) \<Rightarrow> wl_workspaceGenerationRef l = Some ref)) \<and>
     \<not> wl_retirementKind l \<and> launch_phase_ok (wl_phase l) l"

definition launch_row_ok :: "identity_hash \<Rightarrow> worker_launch \<Rightarrow> bool" where
  "launch_row_ok idh l \<longleftrightarrow>
     launch_identity_ok l \<and>
     (if wl_phase l = Launch_preparing \<or> (wl_phase l = Launch_retired \<and> wl_retirementKind l)
      then preparing_launch_ok idh l else bound_launch_ok idh l)"

definition decode_worker_launch :: "identity_hash \<Rightarrow> worker_launch \<Rightarrow> worker_launch kernel" where
  "decode_worker_launch idh l = (if launch_row_ok idh l then Inr l else Inl (Storage State_transition_invalid))"

text \<open>The triggers of the table.\<close>

definition launch_transitions :: "(launch_phase \<times> launch_phase) set" where
  "launch_transitions =
     {Launch_preparing} \<times> {Launch_preparing, Launch_reserved, Launch_retired} \<union>
     {Launch_reserved} \<times> {Launch_preactivated, Launch_retired} \<union>
     {Launch_preactivated} \<times> {Launch_activated, Launch_retired} \<union>
     {Launch_activated} \<times> {Launch_activated, Launch_reconciling, Launch_retired} \<union>
     {Launch_reconciling} \<times> {Launch_retired}"

definition worker_launches_validate_insert :: "worker_launch \<Rightarrow> bool" where
  "worker_launches_validate_insert l \<longleftrightarrow> (wl_phase l = Launch_retired) = (wl_retiredAt l \<noteq> None)"

definition worker_launches_validate_update :: "worker_launch \<Rightarrow> worker_launch \<Rightarrow> bool" where
  "worker_launches_validate_update old new \<longleftrightarrow>
     wl_launchId new = wl_launchId old \<and> wl_runId new = wl_runId old \<and>
     (wl_phase old, wl_phase new) \<in> launch_transitions \<and>
     (wl_phase new = Launch_retired) = (wl_retiredAt new \<noteq> None)"

section \<open>Generations\<close>

text \<open>
  The digest beside a wait is its address again.  What was observed at a quarantine is its canonical text.
\<close>

record workspace_generation =
  wg_generationId :: string
  wg_runId :: string
  wg_generationRef :: artifact_ref
  wg_generationIdentityDigest :: string
  wg_rowVersion :: int
  wg_sourceCheckpointId :: string
  wg_sourceWorkspaceStateRef :: artifact_ref
  wg_sourceWorkspaceStateDigest :: string
  wg_lastVerifiedTreeDigest :: string
  wg_updatedAt :: int
  wg_phase :: generation_phase
  wg_snapshotEvidence :: "artifact_ref option \<times> string option"
  wg_activeWorkerLaunchId :: "string option"
  wg_leaseEpoch :: "int option"
  wg_quiesceId :: "string option"
  wg_waitingSubjectRef :: "artifact_ref option"
  wg_waitingSubjectDigest :: "artifact_ref option"
  wg_fencedFromPhase :: "generation_phase option"
  wg_fencedJournalSeq :: "int option"
  wg_quarantineEvidence :: "artifact_ref option \<times> string option"
  wg_observedState :: "string option"
  wg_retirementEvidenceRef :: "artifact_ref option"
  wg_retirementEvidenceDigest :: "string option"

text \<open>\<open>requireEvidencePair\<close>: both or neither.\<close>

definition pair_ok :: "artifact_ref option \<times> string option \<Rightarrow> bool" where
  "pair_ok p \<longleftrightarrow> (fst p = None) = (snd p = None) \<and> optional artifact_ref_ok (fst p) \<and> optional hex64 (snd p)"

definition generation_base_ok :: "workspace_generation \<Rightarrow> bool" where
  "generation_base_ok g \<longleftrightarrow>
     wg_generationId g \<noteq> [] \<and> wg_runId g \<noteq> [] \<and> artifact_ref_ok (wg_generationRef g) \<and>
     hex64 (wg_generationIdentityDigest g) \<and> int_at_least 1 (wg_rowVersion g) \<and> wg_sourceCheckpointId g \<noteq> [] \<and>
     artifact_ref_ok (wg_sourceWorkspaceStateRef g) \<and> hex64 (wg_sourceWorkspaceStateDigest g) \<and>
     hex64 (wg_lastVerifiedTreeDigest g)"

definition no_holder :: "workspace_generation \<Rightarrow> bool" where
  "no_holder g \<longleftrightarrow> wg_activeWorkerLaunchId g = None \<and> wg_leaseEpoch g = None"

definition no_fence :: "workspace_generation \<Rightarrow> bool" where
  "no_fence g \<longleftrightarrow>
     wg_waitingSubjectRef g = None \<and> wg_waitingSubjectDigest g = None \<and> wg_fencedFromPhase g = None \<and>
     wg_fencedJournalSeq g = None"

definition no_end :: "workspace_generation \<Rightarrow> bool" where
  "no_end g \<longleftrightarrow>
     wg_quarantineEvidence g = (None, None) \<and> wg_observedState g = None \<and> wg_retirementEvidenceRef g = None \<and>
     wg_retirementEvidenceDigest g = None"

definition holder_ok :: "workspace_generation \<Rightarrow> bool" where
  "holder_ok g \<longleftrightarrow>
     pair_ok (wg_snapshotEvidence g) \<and> present (\<lambda>l. l \<noteq> []) (wg_activeWorkerLaunchId g) \<and>
     present (int_at_least 1) (wg_leaseEpoch g)"

text \<open>The branches of the phases; each rejects the keys that its list leaves out.\<close>

fun generation_phase_ok :: "generation_phase \<Rightarrow> workspace_generation \<Rightarrow> bool" where
  "generation_phase_ok Generation_materializing g =
     (wg_snapshotEvidence g = (None, None) \<and> no_holder g \<and> wg_quiesceId g = None \<and> no_fence g \<and> no_end g)"
| "generation_phase_ok Generation_preactivated_readonly g =
     (pair_ok (wg_snapshotEvidence g) \<and> no_holder g \<and> wg_quiesceId g = None \<and> no_fence g \<and> no_end g)"
| "generation_phase_ok Generation_sealed g =
     (pair_ok (wg_snapshotEvidence g) \<and> no_holder g \<and> wg_quiesceId g = None \<and> no_fence g \<and> no_end g)"
| "generation_phase_ok Generation_active g = (holder_ok g \<and> wg_quiesceId g = None \<and> no_fence g \<and> no_end g)"
| "generation_phase_ok Generation_revoking g =
     (holder_ok g \<and> present (\<lambda>q. q \<noteq> []) (wg_quiesceId g) \<and> no_fence g \<and> no_end g)"
| "generation_phase_ok Generation_checkpointing g =
     (holder_ok g \<and> present (\<lambda>q. q \<noteq> []) (wg_quiesceId g) \<and> no_fence g \<and> no_end g)"
| "generation_phase_ok Generation_fenced_reconciling g =
     (holder_ok g \<and> no_end g \<and> (wg_waitingSubjectRef g = None) = (wg_waitingSubjectDigest g = None) \<and>
      optional artifact_ref_ok (wg_waitingSubjectRef g) \<and> optional artifact_ref_ok (wg_waitingSubjectDigest g) \<and>
      present (int_at_least 0) (wg_fencedJournalSeq g) \<and>
      wg_fencedFromPhase g \<in> {Some Generation_active, Some Generation_revoking, Some Generation_checkpointing} \<and>
      (wg_fencedFromPhase g = Some Generation_active) = (wg_quiesceId g = None))"
| "generation_phase_ok Generation_quarantined g =
     (wg_snapshotEvidence g = (None, None) \<and> no_holder g \<and> wg_quiesceId g = None \<and> no_fence g \<and>
      pair_ok (wg_quarantineEvidence g) \<and> wg_observedState g \<noteq> None \<and> wg_retirementEvidenceRef g = None \<and>
      wg_retirementEvidenceDigest g = None)"
| "generation_phase_ok Generation_retired g =
     (wg_snapshotEvidence g = (None, None) \<and> no_holder g \<and> wg_quiesceId g = None \<and> no_fence g \<and>
      wg_quarantineEvidence g = (None, None) \<and> wg_observedState g = None \<and>
      pair_ok (wg_retirementEvidenceRef g, wg_retirementEvidenceDigest g))"

definition generation_row_ok :: "workspace_generation \<Rightarrow> bool" where
  "generation_row_ok g \<longleftrightarrow> generation_base_ok g \<and> generation_phase_ok (wg_phase g) g"

definition decode_workspace_generation_state :: "workspace_generation \<Rightarrow> workspace_generation kernel" where
  "decode_workspace_generation_state g =
     (if generation_row_ok g then Inr g else Inl (Storage State_transition_invalid))"

definition generation_transitions :: "(generation_phase \<times> generation_phase) set" where
  "generation_transitions =
     {Generation_materializing} \<times> {Generation_preactivated_readonly, Generation_quarantined} \<union>
     {Generation_preactivated_readonly} \<times> {Generation_active, Generation_quarantined} \<union>
     {Generation_active} \<times> {Generation_revoking, Generation_fenced_reconciling} \<union>
     {Generation_revoking} \<times> {Generation_checkpointing, Generation_fenced_reconciling, Generation_quarantined} \<union>
     {Generation_checkpointing} \<times> {Generation_sealed, Generation_fenced_reconciling, Generation_quarantined} \<union>
     {Generation_fenced_reconciling} \<times> {Generation_fenced_reconciling, Generation_quarantined} \<union>
     {Generation_sealed, Generation_quarantined} \<times> {Generation_retired}"

definition workspace_generations_validate_insert :: "workspace_generation \<Rightarrow> bool" where
  "workspace_generations_validate_insert g \<longleftrightarrow> wg_phase g = Generation_materializing \<and> wg_rowVersion g = 1"

text \<open>A fence that is renewed keeps everything but its version, its time and its wait.\<close>

definition fence_frozen :: "workspace_generation \<Rightarrow> workspace_generation \<Rightarrow> bool" where
  "fence_frozen old new \<longleftrightarrow>
     new = old\<lparr>wg_rowVersion := wg_rowVersion new, wg_updatedAt := wg_updatedAt new,
       wg_waitingSubjectRef := wg_waitingSubjectRef new, wg_waitingSubjectDigest := wg_waitingSubjectDigest new\<rparr> \<and>
     present artifact_ref_ok (wg_waitingSubjectRef new) \<and> wg_waitingSubjectRef new = wg_waitingSubjectDigest new \<and>
     wg_waitingSubjectRef new \<noteq> wg_waitingSubjectRef old \<and> wg_updatedAt old \<le> wg_updatedAt new"

definition workspace_generations_validate_update :: "workspace_generation \<Rightarrow> workspace_generation \<Rightarrow> bool" where
  "workspace_generations_validate_update old new \<longleftrightarrow>
     wg_generationId new = wg_generationId old \<and> wg_runId new = wg_runId old \<and>
     wg_rowVersion new = wg_rowVersion old + 1 \<and>
     (wg_phase old = Generation_fenced_reconciling \<and> wg_phase new = Generation_fenced_reconciling \<longrightarrow> fence_frozen old new) \<and>
     (wg_phase old, wg_phase new) \<in> generation_transitions"

section \<open>Repositories\<close>

text \<open>
  \<open>src/state/repositories/worker-launches.ts\<close> and \<open>workspace-generations.ts\<close>, over the rows of a table in order of
  insertion.  A row is compared with its JSON text, and so with all its fields.  The run that a row names exists:
  whoever inserts one has read it.
\<close>

definition read_required_worker_launch :: "worker_launch list \<Rightarrow> string \<Rightarrow> worker_launch kernel" where
  "read_required_worker_launch ls launchId =
     (case find (\<lambda>l. wl_launchId l = launchId) ls of None \<Rightarrow> Inl (Storage Not_found) | Some l \<Rightarrow> Inr l)"

definition unretired_launches :: "worker_launch list \<Rightarrow> string \<Rightarrow> worker_launch list" where
  "unretired_launches ls runId = filter (\<lambda>l. wl_runId l = runId \<and> wl_retiredAt l = None) ls"

definition insert_worker_launch :: "identity_hash \<Rightarrow> worker_launch list \<Rightarrow> worker_launch \<Rightarrow> worker_launch list kernel" where
  "insert_worker_launch idh ls l =
     and_then (decode_worker_launch idh l) (\<lambda>_.
     if \<not> worker_launches_validate_insert l \<or> wl_launchId l \<in> set (map wl_launchId ls) \<or>
        wl_retiredAt l = None \<and> unretired_launches ls (wl_runId l) \<noteq> []
     then Inl Sql_abort else Inr (ls @ [l]))"

definition update_worker_launch ::
  "identity_hash \<Rightarrow> worker_launch list \<Rightarrow> worker_launch \<Rightarrow> worker_launch \<Rightarrow> worker_launch list kernel" where
  "update_worker_launch idh ls expected new =
     and_then (decode_worker_launch idh new) (\<lambda>_.
     and_then (throw_if (wl_launchId new \<noteq> wl_launchId expected \<or> wl_runId new \<noteq> wl_runId expected)
       (Storage State_transition_invalid)) (\<lambda>_.
     if expected \<notin> set ls then Inl (Storage Lease_fenced)
     else if \<not> worker_launches_validate_update expected new \<or>
        wl_retiredAt new = None \<and> set (unretired_launches ls (wl_runId new)) - {expected} \<noteq> {}
     then Inl Sql_abort else Inr (map (\<lambda>l. if l = expected then new else l) ls)))"

definition read_required_generation :: "workspace_generation list \<Rightarrow> string \<Rightarrow> workspace_generation kernel" where
  "read_required_generation gs generationId =
     (case find (\<lambda>g. wg_generationId g = generationId) gs of None \<Rightarrow> Inl (Storage Not_found) | Some g \<Rightarrow> Inr g)"

definition read_generation_by_ref :: "workspace_generation list \<Rightarrow> artifact_ref option \<Rightarrow> workspace_generation kernel" where
  "read_generation_by_ref gs ref =
     (case filter (\<lambda>g. Some (wg_generationRef g) = ref) gs of [g] \<Rightarrow> Inr g | _ \<Rightarrow> Inl (Storage Recovery_required))"

definition generations_of_run :: "workspace_generation list \<Rightarrow> string \<Rightarrow> workspace_generation list" where
  "generations_of_run gs runId = filter (\<lambda>g. wg_runId g = runId) gs"

definition insert_workspace_generation ::
  "workspace_generation list \<Rightarrow> workspace_generation \<Rightarrow> workspace_generation list kernel" where
  "insert_workspace_generation gs g =
     and_then (decode_workspace_generation_state g) (\<lambda>_.
     if \<not> workspace_generations_validate_insert g \<or> wg_generationId g \<in> set (map wg_generationId gs) \<or>
        wg_generationRef g \<in> set (map wg_generationRef gs)
     then Inl Sql_abort else Inr (gs @ [g]))"

definition update_workspace_generation ::
  "workspace_generation list \<Rightarrow> workspace_generation \<Rightarrow> workspace_generation \<Rightarrow> workspace_generation list kernel" where
  "update_workspace_generation gs expected new =
     and_then (decode_workspace_generation_state new) (\<lambda>_.
     and_then (throw_if (wg_generationId new \<noteq> wg_generationId expected \<or> wg_runId new \<noteq> wg_runId expected \<or>
         wg_rowVersion new \<noteq> wg_rowVersion expected + 1) (Storage State_transition_invalid)) (\<lambda>_.
     if expected \<notin> set gs then Inl (Storage Lease_fenced)
     else if \<not> workspace_generations_validate_update expected new \<or>
        wg_generationRef new \<in> set (map wg_generationRef (filter (\<lambda>g. g \<noteq> expected) gs))
     then Inl Sql_abort else Inr (map (\<lambda>g. if g = expected then new else g) gs)))"

end
