(* ===== verification/Kernel_State.thy ===== *)
theory Kernel_State
  imports Worker_Rows
begin

text \<open>
  The tables of the state store that an invocation or a worker's lease reads and writes: runs, worker launches,
  workspace generations, checkpoints, the journal, run events, the active state owner and the canonical time fence (\<open>src/state/canonical-time.ts\<close>,
  \<open>src/state/rows.ts\<close>, \<open>src/state/state-owner.ts\<close>), and the checks that a run may dispatch
  (\<open>src/state/reducers/invocation.ts\<close>).

  A transaction that throws leaves the tables as they were.  Tables that no definition below reads are left out; what
  other reducers do to those here is unrestricted where it matters.
\<close>

section \<open>Rows\<close>

datatype clock_state = Clock_healthy | Clock_regressed

record time_fence =
  tf_stateOwnerEpoch :: int
  tf_lastAcceptedAt :: int
  tf_observedWallClockAt :: int
  tf_state :: clock_state
  tf_updatedAt :: int

datatype run_status =
    Run_queued | Run_running | Run_waiting | Run_succeeded | Run_completed_unverified | Run_failed | Run_cancelled

datatype run_next_step = Step_agent | Step_tool | Step_verify | Step_finalize | Step_delivery

datatype waiting_reason = Waiting_approval | Waiting_input | Waiting_child | Waiting_reconciliation

record run =
  run_id :: string
  run_status :: run_status
  run_nextStep :: "run_next_step option"
  run_frontierRef :: "artifact_ref option"
  run_waitingReason :: "waiting_reason option"
  run_waitingOnRef :: "artifact_ref option"
  run_revision :: int
  run_latestCheckpointId :: string
  run_leaseEpoch :: int
  run_activeWorkerLaunchId :: "string option"
  run_budgetReserved :: budget_usage
  run_budgetConsumed :: budget_usage
  run_resultRef :: "artifact_ref option"
  run_terminalReason :: "string option"
  run_terminalDetailRef :: "artifact_ref option"
  run_stopIntentRef :: "artifact_ref option"
  run_cancelRequested :: bool
  run_deadlineAt :: int
  run_updatedAt :: int
  run_ceilings :: budget_usage \<comment> \<open>from the specification at \<open>specRef\<close>, which never changes\<close>

record checkpoint =
  ck_id :: string
  ck_runId :: string
  ck_basedOnRunRevision :: int
  ck_runItemSeq :: int
  ck_contextManifestRef :: artifact_ref
  ck_journalSeq :: int
  ck_workspaceStateRef :: artifact_ref
  ck_createdAt :: int
  ck_reason :: string

record run_event =
  ev_eventSeq :: int
  ev_runRevision :: int
  ev_status :: run_status
  ev_nextStep :: "run_next_step option"
  ev_latestRunItemSeq :: int
  ev_frontierRef :: "artifact_ref option"
  ev_waitingReason :: "waiting_reason option"
  ev_waitingOnRef :: "artifact_ref option"
  ev_resultRef :: "artifact_ref option"
  ev_terminalReason :: "string option"
  ev_terminalDetailRef :: "artifact_ref option"
  ev_occurredAt :: int

text \<open>The digests that identify an owner are one string.\<close>

record state_owner =
  so_ownerEpoch :: int
  so_supervisorInstanceId :: string
  so_identity :: string

record kernel_db =
  db_lockHeld :: bool
  db_owner :: "state_owner option"
  db_fence :: "time_fence option"
  db_runs :: "string \<Rightarrow> run option"
  db_launches :: "worker_launch list"
  db_generations :: "workspace_generation list"
  db_checkpoints :: "checkpoint list"
  db_journal :: "string \<Rightarrow> journal_entry list" \<comment> \<open>the rows of a run\<close>
  db_events :: "string \<Rightarrow> run_event list"
  db_latestItem :: "string \<Rightarrow> int"
  db_artifacts :: "artifact_ref list" \<comment> \<open>what the artifact store can read\<close>

section \<open>The canonical time fence\<close>

datatype time_fence_advance = Fence_healthy | Fence_clock_regressed | Fence_still_regressed

definition read_time_fence :: "kernel_db \<Rightarrow> time_fence option kernel" where
  "read_time_fence w =
     (case db_fence w of
        None \<Rightarrow> Inr None
      | Some f \<Rightarrow>
          if \<not> int_at_least 1 (tf_stateOwnerEpoch f) \<or> tf_updatedAt f \<noteq> tf_lastAcceptedAt f \<or>
             (tf_state f = Clock_healthy \<and> tf_observedWallClockAt f \<noteq> tf_lastAcceptedAt f)
          then Inl (Storage Recovery_required) else Inr (Some f))"

definition fence_at :: "int \<Rightarrow> int \<Rightarrow> time_fence" where
  "fence_at epoch now =
     \<lparr>tf_stateOwnerEpoch = epoch, tf_lastAcceptedAt = now, tf_observedWallClockAt = now, tf_state = Clock_healthy,
      tf_updatedAt = now\<rparr>"

definition persist_regressed_fence :: "kernel_db \<Rightarrow> time_fence \<Rightarrow> int \<Rightarrow> kernel_db" where
  "persist_regressed_fence w f observed =
     w\<lparr>db_fence := Some (f\<lparr>tf_observedWallClockAt := observed, tf_state := Clock_regressed\<rparr>)\<rparr>"

definition advance_time_fence :: "kernel_db \<Rightarrow> int \<Rightarrow> int \<Rightarrow> (time_fence_advance \<times> kernel_db) kernel" where
  "advance_time_fence w epoch observed =
     and_then (read_time_fence w) (\<lambda>current.
       case current of
         None \<Rightarrow> Inl (Storage Recovery_required)
       | Some f \<Rightarrow>
           if tf_stateOwnerEpoch f \<noteq> epoch then Inl (Storage Recovery_required)
           else if observed < tf_lastAcceptedAt f then Inr (Fence_clock_regressed, persist_regressed_fence w f observed)
           else if tf_state f = Clock_regressed then Inr (Fence_still_regressed, w)
           else Inr (Fence_healthy, w\<lparr>db_fence := Some (fence_at epoch observed)\<rparr>))"

definition transfer_time_fence_owner :: "kernel_db \<Rightarrow> int \<Rightarrow> int \<Rightarrow> int \<Rightarrow> (time_fence_advance \<times> kernel_db) kernel" where
  "transfer_time_fence_owner w prior new observed =
     (if \<not> safe_integer new \<or> new \<noteq> prior + 1 then Inl (Storage Recovery_required)
      else and_then (read_time_fence w) (\<lambda>current.
        case current of
          None \<Rightarrow> Inl (Storage Recovery_required)
        | Some f \<Rightarrow>
            if tf_stateOwnerEpoch f \<noteq> prior then Inl (Storage Recovery_required)
            else
              (let regressed = observed < tf_lastAcceptedAt f;
                   st = (if regressed then Clock_regressed else tf_state f);
                   f' = \<lparr>tf_stateOwnerEpoch = new,
                         tf_lastAcceptedAt = (if st = Clock_healthy then observed else tf_lastAcceptedAt f),
                         tf_observedWallClockAt = observed, tf_state = st,
                         tf_updatedAt = (if st = Clock_healthy then observed else tf_updatedAt f)\<rparr>
               in Inr (if regressed then Fence_clock_regressed
                       else if st = Clock_healthy then Fence_healthy else Fence_still_regressed,
                     w\<lparr>db_fence := Some f'\<rparr>))))"

definition recover_regressed_time_fence :: "kernel_db \<Rightarrow> int \<Rightarrow> int \<Rightarrow> (time_fence_advance \<times> kernel_db) kernel" where
  "recover_regressed_time_fence w epoch observed =
     and_then (read_time_fence w) (\<lambda>current.
       case current of
         None \<Rightarrow> Inl (Storage Recovery_required)
       | Some f \<Rightarrow>
           if tf_stateOwnerEpoch f \<noteq> epoch then Inl (Storage Recovery_required)
           else if tf_state f = Clock_healthy then Inr (Fence_healthy, w)
           else if observed < tf_lastAcceptedAt f
             then Inr (Fence_still_regressed, persist_regressed_fence w f observed)
           else Inr (Fence_healthy, w\<lparr>db_fence := Some (fence_at epoch observed)\<rparr>))"

section \<open>Owner, runs and events\<close>

definition assert_active_state_owner :: "kernel_db \<Rightarrow> state_owner \<Rightarrow> unit kernel" where
  "assert_active_state_owner w expected =
     and_then (throw_if (\<not> db_lockHeld w \<or> db_owner w \<noteq> Some expected) (Storage Recovery_required)) (\<lambda>_.
     and_then (read_time_fence w) (\<lambda>fence.
       throw_if (case fence of None \<Rightarrow> True | Some f \<Rightarrow> tf_stateOwnerEpoch f \<noteq> so_ownerEpoch expected)
         (Storage Recovery_required)))"

definition read_run :: "kernel_db \<Rightarrow> string \<Rightarrow> run kernel" where
  "read_run w runId = (case db_runs w runId of None \<Rightarrow> Inl (Storage Not_found) | Some r \<Rightarrow> Inr r)"

definition read_checkpoint :: "kernel_db \<Rightarrow> string \<Rightarrow> checkpoint kernel" where
  "read_checkpoint w checkpointId =
     (case find (\<lambda>c. ck_id c = checkpointId) (db_checkpoints w) of None \<Rightarrow> Inl (Storage Not_found) | Some c \<Rightarrow> Inr c)"

definition next_run_event_sequence :: "kernel_db \<Rightarrow> string \<Rightarrow> int kernel" where
  "next_run_event_sequence w runId =
     (let n = max_of (map ev_eventSeq (db_events w runId)) 0 + 1 in
      if \<not> safe_integer n \<or> n < 1 then Inl (Storage Recovery_required) else Inr n)"

definition append_run_state_event :: "kernel_db \<Rightarrow> run \<Rightarrow> int \<Rightarrow> kernel_db kernel" where
  "append_run_state_event w r occurredAt =
     and_then (next_run_event_sequence w (run_id r)) (\<lambda>n.
     Inr (w\<lparr>db_events := (db_events w)(run_id r := db_events w (run_id r) @
       [\<lparr>ev_eventSeq = n, ev_runRevision = run_revision r, ev_status = run_status r, ev_nextStep = run_nextStep r,
         ev_latestRunItemSeq = db_latestItem w (run_id r), ev_frontierRef = run_frontierRef r,
         ev_waitingReason = run_waitingReason r, ev_waitingOnRef = run_waitingOnRef r, ev_resultRef = run_resultRef r,
         ev_terminalReason = run_terminalReason r, ev_terminalDetailRef = run_terminalDetailRef r,
         ev_occurredAt = occurredAt\<rparr>])\<rparr>))"

section \<open>Durations\<close>

text \<open>\<open>addCanonicalDuration\<close> on the milliseconds of a canonical time.\<close>

definition last_canonical_ms :: int where "last_canonical_ms = 253402300799999"

definition add_duration :: "int \<Rightarrow> int \<Rightarrow> int kernel" where
  "add_duration start d =
     (if \<not> safe_integer d \<or> d \<le> 0 \<or> \<not> safe_integer (start + d) \<or> start + d < 0 \<or> last_canonical_ms < start + d
      then Inl Type_error else Inr (start + d))"

section \<open>Reading artifacts\<close>

definition read_bytes :: "kernel_db \<Rightarrow> artifact_ref \<Rightarrow> unit kernel" where
  "read_bytes w r = throw_if (\<not> artifact_ref_ok r \<or> r \<notin> set (db_artifacts w)) (Storage Artifact_mismatch)"

fun read_all :: "kernel_db \<Rightarrow> artifact_ref option list \<Rightarrow> unit kernel" where
  "read_all w [] = Inr ()"
| "read_all w (None # rs) = read_all w rs"
| "read_all w (Some r # rs) = and_then (read_bytes w r) (\<lambda>_. read_all w rs)"

section \<open>A live dispatch lease\<close>

definition assert_live_dispatch_state ::
  "kernel_db \<Rightarrow> state_owner \<Rightarrow> string \<Rightarrow> int \<Rightarrow> int \<Rightarrow> int \<Rightarrow> (run \<times> worker_launch \<times> workspace_generation) kernel" where
  "assert_live_dispatch_state w owner runId expectedRunRevision expectedLeaseEpoch now =
     and_then (read_run w runId) (\<lambda>r.
     and_then (throw_if (run_revision r \<noteq> expectedRunRevision) (Storage Revision_conflict)) (\<lambda>_.
     and_then (throw_if (run_status r \<noteq> Run_running \<or> run_activeWorkerLaunchId r = None \<or>
         run_leaseEpoch r \<noteq> expectedLeaseEpoch \<or> run_cancelRequested r \<or> run_stopIntentRef r \<noteq> None)
         (Storage Lease_fenced)) (\<lambda>_.
     and_then (throw_if (run_deadlineAt r \<le> now) (Storage Lease_fenced)) (\<lambda>_.
     and_then (read_required_worker_launch (db_launches w) (the (run_activeWorkerLaunchId r))) (\<lambda>l.
     and_then (throw_if (wl_phase l \<noteq> Launch_activated \<or> wl_runId l \<noteq> run_id r \<or>
         wl_supervisorInstanceId l \<noteq> so_supervisorInstanceId owner \<or> wl_leaseEpoch l \<noteq> Some (run_leaseEpoch r) \<or>
         wl_generationWriteState l \<noteq> Some Generation_active \<or>
         (case wl_leaseExpiresAt l of None \<Rightarrow> True | Some t \<Rightarrow> t \<le> now)) (Storage Lease_fenced)) (\<lambda>_.
     and_then (read_generation_by_ref (db_generations w) (wl_workspaceGenerationRef l)) (\<lambda>g.
     and_then (throw_if (wg_phase g \<noteq> Generation_active \<or> wg_runId g \<noteq> run_id r \<or>
         wg_activeWorkerLaunchId g \<noteq> Some (wl_launchId l) \<or> wg_leaseEpoch g \<noteq> Some (run_leaseEpoch r))
         (Storage Lease_fenced)) (\<lambda>_.
     Inr (r, l, g)))))))))"

section \<open>Transactions\<close>

text \<open>
  The body of a transaction returns \<open>None\<close> when the clock went back: the fence is committed and nothing else, and
  \<open>requireHealthyFence\<close> throws afterwards.
\<close>

type_synonym 'a state_outcome = "'a kernel \<times> kernel_db"

definition run_transaction :: "('a option \<times> kernel_db) kernel \<Rightarrow> kernel_db \<Rightarrow> 'a state_outcome" where
  "run_transaction body w =
     (case body of
        Inl e \<Rightarrow> (Inl e, w)
      | Inr (None, w') \<Rightarrow> (Inl (Storage Recovery_required), w')
      | Inr (Some x, w') \<Rightarrow> (Inr x, w'))"

text \<open>\<open>fenceOutcome = advanceTimeFence(...); if (fenceOutcome !== 'healthy') return\<close>\<close>

definition behind_fence ::
  "kernel_db \<Rightarrow> int \<Rightarrow> int \<Rightarrow> (kernel_db \<Rightarrow> ('a \<times> kernel_db) kernel) \<Rightarrow> ('a option \<times> kernel_db) kernel" where
  "behind_fence w epoch now body =
     and_then (advance_time_fence w epoch now) (\<lambda>(outcome, w').
       if outcome \<noteq> Fence_healthy then Inr (None, w')
       else and_then (body w') (\<lambda>(x, w''). Inr (Some x, w'')))"

section \<open>Facts\<close>

lemma advance_cases:
  assumes "advance_time_fence w epoch now = Inr (outcome, w')"
  obtains f where "db_fence w = Some f" "now < tf_lastAcceptedAt f" "outcome = Fence_clock_regressed"
      "w' = persist_regressed_fence w f now"
    | f where "db_fence w = Some f" "outcome = Fence_still_regressed" "w' = w"
    | f where "db_fence w = Some f" "tf_lastAcceptedAt f \<le> now" "outcome = Fence_healthy"
      "w' = w\<lparr>db_fence := Some (fence_at epoch now)\<rparr>"
proof -
  from assms obtain f where f: "db_fence w = Some f" "read_time_fence w = Inr (Some f)"
    and a: "(if tf_stateOwnerEpoch f \<noteq> epoch then Inl (Storage Recovery_required)
       else if now < tf_lastAcceptedAt f then Inr (Fence_clock_regressed, persist_regressed_fence w f now)
       else if tf_state f = Clock_regressed then Inr (Fence_still_regressed, w)
       else Inr (Fence_healthy, w\<lparr>db_fence := Some (fence_at epoch now)\<rparr>)) = Inr (outcome, w')"
    unfolding advance_time_fence_def and_then_Inr
    by (cases "db_fence w") (auto simp: read_time_fence_def split: if_split_asm)
  show thesis
  proof (cases "now < tf_lastAcceptedAt f")
    case True
    with a f that(1) show thesis by (simp split: if_split_asm)
  next
    case False
    with a f that(2,3) show thesis by (simp split: if_split_asm)
  qed
qed

lemma advance_healthy:
  assumes "advance_time_fence w epoch now = Inr (Fence_healthy, w')"
  shows "\<exists>f. db_fence w = Some f \<and> tf_lastAcceptedAt f \<le> now \<and> w' = w\<lparr>db_fence := Some (fence_at epoch now)\<rparr>"
  using assms by (cases rule: advance_cases) simp_all

lemma run_transaction_Inr:
  "run_transaction body w = (Inr x, w') \<longleftrightarrow> body = Inr (Some x, w')"
  by (auto simp: run_transaction_def split: sum.splits option.splits prod.splits)

lemma behind_fence_Some:
  "behind_fence w epoch now body = Inr (Some x, w') \<longleftrightarrow>
     (\<exists>w1. advance_time_fence w epoch now = Inr (Fence_healthy, w1) \<and> body w1 = Inr (x, w'))"
  by (auto simp: behind_fence_def and_then_Inr split: if_splits)

text \<open>What the fence does to the tables when it does not let a transaction through.\<close>

lemma behind_fence_None:
  assumes "behind_fence w epoch now body = Inr (None, w')"
  shows "w' = w \<or> (\<exists>f. db_fence w = Some f \<and> now < tf_lastAcceptedAt f \<and> w' = persist_regressed_fence w f now)"
proof -
  from assms obtain outcome where a: "advance_time_fence w epoch now = Inr (outcome, w')" "outcome \<noteq> Fence_healthy"
    by (auto simp: behind_fence_def and_then_Inr split: if_split_asm)
  from a(1) show ?thesis by (cases rule: advance_cases) (use a(2) in auto)
qed

lemma live_dispatch_run:
  "assert_live_dispatch_state w owner runId revision lease now = Inr (r, l, g) \<Longrightarrow>
     db_runs w runId = Some r \<and> run_revision r = revision \<and> run_leaseEpoch r = lease \<and> run_status r = Run_running \<and>
     now < run_deadlineAt r \<and> \<not> run_cancelRequested r \<and> run_stopIntentRef r = None"
  by (auto simp: assert_live_dispatch_state_def and_then_Inr read_run_def split: option.splits)

end
