(* ===== verification/Invocation_Ledger.thy ===== *)
theory Invocation_Ledger
  imports Kernel_State
begin

text \<open>
  The reducer of invocations, \<open>src/state/reducers/invocation.ts\<close>: preparing an attempt reserves budget, claiming it
  is what permits its dispatch, settling it turns the reservation into consumption, and an unknown outcome may be
  abandoned or rolled back later.

  The clock is an argument of every operation.  What a typed caller adds is an argument too: the checks of the model
  claim and of the typed reducers only read (\<open>validate\<close>), and their continuations write other tables
  (\<open>commit\<close>).  A settlement is staged from a snapshot and committed later; between the two its artifact is
  published, and anything may happen to the tables.  The metadata table of artifacts is left out, and the snapshot
  check of a retained completion counts as one of its continuation's.
\<close>

section \<open>Counters and rows of a run\<close>

text \<open>\<open>UPDATE runs SET ... revision = revision + 1 WHERE id = ? AND revision = ? AND budget... = ?\<close>\<close>

definition update_run_budgets ::
  "kernel_db \<Rightarrow> run \<Rightarrow> budget_usage \<Rightarrow> budget_usage \<Rightarrow> int \<Rightarrow> kernel_fault \<Rightarrow> kernel_db kernel" where
  "update_run_budgets w r reserved consumed now fault =
     (case db_runs w (run_id r) of
        None \<Rightarrow> Inl fault
      | Some r' \<Rightarrow>
          if run_revision r' \<noteq> run_revision r \<or> run_budgetReserved r' \<noteq> run_budgetReserved r \<or>
             run_budgetConsumed r' \<noteq> run_budgetConsumed r
          then Inl fault
          else Inr (w\<lparr>db_runs := (db_runs w)(run_id r \<mapsto>
                 r'\<lparr>run_budgetReserved := reserved, run_budgetConsumed := consumed, run_revision := run_revision r' + 1,
                    run_updatedAt := now\<rparr>)\<rparr>))"

definition append_journal :: "kernel_db \<Rightarrow> journal_entry \<Rightarrow> kernel_db kernel" where
  "append_journal w e =
     and_then (append_invocation_journal_entry (db_journal w (je_runId e)) e) (\<lambda>js.
     Inr (w\<lparr>db_journal := (db_journal w)(je_runId e := js)\<rparr>))"

section \<open>Preparing an attempt\<close>

definition previous_attempt_allows_retry :: "journal_entry list \<Rightarrow> bool" where
  "previous_attempt_allows_retry entries =
     (if entries = [] then False
      else (let l = last entries in
        if je_phase l = Failed then je_budgetSettlementRef l \<noteq> None
        else if je_phase l = Unknown then
          je_budgetSettlementRef l \<noteq> None \<and> je_replayClass l \<in> {Replay_retry, Replay_workspace_rollback_retry}
        else False))"

record prepare_invocation_input =
  pi_runId :: string
  pi_expectedRunRevision :: int
  pi_leaseEpoch :: int
  pi_opId :: string
  pi_opKind :: op_kind
  pi_target :: string
  pi_requestRef :: artifact_ref
  pi_replayClass :: replay_class
  pi_idempotencyKey :: "string option"
  pi_grantRef :: "artifact_ref option"
  pi_reservation :: budget_usage

record typed_prepare =
  tp_validate :: "kernel_db \<Rightarrow> run \<Rightarrow> int \<Rightarrow> int \<Rightarrow> unit kernel"
  tp_commit :: "kernel_db \<Rightarrow> run \<Rightarrow> journal_entry \<Rightarrow> kernel_db kernel"

definition prepared_entry :: "prepare_invocation_input \<Rightarrow> int \<Rightarrow> int \<Rightarrow> int \<Rightarrow> journal_entry" where
  "prepared_entry i n attempt now =
     \<lparr>je_seq = n, je_runId = pi_runId i, je_opId = pi_opId i, je_opKind = pi_opKind i, je_attempt = attempt,
      je_leaseEpoch = pi_leaseEpoch i, je_phase = Prepared, je_target = pi_target i, je_requestRef = pi_requestRef i,
      je_sandboxLaunchSpecRef = None, je_replayClass = pi_replayClass i, je_idempotencyKey = pi_idempotencyKey i,
      je_grantRef = pi_grantRef i, je_dispatchId = None, je_supervisorInstanceId = None, je_stateOwnerEpoch = None,
      je_brokerFenceTokenDigest = None, je_resultRef = None, je_receiptRef = None, je_errorRef = None,
      je_evidenceRef = None, je_evidenceDigest = None, je_attestationRef = None, je_budgetDelta = pi_reservation i,
      je_budgetSettlementRef = None, je_timestamp = now\<rparr>"

definition prepare_row ::
  "kernel_db \<Rightarrow> state_owner \<Rightarrow> prepare_invocation_input \<Rightarrow> budget_usage \<Rightarrow> typed_prepare option \<Rightarrow> int \<Rightarrow>
     ((journal_entry \<times> run) \<times> kernel_db) kernel" where
  "prepare_row w owner i ceilings typed now =
     and_then (assert_live_dispatch_state w owner (pi_runId i) (pi_expectedRunRevision i) (pi_leaseEpoch i) now)
       (\<lambda>(r, _, _).
     let js = db_journal w (pi_runId i);
         highest = read_highest_prepared_attempt js (pi_opId i);
         attempt = (case highest of None \<Rightarrow> 0 | Some h \<Rightarrow> je_attempt h + 1) in
     and_then (case typed of None \<Rightarrow> Inr () | Some t \<Rightarrow> tp_validate t w r attempt now) (\<lambda>_.
     and_then (case highest of
         None \<Rightarrow> Inr ()
       | Some h \<Rightarrow> throw_if (\<not> previous_attempt_allows_retry (read_invocation_attempt js (pi_opId i) (je_attempt h)))
           (Storage State_transition_invalid)) (\<lambda>_.
     and_then (assert_budget_within (run_budgetConsumed r) (run_budgetReserved r) (pi_reservation i) ceilings) (\<lambda>_.
     and_then (add_budget (run_budgetReserved r) (pi_reservation i)) (\<lambda>nextReserved.
     and_then (next_journal_sequence js) (\<lambda>n.
     let entry = prepared_entry i n attempt now in
     and_then (append_journal w entry) (\<lambda>w1.
     and_then (update_run_budgets w1 r nextReserved (run_budgetConsumed r) now (Storage Revision_conflict)) (\<lambda>w2.
     and_then (case typed of None \<Rightarrow> Inr w2 | Some t \<Rightarrow> tp_commit t w2 r entry) (\<lambda>w3.
     and_then (read_run w3 (run_id r)) (\<lambda>updatedRun.
     and_then (append_run_state_event w3 updatedRun now) (\<lambda>w4.
     Inr ((entry, updatedRun), w4))))))))))))"

definition prepare_validated_invocation ::
  "kernel_db \<Rightarrow> state_owner \<Rightarrow> prepare_invocation_input \<Rightarrow> typed_prepare option \<Rightarrow> int \<Rightarrow> (journal_entry \<times> run) state_outcome" where
  "prepare_validated_invocation w owner i typed now =
     (case and_then (decode_budget_usage (pi_reservation i)) (\<lambda>_.
           and_then (throw_if (is_zero_budget (pi_reservation i)) (Storage Invalid_request)) (\<lambda>_.
           and_then (read_all w [Some (pi_requestRef i), pi_grantRef i]) (\<lambda>_.
           read_run w (pi_runId i)))) of
        Inl e \<Rightarrow> (Inl e, w)
      | Inr initialRun \<Rightarrow>
          run_transaction (and_then (assert_active_state_owner w owner) (\<lambda>_.
            behind_fence w (so_ownerEpoch owner) now (\<lambda>w'. prepare_row w' owner i (run_ceilings initialRun) typed now))) w)"

text \<open>\<open>prepareInvocation\<close>, the entry without a typed caller.\<close>

definition prepare_invocation ::
  "bool \<Rightarrow> kernel_db \<Rightarrow> state_owner \<Rightarrow> prepare_invocation_input \<Rightarrow> int \<Rightarrow> (journal_entry \<times> run) state_outcome" where
  "prepare_invocation typedAssembly w owner i now =
     (if pi_opKind i = Op_model then (Inl (Storage Invalid_request), w)
      else case read_run w (pi_runId i) of
        Inl e \<Rightarrow> (Inl e, w)
      | Inr r \<Rightarrow>
          if typedAssembly then (Inl (Storage Invalid_request), w)
          else prepare_validated_invocation w owner i None now)"

section \<open>Claiming the dispatch\<close>

record claim_input =
  ci_runId :: string
  ci_expectedRunRevision :: int
  ci_leaseEpoch :: int
  ci_opId :: string
  ci_attempt :: int
  ci_dispatchId :: string
  ci_sandboxLaunchSpecRef :: "artifact_ref option"
  ci_brokerFenceTokenDigest :: "string option"

text \<open>
  What a model claim and a typed caller check: reading the cut of a model claim, whether the cut is still current, the
  grant with the caller's own check, and the retry policy with the claimed row.
\<close>

record claim_validate =
  cv_readCut :: "kernel_db \<Rightarrow> unit kernel"
  cv_current :: "kernel_db \<Rightarrow> run \<Rightarrow> journal_entry \<Rightarrow> unit kernel"
  cv_validate :: "kernel_db \<Rightarrow> run \<Rightarrow> journal_entry \<Rightarrow> int \<Rightarrow> unit kernel"
  cv_retry :: "kernel_db \<Rightarrow> run \<Rightarrow> journal_entry \<Rightarrow> int \<Rightarrow> unit kernel"

definition no_claim_checks :: claim_validate where
  "no_claim_checks =
     \<lparr>cv_readCut = (\<lambda>_. Inr ()), cv_current = (\<lambda>_ _ _. Inr ()), cv_validate = (\<lambda>_ _ _ _. Inr ()),
      cv_retry = (\<lambda>_ _ _ _. Inr ())\<rparr>"

definition claimed_entry :: "journal_entry \<Rightarrow> state_owner \<Rightarrow> claim_input \<Rightarrow> int \<Rightarrow> int \<Rightarrow> journal_entry" where
  "claimed_entry highest owner i n now =
     highest\<lparr>je_seq := n, je_phase := Dispatch_claimed, je_dispatchId := Some (ci_dispatchId i),
       je_supervisorInstanceId := Some (so_supervisorInstanceId owner), je_stateOwnerEpoch := Some (so_ownerEpoch owner),
       je_budgetDelta := zero_budget, je_timestamp := now,
       je_sandboxLaunchSpecRef :=
         (if ci_sandboxLaunchSpecRef i \<noteq> None then ci_sandboxLaunchSpecRef i else je_sandboxLaunchSpecRef highest),
       je_brokerFenceTokenDigest :=
         (if ci_brokerFenceTokenDigest i \<noteq> None then ci_brokerFenceTokenDigest i else je_brokerFenceTokenDigest highest)\<rparr>"

definition claim_row ::
  "kernel_db \<Rightarrow> state_owner \<Rightarrow> claim_input \<Rightarrow> claim_validate \<Rightarrow> int \<Rightarrow> (journal_entry \<times> kernel_db) kernel" where
  "claim_row w owner i validate now =
     and_then (assert_live_dispatch_state w owner (ci_runId i) (ci_expectedRunRevision i) (ci_leaseEpoch i) now)
       (\<lambda>(r, _, _).
     let js = db_journal w (ci_runId i) in
     case read_highest_prepared_attempt js (ci_opId i) of
       None \<Rightarrow> Inl (Storage State_transition_invalid)
     | Some highest \<Rightarrow>
         if je_attempt highest \<noteq> ci_attempt i \<or> je_leaseEpoch highest \<noteq> ci_leaseEpoch i
         then Inl (Storage State_transition_invalid)
         else and_then (cv_current validate w r highest) (\<lambda>_.
           and_then (throw_if (map je_phase (read_invocation_attempt js (ci_opId i) (ci_attempt i)) \<noteq> [Prepared])
             (Storage State_transition_invalid)) (\<lambda>_.
           and_then (cv_validate validate w r highest now) (\<lambda>_.
           and_then (next_journal_sequence js) (\<lambda>n.
           let claimed = claimed_entry highest owner i n now in
           and_then (cv_retry validate w r claimed now) (\<lambda>_.
           and_then (append_journal w claimed) (\<lambda>w1. Inr (claimed, w1))))))))"

definition claim_validated_invocation ::
  "kernel_db \<Rightarrow> state_owner \<Rightarrow> claim_input \<Rightarrow> claim_validate \<Rightarrow> int \<Rightarrow> journal_entry state_outcome" where
  "claim_validated_invocation w owner i validate now =
     (case and_then (cv_readCut validate w) (\<lambda>_. and_then (read_all w [ci_sandboxLaunchSpecRef i]) (\<lambda>_.
           throw_if (ci_sandboxLaunchSpecRef i \<noteq> None \<and> ci_brokerFenceTokenDigest i \<noteq> None) (Storage Invalid_request))) of
        Inl e \<Rightarrow> (Inl e, w)
      | Inr _ \<Rightarrow>
          run_transaction (and_then (assert_active_state_owner w owner) (\<lambda>_.
            behind_fence w (so_ownerEpoch owner) now (\<lambda>w'. claim_row w' owner i validate now))) w)"

definition claim_invocation_dispatch ::
  "bool \<Rightarrow> kernel_db \<Rightarrow> state_owner \<Rightarrow> claim_input \<Rightarrow> claim_validate \<Rightarrow> int \<Rightarrow> journal_entry state_outcome" where
  "claim_invocation_dispatch typedAssembly w owner i validate now =
     (case read_highest_prepared_attempt (db_journal w (ci_runId i)) (ci_opId i) of
        Some prepared \<Rightarrow>
          if je_opKind prepared \<in> {Op_tool, Op_mcp} \<and> db_runs w (ci_runId i) = None then (Inl (Storage Not_found), w)
          else if je_opKind prepared \<in> {Op_tool, Op_mcp} \<and> typedAssembly then (Inl (Storage Invalid_request), w)
          else claim_validated_invocation w owner i validate now
      | None \<Rightarrow> claim_validated_invocation w owner i validate now)"

section \<open>Settling an attempt\<close>

datatype settlement_kind =
    Settle_completed "artifact_ref option" "artifact_ref option" budget_usage \<comment> \<open>result, receipt, consumed\<close>
  | Settle_failed artifact_ref "artifact_ref option" "string option" budget_usage bool
      \<comment> \<open>error, evidence with its digest, consumed, whether a claim is required\<close>
  | Settle_unknown artifact_ref string \<comment> \<open>evidence with its digest\<close>

fun settlement_phase :: "settlement_kind \<Rightarrow> invocation_phase" where
  "settlement_phase (Settle_completed _ _ _) = Completed"
| "settlement_phase (Settle_failed _ _ _ _ _) = Failed"
| "settlement_phase (Settle_unknown _ _) = Unknown"

fun settlement_refs :: "settlement_kind \<Rightarrow> artifact_ref option list" where
  "settlement_refs (Settle_completed result receipt _) = [result, receipt]"
| "settlement_refs (Settle_failed err evidence _ _ _) = [Some err, evidence]"
| "settlement_refs (Settle_unknown evidence _) = [Some evidence]"

fun requires_claim :: "settlement_kind \<Rightarrow> bool" where
  "requires_claim (Settle_failed _ _ _ _ c) = c"
| "requires_claim _ = True"

record settle_input =
  se_runId :: string
  se_opId :: string
  se_attempt :: int
  se_expectedRunRevision :: int

text \<open>What a continuation plans before the commit.\<close>

record continuation_plan =
  cp_unknownEvidence :: "(artifact_ref \<times> string) option"
  cp_validate :: "kernel_db \<Rightarrow> run \<Rightarrow> int \<Rightarrow> unit kernel"
  cp_commit :: "(kernel_db \<Rightarrow> run \<Rightarrow> journal_entry \<Rightarrow> int \<Rightarrow> kernel_db kernel) option"

type_synonym settlement_continuation = "kernel_db \<Rightarrow> run \<Rightarrow> journal_entry \<Rightarrow> budget_settlement \<Rightarrow> continuation_plan kernel"

record staged_settlement =
  sg_input :: settle_input
  sg_terminal :: settlement_kind
  sg_prepared :: journal_entry
  sg_claim :: "journal_entry option"
  sg_run :: run
  sg_settlement :: budget_settlement
  sg_plan :: "continuation_plan option"

definition settled_phases :: "invocation_phase set" where
  "settled_phases = {Completed, Failed, Unknown, Abandoned}"

fun consumed_by :: "settlement_kind \<Rightarrow> journal_entry \<Rightarrow> budget_usage kernel" where
  "consumed_by (Settle_unknown _ _) prepared = Inr (je_budgetDelta prepared)"
| "consumed_by (Settle_completed _ _ c) prepared =
     (if je_opKind prepared = Op_model then Inr (je_budgetDelta prepared) else decode_budget_usage c)"
| "consumed_by (Settle_failed _ _ _ c _) prepared = decode_budget_usage c"

definition settlement_of ::
  "settle_input \<Rightarrow> settlement_kind \<Rightarrow> run \<Rightarrow> journal_entry \<Rightarrow> int \<Rightarrow> int \<Rightarrow> budget_usage \<Rightarrow> budget_usage \<Rightarrow> budget_usage \<Rightarrow>
     budget_settlement" where
  "settlement_of i terminal r prepared n settledAt consumed reservedAfter consumedAfter =
     \<lparr>bs_runId = se_runId i, bs_opId = se_opId i, bs_attempt = se_attempt i, bs_preparedJournalSeq = je_seq prepared,
      bs_terminalJournalSeq = n, bs_terminalPhase = settlement_phase terminal, bs_reserved = je_budgetDelta prepared,
      bs_consumed = consumed, bs_released = je_budgetDelta prepared, bs_budgetConsumedBefore = run_budgetConsumed r,
      bs_budgetConsumedAfter = consumedAfter, bs_budgetReservedBefore = run_budgetReserved r,
      bs_budgetReservedAfter = reservedAfter, bs_settledAt = settledAt\<rparr>"

text \<open>
  The part of \<open>settleInitialInvocation\<close> before the transaction, one round of its loop.  First the snapshot: the run,
  the rows of the attempt, what is consumed and the counters afterwards.  \<open>typedAssembly\<close> says whether the assembly of
  the run is typed, \<open>continued\<close> whether there is a continuation.
\<close>

record settlement_cut =
  ss_run :: run
  ss_prepared :: journal_entry
  ss_claim :: "journal_entry option"
  ss_consumed :: budget_usage
  ss_reservedAfter :: budget_usage
  ss_consumedAfter :: budget_usage

definition snapshot_guards :: "bool \<Rightarrow> bool \<Rightarrow> settlement_kind \<Rightarrow> journal_entry list \<Rightarrow> journal_entry \<Rightarrow> journal_entry option \<Rightarrow> unit kernel" where
  "snapshot_guards typedAssembly continued terminal entries prepared claim =
     (if \<not> continued \<and> je_opKind prepared \<in> {Op_tool, Op_mcp} \<and> typedAssembly \<and> settlement_phase terminal \<noteq> Unknown
      then Inl (Storage Invalid_request)
      else if je_opKind prepared = Op_model \<and> settlement_phase terminal = Completed \<and> \<not> continued
      then Inl (Storage Invalid_request)
      else if je_opKind prepared = Op_model \<and> settlement_phase terminal = Failed \<and> requires_claim terminal \<and> \<not> continued
      then Inl (Storage Invalid_request)
      else if \<exists>e\<in>set entries. je_phase e \<in> settled_phases then Inl (Storage State_transition_invalid)
      else if requires_claim terminal \<and> claim = None then Inl (Storage State_transition_invalid)
      else if \<not> requires_claim terminal \<and> claim \<noteq> None then Inl (Storage State_transition_invalid)
      else Inr ())"

definition settlement_snapshot ::
  "bool \<Rightarrow> bool \<Rightarrow> kernel_db \<Rightarrow> settle_input \<Rightarrow> settlement_kind \<Rightarrow> settlement_cut kernel" where
  "settlement_snapshot typedAssembly continued w i terminal =
     and_then (read_run w (se_runId i)) (\<lambda>r.
     and_then (throw_if (run_revision r \<noteq> se_expectedRunRevision i) (Storage Revision_conflict)) (\<lambda>_.
     let entries = read_invocation_attempt (db_journal w (se_runId i)) (se_opId i) (se_attempt i);
         claim = find (\<lambda>e. je_phase e = Dispatch_claimed) entries in
     case find (\<lambda>e. je_phase e = Prepared) entries of
       None \<Rightarrow> Inl (Storage Not_found)
     | Some prepared \<Rightarrow>
         and_then (snapshot_guards typedAssembly continued terminal entries prepared claim) (\<lambda>_.
         and_then (consumed_by terminal prepared) (\<lambda>consumed.
         and_then (subtract_budget (run_budgetReserved r) (je_budgetDelta prepared)) (\<lambda>reservedAfter.
         and_then (add_budget (run_budgetConsumed r) consumed) (\<lambda>consumedAfter.
         Inr \<lparr>ss_run = r, ss_prepared = prepared, ss_claim = claim, ss_consumed = consumed,
           ss_reservedAfter = reservedAfter, ss_consumedAfter = consumedAfter\<rparr>))))))"

text \<open>Then the settlement, unless an earlier round of a retained completion has fixed it, and the continuation.\<close>

definition fix_settlement ::
  "kernel_db \<Rightarrow> settle_input \<Rightarrow> settlement_kind \<Rightarrow> settlement_cut \<Rightarrow> budget_settlement option \<Rightarrow> int \<Rightarrow> budget_settlement kernel" where
  "fix_settlement w i terminal ss retained sampled =
     (case retained of
        Some s \<Rightarrow> Inr s
      | None \<Rightarrow> and_then (read_time_fence w) (\<lambda>fence.
          case fence of
            None \<Rightarrow> Inl (Storage Recovery_required)
          | Some f \<Rightarrow> Inr (settlement_of i terminal (ss_run ss) (ss_prepared ss) (next_seq (db_journal w (se_runId i)))
              (max sampled (tf_lastAcceptedAt f)) (ss_consumed ss) (ss_reservedAfter ss) (ss_consumedAfter ss))))"

fun selected_terminal :: "settlement_kind \<Rightarrow> continuation_plan option \<Rightarrow> settlement_kind kernel" where
  "selected_terminal terminal None = Inr terminal"
| "selected_terminal terminal (Some p) =
     (case cp_unknownEvidence p of
        None \<Rightarrow> Inr terminal
      | Some (evidence, digest) \<Rightarrow>
          if settlement_phase terminal \<noteq> Unknown then Inl (Storage Invalid_request)
          else Inr (Settle_unknown evidence digest))"

definition stage_settlement ::
  "bool \<Rightarrow> kernel_db \<Rightarrow> settle_input \<Rightarrow> settlement_kind \<Rightarrow> settlement_continuation option \<Rightarrow> budget_settlement option \<Rightarrow> int \<Rightarrow>
     (staged_settlement \<times> kernel_db) kernel" where
  "stage_settlement typedAssembly w i terminal continuation retained sampled =
     and_then (read_all w (settlement_refs terminal)) (\<lambda>_.
     and_then (settlement_snapshot typedAssembly (\<not> Option.is_none continuation) w i terminal) (\<lambda>ss.
     and_then (fix_settlement w i terminal ss retained sampled) (\<lambda>settlement.
     let w1 = w\<lparr>db_artifacts := Settlement_artifact settlement # db_artifacts w\<rparr> in
     and_then (case continuation of
         None \<Rightarrow> Inr None
       | Some c \<Rightarrow> and_then (c w1 (ss_run ss) (ss_prepared ss) settlement) (\<lambda>p. Inr (Some p))) (\<lambda>plan.
     and_then (selected_terminal terminal plan) (\<lambda>selected.
     Inr (\<lparr>sg_input = i, sg_terminal = selected, sg_prepared = ss_prepared ss, sg_claim = ss_claim ss,
          sg_run = ss_run ss, sg_settlement = settlement, sg_plan = plan\<rparr>, w1))))))"

fun terminal_fields :: "settlement_kind \<Rightarrow> journal_entry \<Rightarrow> journal_entry" where
  "terminal_fields (Settle_completed result receipt _) e =
     e\<lparr>je_resultRef := (if result \<noteq> None then result else je_resultRef e),
       je_receiptRef := (if receipt \<noteq> None then receipt else je_receiptRef e)\<rparr>"
| "terminal_fields (Settle_failed err evidence digest _ _) e =
     (if evidence \<noteq> None then e\<lparr>je_errorRef := Some err, je_evidenceRef := evidence, je_evidenceDigest := digest\<rparr>
      else e\<lparr>je_errorRef := Some err\<rparr>)"
| "terminal_fields (Settle_unknown evidence digest) e =
     e\<lparr>je_evidenceRef := Some evidence, je_evidenceDigest := Some digest\<rparr>"

definition settled_entry :: "staged_settlement \<Rightarrow> journal_entry \<Rightarrow> journal_entry" where
  "settled_entry sg source =
     terminal_fields (sg_terminal sg) (source\<lparr>je_seq := bs_terminalJournalSeq (sg_settlement sg),
       je_phase := settlement_phase (sg_terminal sg), je_budgetDelta := bs_consumed (sg_settlement sg),
       je_budgetSettlementRef := Some (Settlement_artifact (sg_settlement sg)),
       je_timestamp := bs_settledAt (sg_settlement sg)\<rparr>)"

definition commit_row :: "kernel_db \<Rightarrow> staged_settlement \<Rightarrow> run \<Rightarrow> journal_entry \<Rightarrow> int \<Rightarrow>
    ((journal_entry \<times> budget_settlement \<times> run) \<times> kernel_db) kernel" where
  "commit_row w sg r source committedAt =
     (let s = sg_settlement sg; entry = settled_entry sg source in
      and_then (throw_if (committedAt < bs_settledAt s) (Storage Recovery_required)) (\<lambda>_.
      and_then (case sg_plan sg of None \<Rightarrow> Inr () | Some p \<Rightarrow> cp_validate p w r committedAt) (\<lambda>_.
      and_then (append_journal w entry) (\<lambda>w1.
      and_then (update_run_budgets w1 r (bs_budgetReservedAfter s) (bs_budgetConsumedAfter s) committedAt
          Reducer_snapshot_changed) (\<lambda>w2.
      and_then (case Option.bind (sg_plan sg) cp_commit of None \<Rightarrow> Inr w2 | Some c \<Rightarrow> c w2 r entry committedAt) (\<lambda>w3.
      and_then (read_run w3 (run_id r)) (\<lambda>updatedRun.
      and_then (append_run_state_event w3 updatedRun committedAt) (\<lambda>w4.
      Inr ((entry, s, updatedRun), w4)))))))))"

text \<open>The checks of the transaction that the snapshot is still current; the run and the claim.\<close>

definition commit_guards :: "kernel_db \<Rightarrow> staged_settlement \<Rightarrow> (run \<times> journal_entry option) kernel" where
  "commit_guards w sg =
     (let i = sg_input sg in
      and_then (read_run w (se_runId i)) (\<lambda>r.
      and_then (throw_if (run_revision r \<noteq> run_revision (sg_run sg) \<or>
          run_budgetReserved r \<noteq> run_budgetReserved (sg_run sg) \<or>
          run_budgetConsumed r \<noteq> run_budgetConsumed (sg_run sg)) Reducer_snapshot_changed) (\<lambda>_.
      and_then (throw_if (\<not> Option.is_none (Option.bind (sg_plan sg) cp_commit) \<and>
          run_waitingReason r = Some Waiting_reconciliation) (Storage State_transition_invalid)) (\<lambda>_.
      let js = db_journal w (se_runId i);
          entries = read_invocation_attempt js (se_opId i) (se_attempt i);
          claim = find (\<lambda>e. je_phase e = Dispatch_claimed) entries in
      and_then (throw_if (find (\<lambda>e. je_phase e = Prepared) entries \<noteq> Some (sg_prepared sg) \<or> claim \<noteq> sg_claim sg \<or>
          (\<exists>e\<in>set entries. je_phase e \<in> settled_phases)) Reducer_snapshot_changed) (\<lambda>_.
      and_then (next_journal_sequence js) (\<lambda>n.
      and_then (throw_if (n \<noteq> bs_terminalJournalSeq (sg_settlement sg)) Reducer_snapshot_changed) (\<lambda>_.
      Inr (r, claim))))))))"

definition commit_initial_settlement ::
  "kernel_db \<Rightarrow> state_owner \<Rightarrow> staged_settlement \<Rightarrow> int \<Rightarrow> (journal_entry \<times> budget_settlement \<times> run) state_outcome" where
  "commit_initial_settlement w owner sg committedAt =
     run_transaction (and_then (assert_active_state_owner w owner) (\<lambda>_.
       and_then (commit_guards w sg) (\<lambda>(r, claim).
       behind_fence w (so_ownerEpoch owner) committedAt (\<lambda>w'.
         commit_row w' sg r (case claim of None \<Rightarrow> sg_prepared sg | Some c \<Rightarrow> c) committedAt)))) w"

text \<open>
  The loop: a snapshot that changed before the commit is staged again, at most eight times.  \<open>meanwhile\<close> is what
  others do while the artifacts are published, \<open>sampled\<close> and \<open>committed\<close> are the clock, by the rounds left.
\<close>

definition settlement_retry_limit :: nat where "settlement_retry_limit = 8"

fun settle_rounds ::
  "nat \<Rightarrow> (nat \<Rightarrow> kernel_db \<Rightarrow> kernel_db) \<Rightarrow> (nat \<Rightarrow> int) \<Rightarrow> (nat \<Rightarrow> int) \<Rightarrow> bool \<Rightarrow> kernel_db \<Rightarrow> state_owner \<Rightarrow>
     settle_input \<Rightarrow> settlement_kind \<Rightarrow> settlement_continuation option \<Rightarrow> (journal_entry \<times> budget_settlement \<times> run) state_outcome" where
  "settle_rounds 0 meanwhile sampled committed typedAssembly w owner i terminal continuation =
     (Inl (Storage Revision_conflict), w)"
| "settle_rounds (Suc n) meanwhile sampled committed typedAssembly w owner i terminal continuation =
     (case stage_settlement typedAssembly w i terminal continuation None (sampled n) of
        Inl e \<Rightarrow> (Inl e, w)
      | Inr (sg, w1) \<Rightarrow>
          (case commit_initial_settlement (meanwhile n w1) owner sg (committed n) of
             (Inl Reducer_snapshot_changed, w2) \<Rightarrow>
               (if \<not> Option.is_none (sg_plan sg) then (Inl (Storage Revision_conflict), w2)
                else settle_rounds n meanwhile sampled committed typedAssembly w2 owner i terminal continuation)
           | r \<Rightarrow> r))"

definition settle_initial_invocation where
  "settle_initial_invocation meanwhile sampled committed typedAssembly w owner i terminal continuation =
     settle_rounds settlement_retry_limit meanwhile sampled committed typedAssembly w owner i terminal continuation"

text \<open>The untyped entries.\<close>

definition complete_invocation where
  "complete_invocation meanwhile sampled committed typedAssembly w owner i result receipt consumed =
     (if result = None \<and> receipt = None then (Inl (Storage Invalid_request), w)
      else settle_initial_invocation meanwhile sampled committed typedAssembly w owner i
        (Settle_completed result receipt consumed) None)"

definition fail_invocation_before_dispatch where
  "fail_invocation_before_dispatch meanwhile sampled committed typedAssembly w owner i err =
     settle_initial_invocation meanwhile sampled committed typedAssembly w owner i
       (Settle_failed err None None zero_budget False) None"

definition fail_claimed_invocation_without_release where
  "fail_claimed_invocation_without_release meanwhile sampled committed typedAssembly w owner i err evidence digest =
     settle_initial_invocation meanwhile sampled committed typedAssembly w owner i
       (Settle_failed err (Some evidence) (Some digest) zero_budget True) None"

text \<open>\<open>brokered\<close>: the continuation of an installed model broker, if the attempt has one.\<close>

definition mark_invocation_unknown where
  "mark_invocation_unknown brokered meanwhile sampled committed typedAssembly w owner i evidence digest =
     (case read_run w (se_runId i) of
        Inl e \<Rightarrow> (Inl e, w)
      | Inr _ \<Rightarrow>
          settle_initial_invocation meanwhile sampled committed typedAssembly w owner i (Settle_unknown evidence digest) brokered)"

section \<open>Resolving an unknown outcome\<close>

definition abandoned_entry :: "journal_entry \<Rightarrow> journal_entry \<Rightarrow> artifact_ref \<Rightarrow> int \<Rightarrow> int \<Rightarrow> journal_entry" where
  "abandoned_entry claim unknown attestation n now =
     claim\<lparr>je_seq := n, je_phase := Abandoned, je_attestationRef := Some attestation, je_budgetDelta := zero_budget,
       je_budgetSettlementRef := je_budgetSettlementRef unknown, je_timestamp := now\<rparr>"

definition abandon_row :: "kernel_db \<Rightarrow> string \<Rightarrow> string \<Rightarrow> int \<Rightarrow> artifact_ref \<Rightarrow> int \<Rightarrow> (journal_entry \<times> kernel_db) kernel" where
  "abandon_row w runId opId attempt attestation now =
     (let js = db_journal w runId; entries = read_invocation_attempt js opId attempt in
      case (find (\<lambda>e. je_phase e = Unknown) entries, find (\<lambda>e. je_phase e = Dispatch_claimed) entries) of
        (Some unknown, Some claim) \<Rightarrow>
          if je_replayClass unknown \<noteq> Replay_manual \<or> je_budgetSettlementRef unknown = None \<or>
             (\<exists>e\<in>set entries. je_phase e = Abandoned)
          then Inl (Storage State_transition_invalid)
          else and_then (next_journal_sequence js) (\<lambda>n.
            let entry = abandoned_entry claim unknown attestation n now in
            and_then (append_journal w entry) (\<lambda>w1. Inr (entry, w1)))
      | _ \<Rightarrow> Inl (Storage State_transition_invalid))"

definition abandon_unknown_invocation ::
  "kernel_db \<Rightarrow> state_owner \<Rightarrow> string \<Rightarrow> string \<Rightarrow> int \<Rightarrow> artifact_ref \<Rightarrow> int \<Rightarrow> journal_entry state_outcome" where
  "abandon_unknown_invocation w owner runId opId attempt attestation now =
     (case read_all w [Some attestation] of
        Inl e \<Rightarrow> (Inl e, w)
      | Inr _ \<Rightarrow>
          run_transaction (and_then (assert_active_state_owner w owner) (\<lambda>_.
            behind_fence w (so_ownerEpoch owner) now (\<lambda>w'. abandon_row w' runId opId attempt attestation now))) w)"

text \<open>\<open>resolvePrivateRollbackInvocation\<close> runs inside a transaction of its caller.  The plan is the caller's.\<close>

record rollback_plan =
  rp_prepared :: journal_entry
  rp_claim :: journal_entry
  rp_unknown :: journal_entry
  rp_artifact :: artifact_ref
  rp_evidenceDigest :: string
  rp_observedAt :: int
  rp_retirementEvidenceRef :: "artifact_ref option"
  rp_generationRef :: artifact_ref
  rp_runRevision :: int
  rp_waitingOnRef :: "artifact_ref option"
  rp_journalLength :: nat

definition rolled_back_entry :: "rollback_plan \<Rightarrow> int \<Rightarrow> int \<Rightarrow> journal_entry" where
  "rolled_back_entry p n now =
     (rp_claim p)\<lparr>je_seq := n, je_phase := Failed, je_budgetDelta := zero_budget,
       je_budgetSettlementRef := je_budgetSettlementRef (rp_unknown p), je_errorRef := Some (rp_artifact p),
       je_evidenceRef := Some (rp_artifact p), je_evidenceDigest := Some (rp_evidenceDigest p), je_timestamp := now\<rparr>"

definition resolve_private_rollback_invocation ::
  "kernel_db \<Rightarrow> state_owner \<Rightarrow> rollback_plan option \<Rightarrow> string \<Rightarrow> int \<Rightarrow> (journal_entry \<times> kernel_db) kernel" where
  "resolve_private_rollback_invocation w owner plan runId now =
     and_then (assert_active_state_owner w owner) (\<lambda>_.
     case plan of
       None \<Rightarrow> Inl (Storage State_transition_invalid)
     | Some p \<Rightarrow>
         let js = db_journal w runId;
             entries = read_invocation_attempt js (je_opId (rp_prepared p)) (je_attempt (rp_prepared p)) in
         and_then (read_generation_by_ref (db_generations w) (Some (rp_generationRef p))) (\<lambda>g.
         and_then (read_run w runId) (\<lambda>r.
         if run_revision r \<noteq> rp_runRevision p \<or> run_waitingOnRef r \<noteq> rp_waitingOnRef p \<or>
            wg_phase g \<noteq> Generation_retired \<or> wg_retirementEvidenceRef g \<noteq> rp_retirementEvidenceRef p \<or>
            map_option je_attempt (read_highest_prepared_attempt js (je_opId (rp_prepared p))) \<noteq> Some (je_attempt (rp_prepared p)) \<or>
            length entries \<noteq> 3 \<or> je_seq (entries ! 0) \<noteq> je_seq (rp_prepared p) \<or> je_seq (entries ! 1) \<noteq> je_seq (rp_claim p) \<or>
            je_phase (entries ! 2) \<noteq> Unknown \<or> je_seq (entries ! 2) \<noteq> je_seq (rp_unknown p) \<or>
            je_budgetSettlementRef (entries ! 2) \<noteq> je_budgetSettlementRef (rp_unknown p) \<or>
            next_seq js \<noteq> int (rp_journalLength p) + 1 \<or> now < rp_observedAt p
         then Inl (Storage Revision_conflict)
         else and_then (next_journal_sequence js) (\<lambda>n.
           let entry = rolled_back_entry p n now in
           and_then (append_journal w entry) (\<lambda>w1. Inr (entry, w1))))))"

end
