(* ===== verification/Journal_Closure.thy ===== *)
theory Journal_Closure
  imports Invocation_Ledger "HOL-Library.AList"
begin

text \<open>
  What recovery checks of a run's journal before it trusts the run: the graph of phases, the artifacts and
  settlements of every attempt, and that the budget counters of the run are what the journal adds up to
  (\<open>src/state/recovery-closure.ts\<close>), with the decoder of settlements (\<open>src/state/decoders.ts\<close>).
\<close>

section \<open>Settlements\<close>

definition budget_equation :: "budget_usage \<Rightarrow> budget_usage \<Rightarrow> budget_usage \<Rightarrow> (int \<Rightarrow> int \<Rightarrow> int) \<Rightarrow> bool" where
  "budget_equation a b c f = list_all (\<lambda>g. f (g a) (g b) = g c) budget_fields"

definition decode_budget_settlement :: "budget_settlement \<Rightarrow> budget_settlement kernel" where
  "decode_budget_settlement s =
     (if bs_runId s = [] \<or> bs_opId s = [] \<or> \<not> int_at_least 0 (bs_attempt s) \<or>
         \<not> int_at_least 1 (bs_preparedJournalSeq s) \<or> \<not> int_at_least 2 (bs_terminalJournalSeq s)
      then Inl (Storage Artifact_mismatch)
      else if bs_terminalPhase s \<notin> {Completed, Failed, Unknown} then Inl (Storage Artifact_mismatch)
      else if \<not> list_all (\<lambda>b. is_ok (decode_budget_usage b)) [bs_reserved s, bs_consumed s, bs_released s,
          bs_budgetConsumedBefore s, bs_budgetConsumedAfter s, bs_budgetReservedBefore s, bs_budgetReservedAfter s]
      then Inl (Storage Artifact_mismatch)
      else if \<not> budget_less_than_or_equal (bs_consumed s) (bs_reserved s) \<or> \<not> budget_equal (bs_released s) (bs_reserved s) \<or>
          \<not> budget_equation (bs_budgetConsumedBefore s) (bs_consumed s) (bs_budgetConsumedAfter s) (+) \<or>
          \<not> budget_equation (bs_budgetReservedBefore s) (bs_released s) (bs_budgetReservedAfter s) (-)
      then Inl (Storage Artifact_mismatch)
      else Inr s)"

definition read_settlement :: "kernel_db \<Rightarrow> artifact_ref \<Rightarrow> budget_settlement kernel" where
  "read_settlement w ref =
     and_then (read_bytes w ref) (\<lambda>_.
       case ref of Settlement_artifact s \<Rightarrow> decode_budget_settlement s | _ \<Rightarrow> Inl (Storage Artifact_mismatch))"

section \<open>The graph of phases\<close>

definition recovery_failure :: kernel_fault where "recovery_failure = Storage Recovery_required"

text \<open>\<open>assertRepeatedAttemptFields\<close> and \<open>assertRepeatedClaimFields\<close>\<close>

definition repeats_attempt_fields :: "journal_entry \<Rightarrow> journal_entry \<Rightarrow> bool" where
  "repeats_attempt_fields p e =
     (je_runId p = je_runId e \<and> je_opId p = je_opId e \<and> je_opKind p = je_opKind e \<and> je_attempt p = je_attempt e \<and>
      je_leaseEpoch p = je_leaseEpoch e \<and> je_target p = je_target e \<and> je_requestRef p = je_requestRef e \<and>
      je_replayClass p = je_replayClass e \<and> je_idempotencyKey p = je_idempotencyKey e \<and> je_grantRef p = je_grantRef e)"

definition repeats_claim_fields :: "journal_entry \<Rightarrow> journal_entry \<Rightarrow> bool" where
  "repeats_claim_fields c e =
     (je_sandboxLaunchSpecRef c = je_sandboxLaunchSpecRef e \<and> je_dispatchId c = je_dispatchId e \<and>
      je_supervisorInstanceId c = je_supervisorInstanceId e \<and> je_stateOwnerEpoch c = je_stateOwnerEpoch e \<and>
      je_brokerFenceTokenDigest c = je_brokerFenceTokenDigest e)"

record attempt_group =
  ag_prepared :: journal_entry
  ag_entries :: "journal_entry list"

text \<open>The groups are in order of insertion; their key is the pair that the code joins with a NUL.\<close>

type_synonym attempt_groups = "((string \<times> int) \<times> attempt_group) list"

type_synonym graph_state = "nat \<times> attempt_groups \<times> (string \<Rightarrow> int option)"

definition group_key :: "journal_entry \<Rightarrow> string \<times> int" where
  "group_key e = (je_opId e, je_attempt e)"

definition graph_row :: "graph_state \<Rightarrow> journal_entry \<Rightarrow> graph_state kernel" where
  "graph_row st e =
     (case st of (index, groups, highest) \<Rightarrow>
      and_then (throw_if (je_seq e \<noteq> int index + 1) recovery_failure) (\<lambda>_.
      case map_of groups (group_key e) of
        None \<Rightarrow>
          if je_phase e \<noteq> Prepared then Inl recovery_failure
          else if je_attempt e \<noteq> (case highest (je_opId e) of None \<Rightarrow> -1 | Some a \<Rightarrow> a) + 1 then Inl recovery_failure
          else if \<not> repeats_attempt_fields e e then Inl recovery_failure
          else Inr (index + 1, AList.update (group_key e) \<lparr>ag_prepared = e, ag_entries = [e]\<rparr> groups,
            highest(je_opId e \<mapsto> je_attempt e))
      | Some g \<Rightarrow>
          if je_phase e = Prepared then Inl recovery_failure
          else if \<not> repeats_attempt_fields (ag_prepared g) e then Inl recovery_failure
          else Inr (index + 1, AList.update (group_key e) (g\<lparr>ag_entries := ag_entries g @ [e]\<rparr>) groups, highest)))"

fun graph_rows :: "graph_state \<Rightarrow> journal_entry list \<Rightarrow> graph_state kernel" where
  "graph_rows st [] = Inr st"
| "graph_rows st (e # es) = and_then (graph_row st e) (\<lambda>st'. graph_rows st' es)"

definition legal_phases :: "invocation_phase list \<Rightarrow> bool" where
  "legal_phases ps =
     (if Dispatch_claimed \<notin> set ps then length ps = 1 \<or> (length ps = 2 \<and> ps ! 1 = Failed)
      else length ps = 2 \<or> (length ps = 3 \<and> ps ! 2 \<in> {Completed, Failed, Unknown}) \<or>
        (length ps = 4 \<and> ps ! 2 = Unknown \<and> ps ! 3 \<in> {Completed, Failed, Abandoned}))"

definition legal_group :: "attempt_group \<Rightarrow> bool" where
  "legal_group g =
     (let es = ag_entries g; ps = map je_phase es in
      take 1 ps = [Prepared] \<and>
      (case find (\<lambda>e. je_phase e = Dispatch_claimed) es of
         None \<Rightarrow> True
       | Some c \<Rightarrow> take 1 (drop 1 ps) = [Dispatch_claimed] \<and> list_all (repeats_claim_fields c) (drop 2 es)) \<and>
      legal_phases ps)"

definition validate_journal_graph :: "journal_entry list \<Rightarrow> attempt_groups kernel" where
  "validate_journal_graph js =
     and_then (graph_rows (0, [], (\<lambda>_. None)) js) (\<lambda>(_, groups, _).
       if list_all (\<lambda>(_, g). legal_group g) groups then Inr groups else Inl recovery_failure)"

section \<open>Artifacts and budgets\<close>

definition entry_refs :: "journal_entry \<Rightarrow> artifact_ref option list" where
  "entry_refs e =
     [Some (je_requestRef e), je_grantRef e, je_sandboxLaunchSpecRef e, je_resultRef e, je_receiptRef e, je_errorRef e,
      je_evidenceRef e, je_attestationRef e, je_budgetSettlementRef e]"

definition settlement_matches :: "budget_settlement \<Rightarrow> journal_entry \<Rightarrow> journal_entry \<Rightarrow> bool" where
  "settlement_matches s p t =
     (bs_runId s = je_runId p \<and> bs_opId s = je_opId p \<and> bs_attempt s = je_attempt p \<and>
      bs_preparedJournalSeq s = je_seq p \<and> bs_terminalJournalSeq s = je_seq t \<and> bs_terminalPhase s = je_phase t \<and>
      bs_settledAt s = je_timestamp t \<and> budget_equal (bs_reserved s) (je_budgetDelta p) \<and>
      budget_equal (bs_consumed s) (je_budgetDelta t))"

text \<open>The entries from the first terminal one on.\<close>

definition from_terminal :: "journal_entry list \<Rightarrow> journal_entry list" where
  "from_terminal es = dropWhile (\<lambda>e. je_phase e \<notin> {Completed, Failed, Unknown}) es"

definition group_budgets :: "kernel_db \<Rightarrow> attempt_group \<Rightarrow> budget_usage \<times> budget_usage \<Rightarrow> (budget_usage \<times> budget_usage) kernel" where
  "group_budgets w g acc =
     (case acc of (reserved, consumed) \<Rightarrow>
      and_then (map_error (\<lambda>_. recovery_failure) (read_all w (concat (map entry_refs (ag_entries g))))) (\<lambda>_.
      case from_terminal (ag_entries g) of
        [] \<Rightarrow> and_then (add_budget reserved (je_budgetDelta (ag_prepared g))) (\<lambda>r. Inr (r, consumed))
      | t # later \<Rightarrow>
          (case je_budgetSettlementRef t of
             None \<Rightarrow> Inl recovery_failure
           | Some ref \<Rightarrow>
               and_then (read_settlement w ref) (\<lambda>s.
               if \<not> settlement_matches s (ag_prepared g) t then Inl recovery_failure
               else if \<exists>e\<in>set later. je_budgetSettlementRef e \<noteq> je_budgetSettlementRef t then Inl recovery_failure
               else and_then (add_budget consumed (bs_consumed s)) (\<lambda>c. Inr (reserved, c))))))"

fun all_group_budgets :: "kernel_db \<Rightarrow> attempt_group list \<Rightarrow> budget_usage \<times> budget_usage \<Rightarrow> (budget_usage \<times> budget_usage) kernel" where
  "all_group_budgets w [] acc = Inr acc"
| "all_group_budgets w (g # gs) acc = and_then (group_budgets w g acc) (all_group_budgets w gs)"

definition validate_journal_artifacts_and_budgets :: "kernel_db \<Rightarrow> attempt_groups \<Rightarrow> (budget_usage \<times> budget_usage) kernel" where
  "validate_journal_artifacts_and_budgets w groups = all_group_budgets w (map snd groups) (zero_budget, zero_budget)"

text \<open>The part of \<open>readRecoveryClosure\<close> that concerns the journal and the counters of the run.\<close>

definition validate_ledger :: "bool \<Rightarrow> kernel_db \<Rightarrow> string \<Rightarrow> unit kernel" where
  "validate_ledger hasChildAllocations w runId =
     and_then (read_run w runId) (\<lambda>r.
     and_then (throw_if (\<not> is_ok (decode_budget_usage (run_budgetReserved r)) \<or>
         \<not> is_ok (decode_budget_usage (run_budgetConsumed r))) recovery_failure) (\<lambda>_.
     let js = db_journal w runId in
     and_then (validate_journal_graph js) (\<lambda>groups.
     and_then (validate_journal_artifacts_and_budgets w groups) (\<lambda>(reserved, consumed).
     and_then (throw_if (\<not> budget_less_than_or_equal reserved (run_budgetReserved r) \<or>
         \<not> budget_less_than_or_equal consumed (run_budgetConsumed r)) recovery_failure) (\<lambda>_.
     and_then (throw_if (\<not> hasChildAllocations \<and> (\<not> budget_equal reserved (run_budgetReserved r) \<or>
         \<not> budget_equal consumed (run_budgetConsumed r))) recovery_failure) (\<lambda>_.
     throw_if (run_status r \<noteq> Run_running \<and> \<not> is_zero_budget (run_budgetReserved r) \<and> js = []) recovery_failure))))))"

end
