(* ===== verification/Ledger_Facts.thy ===== *)
theory Ledger_Facts
  imports Journal_Closure
begin

text \<open>
  What an accepted graph says about a journal: its groups are the attempts that the readers find, its rows are
  numbered from one, and the highest attempt is the last one prepared.
\<close>

section \<open>Appending a row to the graph\<close>

lemma graph_rows_append: "graph_rows st (js @ ks) = and_then (graph_rows st js) (\<lambda>st'. graph_rows st' ks)"
  by (induction js arbitrary: st) (auto simp: and_then_def split: sum.splits)

lemma repeats_refl [simp]: "repeats_attempt_fields e e" "repeats_claim_fields e e"
  by (simp_all add: repeats_attempt_fields_def repeats_claim_fields_def)

lemma highest_attempt_snoc:
  "highest_attempt (es @ [e]) =
     Some (case highest_attempt es of None \<Rightarrow> e | Some h \<Rightarrow> if je_attempt h < je_attempt e then e else h)"
  by (induction es) (auto split: option.splits)

abbreviation graph_of :: "journal_entry list \<Rightarrow> graph_state kernel" where
  "graph_of js \<equiv> graph_rows (0, [], (\<lambda>_. None)) js"

definition attempt_of :: "journal_entry list \<Rightarrow> string \<times> int \<Rightarrow> journal_entry list" where
  "attempt_of js k = read_invocation_attempt js (fst k) (snd k)"

lemma attempt_of_key: "attempt_of js (opId, a) = read_invocation_attempt js opId a"
  by (simp add: attempt_of_def)

lemma attempt_of_append: "attempt_of (js @ [e]) k = attempt_of js k @ (if group_key e = k then [e] else [])"
  by (cases k) (auto simp: attempt_of_def read_attempt_append group_key_def)

lemma set_attempt_of: "e \<in> set (attempt_of js k) \<longleftrightarrow> e \<in> set js \<and> group_key e = k"
  by (cases k) (auto simp: attempt_of_def group_key_def)

definition group_of :: "journal_entry list \<Rightarrow> attempt_group" where
  "group_of es = \<lparr>ag_prepared = hd es, ag_entries = es\<rparr>"

text \<open>The graph of a journal, by its rows.\<close>

definition graph_describes :: "journal_entry list \<Rightarrow> nat \<Rightarrow> attempt_groups \<Rightarrow> (string \<Rightarrow> int option) \<Rightarrow> bool" where
  "graph_describes js n groups highest \<longleftrightarrow>
     n = length js \<and> distinct (map fst groups) \<and>
     (\<forall>k. map_of groups k = (if attempt_of js k = [] then None else Some (group_of (attempt_of js k)))) \<and>
     (\<forall>opId. highest opId = map_option je_attempt (read_highest_prepared_attempt js opId)) \<and>
     map je_seq js = map (\<lambda>i. int i + 1) [0..<length js]"

lemma graph_describesD:
  assumes "graph_describes js n groups highest"
  shows "n = length js" "distinct (map fst groups)"
    "map_of groups k = (if attempt_of js k = [] then None else Some (group_of (attempt_of js k)))"
    "highest opId = map_option je_attempt (read_highest_prepared_attempt js opId)"
    "map je_seq js = map (\<lambda>i. int i + 1) [0..<length js]"
  using assms unfolding graph_describes_def by blast+

lemma max_of_upt: "0 \<le> start \<Longrightarrow> max_of (map (\<lambda>i. int i + 1) [0..<n]) start = max (int n) start"
proof (induction n arbitrary: start)
  case (Suc n)
  then show ?case using Suc.IH [of "max (int n + 1) start"] by (simp add: max_of_append)
qed (simp add: max_of_def)

lemma next_seq_describes: "graph_describes js n groups highest \<Longrightarrow> next_seq js = int n + 1"
  using graph_describesD(1,5) [of js n groups highest] by (simp add: next_seq_def max_of_upt)

text \<open>A row extends the graph when it opens the next attempt, or continues one.\<close>

lemma graph_row_prepared:
  assumes d: "graph_describes js n groups highest" and seq: "je_seq e = next_seq js" and ph: "je_phase e = Prepared"
    and new: "attempt_of js (group_key e) = []"
    and attempt: "je_attempt e = (case read_highest_prepared_attempt js (je_opId e) of None \<Rightarrow> 0 | Some h \<Rightarrow> je_attempt h + 1)"
  shows "\<exists>highest'. graph_row (n, groups, highest) e = Inr (n + 1, groups @ [(group_key e, group_of [e])], highest') \<and>
     graph_describes (js @ [e]) (n + 1) (groups @ [(group_key e, group_of [e])]) highest'"
proof (intro exI conjI)
  have free: "map_of groups (group_key e) = None" using graph_describesD(3) [OF d] new by simp
  have upd: "AList.update (group_key e) v groups = groups @ [(group_key e, v)]" for v
    using free by (induction groups) (auto split: if_splits)
  have hi: "highest (je_opId e) = map_option je_attempt (read_highest_prepared_attempt js (je_opId e))"
    by (rule graph_describesD(4) [OF d])
  show "graph_row (n, groups, highest) e =
      Inr (n + 1, groups @ [(group_key e, group_of [e])], highest(je_opId e \<mapsto> je_attempt e))"
    using seq ph free attempt hi next_seq_describes [OF d]
    by (auto simp: graph_row_def upd group_of_def repeats_attempt_fields_def split: option.splits)
  have "read_highest_prepared_attempt (js @ [e]) opId =
      (if opId = je_opId e then Some e else read_highest_prepared_attempt js opId)" for opId
    using attempt ph by (auto simp: read_highest_prepared_attempt_def highest_attempt_snoc split: option.splits)
  moreover have "fst ` set groups = dom (map_of groups)" by (simp add: dom_map_of_conv_image_fst)
  ultimately show "graph_describes (js @ [e]) (n + 1) (groups @ [(group_key e, group_of [e])]) (highest(je_opId e \<mapsto> je_attempt e))"
    using d free new seq next_seq_describes [OF d]
    by (auto simp: graph_describes_def attempt_of_append map_add_def split: option.splits)
qed

lemma graph_row_continues:
  assumes d: "graph_describes js n groups highest" and seq: "je_seq e = next_seq js" and ph: "je_phase e \<noteq> Prepared"
    and old: "attempt_of js (group_key e) = p # es" and rep: "repeats_attempt_fields p e"
  shows "graph_row (n, groups, highest) e =
      Inr (n + 1, AList.update (group_key e) (group_of (p # es @ [e])) groups, highest)"
    and "graph_describes (js @ [e]) (n + 1) (AList.update (group_key e) (group_of (p # es @ [e])) groups) highest"
proof -
  have g: "map_of groups (group_key e) = Some (group_of (p # es))" using graph_describesD(3) [OF d] old by simp
  show "graph_row (n, groups, highest) e =
      Inr (n + 1, AList.update (group_key e) (group_of (p # es @ [e])) groups, highest)"
    using seq ph g rep next_seq_describes [OF d] by (simp add: graph_row_def group_of_def)
  show "graph_describes (js @ [e]) (n + 1) (AList.update (group_key e) (group_of (p # es @ [e])) groups) highest"
    using d old seq ph next_seq_describes [OF d]
    by (auto simp: graph_describes_def attempt_of_append AList.update_conv' AList.distinct_update
        read_highest_prepared_attempt_def)
qed

lemma graph_of_snoc:
  "graph_of js = Inr st \<Longrightarrow> graph_row st e = Inr st' \<Longrightarrow> graph_of (js @ [e]) = Inr st'"
  by (simp add: graph_rows_append)

lemma graph_describes_start: "graph_describes [] 0 [] (\<lambda>_. None)"
  by (simp add: graph_describes_def attempt_of_def read_invocation_attempt_def read_highest_prepared_attempt_def)

end
