(* ===== verification/Ledger_Invariant.thy ===== *)
theory Ledger_Invariant
  imports Ledger_Facts
begin

text \<open>
  The invariant of a run's journal and counters, and what an operation of the reducer has to establish to keep it:
  one lemma for the row that opens an attempt and one for a row that continues it.
\<close>

section \<open>The invariant\<close>

definition group_reserved :: "journal_entry list \<Rightarrow> budget_usage" where
  "group_reserved es = (if from_terminal es = [] then je_budgetDelta (hd es) else zero_budget)"

definition group_consumed :: "journal_entry list \<Rightarrow> budget_usage" where
  "group_consumed es = (case from_terminal es of [] \<Rightarrow> zero_budget | t # _ \<Rightarrow> je_budgetDelta t)"

definition balanced :: "budget_settlement \<Rightarrow> bool" where
  "balanced s \<longleftrightarrow>
     list_all proper_budget [bs_reserved s, bs_consumed s, bs_released s, bs_budgetConsumedBefore s,
       bs_budgetConsumedAfter s, bs_budgetReservedBefore s, bs_budgetReservedAfter s] \<and>
     bs_released s = bs_reserved s \<and>
     bs_budgetConsumedAfter s = map_budget (+) (bs_budgetConsumedBefore s) (bs_consumed s) \<and>
     bs_budgetReservedAfter s = map_budget (-) (bs_budgetReservedBefore s) (bs_released s)"

definition settled_ok :: "journal_entry list \<Rightarrow> bool" where
  "settled_ok es \<longleftrightarrow>
     (case from_terminal es of
        [] \<Rightarrow> True
      | t # later \<Rightarrow>
          (\<exists>s. je_budgetSettlementRef t = Some (Settlement_artifact s) \<and> settlement_matches s (hd es) t \<and> balanced s) \<and>
          (\<forall>e\<in>set later. je_budgetSettlementRef e = je_budgetSettlementRef t))"

definition attempt_ok :: "journal_entry list \<Rightarrow> bool" where
  "attempt_ok es \<longleftrightarrow> legal_group (group_of es) \<and> settled_ok es \<and> (\<forall>e\<in>set es. repeats_attempt_fields (hd es) e)"

definition row_ok :: "artifact_ref list \<Rightarrow> string \<Rightarrow> journal_entry \<Rightarrow> bool" where
  "row_ok arts r e \<longleftrightarrow>
     journal_base_ok e \<and> phase_fields_ok (je_phase e) e \<and> je_runId e = r \<and>
     (\<forall>ref. Some ref \<in> set (entry_refs e) \<longrightarrow> artifact_ref_ok ref \<and> ref \<in> set arts)"

definition ledger_ok :: "artifact_ref list \<Rightarrow> string \<Rightarrow> journal_entry list \<Rightarrow> budget_usage \<Rightarrow> budget_usage \<Rightarrow> bool" where
  "ledger_ok arts r js reserved consumed \<longleftrightarrow>
     (\<exists>groups highest.
        graph_of js = Inr (length js, groups, highest) \<and> graph_describes js (length js) groups highest \<and>
        (\<forall>e\<in>set js. row_ok arts r e) \<and> (\<forall>kg\<in>set groups. attempt_ok (ag_entries (snd kg))) \<and>
        reserved = budget_sum (map (\<lambda>kg. group_reserved (ag_entries (snd kg))) groups) \<and>
        consumed = budget_sum (map (\<lambda>kg. group_consumed (ag_entries (snd kg))) groups)) \<and>
     proper_budget reserved \<and> proper_budget consumed"

lemma ledger_ok_start: "ledger_ok arts r [] zero_budget zero_budget"
  using graph_describes_start by (fastforce simp: ledger_ok_def)

lemma ledger_ok_artifacts: "ledger_ok arts r js res con \<Longrightarrow> set arts \<subseteq> set arts' \<Longrightarrow> ledger_ok arts' r js res con"
  unfolding ledger_ok_def row_ok_def by blast

section \<open>What the invariant says\<close>

lemma ledger_attempt:
  assumes "ledger_ok arts r js res con" and "attempt_of js k \<noteq> []"
  shows "attempt_ok (attempt_of js k)"
proof -
  from assms(1) obtain groups highest where d: "graph_describes js (length js) groups highest"
    and ok: "\<forall>kg\<in>set groups. attempt_ok (ag_entries (snd kg))" by (auto simp: ledger_ok_def)
  from graph_describesD(3) [OF d, of k] assms(2) have "map_of groups k = Some (group_of (attempt_of js k))" by simp
  then have "(k, group_of (attempt_of js k)) \<in> set groups" by (rule map_of_SomeD)
  with ok show ?thesis by (auto simp: group_of_def)
qed

lemma ledger_next_seq: "ledger_ok arts r js res con \<Longrightarrow> next_seq js = int (length js) + 1"
  unfolding ledger_ok_def using next_seq_describes by blast

lemma ledger_row: "ledger_ok arts r js res con \<Longrightarrow> e \<in> set js \<Longrightarrow> row_ok arts r e"
  by (auto simp: ledger_ok_def)

text \<open>The attempts that are legal, by their rows.\<close>

lemma legal_group_cases:
  assumes "legal_group (group_of es)"
  obtains (prepared) p where "es = [p]" "je_phase p = Prepared"
    | (refused) p f where "es = [p, f]" "je_phase p = Prepared" "je_phase f = Failed"
    | (claimed) p c where "es = [p, c]" "je_phase p = Prepared" "je_phase c = Dispatch_claimed"
    | (settled) p c t where "es = [p, c, t]" "je_phase p = Prepared" "je_phase c = Dispatch_claimed"
        "je_phase t \<in> {Completed, Failed, Unknown}" "repeats_claim_fields c t"
    | (resolved) p c t x where "es = [p, c, t, x]" "je_phase p = Prepared" "je_phase c = Dispatch_claimed"
        "je_phase t = Unknown" "je_phase x \<in> {Completed, Failed, Abandoned}" "repeats_claim_fields c t" "repeats_claim_fields c x"
proof -
  from assms obtain p rest where es: "es = p # rest" "je_phase p = Prepared"
    by (cases es) (auto simp: legal_group_def group_of_def Let_def)
  show thesis
  proof (cases "Dispatch_claimed \<in> set (map je_phase es)")
    case False
    then have "find (\<lambda>e. je_phase e = Dispatch_claimed) es = None"
      unfolding find_None_iff by force
    with assms es False have "length es = 1 \<or> (length es = 2 \<and> map je_phase es ! 1 = Failed)"
      by (auto simp: legal_group_def group_of_def legal_phases_def Let_def)
    with es prepared refused show thesis by (cases rest; cases "tl rest") auto
  next
    case True
    then obtain c where c: "find (\<lambda>e. je_phase e = Dispatch_claimed) es = Some c"
      by (cases "find (\<lambda>e. je_phase e = Dispatch_claimed) es") (auto simp: find_None_iff)
    with assms es True have l: "take 1 (map je_phase rest) = [Dispatch_claimed]" "list_all (repeats_claim_fields c) (drop 1 rest)"
      "length es = 2 \<or> (length es = 3 \<and> map je_phase es ! 2 \<in> {Completed, Failed, Unknown}) \<or>
       (length es = 4 \<and> map je_phase es ! 2 = Unknown \<and> map je_phase es ! 3 \<in> {Completed, Failed, Abandoned})"
      by (auto simp: legal_group_def group_of_def legal_phases_def Let_def)
    from l(1) obtain d more where r: "rest = d # more" "je_phase d = Dispatch_claimed" by (cases rest) auto
    with c es have "c = d" by (simp add: find.simps)
    from l(3) es r consider "more = []" | t where "more = [t]" "je_phase t \<in> {Completed, Failed, Unknown}"
      | t x where "more = [t, x]" "je_phase t = Unknown" "je_phase x \<in> {Completed, Failed, Abandoned}"
      by (cases more; cases "tl more") (auto simp: numeral_eq_Suc)
    then show thesis
      by cases (use es r l(2) \<open>c = d\<close> claimed settled resolved in auto)
  qed
qed

section \<open>Sums over the groups\<close>

lemma budget_sum_update:
  assumes "distinct (map fst al)" and "map_of al k = Some v"
  shows "map_budget (+) (budget_sum (map (\<lambda>kg. F (snd kg)) (AList.update k v' al))) (F v) =
    map_budget (+) (budget_sum (map (\<lambda>kg. F (snd kg)) al)) (F v')"
proof (rule budget_eqI)
  fix f assume f: "f \<in> set budget_fields"
  have "sum_list (map (\<lambda>kg. f (F (snd kg))) (AList.update k v' al)) + f (F v) =
      sum_list (map (\<lambda>kg. f (F (snd kg))) al) + f (F v')"
    using assms by (induction al) (auto split: if_splits)
  with f show "f (map_budget (+) (budget_sum (map (\<lambda>kg. F (snd kg)) (AList.update k v' al))) (F v)) =
    f (map_budget (+) (budget_sum (map (\<lambda>kg. F (snd kg)) al)) (F v'))"
    by (simp add: budget_sum_field comp_def)
qed

lemma map_budget_cancel: "map_budget (+) a c = map_budget (+) b c \<longleftrightarrow> a = b"
proof
  assume "map_budget (+) a c = map_budget (+) b c"
  then have "f a = f b" if "f \<in> set budget_fields" for f using that by (metis map_budget_field add_right_cancel)
  then show "a = b" by (rule budget_eqI)
qed simp

section \<open>Keeping the invariant\<close>

lemma ledger_ok_open:
  assumes ok: "ledger_ok arts r js res con" and row: "row_ok arts r e" and seq: "je_seq e = next_seq js"
    and ph: "je_phase e = Prepared" and new: "attempt_of js (group_key e) = []"
    and attempt: "je_attempt e = (case read_highest_prepared_attempt js (je_opId e) of None \<Rightarrow> 0 | Some h \<Rightarrow> je_attempt h + 1)"
    and res: "res' = map_budget (+) res (je_budgetDelta e)" "proper_budget res'"
  shows "ledger_ok arts r (js @ [e]) res' con"
proof -
  from ok obtain groups highest where g: "graph_of js = Inr (length js, groups, highest)"
    and d: "graph_describes js (length js) groups highest"
    and rows: "\<forall>e\<in>set js. row_ok arts r e" "\<forall>kg\<in>set groups. attempt_ok (ag_entries (snd kg))"
    and sums: "res = budget_sum (map (\<lambda>kg. group_reserved (ag_entries (snd kg))) groups)"
      "con = budget_sum (map (\<lambda>kg. group_consumed (ag_entries (snd kg))) groups)"
    and proper: "proper_budget con" by (auto simp: ledger_ok_def)
  from graph_row_prepared [OF d seq ph new attempt] obtain highest' where
    step: "graph_row (length js, groups, highest) e = Inr (length js + 1, groups @ [(group_key e, group_of [e])], highest')"
    and d': "graph_describes (js @ [e]) (length js + 1) (groups @ [(group_key e, group_of [e])]) highest'" by blast
  have t: "from_terminal [e] = []" using ph by (simp add: from_terminal_def)
  have "attempt_ok [e]"
    using ph t by (simp add: attempt_ok_def settled_ok_def legal_group_def group_of_def legal_phases_def repeats_attempt_fields_def)
  with graph_of_snoc [OF g step] d' rows row sums res proper t show ?thesis
    by (auto simp: ledger_ok_def budget_sum_append group_of_def group_reserved_def group_consumed_def)
qed

lemma ledger_ok_continue:
  assumes ok: "ledger_ok arts r js res con" and row: "row_ok arts r e" and seq: "je_seq e = next_seq js"
    and ph: "je_phase e \<noteq> Prepared" and old: "attempt_of js (group_key e) = es" "es \<noteq> []"
    and rep: "repeats_attempt_fields (hd es) e" and new: "attempt_ok (es @ [e])"
    and res: "map_budget (+) res' (group_reserved es) = map_budget (+) res (group_reserved (es @ [e]))" "proper_budget res'"
    and con: "map_budget (+) con' (group_consumed es) = map_budget (+) con (group_consumed (es @ [e]))" "proper_budget con'"
  shows "ledger_ok arts r (js @ [e]) res' con'"
proof -
  from ok obtain groups highest where g: "graph_of js = Inr (length js, groups, highest)"
    and d: "graph_describes js (length js) groups highest"
    and rows: "\<forall>e\<in>set js. row_ok arts r e" "\<forall>kg\<in>set groups. attempt_ok (ag_entries (snd kg))"
    and sums: "res = budget_sum (map (\<lambda>kg. group_reserved (ag_entries (snd kg))) groups)"
      "con = budget_sum (map (\<lambda>kg. group_consumed (ag_entries (snd kg))) groups)" by (auto simp: ledger_ok_def)
  from old obtain p rest where es: "es = p # rest" by (cases es) auto
  let ?groups = "AList.update (group_key e) (group_of (p # rest @ [e])) groups"
  have hd: "attempt_of js (group_key e) = p # rest" "repeats_attempt_fields p e" using old es rep by simp_all
  note step = graph_row_continues(1) [OF d seq ph hd] and d' = graph_row_continues(2) [OF d seq ph hd]
  have k: "map_of groups (group_key e) = Some (group_of es)" using graph_describesD(3) [OF d, of "group_key e"] old by simp
  have sum: "map_budget (+) (budget_sum (map (\<lambda>kg. F (ag_entries (snd kg))) ?groups)) (F es) =
      map_budget (+) (budget_sum (map (\<lambda>kg. F (ag_entries (snd kg))) groups)) (F (es @ [e]))" for F
    using budget_sum_update [OF graph_describesD(2) [OF d] k, of "\<lambda>g. F (ag_entries g)" "group_of (p # rest @ [e])"] es
    by (simp add: group_of_def)
  have "res' = budget_sum (map (\<lambda>kg. group_reserved (ag_entries (snd kg))) ?groups)"
    using sum [of group_reserved] res(1) sums(1) by (metis map_budget_cancel)
  moreover have "con' = budget_sum (map (\<lambda>kg. group_consumed (ag_entries (snd kg))) ?groups)"
    using sum [of group_consumed] con(1) sums(2) by (metis map_budget_cancel)
  moreover have "attempt_ok (ag_entries (snd kg))" if "kg \<in> set ?groups" for kg
  proof (cases "kg = (group_key e, group_of (p # rest @ [e]))")
    case True
    with new es show ?thesis by (simp add: group_of_def)
  next
    case False
    have "set ?groups \<subseteq> insert (group_key e, group_of (p # rest @ [e])) (set groups)"
      by (induction groups) auto
    with that False rows(2) show ?thesis by auto
  qed
  ultimately show ?thesis
    using graph_of_snoc [OF g step] d' rows(1) row res(2) con(2) by (auto simp: ledger_ok_def)
qed

end
