(* ===== verification/Ledger_Moves.thy ===== *)
theory Ledger_Moves
  imports Ledger_Invariant
begin

text \<open>
  An abstract ledger: the tables move by a new attempt against the ceilings of the run, by continuing an
  attempt, or without touching journals and counters at all.  Every operation of the reducer is such a move.
\<close>

section \<open>Moves\<close>

definition same_account :: "run \<Rightarrow> run \<Rightarrow> bool" where
  "same_account a b \<longleftrightarrow>
     run_id b = run_id a \<and> run_budgetReserved b = run_budgetReserved a \<and> run_budgetConsumed b = run_budgetConsumed a \<and>
     run_ceilings b = run_ceilings a"

text \<open>What other reducers do: runs are admitted with empty counters, artifacts are only added, time does not go back.\<close>

definition elsewhere :: "kernel_db \<Rightarrow> kernel_db \<Rightarrow> bool" where
  "elsewhere w w' \<longleftrightarrow>
     db_journal w' = db_journal w \<and> set (db_artifacts w) \<subseteq> set (db_artifacts w') \<and>
     (\<forall>r a. db_runs w r = Some a \<longrightarrow> (\<exists>b. db_runs w' r = Some b \<and> same_account a b)) \<and>
     (\<forall>r b. db_runs w r = None \<and> db_runs w' r = Some b \<longrightarrow>
        run_id b = r \<and> run_budgetReserved b = zero_budget \<and> run_budgetConsumed b = zero_budget \<and>
        proper_budget (run_ceilings b)) \<and>
     (\<forall>f. db_fence w = Some f \<longrightarrow> (\<exists>f'. db_fence w' = Some f' \<and> tf_lastAcceptedAt f \<le> tf_lastAcceptedAt f'))"

definition charged :: "kernel_db \<Rightarrow> string \<Rightarrow> run \<Rightarrow> journal_entry \<Rightarrow> budget_usage \<Rightarrow> budget_usage \<Rightarrow> kernel_db" where
  "charged w r a e res con =
     w\<lparr>db_journal := (db_journal w)(r := db_journal w r @ [e]),
       db_runs := (db_runs w)(r \<mapsto> a\<lparr>run_budgetReserved := res, run_budgetConsumed := con\<rparr>)\<rparr>"

definition opens_attempt :: "artifact_ref list \<Rightarrow> string \<Rightarrow> journal_entry list \<Rightarrow> run \<Rightarrow> journal_entry \<Rightarrow> bool" where
  "opens_attempt arts r js a e \<longleftrightarrow>
     row_ok arts r e \<and> je_seq e = next_seq js \<and> je_phase e = Prepared \<and>
     je_attempt e = (case read_highest_prepared_attempt js (je_opId e) of None \<Rightarrow> 0 | Some h \<Rightarrow> je_attempt h + 1) \<and>
     (\<forall>h. read_highest_prepared_attempt js (je_opId e) = Some h \<longrightarrow>
        previous_attempt_allows_retry (attempt_of js (je_opId e, je_attempt h))) \<and>
     proper_budget (map_budget (+) (run_budgetReserved a) (je_budgetDelta e)) \<and>
     (\<forall>f\<in>set budget_fields. f (run_budgetConsumed a) + f (run_budgetReserved a) + f (je_budgetDelta e) \<le> f (run_ceilings a))"

definition continues_attempt ::
  "artifact_ref list \<Rightarrow> string \<Rightarrow> journal_entry list \<Rightarrow> run \<Rightarrow> journal_entry \<Rightarrow> budget_usage \<Rightarrow> budget_usage \<Rightarrow> bool" where
  "continues_attempt arts r js a e res con \<longleftrightarrow>
     row_ok arts r e \<and> je_seq e = next_seq js \<and> je_phase e \<noteq> Prepared \<and> attempt_of js (group_key e) \<noteq> [] \<and>
     repeats_attempt_fields (hd (attempt_of js (group_key e))) e \<and> attempt_ok (attempt_of js (group_key e) @ [e]) \<and>
     map_budget (+) res (group_reserved (attempt_of js (group_key e))) =
       map_budget (+) (run_budgetReserved a) (group_reserved (attempt_of js (group_key e) @ [e])) \<and>
     map_budget (+) con (group_consumed (attempt_of js (group_key e))) =
       map_budget (+) (run_budgetConsumed a) (group_consumed (attempt_of js (group_key e) @ [e])) \<and>
     proper_budget res \<and> proper_budget con"

inductive ledger_move :: "kernel_db \<Rightarrow> kernel_db \<Rightarrow> bool" where
  other: "elsewhere w w' \<Longrightarrow> ledger_move w w'"
| opens: "elsewhere w w1 \<Longrightarrow> db_runs w1 r = Some a \<Longrightarrow> opens_attempt (db_artifacts w1) r (db_journal w1 r) a e \<Longrightarrow>
    elsewhere (charged w1 r a e (map_budget (+) (run_budgetReserved a) (je_budgetDelta e)) (run_budgetConsumed a)) w' \<Longrightarrow>
    ledger_move w w'"
| continues: "elsewhere w w1 \<Longrightarrow> db_runs w1 r = Some a \<Longrightarrow> continues_attempt (db_artifacts w1) r (db_journal w1 r) a e res con \<Longrightarrow>
    elsewhere (charged w1 r a e res con) w' \<Longrightarrow> ledger_move w w'"

section \<open>The invariant of the tables\<close>

definition db_ok :: "kernel_db \<Rightarrow> bool" where
  "db_ok w \<longleftrightarrow>
     (\<forall>r a. db_runs w r = Some a \<longrightarrow>
        run_id a = r \<and> ledger_ok (db_artifacts w) r (db_journal w r) (run_budgetReserved a) (run_budgetConsumed a)) \<and>
     (\<forall>r. db_runs w r = None \<longrightarrow> db_journal w r = [])"

lemma db_okD: "db_ok w \<Longrightarrow> db_runs w r = Some a \<Longrightarrow>
    run_id a = r \<and> ledger_ok (db_artifacts w) r (db_journal w r) (run_budgetReserved a) (run_budgetConsumed a)"
  by (simp add: db_ok_def)

lemma db_ok_run: "db_ok w \<Longrightarrow> e \<in> set (db_journal w r) \<Longrightarrow> \<exists>a. db_runs w r = Some a"
  by (cases "db_runs w r") (auto simp: db_ok_def)

lemma elsewhere_refl [simp]: "elsewhere w w"
  by (auto simp: elsewhere_def same_account_def)

lemma elsewhere_fields:
  "elsewhere w w' \<Longrightarrow> db_journal w' = db_journal w" "elsewhere w w' \<Longrightarrow> set (db_artifacts w) \<subseteq> set (db_artifacts w')"
  by (simp_all add: elsewhere_def)

lemma elsewhere_run: "elsewhere w w' \<Longrightarrow> db_runs w r = Some a \<Longrightarrow> \<exists>b. db_runs w' r = Some b \<and> same_account a b"
  by (simp add: elsewhere_def)

lemma elsewhere_new:
  "elsewhere w w' \<Longrightarrow> db_runs w r = None \<Longrightarrow> db_runs w' r = Some b \<Longrightarrow>
     run_id b = r \<and> run_budgetReserved b = zero_budget \<and> run_budgetConsumed b = zero_budget \<and> proper_budget (run_ceilings b)"
  by (simp add: elsewhere_def)

lemma db_ok_elsewhere:
  assumes "db_ok w" and "elsewhere w w'"
  shows "db_ok w'"
  unfolding db_ok_def
proof (intro conjI allI impI)
  fix r b assume b: "db_runs w' r = Some b"
  have "run_id b = r \<and> ledger_ok (db_artifacts w') r (db_journal w' r) (run_budgetReserved b) (run_budgetConsumed b)"
  proof (cases "db_runs w r")
    case None
    then have "db_journal w r = []" using assms(1) by (simp add: db_ok_def)
    with elsewhere_new [OF assms(2) None b] elsewhere_fields(1) [OF assms(2)] show ?thesis by (simp add: ledger_ok_start)
  next
    case (Some a)
    from elsewhere_run [OF assms(2) Some] b have "same_account a b" by simp
    moreover from db_okD [OF assms(1) Some] have
      "ledger_ok (db_artifacts w') r (db_journal w r) (run_budgetReserved a) (run_budgetConsumed a)" "run_id a = r"
      using elsewhere_fields(2) [OF assms(2)] by (auto intro: ledger_ok_artifacts)
    ultimately show ?thesis using elsewhere_fields(1) [OF assms(2)] by (simp add: same_account_def)
  qed
  then show "run_id b = r" "ledger_ok (db_artifacts w') r (db_journal w' r) (run_budgetReserved b) (run_budgetConsumed b)"
    by simp_all
next
  fix r assume "db_runs w' r = None"
  with elsewhere_run [OF assms(2)] have "db_runs w r = None" by (metis option.distinct(1) option.exhaust)
  with assms show "db_journal w' r = []" by (simp add: elsewhere_fields(1) db_ok_def)
qed

lemma db_ok_charged:
  assumes "db_ok w" and "db_runs w r = Some a" and "ledger_ok (db_artifacts w) r (db_journal w r @ [e]) res con"
  shows "db_ok (charged w r a e res con)"
  using assms by (auto simp: db_ok_def charged_def)

text \<open>The attempt that an opening row opens is new.\<close>

lemma opening_new:
  assumes ok: "ledger_ok arts r js res con"
    and attempt: "je_attempt e = (case read_highest_prepared_attempt js (je_opId e) of None \<Rightarrow> 0 | Some h \<Rightarrow> je_attempt h + 1)"
  shows "attempt_of js (group_key e) = []"
proof (rule ccontr)
  assume ne: "attempt_of js (group_key e) \<noteq> []"
  then obtain p rest where es: "attempt_of js (group_key e) = p # rest" by (cases "attempt_of js (group_key e)") auto
  have "je_phase p = Prepared"
    using ledger_attempt [OF ok ne] es by (auto simp: attempt_ok_def elim: legal_group_cases)
  moreover have "p \<in> set js" "group_key p = group_key e" using es set_attempt_of [of p js "group_key e"] by auto
  ultimately have p: "p \<in> set (filter (\<lambda>x. je_opId x = je_opId e \<and> je_phase x = Prepared) js)" "je_attempt p = je_attempt e"
    by (auto simp: group_key_def)
  then obtain h where h: "highest_attempt (filter (\<lambda>x. je_opId x = je_opId e \<and> je_phase x = Prepared) js) = Some h"
    by (metis highest_attempt_None list.distinct(1) list.set_cases option.exhaust)
  with attempt have "je_attempt e = je_attempt h + 1" by (simp add: read_highest_prepared_attempt_def)
  with highest_attempt_Some [OF h] p show False by fastforce
qed

lemma ledger_opening:
  assumes "ledger_ok arts r js (run_budgetReserved a) (run_budgetConsumed a)" and "opens_attempt arts r js a e"
  shows "ledger_ok arts r (js @ [e]) (map_budget (+) (run_budgetReserved a) (je_budgetDelta e)) (run_budgetConsumed a)"
  using assms(2) by (intro ledger_ok_open [OF assms(1)]) (auto simp: opens_attempt_def intro: opening_new [OF assms(1)])

lemma ledger_continuing:
  assumes "ledger_ok arts r js (run_budgetReserved a) (run_budgetConsumed a)" and "continues_attempt arts r js a e res con"
  shows "ledger_ok arts r (js @ [e]) res con"
  using assms(2) by (intro ledger_ok_continue [OF assms(1)]) (auto simp: continues_attempt_def)

lemma db_ok_move: "ledger_move w w' \<Longrightarrow> db_ok w \<Longrightarrow> db_ok w'"
proof (induction rule: ledger_move.induct)
  case (other w w')
  then show ?case by (blast intro: db_ok_elsewhere)
next
  case (opens w w1 r a e w')
  then show ?case by (meson db_okD db_ok_charged db_ok_elsewhere ledger_opening)
next
  case (continues w w1 r a e res con w')
  then show ?case by (meson db_okD db_ok_charged db_ok_elsewhere ledger_continuing)
qed

end
