(* ===== verification/Ledger_Reducer.thy ===== *)
theory Ledger_Reducer
  imports Ledger_Moves
begin

text \<open>
  Every operation of the invocation reducer moves the abstract ledger, whatever its outcome: preparing opens an
  attempt, claiming, settling, abandoning and rolling back continue one, and a refused operation leaves journal and
  counters alone.
\<close>

section \<open>Steps that touch no account\<close>

lemma elsewhere_trans:
  assumes "elsewhere w w1" and "elsewhere w1 w2"
  shows "elsewhere w w2"
  unfolding elsewhere_def
proof (intro conjI allI impI)
  show "db_journal w2 = db_journal w" using assms by (simp add: elsewhere_fields)
  show "set (db_artifacts w) \<subseteq> set (db_artifacts w2)" using assms elsewhere_fields(2) by blast
next
  fix r a assume "db_runs w r = Some a"
  with elsewhere_run [OF assms(1)] elsewhere_run [OF assms(2)]
  show "\<exists>b. db_runs w2 r = Some b \<and> same_account a b" by (fastforce simp: same_account_def)
next
  fix r b assume b: "db_runs w r = None \<and> db_runs w2 r = Some b"
  have "run_id b = r \<and> run_budgetReserved b = zero_budget \<and> run_budgetConsumed b = zero_budget \<and> proper_budget (run_ceilings b)"
  proof (cases "db_runs w1 r")
    case None
    with b elsewhere_new [OF assms(2)] show ?thesis by blast
  next
    case (Some c)
    with b elsewhere_new [OF assms(1)] elsewhere_run [OF assms(2)] show ?thesis by (fastforce simp: same_account_def)
  qed
  then show "run_id b = r" "run_budgetReserved b = zero_budget" "run_budgetConsumed b = zero_budget"
    "proper_budget (run_ceilings b)" by simp_all
next
  fix f assume "db_fence w = Some f"
  with assms show "\<exists>f'. db_fence w2 = Some f' \<and> tf_lastAcceptedAt f \<le> tf_lastAcceptedAt f'"
    unfolding elsewhere_def by (meson order_trans)
qed

lemma elsewhere_fence:
  "db_fence w = Some f \<Longrightarrow> tf_lastAcceptedAt f \<le> tf_lastAcceptedAt f' \<Longrightarrow> elsewhere w (w\<lparr>db_fence := Some f'\<rparr>)"
  by (auto simp: elsewhere_def same_account_def)

lemma elsewhere_events: "elsewhere w (w\<lparr>db_events := ev\<rparr>)"
  by (auto simp: elsewhere_def same_account_def)

lemma elsewhere_artifacts: "elsewhere w (w\<lparr>db_artifacts := x # db_artifacts w\<rparr>)"
  by (auto simp: elsewhere_def same_account_def)

lemma append_event_elsewhere: "append_run_state_event w r t = Inr w' \<Longrightarrow> elsewhere w w'"
  by (auto simp: append_run_state_event_def and_then_Inr elsewhere_events)

lemma update_run_Inr:
  assumes "update_run_budgets w a res con now fault = Inr w'" and "db_runs w (run_id a) = Some b"
  shows "elsewhere (w\<lparr>db_runs := (db_runs w)(run_id a \<mapsto> b\<lparr>run_budgetReserved := res, run_budgetConsumed := con\<rparr>)\<rparr>) w'"
  using assms by (auto simp: update_run_budgets_def elsewhere_def same_account_def split: if_splits)

lemma fenced_transaction:
  assumes "run_transaction (and_then (assert_active_state_owner w owner) (\<lambda>_. behind_fence w epoch now body)) w = (res, w')"
  obtains (refused) "elsewhere w w'"
    | (accepted) x f where "res = Inr x" "db_fence w = Some f" "tf_lastAcceptedAt f \<le> now"
        "body (w\<lparr>db_fence := Some (fence_at epoch now)\<rparr>) = Inr (x, w')" "elsewhere w (w\<lparr>db_fence := Some (fence_at epoch now)\<rparr>)"
proof (cases "assert_active_state_owner w owner")
  case (Inl e)
  with assms refused show thesis by (simp add: run_transaction_def)
next
  case (Inr u)
  consider e where "behind_fence w epoch now body = Inl e" | w1 where "behind_fence w epoch now body = Inr (None, w1)"
    | x w1 where "behind_fence w epoch now body = Inr (Some x, w1)"
    by (metis option.exhaust sumE surj_pair)
  then show thesis
  proof cases
    case (2 w1)
    from behind_fence_None [OF 2] have "elsewhere w w1"
      by (auto simp: persist_regressed_fence_def intro!: elsewhere_fence)
    with 2 Inr assms refused show thesis by (simp add: run_transaction_def)
  next
    case (3 x w1)
    then obtain w2 where w2: "advance_time_fence w epoch now = Inr (Fence_healthy, w2)" "body w2 = Inr (x, w1)"
      by (auto simp: behind_fence_Some)
    from advance_healthy [OF w2(1)] obtain f where f: "db_fence w = Some f" "tf_lastAcceptedAt f \<le> now"
      "w2 = w\<lparr>db_fence := Some (fence_at epoch now)\<rparr>" by blast
    have "elsewhere w w2" unfolding f(3) by (rule elsewhere_fence [OF f(1)]) (simp add: f(2) fence_at_def)
    have "res = Inr x" "w' = w1" using 3 Inr assms by (simp_all add: run_transaction_def)
    with w2(2) f \<open>elsewhere w w2\<close> show thesis by (intro accepted [of x f]) simp_all
  qed (use Inr assms refused in \<open>simp add: run_transaction_def\<close>)
qed

lemma append_journal_Inr:
  "append_journal w e = Inr w' \<longleftrightarrow>
     w' = w\<lparr>db_journal := (db_journal w)(je_runId e := db_journal w (je_runId e) @ [e])\<rparr> \<and>
     journal_base_ok e \<and> phase_fields_ok (je_phase e) e \<and> safe_integer (next_seq (db_journal w (je_runId e))) \<and>
     1 \<le> next_seq (db_journal w (je_runId e)) \<and> je_seq e = next_seq (db_journal w (je_runId e)) \<and>
     run_journal_validate_insert (db_journal w (je_runId e)) e \<and> run_journal_constraints (db_journal w (je_runId e)) e"
  by (auto simp: append_journal_def and_then_Inr append_entry_Inr)

lemma read_all_Inr: "read_all w rs = Inr () \<longleftrightarrow> (\<forall>r. Some r \<in> set rs \<longrightarrow> artifact_ref_ok r \<and> r \<in> set (db_artifacts w))"
  by (induction w rs rule: read_all.induct) (auto simp: read_bytes_def and_then_Inr)

section \<open>Preparing\<close>

definition quiet_prepare :: "typed_prepare option \<Rightarrow> bool" where
  "quiet_prepare typed \<longleftrightarrow> (\<forall>t w a e w'. typed = Some t \<longrightarrow> tp_commit t w a e = Inr w' \<longrightarrow> elsewhere w w')"

lemma quiet_prepare_None [simp]: "quiet_prepare None"
  by (simp add: quiet_prepare_def)

lemma prepare_row_move:
  assumes row: "prepare_row w owner i (run_ceilings a0) typed now = Inr ((e, u), w')" and ok: "db_ok w"
    and a0: "db_runs w (pi_runId i) = Some a0" and refs: "read_all w [Some (pi_requestRef i), pi_grantRef i] = Inr ()"
    and quiet: "quiet_prepare typed"
  shows "opens_attempt (db_artifacts w) (pi_runId i) (db_journal w (pi_runId i)) a0 e \<and>
    elsewhere (charged w (pi_runId i) a0 e (map_budget (+) (run_budgetReserved a0) (je_budgetDelta e)) (run_budgetConsumed a0)) w'"
proof -
  let ?r = "pi_runId i" and ?js = "db_journal w (pi_runId i)"
  let ?h = "read_highest_prepared_attempt ?js (pi_opId i)"
  let ?attempt = "case ?h of None \<Rightarrow> 0 | Some h \<Rightarrow> je_attempt h + 1"
  from row obtain a l g res n w1 w2 w3 where
    live: "assert_live_dispatch_state w owner ?r (pi_expectedRunRevision i) (pi_leaseEpoch i) now = Inr (a, l, g)"
    and retry: "(case ?h of None \<Rightarrow> Inr () | Some h \<Rightarrow>
        throw_if (\<not> previous_attempt_allows_retry (read_invocation_attempt ?js (pi_opId i) (je_attempt h)))
          (Storage State_transition_invalid)) = Inr ()"
    and within: "assert_budget_within (run_budgetConsumed a) (run_budgetReserved a) (pi_reservation i) (run_ceilings a0) = Inr ()"
    and res: "add_budget (run_budgetReserved a) (pi_reservation i) = Inr res"
    and n: "next_journal_sequence ?js = Inr n" and e: "e = prepared_entry i n ?attempt now"
    and w1: "append_journal w e = Inr w1"
    and w2: "update_run_budgets w1 a res (run_budgetConsumed a) now (Storage Revision_conflict) = Inr w2"
    and w3: "(case typed of None \<Rightarrow> Inr w2 | Some t \<Rightarrow> tp_commit t w2 a e) = Inr w3"
    and w': "append_run_state_event w3 u now = Inr w'"
    unfolding prepare_row_def Let_def by (auto simp: and_then_Inr)
  from live_dispatch_run [OF live] a0 have a: "a = a0" by simp
  have id: "run_id a0 = ?r" using db_okD [OF ok a0] by simp
  have je: "je_runId e = ?r" "je_opId e = pi_opId i" "je_attempt e = ?attempt" "je_phase e = Prepared"
    "je_budgetDelta e = pi_reservation i" "je_seq e = n" using e by (simp_all add: prepared_entry_def)
  note app = w1 [unfolded append_journal_Inr je(1)]
  have "set (entry_refs e) \<subseteq> {None, Some (pi_requestRef i), pi_grantRef i}" by (auto simp: e entry_refs_def prepared_entry_def)
  then have row_ok: "row_ok (db_artifacts w) ?r e"
    using app refs je(1) unfolding row_ok_def read_all_Inr by auto
  have "opens_attempt (db_artifacts w) ?r ?js a0 e"
    using row_ok app je retry res within a
    by (auto simp: opens_attempt_def attempt_of_key add_budget_Inr assert_budget_within_def list_all_iff algebra_simps)
  moreover have "elsewhere (charged w ?r a0 e res (run_budgetConsumed a0)) w2"
  proof -
    have "db_runs w1 (run_id a0) = Some a0" using app a0 id by simp
    from update_run_Inr [OF w2 [unfolded a] this] show ?thesis using app id by (simp add: charged_def)
  qed
  moreover have "elsewhere w2 w3" using w3 quiet by (auto simp: quiet_prepare_def split: option.splits)
  moreover have "elsewhere w3 w'" by (rule append_event_elsewhere [OF w'])
  ultimately show ?thesis using res a je(5) by (auto simp: add_budget_Inr intro: elsewhere_trans)
qed

lemma prepare_moves:
  assumes "prepare_validated_invocation w owner i typed now = (res, w')" and "db_ok w" and "quiet_prepare typed"
  shows "ledger_move w w'"
proof (cases "and_then (decode_budget_usage (pi_reservation i)) (\<lambda>_.
           and_then (throw_if (is_zero_budget (pi_reservation i)) (Storage Invalid_request)) (\<lambda>_.
           and_then (read_all w [Some (pi_requestRef i), pi_grantRef i]) (\<lambda>_.
           read_run w (pi_runId i))))")
  case (Inl f)
  with assms(1) show ?thesis by (auto simp: prepare_validated_invocation_def intro: ledger_move.other)
next
  case (Inr a0)
  then have a0: "db_runs w (pi_runId i) = Some a0" and refs: "read_all w [Some (pi_requestRef i), pi_grantRef i] = Inr ()"
    by (auto simp: and_then_Inr read_run_def split: option.splits)
  from assms(1) Inr have "run_transaction (and_then (assert_active_state_owner w owner) (\<lambda>_.
      behind_fence w (so_ownerEpoch owner) now (\<lambda>w'. prepare_row w' owner i (run_ceilings a0) typed now))) w = (res, w')"
    by (simp add: prepare_validated_invocation_def)
  then show ?thesis
  proof (cases rule: fenced_transaction)
    case refused
    then show ?thesis by (rule ledger_move.other)
  next
    case (accepted x f)
    let ?w1 = "w\<lparr>db_fence := Some (fence_at (so_ownerEpoch owner) now)\<rparr>"
    obtain e u where x: "x = (e, u)" by (cases x)
    have ok1: "db_ok ?w1" by (rule db_ok_elsewhere [OF assms(2) accepted(5)])
    have a1: "db_runs ?w1 (pi_runId i) = Some a0" using a0 by simp
    have refs1: "read_all ?w1 [Some (pi_requestRef i), pi_grantRef i] = Inr ()"
      using refs unfolding read_all_Inr by simp
    from prepare_row_move [OF accepted(4) [unfolded x] ok1 a1 refs1 assms(3)] accepted(5) a1
    show ?thesis by (blast intro: ledger_move.opens)
  qed
qed

section \<open>Claiming\<close>

lemma charged_same:
  "db_runs w r = Some a \<Longrightarrow>
     charged w r a e (run_budgetReserved a) (run_budgetConsumed a) = w\<lparr>db_journal := (db_journal w)(r := db_journal w r @ [e])\<rparr>"
  by (cases w; cases a) (auto simp: charged_def fun_upd_idem)

text \<open>A row that neither settles nor opens leaves the counters alone.\<close>

lemma continues_unsettled:
  assumes "row_ok arts r e" and "je_seq e = next_seq js" and "je_phase e \<noteq> Prepared" and "attempt_of js (group_key e) = es"
    and "es \<noteq> []" and "repeats_attempt_fields (hd es) e" and "attempt_ok (es @ [e])"
    and "group_reserved (es @ [e]) = group_reserved es" and "group_consumed (es @ [e]) = group_consumed es"
    and "ledger_ok arts r js (run_budgetReserved a) (run_budgetConsumed a)"
  shows "continues_attempt arts r js a e (run_budgetReserved a) (run_budgetConsumed a)"
  using assms by (simp add: continues_attempt_def ledger_ok_def)

lemma claim_row_move:
  assumes row: "claim_row w owner i validate now = Inr (e, w')" and ok: "db_ok w"
    and refs: "read_all w [ci_sandboxLaunchSpecRef i] = Inr ()"
  shows "\<exists>a. db_runs w (ci_runId i) = Some a \<and>
    continues_attempt (db_artifacts w) (ci_runId i) (db_journal w (ci_runId i)) a e (run_budgetReserved a) (run_budgetConsumed a) \<and>
    w' = charged w (ci_runId i) a e (run_budgetReserved a) (run_budgetConsumed a)"
proof -
  let ?r = "ci_runId i" and ?js = "db_journal w (ci_runId i)"
  from row obtain a l g h n where
    live: "assert_live_dispatch_state w owner ?r (ci_expectedRunRevision i) (ci_leaseEpoch i) now = Inr (a, l, g)"
    and h: "read_highest_prepared_attempt ?js (ci_opId i) = Some h"
    and att: "je_attempt h = ci_attempt i"
    and ph: "map je_phase (read_invocation_attempt ?js (ci_opId i) (ci_attempt i)) = [Prepared]"
    and e: "e = claimed_entry h owner i n now" and w': "append_journal w e = Inr w'"
    unfolding claim_row_def Let_def by (auto simp: and_then_Inr split: option.splits if_splits)
  from live_dispatch_run [OF live] have a: "db_runs w ?r = Some a" by simp
  note led = db_okD [OF ok a]
  have hrow: "h \<in> set ?js" "je_opId h = ci_opId i" "je_phase h = Prepared"
    using highest_attempt_Some h by (fastforce simp: read_highest_prepared_attempt_def)+
  have rh: "row_ok (db_artifacts w) ?r h" using ledger_row [OF conjunct2 [OF led] hrow(1)] .
  then have id: "je_runId e = ?r" by (simp add: e claimed_entry_def row_ok_def)
  have key: "group_key e = (ci_opId i, ci_attempt i)" by (simp add: e claimed_entry_def group_key_def hrow att)
  from ph obtain p where p: "attempt_of ?js (group_key e) = [p]" by (auto simp: key attempt_of_key)
  have "h \<in> set (attempt_of ?js (group_key e))" unfolding set_attempt_of key by (simp add: hrow att group_key_def)
  with p have hp: "p = h" by simp
  note app = w' [unfolded append_journal_Inr id]
  have "set (entry_refs e) \<subseteq> set (entry_refs h) \<union> {ci_sandboxLaunchSpecRef i}"
    by (auto simp: e entry_refs_def claimed_entry_def)
  then have row_ok: "row_ok (db_artifacts w) ?r e"
    using app refs rh id unfolding row_ok_def read_all_Inr by auto
  have phases: "je_phase e = Dispatch_claimed" "repeats_attempt_fields h e"
    by (simp_all add: e claimed_entry_def repeats_attempt_fields_def)
  have ft: "from_terminal [h] = []" "from_terminal [h, e] = []" using hrow phases by (simp_all add: from_terminal_def)
  have "attempt_ok ([h] @ [e])"
    using hrow phases ft by (simp add: attempt_ok_def settled_ok_def legal_group_def group_of_def legal_phases_def Let_def)
  then have "continues_attempt (db_artifacts w) ?r ?js a e (run_budgetReserved a) (run_budgetConsumed a)"
    using row_ok app phases p hp ft led
    by (intro continues_unsettled [of _ _ _ _ "[h]"]) (auto simp: group_reserved_def group_consumed_def)
  with a app charged_same [OF a] show ?thesis by auto
qed

lemma claim_moves:
  assumes "claim_validated_invocation w owner i validate now = (res, w')" and "db_ok w"
  shows "ledger_move w w'"
proof (cases "and_then (cv_readCut validate w) (\<lambda>_. and_then (read_all w [ci_sandboxLaunchSpecRef i]) (\<lambda>_.
    throw_if (ci_sandboxLaunchSpecRef i \<noteq> None \<and> ci_brokerFenceTokenDigest i \<noteq> None) (Storage Invalid_request)))")
  case (Inl f)
  with assms(1) show ?thesis by (auto simp: claim_validated_invocation_def intro: ledger_move.other)
next
  case (Inr u)
  then have refs: "read_all w [ci_sandboxLaunchSpecRef i] = Inr ()" by (simp add: and_then_Inr)
  from assms(1) Inr have "run_transaction (and_then (assert_active_state_owner w owner) (\<lambda>_.
      behind_fence w (so_ownerEpoch owner) now (\<lambda>w'. claim_row w' owner i validate now))) w = (res, w')"
    by (simp add: claim_validated_invocation_def)
  then show ?thesis
  proof (cases rule: fenced_transaction)
    case refused
    then show ?thesis by (rule ledger_move.other)
  next
    case (accepted e f)
    have ok1: "db_ok (w\<lparr>db_fence := Some (fence_at (so_ownerEpoch owner) now)\<rparr>)"
      by (rule db_ok_elsewhere [OF assms(2) accepted(5)])
    have refs1: "read_all (w\<lparr>db_fence := Some (fence_at (so_ownerEpoch owner) now)\<rparr>) [ci_sandboxLaunchSpecRef i] = Inr ()"
      using refs unfolding read_all_Inr by simp
    from claim_row_move [OF accepted(4) ok1 refs1] accepted(5) show ?thesis
      by (blast intro: ledger_move.continues elsewhere_refl)
  qed
qed

section \<open>Abandoning and rolling back\<close>

lemma find_Some_in: "find P xs = Some x \<Longrightarrow> x \<in> set xs \<and> P x"
  by (auto simp: find_Some_iff)

text \<open>An attempt whose outcome is unknown takes one more row, of the same claim and settlement.\<close>

lemma resolution_continues:
  assumes led: "ledger_ok arts r js (run_budgetReserved a) (run_budgetConsumed a)"
    and es: "attempt_of js (group_key e) = [p, c, u]" "je_phase u = Unknown"
    and row: "row_ok arts r e" and seq: "je_seq e = next_seq js" and ph: "je_phase e \<in> {Completed, Failed, Abandoned}"
    and rep: "repeats_attempt_fields p e" "repeats_claim_fields c e"
    and ref: "je_budgetSettlementRef e = je_budgetSettlementRef u"
  shows "continues_attempt arts r js a e (run_budgetReserved a) (run_budgetConsumed a)"
proof -
  from ledger_attempt [OF led, of "group_key e"] es have ok: "attempt_ok [p, c, u]" by simp
  then have l: "je_phase p = Prepared" "je_phase c = Dispatch_claimed" "repeats_claim_fields c u"
    by (auto simp: attempt_ok_def elim!: legal_group_cases)
  have ft: "from_terminal [p, c, u] = [u]" "from_terminal [p, c, u, e] = [u, e]" using l es(2) by (simp_all add: from_terminal_def)
  have "attempt_ok ([p, c, u] @ [e])"
    using ok l es(2) ph rep ref ft
    by (auto simp: attempt_ok_def settled_ok_def legal_group_def group_of_def legal_phases_def Let_def)
  then show ?thesis
    using row seq ph es rep(1) ft led
    by (intro continues_unsettled [of _ _ _ _ "[p, c, u]"]) (auto simp: group_reserved_def group_consumed_def)
qed

lemma abandon_row_move:
  assumes row: "abandon_row w r opId attempt attestation now = Inr (e, w')" and ok: "db_ok w"
    and refs: "read_all w [Some attestation] = Inr ()"
  shows "\<exists>a. db_runs w r = Some a \<and>
    continues_attempt (db_artifacts w) r (db_journal w r) a e (run_budgetReserved a) (run_budgetConsumed a) \<and>
    w' = charged w r a e (run_budgetReserved a) (run_budgetConsumed a)"
proof -
  let ?js = "db_journal w r" and ?es = "read_invocation_attempt (db_journal w r) opId attempt"
  from row obtain u c n where u: "find (\<lambda>e. je_phase e = Unknown) ?es = Some u"
    and c: "find (\<lambda>e. je_phase e = Dispatch_claimed) ?es = Some c"
    and no: "\<not> (\<exists>e\<in>set ?es. je_phase e = Abandoned)"
    and e: "e = abandoned_entry c u attestation n now" and w': "append_journal w e = Inr w'"
    unfolding abandon_row_def Let_def by (auto simp: and_then_Inr split: option.splits if_splits)
  note uc = find_Some_in [OF u] find_Some_in [OF c]
  from uc obtain a where a: "db_runs w r = Some a" using db_ok_run [OF ok] by auto
  note led = conjunct2 [OF db_okD [OF ok a]]
  have ru: "row_ok (db_artifacts w) r u" "row_ok (db_artifacts w) r c" using ledger_row [OF led] uc by auto
  have id: "je_runId e = r" using ru by (simp add: e abandoned_entry_def row_ok_def)
  have key: "group_key e = (opId, attempt)" using uc by (simp add: e abandoned_entry_def group_key_def)
  have ph: "je_phase e = Abandoned" by (simp add: e abandoned_entry_def)
  note app = w' [unfolded append_journal_Inr id]
  have es: "attempt_of ?js (group_key e) = ?es" by (simp add: key attempt_of_key)
  have ne: "attempt_of ?js (group_key e) \<noteq> []" unfolding es using uc by (metis empty_iff empty_set)
  have free: "set (map je_phase ?es) \<inter> {Completed, Failed, Abandoned} = {}"
    using app ph key by (auto simp: run_journal_validate_insert_def phases_of_attempt_def Let_def group_key_def)
  from ledger_attempt [OF led ne] have "legal_group (group_of ?es)" by (simp add: attempt_ok_def es)
  then obtain p where p: "?es = [p, c, u]"
  proof (cases rule: legal_group_cases)
    case (settled p c' t)
    with u c have "c' = c" "t = u" by auto
    with settled(1) that show thesis by simp
  qed (use uc free in auto)
  have rep: "repeats_attempt_fields p c" "repeats_claim_fields c c"
    using ledger_attempt [OF led ne] by (simp_all add: attempt_ok_def es p repeats_claim_fields_def)
  have "set (entry_refs e) \<subseteq> set (entry_refs c) \<union> set (entry_refs u) \<union> {Some attestation}"
    by (auto simp: e entry_refs_def abandoned_entry_def)
  then have row_ok: "row_ok (db_artifacts w) r e"
    using app refs ru id unfolding row_ok_def read_all_Inr by auto
  have "continues_attempt (db_artifacts w) r ?js a e (run_budgetReserved a) (run_budgetConsumed a)"
    by (rule resolution_continues [OF led es [unfolded p]])
       (use uc row_ok app ph rep in \<open>auto simp: e abandoned_entry_def repeats_attempt_fields_def repeats_claim_fields_def\<close>)
  with a app charged_same [OF a] show ?thesis by auto
qed

lemma abandon_moves:
  assumes "abandon_unknown_invocation w owner r opId attempt attestation now = (res, w')" and "db_ok w"
  shows "ledger_move w w'"
proof (cases "read_all w [Some attestation]")
  case (Inl f)
  with assms(1) show ?thesis by (auto simp: abandon_unknown_invocation_def intro: ledger_move.other)
next
  case (Inr u)
  then have refs: "read_all w [Some attestation] = Inr ()" by simp
  from assms(1) Inr have "run_transaction (and_then (assert_active_state_owner w owner) (\<lambda>_.
      behind_fence w (so_ownerEpoch owner) now (\<lambda>w'. abandon_row w' r opId attempt attestation now))) w = (res, w')"
    by (simp add: abandon_unknown_invocation_def)
  then show ?thesis
  proof (cases rule: fenced_transaction)
    case refused
    then show ?thesis by (rule ledger_move.other)
  next
    case (accepted e f)
    have ok1: "db_ok (w\<lparr>db_fence := Some (fence_at (so_ownerEpoch owner) now)\<rparr>)"
      by (rule db_ok_elsewhere [OF assms(2) accepted(5)])
    have refs1: "read_all (w\<lparr>db_fence := Some (fence_at (so_ownerEpoch owner) now)\<rparr>) [Some attestation] = Inr ()"
      using refs unfolding read_all_Inr by simp
    from abandon_row_move [OF accepted(4) ok1 refs1] accepted(5) show ?thesis
      by (blast intro: ledger_move.continues elsewhere_refl)
  qed
qed

text \<open>A rollback plan is made from rows of the journal, and its evidence has been published.\<close>

definition plan_of_journal :: "kernel_db \<Rightarrow> string \<Rightarrow> rollback_plan \<Rightarrow> bool" where
  "plan_of_journal w r p \<longleftrightarrow>
     rp_prepared p \<in> set (db_journal w r) \<and> rp_claim p \<in> set (db_journal w r) \<and> rp_unknown p \<in> set (db_journal w r) \<and>
     artifact_ref_ok (rp_artifact p) \<and> rp_artifact p \<in> set (db_artifacts w)"

lemma seq_unique:
  assumes "ledger_ok arts r js res con" and "e \<in> set js" and "f \<in> set js" and "je_seq e = je_seq f"
  shows "e = f"
proof -
  from assms(1) obtain n groups highest where "graph_describes js n groups highest" by (auto simp: ledger_ok_def)
  then have "distinct (map je_seq js)" by (simp add: graph_describesD(5) distinct_map inj_on_def)
  with assms(2-4) show ?thesis by (auto simp: distinct_map inj_on_def)
qed

lemma rollback_row_move:
  assumes row: "resolve_private_rollback_invocation w owner (Some p) r now = Inr (e, w')" and ok: "db_ok w"
    and plan: "plan_of_journal w r p"
  shows "\<exists>a. db_runs w r = Some a \<and>
    continues_attempt (db_artifacts w) r (db_journal w r) a e (run_budgetReserved a) (run_budgetConsumed a) \<and>
    w' = charged w r a e (run_budgetReserved a) (run_budgetConsumed a)"
proof -
  let ?js = "db_journal w r" and ?es = "read_invocation_attempt (db_journal w r) (je_opId (rp_prepared p)) (je_attempt (rp_prepared p))"
  from row obtain a n where a: "db_runs w r = Some a" and len: "length ?es = 3"
    and seqs: "je_seq (?es ! 0) = je_seq (rp_prepared p)" "je_seq (?es ! 1) = je_seq (rp_claim p)"
      "je_seq (?es ! 2) = je_seq (rp_unknown p)"
    and unknown: "je_phase (?es ! 2) = Unknown"
    and e: "e = rolled_back_entry p n now" and w': "append_journal w e = Inr w'"
    unfolding resolve_private_rollback_invocation_def Let_def
    by (auto simp: and_then_Inr read_run_def split: option.splits if_splits)
  note led = conjunct2 [OF db_okD [OF ok a]]
  from len obtain p0 c u where l: "?es = [p0, c, u]" by (auto simp: length_Suc_conv numeral_3_eq_3)
  have mem: "set ?es \<subseteq> set ?js" by auto
  have eqs: "p0 = rp_prepared p" "c = rp_claim p" "u = rp_unknown p"
    using seq_unique [OF led] plan seqs l mem by (auto simp: plan_of_journal_def)
  have key: "group_key e = group_key c" by (simp add: e rolled_back_entry_def group_key_def eqs)
  have "c \<in> set ?es" using l by simp
  then have key': "group_key e = (je_opId (rp_prepared p), je_attempt (rp_prepared p))" unfolding key by (auto simp: group_key_def)
  have es: "attempt_of ?js (group_key e) = [p0, c, u]" by (simp add: key' attempt_of_key l)
  have ru: "row_ok (db_artifacts w) r u" "row_ok (db_artifacts w) r c" using ledger_row [OF led] mem l by auto
  have id: "je_runId e = r" using ru by (simp add: e rolled_back_entry_def row_ok_def eqs)
  note app = w' [unfolded append_journal_Inr id]
  have rep: "repeats_attempt_fields p0 c"
    using ledger_attempt [OF led, of "group_key e"] by (simp add: attempt_ok_def es)
  have "set (entry_refs e) \<subseteq> set (entry_refs c) \<union> set (entry_refs u) \<union> {Some (rp_artifact p)}"
    by (auto simp: e entry_refs_def rolled_back_entry_def eqs)
  then have row_ok: "row_ok (db_artifacts w) r e"
    using app plan ru id unfolding row_ok_def plan_of_journal_def by auto
  have "continues_attempt (db_artifacts w) r ?js a e (run_budgetReserved a) (run_budgetConsumed a)"
    by (rule resolution_continues [OF led es])
       (use unknown l row_ok app rep eqs in
         \<open>auto simp: e rolled_back_entry_def repeats_attempt_fields_def repeats_claim_fields_def\<close>)
  with a app charged_same [OF a] show ?thesis by auto
qed

end
