(* ===== verification/Ledger_Settlement.thy ===== *)
theory Ledger_Settlement
  imports Ledger_Reducer
begin

text \<open>
  A settlement is staged from a snapshot, and committed when its run, its attempt and the length of the journal are
  still those of the snapshot.  What is true of a staged settlement stays true while the ledger moves on, and makes
  its commit a move of the ledger.
\<close>

section \<open>Staged settlements\<close>

definition staged_shape :: "staged_settlement \<Rightarrow> bool" where
  "staged_shape sg \<longleftrightarrow>
     (let s = sg_settlement sg; p = sg_prepared sg; i = sg_input sg in
      je_phase p = Prepared \<and> group_key p = (se_opId i, se_attempt i) \<and>
      bs_runId s = se_runId i \<and> bs_opId s = se_opId i \<and> bs_attempt s = se_attempt i \<and>
      bs_preparedJournalSeq s = je_seq p \<and> bs_terminalPhase s = settlement_phase (sg_terminal sg) \<and>
      bs_reserved s = je_budgetDelta p \<and> balanced s)"

definition readable :: "kernel_db \<Rightarrow> artifact_ref option list \<Rightarrow> bool" where
  "readable w rs \<longleftrightarrow> (\<forall>ref. Some ref \<in> set rs \<longrightarrow> artifact_ref_ok ref \<and> ref \<in> set (db_artifacts w))"

text \<open>As long as no row follows, the counters are the ones it was computed from.\<close>

definition staged_current :: "kernel_db \<Rightarrow> staged_settlement \<Rightarrow> bool" where
  "staged_current w sg \<longleftrightarrow>
     (let s = sg_settlement sg; r = se_runId (sg_input sg) in
      bs_terminalJournalSeq s \<le> int (length (db_journal w r)) + 1 \<and>
      (bs_terminalJournalSeq s = int (length (db_journal w r)) + 1 \<longrightarrow>
         (\<forall>a. db_runs w r = Some a \<longrightarrow>
            run_budgetReserved a = bs_budgetReservedBefore s \<and> run_budgetConsumed a = bs_budgetConsumedBefore s)))"

definition staged_ok :: "kernel_db \<Rightarrow> staged_settlement \<Rightarrow> bool" where
  "staged_ok w sg \<longleftrightarrow>
     staged_shape sg \<and> sg_prepared sg \<in> set (db_journal w (se_runId (sg_input sg))) \<and>
     Settlement_artifact (sg_settlement sg) \<in> set (db_artifacts w) \<and> readable w (settlement_refs (sg_terminal sg)) \<and>
     staged_current w sg"

text \<open>Journals grow at the end, and while one does not grow, neither do the counters of its run change.\<close>

definition grows :: "kernel_db \<Rightarrow> kernel_db \<Rightarrow> bool" where
  "grows w w' \<longleftrightarrow>
     set (db_artifacts w) \<subseteq> set (db_artifacts w') \<and>
     (\<forall>r. \<exists>ks. db_journal w' r = db_journal w r @ ks) \<and>
     (\<forall>r a b. db_journal w' r = db_journal w r \<longrightarrow> db_runs w r = Some a \<longrightarrow> db_runs w' r = Some b \<longrightarrow>
        run_budgetReserved b = run_budgetReserved a \<and> run_budgetConsumed b = run_budgetConsumed a)"

lemma elsewhere_grows: "elsewhere w w' \<Longrightarrow> grows w w'"
  unfolding grows_def
proof (intro conjI allI impI)
  assume e: "elsewhere w w'"
  show "set (db_artifacts w) \<subseteq> set (db_artifacts w')" by (rule elsewhere_fields(2) [OF e])
  show "\<exists>ks. db_journal w' r = db_journal w r @ ks" for r by (simp add: elsewhere_fields(1) [OF e])
  fix r a b assume "db_runs w r = Some a" "db_runs w' r = Some b"
  with elsewhere_run [OF e] show "run_budgetReserved b = run_budgetReserved a" "run_budgetConsumed b = run_budgetConsumed a"
    by (fastforce simp: same_account_def)+
qed

lemma charged_grows:
  assumes "elsewhere w w1" and "elsewhere (charged w1 r a e res con) w'"
  shows "grows w w'"
  unfolding grows_def
proof (intro conjI allI impI)
  show "set (db_artifacts w) \<subseteq> set (db_artifacts w')"
    using elsewhere_fields(2) [OF assms(1)] elsewhere_fields(2) [OF assms(2)] by (auto simp: charged_def)
  have js: "db_journal w' = (db_journal w)(r := db_journal w r @ [e])"
    using elsewhere_fields(1) [OF assms(1)] elsewhere_fields(1) [OF assms(2)] by (simp add: charged_def)
  show "\<exists>ks. db_journal w' q = db_journal w q @ ks" for q by (simp add: js)
  fix q x y assume q: "db_journal w' q = db_journal w q" "db_runs w q = Some x" "db_runs w' q = Some y"
  then have "q \<noteq> r" by (auto simp: js)
  moreover from elsewhere_run [OF assms(1) q(2)] obtain z where z: "db_runs w1 q = Some z" "same_account x z" by blast
  ultimately have "same_account z y"
    using elsewhere_run [OF assms(2), of q z] q(3) by (simp add: charged_def)
  with z(2) show "run_budgetReserved y = run_budgetReserved x" "run_budgetConsumed y = run_budgetConsumed x"
    by (simp_all add: same_account_def)
qed

lemma move_grows: "ledger_move w w' \<Longrightarrow> grows w w'"
  by (cases rule: ledger_move.cases, assumption) (blast intro: elsewhere_grows charged_grows)+

lemma staged_current_grows:
  assumes cur: "staged_current w sg" and "grows w w'" and a: "db_runs w (se_runId (sg_input sg)) = Some a"
  shows "staged_current w' sg"
proof -
  let ?r = "se_runId (sg_input sg)" and ?s = "sg_settlement sg"
  from assms(2) obtain ks where ks: "db_journal w' ?r = db_journal w ?r @ ks" unfolding grows_def by blast
  have le: "bs_terminalJournalSeq ?s \<le> int (length (db_journal w ?r)) + 1" using cur by (simp add: staged_current_def Let_def)
  have "run_budgetReserved b = bs_budgetReservedBefore ?s \<and> run_budgetConsumed b = bs_budgetConsumedBefore ?s"
    if "bs_terminalJournalSeq ?s = int (length (db_journal w' ?r)) + 1" and b: "db_runs w' ?r = Some b" for b
  proof -
    from le that(1) ks have "ks = []" by simp
    with ks that(1) cur a have "run_budgetReserved a = bs_budgetReservedBefore ?s"
      "run_budgetConsumed a = bs_budgetConsumedBefore ?s" by (simp_all add: staged_current_def Let_def)
    moreover have "run_budgetReserved b = run_budgetReserved a \<and> run_budgetConsumed b = run_budgetConsumed a"
    proof -
      have "db_journal w' ?r = db_journal w ?r" using ks \<open>ks = []\<close> by simp
      with assms(2) a b show ?thesis unfolding grows_def by blast
    qed
    ultimately show ?thesis by simp
  qed
  with le ks show ?thesis by (simp add: staged_current_def Let_def)
qed

lemma readable_mono: "readable w rs \<Longrightarrow> set (db_artifacts w) \<subseteq> set (db_artifacts w') \<Longrightarrow> readable w' rs"
  unfolding readable_def by blast

lemma staged_ok_grows:
  assumes "staged_ok w sg" and "grows w w'" and "db_ok w"
  shows "staged_ok w' sg"
proof -
  let ?r = "se_runId (sg_input sg)"
  from assms(2) obtain ks where ks: "db_journal w' ?r = db_journal w ?r @ ks" unfolding grows_def by blast
  have arts: "set (db_artifacts w) \<subseteq> set (db_artifacts w')" using assms(2) by (simp add: grows_def)
  from assms(1) have p: "sg_prepared sg \<in> set (db_journal w ?r)" by (simp add: staged_ok_def)
  from db_ok_run [OF assms(3) p] obtain a where a: "db_runs w ?r = Some a" by blast
  have "staged_current w' sg"
    by (rule staged_current_grows [OF _ assms(2) a]) (use assms(1) in \<open>simp add: staged_ok_def\<close>)
  moreover have "readable w' (settlement_refs (sg_terminal sg))"
    by (rule readable_mono [OF _ arts]) (use assms(1) in \<open>simp add: staged_ok_def\<close>)
  ultimately show ?thesis
    using assms(1) arts p ks by (auto simp: staged_ok_def)
qed

section \<open>Staging\<close>

text \<open>A retained settlement belongs to a completion of the same attempt that was staged before.\<close>

definition retained_from :: "staged_settlement list \<Rightarrow> settle_input \<Rightarrow> settlement_kind \<Rightarrow> budget_settlement option \<Rightarrow> bool" where
  "retained_from staged i terminal retained \<longleftrightarrow>
     (\<forall>s. retained = Some s \<longrightarrow>
        (\<exists>sg\<in>set staged. sg_settlement sg = s \<and> sg_terminal sg = terminal \<and> se_runId (sg_input sg) = se_runId i \<and>
           se_opId (sg_input sg) = se_opId i \<and> se_attempt (sg_input sg) = se_attempt i))"

text \<open>A continuation writes other tables, and the evidence it substitutes has been published.\<close>

definition quiet_continuation :: "kernel_db \<Rightarrow> settlement_continuation option \<Rightarrow> bool" where
  "quiet_continuation w continuation \<longleftrightarrow>
     (\<forall>c w1 a e s p. continuation = Some c \<longrightarrow> c w1 a e s = Inr p \<longrightarrow>
        (\<forall>f x b g t y. cp_commit p = Some f \<longrightarrow> f x b g t = Inr y \<longrightarrow> elsewhere x y) \<and>
        (\<forall>ev d. cp_unknownEvidence p = Some (ev, d) \<longrightarrow> artifact_ref_ok ev \<and> ev \<in> set (db_artifacts w)))"

definition quiet_plan :: "staged_settlement \<Rightarrow> bool" where
  "quiet_plan sg \<longleftrightarrow>
     (\<forall>f x b g t y. Option.bind (sg_plan sg) cp_commit = Some f \<longrightarrow> f x b g t = Inr y \<longrightarrow> elsewhere x y)"

lemma prepared_unique:
  assumes led: "ledger_ok arts r js res con" and "p \<in> set js" and "q \<in> set js"
    and "je_phase p = Prepared" and "je_phase q = Prepared" and "group_key p = group_key q"
  shows "p = q"
proof -
  have mem: "p \<in> set (attempt_of js (group_key p))" "q \<in> set (attempt_of js (group_key p))"
    using assms by (simp_all add: set_attempt_of)
  then have "attempt_of js (group_key p) \<noteq> []" by auto
  from ledger_attempt [OF led this] have "legal_group (group_of (attempt_of js (group_key p)))" by (simp add: attempt_ok_def)
  then show ?thesis by (cases rule: legal_group_cases) (use mem assms(4,5) in auto)
qed

lemma consumed_proper: "consumed_by t p = Inr c \<Longrightarrow> proper_budget (je_budgetDelta p) \<Longrightarrow> proper_budget c"
  by (cases t) (auto split: if_splits)

lemma row_delta: "row_ok arts r e \<Longrightarrow> proper_budget (je_budgetDelta e)"
  by (auto simp: row_ok_def journal_base_ok_def is_ok_iff)

lemma snapshot_Inr:
  assumes "settlement_snapshot typedAssembly continued w i terminal = Inr ss"
  shows "db_runs w (se_runId i) = Some (ss_run ss)"
    "find (\<lambda>e. je_phase e = Prepared) (read_invocation_attempt (db_journal w (se_runId i)) (se_opId i) (se_attempt i)) =
       Some (ss_prepared ss)"
    "consumed_by terminal (ss_prepared ss) = Inr (ss_consumed ss)"
    "subtract_budget (run_budgetReserved (ss_run ss)) (je_budgetDelta (ss_prepared ss)) = Inr (ss_reservedAfter ss)"
    "add_budget (run_budgetConsumed (ss_run ss)) (ss_consumed ss) = Inr (ss_consumedAfter ss)"
  using assms unfolding settlement_snapshot_def Let_def
  by (auto simp: and_then_Inr read_run_def split: option.split_asm)

lemma stage_Inr:
  assumes "stage_settlement typedAssembly w i terminal continuation retained sampled = Inr (sg, w1)"
  obtains ss where "read_all w (settlement_refs terminal) = Inr ()"
    "settlement_snapshot typedAssembly (\<not> Option.is_none continuation) w i terminal = Inr ss"
    "fix_settlement w i terminal ss retained sampled = Inr (sg_settlement sg)"
    "w1 = w\<lparr>db_artifacts := Settlement_artifact (sg_settlement sg) # db_artifacts w\<rparr>"
    "(case continuation of
         None \<Rightarrow> Inr None
       | Some c \<Rightarrow> and_then (c w1 (ss_run ss) (ss_prepared ss) (sg_settlement sg)) (\<lambda>p. Inr (Some p))) = Inr (sg_plan sg)"
    "selected_terminal terminal (sg_plan sg) = Inr (sg_terminal sg)"
    "sg_input sg = i" "sg_prepared sg = ss_prepared ss" "sg_claim sg = ss_claim ss" "sg_run sg = ss_run ss"
  using assms unfolding stage_settlement_def Let_def by (cases continuation) (auto simp: and_then_Inr)

lemma selected_phase: "selected_terminal terminal plan = Inr t \<Longrightarrow> settlement_phase t = settlement_phase terminal"
  by (cases plan) (auto split: option.splits if_splits prod.splits)

lemma fresh_settlement_balanced:
  assumes "subtract_budget (run_budgetReserved a) (je_budgetDelta p) = Inr res" and "add_budget (run_budgetConsumed a) c = Inr con"
    and "proper_budget (run_budgetReserved a)" and "proper_budget (run_budgetConsumed a)"
    and "proper_budget (je_budgetDelta p)" and "proper_budget c"
  shows "balanced (settlement_of i terminal a p n t c res con)"
  using assms by (auto simp: balanced_def settlement_of_def subtract_budget_Inr add_budget_Inr)

text \<open>Staging leaves the tables alone and makes a settlement that is right for them.\<close>

lemma stage_ok:
  assumes st: "stage_settlement typedAssembly w i terminal continuation retained sampled = Inr (sg, w1)" and ok: "db_ok w"
    and staged: "\<forall>sg\<in>set staged. staged_ok w sg" and kept: "retained_from staged i terminal retained"
    and quiet: "quiet_continuation w continuation"
  shows "elsewhere w w1 \<and> staged_ok w1 sg \<and> quiet_plan sg"
proof -
  from st obtain ss where refs: "read_all w (settlement_refs terminal) = Inr ()"
    and ss: "settlement_snapshot typedAssembly (\<not> Option.is_none continuation) w i terminal = Inr ss"
    and fix': "fix_settlement w i terminal ss retained sampled = Inr (sg_settlement sg)"
    and w1: "w1 = w\<lparr>db_artifacts := Settlement_artifact (sg_settlement sg) # db_artifacts w\<rparr>"
    and plan: "(case continuation of
         None \<Rightarrow> Inr None
       | Some c \<Rightarrow> and_then (c w1 (ss_run ss) (ss_prepared ss) (sg_settlement sg)) (\<lambda>p. Inr (Some p))) = Inr (sg_plan sg)"
    and sel: "selected_terminal terminal (sg_plan sg) = Inr (sg_terminal sg)"
    and sg: "sg_input sg = i" "sg_prepared sg = ss_prepared ss" by (rule stage_Inr)
  let ?r = "se_runId i" and ?js = "db_journal w (se_runId i)" and ?p = "ss_prepared ss" and ?a = "ss_run ss"
  note snap = snapshot_Inr [OF ss]
  note led = conjunct2 [OF db_okD [OF ok snap(1)]]
  from find_Some_in [OF snap(2)] have p: "?p \<in> set ?js" "je_phase ?p = Prepared" "group_key ?p = (se_opId i, se_attempt i)"
    by (auto simp: group_key_def)
  have proper: "proper_budget (run_budgetReserved ?a)" "proper_budget (run_budgetConsumed ?a)" "proper_budget (je_budgetDelta ?p)"
    using led row_delta [OF ledger_row [OF led p(1)]] by (simp_all add: ledger_ok_def)
  have q: "\<And>c y. continuation = Some c \<Longrightarrow> sg_plan sg = Some y \<Longrightarrow> c w1 ?a ?p (sg_settlement sg) = Inr y"
    and none: "continuation = None \<Longrightarrow> sg_plan sg = None"
    using plan by (auto simp: and_then_Inr)
  have quiet_sg: "quiet_plan sg"
    unfolding quiet_plan_def
  proof (intro allI impI)
    fix f x b g t y assume f: "Option.bind (sg_plan sg) cp_commit = Some f" and y: "f x b g t = Inr y"
    then obtain z where z: "sg_plan sg = Some z" "cp_commit z = Some f" by (auto simp: Option.bind_eq_Some_conv)
    with none obtain c where c: "continuation = Some c" by (cases continuation) auto
    from q [OF c z(1)] c z(2) y quiet show "elsewhere x y" unfolding quiet_continuation_def by blast
  qed
  have readable: "readable w (settlement_refs (sg_terminal sg))"
  proof (cases "sg_plan sg")
    case None
    with sel refs show ?thesis by (simp add: readable_def read_all_Inr)
  next
    case (Some y)
    then obtain c where c: "continuation = Some c" using none by (cases continuation) auto
    show ?thesis
    proof (cases "cp_unknownEvidence y")
      case None
      with Some sel refs show ?thesis by (simp add: readable_def read_all_Inr)
    next
      case (Some ev)
      obtain e d where e: "ev = (e, d)" by (cases ev)
      with Some \<open>sg_plan sg = Some y\<close> sel have "sg_terminal sg = Settle_unknown e d" by (auto split: if_splits)
      moreover have "artifact_ref_ok e \<and> e \<in> set (db_artifacts w)"
        using quiet q [OF c \<open>sg_plan sg = Some y\<close>] c Some e unfolding quiet_continuation_def by blast
      ultimately show ?thesis by (simp add: readable_def)
    qed
  qed
  have shape: "staged_shape sg \<and> staged_current w sg"
  proof (cases retained)
    case None
    with fix' have "\<exists>f :: time_fence. settlement_of i terminal ?a ?p (next_seq ?js) (max sampled (tf_lastAcceptedAt f))
        (ss_consumed ss) (ss_reservedAfter ss) (ss_consumedAfter ss) = sg_settlement sg"
      by (auto simp: fix_settlement_def and_then_Inr split: option.splits)
    then obtain f :: time_fence where s: "sg_settlement sg = settlement_of i terminal ?a ?p (next_seq ?js)
        (max sampled (tf_lastAcceptedAt f)) (ss_consumed ss) (ss_reservedAfter ss) (ss_consumedAfter ss)" by metis
    have "balanced (sg_settlement sg)"
      unfolding s by (rule fresh_settlement_balanced [OF snap(4,5) proper consumed_proper [OF snap(3) proper(3)]])
    then show ?thesis
      using p selected_phase [OF sel] snap(1) ledger_next_seq [OF led]
      by (simp add: staged_shape_def staged_current_def Let_def sg s settlement_of_def)
  next
    case (Some s)
    with kept obtain sg0 where sg0: "sg0 \<in> set staged" "sg_settlement sg0 = s" "sg_terminal sg0 = terminal"
      "se_runId (sg_input sg0) = se_runId i" "se_opId (sg_input sg0) = se_opId i" "se_attempt (sg_input sg0) = se_attempt i"
      by (auto simp: retained_from_def)
    have s: "sg_settlement sg = s" using fix' Some by (simp add: fix_settlement_def)
    from staged sg0(1) have old: "staged_ok w sg0" by blast
    then have p0: "sg_prepared sg0 \<in> set ?js" "je_phase (sg_prepared sg0) = Prepared" "group_key (sg_prepared sg0) = group_key ?p"
      using p(3) by (simp_all add: staged_ok_def staged_shape_def Let_def sg0)
    have "sg_prepared sg0 = ?p" by (rule prepared_unique [OF led p0(1) p(1) p0(2) p(2) p0(3)])
    with old show ?thesis
      using selected_phase [OF sel] by (simp add: staged_ok_def staged_shape_def staged_current_def Let_def sg s sg0)
  qed
  have e: "elsewhere w w1" unfolding w1 by (rule elsewhere_artifacts)
  have "staged_current w1 sg" using staged_current_grows [OF _ elsewhere_grows [OF e]] shape snap(1) by (simp add: sg)
  moreover have "readable w1 (settlement_refs (sg_terminal sg))"
    by (rule readable_mono [OF readable]) (auto simp: w1)
  ultimately have "staged_ok w1 sg" using shape p by (simp add: staged_ok_def sg w1)
  with e quiet_sg show ?thesis by blast
qed

section \<open>Committing\<close>

lemma settled_entry_fields:
  "je_runId (settled_entry sg src) = je_runId src" "je_opId (settled_entry sg src) = je_opId src"
  "je_opKind (settled_entry sg src) = je_opKind src" "je_attempt (settled_entry sg src) = je_attempt src"
  "je_leaseEpoch (settled_entry sg src) = je_leaseEpoch src" "je_target (settled_entry sg src) = je_target src"
  "je_requestRef (settled_entry sg src) = je_requestRef src" "je_replayClass (settled_entry sg src) = je_replayClass src"
  "je_idempotencyKey (settled_entry sg src) = je_idempotencyKey src" "je_grantRef (settled_entry sg src) = je_grantRef src"
  "je_sandboxLaunchSpecRef (settled_entry sg src) = je_sandboxLaunchSpecRef src"
  "je_dispatchId (settled_entry sg src) = je_dispatchId src"
  "je_supervisorInstanceId (settled_entry sg src) = je_supervisorInstanceId src"
  "je_stateOwnerEpoch (settled_entry sg src) = je_stateOwnerEpoch src"
  "je_brokerFenceTokenDigest (settled_entry sg src) = je_brokerFenceTokenDigest src"
  "je_seq (settled_entry sg src) = bs_terminalJournalSeq (sg_settlement sg)"
  "je_phase (settled_entry sg src) = settlement_phase (sg_terminal sg)"
  "je_budgetDelta (settled_entry sg src) = bs_consumed (sg_settlement sg)"
  "je_budgetSettlementRef (settled_entry sg src) = Some (Settlement_artifact (sg_settlement sg))"
  "je_timestamp (settled_entry sg src) = bs_settledAt (sg_settlement sg)"
  by (cases "sg_terminal sg"; simp add: settled_entry_def)+

lemma settled_entry_refs:
  "set (entry_refs (settled_entry sg src)) \<subseteq>
     set (entry_refs src) \<union> set (settlement_refs (sg_terminal sg)) \<union> {Some (Settlement_artifact (sg_settlement sg))}"
  by (cases "sg_terminal sg") (auto simp: settled_entry_def entry_refs_def)

lemma settled_entry_repeats:
  "repeats_attempt_fields p src \<Longrightarrow> repeats_attempt_fields p (settled_entry sg src)"
  "repeats_claim_fields src (settled_entry sg src)"
  by (simp_all add: repeats_attempt_fields_def repeats_claim_fields_def settled_entry_fields)

lemma settlement_phase_terminal: "settlement_phase t \<in> {Completed, Failed, Unknown}"
  by (cases t) simp_all

text \<open>The attempt with its terminal row.\<close>

lemma settled_attempt:
  assumes es: "attempt_ok es" and open': "\<not> (\<exists>e\<in>set es. je_phase e \<in> settled_phases)"
    and p: "find (\<lambda>e. je_phase e = Prepared) es = Some p"
    and src: "src = (case find (\<lambda>e. je_phase e = Dispatch_claimed) es of None \<Rightarrow> p | Some c \<Rightarrow> c)"
    and ph: "settlement_phase (sg_terminal sg) \<in> {Completed, Unknown} \<longrightarrow> Dispatch_claimed \<in> set (map je_phase es)"
    and m: "settlement_matches (sg_settlement sg) p (settled_entry sg src)" and b: "balanced (sg_settlement sg)"
  shows "hd es = p \<and> src \<in> set es \<and> repeats_attempt_fields p (settled_entry sg src) \<and> attempt_ok (es @ [settled_entry sg src]) \<and>
    from_terminal es = [] \<and> from_terminal (es @ [settled_entry sg src]) = [settled_entry sg src]"
proof -
  let ?e = "settled_entry sg src"
  note t = settlement_phase_terminal [of "sg_terminal sg"]
  from es have "legal_group (group_of es)" "\<forall>e\<in>set es. repeats_attempt_fields (hd es) e" by (simp_all add: attempt_ok_def)
  then show ?thesis
  proof (cases rule: legal_group_cases)
    case (prepared q)
    then have q: "q = p" "src = p" using p src by auto
    have "settlement_phase (sg_terminal sg) = Failed" using t ph prepared by auto
    then show ?thesis
      using prepared q m b settled_entry_repeats(1) [of p p sg]
      by (auto simp: attempt_ok_def settled_ok_def legal_group_def group_of_def legal_phases_def from_terminal_def
          settled_entry_fields Let_def)
  next
    case (claimed q c)
    then have q: "q = p" "src = c" using p src by auto
    have c: "repeats_attempt_fields p c" using claimed q es by (simp add: attempt_ok_def)
    show ?thesis
      using claimed q m b t c settled_entry_repeats(1) [OF c, of sg] settled_entry_repeats(2) [of c sg]
      by (auto simp: attempt_ok_def settled_ok_def legal_group_def group_of_def legal_phases_def from_terminal_def
          settled_entry_fields Let_def)
  qed (use open' in \<open>auto simp: settled_phases_def\<close>)
qed

lemma settled_src:
  assumes "find (\<lambda>e. je_phase e = Prepared) es = Some p"
    and "src = (case find (\<lambda>e. je_phase e = Dispatch_claimed) es of None \<Rightarrow> p | Some c \<Rightarrow> c)"
  shows "src \<in> set es"
proof (cases "find (\<lambda>e. je_phase e = Dispatch_claimed) es")
  case (Some c)
  with assms(2) find_Some_in [OF Some] show ?thesis by simp
qed (use assms find_Some_in [OF assms(1)] in simp)

lemma commit_row_move:
  assumes row: "commit_row w sg a src t = Inr ((e, s, u), w')" and ok: "db_ok w" and sok: "staged_ok w sg" and quiet: "quiet_plan sg"
    and a: "db_runs w r = Some a" and r: "r = se_runId (sg_input sg)" and js: "js = db_journal w r"
    and es: "es = read_invocation_attempt js (se_opId (sg_input sg)) (se_attempt (sg_input sg))"
    and p: "find (\<lambda>e. je_phase e = Prepared) es = Some (sg_prepared sg)"
    and open': "\<not> (\<exists>e\<in>set es. je_phase e \<in> settled_phases)"
    and src: "src = (case find (\<lambda>e. je_phase e = Dispatch_claimed) es of None \<Rightarrow> sg_prepared sg | Some c \<Rightarrow> c)"
    and seq: "next_seq js = bs_terminalJournalSeq (sg_settlement sg)"
  shows "continues_attempt (db_artifacts w) r js a e (bs_budgetReservedAfter (sg_settlement sg)) (bs_budgetConsumedAfter (sg_settlement sg)) \<and>
    elsewhere (charged w r a e (bs_budgetReservedAfter (sg_settlement sg)) (bs_budgetConsumedAfter (sg_settlement sg))) w'"
proof -
  let ?s = "sg_settlement sg" and ?p = "sg_prepared sg"
  from row obtain w1 w2 w3 where e: "e = settled_entry sg src" and w1: "append_journal w e = Inr w1"
    and w2: "update_run_budgets w1 a (bs_budgetReservedAfter ?s) (bs_budgetConsumedAfter ?s) t Reducer_snapshot_changed = Inr w2"
    and w3: "(case Option.bind (sg_plan sg) cp_commit of None \<Rightarrow> Inr w2 | Some c \<Rightarrow> c w2 a e t) = Inr w3"
    and w': "append_run_state_event w3 u t = Inr w'"
    unfolding commit_row_def Let_def by (auto simp: and_then_Inr)
  note led = conjunct2 [OF db_okD [OF ok a]]
  have shape: "je_phase ?p = Prepared" "group_key ?p = (se_opId (sg_input sg), se_attempt (sg_input sg))" "bs_runId ?s = r"
    "bs_opId ?s = se_opId (sg_input sg)" "bs_attempt ?s = se_attempt (sg_input sg)" "bs_preparedJournalSeq ?s = je_seq ?p"
    "bs_terminalPhase ?s = settlement_phase (sg_terminal sg)" "bs_reserved ?s = je_budgetDelta ?p" "balanced ?s"
    using sok by (simp_all add: staged_ok_def staged_shape_def Let_def r)
  have key: "attempt_of js (group_key ?p) = es" by (simp add: shape(2) attempt_of_key es)
  have "es \<noteq> []" using p by auto
  with key ledger_attempt [OF led, of "group_key ?p"] have att: "attempt_ok es" by (simp add: js)
  have mem: "?p \<in> set es" "src \<in> set es" using find_Some_in [OF p] settled_src [OF p src] by simp_all
  have rows: "row_ok (db_artifacts w) r src" "row_ok (db_artifacts w) r ?p"
    using mem ledger_row [OF led] by (auto simp: es js)
  have id: "je_runId e = r" using rows by (simp add: e settled_entry_fields row_ok_def)
  have ekey: "group_key e = group_key ?p"
    using mem(2) by (auto simp: e group_key_def settled_entry_fields es shape(2) [unfolded group_key_def])
  note app = w1 [unfolded append_journal_Inr id, folded js]
  have claimed: "settlement_phase (sg_terminal sg) \<in> {Completed, Unknown} \<longrightarrow> Dispatch_claimed \<in> set (map je_phase es)"
    using app ekey by (auto simp: run_journal_validate_insert_def phases_of_attempt_def Let_def e settled_entry_fields
        key [symmetric] attempt_of_def group_key_def)
  have "settlement_matches ?s ?p e"
    using shape rows(2) by (simp add: settlement_matches_def e settled_entry_fields row_ok_def group_key_def)
  from settled_attempt [OF att open' p src claimed this [unfolded e] shape(9)]
  have sa: "hd es = ?p" "repeats_attempt_fields ?p e" "attempt_ok (es @ [e])" "from_terminal es = []" "from_terminal (es @ [e]) = [e]"
    by (simp_all add: e)
  have row_ok: "row_ok (db_artifacts w) r e"
    using app id rows settled_entry_refs [of sg src] sok
    unfolding row_ok_def staged_ok_def readable_def e by (auto simp: artifact_ref_ok_def)
  have len: "bs_terminalJournalSeq ?s = int (length js) + 1" using seq ledger_next_seq [OF led] by (simp add: js)
  have before: "run_budgetReserved a = bs_budgetReservedBefore ?s" "run_budgetConsumed a = bs_budgetConsumedBefore ?s"
    using sok len a by (simp_all add: staged_ok_def staged_current_def Let_def js r)
  have "continues_attempt (db_artifacts w) r js a e (bs_budgetReservedAfter ?s) (bs_budgetConsumedAfter ?s)"
    unfolding continues_attempt_def ekey key
    using row_ok app sa \<open>es \<noteq> []\<close> settlement_phase_terminal [of "sg_terminal sg"] before shape(8,9)
    by (auto simp: group_reserved_def group_consumed_def balanced_def map_budget_minus_plus e settled_entry_fields)
  moreover have "elsewhere (charged w r a e (bs_budgetReservedAfter ?s) (bs_budgetConsumedAfter ?s)) w2"
  proof -
    have "run_id a = r" using db_okD [OF ok a] by simp
    moreover have "db_runs w1 (run_id a) = Some a" using app a \<open>run_id a = r\<close> by simp
    ultimately show ?thesis using update_run_Inr [OF w2, of a] app by (simp add: charged_def js)
  qed
  moreover have "elsewhere w2 w3"
    using w3 quiet unfolding quiet_plan_def by (cases "Option.bind (sg_plan sg) cp_commit") auto
  moreover have "elsewhere w3 w'" by (rule append_event_elsewhere [OF w'])
  ultimately show ?thesis by (blast intro: elsewhere_trans)
qed

lemma commit_moves:
  assumes "commit_initial_settlement w owner sg t = (res, w')" and "db_ok w" and "staged_ok w sg" and "quiet_plan sg"
  shows "ledger_move w w'"
proof (cases "commit_guards w sg")
  case (Inl f)
  then have "run_transaction (and_then (assert_active_state_owner w owner) (\<lambda>_. Inl f)) w = (res, w')"
    using assms(1) by (simp add: commit_initial_settlement_def)
  then have "w' = w" by (cases "assert_active_state_owner w owner") (simp_all add: run_transaction_def)
  then show ?thesis by (simp add: ledger_move.other)
next
  case (Inr ac)
  then obtain a claim where g: "commit_guards w sg = Inr (a, claim)" by (cases ac) auto
  let ?r = "se_runId (sg_input sg)" and ?i = "sg_input sg"
  let ?es = "read_invocation_attempt (db_journal w ?r) (se_opId ?i) (se_attempt ?i)"
  have a: "db_runs w ?r = Some a" and p: "find (\<lambda>e. je_phase e = Prepared) ?es = Some (sg_prepared sg)"
    and c: "claim = find (\<lambda>e. je_phase e = Dispatch_claimed) ?es" and open': "\<not> (\<exists>e\<in>set ?es. je_phase e \<in> settled_phases)"
    and seq: "next_seq (db_journal w ?r) = bs_terminalJournalSeq (sg_settlement sg)"
    using g unfolding commit_guards_def Let_def
    by (auto simp: and_then_Inr read_run_def next_journal_sequence_def split: option.split_asm if_split_asm)
  from assms(1) g have "run_transaction (and_then (assert_active_state_owner w owner) (\<lambda>_.
      behind_fence w (so_ownerEpoch owner) t (\<lambda>w'. commit_row w' sg a (case claim of None \<Rightarrow> sg_prepared sg | Some c \<Rightarrow> c) t))) w
    = (res, w')"
    by (simp add: commit_initial_settlement_def)
  then show ?thesis
  proof (cases rule: fenced_transaction)
    case refused
    then show ?thesis by (rule ledger_move.other)
  next
    case (accepted x f)
    let ?w1 = "w\<lparr>db_fence := Some (fence_at (so_ownerEpoch owner) t)\<rparr>"
    obtain e s u where x: "x = (e, s, u)" by (cases x)
    have ok1: "db_ok ?w1" by (rule db_ok_elsewhere [OF assms(2) accepted(5)])
    have sok1: "staged_ok ?w1 sg" by (rule staged_ok_grows [OF assms(3) elsewhere_grows [OF accepted(5)] assms(2)])
    have a1: "db_runs ?w1 ?r = Some a" using a by simp
    have js1: "db_journal ?w1 ?r = db_journal w ?r" by simp
    note cm = commit_row_move [OF accepted(4) [unfolded x] ok1 sok1 assms(4) a1 refl refl refl, unfolded js1,
        OF p open' arg_cong [OF c, of "\<lambda>c. case c of None \<Rightarrow> sg_prepared sg | Some c \<Rightarrow> c"] seq]
    show ?thesis by (rule ledger_move.continues [OF accepted(5)]) (use cm a1 in auto)
  qed
qed

end
