(* ===== verification/Ledger_System.thy ===== *)
theory Ledger_System
  imports Ledger_Settlement
begin

text \<open>
  The ledger as a system: any sequence of the reducer's operations, on any inputs and at any times, with settlements
  staged and committed in any order and with whatever other reducers do in between.  Its invariant is that
  of the ledger, and that what is staged is right.
\<close>

section \<open>Steps\<close>

type_synonym system = "kernel_db \<times> staged_settlement list"

inductive ledger_step :: "system \<Rightarrow> system \<Rightarrow> bool" where
  prepare: "quiet_prepare typed \<Longrightarrow> prepare_validated_invocation w owner i typed now = (res, w') \<Longrightarrow>
    ledger_step (w, st) (w', st)"
| claim: "claim_validated_invocation w owner ci validate now = (out, w') \<Longrightarrow> ledger_step (w, st) (w', st)"
| stage: "retained_from st si terminal retained \<Longrightarrow> quiet_continuation w continuation \<Longrightarrow>
    stage_settlement typedAssembly w si terminal continuation retained sampled = Inr (sg, w') \<Longrightarrow>
    ledger_step (w, st) (w', sg # st)"
| commit: "sg \<in> set st \<Longrightarrow> commit_initial_settlement w owner sg now = (settled, w') \<Longrightarrow> ledger_step (w, st) (w', st)"
| abandon: "abandon_unknown_invocation w owner r opId attempt attestation now = (out, w') \<Longrightarrow> ledger_step (w, st) (w', st)"
| rollback: "plan_of_journal w r p \<Longrightarrow> resolve_private_rollback_invocation w owner (Some p) r now = Inr (e, w') \<Longrightarrow>
    ledger_step (w, st) (w', st)"
| other: "elsewhere w w' \<Longrightarrow> ledger_step (w, st) (w', st)"

definition ledger_start :: "system \<Rightarrow> bool" where
  "ledger_start s \<longleftrightarrow> db_runs (fst s) = Map.empty \<and> db_journal (fst s) = (\<lambda>_. []) \<and> snd s = []"

inductive ledger_reachable :: "system \<Rightarrow> bool" where
  start: "ledger_start s \<Longrightarrow> ledger_reachable s"
| step: "ledger_reachable s \<Longrightarrow> ledger_step s s' \<Longrightarrow> ledger_reachable s'"

section \<open>The invariant of the system\<close>

definition system_ok :: "system \<Rightarrow> bool" where
  "system_ok s \<longleftrightarrow> db_ok (fst s) \<and> (\<forall>sg\<in>set (snd s). staged_ok (fst s) sg \<and> quiet_plan sg)"

text \<open>Every step of the system is a move of the abstract ledger.\<close>

lemma rollback_moves:
  assumes "resolve_private_rollback_invocation w owner (Some p) r now = Inr (e, w')" and "db_ok w" and "plan_of_journal w r p"
  shows "ledger_move w w'"
proof -
  from rollback_row_move [OF assms] obtain a where a: "db_runs w r = Some a"
    "continues_attempt (db_artifacts w) r (db_journal w r) a e (run_budgetReserved a) (run_budgetConsumed a)"
    "w' = charged w r a e (run_budgetReserved a) (run_budgetConsumed a)" by blast
  show ?thesis by (rule ledger_move.continues [OF elsewhere_refl a(1,2)]) (simp add: a(3))
qed

lemma step_moves:
  assumes "ledger_step s s'" and "system_ok s"
  shows "ledger_move (fst s) (fst s')"
  using assms
proof (cases rule: ledger_step.cases)
  case prepare
  with assms(2) show ?thesis by (auto simp: system_ok_def intro: prepare_moves)
next
  case claim
  with assms(2) show ?thesis by (auto simp: system_ok_def intro: claim_moves)
next
  case (stage st si terminal retained w continuation ta sampled sg w')
  have "elsewhere w w'"
    using stage_ok [OF stage(5) _ _ stage(3,4)] assms(2) stage(1) by (auto simp: system_ok_def)
  with stage show ?thesis by (simp add: ledger_move.other)
next
  case commit
  with assms(2) show ?thesis by (auto simp: system_ok_def intro: commit_moves)
next
  case abandon
  with assms(2) show ?thesis by (auto simp: system_ok_def intro: abandon_moves)
next
  case rollback
  with assms(2) show ?thesis by (auto simp: system_ok_def intro: rollback_moves)
next
  case other
  then show ?thesis by (simp add: ledger_move.other)
qed

lemma system_ok_step:
  assumes s: "ledger_step s s'" and ok: "system_ok s"
  shows "system_ok s'"
proof -
  note m = step_moves [OF s ok]
  have db: "db_ok (fst s')" by (rule db_ok_move [OF m]) (use ok in \<open>simp add: system_ok_def\<close>)
  have old: "\<forall>sg\<in>set (snd s). staged_ok (fst s') sg \<and> quiet_plan sg"
    using ok staged_ok_grows [OF _ move_grows [OF m]] by (auto simp: system_ok_def)
  show ?thesis
  proof (cases "snd s' = snd s")
    case True
    with db old show ?thesis by (simp add: system_ok_def)
  next
    case False
    from s show ?thesis
    proof (cases rule: ledger_step.cases)
      case (stage st si terminal retained w continuation ta sampled sg w')
      have "staged_ok w' sg \<and> quiet_plan sg"
        using stage_ok [OF stage(5) _ _ stage(3,4)] ok stage(1) by (auto simp: system_ok_def)
      with db old stage show ?thesis by (simp add: system_ok_def)
    qed (use False in simp_all)
  qed
qed

lemma reachable_ok: "ledger_reachable s \<Longrightarrow> system_ok s"
proof (induction rule: ledger_reachable.induct)
  case (start s)
  then show ?case by (simp add: ledger_start_def system_ok_def db_ok_def)
qed (rule system_ok_step)

lemma reachable_ledger:
  assumes "ledger_reachable (w, st)" and "db_runs w r = Some a"
  shows "run_id a = r \<and> ledger_ok (db_artifacts w) r (db_journal w r) (run_budgetReserved a) (run_budgetConsumed a)"
  by (rule db_okD [OF _ assms(2)]) (use reachable_ok [OF assms(1)] in \<open>simp add: system_ok_def\<close>)

end
