(* ===== verification/Ledger_Recovery.thy ===== *)
theory Ledger_Recovery
  imports Ledger_System
begin

text \<open>
  What recovery says of a run whose journal was written by the reducer: it accepts the run exactly if no attempt
  consumed more than it reserved.
\<close>

section \<open>Settlements\<close>

definition settlement_within :: "budget_settlement \<Rightarrow> bool" where
  "settlement_within s \<longleftrightarrow> budget_less_than_or_equal (bs_consumed s) (bs_reserved s)"

definition settlements_within :: "journal_entry list \<Rightarrow> bool" where
  "settlements_within js \<longleftrightarrow>
     (\<forall>e\<in>set js. case je_budgetSettlementRef e of Some (Settlement_artifact s) \<Rightarrow> settlement_within s | _ \<Rightarrow> True)"

lemma settlements_withinD:
  "settlements_within js \<Longrightarrow> e \<in> set js \<Longrightarrow> je_budgetSettlementRef e = Some (Settlement_artifact s) \<Longrightarrow> settlement_within s"
  by (fastforce simp: settlements_within_def)

lemma is_ok_decode_budget [simp]: "is_ok (decode_budget_usage b) \<longleftrightarrow> proper_budget b"
  by (auto simp: is_ok_iff)

lemma decode_settlement_balanced:
  assumes "balanced s" and "bs_runId s \<noteq> []" and "bs_opId s \<noteq> []" and "int_at_least 0 (bs_attempt s)"
    and "int_at_least 1 (bs_preparedJournalSeq s)" and "int_at_least 2 (bs_terminalJournalSeq s)"
    and "bs_terminalPhase s \<in> {Completed, Failed, Unknown}"
  shows "decode_budget_settlement s = (if settlement_within s then Inr s else Inl (Storage Artifact_mismatch))"
  using assms
  by (auto simp: decode_budget_settlement_def balanced_def settlement_within_def budget_equation_def list_all_iff)

lemma from_terminal_in:
  assumes "from_terminal es = t # later"
  shows "t \<in> set es" "set later \<subseteq> set es" "je_phase t \<in> {Completed, Failed, Unknown}"
proof -
  have "set (from_terminal es) \<subseteq> set es" unfolding from_terminal_def by (metis set_dropWhileD subsetI)
  with assms show "t \<in> set es" "set later \<subseteq> set es" by auto
  from assms have "\<not> je_phase t \<notin> {Completed, Failed, Unknown}"
    unfolding from_terminal_def by (rule dropWhile_eq_Cons_conv [THEN iffD1, THEN conjunct2])
  then show "je_phase t \<in> {Completed, Failed, Unknown}" by blast
qed

text \<open>Rows of an attempt before its terminal row carry no settlement.\<close>

lemma unsettled_rows:
  assumes "attempt_ok es" and "e \<in> set es" and "row_ok arts r e" and "je_budgetSettlementRef e \<noteq> None"
  shows "e \<in> set (from_terminal es)"
proof -
  have ph: "je_phase e \<noteq> Prepared" "je_phase e \<noteq> Dispatch_claimed" using assms(3,4) by (auto simp: row_ok_def)
  from assms(1) have "legal_group (group_of es)" by (simp add: attempt_ok_def)
  then show ?thesis by (cases rule: legal_group_cases) (use assms(2) ph in \<open>auto simp: from_terminal_def\<close>)
qed

lemma group_within:
  assumes "attempt_ok es" and "\<forall>e\<in>set es. row_ok arts r e"
  shows "settlements_within es \<longleftrightarrow>
    (\<forall>t later s. from_terminal es = t # later \<longrightarrow> je_budgetSettlementRef t = Some (Settlement_artifact s) \<longrightarrow> settlement_within s)"
proof (intro iffI allI impI)
  fix t later s assume "settlements_within es" "from_terminal es = t # later"
    "je_budgetSettlementRef t = Some (Settlement_artifact s)"
  then show "settlement_within s" using from_terminal_in(1) settlements_withinD by blast
next
  assume h: "\<forall>t later s. from_terminal es = t # later \<longrightarrow> je_budgetSettlementRef t = Some (Settlement_artifact s) \<longrightarrow> settlement_within s"
  have "settlement_within s" if e: "e \<in> set es" "je_budgetSettlementRef e = Some (Settlement_artifact s)" for e s
  proof -
    have "e \<in> set (from_terminal es)" using unsettled_rows [OF assms(1) e(1)] assms(2) e by auto
    then obtain t later where t: "from_terminal es = t # later" "e = t \<or> e \<in> set later" by (cases "from_terminal es") auto
    with assms(1) have "je_budgetSettlementRef e = je_budgetSettlementRef t" by (auto simp: attempt_ok_def settled_ok_def)
    with h t e show ?thesis by auto
  qed
  then show "settlements_within es" by (auto simp: settlements_within_def split: option.splits artifact_ref.splits)
qed

section \<open>The budgets of the groups\<close>

lemma sorted_wrt_upt_less: "sorted_wrt (\<lambda>x y. int x + 1 < int y + 1) [0..<n]"
  by (simp add: sorted_wrt_iff_nth_less)

lemma attempt_seqs:
  assumes "ledger_ok arts r js res con" and es: "attempt_of js k = p # rest" and "t \<in> set rest"
  shows "je_seq p < je_seq t"
proof -
  from assms(1) obtain groups highest where d: "graph_describes js (length js) groups highest" by (auto simp: ledger_ok_def)
  have "sorted_wrt (<) (map je_seq js)"
    unfolding graph_describesD(5) [OF d] using sorted_wrt_upt_less by (simp only: sorted_wrt_map)
  then have "sorted_wrt (<) (map je_seq (attempt_of js k))"
    by (simp add: sorted_wrt_map attempt_of_def read_invocation_attempt_def sorted_wrt_filter)
  with es assms(3) show ?thesis by simp
qed

lemma proper_first:
  assumes "proper_budget (map_budget (+) a (map_budget (+) x (budget_sum ys)))" and "proper_budget a" and "proper_budget x"
    and "list_all proper_budget ys"
  shows "proper_budget (map_budget (+) a x)"
proof (rule proper_budgetI)
  fix f assume f: "f \<in> set budget_fields"
  have "0 \<le> sum_list (map f ys)"
    using assms(4) f proper_budget_field by (auto simp: list_all_iff intro!: sum_list_nonneg)
  with proper_budget_field [OF assms(1) f] proper_budget_field [OF assms(2) f] proper_budget_field [OF assms(3) f] f
  show "0 \<le> f (map_budget (+) a x) \<and> f (map_budget (+) a x) \<le> max_safe_integer"
    by (simp add: budget_sum_field)
qed

lemma map_budget_assoc: "map_budget (+) (map_budget (+) a b) c = map_budget (+) a (map_budget (+) b c)"
  by (rule budget_eqI) simp

text \<open>An attempt of a ledger.\<close>

definition attempt_in :: "kernel_db \<Rightarrow> string \<Rightarrow> journal_entry list \<Rightarrow> bool" where
  "attempt_in w r es \<longleftrightarrow>
     es \<noteq> [] \<and> attempt_ok es \<and> (\<forall>e\<in>set es. row_ok (db_artifacts w) r e) \<and> (\<forall>t\<in>set (tl es). je_seq (hd es) < je_seq t)"

lemma attempt_in_proper:
  assumes "attempt_in w r es"
  shows "proper_budget (group_reserved es)" "proper_budget (group_consumed es)"
proof -
  from assms have rows: "\<forall>e\<in>set es. proper_budget (je_budgetDelta e)" "es \<noteq> []" by (auto simp: attempt_in_def intro: row_delta)
  then show "proper_budget (group_reserved es)" by (simp add: group_reserved_def)
  show "proper_budget (group_consumed es)"
    using rows(1) from_terminal_in(1) by (auto simp: group_consumed_def split: list.splits)
qed

lemma group_settlement:
  assumes es: "attempt_in w r es" and t: "from_terminal es = t # later"
  shows "\<exists>s. je_budgetSettlementRef t = Some (Settlement_artifact s) \<and> settlement_matches s (hd es) t \<and>
    bs_consumed s = je_budgetDelta t \<and>
    read_settlement w (Settlement_artifact s) = (if settlement_within s then Inr s else Inl (Storage Artifact_mismatch))"
proof -
  from es t obtain s where s: "je_budgetSettlementRef t = Some (Settlement_artifact s)" "settlement_matches s (hd es) t" "balanced s"
    by (auto simp: attempt_in_def attempt_ok_def settled_ok_def)
  note tm = from_terminal_in [OF t]
  from es tm(1) have rows: "row_ok (db_artifacts w) r (hd es)" "row_ok (db_artifacts w) r t" by (auto simp: attempt_in_def)
  have "je_phase (hd es) = Prepared" using es by (auto simp: attempt_in_def attempt_ok_def elim: legal_group_cases)
  with tm(3) have "t \<noteq> hd es" by auto
  with tm(1) have "t \<in> set (tl es)" by (cases es) auto
  with es have "je_seq (hd es) < je_seq t" by (simp add: attempt_in_def)
  then have "decode_budget_settlement s = (if settlement_within s then Inr s else Inl (Storage Artifact_mismatch))"
    using rows s(2) tm(3)
    by (intro decode_settlement_balanced [OF s(3)])
       (auto simp: settlement_matches_def row_ok_def journal_base_ok_def int_at_least_def)
  moreover have "Settlement_artifact s \<in> set (db_artifacts w)" using rows(2) s(1) by (simp add: row_ok_def entry_refs_def)
  ultimately show ?thesis
    using s by (simp add: settlement_matches_def read_settlement_def read_bytes_def artifact_ref_ok_def)
qed

lemma group_budgets_of:
  assumes es: "attempt_in w r es" and a: "proper_budget a" and b: "proper_budget b"
  shows "group_budgets w (group_of es) (a, b) = Inr (a', b') \<longleftrightarrow>
    settlements_within es \<and> a' = map_budget (+) a (group_reserved es) \<and> b' = map_budget (+) b (group_consumed es) \<and>
    proper_budget a' \<and> proper_budget b'"
proof -
  have refs: "read_all w (concat (map entry_refs es)) = Inr ()"
    using es by (auto simp: read_all_Inr attempt_in_def row_ok_def)
  have within: "settlements_within es \<longleftrightarrow>
    (\<forall>t later s. from_terminal es = t # later \<longrightarrow> je_budgetSettlementRef t = Some (Settlement_artifact s) \<longrightarrow> settlement_within s)"
    by (rule group_within) (use es in \<open>auto simp: attempt_in_def\<close>)
  show ?thesis
  proof (cases "from_terminal es")
    case Nil
    with within a b show ?thesis
      unfolding group_budgets_def
      by (auto simp: refs map_error_def and_then_Inr add_budget_Inr group_of_def group_reserved_def group_consumed_def)
  next
    case (Cons t later)
    from group_settlement [OF es Cons] obtain s where s: "je_budgetSettlementRef t = Some (Settlement_artifact s)"
      "settlement_matches s (hd es) t" "bs_consumed s = je_budgetDelta t"
      "read_settlement w (Settlement_artifact s) = (if settlement_within s then Inr s else Inl (Storage Artifact_mismatch))" by blast
    have "\<not> (\<exists>e\<in>set later. je_budgetSettlementRef e \<noteq> je_budgetSettlementRef t)"
      using es Cons by (auto simp: attempt_in_def attempt_ok_def settled_ok_def)
    moreover have "settlements_within es \<longleftrightarrow> settlement_within s" using within Cons s(1) by auto
    ultimately show ?thesis
      using Cons s a b unfolding group_budgets_def
      by (auto simp: refs map_error_def and_then_Inr add_budget_Inr group_of_def group_reserved_def group_consumed_def)
  qed
qed

lemma all_group_budgets_of:
  assumes "\<forall>es\<in>set ess. attempt_in w r es" and "proper_budget a" and "proper_budget b"
    and "proper_budget (map_budget (+) a (budget_sum (map group_reserved ess)))"
    and "proper_budget (map_budget (+) b (budget_sum (map group_consumed ess)))"
  shows "all_group_budgets w (map group_of ess) (a, b) = Inr (a', b') \<longleftrightarrow>
    (\<forall>es\<in>set ess. settlements_within es) \<and> a' = map_budget (+) a (budget_sum (map group_reserved ess)) \<and>
    b' = map_budget (+) b (budget_sum (map group_consumed ess))"
  using assms
proof (induction ess arbitrary: a b)
  case (Cons es ess)
  have es: "attempt_in w r es" and ess: "\<forall>es\<in>set ess. attempt_in w r es" using Cons.prems(1) by simp_all
  have all: "list_all proper_budget (map group_reserved ess)" "list_all proper_budget (map group_consumed ess)"
    using ess attempt_in_proper by (auto simp: list_all_iff)
  let ?a = "map_budget (+) a (group_reserved es)" and ?b = "map_budget (+) b (group_consumed es)"
  have pa: "proper_budget ?a"
    by (rule proper_first [OF _ Cons.prems(2) attempt_in_proper(1) [OF es] all(1)]) (use Cons.prems(4) in simp)
  have pb: "proper_budget ?b"
    by (rule proper_first [OF _ Cons.prems(3) attempt_in_proper(2) [OF es] all(2)]) (use Cons.prems(5) in simp)
  have IH: "all_group_budgets w (map group_of ess) (?a, ?b) = Inr (a', b') \<longleftrightarrow>
    (\<forall>es\<in>set ess. settlements_within es) \<and> a' = map_budget (+) ?a (budget_sum (map group_reserved ess)) \<and>
    b' = map_budget (+) ?b (budget_sum (map group_consumed ess))"
    by (rule Cons.IH [OF ess pa pb]) (use Cons.prems(4,5) in \<open>simp_all add: map_budget_assoc\<close>)
  have "all_group_budgets w (map group_of (es # ess)) (a, b) = Inr (a', b') \<longleftrightarrow>
    (\<exists>x y. group_budgets w (group_of es) (a, b) = Inr (x, y) \<and> all_group_budgets w (map group_of ess) (x, y) = Inr (a', b'))"
    by (simp add: and_then_Inr)
  also have "\<dots> \<longleftrightarrow> settlements_within es \<and> all_group_budgets w (map group_of ess) (?a, ?b) = Inr (a', b')"
    unfolding group_budgets_of [OF es Cons.prems(2,3)] using pa pb by blast
  finally show ?case unfolding IH by (simp add: map_budget_assoc)
qed auto

section \<open>The ledger of a run\<close>

lemma group_attempt_in:
  assumes led: "ledger_ok (db_artifacts w) r js res con" and d: "graph_describes js (length js) groups highest"
    and kg: "kg \<in> set groups"
  shows "attempt_in w r (ag_entries (snd kg)) \<and> snd kg = group_of (ag_entries (snd kg)) \<and>
    ag_entries (snd kg) = attempt_of js (fst kg)"
proof -
  have "map_of groups (fst kg) = Some (snd kg)"
    using kg graph_describesD(2) [OF d] by (simp add: map_of_is_SomeI)
  with graph_describesD(3) [OF d, of "fst kg"] have es: "attempt_of js (fst kg) \<noteq> []" "snd kg = group_of (attempt_of js (fst kg))"
    by (auto split: if_splits)
  then obtain p rest where l: "attempt_of js (fst kg) = p # rest" by (cases "attempt_of js (fst kg)") auto
  have "row_ok (db_artifacts w) r e" if "e \<in> set (attempt_of js (fst kg))" for e
    by (rule ledger_row [OF led]) (use that in \<open>simp add: set_attempt_of\<close>)
  then have "attempt_in w r (attempt_of js (fst kg))"
    using es(1) ledger_attempt [OF led es(1)] attempt_seqs [OF led l] l by (auto simp: attempt_in_def)
  with es(2) show ?thesis by (simp add: group_of_def)
qed

lemma attempts_within:
  assumes d: "graph_describes js (length js) groups highest"
    and g: "\<forall>kg\<in>set groups. ag_entries (snd kg) = attempt_of js (fst kg)"
  shows "(\<forall>kg\<in>set groups. settlements_within (ag_entries (snd kg))) \<longleftrightarrow> settlements_within js"
proof
  assume "settlements_within js"
  with g show "\<forall>kg\<in>set groups. settlements_within (ag_entries (snd kg))"
    by (auto simp: settlements_within_def set_attempt_of)
next
  assume h: "\<forall>kg\<in>set groups. settlements_within (ag_entries (snd kg))"
  show "settlements_within js"
    unfolding settlements_within_def
  proof
    fix e assume e: "e \<in> set js"
    then have mem: "e \<in> set (attempt_of js (group_key e))" by (simp add: set_attempt_of)
    then have "map_of groups (group_key e) \<noteq> None" using graph_describesD(3) [OF d, of "group_key e"] by auto
    then obtain g' where "(group_key e, g') \<in> set groups" by (auto dest: map_of_SomeD)
    with h g mem have "settlements_within (attempt_of js (group_key e))" by fastforce
    with mem show "case je_budgetSettlementRef e of Some (Settlement_artifact s) \<Rightarrow> settlement_within s | _ \<Rightarrow> True"
      by (auto simp: settlements_within_def)
  qed
qed

lemma ledger_recovers:
  assumes a: "db_runs w r = Some a"
    and led: "ledger_ok (db_artifacts w) r (db_journal w r) (run_budgetReserved a) (run_budgetConsumed a)"
  shows "validate_ledger False w r = Inr () \<longleftrightarrow> settlements_within (db_journal w r)"
proof -
  let ?js = "db_journal w r"
  from led obtain groups highest where g: "graph_of ?js = Inr (length ?js, groups, highest)"
    and d: "graph_describes ?js (length ?js) groups highest" and ok: "\<forall>kg\<in>set groups. attempt_ok (ag_entries (snd kg))"
    and res: "run_budgetReserved a = budget_sum (map (\<lambda>kg. group_reserved (ag_entries (snd kg))) groups)"
    and con: "run_budgetConsumed a = budget_sum (map (\<lambda>kg. group_consumed (ag_entries (snd kg))) groups)"
    and proper: "proper_budget (run_budgetReserved a)" "proper_budget (run_budgetConsumed a)"
    by (auto simp: ledger_ok_def)
  let ?ess = "map (\<lambda>kg. ag_entries (snd kg)) groups"
  have kg: "\<forall>kg\<in>set groups. attempt_in w r (ag_entries (snd kg)) \<and> snd kg = group_of (ag_entries (snd kg)) \<and>
      ag_entries (snd kg) = attempt_of ?js (fst kg)"
    using group_attempt_in [OF led d] by blast
  then have maps: "map snd groups = map group_of ?ess"
    unfolding map_map comp_def by (intro map_cong refl) blast
  have "\<forall>kg\<in>set groups. legal_group (snd kg)"
    using ok kg by (metis attempt_ok_def)
  then have "list_all (\<lambda>(_, g). legal_group g) groups"
    by (auto simp: list_all_iff)
  then have graph: "validate_journal_graph ?js = Inr groups" by (simp add: validate_journal_graph_def g)
  have sums: "all_group_budgets w (map group_of ?ess) (zero_budget, zero_budget) = Inr (x, y) \<longleftrightarrow>
      settlements_within ?js \<and> x = run_budgetReserved a \<and> y = run_budgetConsumed a" for x y
    using attempts_within [OF d] kg res con proper
    by (subst all_group_budgets_of) (auto simp: comp_def)
  have "run_budgetReserved a = zero_budget" if "?js = []"
  proof -
    have "groups = []" using g that by simp
    then show ?thesis using res by simp
  qed
  then show ?thesis
    unfolding validate_ledger_def validate_journal_artifacts_and_budgets_def maps
    by (auto simp: read_run_def a proper graph maps [symmetric] and_then_Inr Let_def is_zero_budget_iff
        sums [unfolded maps [symmetric]])
qed

end
