(* ===== verification/Ledger_Sample.thy ===== *)
theory Ledger_Sample
  imports Ledger_Recovery
begin

text \<open>
  A run with a lease that prepares a tool call, claims it and completes it, on concrete tables: once within its
  reservation and once with more tool calls than it had reserved.
\<close>

section \<open>The tables\<close>

definition sample_ref :: "char \<Rightarrow> artifact_ref" where
  "sample_ref c = Artifact (replicate 64 c)"

definition sample_usage :: "int \<Rightarrow> int \<Rightarrow> budget_usage" where
  "sample_usage tokens calls =
     \<lparr>bu_modelTokens = tokens, bu_costMicros = 0, bu_toolCalls = calls, bu_repairAttempts = 0\<rparr>"

definition sample_owner :: state_owner where
  "sample_owner = \<lparr>so_ownerEpoch = 1, so_supervisorInstanceId = ''supervisor'', so_identity = ''owner''\<rparr>"

definition sample_run :: run where
  "sample_run =
     \<lparr>run_id = ''run'', run_status = Run_running, run_nextStep = Some Step_agent, run_frontierRef = None,
      run_waitingReason = None, run_waitingOnRef = None, run_revision = 1,
      run_latestCheckpointId = ''checkpoint'', run_leaseEpoch = 1,
      run_activeWorkerLaunchId = Some ''launch'', run_budgetReserved = zero_budget, run_budgetConsumed = zero_budget,
      run_resultRef = None, run_terminalReason = None, run_terminalDetailRef = None, run_stopIntentRef = None,
      run_cancelRequested = False, run_deadlineAt = 1000, run_updatedAt = 0, run_ceilings = sample_usage 100 2\<rparr>"

text \<open>The digests of rows that the reducer only reads are short.\<close>

definition sample_launch :: worker_launch where
  "sample_launch =
     \<lparr>wl_launchId = ''launch'', wl_runId = ''run'', wl_plannedRunRevision = 1, wl_supervisorInstanceId = ''supervisor'',
      wl_spawnNonceDigest = ''1'', wl_activationNonceDigest = ''2'',
      wl_phase = Launch_activated, wl_workspaceGenerationRef = Some (Artifact ''e''),
      wl_containmentPlanRef = Some (Artifact ''d''), wl_sandboxLaunchSpecRef = Some (Artifact ''d''),
      wl_workerIdentityDigest = Some (''3''), wl_processContainmentRef = Some (Artifact ''d''),
      wl_leaseEpoch = Some 1, wl_leaseVersion = Some 1, wl_leaseExpiresAt = Some 900,
      wl_generationWriteState = Some Generation_active, wl_quiesceId = None, wl_activatedAt = Some 5, wl_createdAt = 0,
      wl_activationDeadlineAt = 120000, wl_preparation = None, wl_retirementKind = False, wl_retiredAt = None,
      wl_retirementEvidenceRef = None\<rparr>"

definition sample_generation :: workspace_generation where
  "sample_generation =
     \<lparr>wg_generationId = ''generation'', wg_runId = ''run'', wg_generationRef = Artifact ''e'',
      wg_generationIdentityDigest = ''4'', wg_rowVersion = 3, wg_sourceCheckpointId = ''checkpoint'',
      wg_sourceWorkspaceStateRef = Artifact ''f'', wg_sourceWorkspaceStateDigest = ''5'',
      wg_lastVerifiedTreeDigest = ''6'', wg_updatedAt = 5, wg_phase = Generation_active,
      wg_snapshotEvidence = (None, None), wg_activeWorkerLaunchId = Some ''launch'', wg_leaseEpoch = Some 1,
      wg_quiesceId = None, wg_waitingSubjectRef = None, wg_waitingSubjectDigest = None, wg_fencedFromPhase = None,
      wg_fencedJournalSeq = None, wg_quarantineEvidence = (None, None), wg_observedState = None,
      wg_retirementEvidenceRef = None, wg_retirementEvidenceDigest = None\<rparr>"

definition sample_empty :: kernel_db where
  "sample_empty =
     \<lparr>db_lockHeld = True, db_owner = Some sample_owner, db_fence = Some (fence_at 1 10), db_runs = Map.empty,
      db_launches = [], db_generations = [], db_checkpoints = [], db_journal = (\<lambda>_. []), db_events = (\<lambda>_. []),
      db_latestItem = (\<lambda>_. 0), db_artifacts = []\<rparr>"

definition sample_admitted :: kernel_db where
  "sample_admitted =
     sample_empty\<lparr>db_runs := [''run'' \<mapsto> sample_run], db_launches := [sample_launch],
       db_generations := [sample_generation],
       db_artifacts := [sample_ref CHR ''a'', sample_ref CHR ''b'', sample_ref CHR ''c'']\<rparr>"

definition sample_prepare :: prepare_invocation_input where
  "sample_prepare =
     \<lparr>pi_runId = ''run'', pi_expectedRunRevision = 1, pi_leaseEpoch = 1, pi_opId = ''op'', pi_opKind = Op_tool,
      pi_target = ''bash'', pi_requestRef = sample_ref CHR ''a'', pi_replayClass = Replay_manual,
      pi_idempotencyKey = None, pi_grantRef = None, pi_reservation = sample_usage 0 2\<rparr>"

definition sample_claim :: claim_input where
  "sample_claim =
     \<lparr>ci_runId = ''run'', ci_expectedRunRevision = 2, ci_leaseEpoch = 1, ci_opId = ''op'', ci_attempt = 0,
      ci_dispatchId = ''dispatch'', ci_sandboxLaunchSpecRef = None, ci_brokerFenceTokenDigest = None\<rparr>"

definition sample_settle :: settle_input where
  "sample_settle = \<lparr>se_runId = ''run'', se_opId = ''op'', se_attempt = 0, se_expectedRunRevision = 2\<rparr>"

section \<open>The steps\<close>

lemma sample_admitted_elsewhere: "elsewhere sample_empty sample_admitted"
  by (auto simp: elsewhere_def sample_empty_def sample_admitted_def sample_run_def proper_budget_def budget_fields_def
      sample_usage_def safe_integer_def max_safe_integer_def)

lemma reachable_admitted: "ledger_reachable (sample_admitted, [])"
proof -
  have "ledger_reachable (sample_empty, [])"
    by (rule ledger_reachable.start) (simp add: ledger_start_def sample_empty_def)
  then show ?thesis by (rule ledger_reachable.step) (rule ledger_step.other [OF sample_admitted_elsewhere])
qed

text \<open>Each operation as a step, whatever its result.\<close>

lemma reach_prepare:
  "ledger_reachable (w, st) \<Longrightarrow> ledger_reachable (snd (prepare_validated_invocation w owner i None now), st)"
  by (erule ledger_reachable.step) (rule ledger_step.prepare [OF quiet_prepare_None prod.collapse [symmetric]])

lemma reach_claim:
  "ledger_reachable (w, st) \<Longrightarrow> ledger_reachable (snd (claim_validated_invocation w owner i validate now), st)"
  by (erule ledger_reachable.step) (rule ledger_step.claim [OF prod.collapse [symmetric]])

lemma reach_commit:
  "ledger_reachable (w, st) \<Longrightarrow> sg \<in> set st \<Longrightarrow> ledger_reachable (snd (commit_initial_settlement w owner sg now), st)"
  by (erule ledger_reachable.step) (rule ledger_step.commit [OF _ prod.collapse [symmetric]])

definition stage_fresh :: "system \<Rightarrow> settle_input \<Rightarrow> settlement_kind \<Rightarrow> int \<Rightarrow> system" where
  "stage_fresh s i terminal sampled =
     (case stage_settlement False (fst s) i terminal None None sampled of
        Inl _ \<Rightarrow> s
      | Inr (sg, w) \<Rightarrow> (w, sg # snd s))"

definition commit_last :: "system \<Rightarrow> int \<Rightarrow> system" where
  "commit_last s now =
     (case snd s of [] \<Rightarrow> s | sg # _ \<Rightarrow> (snd (commit_initial_settlement (fst s) sample_owner sg now), snd s))"

lemma reach_stage: "ledger_reachable s \<Longrightarrow> ledger_reachable (stage_fresh s i terminal sampled)"
proof (cases "stage_settlement False (fst s) i terminal None None sampled")
  case (Inr x)
  obtain sg w where x: "x = (sg, w)" by (cases x)
  assume s: "ledger_reachable s"
  have "ledger_step (fst s, snd s) (w, sg # snd s)"
    by (rule ledger_step.stage) (use Inr x in \<open>auto simp: retained_from_def quiet_continuation_def\<close>)
  with s have "ledger_reachable (w, sg # snd s)" by (auto intro: ledger_reachable.step)
  with Inr x show ?thesis by (simp add: stage_fresh_def)
qed (simp add: stage_fresh_def)

lemma reach_commit_last: "ledger_reachable s \<Longrightarrow> ledger_reachable (commit_last s now)"
proof (cases "snd s")
  case (Cons sg st)
  assume "ledger_reachable s"
  then have "ledger_reachable (fst s, snd s)" by simp
  then show ?thesis using reach_commit [of "fst s" "snd s" sg] Cons by (simp add: commit_last_def)
qed (simp add: commit_last_def)

section \<open>A tool call\<close>

definition sample_prepared :: kernel_db where
  "sample_prepared = snd (prepare_validated_invocation sample_admitted sample_owner sample_prepare None 20)"

definition sample_claimed :: kernel_db where
  "sample_claimed = snd (claim_validated_invocation sample_prepared sample_owner sample_claim no_claim_checks 30)"

definition sample_settled :: "int \<Rightarrow> system" where
  "sample_settled calls =
     commit_last (stage_fresh (sample_claimed, []) sample_settle
       (Settle_completed (Some (sample_ref CHR ''b'')) None (sample_usage 0 calls)) 40) 50"

lemma reachable_prepared: "ledger_reachable (sample_prepared, [])"
  unfolding sample_prepared_def by (rule reach_prepare [OF reachable_admitted])

lemma reachable_claimed: "ledger_reachable (sample_claimed, [])"
  unfolding sample_claimed_def by (rule reach_claim [OF reachable_prepared])

lemma reachable_settled: "ledger_reachable (sample_settled calls)"
  unfolding sample_settled_def by (rule reach_commit_last [OF reach_stage [OF reachable_claimed]])

section \<open>A repeated call\<close>

text \<open>The first attempt ends unknown, its replay class allows a second one, which is claimed.\<close>

definition sample_unknown :: system where
  "sample_unknown =
     (let w1 = snd (prepare_validated_invocation sample_admitted sample_owner
            (sample_prepare\<lparr>pi_replayClass := Replay_retry, pi_reservation := sample_usage 0 1\<rparr>) None 20);
          w2 = snd (claim_validated_invocation w1 sample_owner sample_claim no_claim_checks 30) in
      commit_last (stage_fresh (w2, []) sample_settle
        (Settle_unknown (sample_ref CHR ''c'') (replicate 64 CHR ''d'')) 40) 50)"

definition sample_retried :: kernel_db where
  "sample_retried =
     (let w1 = snd (prepare_validated_invocation (fst sample_unknown) sample_owner
            (sample_prepare\<lparr>pi_replayClass := Replay_retry, pi_expectedRunRevision := 3,
               pi_reservation := sample_usage 0 1\<rparr>) None 60) in
      snd (claim_validated_invocation w1 sample_owner (sample_claim\<lparr>ci_expectedRunRevision := 4, ci_attempt := 1\<rparr>)
        no_claim_checks 70))"

lemma reachable_unknown: "ledger_reachable sample_unknown"
  unfolding sample_unknown_def Let_def
  by (intro reach_commit_last reach_stage reach_claim reach_prepare reachable_admitted)

lemma reachable_retried: "ledger_reachable (sample_retried, snd sample_unknown)"
  unfolding sample_retried_def Let_def
  by (intro reach_claim reach_prepare) (simp add: reachable_unknown)

end
