(* ===== verification/Ledger_Bounds.thy ===== *)
theory Ledger_Bounds
  imports Ledger_Recovery
begin

text \<open>
  Two more invariants of the abstract ledger: the counters stay below the ceilings as long as no attempt consumes
  more than it reserved, and an attempt is only opened after one that failed or may be repeated.
\<close>

section \<open>Ceilings\<close>

definition run_capped :: "journal_entry list \<Rightarrow> run \<Rightarrow> bool" where
  "run_capped js a \<longleftrightarrow>
     (settlements_within js \<longrightarrow>
        (\<forall>f\<in>set budget_fields. f (run_budgetConsumed a) + f (run_budgetReserved a) \<le> f (run_ceilings a)))"

definition capped :: "kernel_db \<Rightarrow> bool" where
  "capped w \<longleftrightarrow> (\<forall>r a. db_runs w r = Some a \<longrightarrow> run_capped (db_journal w r) a)"

lemma settlements_within_snoc: "settlements_within (js @ [e]) \<Longrightarrow> settlements_within js"
  by (simp add: settlements_within_def)

lemma run_capped_account: "run_capped js a \<Longrightarrow> same_account a b \<Longrightarrow> run_capped js b"
  by (simp add: run_capped_def same_account_def)

lemma from_terminal_snoc:
  "from_terminal (es @ [e]) =
     (if from_terminal es = [] then if je_phase e \<in> {Completed, Failed, Unknown} then [e] else [] else from_terminal es @ [e])"
proof (cases "from_terminal es")
  case Nil
  then have "\<forall>x\<in>set es. je_phase x \<notin> {Completed, Failed, Unknown}" by (simp add: from_terminal_def)
  then show ?thesis by (simp add: from_terminal_def dropWhile_append)
next
  case (Cons t later)
  note t = from_terminal_in [OF Cons]
  show ?thesis
    unfolding from_terminal_def by (subst dropWhile_append1 [OF t(1)]) (use t(3) Cons in \<open>auto simp: from_terminal_def\<close>)
qed

text \<open>What a row leaves reserved and consumed of its attempt, field by field.\<close>

lemma continue_charges:
  assumes new: "attempt_ok (es @ [e])" and within: "settlements_within (js @ [e])" and f: "f \<in> set budget_fields" and "es \<noteq> []"
  shows "f (group_reserved (es @ [e])) + f (group_consumed (es @ [e])) \<le> f (group_reserved es) + f (group_consumed es)"
proof (cases "from_terminal es = [] \<and> je_phase e \<in> {Completed, Failed, Unknown}")
  case True
  then have t: "from_terminal (es @ [e]) = [e]" by (simp add: from_terminal_snoc)
  with new obtain s where s: "je_budgetSettlementRef e = Some (Settlement_artifact s)" "settlement_matches s (hd es) e"
    using \<open>es \<noteq> []\<close> by (auto simp: attempt_ok_def settled_ok_def)
  from settlements_withinD [OF within _ s(1)] have "settlement_within s" by simp
  then have "f (bs_consumed s) \<le> f (bs_reserved s)"
    using f by (simp add: settlement_within_def budget_less_than_or_equal_def list_all_iff)
  with s(2) t True f show ?thesis
    by (simp add: group_reserved_def group_consumed_def settlement_matches_def)
next
  case False
  then show ?thesis
    using \<open>es \<noteq> []\<close> by (auto simp: group_reserved_def group_consumed_def from_terminal_snoc split: list.splits)
qed

lemma capped_elsewhere:
  assumes c: "capped w" and ok: "db_ok w" and e: "elsewhere w w'"
  shows "capped w'"
  unfolding capped_def
proof (intro allI impI)
  fix r b assume b: "db_runs w' r = Some b"
  show "run_capped (db_journal w' r) b"
  proof (cases "db_runs w r")
    case None
    with elsewhere_new [OF e None b] show ?thesis
      using proper_budget_field by (auto simp: run_capped_def)
  next
    case (Some a)
    with c have "run_capped (db_journal w r) a" by (simp add: capped_def)
    with elsewhere_run [OF e Some] b elsewhere_fields(1) [OF e] show ?thesis by (auto intro: run_capped_account)
  qed
qed

lemma capped_charged:
  assumes "capped w" and "db_runs w r = Some a"
    and "settlements_within (db_journal w r @ [e]) \<Longrightarrow> \<forall>f\<in>set budget_fields. f con + f res \<le> f (run_ceilings a)"
  shows "capped (charged w r a e res con)"
  using assms by (auto simp: capped_def charged_def run_capped_def)

lemma capped_move: "ledger_move w w' \<Longrightarrow> db_ok w \<Longrightarrow> capped w \<Longrightarrow> capped w'"
proof (induction rule: ledger_move.induct)
  case (other w w')
  then show ?case by (blast intro: capped_elsewhere)
next
  case (opens w w1 r a e w')
  have ok1: "db_ok w1" by (rule db_ok_elsewhere [OF opens.prems(1) opens.hyps(1)])
  have c1: "capped w1" by (rule capped_elsewhere [OF opens.prems(2,1) opens.hyps(1)])
  note led = conjunct2 [OF db_okD [OF ok1 opens.hyps(2)]]
  have "capped (charged w1 r a e (map_budget (+) (run_budgetReserved a) (je_budgetDelta e)) (run_budgetConsumed a))"
    by (rule capped_charged [OF c1 opens.hyps(2)]) (use opens.hyps(3) in \<open>auto simp: opens_attempt_def add.assoc\<close>)
  moreover have "db_ok (charged w1 r a e (map_budget (+) (run_budgetReserved a) (je_budgetDelta e)) (run_budgetConsumed a))"
    by (rule db_ok_charged [OF ok1 opens.hyps(2) ledger_opening [OF led opens.hyps(3)]])
  ultimately show ?case using capped_elsewhere opens.hyps(4) by blast
next
  case (continues w w1 r a e res con w')
  have ok1: "db_ok w1" by (rule db_ok_elsewhere [OF continues.prems(1) continues.hyps(1)])
  have c1: "capped w1" by (rule capped_elsewhere [OF continues.prems(2,1) continues.hyps(1)])
  note led = conjunct2 [OF db_okD [OF ok1 continues.hyps(2)]]
  let ?js = "db_journal w1 r" and ?es = "attempt_of (db_journal w1 r) (group_key e)"
  have c: "attempt_ok (?es @ [e])" "?es \<noteq> []"
    "map_budget (+) res (group_reserved ?es) = map_budget (+) (run_budgetReserved a) (group_reserved (?es @ [e]))"
    "map_budget (+) con (group_consumed ?es) = map_budget (+) (run_budgetConsumed a) (group_consumed (?es @ [e]))"
    using continues.hyps(3) by (simp_all add: continues_attempt_def)
  have "f con + f res \<le> f (run_ceilings a)" if w: "settlements_within (?js @ [e])" and f: "f \<in> set budget_fields" for f
  proof -
    have "f (run_budgetConsumed a) + f (run_budgetReserved a) \<le> f (run_ceilings a)"
      using c1 continues.hyps(2) settlements_within_snoc [OF w] f by (simp add: capped_def run_capped_def)
    moreover have "f res + f (group_reserved ?es) = f (run_budgetReserved a) + f (group_reserved (?es @ [e]))"
      using arg_cong [OF c(3), of f] f by simp
    moreover have "f con + f (group_consumed ?es) = f (run_budgetConsumed a) + f (group_consumed (?es @ [e]))"
      using arg_cong [OF c(4), of f] f by simp
    ultimately show ?thesis using continue_charges [OF c(1) w f c(2)] by linarith
  qed
  then have "capped (charged w1 r a e res con)" by (intro capped_charged [OF c1 continues.hyps(2)]) blast
  moreover have "db_ok (charged w1 r a e res con)"
    by (rule db_ok_charged [OF ok1 continues.hyps(2) ledger_continuing [OF led continues.hyps(3)]])
  ultimately show ?case using capped_elsewhere continues.hyps(4) by blast
qed

section \<open>Retries\<close>

definition retryable :: "journal_entry \<Rightarrow> bool" where
  "retryable t \<longleftrightarrow>
     je_phase t = Failed \<or> (je_phase t = Unknown \<and> je_replayClass t \<in> {Replay_retry, Replay_workspace_rollback_retry})"

definition retries_ok :: "journal_entry list \<Rightarrow> bool" where
  "retries_ok js \<longleftrightarrow>
     (\<forall>e\<in>set js. je_phase e = Prepared \<longrightarrow> je_attempt e \<noteq> 0 \<longrightarrow>
        (\<exists>t\<in>set js. je_opId t = je_opId e \<and> je_attempt t = je_attempt e - 1 \<and> je_seq t < je_seq e \<and> retryable t))"

definition retried :: "kernel_db \<Rightarrow> bool" where
  "retried w \<longleftrightarrow> (\<forall>r. retries_ok (db_journal w r))"

lemma retries_ok_snoc:
  assumes "retries_ok js"
    and "je_phase e = Prepared \<Longrightarrow> je_attempt e \<noteq> 0 \<Longrightarrow>
      \<exists>t\<in>set js. je_opId t = je_opId e \<and> je_attempt t = je_attempt e - 1 \<and> je_seq t < je_seq e \<and> retryable t"
  shows "retries_ok (js @ [e])"
  using assms unfolding retries_ok_def by (auto 4 4)

lemma seq_below_next: "x \<in> set js \<Longrightarrow> je_seq x < next_seq js"
proof -
  have "n \<in> set ns \<Longrightarrow> n \<le> max_of ns start" for n ns start
    by (induction ns) (auto simp: max_of_def)
  then show "x \<in> set js \<Longrightarrow> je_seq x < next_seq js" by (force simp: next_seq_def)
qed

lemma opening_retries:
  assumes "opens_attempt arts r js a e" and "je_attempt e \<noteq> 0"
  shows "\<exists>t\<in>set js. je_opId t = je_opId e \<and> je_attempt t = je_attempt e - 1 \<and> je_seq t < je_seq e \<and> retryable t"
proof -
  from assms obtain h where h: "read_highest_prepared_attempt js (je_opId e) = Some h" "je_attempt e = je_attempt h + 1"
    by (auto simp: opens_attempt_def split: option.splits)
  let ?es = "attempt_of js (je_opId e, je_attempt h)"
  have p: "previous_attempt_allows_retry ?es" and seq: "je_seq e = next_seq js" using assms(1) h by (simp_all add: opens_attempt_def)
  have ne: "?es \<noteq> []" and "retryable (last ?es)"
    using p by (auto simp: previous_attempt_allows_retry_def retryable_def Let_def split: if_splits)
  moreover have "last ?es \<in> set js" "group_key (last ?es) = (je_opId e, je_attempt h)"
    using last_in_set [OF ne] set_attempt_of by blast+
  ultimately show ?thesis
    using h(2) seq seq_below_next by (intro bexI [of _ "last ?es"]) (simp_all add: group_key_def)
qed

lemma retried_move: "ledger_move w w' \<Longrightarrow> retried w \<Longrightarrow> retried w'"
proof (induction rule: ledger_move.induct)
  case (other w w')
  then show ?case by (simp add: retried_def elsewhere_fields(1))
next
  case (opens w w1 r a e w')
  have "retries_ok (db_journal w1 r @ [e])"
    by (rule retries_ok_snoc [OF _ opening_retries [OF opens.hyps(3)]])
       (use opens.prems elsewhere_fields(1) [OF opens.hyps(1)] in \<open>simp_all add: retried_def\<close>)
  then show ?case
    using opens.prems elsewhere_fields(1) [OF opens.hyps(1)] elsewhere_fields(1) [OF opens.hyps(4)]
    by (simp add: retried_def charged_def)
next
  case (continues w w1 r a e res con w')
  have "retries_ok (db_journal w1 r @ [e])"
    by (rule retries_ok_snoc)
       (use continues.prems continues.hyps(3) elsewhere_fields(1) [OF continues.hyps(1)] in
         \<open>simp_all add: retried_def continues_attempt_def\<close>)
  then show ?case
    using continues.prems elsewhere_fields(1) [OF continues.hyps(1)] elsewhere_fields(1) [OF continues.hyps(4)]
    by (simp add: retried_def charged_def)
qed

section \<open>Both hold in every reachable state\<close>

lemma reachable_bounds: "ledger_reachable s \<Longrightarrow> capped (fst s) \<and> retried (fst s)"
proof (induction rule: ledger_reachable.induct)
  case (start s)
  then show ?case by (simp add: ledger_start_def capped_def retried_def retries_ok_def)
next
  case (step s s')
  note ok = reachable_ok [OF step.hyps(1)]
  have m: "ledger_move (fst s) (fst s')" by (rule step_moves [OF step.hyps(2) ok])
  with step.IH ok show ?case using capped_move retried_move by (auto simp: system_ok_def)
qed

lemma attempt_head:
  assumes "ledger_ok arts r js res con" and "attempt_of js k \<noteq> []"
  shows "\<exists>p\<in>set js. je_phase p = Prepared \<and> group_key p = k"
proof -
  from ledger_attempt [OF assms] have "legal_group (group_of (attempt_of js k))" by (simp add: attempt_ok_def)
  then have "je_phase (hd (attempt_of js k)) = Prepared" by (cases rule: legal_group_cases) auto
  moreover have "hd (attempt_of js k) \<in> set (attempt_of js k)" using assms(2) by simp
  ultimately show ?thesis by (auto simp: set_attempt_of)
qed

text \<open>Below an attempt that was prepared there is one of every number.\<close>

lemma prepared_below:
  assumes led: "ledger_ok arts r js res con" and ret: "retries_ok js"
  shows "\<forall>e\<in>set js. je_phase e = Prepared \<and> je_opId e = op \<and> je_attempt e = a + int n \<longrightarrow> 0 \<le> a \<longrightarrow>
    (\<exists>p\<in>set js. je_phase p = Prepared \<and> je_opId p = op \<and> je_attempt p = a)"
proof (induction n)
  case (Suc n)
  show ?case
  proof (intro ballI impI)
    fix e assume e: "e \<in> set js" "je_phase e = Prepared \<and> je_opId e = op \<and> je_attempt e = a + int (Suc n)" and "0 \<le> a"
    with ret obtain t where t: "t \<in> set js" "je_opId t = op" "je_attempt t = a + int n"
      unfolding retries_ok_def by force
    then have "attempt_of js (op, a + int n) \<noteq> []" using set_attempt_of [of t js "(op, a + int n)"] by (auto simp: group_key_def)
    from attempt_head [OF led this] obtain p where "p \<in> set js"
      "je_phase p = Prepared \<and> je_opId p = op \<and> je_attempt p = a + int n" by (auto simp: group_key_def)
    with Suc \<open>0 \<le> a\<close> show "\<exists>p\<in>set js. je_phase p = Prepared \<and> je_opId p = op \<and> je_attempt p = a" by blast
  qed
qed auto

lemma attempt_prepared:
  assumes led: "ledger_ok arts r js res con" and c: "c \<in> set js"
  shows "\<exists>p\<in>set js. je_phase p = Prepared \<and> je_opId p = je_opId c \<and> je_attempt p = je_attempt c"
proof -
  have "attempt_of js (group_key c) \<noteq> []" using c set_attempt_of [of c js "group_key c"] by auto
  from attempt_head [OF led this] show ?thesis by (auto simp: group_key_def)
qed

lemma dispatched_after:
  assumes led: "ledger_ok arts r js res con" and ret: "retries_ok js" and c: "c \<in> set js" "d \<in> set js"
    and "je_opId d = je_opId c" and "je_attempt c < je_attempt d"
  shows "\<exists>t\<in>set js. je_opId t = je_opId c \<and> je_attempt t = je_attempt c \<and> retryable t"
proof -
  have pos: "0 \<le> je_attempt c" using ledger_row [OF led c(1)] by (simp add: row_ok_def journal_base_ok_def int_at_least_def)
  obtain p where p: "p \<in> set js" "je_phase p = Prepared" "je_opId p = je_opId c" "je_attempt p = je_attempt d"
    using attempt_prepared [OF led c(2)] assms(5) by auto
  obtain q where q: "q \<in> set js" "je_phase q = Prepared" "je_opId q = je_opId c" "je_attempt q = je_attempt c + 1"
    using prepared_below [OF led ret, of "je_opId c" "je_attempt c + 1" "nat (je_attempt d - je_attempt c - 1)"] p assms(6) pos by auto
  with ret pos show ?thesis unfolding retries_ok_def by force
qed

text \<open>An attempt has one row of a phase at most.\<close>

lemma phase_unique:
  assumes led: "ledger_ok arts r js res con" and "c \<in> set js" and "d \<in> set js" and "je_phase d = je_phase c"
    and "group_key d = group_key c"
  shows "c = d"
proof -
  have mem: "c \<in> set (attempt_of js (group_key c))" "d \<in> set (attempt_of js (group_key c))"
    using assms(2,3,5) by (simp_all add: set_attempt_of)
  then have "attempt_of js (group_key c) \<noteq> []" by auto
  from ledger_attempt [OF led this] have "legal_group (group_of (attempt_of js (group_key c)))" by (simp add: attempt_ok_def)
  then show ?thesis by (cases rule: legal_group_cases) (use mem assms(4) in auto)
qed

end
