(* ===== verification/Ledger_Properties.thy ===== *)
theory Ledger_Properties
  imports Ledger_Sample Ledger_Bounds
begin

text \<open>
  What the ledger guarantees: its refinement, when recovery accepts it, the ceilings, the dispatches and the refusals.
\<close>

section \<open>Refinement\<close>

text \<open>C4. Every operation of the reducer, on any input and at any time, is a move of the abstract ledger: it opens the
  next attempt of an operation within the ceilings of its run, continues an attempt by a row that is legal there and
  moves its reservation to consumption, or leaves journals and counters alone.\<close>

theorem operations_refine_the_ledger:
  assumes "ledger_reachable s" and "ledger_step s s'"
  shows "ledger_move (fst s) (fst s')"
  by (rule step_moves [OF assms(2) reachable_ok [OF assms(1)]])

lemma sample_claim_step: "ledger_step (sample_prepared, []) (sample_claimed, [])"
  by (rule ledger_step.claim [of _ sample_owner sample_claim no_claim_checks 30])
     (unfold sample_claimed_def, rule prod.collapse [symmetric])

theorem operations_refine_the_ledger_witness:
  "ledger_move sample_prepared sample_claimed \<and>
   map je_phase (db_journal sample_prepared ''run'') = [Prepared] \<and>
   map je_phase (db_journal sample_claimed ''run'') = [Prepared, Dispatch_claimed]"
proof (intro conjI)
  show "ledger_move sample_prepared sample_claimed"
    using operations_refine_the_ledger [OF reachable_prepared sample_claim_step] by simp
  show "map je_phase (db_journal sample_prepared ''run'') = [Prepared]" by code_simp
  show "map je_phase (db_journal sample_claimed ''run'') = [Prepared, Dispatch_claimed]" by code_simp
qed

section \<open>Recovery\<close>

text \<open>C3. Whatever the reducer did, recovery accepts the journal and the counters of a run without children exactly if no
  settlement consumed more than it had reserved.\<close>

theorem recovery_accepts_iff_within:
  assumes "ledger_reachable (w, st)" and "db_runs w r = Some a"
  shows "validate_ledger False w r = Inr () \<longleftrightarrow> settlements_within (db_journal w r)"
  by (rule ledger_recovers [OF assms(2) conjunct2 [OF reachable_ledger [OF assms]]])

theorem recovery_accepts_iff_within_witness:
  "validate_ledger False (fst (sample_settled 1)) ''run'' = Inr ()"
proof -
  obtain w st where s: "sample_settled 1 = (w, st)" by (cases "sample_settled 1")
  have "db_runs (fst (sample_settled 1)) ''run'' \<noteq> None" by code_simp
  then obtain a where "db_runs w ''run'' = Some a" by (auto simp: s)
  moreover have "settlements_within (db_journal (fst (sample_settled 1)) ''run'')" by code_simp
  ultimately show ?thesis
    using recovery_accepts_iff_within [OF reachable_settled [of 1, unfolded s]] by (simp add: s)
qed


section \<open>Ceilings and dispatches\<close>

text \<open>C12. As long as no settlement consumed more than it had reserved, what a run has consumed and reserved together
  stays within its ceilings, counter by counter.\<close>

theorem budgets_stay_within_ceilings:
  assumes "ledger_reachable (w, st)" and "db_runs w r = Some a" and "settlements_within (db_journal w r)"
    and "f \<in> set budget_fields"
  shows "f (run_budgetConsumed a) + f (run_budgetReserved a) \<le> f (run_ceilings a)"
  using reachable_bounds [OF assms(1)] assms(2-4) by (simp add: capped_def run_capped_def)

theorem budgets_stay_within_ceilings_witness:
  "\<exists>a. db_runs (fst (sample_settled 1)) ''run'' = Some a \<and>
     bu_toolCalls (run_budgetConsumed a) + bu_toolCalls (run_budgetReserved a) \<le> bu_toolCalls (run_ceilings a)"
proof -
  obtain w st where s: "sample_settled 1 = (w, st)" by (cases "sample_settled 1")
  have "db_runs (fst (sample_settled 1)) ''run'' \<noteq> None" by code_simp
  then obtain a where a: "db_runs w ''run'' = Some a" by (auto simp: s)
  have "settlements_within (db_journal (fst (sample_settled 1)) ''run'')" by code_simp
  then have "settlements_within (db_journal w ''run'')" by (simp add: s)
  from budgets_stay_within_ceilings [OF reachable_settled [of 1, unfolded s] a this, of bu_toolCalls]
  show ?thesis by (simp add: s a budget_fields_def)
qed

text \<open>C13. Of two different rows that claim a dispatch of the same operation, the earlier attempt has failed, or its outcome
  is unknown and its replay class allows another attempt.\<close>

theorem dispatched_again_only_after_a_retryable_attempt:
  assumes "ledger_reachable (w, st)" and "c \<in> set (db_journal w r)" and "d \<in> set (db_journal w r)"
    and "je_phase c = Dispatch_claimed" and "je_phase d = Dispatch_claimed" and "je_opId d = je_opId c"
  shows "c = d \<or> (\<exists>t\<in>set (db_journal w r).
    je_opId t = je_opId c \<and> je_attempt t = min (je_attempt c) (je_attempt d) \<and> retryable t)"
proof -
  from db_ok_run [OF _ assms(2)] reachable_ok [OF assms(1)] obtain a where a: "db_runs w r = Some a"
    by (auto simp: system_ok_def)
  note led = conjunct2 [OF reachable_ledger [OF assms(1) a]]
  have ret: "retries_ok (db_journal w r)" using reachable_bounds [OF assms(1)] by (simp add: retried_def)
  consider "je_attempt c < je_attempt d" | "je_attempt d < je_attempt c" | "je_attempt c = je_attempt d" by linarith
  then show ?thesis
  proof cases
    case 1
    with dispatched_after [OF led ret assms(2,3) assms(6) 1] show ?thesis by auto
  next
    case 2
    with dispatched_after [OF led ret assms(3,2) assms(6) [symmetric] 2] assms(6) show ?thesis by auto
  next
    case 3
    then have "c = d" using phase_unique [OF led assms(2,3)] assms(4-6) by (simp add: group_key_def)
    then show ?thesis ..
  qed
qed

theorem dispatched_again_only_after_a_retryable_attempt_witness:
  "\<exists>c d. c \<in> set (db_journal sample_retried ''run'') \<and> d \<in> set (db_journal sample_retried ''run'') \<and> c \<noteq> d \<and>
     je_phase c = Dispatch_claimed \<and> je_phase d = Dispatch_claimed \<and>
     (\<exists>t\<in>set (db_journal sample_retried ''run''). je_attempt t = 0 \<and> retryable t)"
proof -
  let ?js = "db_journal sample_retried ''run''"
  have js: "map (\<lambda>e. (je_phase e, je_opId e, je_attempt e)) ?js =
      [(Prepared, ''op'', 0), (Dispatch_claimed, ''op'', 0), (Unknown, ''op'', 0), (Prepared, ''op'', 1),
       (Dispatch_claimed, ''op'', 1)]" by code_simp
  from arg_cong [OF js, of length] have "length ?js = 5" by simp
  then have mem: "?js ! 1 \<in> set ?js" "?js ! 4 \<in> set ?js" by simp_all
  have "map (\<lambda>e. (je_phase e, je_opId e, je_attempt e)) ?js ! 1 = (Dispatch_claimed, ''op'', 0)"
    "map (\<lambda>e. (je_phase e, je_opId e, je_attempt e)) ?js ! 4 = (Dispatch_claimed, ''op'', 1)" unfolding js by simp_all
  then have cd: "je_phase (?js ! 1) = Dispatch_claimed" "je_opId (?js ! 1) = ''op''" "je_attempt (?js ! 1) = 0"
    "je_phase (?js ! 4) = Dispatch_claimed" "je_opId (?js ! 4) = ''op''" "je_attempt (?js ! 4) = 1"
    using \<open>length ?js = 5\<close> by simp_all
  from dispatched_again_only_after_a_retryable_attempt [OF reachable_retried mem cd(1,4)] cd
  have "\<exists>t\<in>set ?js. je_attempt t = 0 \<and> retryable t" by fastforce
  moreover have "?js ! 1 \<noteq> ?js ! 4" using cd by auto
  ultimately show ?thesis using mem cd(1,4) by blast
qed

end
