(* ===== verification/Ledger_Outcomes.thy ===== *)
theory Ledger_Outcomes
  imports Ledger_Sample
begin

text \<open>
  The rows that reach the journal, what a refused operation leaves behind, and the fence of canonical time.
\<close>

section \<open>Rows\<close>

text \<open>C23. Every row of every reachable journal is one that its decoder accepts, belongs to its run, and the rows are
  numbered from one without gaps.\<close>

theorem journal_rows_decode:
  assumes "ledger_reachable (w, st)"
  shows "(\<forall>e\<in>set (db_journal w r). decode_invocation_journal_entry e = Inr e \<and> je_runId e = r) \<and>
    map je_seq (db_journal w r) = map (\<lambda>i. int i + 1) [0..<length (db_journal w r)]"
proof (cases "db_runs w r")
  case None
  with reachable_ok [OF assms] show ?thesis by (simp add: system_ok_def db_ok_def)
next
  case (Some a)
  note led = conjunct2 [OF reachable_ledger [OF assms Some]]
  then obtain groups highest where "graph_describes (db_journal w r) (length (db_journal w r)) groups highest"
    by (auto simp: ledger_ok_def)
  from graph_describesD(5) [OF this] ledger_row [OF led] show ?thesis
    by (simp add: row_ok_def decode_invocation_journal_entry_def)
qed

theorem journal_rows_decode_witness:
  "map je_seq (db_journal sample_retried ''run'') = [1, 2, 3, 4, 5]"
proof -
  have "map je_phase (db_journal sample_retried ''run'') = [Prepared, Dispatch_claimed, Unknown, Prepared, Dispatch_claimed]"
    by code_simp
  from arg_cong [OF this, of length] have "length (db_journal sample_retried ''run'') = 5" by simp
  with journal_rows_decode [OF reachable_retried, of "''run''"] show ?thesis by (simp add: upt_rec)
qed

section \<open>Refusals\<close>

definition unchanged_but_fence :: "kernel_db \<Rightarrow> kernel_db \<Rightarrow> int \<Rightarrow> bool" where
  "unchanged_but_fence w w' now \<longleftrightarrow>
     w' = w \<or> (\<exists>f. db_fence w = Some f \<and> now < tf_lastAcceptedAt f \<and> w' = persist_regressed_fence w f now)"

lemma refused_transaction:
  assumes "run_transaction body w = (Inl e, w')" and "\<And>x. body = Inr (None, x) \<Longrightarrow> unchanged_but_fence w x now"
  shows "unchanged_but_fence w w' now"
proof (cases body)
  case (Inl f)
  with assms(1) show ?thesis by (simp add: run_transaction_def unchanged_but_fence_def)
next
  case (Inr y)
  obtain o' x where y: "y = (o', x)" by (cases y)
  with assms Inr show ?thesis by (cases o') (auto simp: run_transaction_def)
qed

lemma refused_fence: "behind_fence w epoch now body = Inr (None, x) \<Longrightarrow> unchanged_but_fence w x now"
  using behind_fence_None unfolding unchanged_but_fence_def by blast

lemma refused_owned:
  assumes "run_transaction (and_then g (\<lambda>_. behind_fence w epoch now body)) w = (Inl e, w')"
  shows "unchanged_but_fence w w' now"
  by (rule refused_transaction [OF assms]) (use refused_fence in \<open>auto simp: and_then_Inr\<close>)

lemma refused_checked:
  assumes "(case g of Inl f \<Rightarrow> (Inl f, w) | Inr x \<Rightarrow> run_transaction (and_then (h x) (\<lambda>_. behind_fence w epoch now (body x))) w) = (Inl e, w')"
  shows "unchanged_but_fence w w' now"
proof (cases g)
  case (Inl f)
  with assms show ?thesis by (simp add: unchanged_but_fence_def)
next
  case (Inr x)
  with assms show ?thesis using refused_owned by auto
qed

lemma refused_commit:
  assumes "commit_initial_settlement w owner sg now = (Inl e, w')"
  shows "unchanged_but_fence w w' now"
proof (rule refused_transaction [OF assms [unfolded commit_initial_settlement_def]])
  fix x assume "and_then (assert_active_state_owner w owner) (\<lambda>_. and_then (commit_guards w sg)
      (\<lambda>(r, claim). behind_fence w (so_ownerEpoch owner) now
         (\<lambda>w'. commit_row w' sg r (case claim of None \<Rightarrow> sg_prepared sg | Some c \<Rightarrow> c) now))) = Inr (None, x)"
  then obtain y where "(case y of (r, claim) \<Rightarrow> behind_fence w (so_ownerEpoch owner) now
      (\<lambda>w'. commit_row w' sg r (case claim of None \<Rightarrow> sg_prepared sg | Some c \<Rightarrow> c) now)) = Inr (None, x)"
    unfolding and_then_Inr by blast
  then show "unchanged_but_fence w x now" by (cases y) (simp add: refused_fence)
qed



section \<open>The fence\<close>

text \<open>C25. The fence of canonical time stays readable, the time that was last accepted never goes back, a healthy outcome is
  that of a healthy fence, and only a transfer changes the owner, to the next epoch.\<close>

theorem time_fence_never_goes_back:
  assumes "read_time_fence w = Inr (Some f)"
    and "advance_time_fence w epoch now = Inr (out, w') \<or> recover_regressed_time_fence w epoch now = Inr (out, w') \<or>
      transfer_time_fence_owner w epoch new now = Inr (out, w')"
  shows "\<exists>f' :: time_fence. read_time_fence w' = Inr (Some f') \<and> tf_lastAcceptedAt f \<le> tf_lastAcceptedAt f' \<and>
    (out = Fence_healthy \<longleftrightarrow> tf_state f' = Clock_healthy) \<and> tf_stateOwnerEpoch f' \<in> {tf_stateOwnerEpoch f, tf_stateOwnerEpoch f + 1} \<and>
    w'\<lparr>db_fence := db_fence w\<rparr> = w"
proof -
  have f: "db_fence w = Some f" "int_at_least 1 (tf_stateOwnerEpoch f)" "tf_updatedAt f = tf_lastAcceptedAt f"
    "tf_state f = Clock_healthy \<longrightarrow> tf_observedWallClockAt f = tf_lastAcceptedAt f"
    using assms(1) by (auto simp: read_time_fence_def split: option.splits if_splits)
  from assms(2) show ?thesis
  proof (elim disjE)
    assume "advance_time_fence w epoch now = Inr (out, w')"
    then show ?thesis using f
      by (cases "tf_state f")
         (auto simp: advance_time_fence_def assms(1) persist_regressed_fence_def fence_at_def read_time_fence_def split: if_splits)
  next
    assume "recover_regressed_time_fence w epoch now = Inr (out, w')"
    then show ?thesis using f
      by (cases "tf_state f")
         (auto simp: recover_regressed_time_fence_def assms(1) persist_regressed_fence_def fence_at_def read_time_fence_def split: if_splits)
  next
    assume "transfer_time_fence_owner w epoch new now = Inr (out, w')"
    then show ?thesis using f
      by (cases "tf_state f")
         (auto simp: transfer_time_fence_owner_def assms(1) read_time_fence_def int_at_least_def Let_def split: if_splits)
  qed
qed

theorem time_fence_never_goes_back_witness:
  "\<exists>w' f'. transfer_time_fence_owner sample_empty 1 2 5 = Inr (Fence_clock_regressed, w') \<and>
     read_time_fence w' = Inr (Some f') \<and> 10 \<le> tf_lastAcceptedAt (f' :: time_fence)"
proof -
  have "map_sum id fst (transfer_time_fence_owner sample_empty 1 2 5) = Inr Fence_clock_regressed" by code_simp
  then obtain w' where w': "transfer_time_fence_owner sample_empty 1 2 5 = Inr (Fence_clock_regressed, w')"
    by (cases "transfer_time_fence_owner sample_empty 1 2 5") auto
  have r: "read_time_fence sample_empty = Inr (Some (fence_at 1 10))" by code_simp
  from time_fence_never_goes_back [OF r disjI2 [OF disjI2 [OF w']]] w' show ?thesis by (auto simp: fence_at_def)
qed

end
