(* ===== verification/Worker_Lease.thy ===== *)
theory Worker_Lease
  imports Kernel_State
begin

text \<open>
  The life of a worker: its workspace generation is registered and preactivated
  (\<open>src/state/reducers/workspace-transition.ts\<close>), its launch is reserved, preactivated, activated under a lease,
  renewed, revoked, checkpointed and sealed (\<open>src/state/reducers/worker-launch.ts\<close>).

  What an operation reads and checks before its transaction is read from tables that may have changed since: they are
  a separate argument, \<open>w0\<close>.  The artifacts it decodes, and the closures it validates over them, are arguments.  The
  clock is an argument.
\<close>

section \<open>Transactions over the tables\<close>

text \<open>A transaction that checks something before it advances the fence.\<close>

definition fenced_transaction ::
  "state_owner \<Rightarrow> int \<Rightarrow> (kernel_db \<Rightarrow> 'a kernel) \<Rightarrow> ('a \<Rightarrow> kernel_db \<Rightarrow> ('b \<times> kernel_db) kernel) \<Rightarrow> kernel_db \<Rightarrow> 'b state_outcome" where
  "fenced_transaction owner now before body w =
     run_transaction (and_then (before w) (\<lambda>x. behind_fence w (so_ownerEpoch owner) now (body x))) w"

definition owned_transaction ::
  "state_owner \<Rightarrow> int \<Rightarrow> (kernel_db \<Rightarrow> ('b \<times> kernel_db) kernel) \<Rightarrow> kernel_db \<Rightarrow> 'b state_outcome" where
  "owned_transaction owner now body =
     fenced_transaction owner now (\<lambda>w. assert_active_state_owner w owner) (\<lambda>_. body)"

definition after_reads :: "'a kernel \<Rightarrow> ('a \<Rightarrow> kernel_db \<Rightarrow> 'b state_outcome) \<Rightarrow> kernel_db \<Rightarrow> 'b state_outcome" where
  "after_reads reads txn w = (case reads of Inl e \<Rightarrow> (Inl e, w) | Inr x \<Rightarrow> txn x w)"

definition put_launch :: "identity_hash \<Rightarrow> kernel_db \<Rightarrow> worker_launch \<Rightarrow> worker_launch \<Rightarrow> kernel_db kernel" where
  "put_launch idh w old new =
     and_then (update_worker_launch idh (db_launches w) old new) (\<lambda>ls. Inr (w\<lparr>db_launches := ls\<rparr>))"

definition add_launch :: "identity_hash \<Rightarrow> kernel_db \<Rightarrow> worker_launch \<Rightarrow> kernel_db kernel" where
  "add_launch idh w l = and_then (insert_worker_launch idh (db_launches w) l) (\<lambda>ls. Inr (w\<lparr>db_launches := ls\<rparr>))"

definition put_generation :: "kernel_db \<Rightarrow> workspace_generation \<Rightarrow> workspace_generation \<Rightarrow> kernel_db kernel" where
  "put_generation w old new =
     and_then (update_workspace_generation (db_generations w) old new) (\<lambda>gs. Inr (w\<lparr>db_generations := gs\<rparr>))"

definition add_generation :: "kernel_db \<Rightarrow> workspace_generation \<Rightarrow> kernel_db kernel" where
  "add_generation w g =
     and_then (insert_workspace_generation (db_generations w) g) (\<lambda>gs. Inr (w\<lparr>db_generations := gs\<rparr>))"

definition add_checkpoint :: "kernel_db \<Rightarrow> checkpoint \<Rightarrow> kernel_db kernel" where
  "add_checkpoint w c =
     (if ck_id c \<in> set (map ck_id (db_checkpoints w)) then Inl Sql_abort
      else Inr (w\<lparr>db_checkpoints := db_checkpoints w @ [c]\<rparr>))"

text \<open>\<open>UPDATE runs SET ... WHERE id = ? AND ...\<close>, which must change the row, then the event of the new state.\<close>

definition update_run_row :: "kernel_db \<Rightarrow> string \<Rightarrow> (run \<Rightarrow> bool) \<Rightarrow> (run \<Rightarrow> run) \<Rightarrow> int \<Rightarrow> (run \<times> kernel_db) kernel" where
  "update_run_row w runId P f now =
     (case db_runs w runId of
        None \<Rightarrow> Inl (Storage Revision_conflict)
      | Some r \<Rightarrow>
          if \<not> P r then Inl (Storage Revision_conflict)
          else and_then (append_run_state_event (w\<lparr>db_runs := (db_runs w)(runId \<mapsto> f r)\<rparr>) (f r) now) (\<lambda>w'.
            Inr (f r, w')))"

definition assert_run_can_activate :: "run \<Rightarrow> int \<Rightarrow> int \<Rightarrow> unit kernel" where
  "assert_run_can_activate r now expectedRevision =
     and_then (throw_if (run_revision r \<noteq> expectedRevision) (Storage Revision_conflict)) (\<lambda>_.
     and_then (throw_if (run_status r \<noteq> Run_queued \<or> run_activeWorkerLaunchId r \<noteq> None)
       (Storage State_transition_invalid)) (\<lambda>_.
     and_then (throw_if (run_cancelRequested r \<or> run_stopIntentRef r \<noteq> None) (Storage Lease_fenced)) (\<lambda>_.
     throw_if (run_deadlineAt r \<le> now) (Storage Lease_fenced))))"

section \<open>Registering a generation\<close>

record generation_identity =
  gi_generationId :: string
  gi_runId :: string
  gi_identityDigest :: string
  gi_sourceCheckpointId :: string
  gi_sourceWorkspaceStateRef :: artifact_ref
  gi_sourceWorkspaceStateDigest :: string
  gi_sourceTreeDigest :: string
  gi_creationNonceDigest :: string
  gi_createdAt :: int

record workspace_state =
  ws_runId :: string
  ws_stateDigest :: string
  ws_entriesRef :: artifact_ref
  ws_privateGitStateRef :: "artifact_ref option"

text \<open>The part of \<open>RecoveryClosureV1\<close> that is compared.\<close>

record recovery_cut =
  rc_run :: run
  rc_latestCheckpoint :: checkpoint
  rc_launches :: "worker_launch list"
  rc_generations :: "workspace_generation list"
  rc_journal :: "journal_entry list"

definition register_reads ::
  "(kernel_db \<Rightarrow> string \<Rightarrow> recovery_cut kernel) \<Rightarrow> kernel_db \<Rightarrow> string \<Rightarrow> artifact_ref \<Rightarrow> string \<Rightarrow>
     generation_identity kernel \<Rightarrow> workspace_state kernel \<Rightarrow> string kernel \<Rightarrow>
     (generation_identity \<times> recovery_cut option) kernel" where
  "register_reads closure w runId generationRef generationIdentityDigest identity state tree =
     and_then (throw_if (\<not> artifact_ref_ok generationRef) Type_error) (\<lambda>_.
     and_then identity (\<lambda>gi.
     and_then (read_bytes w generationRef) (\<lambda>_.
     and_then (throw_if (gi_identityDigest gi \<noteq> generationIdentityDigest \<or> gi_runId gi \<noteq> runId)
       (Storage Artifact_mismatch)) (\<lambda>_.
     and_then (read_checkpoint w (gi_sourceCheckpointId gi)) (\<lambda>c.
     and_then (throw_if (ck_runId c \<noteq> runId \<or> ck_workspaceStateRef c \<noteq> gi_sourceWorkspaceStateRef gi)
       (Storage Artifact_mismatch)) (\<lambda>_.
     and_then state (\<lambda>s.
     and_then tree (\<lambda>treeDigest.
     and_then (throw_if (ws_runId s \<noteq> runId \<or> ws_stateDigest s \<noteq> gi_sourceWorkspaceStateDigest gi \<or>
         treeDigest \<noteq> gi_sourceTreeDigest gi) (Storage Artifact_mismatch)) (\<lambda>_.
     and_then (read_run w runId) (\<lambda>r.
     if run_status r \<noteq> Run_waiting then Inr (gi, None)
     else and_then (closure w runId) (\<lambda>rc.
       if run_waitingReason (rc_run rc) \<noteq> Some Waiting_reconciliation \<or> run_waitingOnRef (rc_run rc) = None \<or>
          ck_id (rc_latestCheckpoint rc) \<noteq> gi_sourceCheckpointId gi \<or>
          ck_workspaceStateRef (rc_latestCheckpoint rc) \<noteq> gi_sourceWorkspaceStateRef gi \<or>
          (\<exists>g\<in>set (rc_generations rc). wg_generationId g = gi_generationId gi)
       then Inl (Storage State_transition_invalid) else Inr (gi, Some rc))))))))))))"

definition materializing_generation :: "string \<Rightarrow> artifact_ref \<Rightarrow> generation_identity \<Rightarrow> int \<Rightarrow> workspace_generation" where
  "materializing_generation runId generationRef gi now =
     \<lparr>wg_generationId = gi_generationId gi, wg_runId = runId, wg_generationRef = generationRef,
      wg_generationIdentityDigest = gi_identityDigest gi, wg_rowVersion = 1,
      wg_sourceCheckpointId = gi_sourceCheckpointId gi, wg_sourceWorkspaceStateRef = gi_sourceWorkspaceStateRef gi,
      wg_sourceWorkspaceStateDigest = gi_sourceWorkspaceStateDigest gi,
      wg_lastVerifiedTreeDigest = gi_sourceTreeDigest gi, wg_updatedAt = now, wg_phase = Generation_materializing,
      wg_snapshotEvidence = (None, None), wg_activeWorkerLaunchId = None, wg_leaseEpoch = None, wg_quiesceId = None,
      wg_waitingSubjectRef = None, wg_waitingSubjectDigest = None, wg_fencedFromPhase = None,
      wg_fencedJournalSeq = None, wg_quarantineEvidence = (None, None), wg_observedState = None,
      wg_retirementEvidenceRef = None, wg_retirementEvidenceDigest = None\<rparr>"

definition register_row ::
  "string \<Rightarrow> artifact_ref \<Rightarrow> generation_identity \<Rightarrow> recovery_cut option \<Rightarrow> int \<Rightarrow> kernel_db \<Rightarrow>
     (workspace_generation \<times> kernel_db) kernel" where
  "register_row runId generationRef gi recovery now w =
     and_then (read_run w runId) (\<lambda>r.
     and_then (throw_if (run_activeWorkerLaunchId r \<noteq> None \<or> run_status r \<noteq> Run_queued \<and> recovery = None)
       (Storage State_transition_invalid)) (\<lambda>_.
     and_then (case recovery of
         None \<Rightarrow> Inr ()
       | Some rc \<Rightarrow>
           and_then (throw_if (r \<noteq> rc_run rc) (Storage Revision_conflict)) (\<lambda>_.
           and_then (check_all (\<lambda>l.
               and_then (read_required_worker_launch (db_launches w) (wl_launchId l)) (\<lambda>l'.
               throw_if (l' \<noteq> l) (Storage Revision_conflict))) (rc_launches rc)) (\<lambda>_.
           and_then (check_all (\<lambda>g.
               and_then (read_generation_by_ref (db_generations w) (Some (wg_generationRef g))) (\<lambda>g'.
               throw_if (g' \<noteq> g) (Storage Revision_conflict))) (rc_generations rc)) (\<lambda>_.
           throw_if (\<exists>g\<in>set (generations_of_run (db_generations w) (run_id r)).
               wg_phase g \<in> {Generation_materializing, Generation_preactivated_readonly})
             (Storage State_transition_invalid))))) (\<lambda>_.
     and_then (read_checkpoint w (gi_sourceCheckpointId gi)) (\<lambda>c.
     and_then (throw_if (ck_runId c \<noteq> runId \<or> ck_workspaceStateRef c \<noteq> gi_sourceWorkspaceStateRef gi)
       (Storage Revision_conflict)) (\<lambda>_.
     let g = materializing_generation runId generationRef gi now in
     and_then (add_generation w g) (\<lambda>w'. Inr (g, w')))))))"

definition register_workspace_generation where
  "register_workspace_generation closure w0 owner runId generationRef digest identity state tree now =
     after_reads (register_reads closure w0 runId generationRef digest identity state tree) (\<lambda>(gi, recovery).
       owned_transaction owner now (register_row runId generationRef gi recovery now))"

section \<open>Preactivating a generation\<close>

record snapshot_evidence =
  sn_purpose :: string
  sn_runId :: string
  sn_generationRef :: artifact_ref
  sn_generationIdentityDigest :: string
  sn_checkpointId :: string
  sn_workspaceStateRef :: artifact_ref
  sn_workspaceStateDigest :: string
  sn_entriesRef :: artifact_ref
  sn_treeDigest :: string
  sn_privateGitStateRef :: "artifact_ref option"
  sn_observedAt :: int
  sn_evidenceDigest :: string

definition snapshot_matches_state :: "snapshot_evidence \<Rightarrow> workspace_state \<Rightarrow> string \<Rightarrow> bool" where
  "snapshot_matches_state sn s tree \<longleftrightarrow>
     sn_workspaceStateDigest sn = ws_stateDigest s \<and> sn_entriesRef sn = ws_entriesRef s \<and> sn_treeDigest sn = tree \<and>
     sn_privateGitStateRef sn = ws_privateGitStateRef s"

definition assert_snapshot_matches_generation :: "snapshot_evidence \<Rightarrow> workspace_generation \<Rightarrow> unit kernel" where
  "assert_snapshot_matches_generation sn g =
     throw_if (sn_runId sn \<noteq> wg_runId g \<or> sn_generationRef sn \<noteq> wg_generationRef g \<or>
       sn_generationIdentityDigest sn \<noteq> wg_generationIdentityDigest g \<or> sn_checkpointId sn \<noteq> wg_sourceCheckpointId g \<or>
       sn_workspaceStateRef sn \<noteq> wg_sourceWorkspaceStateRef g \<or>
       sn_workspaceStateDigest sn \<noteq> wg_sourceWorkspaceStateDigest g) (Storage Artifact_mismatch)"

definition preactivate_generation_row ::
  "string \<Rightarrow> int \<Rightarrow> artifact_ref \<Rightarrow> snapshot_evidence \<Rightarrow> int \<Rightarrow> kernel_db \<Rightarrow> (workspace_generation \<times> kernel_db) kernel" where
  "preactivate_generation_row generationId expectedRowVersion evidenceRef sn now w =
     and_then (read_required_generation (db_generations w) generationId) (\<lambda>g.
     and_then (throw_if (wg_phase g \<noteq> Generation_materializing \<or> wg_rowVersion g \<noteq> expectedRowVersion)
       (Storage Revision_conflict)) (\<lambda>_.
     and_then (assert_snapshot_matches_generation sn g) (\<lambda>_.
     let g' = g\<lparr>wg_phase := Generation_preactivated_readonly, wg_rowVersion := wg_rowVersion g + 1,
                wg_lastVerifiedTreeDigest := sn_treeDigest sn, wg_updatedAt := now,
                wg_snapshotEvidence := (Some evidenceRef, Some (sn_evidenceDigest sn))\<rparr> in
     and_then (put_generation w g g') (\<lambda>w'. Inr (g', w')))))"

definition record_workspace_generation_preactivated where
  "record_workspace_generation_preactivated w0 owner generationId expectedRowVersion evidenceRef digest evidence state tree now =
     after_reads
       (and_then (throw_if (\<not> artifact_ref_ok evidenceRef) Type_error) (\<lambda>_.
        and_then evidence (\<lambda>sn.
        and_then (read_bytes w0 evidenceRef) (\<lambda>_.
        and_then state (\<lambda>s.
        and_then tree (\<lambda>treeDigest.
        and_then (throw_if (sn_evidenceDigest sn \<noteq> digest \<or> sn_purpose sn \<noteq> ''materialized_from_checkpoint'' \<or>
            \<not> snapshot_matches_state sn s treeDigest) (Storage Artifact_mismatch)) (\<lambda>_. Inr sn)))))))
       (\<lambda>sn. owned_transaction owner now (preactivate_generation_row generationId expectedRowVersion evidenceRef sn now))"

section \<open>Reserving a launch\<close>

text \<open>A launch that is being prepared belongs to the state owner that began it.\<close>

definition preparing :: "kernel_db \<Rightarrow> state_owner \<Rightarrow> string \<Rightarrow> worker_launch kernel" where
  "preparing w owner launchId =
     and_then (assert_active_state_owner w owner) (\<lambda>_.
     and_then (read_required_worker_launch (db_launches w) launchId) (\<lambda>l.
     if wl_phase l \<noteq> Launch_preparing \<or> wl_supervisorInstanceId l \<noteq> so_supervisorInstanceId owner \<or>
        map_option wp_stateOwnerEpoch (wl_preparation l) \<noteq> Some (so_ownerEpoch owner)
     then Inl (Storage Recovery_required) else Inr l))"

record reserve_input =
  ri_launchId :: string
  ri_runId :: string
  ri_expectedRunRevision :: int
  ri_spawnNonceDigest :: string
  ri_activationNonceDigest :: string
  ri_workspaceGenerationRef :: artifact_ref
  ri_containmentPlanRef :: artifact_ref
  ri_sandboxLaunchSpecRef :: artifact_ref

text \<open>The acknowledgement of a native controller that it has bound the launch.\<close>

record reservation_binding =
  rb_runId :: string
  rb_launchId :: string
  rb_generationRef :: artifact_ref
  rb_containmentPlanRef :: artifact_ref
  rb_sandboxLaunchSpecRef :: artifact_ref
  rb_spawnNonceDigest :: string
  rb_activationNonceDigest :: string
  rb_controllerBirthDigest :: string
  rb_reservation :: "string \<times> string \<times> int"

definition assert_worker_preparation_promotion ::
  "kernel_db \<Rightarrow> state_owner \<Rightarrow> worker_launch \<Rightarrow> reserve_input \<Rightarrow> reservation_binding option \<Rightarrow> unit kernel" where
  "assert_worker_preparation_promotion w owner l i binding =
     and_then (preparing w owner (wl_launchId l)) (\<lambda>current.
     and_then (throw_if (current \<noteq> l) Type_error) (\<lambda>_.
     case (binding, wl_preparation l) of
       (Some b, Some p) \<Rightarrow>
         (case (wp_generation p, wp_controller p, wp_reservation p) of
            (Some (generationRef, _), Some (_, birthDigest), Some reservation) \<Rightarrow>
              and_then (throw_if (wl_plannedRunRevision l \<noteq> ri_expectedRunRevision i \<or> ri_launchId i \<noteq> wl_launchId l \<or>
                  ri_runId i \<noteq> wl_runId l \<or> ri_spawnNonceDigest i \<noteq> wl_spawnNonceDigest l \<or>
                  ri_activationNonceDigest i \<noteq> wl_activationNonceDigest l) (Storage Recovery_required)) (\<lambda>_.
              and_then (throw_if (b \<noteq> \<lparr>rb_runId = wl_runId l, rb_launchId = wl_launchId l,
                  rb_generationRef = ri_workspaceGenerationRef i, rb_containmentPlanRef = ri_containmentPlanRef i,
                  rb_sandboxLaunchSpecRef = ri_sandboxLaunchSpecRef i, rb_spawnNonceDigest = ri_spawnNonceDigest i,
                  rb_activationNonceDigest = ri_activationNonceDigest i, rb_controllerBirthDigest = birthDigest,
                  rb_reservation = reservation\<rparr>) Type_error) (\<lambda>_.
              throw_if (generationRef \<noteq> ri_workspaceGenerationRef i) (Storage Recovery_required)))
          | _ \<Rightarrow> Inl (Storage Recovery_required))
     | _ \<Rightarrow> Inl (Storage Recovery_required)))"

definition activation_deadline_ms :: int where "activation_deadline_ms = 120000"

definition max_lease_extension_ms :: int where "max_lease_extension_ms = 60000"

definition reserve_reads ::
  "(run \<Rightarrow> (string \<times> string) kernel) \<Rightarrow> kernel_db \<Rightarrow> state_owner \<Rightarrow> reserve_input \<Rightarrow> (string \<times> string) kernel" where
  "reserve_reads closure w owner i =
     and_then (throw_if (\<not> hex64 (ri_spawnNonceDigest i) \<or> \<not> hex64 (ri_activationNonceDigest i) \<or>
         \<not> artifact_ref_ok (ri_workspaceGenerationRef i) \<or> \<not> artifact_ref_ok (ri_containmentPlanRef i) \<or>
         \<not> artifact_ref_ok (ri_sandboxLaunchSpecRef i)) Type_error) (\<lambda>_.
     and_then (assert_active_state_owner w owner) (\<lambda>_.
     and_then (read_run w (ri_runId i)) (\<lambda>r.
     and_then (closure r) (\<lambda>identity.
     and_then (read_all w [Some (ri_workspaceGenerationRef i), Some (ri_containmentPlanRef i),
         Some (ri_sandboxLaunchSpecRef i)]) (\<lambda>_. Inr identity)))))"

definition reserved_launch ::
  "state_owner \<Rightarrow> reserve_input \<Rightarrow> worker_launch option \<Rightarrow> int \<Rightarrow> int \<Rightarrow> worker_launch" where
  "reserved_launch owner i preparation now deadline =
     \<lparr>wl_launchId = ri_launchId i, wl_runId = ri_runId i, wl_plannedRunRevision = ri_expectedRunRevision i,
      wl_supervisorInstanceId = so_supervisorInstanceId owner, wl_spawnNonceDigest = ri_spawnNonceDigest i,
      wl_activationNonceDigest = ri_activationNonceDigest i, wl_phase = Launch_reserved,
      wl_workspaceGenerationRef = Some (ri_workspaceGenerationRef i),
      wl_containmentPlanRef = Some (ri_containmentPlanRef i), wl_sandboxLaunchSpecRef = Some (ri_sandboxLaunchSpecRef i),
      wl_workerIdentityDigest = None, wl_processContainmentRef = None, wl_leaseEpoch = None, wl_leaseVersion = Some 0,
      wl_leaseExpiresAt = None, wl_generationWriteState = Some Generation_preactivated_readonly, wl_quiesceId = None,
      wl_activatedAt = None, wl_createdAt = (case preparation of None \<Rightarrow> now | Some p \<Rightarrow> wl_createdAt p),
      wl_activationDeadlineAt = deadline, wl_preparation = Option.bind preparation wl_preparation,
      wl_retirementKind = False, wl_retiredAt = None, wl_retirementEvidenceRef = None\<rparr>"

definition reserve_row ::
  "identity_hash \<Rightarrow> state_owner \<Rightarrow> reserve_input \<Rightarrow> reservation_binding option \<Rightarrow> string \<times> string \<Rightarrow> int \<Rightarrow> kernel_db \<Rightarrow>
     (worker_launch \<times> kernel_db) kernel" where
  "reserve_row idh owner i binding identity now w =
     and_then (read_run w (ri_runId i)) (\<lambda>r.
     and_then (assert_run_can_activate r now (ri_expectedRunRevision i)) (\<lambda>_.
     let retained = unretired_launches (db_launches w) (ri_runId i) in
     and_then (case retained of
         [] \<Rightarrow> Inr None
       | [l] \<Rightarrow> if wl_phase l = Launch_preparing then Inr (Some l) else Inl (Storage State_transition_invalid)
       | _ \<Rightarrow> Inl (Storage State_transition_invalid)) (\<lambda>preparation.
     and_then (case preparation of
         Some l \<Rightarrow>
           and_then (assert_worker_preparation_promotion w owner l i binding) (\<lambda>_.
           throw_if (wl_activationDeadlineAt l < now) (Storage Lease_fenced))
       | None \<Rightarrow> throw_if (binding \<noteq> None) (Storage State_transition_invalid)) (\<lambda>_.
     and_then (read_required_generation (db_generations w) (fst identity)) (\<lambda>g.
     and_then (throw_if (wg_phase g \<noteq> Generation_preactivated_readonly \<or>
         wg_generationRef g \<noteq> ri_workspaceGenerationRef i \<or> wg_generationIdentityDigest g \<noteq> snd identity \<or>
         wg_sourceCheckpointId g \<noteq> run_latestCheckpointId r) (Storage State_transition_invalid)) (\<lambda>_.
     and_then (case preparation of
         Some l \<Rightarrow> Inr (wl_activationDeadlineAt l)
       | None \<Rightarrow> add_duration now activation_deadline_ms) (\<lambda>deadline.
     let l = reserved_launch owner i preparation now deadline in
     and_then (case preparation of None \<Rightarrow> add_launch idh w l | Some p \<Rightarrow> put_launch idh w p l) (\<lambda>w'.
     Inr (l, w')))))))))"

definition reserve_worker_launch where
  "reserve_worker_launch idh closure w0 owner i binding now =
     after_reads (reserve_reads closure w0 owner i) (\<lambda>identity.
       owned_transaction owner now (reserve_row idh owner i binding identity now))"

section \<open>Preactivating a worker\<close>

record worker_identity =
  wi_launchId :: string
  wi_supervisorInstanceId :: string
  wi_spawnNonceDigest :: string
  wi_activationNonceDigest :: string
  wi_intendedLeaseEpoch :: int
  wi_processContainmentRef :: artifact_ref

definition assert_worker_identity_matches ::
  "worker_identity \<Rightarrow> worker_launch \<Rightarrow> int \<Rightarrow> artifact_ref \<Rightarrow> state_owner \<Rightarrow> unit kernel" where
  "assert_worker_identity_matches wi l intendedLeaseEpoch processContainmentRef owner =
     throw_if (wi_launchId wi \<noteq> wl_launchId l \<or> wi_supervisorInstanceId wi \<noteq> so_supervisorInstanceId owner \<or>
       wi_spawnNonceDigest wi \<noteq> wl_spawnNonceDigest l \<or> wi_activationNonceDigest wi \<noteq> wl_activationNonceDigest l \<or>
       wi_intendedLeaseEpoch wi \<noteq> intendedLeaseEpoch \<or> wi_processContainmentRef wi \<noteq> processContainmentRef)
       (Storage Artifact_mismatch)"

definition preactivate_reads ::
  "(run \<Rightarrow> worker_launch \<Rightarrow> worker_identity \<Rightarrow> unit kernel) \<Rightarrow> worker_identity kernel \<Rightarrow> kernel_db \<Rightarrow> state_owner \<Rightarrow> string \<Rightarrow>
     string \<Rightarrow> artifact_ref \<Rightarrow> worker_identity kernel" where
  "preactivate_reads closure identity w owner launchId identityDigest containmentRef =
     and_then (throw_if (\<not> hex64 identityDigest \<or> \<not> artifact_ref_ok containmentRef) Type_error) (\<lambda>_.
     and_then identity (\<lambda>wi.
     and_then (read_required_worker_launch (db_launches w) launchId) (\<lambda>l.
     and_then (assert_active_state_owner w owner) (\<lambda>_.
     and_then (read_run w (wl_runId l)) (\<lambda>r.
     and_then (closure r l wi) (\<lambda>_.
     and_then (read_all w [Some (Artifact identityDigest), Some containmentRef]) (\<lambda>_. Inr wi)))))))"

definition preactivate_row ::
  "identity_hash \<Rightarrow> state_owner \<Rightarrow> string \<Rightarrow> string \<Rightarrow> artifact_ref \<Rightarrow> worker_identity \<Rightarrow> int \<Rightarrow> kernel_db \<Rightarrow>
     (worker_launch \<times> kernel_db) kernel" where
  "preactivate_row idh owner launchId identityDigest containmentRef wi now w =
     and_then (read_required_worker_launch (db_launches w) launchId) (\<lambda>l.
     and_then (throw_if (wl_phase l \<noteq> Launch_reserved) (Storage State_transition_invalid)) (\<lambda>_.
     and_then (read_run w (wl_runId l)) (\<lambda>r.
     and_then (assert_run_can_activate r now (wl_plannedRunRevision l)) (\<lambda>_.
     and_then (assert_worker_identity_matches wi l (run_leaseEpoch r + 1) containmentRef owner) (\<lambda>_.
     and_then (throw_if (wl_activationDeadlineAt l < now) (Storage Lease_fenced)) (\<lambda>_.
     let l' = l\<lparr>wl_phase := Launch_preactivated, wl_workerIdentityDigest := Some identityDigest,
                wl_processContainmentRef := Some containmentRef\<rparr> in
     and_then (put_launch idh w l l') (\<lambda>w'. Inr (l', w'))))))))"

definition record_worker_preactivated where
  "record_worker_preactivated idh closure identity w0 owner launchId identityDigest containmentRef now =
     after_reads (preactivate_reads closure identity w0 owner launchId identityDigest containmentRef) (\<lambda>wi.
       owned_transaction owner now (preactivate_row idh owner launchId identityDigest containmentRef wi now))"

section \<open>Activating a lease\<close>

text \<open>Without a duration, the lease is as long as the deadline of the run allows.\<close>

definition initial_lease_end :: "int option \<Rightarrow> int \<Rightarrow> int \<Rightarrow> int kernel" where
  "initial_lease_end duration now deadline =
     (case duration of
        None \<Rightarrow> Inr (min (now + max_lease_extension_ms) deadline)
      | Some d \<Rightarrow> add_duration now d)"

definition activated_launch :: "worker_launch \<Rightarrow> int \<Rightarrow> int \<Rightarrow> int \<Rightarrow> worker_launch" where
  "activated_launch l leaseEpoch leaseExpiresAt now =
     l\<lparr>wl_phase := Launch_activated, wl_leaseEpoch := Some leaseEpoch, wl_leaseVersion := Some 1,
       wl_leaseExpiresAt := Some leaseExpiresAt, wl_generationWriteState := Some Generation_active,
       wl_activatedAt := Some now\<rparr>"

definition activate_row ::
  "identity_hash \<Rightarrow> state_owner \<Rightarrow> string \<Rightarrow> int \<Rightarrow> int \<Rightarrow> int option \<Rightarrow> int \<Rightarrow> kernel_db \<Rightarrow>
     ((run \<times> worker_launch \<times> workspace_generation) \<times> kernel_db) kernel" where
  "activate_row idh owner launchId expectedRunRevision expectedRowVersion duration now w =
     and_then (read_required_worker_launch (db_launches w) launchId) (\<lambda>l.
     and_then (throw_if (wl_phase l \<noteq> Launch_preactivated \<or> wl_supervisorInstanceId l \<noteq> so_supervisorInstanceId owner \<or>
         wl_workerIdentityDigest l = None \<or> wl_processContainmentRef l = None) (Storage Lease_fenced)) (\<lambda>_.
     and_then (read_run w (wl_runId l)) (\<lambda>r.
     and_then (assert_run_can_activate r now expectedRunRevision) (\<lambda>_.
     and_then (initial_lease_end duration now (run_deadlineAt r)) (\<lambda>leaseExpiresAt.
     and_then (throw_if (run_deadlineAt r < leaseExpiresAt) (Storage Invalid_request)) (\<lambda>_.
     and_then (throw_if (wl_plannedRunRevision l \<noteq> run_revision r) (Storage Revision_conflict)) (\<lambda>_.
     and_then (read_generation_by_ref (db_generations w) (wl_workspaceGenerationRef l)) (\<lambda>g.
     and_then (throw_if (wg_phase g \<noteq> Generation_preactivated_readonly \<or> wg_rowVersion g \<noteq> expectedRowVersion \<or>
         Some (wg_generationRef g) \<noteq> wl_workspaceGenerationRef l) (Storage Lease_fenced)) (\<lambda>_.
     let leaseEpoch = run_leaseEpoch r + 1 in
     and_then (throw_if (\<not> safe_integer leaseEpoch) (Storage Recovery_required)) (\<lambda>_.
     let l' = activated_launch l leaseEpoch leaseExpiresAt now;
         g' = g\<lparr>wg_phase := Generation_active, wg_rowVersion := wg_rowVersion g + 1, wg_updatedAt := now,
                wg_activeWorkerLaunchId := Some (wl_launchId l), wg_leaseEpoch := Some leaseEpoch\<rparr> in
     and_then (put_generation w g g') (\<lambda>w1.
     and_then (put_launch idh w1 l l') (\<lambda>w2.
     and_then (update_run_row w2 (run_id r)
         (\<lambda>r'. run_status r' = Run_queued \<and> run_revision r' = run_revision r \<and> run_leaseEpoch r' = run_leaseEpoch r \<and>
            run_activeWorkerLaunchId r' = None \<and> \<not> run_cancelRequested r' \<and> run_stopIntentRef r' = None)
         (\<lambda>r'. r'\<lparr>run_status := Run_running, run_revision := run_revision r' + 1, run_leaseEpoch := leaseEpoch,
            run_activeWorkerLaunchId := Some (wl_launchId l), run_updatedAt := now\<rparr>) now) (\<lambda>(r', w3).
     Inr ((r', l', g'), w3))))))))))))))"

definition activate_worker_lease_at_current_cut where
  "activate_worker_lease_at_current_cut idh owner launchId expectedRunRevision expectedRowVersion duration now =
     owned_transaction owner now (activate_row idh owner launchId expectedRunRevision expectedRowVersion duration now)"

definition activate_worker_lease where
  "activate_worker_lease idh owner launchId expectedRunRevision expectedRowVersion duration now w =
     (if \<not> safe_integer duration \<or> duration < 1 \<or> max_lease_extension_ms < duration then (Inl (Storage Invalid_request), w)
      else activate_worker_lease_at_current_cut idh owner launchId expectedRunRevision expectedRowVersion (Some duration) now w)"

definition activate_worker_lease_within_deadline where
  "activate_worker_lease_within_deadline idh owner launchId expectedRunRevision expectedRowVersion now =
     activate_worker_lease_at_current_cut idh owner launchId expectedRunRevision expectedRowVersion None now"

section \<open>Renewing a lease\<close>

record renew_input =
  rn_launchId :: string
  rn_expectedLeaseVersion :: int
  rn_runId :: string
  rn_leaseEpoch :: int
  rn_workerIdentityDigest :: string
  rn_newLeaseExpiresAt :: int

definition renew_row :: "identity_hash \<Rightarrow> state_owner \<Rightarrow> renew_input \<Rightarrow> int \<Rightarrow> kernel_db \<Rightarrow> (worker_launch \<times> kernel_db) kernel" where
  "renew_row idh owner i now w =
     and_then (read_required_worker_launch (db_launches w) (rn_launchId i)) (\<lambda>l.
     and_then (throw_if (wl_phase l \<noteq> Launch_activated \<or> wl_supervisorInstanceId l \<noteq> so_supervisorInstanceId owner \<or>
         wl_runId l \<noteq> rn_runId i \<or> wl_leaseEpoch l \<noteq> Some (rn_leaseEpoch i) \<or>
         wl_leaseVersion l \<noteq> Some (rn_expectedLeaseVersion i) \<or>
         wl_workerIdentityDigest l \<noteq> Some (rn_workerIdentityDigest i) \<or>
         wl_generationWriteState l \<noteq> Some Generation_active) (Storage Lease_fenced)) (\<lambda>_.
     and_then (read_run w (rn_runId i)) (\<lambda>r.
     and_then (throw_if (run_status r \<noteq> Run_running \<or> run_activeWorkerLaunchId r \<noteq> Some (wl_launchId l) \<or>
         Some (run_leaseEpoch r) \<noteq> wl_leaseEpoch l \<or> run_cancelRequested r \<or> run_stopIntentRef r \<noteq> None)
         (Storage Lease_fenced)) (\<lambda>_.
     and_then (throw_if ((case wl_leaseExpiresAt l of None \<Rightarrow> True | Some t \<Rightarrow> t \<le> now) \<or> run_deadlineAt r \<le> now)
         (Storage Lease_fenced)) (\<lambda>_.
     and_then (read_generation_by_ref (db_generations w) (wl_workspaceGenerationRef l)) (\<lambda>g.
     and_then (throw_if (wg_phase g \<noteq> Generation_active \<or> wg_activeWorkerLaunchId g \<noteq> Some (wl_launchId l) \<or>
         wg_leaseEpoch g \<noteq> wl_leaseEpoch l) (Storage Lease_fenced)) (\<lambda>_.
     and_then (throw_if (rn_newLeaseExpiresAt i \<le> now \<or> now + max_lease_extension_ms < rn_newLeaseExpiresAt i \<or>
         run_deadlineAt r < rn_newLeaseExpiresAt i) (Storage Invalid_request)) (\<lambda>_.
     let l' = l\<lparr>wl_leaseVersion := Some (rn_expectedLeaseVersion i + 1), wl_leaseExpiresAt := Some (rn_newLeaseExpiresAt i)\<rparr> in
     and_then (put_launch idh w l l') (\<lambda>w'. Inr (l', w'))))))))))"

definition renew_worker_lease where
  "renew_worker_lease idh owner i now = owned_transaction owner now (renew_row idh owner i now)"

section \<open>Quiescing a generation\<close>

definition revocation_row ::
  "identity_hash \<Rightarrow> string \<Rightarrow> int \<Rightarrow> int \<Rightarrow> string \<Rightarrow> int \<Rightarrow> kernel_db \<Rightarrow>
     ((worker_launch \<times> workspace_generation) \<times> kernel_db) kernel" where
  "revocation_row idh launchId expectedLeaseVersion expectedRowVersion quiesceId now w =
     and_then (read_required_worker_launch (db_launches w) launchId) (\<lambda>l.
     and_then (throw_if (wl_phase l \<noteq> Launch_activated \<or> wl_leaseVersion l \<noteq> Some expectedLeaseVersion \<or>
         wl_generationWriteState l \<noteq> Some Generation_active) (Storage Lease_fenced)) (\<lambda>_.
     and_then (read_run w (wl_runId l)) (\<lambda>r.
     and_then (throw_if (run_status r \<noteq> Run_running \<or> run_activeWorkerLaunchId r \<noteq> Some (wl_launchId l))
         (Storage Lease_fenced)) (\<lambda>_.
     and_then (read_generation_by_ref (db_generations w) (wl_workspaceGenerationRef l)) (\<lambda>g.
     and_then (throw_if (wg_phase g \<noteq> Generation_active \<or> wg_rowVersion g \<noteq> expectedRowVersion \<or>
         wg_activeWorkerLaunchId g \<noteq> Some (wl_launchId l) \<or> wg_leaseEpoch g \<noteq> wl_leaseEpoch l)
         (Storage Lease_fenced)) (\<lambda>_.
     let l' = l\<lparr>wl_generationWriteState := Some Generation_revoking, wl_quiesceId := Some quiesceId\<rparr>;
         g' = g\<lparr>wg_phase := Generation_revoking, wg_rowVersion := wg_rowVersion g + 1, wg_updatedAt := now,
                wg_quiesceId := Some quiesceId\<rparr> in
     and_then (put_generation w g g') (\<lambda>w1.
     and_then (put_launch idh w1 l l') (\<lambda>w2. Inr ((l', g'), w2)))))))))"

definition begin_generation_revocation where
  "begin_generation_revocation idh owner launchId expectedLeaseVersion expectedRowVersion quiesceId now =
     owned_transaction owner now (revocation_row idh launchId expectedLeaseVersion expectedRowVersion quiesceId now)"

definition checkpointing_row ::
  "identity_hash \<Rightarrow> string \<Rightarrow> int \<Rightarrow> int \<Rightarrow> string \<Rightarrow> int \<Rightarrow> kernel_db \<Rightarrow>
     ((worker_launch \<times> workspace_generation) \<times> kernel_db) kernel" where
  "checkpointing_row idh launchId expectedLeaseVersion expectedRowVersion quiesceId now w =
     and_then (read_required_worker_launch (db_launches w) launchId) (\<lambda>l.
     and_then (throw_if (wl_phase l \<noteq> Launch_activated \<or> wl_leaseVersion l \<noteq> Some expectedLeaseVersion \<or>
         wl_generationWriteState l \<noteq> Some Generation_revoking \<or> wl_quiesceId l \<noteq> Some quiesceId)
         (Storage Lease_fenced)) (\<lambda>_.
     and_then (read_generation_by_ref (db_generations w) (wl_workspaceGenerationRef l)) (\<lambda>g.
     and_then (throw_if (wg_phase g \<noteq> Generation_revoking \<or> wg_rowVersion g \<noteq> expectedRowVersion \<or>
         wg_quiesceId g \<noteq> Some quiesceId \<or> wg_activeWorkerLaunchId g \<noteq> Some (wl_launchId l) \<or>
         wg_leaseEpoch g \<noteq> wl_leaseEpoch l) (Storage Lease_fenced)) (\<lambda>_.
     let l' = l\<lparr>wl_generationWriteState := Some Generation_checkpointing\<rparr>;
         g' = g\<lparr>wg_phase := Generation_checkpointing, wg_rowVersion := wg_rowVersion g + 1, wg_updatedAt := now\<rparr> in
     and_then (put_generation w g g') (\<lambda>w1.
     and_then (put_launch idh w1 l l') (\<lambda>w2. Inr ((l', g'), w2)))))))"

definition begin_generation_checkpoint where
  "begin_generation_checkpoint idh owner launchId expectedLeaseVersion expectedRowVersion quiesceId now =
     owned_transaction owner now (checkpointing_row idh launchId expectedLeaseVersion expectedRowVersion quiesceId now)"

end
