(* ===== verification/Worker_Preparation.thy ===== *)
theory Worker_Preparation
  imports Worker_Lease
begin

text \<open>
  What a launch goes through before it is reserved (\<open>src/state/worker-preparation.ts\<close>): the intent is recorded first,
  then the birth of its directory, then that of its controller, each bound to the one before.  A preparation that is
  given up is retired with everything it gave birth to.

  The native observations, and what is published over them, are arguments.
\<close>

section \<open>The intent\<close>

record preparation_input =
  pr_runId :: string
  pr_expectedRunRevision :: int
  pr_launchId :: string
  pr_spawnNonceDigest :: string
  pr_activationNonceDigest :: string
  pr_generationCreationNonceDigest :: string

definition launch_id_pattern :: "string \<Rightarrow> bool" where
  "launch_id_pattern s \<longleftrightarrow> length s = 43 \<and> list_all (\<lambda>c. js_letter c \<or> js_digit c \<or> c \<in> {CHR ''_'', CHR ''-''}) s"

definition preparation_reads ::
  "(kernel_db \<Rightarrow> string \<Rightarrow> recovery_cut kernel) \<Rightarrow> kernel_db \<Rightarrow> preparation_input \<Rightarrow> recovery_cut kernel" where
  "preparation_reads closure w i =
     and_then (throw_if (\<not> launch_id_pattern (pr_launchId i)) (Storage Invalid_request)) (\<lambda>_.
     and_then (throw_if (\<not> hex64 (pr_spawnNonceDigest i) \<or> \<not> hex64 (pr_activationNonceDigest i) \<or>
         \<not> hex64 (pr_generationCreationNonceDigest i)) Type_error) (\<lambda>_.
     closure w (pr_runId i)))"

definition preparing_launch :: "identity_hash \<Rightarrow> state_owner \<Rightarrow> preparation_input \<Rightarrow> run \<Rightarrow> checkpoint \<Rightarrow> int \<Rightarrow> int \<Rightarrow> worker_launch" where
  "preparing_launch idh owner i r c now deadline =
     \<lparr>wl_launchId = pr_launchId i, wl_runId = run_id r, wl_plannedRunRevision = run_revision r,
      wl_supervisorInstanceId = so_supervisorInstanceId owner, wl_spawnNonceDigest = pr_spawnNonceDigest i,
      wl_activationNonceDigest = pr_activationNonceDigest i, wl_phase = Launch_preparing,
      wl_workspaceGenerationRef = None, wl_containmentPlanRef = None, wl_sandboxLaunchSpecRef = None,
      wl_workerIdentityDigest = None, wl_processContainmentRef = None, wl_leaseEpoch = None, wl_leaseVersion = None,
      wl_leaseExpiresAt = None, wl_generationWriteState = None, wl_quiesceId = None, wl_activatedAt = None,
      wl_createdAt = now, wl_activationDeadlineAt = deadline,
      wl_preparation = Some \<lparr>wp_stateOwnerEpoch = so_ownerEpoch owner, wp_sourceCheckpointId = ck_id c,
        wp_sourceWorkspaceStateRef = ck_workspaceStateRef c,
        wp_generationCreationNonceDigest = pr_generationCreationNonceDigest i,
        wp_generationId = idh (run_id r) (ck_id c) (ck_workspaceStateRef c) (pr_generationCreationNonceDigest i),
        wp_generation = None, wp_controller = None, wp_reservation = None\<rparr>,
      wl_retirementKind = False, wl_retiredAt = None, wl_retirementEvidenceRef = None\<rparr>"

definition preparation_row ::
  "identity_hash \<Rightarrow> state_owner \<Rightarrow> preparation_input \<Rightarrow> recovery_cut \<Rightarrow> int \<Rightarrow> kernel_db \<Rightarrow> (worker_launch \<times> kernel_db) kernel" where
  "preparation_row idh owner i rc now w =
     and_then (read_run w (pr_runId i)) (\<lambda>r.
     and_then (throw_if (r \<noteq> rc_run rc) Type_error) (\<lambda>_.
     and_then (throw_if (run_revision r \<noteq> pr_expectedRunRevision i \<or> run_status r \<noteq> Run_queued \<or>
         run_activeWorkerLaunchId r \<noteq> None \<or> run_cancelRequested r \<or> run_stopIntentRef r \<noteq> None \<or>
         run_deadlineAt r \<le> now \<or> run_nextStep r \<notin> {Some Step_agent, Some Step_tool}) (Storage Lease_fenced)) (\<lambda>_.
     and_then (throw_if (unretired_launches (db_launches w) (run_id r) \<noteq> [] \<or>
         (\<exists>g\<in>set (generations_of_run (db_generations w) (run_id r)).
            wg_phase g \<noteq> Generation_retired \<and> wg_phase g \<noteq> Generation_sealed)) (Storage Recovery_required)) (\<lambda>_.
     and_then (read_checkpoint w (run_latestCheckpointId r)) (\<lambda>c.
     and_then (throw_if (c \<noteq> rc_latestCheckpoint rc) Type_error) (\<lambda>_.
     and_then (add_duration now activation_deadline_ms) (\<lambda>deadline.
     let l = preparing_launch idh owner i r c now deadline in
     and_then (add_launch idh w l) (\<lambda>w'. Inr (l, w')))))))))"

definition begin_worker_preparation where
  "begin_worker_preparation idh closure w0 owner i now =
     after_reads (preparation_reads closure w0 i) (\<lambda>rc. owned_transaction owner now (preparation_row idh owner i rc now))"

section \<open>The births\<close>

definition bindable_run :: "kernel_db \<Rightarrow> worker_launch \<Rightarrow> run kernel" where
  "bindable_run w l =
     and_then (read_run w (wl_runId l)) (\<lambda>r.
     if run_status r \<noteq> Run_queued \<or> run_activeWorkerLaunchId r \<noteq> None \<or> run_revision r < wl_plannedRunRevision l \<or>
        Some (run_latestCheckpointId r) \<noteq> map_option wp_sourceCheckpointId (wl_preparation l)
     then Inl (Storage Recovery_required) else Inr r)"

text \<open>The directory that was born for a preparation.\<close>

record workspace_birth =
  wb_generationId :: string
  wb_runId :: string
  wb_sourceCheckpointId :: string
  wb_sourceWorkspaceStateRef :: artifact_ref
  wb_creationNonceDigest :: string
  wb_createdAt :: int
  wb_stateRootIdentityDigest :: string

definition generation_birth_guards ::
  "state_owner \<Rightarrow> string \<Rightarrow> string \<Rightarrow> worker_launch \<Rightarrow> workspace_birth \<Rightarrow> workspace_birth \<Rightarrow> kernel_db \<Rightarrow>
     (worker_launch \<times> worker_preparation) kernel" where
  "generation_birth_guards owner stateRoot launchId before birth observed w =
     and_then (preparing w owner launchId) (\<lambda>current.
     and_then (throw_if (current \<noteq> before) Type_error) (\<lambda>_.
     and_then (bindable_run w current) (\<lambda>_.
     and_then (throw_if (observed \<noteq> birth) Type_error) (\<lambda>_.
     case wl_preparation current of
       None \<Rightarrow> Inl (Storage Recovery_required)
     | Some p \<Rightarrow>
         if wp_generation p \<noteq> None \<or> wb_generationId observed \<noteq> wp_generationId p \<or> wb_runId observed \<noteq> wl_runId current \<or>
            wb_sourceCheckpointId observed \<noteq> wp_sourceCheckpointId p \<or>
            wb_sourceWorkspaceStateRef observed \<noteq> wp_sourceWorkspaceStateRef p \<or>
            wb_creationNonceDigest observed \<noteq> wp_generationCreationNonceDigest p \<or>
            wb_createdAt observed < wl_createdAt current \<or> wb_stateRootIdentityDigest observed \<noteq> stateRoot
         then Inl (Storage Recovery_required) else Inr (current, p)))))"

definition generation_birth_row ::
  "identity_hash \<Rightarrow> generation_identity \<Rightarrow> artifact_ref \<times> string \<Rightarrow> workspace_birth \<Rightarrow> int \<Rightarrow>
     worker_launch \<times> worker_preparation \<Rightarrow> kernel_db \<Rightarrow> (workspace_generation \<times> kernel_db) kernel" where
  "generation_birth_row idh gi authority observed now cp w =
     and_then (throw_if (now < wb_createdAt observed) (Storage Recovery_required)) (\<lambda>_.
     let g = materializing_generation (gi_runId gi) (fst authority) gi now in
     and_then (add_generation w g) (\<lambda>w1.
     and_then (put_launch idh w1 (fst cp)
         ((fst cp)\<lparr>wl_preparation := Some ((snd cp)\<lparr>wp_generation := Some authority\<rparr>)\<rparr>)) (\<lambda>w2.
     Inr (g, w2))))"

definition record_worker_preparation_generation where
  "record_worker_preparation_generation idh w0 owner stateRoot launchId birth observed authority identity now =
     after_reads
       (and_then birth (\<lambda>b. and_then (preparing w0 owner launchId) (\<lambda>before.
        and_then authority (\<lambda>a. and_then identity (\<lambda>gi. and_then (read_bytes w0 (fst a)) (\<lambda>_. Inr (b, before, a, gi)))))))
       (\<lambda>(b, before, a, gi).
          fenced_transaction owner now (generation_birth_guards owner stateRoot launchId before b observed)
            (generation_birth_row idh gi a observed now))"

text \<open>The controller that was born for a preparation, and the reservation it holds.\<close>

record controller_birth =
  cb_identity :: string
  cb_birthDigest :: string
  cb_readyObservedAt :: int
  cb_observedAt :: int

definition controller_birth_guards ::
  "state_owner \<Rightarrow> int \<Rightarrow> string \<Rightarrow> worker_launch \<Rightarrow> controller_birth \<Rightarrow> controller_birth \<Rightarrow> string \<times> string \<times> int \<Rightarrow> kernel_db \<Rightarrow>
     (worker_launch \<times> worker_preparation) kernel" where
  "controller_birth_guards owner ownerUid launchId before birth observed reservation w =
     and_then (preparing w owner launchId) (\<lambda>current.
     and_then (throw_if (current \<noteq> before) Type_error) (\<lambda>_.
     and_then (bindable_run w current) (\<lambda>_.
     and_then (throw_if (cb_identity observed \<noteq> cb_identity birth) Type_error) (\<lambda>_.
     case wl_preparation current of
       None \<Rightarrow> Inl (Storage Recovery_required)
     | Some p \<Rightarrow>
         if wp_generation p = None \<or> wp_controller p \<noteq> None \<or> wp_reservation p \<noteq> None \<or>
            cb_birthDigest observed \<noteq> cb_birthDigest birth \<or> cb_readyObservedAt observed < wl_createdAt current \<or>
            snd (snd reservation) \<noteq> ownerUid
         then Inl (Storage Recovery_required) else Inr (current, p)))))"

definition controller_birth_row ::
  "identity_hash \<Rightarrow> artifact_ref \<Rightarrow> controller_birth \<Rightarrow> controller_birth \<Rightarrow> string \<times> string \<times> int \<Rightarrow> int \<Rightarrow>
     worker_launch \<times> worker_preparation \<Rightarrow> kernel_db \<Rightarrow> (worker_launch \<times> kernel_db) kernel" where
  "controller_birth_row idh artifact birth observed reservation now cp w =
     and_then (throw_if (now < cb_observedAt observed \<or> 5000 < now - cb_observedAt observed) (Storage Recovery_required)) (\<lambda>_.
     let l' = (fst cp)\<lparr>wl_preparation := Some ((snd cp)\<lparr>wp_controller := Some (artifact, cb_birthDigest birth),
                wp_reservation := Some reservation\<rparr>)\<rparr> in
     and_then (put_launch idh w (fst cp) l') (\<lambda>w'. Inr (l', w')))"

definition record_worker_preparation_controller where
  "record_worker_preparation_controller idh w0 owner ownerUid launchId birth observed held publish reservation now =
     after_reads
       (and_then birth (\<lambda>b. and_then (preparing w0 owner launchId) (\<lambda>before.
        and_then (held before) (\<lambda>_. and_then (publish b) (\<lambda>artifact. Inr (b, before, artifact))))))
       (\<lambda>(b, before, artifact).
          fenced_transaction owner now (controller_birth_guards owner ownerUid launchId before b observed reservation)
            (controller_birth_row idh artifact b observed reservation now))"

section \<open>Giving a preparation up\<close>

datatype retired_workspace = Born_workspace | Unallocated_workspace

record retire_preparation_input =
  tp_preparation :: worker_launch \<comment> \<open>as the producer of the intent holds it\<close>
  tp_expectedRunRevision :: int
  tp_workspace :: retired_workspace
  tp_hasControllerRetirement :: bool
  tp_hasReservation :: bool

text \<open>When the directory and the controller were last observed to be joined.\<close>

record native_joins =
  nj_workspaceObservedAt :: int
  nj_controllerObservedAt :: "int option"

text \<open>What is published over them.\<close>

record preparation_evidence =
  pe_observedAt :: int
  pe_proofRef :: artifact_ref
  pe_quarantineRef :: artifact_ref
  pe_quarantineDigest :: string
  pe_observedState :: string
  pe_retirementRef :: artifact_ref
  pe_retirementDigest :: string

definition joins_fresh :: "native_joins \<Rightarrow> int \<Rightarrow> bool" where
  "joins_fresh nj observedAt \<longleftrightarrow>
     list_all (\<lambda>t. t \<le> observedAt \<and> observedAt - t \<le> 5000)
       (nj_workspaceObservedAt nj # (case nj_controllerObservedAt nj of None \<Rightarrow> [] | Some t \<Rightarrow> [t]))"

definition logical_preparation :: "worker_launch \<Rightarrow> worker_launch" where
  "logical_preparation l =
     l\<lparr>wl_preparation := map_option (\<lambda>p. p\<lparr>wp_generation := None, wp_controller := None, wp_reservation := None\<rparr>)
         (wl_preparation l)\<rparr>"

text \<open>The generation that is retired with the launch is \<open>None\<close> when no directory was ever allocated.\<close>

definition retire_preparation_reads ::
  "bool \<Rightarrow> (kernel_db \<Rightarrow> string \<Rightarrow> recovery_cut kernel) \<Rightarrow>
     (kernel_db \<Rightarrow> worker_launch \<Rightarrow> workspace_generation option \<Rightarrow> native_joins kernel) \<Rightarrow>
     (native_joins \<Rightarrow> preparation_evidence kernel) \<Rightarrow> kernel_db \<Rightarrow> state_owner \<Rightarrow> retire_preparation_input \<Rightarrow>
     (worker_launch \<times> run \<times> workspace_generation option \<times> preparation_evidence) kernel" where
  "retire_preparation_reads registered closure joins publish w owner i =
     and_then (throw_if (\<not> registered) (Storage Artifact_mismatch)) (\<lambda>_.
     and_then (preparing w owner (wl_launchId (tp_preparation i))) (\<lambda>l.
     and_then (bindable_run w l) (\<lambda>r.
     and_then (throw_if (logical_preparation l \<noteq> tp_preparation i) Type_error) (\<lambda>_.
     and_then (throw_if (run_revision r \<noteq> tp_expectedRunRevision i) (Storage Recovery_required)) (\<lambda>_.
     case wl_preparation l of
       None \<Rightarrow> Inl (Storage Recovery_required)
     | Some p \<Rightarrow>
         and_then (case wp_generation p of
             None \<Rightarrow>
               and_then (throw_if (tp_workspace i \<noteq> Unallocated_workspace \<or> tp_hasControllerRetirement i \<or> tp_hasReservation i \<or>
                   wp_controller p \<noteq> None \<or> wp_reservation p \<noteq> None) (Storage Recovery_required)) (\<lambda>_. Inr None)
           | Some _ \<Rightarrow>
               and_then (throw_if (tp_workspace i \<noteq> Born_workspace) (Storage Recovery_required)) (\<lambda>_.
               and_then (read_required_generation (db_generations w) (wp_generationId p)) (\<lambda>g.
               and_then (throw_if (wg_phase g \<notin> {Generation_materializing, Generation_preactivated_readonly})
                   (Storage Recovery_required)) (\<lambda>_.
               and_then (closure w (run_id r)) (\<lambda>rc.
               and_then (throw_if (rc_run rc \<noteq> r) Type_error) (\<lambda>_. Inr (Some g))))))) (\<lambda>g.
         and_then (joins w l g) (\<lambda>nj.
         and_then (publish nj) (\<lambda>pe.
         and_then (throw_if (\<not> joins_fresh nj (pe_observedAt pe)) (Storage Recovery_required)) (\<lambda>_.
         Inr (l, r, g, pe))))))))))"

definition retire_preparation_guards ::
  "(kernel_db \<Rightarrow> worker_launch \<Rightarrow> workspace_generation option \<Rightarrow> native_joins kernel) \<Rightarrow> state_owner \<Rightarrow>
     worker_launch \<Rightarrow> run \<Rightarrow> workspace_generation option \<Rightarrow> kernel_db \<Rightarrow> native_joins kernel" where
  "retire_preparation_guards joins owner l r g w =
     and_then (preparing w owner (wl_launchId l)) (\<lambda>l'.
     and_then (throw_if (l' \<noteq> l) Type_error) (\<lambda>_.
     and_then (bindable_run w l) (\<lambda>r'.
     and_then (throw_if (r' \<noteq> r) Type_error) (\<lambda>_.
     and_then (case g of
         None \<Rightarrow>
           throw_if (\<exists>g'\<in>set (generations_of_run (db_generations w) (run_id r)).
               Some (wg_generationId g') = map_option wp_generationId (wl_preparation l)) (Storage Recovery_required)
       | Some g0 \<Rightarrow>
           and_then (read_required_generation (db_generations w) (wg_generationId g0)) (\<lambda>g'.
           throw_if (g' \<noteq> g0) Type_error)) (\<lambda>_.
     joins w l g)))))"

definition quarantined_preparation :: "workspace_generation \<Rightarrow> preparation_evidence \<Rightarrow> int \<Rightarrow> workspace_generation" where
  "quarantined_preparation g pe now =
     g\<lparr>wg_snapshotEvidence := (None, None), wg_rowVersion := wg_rowVersion g + 1, wg_updatedAt := now,
       wg_phase := Generation_quarantined, wg_quarantineEvidence := (Some (pe_quarantineRef pe), Some (pe_quarantineDigest pe)),
       wg_observedState := Some (pe_observedState pe)\<rparr>"

definition retired_preparation :: "workspace_generation \<Rightarrow> preparation_evidence \<Rightarrow> int \<Rightarrow> workspace_generation" where
  "retired_preparation g pe now =
     g\<lparr>wg_snapshotEvidence := (None, None), wg_rowVersion := wg_rowVersion g + 2, wg_updatedAt := now,
       wg_phase := Generation_retired, wg_retirementEvidenceRef := Some (pe_retirementRef pe),
       wg_retirementEvidenceDigest := Some (pe_retirementDigest pe)\<rparr>"

definition retire_preparation_row ::
  "identity_hash \<Rightarrow> worker_launch \<Rightarrow> run \<Rightarrow> workspace_generation option \<Rightarrow> preparation_evidence \<Rightarrow> int \<Rightarrow> native_joins \<Rightarrow>
     kernel_db \<Rightarrow> (worker_launch \<times> kernel_db) kernel" where
  "retire_preparation_row idh l r g pe now fresh w =
     and_then (throw_if (now < pe_observedAt pe \<or> 5000 < now - pe_observedAt pe \<or> now < nj_workspaceObservedAt fresh \<or>
         (case nj_controllerObservedAt fresh of None \<Rightarrow> False | Some t \<Rightarrow> now < t)) (Storage Recovery_required)) (\<lambda>_.
     and_then (throw_if (g \<noteq> None \<and>
         ((\<exists>l'\<in>set (unretired_launches (db_launches w) (run_id r)). wl_launchId l' \<noteq> wl_launchId l) \<or>
          (\<exists>runId r'. db_runs w runId = Some r' \<and> run_activeWorkerLaunchId r' = Some (wl_launchId l))))
         (Storage Recovery_required)) (\<lambda>_.
     let l' = l\<lparr>wl_phase := Launch_retired, wl_retirementKind := True, wl_retiredAt := Some now,
                wl_retirementEvidenceRef := Some (pe_proofRef pe)\<rparr> in
     and_then (put_launch idh w l l') (\<lambda>w1.
     and_then (case g of
         None \<Rightarrow> Inr w1
       | Some g0 \<Rightarrow>
           and_then (put_generation w1 g0 (quarantined_preparation g0 pe now)) (\<lambda>w2.
           put_generation w2 (quarantined_preparation g0 pe now) (retired_preparation g0 pe now))) (\<lambda>w3.
     Inr (l', w3)))))"

definition retire_worker_preparation where
  "retire_worker_preparation idh registered closure joins publish w0 owner i now =
     after_reads (retire_preparation_reads registered closure joins publish w0 owner i) (\<lambda>(l, r, g, pe).
       fenced_transaction owner now (retire_preparation_guards joins owner l r g) (retire_preparation_row idh l r g pe now))"

end
