(* ===== verification/Worker_Seal.thy ===== *)
theory Worker_Seal
  imports Worker_Lease
begin

text \<open>
  How a worker ends well: the proof that it is dead is refreshed (\<open>src/state/tool-checkpoint.ts\<close>), then its generation
  is sealed, its launch retired and its run queued again, together with a checkpoint
  (\<open>src/state/reducers/worker-launch.ts\<close>) or with the result or the wait of a typed reducer
  (\<open>src/state/tool-checkpoint.ts\<close>).
\<close>

section \<open>A proof of death that does not go stale\<close>

text \<open>
  \<open>prepareWorkerRetirement\<close>.  Its native observation, the publication of its artifact and the clock are functions of
  the number of the attempt; an observation gives the containment and its time.  An observation whose publication
  failed stays pending for the next refresh.
\<close>

record retirement =
  rt_observedAt :: int
  rt_finalRef :: artifact_ref
  rt_attempts :: nat
  rt_pending :: "int option"

definition proof_lifetime_ms :: int where "proof_lifetime_ms = 5000"

definition retirement_candidate ::
  "(nat \<Rightarrow> (artifact_ref \<times> int) kernel) \<Rightarrow> artifact_ref \<Rightarrow> int \<Rightarrow> retirement \<Rightarrow> int kernel \<times> retirement" where
  "retirement_candidate reobserve containment snapshotAt st =
     (case rt_pending st of
        Some t \<Rightarrow> (Inr t, st)
      | None \<Rightarrow>
          let st' = st\<lparr>rt_attempts := rt_attempts st + 1\<rparr> in
          (case reobserve (rt_attempts st') of
             Inl e \<Rightarrow> (Inl e, st')
           | Inr (observed, t) \<Rightarrow>
               if observed \<noteq> containment then (Inl (Storage Lease_fenced), st')
               else if t < snapshotAt then (Inl (Storage Recovery_required), st')
               else (Inr t, st'\<lparr>rt_pending := Some t\<rparr>)))"

function refresh_retirement ::
  "(nat \<Rightarrow> (artifact_ref \<times> int) kernel) \<Rightarrow> (nat \<Rightarrow> artifact_ref kernel) \<Rightarrow> (nat \<Rightarrow> int) \<Rightarrow> artifact_ref \<Rightarrow> int \<Rightarrow> retirement \<Rightarrow>
     unit kernel \<times> retirement" where
  "refresh_retirement reobserve publish clock containment snapshotAt st =
     (if rt_pending st = None \<and> 3 \<le> rt_attempts st then (Inl (Storage Recovery_required), st)
      else
        (case retirement_candidate reobserve containment snapshotAt st of
           (Inl e, st1) \<Rightarrow> (Inl e, st1)
         | (Inr t, st1) \<Rightarrow>
             (case publish (rt_attempts st1) of
                Inl e \<Rightarrow> (Inl e, st1)
              | Inr ref \<Rightarrow>
                  let now = clock (rt_attempts st1) in
                  if now < t then (Inl (Storage Recovery_required), st1)
                  else if proof_lifetime_ms < now - t
                    then refresh_retirement reobserve publish clock containment snapshotAt (st1\<lparr>rt_pending := None\<rparr>)
                  else (Inr (), st1\<lparr>rt_pending := None, rt_finalRef := ref, rt_observedAt := t\<rparr>))))"
  by pat_completeness auto
termination
  by (relation "measure (\<lambda>(_, _, _, _, _, st). 2 * (3 - rt_attempts st) + (if rt_pending st = None then 0 else 1))")
    (auto simp: retirement_candidate_def Let_def split: option.splits sum.splits if_splits prod.splits)

declare refresh_retirement.simps [simp del]

definition assert_retirement_fresh :: "retirement \<Rightarrow> int \<Rightarrow> int \<Rightarrow> int \<Rightarrow> unit kernel" where
  "assert_retirement_fresh st snapshotAt createdAt now =
     throw_if (now < createdAt \<or> rt_observedAt st < snapshotAt \<or> createdAt < rt_observedAt st \<or>
       proof_lifetime_ms < now - rt_observedAt st) (Storage Recovery_required)"

section \<open>Sealing\<close>

record seal_input =
  sl_launchId :: string
  sl_expectedRunRevision :: int
  sl_expectedGenerationRowVersion :: int
  sl_quiesceId :: string
  sl_checkpointId :: string
  sl_contextManifestRef :: artifact_ref
  sl_workspaceStateRef :: artifact_ref
  sl_snapshotEvidenceRef :: artifact_ref
  sl_snapshotEvidenceDigest :: string
  sl_retirementEvidenceRef :: artifact_ref
  sl_checkpointReason :: string

text \<open>What the artifacts of a seal say; \<open>typed\<close>: the assembly of the run is that of an installed run.\<close>

record seal_artifacts =
  sa_typed :: bool
  sa_contextRunId :: string
  sa_contextThroughItemSeq :: int
  sa_state :: workspace_state
  sa_treeDigest :: string
  sa_snapshot :: snapshot_evidence

text \<open>What was read before the transaction.\<close>

record seal_cut =
  sc_launch :: worker_launch
  sc_run :: run
  sc_generation :: workspace_generation
  sc_artifacts :: seal_artifacts
  sc_proof :: "retirement option"

definition seal_reads ::
  "(run \<Rightarrow> seal_artifacts kernel) \<Rightarrow> (run \<Rightarrow> worker_launch \<Rightarrow> workspace_generation \<Rightarrow> retirement kernel) \<Rightarrow>
     (retirement \<Rightarrow> unit kernel \<times> retirement) \<Rightarrow> kernel_db \<Rightarrow> state_owner \<Rightarrow> seal_input \<Rightarrow> seal_cut kernel" where
  "seal_reads contents proof refresh w owner i =
     and_then (read_required_worker_launch (db_launches w) (sl_launchId i)) (\<lambda>l.
     and_then (throw_if (wl_phase l \<noteq> Launch_activated) (Storage Lease_fenced)) (\<lambda>_.
     and_then (read_run w (wl_runId l)) (\<lambda>r.
     and_then (contents r) (\<lambda>sa.
     and_then (read_generation_by_ref (db_generations w) (wl_workspaceGenerationRef l)) (\<lambda>g.
     and_then (if sa_typed sa
         then and_then (assert_active_state_owner w owner) (\<lambda>_. and_then (proof r l g) (\<lambda>st. Inr (Some st)))
         else and_then (read_bytes w (sl_retirementEvidenceRef i)) (\<lambda>_. Inr None)) (\<lambda>st.
     and_then (read_all w [Some (sl_contextManifestRef i), Some (sl_workspaceStateRef i), Some (sl_snapshotEvidenceRef i),
         Some (sl_retirementEvidenceRef i)]) (\<lambda>_.
     let sn = sa_snapshot sa in
     and_then (throw_if (sn_evidenceDigest sn \<noteq> sl_snapshotEvidenceDigest i \<or> sn_purpose sn \<noteq> ''sealed_to_checkpoint'' \<or>
         sn_checkpointId sn \<noteq> sl_checkpointId i \<or> sn_workspaceStateRef sn \<noteq> sl_workspaceStateRef i \<or>
         \<not> snapshot_matches_state sn (sa_state sa) (sa_treeDigest sa)) (Storage Artifact_mismatch)) (\<lambda>_.
     and_then (case st of
         None \<Rightarrow> Inr None
       | Some st' \<Rightarrow> (case refresh st' of (Inl e, _) \<Rightarrow> Inl e | (Inr _, st'') \<Rightarrow> Inr (Some st''))) (\<lambda>st'.
     Inr \<lparr>sc_launch = l, sc_run = r, sc_generation = g, sc_artifacts = sa, sc_proof = st'\<rparr>)))))))))"

definition claimed_tool_open :: "journal_entry list \<Rightarrow> bool" where
  "claimed_tool_open js \<longleftrightarrow>
     (\<exists>claim\<in>set js. je_opKind claim \<in> {Op_tool, Op_mcp} \<and> je_phase claim = Dispatch_claimed \<and>
        \<not> (\<exists>e\<in>set js. je_opId e = je_opId claim \<and> je_attempt e = je_attempt claim \<and> je_phase e = Completed))"

text \<open>A sealed row keeps nothing of its holder.\<close>

definition sealed_generation :: "workspace_generation \<Rightarrow> string \<Rightarrow> artifact_ref \<Rightarrow> string \<Rightarrow> int \<Rightarrow> workspace_generation" where
  "sealed_generation g tree evidenceRef evidenceDigest now =
     g\<lparr>wg_rowVersion := wg_rowVersion g + 1, wg_lastVerifiedTreeDigest := tree, wg_updatedAt := now,
       wg_phase := Generation_sealed, wg_snapshotEvidence := (Some evidenceRef, Some evidenceDigest),
       wg_activeWorkerLaunchId := None, wg_leaseEpoch := None, wg_quiesceId := None, wg_waitingSubjectRef := None,
       wg_waitingSubjectDigest := None, wg_fencedFromPhase := None, wg_fencedJournalSeq := None,
       wg_quarantineEvidence := (None, None), wg_observedState := None, wg_retirementEvidenceRef := None,
       wg_retirementEvidenceDigest := None\<rparr>"

definition sealed_launch :: "worker_launch \<Rightarrow> artifact_ref \<Rightarrow> int \<Rightarrow> worker_launch" where
  "sealed_launch l evidence now =
     l\<lparr>wl_phase := Launch_retired, wl_generationWriteState := Some Generation_sealed, wl_retiredAt := Some now,
       wl_retirementEvidenceRef := Some evidence\<rparr>"

definition seal_guards :: "seal_cut \<Rightarrow> seal_input \<Rightarrow> int \<Rightarrow> int \<Rightarrow> kernel_db \<Rightarrow> (worker_launch \<times> run \<times> workspace_generation) kernel" where
  "seal_guards sc i now sampled w =
     (let sa = sc_artifacts sc; sn = sa_snapshot sa in
      and_then (read_required_worker_launch (db_launches w) (sl_launchId i)) (\<lambda>l.
      and_then (read_run w (wl_runId l)) (\<lambda>r.
      and_then (case sc_proof sc of
          None \<Rightarrow> Inr ()
        | Some st \<Rightarrow>
            and_then (assert_retirement_fresh st (sn_observedAt sn) now sampled) (\<lambda>_.
            if l \<noteq> sc_launch sc \<or> r \<noteq> sc_run sc then Inl (Storage Recovery_required)
            else and_then (read_generation_by_ref (db_generations w) (wl_workspaceGenerationRef (sc_launch sc))) (\<lambda>g.
              throw_if (g \<noteq> sc_generation sc) (Storage Recovery_required)))) (\<lambda>_.
      and_then (throw_if (sa_typed sa \<and> claimed_tool_open (db_journal w (run_id r))) (Storage State_transition_invalid)) (\<lambda>_.
      and_then (throw_if (run_status r \<noteq> Run_running \<or> run_revision r \<noteq> sl_expectedRunRevision i \<or>
          run_activeWorkerLaunchId r \<noteq> Some (wl_launchId l) \<or> wl_phase l \<noteq> Launch_activated \<or>
          wl_generationWriteState l \<noteq> Some Generation_checkpointing \<or> wl_quiesceId l \<noteq> Some (sl_quiesceId i))
          (Storage Lease_fenced)) (\<lambda>_.
      and_then (read_generation_by_ref (db_generations w) (wl_workspaceGenerationRef l)) (\<lambda>g.
      and_then (throw_if (wg_phase g \<noteq> Generation_checkpointing \<or> wg_rowVersion g \<noteq> sl_expectedGenerationRowVersion i \<or>
          wg_quiesceId g \<noteq> Some (sl_quiesceId i) \<or> sn_runId sn \<noteq> run_id r \<or> sn_generationRef sn \<noteq> wg_generationRef g \<or>
          sn_generationIdentityDigest sn \<noteq> wg_generationIdentityDigest g \<or> sa_contextRunId sa \<noteq> run_id r \<or>
          ws_runId (sa_state sa) \<noteq> run_id r) (Storage Artifact_mismatch)) (\<lambda>_.
      and_then (throw_if (sa_contextThroughItemSeq sa \<noteq> db_latestItem w (run_id r)) (Storage Artifact_mismatch)) (\<lambda>_.
      Inr (l, r, g))))))))))"

definition seal_row ::
  "identity_hash \<Rightarrow> seal_cut \<Rightarrow> seal_input \<Rightarrow> int \<Rightarrow> int \<Rightarrow> kernel_db \<Rightarrow>
     ((run \<times> checkpoint \<times> worker_launch \<times> workspace_generation) \<times> kernel_db) kernel" where
  "seal_row idh sc i now sampled w =
     and_then (seal_guards sc i now sampled w) (\<lambda>(l, r, g).
     let c = \<lparr>ck_id = sl_checkpointId i, ck_runId = run_id r, ck_basedOnRunRevision = run_revision r,
              ck_runItemSeq = db_latestItem w (run_id r), ck_contextManifestRef = sl_contextManifestRef i,
              ck_journalSeq = next_seq (db_journal w (run_id r)) - 1, ck_workspaceStateRef = sl_workspaceStateRef i,
              ck_createdAt = now, ck_reason = sl_checkpointReason i\<rparr>;
         sn = sa_snapshot (sc_artifacts sc);
         g' = sealed_generation g (sn_treeDigest sn) (sl_snapshotEvidenceRef i) (sn_evidenceDigest sn) now;
         l' = sealed_launch l (case sc_proof sc of None \<Rightarrow> sl_retirementEvidenceRef i | Some st \<Rightarrow> rt_finalRef st) now in
     and_then (add_checkpoint w c) (\<lambda>w1.
     and_then (put_generation w1 g g') (\<lambda>w2.
     and_then (put_launch idh w2 l l') (\<lambda>w3.
     and_then (update_run_row w3 (run_id r)
         (\<lambda>r'. run_status r' = Run_running \<and> run_revision r' = run_revision r \<and>
            run_activeWorkerLaunchId r' = Some (wl_launchId l))
         (\<lambda>r'. r'\<lparr>run_status := Run_queued, run_revision := run_revision r' + 1, run_activeWorkerLaunchId := None,
            run_latestCheckpointId := sl_checkpointId i, run_updatedAt := now\<rparr>) now) (\<lambda>(r', w4).
     Inr ((r', c, l', g'), w4))))))"

definition seal_worker_generation where
  "seal_worker_generation idh contents proof refresh w0 owner i now sampled =
     after_reads (seal_reads contents proof refresh w0 owner i) (\<lambda>sc.
       owned_transaction owner now (seal_row idh sc i now sampled))"

section \<open>The seal inside a typed reducer\<close>

definition prepare_tool_checkpoint ::
  "(run \<Rightarrow> worker_launch \<Rightarrow> workspace_generation \<Rightarrow> (snapshot_evidence \<times> retirement) kernel) \<Rightarrow> kernel_db \<Rightarrow> state_owner \<Rightarrow> run \<Rightarrow>
     (worker_launch \<times> workspace_generation \<times> snapshot_evidence \<times> retirement) kernel" where
  "prepare_tool_checkpoint proof w owner r =
     (case run_activeWorkerLaunchId r of
        None \<Rightarrow> Inl Type_error
      | Some launchId \<Rightarrow>
          and_then (read_required_worker_launch (db_launches w) launchId) (\<lambda>l.
          and_then (throw_if (wl_phase l \<noteq> Launch_activated) (Storage Lease_fenced)) (\<lambda>_.
          and_then (read_generation_by_ref (db_generations w) (wl_workspaceGenerationRef l)) (\<lambda>g.
          and_then (throw_if (wl_generationWriteState l \<noteq> Some Generation_checkpointing \<or> \<not> present (\<lambda>q. q \<noteq> []) (wl_quiesceId l) \<or>
              wg_phase g \<noteq> Generation_checkpointing \<or> wg_quiesceId g \<noteq> wl_quiesceId l \<or>
              wg_activeWorkerLaunchId g \<noteq> Some (wl_launchId l) \<or> wg_leaseEpoch g \<noteq> Some (run_leaseEpoch r) \<or>
              wl_leaseEpoch l \<noteq> Some (run_leaseEpoch r)) (Storage Lease_fenced)) (\<lambda>_.
          and_then (assert_active_state_owner w owner) (\<lambda>_.
          and_then (proof r l g) (\<lambda>(sn, st). Inr (l, g, sn, st))))))))"

definition commit_tool_checkpoint ::
  "identity_hash \<Rightarrow> run \<Rightarrow> worker_launch \<Rightarrow> workspace_generation \<Rightarrow> snapshot_evidence \<Rightarrow> retirement \<Rightarrow> artifact_ref \<Rightarrow>
     run \<Rightarrow> int \<Rightarrow> int \<Rightarrow> kernel_db \<Rightarrow> kernel_db kernel" where
  "commit_tool_checkpoint idh r l g sn st snapshotEvidenceRef current createdAt sampled w =
     and_then (assert_retirement_fresh st (sn_observedAt sn) createdAt sampled) (\<lambda>_.
     and_then (throw_if (createdAt < sn_observedAt sn \<or> run_activeWorkerLaunchId current \<noteq> Some (wl_launchId l) \<or>
         run_leaseEpoch current \<noteq> run_leaseEpoch r) (Storage Revision_conflict)) (\<lambda>_.
     and_then (read_required_worker_launch (db_launches w) (wl_launchId l)) (\<lambda>l'.
     and_then (throw_if (l' \<noteq> l) (Storage Revision_conflict)) (\<lambda>_.
     and_then (read_generation_by_ref (db_generations w) (wl_workspaceGenerationRef l)) (\<lambda>g'.
     and_then (throw_if (g' \<noteq> g) (Storage Revision_conflict)) (\<lambda>_.
     and_then (put_generation w g
         (sealed_generation (g\<lparr>wg_runId := run_id r\<rparr>) (sn_treeDigest sn) snapshotEvidenceRef (sn_evidenceDigest sn) createdAt)) (\<lambda>w1.
     and_then (put_launch idh w1 l (sealed_launch l (rt_finalRef st) createdAt)) (\<lambda>w2.
     Inr (case db_runs w2 (run_id r) of
         None \<Rightarrow> w2
       | Some r' \<Rightarrow> w2\<lparr>db_runs := (db_runs w2)(run_id r \<mapsto>
           r'\<lparr>run_status := Run_queued, run_activeWorkerLaunchId := None\<rparr>)\<rparr>)))))))))"

end
