(* ===== verification/Worker_Recovery.thy ===== *)
theory Worker_Recovery
  imports Worker_Seal Invocation_Ledger
begin

text \<open>
  How a worker that is lost ends (\<open>src/state/reducers/worker-recovery.ts\<close>): its run is fenced and waits for its death,
  which at most eight automatic probes look for, each with a deadline and with a longer pause after it; a death that is
  observed quarantines the generation, retires the launch and queues the run again.

  The closure that each operation reads before its transaction, and the native observations, are arguments.  Clocks are
  arguments: \<open>sampled\<close> before the transaction, \<open>now\<close> inside.  The branch of a run that is being stopped is left out.
\<close>

section \<open>Open invocations\<close>

definition latest_of_attempt :: "journal_entry list \<Rightarrow> journal_entry \<Rightarrow> journal_entry" where
  "latest_of_attempt js e = last (e # read_invocation_attempt js (je_opId e) (je_attempt e))"

definition open_worker_invocations :: "journal_entry list \<Rightarrow> journal_entry list" where
  "open_worker_invocations js =
     filter (\<lambda>e. je_phase e = Prepared \<and> je_phase (latest_of_attempt js e) \<in> {Prepared, Dispatch_claimed, Unknown}) js"

text \<open>\<open>installed\<close>: the assembly has the installed model broker.\<close>

definition has_only_settled_installed_model_unknowns :: "bool \<Rightarrow> journal_entry list \<Rightarrow> bool" where
  "has_only_settled_installed_model_unknowns installed js \<longleftrightarrow>
     installed \<and> open_worker_invocations js \<noteq> [] \<and>
     list_all (\<lambda>e. let c = latest_of_attempt js e in
       je_opKind e = Op_model \<and> je_replayClass e = Replay_retry \<and> je_opKind c = Op_model \<and> je_phase c = Unknown \<and>
       je_replayClass c = Replay_retry \<and> je_budgetSettlementRef c \<noteq> None \<and> je_budgetDelta c = je_budgetDelta e)
       (open_worker_invocations js)"

section \<open>The fence\<close>

record recovery_input =
  rv_runId :: string
  rv_expectedRunRevision :: int

definition recovery_input_ok :: "recovery_input \<Rightarrow> bool" where
  "recovery_input_ok i \<longleftrightarrow> rv_runId i \<noteq> [] \<and> int_at_least 1 (rv_expectedRunRevision i)"

text \<open>The checks that every operation begins with.\<close>

definition recovery_reads ::
  "(kernel_db \<Rightarrow> string \<Rightarrow> recovery_cut kernel) \<Rightarrow> kernel_db \<Rightarrow> state_owner \<Rightarrow> recovery_input \<Rightarrow> recovery_cut kernel" where
  "recovery_reads closure w owner i =
     and_then (throw_if (\<not> recovery_input_ok i) (Storage Invalid_request)) (\<lambda>_.
     and_then (assert_active_state_owner w owner) (\<lambda>_.
     and_then (closure w (rv_runId i)) (\<lambda>rc.
     and_then (throw_if (run_revision (rc_run rc) \<noteq> rv_expectedRunRevision i) (Storage Revision_conflict)) (\<lambda>_.
     Inr rc))))"

text \<open>The tables still have what the closure read.\<close>

definition unchanged_cut ::
  "recovery_cut \<Rightarrow> worker_launch \<Rightarrow> workspace_generation \<Rightarrow> kernel_db \<Rightarrow> unit kernel" where
  "unchanged_cut rc l g w =
     and_then (read_run w (run_id (rc_run rc))) (\<lambda>r.
     and_then (throw_if (r \<noteq> rc_run rc) (Storage Revision_conflict)) (\<lambda>_.
     and_then (read_required_worker_launch (db_launches w) (wl_launchId l)) (\<lambda>l'.
     and_then (throw_if (l' \<noteq> l) (Storage Revision_conflict)) (\<lambda>_.
     and_then (read_generation_by_ref (db_generations w) (Some (wg_generationRef g))) (\<lambda>g'.
     and_then (throw_if (g' \<noteq> g) (Storage Revision_conflict)) (\<lambda>_.
     and_then (next_journal_sequence (db_journal w (run_id r))) (\<lambda>n.
     throw_if (n \<noteq> int (length (rc_journal rc)) + 1) (Storage Revision_conflict))))))))"

definition recovery_transaction where
  "recovery_transaction owner now rc l g body =
     fenced_transaction owner now (\<lambda>w. and_then (assert_active_state_owner w owner) (\<lambda>_. unchanged_cut rc l g w)) (\<lambda>_. body)"

text \<open>A run that waits is named by its id alone.\<close>

definition run_waits :: "kernel_db \<Rightarrow> string \<Rightarrow> (run \<Rightarrow> run) \<Rightarrow> int \<Rightarrow> (run \<times> kernel_db) kernel" where
  "run_waits w runId f now =
     (case db_runs w runId of
        None \<Rightarrow> Inl (Storage Not_found)
      | Some r \<Rightarrow>
          let r' = (f r)\<lparr>run_revision := run_revision r + 1, run_updatedAt := now\<rparr> in
          and_then (append_run_state_event (w\<lparr>db_runs := (db_runs w)(runId \<mapsto> r')\<rparr>) r' now) (\<lambda>w'. Inr (r', w')))"

definition recovery_subjects :: "recovery_cut \<Rightarrow> (worker_launch \<times> workspace_generation \<times> artifact_ref \<times> string \<times> artifact_ref) kernel" where
  "recovery_subjects rc =
     (let r = rc_run rc in
      case (find (\<lambda>l. Some (wl_launchId l) = run_activeWorkerLaunchId r) (rc_launches rc), run_frontierRef r) of
        (Some l, Some frontier) \<Rightarrow>
          (case (find (\<lambda>g. Some (wg_generationRef g) = wl_workspaceGenerationRef l) (rc_generations rc),
                 wl_workerIdentityDigest l, wl_processContainmentRef l) of
             (Some g, Some identity, Some containment) \<Rightarrow>
               if run_status r \<noteq> Run_running \<or> length (rc_launches rc) \<noteq> 1 \<or> wl_phase l \<noteq> Launch_activated \<or>
                  wg_phase g \<notin> {Generation_active, Generation_revoking, Generation_checkpointing}
               then Inl (Storage State_transition_invalid) else Inr (l, g, frontier, identity, containment)
           | _ \<Rightarrow> Inl (Storage State_transition_invalid))
      | _ \<Rightarrow> Inl (Storage State_transition_invalid))"

definition worker_wait ::
  "recovery_cut \<Rightarrow> worker_launch \<Rightarrow> workspace_generation \<Rightarrow> artifact_ref \<Rightarrow> string \<Rightarrow> artifact_ref \<Rightarrow> string list \<Rightarrow> int \<Rightarrow>
     worker_death_wait" where
  "worker_wait rc l g frontier identity containment witnesses createdAt =
     Worker_death_wait (run_id (rc_run rc)) (run_revision (rc_run rc)) createdAt frontier
       (Worker_death_subject (wl_launchId l) (run_leaseEpoch (rc_run rc)) identity containment (wg_generationRef g) witnesses)
       (Probe_pending 0 createdAt None)"

definition fenced_generation :: "workspace_generation \<Rightarrow> worker_death_wait \<Rightarrow> nat \<Rightarrow> int \<Rightarrow> workspace_generation" where
  "fenced_generation g wait journalLength now =
     g\<lparr>wg_phase := Generation_fenced_reconciling, wg_rowVersion := wg_rowVersion g + 1, wg_updatedAt := now,
       wg_waitingSubjectRef := Some (Wait_artifact wait), wg_waitingSubjectDigest := Some (Wait_artifact wait),
       wg_fencedJournalSeq := Some (int journalLength), wg_fencedFromPhase := Some (wg_phase g)\<rparr>"

definition begin_recovery_row ::
  "identity_hash \<Rightarrow> recovery_cut \<Rightarrow> worker_launch \<Rightarrow> workspace_generation \<Rightarrow> worker_death_wait \<Rightarrow> int \<Rightarrow> kernel_db \<Rightarrow>
     (run \<times> kernel_db) kernel" where
  "begin_recovery_row idh rc l g wait now w =
     and_then (throw_if (now < ww_createdAt wait) (Storage Recovery_required)) (\<lambda>_.
     and_then (put_generation w g (fenced_generation g wait (length (rc_journal rc)) now)) (\<lambda>w1.
     and_then (put_launch idh w1 l
         (l\<lparr>wl_phase := Launch_reconciling, wl_generationWriteState := Some Generation_fenced_reconciling\<rparr>)) (\<lambda>w2.
     run_waits w2 (run_id (rc_run rc)) (\<lambda>r. r\<lparr>run_status := Run_waiting, run_waitingReason := Some Waiting_reconciliation,
         run_waitingOnRef := Some (Wait_artifact wait), run_activeWorkerLaunchId := None\<rparr>) now)))"

text \<open>\<open>digest\<close> addresses a row of the journal.\<close>

definition begin_worker_recovery where
  "begin_worker_recovery idh digest closure w0 owner i sampled now w =
     (case after_reads
         (and_then (recovery_reads closure w0 owner i) (\<lambda>rc.
          and_then (recovery_subjects rc) (\<lambda>subjects. Inr (rc, subjects))))
         (\<lambda>(rc, l, g, frontier, identity, containment) w.
            let wait = worker_wait rc l g frontier identity containment
                  (map digest (open_worker_invocations (rc_journal rc))) sampled;
                w1 = w\<lparr>db_artifacts := Wait_artifact wait # db_artifacts w\<rparr> in
            recovery_transaction owner now rc l g (begin_recovery_row idh rc l g wait now) w1) w of
        (res, w') \<Rightarrow> (state_operation Recovery_required res, w'))"

section \<open>Probing for the death\<close>

definition probe_backoff_ms :: "int list" where
  "probe_backoff_ms = [1000, 5000, 30000, 120000, 600000, 1800000, 3600000]"

definition probe_lifetime_ms :: int where "probe_lifetime_ms = 30000"

text \<open>The waits of other subjects are not worker waits.\<close>

definition read_worker_wait :: "kernel_db \<Rightarrow> run \<Rightarrow> worker_death_wait kernel" where
  "read_worker_wait w r =
     (case run_waitingOnRef r of
        None \<Rightarrow> Inl (Storage State_transition_invalid)
      | Some ref \<Rightarrow>
          if run_status r \<noteq> Run_waiting \<or> run_waitingReason r \<noteq> Some Waiting_reconciliation
          then Inl (Storage State_transition_invalid)
          else and_then (read_bytes w ref) (\<lambda>_.
            case ref of Wait_artifact wait \<Rightarrow> Inr wait | _ \<Rightarrow> Inl (Storage State_transition_invalid)))"

definition fenced_subject :: "recovery_cut \<Rightarrow> worker_death_wait \<Rightarrow> workspace_generation kernel" where
  "fenced_subject rc wait =
     (case find (\<lambda>g. wg_generationRef g = wd_workspaceGenerationRef (ww_subject wait)) (rc_generations rc) of
        None \<Rightarrow> Inl Type_error
      | Some g \<Rightarrow> if wg_phase g \<noteq> Generation_fenced_reconciling then Inl (Storage Recovery_required) else Inr g)"

definition first_launch :: "recovery_cut \<Rightarrow> worker_launch kernel" where
  "first_launch rc = (case rc_launches rc of [] \<Rightarrow> Inl Type_error | l # _ \<Rightarrow> Inr l)"

definition with_probe_state :: "worker_death_wait \<Rightarrow> probe_state \<Rightarrow> worker_death_wait" where
  "with_probe_state wait st =
     Worker_death_wait (ww_runId wait) (ww_createdFromRevision wait) (ww_createdAt wait) (ww_frontierRef wait) (ww_subject wait) st"

text \<open>Both operations on probes replace the wait and nothing else.\<close>

definition replace_wait_row ::
  "recovery_cut \<Rightarrow> workspace_generation \<Rightarrow> worker_death_wait \<Rightarrow> int \<Rightarrow> int \<Rightarrow> kernel_db \<Rightarrow> (run \<times> kernel_db) kernel" where
  "replace_wait_row rc g wait sampled now w =
     and_then (throw_if (now < sampled) (Storage Recovery_required)) (\<lambda>_.
     and_then (put_generation w g (g\<lparr>wg_rowVersion := wg_rowVersion g + 1, wg_updatedAt := now,
         wg_waitingSubjectRef := Some (Wait_artifact wait), wg_waitingSubjectDigest := Some (Wait_artifact wait)\<rparr>)) (\<lambda>w1.
     run_waits w1 (run_id (rc_run rc)) (\<lambda>r. r\<lparr>run_waitingOnRef := Some (Wait_artifact wait)\<rparr>) now))"

definition replace_wait where
  "replace_wait reads owner sampled now w =
     (case after_reads reads
         (\<lambda>(rc, l, g, wait) w.
            recovery_transaction owner now rc l g (replace_wait_row rc g wait sampled now)
              (w\<lparr>db_artifacts := Wait_artifact wait # db_artifacts w\<rparr>)) w of
        (res, w') \<Rightarrow> (state_operation Recovery_required res, w'))"

text \<open>\<open>target\<close>: the digest of the row that was fenced first.\<close>

definition probe_reads ::
  "(kernel_db \<Rightarrow> string \<Rightarrow> recovery_cut kernel) \<Rightarrow> (worker_death_wait \<Rightarrow> workspace_generation \<Rightarrow> string kernel) \<Rightarrow> string \<Rightarrow>
     kernel_db \<Rightarrow> state_owner \<Rightarrow> recovery_input \<Rightarrow> int \<Rightarrow> (recovery_cut \<times> worker_launch \<times> workspace_generation \<times> worker_death_wait) kernel" where
  "probe_reads closure target nonce w owner i sampled =
     and_then (recovery_reads closure w owner i) (\<lambda>rc.
     and_then (read_worker_wait w (rc_run rc)) (\<lambda>wait.
     case ww_probeState wait of
       Probe_pending count next _ \<Rightarrow>
         and_then (fenced_subject rc wait) (\<lambda>g.
         and_then (first_launch rc) (\<lambda>l.
         and_then (throw_if (sampled < next) (Storage State_transition_invalid)) (\<lambda>_.
         and_then (target wait g) (\<lambda>inspection.
         and_then (add_duration sampled probe_lifetime_ms) (\<lambda>deadline.
         Inr (rc, l, g, with_probe_state wait (Probe_in_flight (count + 1)
           (Probe_dispatch (count + 1) nonce sampled deadline (so_supervisorInstanceId owner) inspection))))))))
     | _ \<Rightarrow> Inl (Storage State_transition_invalid)))"

definition begin_worker_recovery_probe where
  "begin_worker_recovery_probe closure target nonce w0 owner i sampled now =
     replace_wait (probe_reads closure target nonce w0 owner i sampled) owner sampled now"

text \<open>The state after a probe that has not seen the death; \<open>evidence\<close> is the timeout that was published.\<close>

definition after_timeout :: "int \<Rightarrow> int \<Rightarrow> artifact_ref \<times> string \<Rightarrow> probe_state kernel" where
  "after_timeout count closedAt evidence =
     (if count = 8 then Inr (Probe_exhausted 8 (fst evidence) (snd evidence))
      else if 1 \<le> count \<and> count \<le> 7
        then and_then (add_duration closedAt (probe_backoff_ms ! nat (count - 1))) (\<lambda>next.
          Inr (Probe_pending count next (Some evidence)))
      else Inl Type_error)"

text \<open>
  \<open>receipt\<close>: what the receipt of the joined task comes to, if there is one; \<open>ownerDeath\<close>: that the owner of the
  probe is dead.
\<close>

definition close_reads ::
  "(kernel_db \<Rightarrow> string \<Rightarrow> recovery_cut kernel) \<Rightarrow> (worker_death_wait \<Rightarrow> unit kernel) option \<Rightarrow> (worker_death_wait \<Rightarrow> unit kernel) \<Rightarrow>
     (worker_death_wait \<Rightarrow> (artifact_ref \<times> string) kernel) \<Rightarrow> kernel_db \<Rightarrow> state_owner \<Rightarrow> recovery_input \<Rightarrow> int \<Rightarrow>
     (recovery_cut \<times> worker_launch \<times> workspace_generation \<times> worker_death_wait) kernel" where
  "close_reads closure receipt ownerDeath publish w owner i closedAt =
     and_then (recovery_reads closure w owner i) (\<lambda>rc.
     and_then (read_worker_wait w (rc_run rc)) (\<lambda>wait.
     case ww_probeState wait of
       Probe_in_flight count d \<Rightarrow>
         and_then (throw_if (closedAt < pd_probeDeadlineAt d) (Storage State_transition_invalid)) (\<lambda>_.
         and_then (if pd_owningSupervisorInstanceId d = so_supervisorInstanceId owner
             then (case receipt of None \<Rightarrow> Inl (Storage Recovery_required) | Some check \<Rightarrow> check wait)
             else and_then (throw_if (receipt \<noteq> None) (Storage Recovery_required)) (\<lambda>_. ownerDeath wait)) (\<lambda>_.
         and_then (publish wait) (\<lambda>evidence.
         and_then (after_timeout count closedAt evidence) (\<lambda>st.
         and_then (first_launch rc) (\<lambda>l.
         and_then (fenced_subject rc wait) (\<lambda>g.
         Inr (rc, l, g, with_probe_state wait st)))))))
     | _ \<Rightarrow> Inl (Storage State_transition_invalid)))"

definition close_worker_recovery_probe where
  "close_worker_recovery_probe closure receipt ownerDeath publish w0 owner i closedAt now =
     replace_wait (close_reads closure receipt ownerDeath publish w0 owner i closedAt) owner closedAt now"

section \<open>Observing the death\<close>

record death_observation =
  do_containmentRef :: artifact_ref
  do_observedAt :: int

record workspace_observation =
  wo_generationRef :: artifact_ref
  wo_generationIdentityDigest :: string
  wo_observedAt :: int
  wo_observedState :: string

record completion =
  cm_cut :: recovery_cut
  cm_launch :: worker_launch
  cm_generation :: workspace_generation
  cm_replacement :: "workspace_generation option"
  cm_openInvocations :: bool
  cm_probeDeadlineAt :: int

definition same_tables :: "kernel_db \<Rightarrow> recovery_cut \<Rightarrow> unit kernel" where
  "same_tables w rc =
     and_then (read_run w (run_id (rc_run rc))) (\<lambda>r.
     throw_if (r \<noteq> rc_run rc \<or> db_journal w (run_id r) \<noteq> rc_journal rc \<or>
       unretired_launches (db_launches w) (run_id r) \<noteq> rc_launches rc \<or>
       generations_of_run (db_generations w) (run_id r) \<noteq> rc_generations rc) (Storage Revision_conflict))"

definition nonproductive :: "workspace_generation \<Rightarrow> bool" where
  "nonproductive g \<longleftrightarrow> wg_phase g \<in> {Generation_materializing, Generation_preactivated_readonly}"

text \<open>
  \<open>installed\<close>: whether the assembly has the installed model broker; \<open>quiescent\<close>: what the caller's broker quiescence
  comes to, if it has one; \<open>anchor\<close> and \<open>retained\<close> validate the fenced row and the launch over their artifacts.
\<close>

definition complete_reads ::
  "(kernel_db \<Rightarrow> string \<Rightarrow> recovery_cut kernel) \<Rightarrow> bool \<Rightarrow> unit kernel option \<Rightarrow>
     (worker_death_wait \<Rightarrow> workspace_generation \<Rightarrow> unit kernel) \<Rightarrow> (run \<Rightarrow> worker_launch \<Rightarrow> workspace_generation \<Rightarrow> unit kernel) \<Rightarrow>
     death_observation \<Rightarrow> workspace_observation kernel \<Rightarrow> kernel_db \<Rightarrow> state_owner \<Rightarrow> recovery_input \<Rightarrow> int \<Rightarrow>
     (completion \<times> workspace_observation) kernel" where
  "complete_reads closure installed quiescent anchor retained death observe w owner i sampled =
     and_then (recovery_reads closure w owner i) (\<lambda>rc.
     and_then (read_worker_wait w (rc_run rc)) (\<lambda>wait.
     case ww_probeState wait of
       Probe_in_flight _ d \<Rightarrow>
         let r = rc_run rc; opened = open_worker_invocations (rc_journal rc) \<noteq> [] in
         and_then (throw_if (pd_owningSupervisorInstanceId d \<noteq> so_supervisorInstanceId owner)
             (Storage State_transition_invalid)) (\<lambda>_.
         and_then (assert_active_state_owner w owner) (\<lambda>_.
         and_then (same_tables w rc) (\<lambda>_.
         and_then (if \<not> opened then Inr ()
             else if \<not> has_only_settled_installed_model_unknowns installed (rc_journal rc)
               then Inl (Storage Recovery_required)
             else (case quiescent of
                 None \<Rightarrow> Inl (Storage Recovery_required)
               | Some q \<Rightarrow> and_then q (\<lambda>_.
                   throw_if (\<exists>g\<in>set (rc_generations rc). nonproductive g) (Storage Recovery_required)))) (\<lambda>_.
         and_then (throw_if (run_stopIntentRef r \<noteq> None \<or> run_cancelRequested r \<or> run_deadlineAt r \<le> sampled)
             (Storage Recovery_required)) (\<lambda>_.
         and_then (first_launch rc) (\<lambda>l.
         and_then (fenced_subject rc wait) (\<lambda>g.
         and_then (anchor wait g) (\<lambda>_.
         and_then (retained r l g) (\<lambda>_.
         and_then (throw_if (Some (do_containmentRef death) \<noteq> wl_processContainmentRef l \<or>
             do_observedAt death < pd_probeStartedAt d \<or> pd_probeDeadlineAt d < do_observedAt death)
             (Storage Artifact_mismatch)) (\<lambda>_.
         and_then observe (\<lambda>ob.
         and_then (throw_if (wo_generationRef ob \<noteq> wg_generationRef g \<or>
             wo_generationIdentityDigest ob \<noteq> wg_generationIdentityDigest g \<or> wo_observedAt ob < do_observedAt death \<or>
             pd_probeDeadlineAt d < wo_observedAt ob) (Storage Artifact_mismatch)) (\<lambda>_.
         let candidates = filter (\<lambda>g'. wg_phase g' = Generation_preactivated_readonly \<and>
               wg_generationRef g' \<noteq> wg_generationRef g \<and> wg_sourceCheckpointId g' = ck_id (rc_latestCheckpoint rc) \<and>
               wg_sourceWorkspaceStateRef g' = ck_workspaceStateRef (rc_latestCheckpoint rc)) (rc_generations rc) in
         if 1 < length candidates then Inl (Storage Recovery_required)
         else Inr (\<lparr>cm_cut = rc, cm_launch = l, cm_generation = g,
             cm_replacement = (case candidates of [] \<Rightarrow> None | g' # _ \<Rightarrow> Some g'),
             cm_openInvocations = opened, cm_probeDeadlineAt = pd_probeDeadlineAt d\<rparr>, ob)))))))))))))
     | _ \<Rightarrow> Inl (Storage State_transition_invalid)))"

definition require_current_cut ::
  "unit kernel option \<Rightarrow> state_owner \<Rightarrow> completion \<Rightarrow> int \<Rightarrow> kernel_db \<Rightarrow> unit kernel" where
  "require_current_cut quiescent owner cm now w =
     (let rc = cm_cut cm; r = rc_run rc in
      and_then (assert_active_state_owner w owner) (\<lambda>_.
      and_then (if \<not> cm_openInvocations cm then Inr ()
          else (case quiescent of
              None \<Rightarrow> Inl (Storage Recovery_required)
            | Some q \<Rightarrow> and_then q (\<lambda>_.
                throw_if (\<exists>g\<in>set (generations_of_run (db_generations w) (run_id r)). nonproductive g)
                  (Storage Revision_conflict)))) (\<lambda>_.
      and_then (same_tables w rc) (\<lambda>_.
      and_then (read_required_worker_launch (db_launches w) (wl_launchId (cm_launch cm))) (\<lambda>l.
      and_then (throw_if (l \<noteq> cm_launch cm) (Storage Revision_conflict)) (\<lambda>_.
      and_then (read_generation_by_ref (db_generations w) (Some (wg_generationRef (cm_generation cm)))) (\<lambda>g.
      and_then (throw_if (g \<noteq> cm_generation cm) (Storage Revision_conflict)) (\<lambda>_.
      and_then (case cm_replacement cm of
          None \<Rightarrow> Inr ()
        | Some g0 \<Rightarrow> and_then (read_generation_by_ref (db_generations w) (Some (wg_generationRef g0))) (\<lambda>g'.
            throw_if (g' \<noteq> g0) (Storage Revision_conflict))) (\<lambda>_.
      and_then (next_journal_sequence (db_journal w (run_id r))) (\<lambda>n.
      and_then (throw_if (n \<noteq> int (length (rc_journal rc)) + 1) (Storage Revision_conflict)) (\<lambda>_.
      throw_if (cm_probeDeadlineAt cm \<le> now \<or> run_deadlineAt r \<le> now) (Storage Recovery_required))))))))))))"

definition quarantined_generation :: "workspace_generation \<Rightarrow> artifact_ref \<Rightarrow> string \<Rightarrow> string \<Rightarrow> int \<Rightarrow> workspace_generation" where
  "quarantined_generation g evidenceRef evidenceDigest observedState now =
     g\<lparr>wg_rowVersion := wg_rowVersion g + 1, wg_updatedAt := now, wg_phase := Generation_quarantined,
       wg_snapshotEvidence := (None, None), wg_activeWorkerLaunchId := None, wg_leaseEpoch := None, wg_quiesceId := None,
       wg_waitingSubjectRef := None, wg_waitingSubjectDigest := None, wg_fencedFromPhase := None,
       wg_fencedJournalSeq := None, wg_quarantineEvidence := (Some evidenceRef, Some evidenceDigest),
       wg_observedState := Some observedState, wg_retirementEvidenceRef := None, wg_retirementEvidenceDigest := None\<rparr>"

definition complete_row ::
  "identity_hash \<Rightarrow> completion \<Rightarrow> workspace_observation \<Rightarrow> artifact_ref \<Rightarrow> string \<Rightarrow> artifact_ref \<Rightarrow> int \<Rightarrow> kernel_db \<Rightarrow>
     (run \<times> kernel_db) kernel" where
  "complete_row idh cm ob quarantineRef quarantineDigest wrapperRef now w =
     and_then (put_generation w (cm_generation cm)
         (quarantined_generation (cm_generation cm) quarantineRef quarantineDigest (wo_observedState ob) now)) (\<lambda>w1.
     and_then (put_launch idh w1 (cm_launch cm) ((cm_launch cm)\<lparr>wl_phase := Launch_retired, wl_retiredAt := Some now,
         wl_retirementEvidenceRef := Some wrapperRef\<rparr>)) (\<lambda>w2.
     run_waits w2 (run_id (rc_run (cm_cut cm)))
       (\<lambda>r. r\<lparr>run_status := Run_queued, run_waitingReason := None, run_waitingOnRef := None\<rparr>) now))"

text \<open>
  \<open>quarantine\<close>: the move of the directory and what is published over it, with the time it was observed at; it begins
  with the same check as the transaction, at the tables \<open>w1\<close> of that moment.
\<close>

definition complete_worker_recovery_probe where
  "complete_worker_recovery_probe idh closure installed quiescent anchor retained death observe quarantine
      w0 w1 owner i sampled checked now w =
     (case after_reads
         (and_then (complete_reads closure installed quiescent anchor retained death observe w0 owner i sampled) (\<lambda>(cm, ob).
          and_then (require_current_cut quiescent owner cm checked w1) (\<lambda>_.
          and_then (quarantine cm) (\<lambda>published. Inr (cm, ob, published)))))
         (\<lambda>(cm, ob, quarantineRef, quarantineDigest, wrapperRef, quarantinedAt).
            fenced_transaction owner now
              (\<lambda>w. and_then (require_current_cut quiescent owner cm now w) (\<lambda>_.
                 throw_if (now < quarantinedAt) (Storage Recovery_required)))
              (\<lambda>_. complete_row idh cm ob quarantineRef quarantineDigest wrapperRef now)) w of
        (res, w') \<Rightarrow> (state_operation Recovery_required res, w'))"

end
