(* ===== verification/Worker_Retirement.thy ===== *)
theory Worker_Retirement
  imports Worker_Recovery
begin

text \<open>
  How a launch that never became active is given up (\<open>src/state/preactivation-retirement.ts\<close>), how a quarantined
  generation is retired (\<open>src/state/generation-retirement.ts\<close>), and how a lost worker is retired together with the
  run that is being stopped (\<open>src/state/worker-recovery-terminal.ts\<close>).

  Native observations, and what is published over them, are arguments.
\<close>

section \<open>A launch without power\<close>

record preactivation_cut =
  pc_run :: run
  pc_launch :: worker_launch
  pc_generation :: workspace_generation
  pc_checkpoint :: checkpoint

definition checked_cut :: "kernel_db \<Rightarrow> state_owner \<Rightarrow> string \<Rightarrow> preactivation_cut kernel" where
  "checked_cut w owner launchId =
     and_then (assert_active_state_owner w owner) (\<lambda>_.
     and_then (read_required_worker_launch (db_launches w) launchId) (\<lambda>l.
     and_then (throw_if (wl_phase l \<notin> {Launch_reserved, Launch_preactivated}) (Storage State_transition_invalid)) (\<lambda>_.
     and_then (read_run w (wl_runId l)) (\<lambda>r.
     and_then (read_generation_by_ref (db_generations w) (wl_workspaceGenerationRef l)) (\<lambda>g.
     and_then (read_checkpoint w (wg_sourceCheckpointId g)) (\<lambda>c.
     and_then (throw_if (wl_generationWriteState l \<noteq> Some Generation_preactivated_readonly \<or> wl_leaseVersion l \<noteq> Some 0 \<or>
         \<not> no_lease l \<or> wl_quiesceId l \<noteq> None \<or> run_status r \<noteq> Run_queued \<or> run_activeWorkerLaunchId r \<noteq> None \<or>
         wg_phase g \<noteq> Generation_preactivated_readonly \<or> wg_runId g \<noteq> run_id r \<or>
         wg_sourceCheckpointId g \<noteq> run_latestCheckpointId r \<or> ck_runId c \<noteq> run_id r \<or>
         ck_workspaceStateRef c \<noteq> wg_sourceWorkspaceStateRef g) (Storage State_transition_invalid)) (\<lambda>_.
     Inr \<lparr>pc_run = r, pc_launch = l, pc_generation = g, pc_checkpoint = c\<rparr>)))))))"

definition assert_observation_fresh :: "int \<Rightarrow> int \<Rightarrow> unit kernel" where
  "assert_observation_fresh now observedAt =
     throw_if (now < observedAt \<or> 5000 < now - observedAt) (Storage Recovery_required)"

definition unchanged_preactivation :: "kernel_db \<Rightarrow> state_owner \<Rightarrow> preactivation_cut \<Rightarrow> int \<Rightarrow> int \<Rightarrow> unit kernel" where
  "unchanged_preactivation w owner pc now observedAt =
     and_then (checked_cut w owner (wl_launchId (pc_launch pc))) (\<lambda>current.
     and_then (throw_if (current \<noteq> pc) (Storage Revision_conflict)) (\<lambda>_.
     assert_observation_fresh now observedAt))"

text \<open>
  What is published of the two observations: the containment if there was one, the proof, the quarantine.
\<close>

record preactivation_evidence =
  px_observedAt :: int
  px_containmentRef :: "artifact_ref option"
  px_proofRef :: artifact_ref
  px_quarantineRef :: artifact_ref
  px_quarantineDigest :: string
  px_quarantinedAt :: int
  px_observedState :: string

definition retire_preactivation_row ::
  "identity_hash \<Rightarrow> preactivation_cut \<Rightarrow> preactivation_evidence \<Rightarrow> int \<Rightarrow> kernel_db \<Rightarrow> (run \<times> kernel_db) kernel" where
  "retire_preactivation_row idh pc px now w =
     and_then (throw_if (\<not> safe_integer (run_revision (pc_run pc) + 1)) (Storage Recovery_required)) (\<lambda>_.
     and_then (put_generation w (pc_generation pc)
         (quarantined_generation (pc_generation pc) (px_quarantineRef px) (px_quarantineDigest px) (px_observedState px) now)) (\<lambda>w1.
     and_then (put_launch idh w1 (pc_launch pc) ((pc_launch pc)\<lparr>wl_phase := Launch_retired, wl_retiredAt := Some now,
         wl_retirementEvidenceRef := Some (px_proofRef px),
         wl_processContainmentRef := (case px_containmentRef px of None \<Rightarrow> wl_processContainmentRef (pc_launch pc) | c \<Rightarrow> c)\<rparr>)) (\<lambda>w2.
     update_run_row w2 (run_id (pc_run pc)) (\<lambda>r. run_revision r = run_revision (pc_run pc))
       (\<lambda>r. r\<lparr>run_revision := run_revision r + 1, run_updatedAt := now\<rparr>) now)))"

text \<open>\<open>inspect\<close> validates the closure and observes; \<open>quarantine\<close> moves the directory after one more look at the tables.\<close>

definition retire_preactivation_launch where
  "retire_preactivation_launch idh inspect w0 w1 owner launchId checked now w =
     (case after_reads
         (and_then (checked_cut w0 owner launchId) (\<lambda>pc.
          and_then (inspect pc) (\<lambda>px.
          and_then (throw_if (px_containmentRef px \<noteq> None \<and> wl_processContainmentRef (pc_launch pc) \<noteq> None \<and>
              px_containmentRef px \<noteq> wl_processContainmentRef (pc_launch pc)) Type_error) (\<lambda>_.
          and_then (unchanged_preactivation w1 owner pc checked (px_observedAt px)) (\<lambda>_. Inr (pc, px))))))
         (\<lambda>(pc, px).
            fenced_transaction owner now
              (\<lambda>w. and_then (unchanged_preactivation w owner pc now (px_observedAt px)) (\<lambda>_.
                 assert_observation_fresh now (px_quarantinedAt px)))
              (\<lambda>_. retire_preactivation_row idh pc px now)) w of
        (res, w') \<Rightarrow> (state_operation Recovery_required res, w'))"

section \<open>The end of a quarantined generation\<close>

text \<open>The generation a launch is bound to, if only by its preparation.\<close>

definition bound_generation :: "worker_launch \<Rightarrow> artifact_ref option" where
  "bound_generation l =
     (case wl_workspaceGenerationRef l of
        None \<Rightarrow> map_option fst (Option.bind (wl_preparation l) wp_generation)
      | ref \<Rightarrow> ref)"

definition generation_held :: "kernel_db \<Rightarrow> artifact_ref \<Rightarrow> bool" where
  "generation_held w ref \<longleftrightarrow>
     (\<exists>l\<in>set (db_launches w). bound_generation l = Some ref \<and>
        (wl_phase l \<noteq> Launch_retired \<or> (\<exists>runId r. db_runs w runId = Some r \<and> run_activeWorkerLaunchId r = Some (wl_launchId l))))"

definition releasable_claim :: "state_owner \<Rightarrow> run \<Rightarrow> worker_launch \<Rightarrow> journal_entry list \<Rightarrow> bool" where
  "releasable_claim owner r l js \<longleftrightarrow>
     (\<exists>e\<in>set js. latest_of_attempt js e = e \<and> je_phase e = Dispatch_claimed \<and> je_brokerFenceTokenDigest e \<noteq> None \<and>
        je_stateOwnerEpoch e = Some (so_ownerEpoch owner) \<and>
        je_supervisorInstanceId e = Some (so_supervisorInstanceId owner) \<and> je_leaseEpoch e = run_leaseEpoch r \<and>
        run_status r = Run_running \<and> Some (wl_launchId l) = run_activeWorkerLaunchId r \<and> wl_leaseEpoch l = Some (je_leaseEpoch e))"

record quarantine_input =
  qi_runId :: string
  qi_expectedRunRevision :: int
  qi_expectedGenerationRowVersion :: int
  qi_generationRef :: artifact_ref

text \<open>When the worker and the directory were last observed to be gone.\<close>

record gone_observation =
  go_workerObservedAt :: int
  go_workspaceObservedAt :: int
  go_workspaceRef :: artifact_ref
  go_workspaceIdentityDigest :: string
  go_observedState :: string

definition quarantine_reads ::
  "(kernel_db \<Rightarrow> string \<Rightarrow> recovery_cut kernel) \<Rightarrow> (workspace_generation \<Rightarrow> worker_launch \<Rightarrow> gone_observation kernel) \<Rightarrow>
     (gone_observation \<Rightarrow> int \<Rightarrow> (artifact_ref \<times> string) kernel) \<Rightarrow> kernel_db \<Rightarrow> state_owner \<Rightarrow> quarantine_input \<Rightarrow> int \<Rightarrow>
     (run \<times> workspace_generation \<times> worker_launch \<times> artifact_ref \<times> string) kernel" where
  "quarantine_reads closure gone publish w owner i observedAt =
     and_then (closure w (qi_runId i)) (\<lambda>rc.
     let r = rc_run rc in
     and_then (read_generation_by_ref (db_generations w) (Some (qi_generationRef i))) (\<lambda>g.
     and_then (throw_if (run_revision r \<noteq> qi_expectedRunRevision i \<or> wg_phase g \<noteq> Generation_quarantined \<or>
         wg_runId g \<noteq> run_id r \<or> wg_rowVersion g \<noteq> qi_expectedGenerationRowVersion i \<or>
         \<not> safe_integer (wg_rowVersion g + 1)) (Storage Revision_conflict)) (\<lambda>_.
     case filter (\<lambda>l. wl_runId l = run_id r \<and> wl_workspaceGenerationRef l = Some (wg_generationRef g)) (db_launches w) of
       [l] \<Rightarrow>
         and_then (throw_if (wl_phase l \<noteq> Launch_retired) (Storage Artifact_mismatch)) (\<lambda>_.
         and_then (gone g l) (\<lambda>go.
         and_then (throw_if (go_workspaceRef go \<noteq> wg_generationRef g \<or>
             go_workspaceIdentityDigest go \<noteq> wg_generationIdentityDigest g \<or>
             Some (go_observedState go) \<noteq> wg_observedState g) (Storage Revision_conflict)) (\<lambda>_.
         and_then (assert_active_state_owner w owner) (\<lambda>_.
         and_then (throw_if (observedAt < go_workerObservedAt go \<or> observedAt < go_workspaceObservedAt go \<or>
             observedAt < wg_updatedAt g \<or> 5000 < observedAt - go_workerObservedAt go \<or>
             5000 < observedAt - go_workspaceObservedAt go) (Storage Recovery_required)) (\<lambda>_.
         and_then (publish go observedAt) (\<lambda>(ref, digest). Inr (r, g, l, ref, digest)))))))
     | _ \<Rightarrow> Inl (Storage Artifact_mismatch))))"

definition quarantine_guards ::
  "(workspace_generation \<Rightarrow> worker_launch \<Rightarrow> gone_observation kernel) \<Rightarrow> state_owner \<Rightarrow> run \<Rightarrow> workspace_generation \<Rightarrow>
     worker_launch \<Rightarrow> kernel_db \<Rightarrow> gone_observation kernel" where
  "quarantine_guards gone owner r g l w =
     and_then (assert_active_state_owner w owner) (\<lambda>_.
     and_then (read_run w (run_id r)) (\<lambda>r'.
     and_then (read_generation_by_ref (db_generations w) (Some (wg_generationRef g))) (\<lambda>g'.
     and_then (throw_if (r' \<noteq> r \<or> g' \<noteq> g) (Storage Revision_conflict)) (\<lambda>_.
     and_then (gone g l) (\<lambda>go.
     and_then (throw_if (go_workspaceRef go \<noteq> wg_generationRef g \<or> Some (go_observedState go) \<noteq> wg_observedState g \<or>
         generation_held w (wg_generationRef g)) (Storage State_transition_invalid)) (\<lambda>_.
     and_then (throw_if (releasable_claim owner r' l (db_journal w (run_id r))) (Storage State_transition_invalid)) (\<lambda>_.
     Inr go)))))))"

definition retire_quarantined_row ::
  "workspace_generation \<Rightarrow> artifact_ref \<Rightarrow> string \<Rightarrow> int \<Rightarrow> int \<Rightarrow> gone_observation \<Rightarrow> kernel_db \<Rightarrow>
     (workspace_generation \<times> kernel_db) kernel" where
  "retire_quarantined_row g evidenceRef evidenceDigest observedAt now go w =
     and_then (throw_if (now < observedAt \<or> 5000 < now - observedAt \<or> now < go_workerObservedAt go \<or>
         now < go_workspaceObservedAt go) (Storage Recovery_required)) (\<lambda>_.
     let g' = g\<lparr>wg_rowVersion := wg_rowVersion g + 1, wg_updatedAt := now, wg_phase := Generation_retired,
                wg_quarantineEvidence := (None, None), wg_observedState := None,
                wg_retirementEvidenceRef := Some evidenceRef, wg_retirementEvidenceDigest := Some evidenceDigest\<rparr> in
     and_then (put_generation w g g') (\<lambda>w'. Inr (g', w')))"

definition retire_quarantined_generation where
  "retire_quarantined_generation closure gone gone' publish w0 owner i observedAt now =
     after_reads (quarantine_reads closure gone publish w0 owner i observedAt) (\<lambda>(r, g, l, evidenceRef, evidenceDigest).
       fenced_transaction owner now (quarantine_guards gone' owner r g l)
         (retire_quarantined_row g evidenceRef evidenceDigest observedAt now))"

section \<open>A lost worker of a run that is being stopped\<close>

text \<open>
  The plan that the terminal transaction of the stop reducer commits: the checks first, then both moves of the
  generation and the retirement of the launch.  \<open>observed\<close> are the times of the native observations.
\<close>

record terminal_plan =
  tm_cut :: recovery_cut
  tm_launch :: worker_launch
  tm_generation :: workspace_generation
  tm_quarantineRef :: artifact_ref
  tm_quarantineDigest :: string
  tm_observedState :: string
  tm_retirementRef :: artifact_ref
  tm_retirementDigest :: string
  tm_wrapperRef :: artifact_ref
  tm_observedAt :: int
  tm_probeDeadlineAt :: int

text \<open>What the plan is made for: the fenced launch and generation of the wait that the stopped run is in.\<close>

definition terminal_subjects :: "state_owner \<Rightarrow> terminal_plan \<Rightarrow> worker_death_wait \<Rightarrow> bool" where
  "terminal_subjects owner tm wait \<longleftrightarrow>
     (let r = rc_run (tm_cut tm); l = tm_launch tm; g = tm_generation tm in
      run_stopIntentRef r \<noteq> None \<and> run_status r = Run_waiting \<and> run_waitingReason r = Some Waiting_reconciliation \<and>
      run_waitingOnRef r = Some (Wait_artifact wait) \<and>
      (case ww_probeState wait of
         Probe_in_flight _ d \<Rightarrow> pd_owningSupervisorInstanceId d = so_supervisorInstanceId owner
       | _ \<Rightarrow> False) \<and>
      wl_phase l = Launch_reconciling \<and> wl_launchId l = wd_oldWorkerLaunchId (ww_subject wait) \<and>
      wg_phase g = Generation_fenced_reconciling \<and> wg_waitingSubjectRef g = run_waitingOnRef r \<and>
      wg_generationRef g = wd_workspaceGenerationRef (ww_subject wait))"

definition validate_terminal_plan :: "state_owner \<Rightarrow> terminal_plan \<Rightarrow> int list \<Rightarrow> int \<Rightarrow> kernel_db \<Rightarrow> unit kernel" where
  "validate_terminal_plan owner tm observed now w =
     and_then (assert_active_state_owner w owner) (\<lambda>_.
     and_then (unchanged_cut (tm_cut tm) (tm_launch tm) (tm_generation tm) w) (\<lambda>_.
     and_then (throw_if (now < tm_observedAt tm \<or> tm_probeDeadlineAt tm \<le> now \<or> 5000 < now - tm_observedAt tm)
         (Storage Recovery_required)) (\<lambda>_.
     throw_if (\<exists>t\<in>set observed. now < t \<or> 5000 < now - t) (Storage Recovery_required))))"

definition commit_terminal_plan ::
  "identity_hash \<Rightarrow> state_owner \<Rightarrow> terminal_plan \<Rightarrow> int list \<Rightarrow> int \<Rightarrow> kernel_db \<Rightarrow> kernel_db kernel" where
  "commit_terminal_plan idh owner tm observed now w =
     (let g = tm_generation tm;
          q = quarantined_generation g (tm_quarantineRef tm) (tm_quarantineDigest tm) (tm_observedState tm) now;
          x = q\<lparr>wg_rowVersion := wg_rowVersion g + 2, wg_phase := Generation_retired, wg_quarantineEvidence := (None, None),
                wg_observedState := None, wg_retirementEvidenceRef := Some (tm_retirementRef tm),
                wg_retirementEvidenceDigest := Some (tm_retirementDigest tm)\<rparr> in
      and_then (validate_terminal_plan owner tm observed now w) (\<lambda>_.
      and_then (put_generation w g q) (\<lambda>w1.
      and_then (put_generation w1 q x) (\<lambda>w2.
      put_launch idh w2 (tm_launch tm) ((tm_launch tm)\<lparr>wl_phase := Launch_retired, wl_retiredAt := Some now,
        wl_retirementEvidenceRef := Some (tm_wrapperRef tm)\<rparr>)))))"

end
