(* ===== verification/Lease_Invariant.thy ===== *)
theory Lease_Invariant
  imports Worker_Preparation Worker_Retirement
begin

text \<open>
  What holds of launches, generations and runs at all times, run by run: who may work on a run, under which epoch, and
  for how long.
\<close>

section \<open>The rows of a run\<close>

definition launches_of :: "kernel_db \<Rightarrow> string \<Rightarrow> worker_launch list" where
  "launches_of w r = filter (\<lambda>l. wl_runId l = r) (db_launches w)"

definition holds_workspace :: "workspace_generation \<Rightarrow> bool" where
  "holds_workspace g \<longleftrightarrow>
     wg_phase g \<in> {Generation_active, Generation_revoking, Generation_checkpointing, Generation_fenced_reconciling}"

definition holders_of :: "kernel_db \<Rightarrow> string \<Rightarrow> workspace_generation list" where
  "holders_of w r = filter holds_workspace (generations_of_run (db_generations w) r)"

definition unretired :: "worker_launch list \<Rightarrow> worker_launch list" where
  "unretired ls = filter (\<lambda>l. wl_retiredAt l = None) ls"

definition lease_epochs :: "worker_launch list \<Rightarrow> int list" where
  "lease_epochs ls = List.map_filter wl_leaseEpoch ls"

lemma unretired_launches_of: "unretired_launches (db_launches w) r = unretired (launches_of w r)"
  by (simp add: unretired_launches_def unretired_def launches_of_def conj_commute)

section \<open>The invariant\<close>

definition matches_holder :: "worker_launch \<Rightarrow> workspace_generation \<Rightarrow> bool" where
  "matches_holder l g \<longleftrightarrow>
     wl_workspaceGenerationRef l = Some (wg_generationRef g) \<and> wl_generationWriteState l = Some (wg_phase g) \<and>
     wg_activeWorkerLaunchId g = Some (wl_launchId l) \<and> wg_leaseEpoch g = wl_leaseEpoch l \<and> wg_quiesceId g = wl_quiesceId l"

definition idle :: "run \<Rightarrow> bool" where
  "idle a \<longleftrightarrow> run_status a \<noteq> Run_running \<and> run_activeWorkerLaunchId a = None"

definition lease_bounded :: "worker_launch \<Rightarrow> run \<Rightarrow> int \<Rightarrow> bool" where
  "lease_bounded l a accepted \<longleftrightarrow>
     (case wl_leaseExpiresAt l of
        None \<Rightarrow> False
      | Some t \<Rightarrow> t \<le> run_deadlineAt a \<and> t \<le> accepted + max_lease_extension_ms)"

definition held_lease :: "worker_launch \<Rightarrow> workspace_generation \<Rightarrow> run \<Rightarrow> int \<Rightarrow> bool" where
  "held_lease l g a accepted \<longleftrightarrow>
     matches_holder l g \<and> run_status a = Run_running \<and> run_activeWorkerLaunchId a = Some (wl_launchId l) \<and>
     wl_leaseEpoch l = Some (run_leaseEpoch a) \<and> lease_bounded l a accepted"

fun probe_state_ok :: "probe_state \<Rightarrow> bool" where
  "probe_state_ok (Probe_pending count _ evidence) = (0 \<le> count \<and> count \<le> 7 \<and> (count = 0) = (evidence = None))"
| "probe_state_ok (Probe_in_flight count d) =
     (1 \<le> count \<and> count \<le> 8 \<and> pd_probeOrdinal d = count \<and> pd_probeDeadlineAt d = pd_probeStartedAt d + probe_lifetime_ms)"
| "probe_state_ok (Probe_exhausted count _ _) = (count = 8)"
| "probe_state_ok _ = False"

definition wait_names :: "worker_death_wait \<Rightarrow> worker_launch \<Rightarrow> workspace_generation \<Rightarrow> run \<Rightarrow> bool" where
  "wait_names wait l g a \<longleftrightarrow>
     ww_runId wait = run_id a \<and> wd_oldWorkerLaunchId (ww_subject wait) = wl_launchId l \<and>
     Some (wd_oldLeaseEpoch (ww_subject wait)) = wl_leaseEpoch l \<and>
     Some (wd_oldWorkerIdentity (ww_subject wait)) = wl_workerIdentityDigest l \<and>
     Some (wd_processContainmentRef (ww_subject wait)) = wl_processContainmentRef l \<and>
     wd_workspaceGenerationRef (ww_subject wait) = wg_generationRef g \<and> probe_state_ok (ww_probeState wait)"

definition fenced_lease :: "worker_launch \<Rightarrow> workspace_generation \<Rightarrow> run \<Rightarrow> bool" where
  "fenced_lease l g a \<longleftrightarrow>
     matches_holder l g \<and> idle a \<and> run_status a = Run_waiting \<and> run_waitingReason a = Some Waiting_reconciliation \<and>
     wl_leaseEpoch l = Some (run_leaseEpoch a) \<and>
     (\<exists>wait. run_waitingOnRef a = Some (Wait_artifact wait) \<and> wg_waitingSubjectRef g = Some (Wait_artifact wait) \<and>
        wait_names wait l g a)"

text \<open>The launch that is not retired, and the generation that is held.\<close>

definition current_ok :: "worker_launch list \<Rightarrow> workspace_generation list \<Rightarrow> run \<Rightarrow> int \<Rightarrow> bool" where
  "current_ok ls hs a accepted \<longleftrightarrow>
     (case ls of
        [] \<Rightarrow> hs = [] \<and> idle a
      | [l] \<Rightarrow>
          (case wl_phase l of
             Launch_activated \<Rightarrow> (\<exists>g. hs = [g] \<and> held_lease l g a accepted)
           | Launch_reconciling \<Rightarrow> (\<exists>g. hs = [g] \<and> fenced_lease l g a)
           | _ \<Rightarrow> hs = [] \<and> idle a)
      | _ \<Rightarrow> False)"

definition run_lease_ok :: "kernel_db \<Rightarrow> int \<Rightarrow> string \<Rightarrow> bool" where
  "run_lease_ok w accepted r \<longleftrightarrow>
     (case db_runs w r of
        None \<Rightarrow> launches_of w r = [] \<and> holders_of w r = []
      | Some a \<Rightarrow>
          run_id a = r \<and> current_ok (unretired (launches_of w r)) (holders_of w r) a accepted \<and>
          distinct (lease_epochs (launches_of w r)) \<and> (\<forall>e\<in>set (lease_epochs (launches_of w r)). e \<le> run_leaseEpoch a))"

text \<open>\<open>ids\<close>: the identity that the address of a generation stands for.\<close>

type_synonym identities = "artifact_ref \<Rightarrow> generation_identity option"

definition launch_known :: "identity_hash \<Rightarrow> identities \<Rightarrow> worker_launch \<Rightarrow> bool" where
  "launch_known idh ids l \<longleftrightarrow>
     launch_row_ok idh l \<and> (wl_phase l = Launch_retired) = (wl_retiredAt l \<noteq> None) \<and>
     (\<forall>ref. wl_workspaceGenerationRef l = Some ref \<longrightarrow> map_option gi_runId (ids ref) = Some (wl_runId l))"

definition generation_known :: "identities \<Rightarrow> workspace_generation \<Rightarrow> bool" where
  "generation_known ids g \<longleftrightarrow> generation_row_ok g \<and> map_option gi_runId (ids (wg_generationRef g)) = Some (wg_runId g)"

definition tables_ok :: "identity_hash \<Rightarrow> identities \<Rightarrow> kernel_db \<Rightarrow> bool" where
  "tables_ok idh ids w \<longleftrightarrow>
     (\<forall>l\<in>set (db_launches w). launch_known idh ids l) \<and> distinct (map wl_launchId (db_launches w)) \<and>
     (\<forall>g\<in>set (db_generations w). generation_known ids g) \<and> distinct (map wg_generationId (db_generations w)) \<and>
     distinct (map wg_generationRef (db_generations w))"

definition accepted_at :: "kernel_db \<Rightarrow> int" where
  "accepted_at w = (case db_fence w of None \<Rightarrow> 0 | Some f \<Rightarrow> tf_lastAcceptedAt f)"

section \<open>The life of a lease\<close>

text \<open>What the rows of a run come to: nobody may work on it, somebody will, somebody does, or somebody did and is fenced.\<close>

datatype lease_view = Free | Promised string | Held string | Fenced string

definition lease_view :: "worker_launch list \<Rightarrow> lease_view" where
  "lease_view ls =
     (case ls of
        [l] \<Rightarrow>
          (case wl_phase l of
             Launch_activated \<Rightarrow> Held (wl_launchId l)
           | Launch_reconciling \<Rightarrow> Fenced (wl_launchId l)
           | Launch_retired \<Rightarrow> Free
           | _ \<Rightarrow> Promised (wl_launchId l))
      | _ \<Rightarrow> Free)"

definition view_of :: "kernel_db \<Rightarrow> string \<Rightarrow> (int \<times> lease_view) option" where
  "view_of w r = map_option (\<lambda>a. (run_leaseEpoch a, lease_view (unretired (launches_of w r)))) (db_runs w r)"

text \<open>The abstract machine: a lease is granted under a new epoch, and only to the worker it was promised to.\<close>

inductive view_step :: "(int \<times> lease_view) option \<Rightarrow> (int \<times> lease_view) option \<Rightarrow> bool" where
  admitted: "view_step None (Some (e, Free))"
| promised: "view_step (Some (e, Free)) (Some (e, Promised k))"
| dropped: "view_step (Some (e, Promised k)) (Some (e, Free))"
| granted: "view_step (Some (e, Promised k)) (Some (e + 1, Held k))"
| ended: "view_step (Some (e, Held k)) (Some (e, Free))"
| fenced: "view_step (Some (e, Held k)) (Some (e, Fenced k))"
| released: "view_step (Some (e, Fenced k)) (Some (e, Free))"

inductive_cases view_step_SomeE: "view_step (Some x) y"

abbreviation view_steps :: "(int \<times> lease_view) option \<Rightarrow> (int \<times> lease_view) option \<Rightarrow> bool" where
  "view_steps \<equiv> view_step\<^sup>*\<^sup>*"

text \<open>A launch later on: its phase has only moved forward, and an epoch it had it keeps.\<close>

definition follows :: "worker_launch \<Rightarrow> worker_launch \<Rightarrow> bool" where
  "follows l l' \<longleftrightarrow>
     wl_launchId l' = wl_launchId l \<and> wl_runId l' = wl_runId l \<and> (wl_phase l, wl_phase l') \<in> launch_transitions\<^sup>* \<and>
     (wl_leaseEpoch l \<noteq> None \<longrightarrow> wl_leaseEpoch l' = wl_leaseEpoch l)"

definition since :: "kernel_db \<Rightarrow> kernel_db \<Rightarrow> bool" where
  "since past w \<longleftrightarrow>
     (\<forall>l\<in>set (db_launches past). \<exists>l'\<in>set (db_launches w). follows l l') \<and> (\<forall>r. view_steps (view_of past r) (view_of w r))"

text \<open>\<open>past\<close>: any tables that came before.\<close>

definition lease_ok :: "identity_hash \<Rightarrow> identities \<Rightarrow> kernel_db \<Rightarrow> kernel_db \<Rightarrow> bool" where
  "lease_ok idh ids past w \<longleftrightarrow> tables_ok idh ids w \<and> (\<forall>r. run_lease_ok w (accepted_at w) r) \<and> since past w"

lemma follows_refl [simp]: "follows l l"
  by (simp add: follows_def)

lemma follows_trans: "follows l m \<Longrightarrow> follows m k \<Longrightarrow> follows l k"
  unfolding follows_def by (metis rtrancl_trans)

lemma since_refl: "since w w"
  unfolding since_def by (blast intro: follows_refl)

lemma since_trans:
  assumes "since u v" and "since v w"
  shows "since u w"
  unfolding since_def
proof (intro conjI allI ballI)
  fix l assume "l \<in> set (db_launches u)"
  with assms(1) obtain m where "m \<in> set (db_launches v)" "follows l m" unfolding since_def by blast
  moreover from this(1) assms(2) obtain k where "k \<in> set (db_launches w)" "follows m k" unfolding since_def by blast
  ultimately show "\<exists>l'\<in>set (db_launches w). follows l l'" using follows_trans by blast
next
  fix r
  from assms show "view_steps (view_of u r) (view_of w r)" unfolding since_def by (meson rtranclp_trans)
qed

lemma since_same:
  assumes "db_launches w' = db_launches w" and "\<And>r. view_of w' r = view_of w r"
  shows "since w w'"
  unfolding since_def assms by (blast intro: follows_refl)

section \<open>Writing a row\<close>

definition replace_row :: "'a \<Rightarrow> 'a \<Rightarrow> 'a list \<Rightarrow> 'a list" where
  "replace_row old new xs = map (\<lambda>x. if x = old then new else x) xs"

lemma replace_row_split:
  assumes "x \<in> set xs" and "distinct (map f xs)"
  obtains ys zs where "xs = ys @ x # zs" "replace_row x y xs = ys @ y # zs" "x \<notin> set ys" "x \<notin> set zs"
proof -
  from split_list [OF assms(1)] obtain ys zs where xs: "xs = ys @ x # zs" by blast
  with assms(2) have n: "x \<notin> set ys" "x \<notin> set zs" by force+
  then have "map (\<lambda>z. if z = x then y else z) ys = ys" "map (\<lambda>z. if z = x then y else z) zs = zs"
    by (auto intro: map_idI)
  with xs n that show thesis by (simp add: replace_row_def)
qed

lemma filter_replace_row:
  "P x = P y \<Longrightarrow> filter P (replace_row x y xs) = replace_row x y (filter P xs)"
  by (induction xs) (auto simp: replace_row_def)

lemma replace_row_notin [simp]: "x \<notin> set xs \<Longrightarrow> replace_row x y xs = xs"
  by (induction xs) (auto simp: replace_row_def)

lemma map_replace_row: "f y = f x \<Longrightarrow> map f (replace_row x y xs) = map f xs"
  by (simp add: replace_row_def)

lemma set_replace_row: "z \<in> set (replace_row x y xs) \<Longrightarrow> z = y \<or> z \<in> set xs"
  by (auto simp: replace_row_def split: if_splits)

lemma put_launch_Inr:
  "put_launch idh w old new = Inr w' \<longleftrightarrow>
     w' = w\<lparr>db_launches := replace_row old new (db_launches w)\<rparr> \<and> launch_row_ok idh new \<and> wl_launchId new = wl_launchId old \<and>
     wl_runId new = wl_runId old \<and> old \<in> set (db_launches w) \<and> worker_launches_validate_update old new \<and>
     (wl_retiredAt new = None \<longrightarrow> set (unretired_launches (db_launches w) (wl_runId new)) \<subseteq> {old})"
  by (auto simp: put_launch_def update_worker_launch_def decode_worker_launch_def and_then_Inr replace_row_def
      split: if_splits)

lemma add_launch_Inr:
  "add_launch idh w l = Inr w' \<longleftrightarrow>
     w' = w\<lparr>db_launches := db_launches w @ [l]\<rparr> \<and> launch_row_ok idh l \<and> worker_launches_validate_insert l \<and>
     wl_launchId l \<notin> set (map wl_launchId (db_launches w)) \<and>
     (wl_retiredAt l = None \<longrightarrow> unretired_launches (db_launches w) (wl_runId l) = [])"
  by (auto simp: add_launch_def insert_worker_launch_def decode_worker_launch_def and_then_Inr split: if_splits)

lemma put_generation_Inr:
  "put_generation w old new = Inr w' \<longleftrightarrow>
     w' = w\<lparr>db_generations := replace_row old new (db_generations w)\<rparr> \<and> generation_row_ok new \<and>
     wg_generationId new = wg_generationId old \<and> wg_runId new = wg_runId old \<and> wg_rowVersion new = wg_rowVersion old + 1 \<and>
     old \<in> set (db_generations w) \<and> workspace_generations_validate_update old new \<and>
     wg_generationRef new \<notin> set (map wg_generationRef (filter (\<lambda>g. g \<noteq> old) (db_generations w)))"
  by (auto simp: put_generation_def update_workspace_generation_def decode_workspace_generation_state_def and_then_Inr
      replace_row_def split: if_splits)

lemma add_generation_Inr:
  "add_generation w g = Inr w' \<longleftrightarrow>
     w' = w\<lparr>db_generations := db_generations w @ [g]\<rparr> \<and> generation_row_ok g \<and> workspace_generations_validate_insert g \<and>
     wg_generationId g \<notin> set (map wg_generationId (db_generations w)) \<and>
     wg_generationRef g \<notin> set (map wg_generationRef (db_generations w))"
  by (auto simp: add_generation_def insert_workspace_generation_def decode_workspace_generation_state_def and_then_Inr
      split: if_splits)

lemma append_event_Inr:
  "append_run_state_event w r t = Inr w' \<Longrightarrow> \<exists>es. w' = w\<lparr>db_events := es\<rparr>"
  by (auto simp: append_run_state_event_def and_then_Inr)

lemma update_run_row_Inr:
  "update_run_row w r P f now = Inr (a', w') \<Longrightarrow>
     \<exists>a es. db_runs w r = Some a \<and> P a \<and> a' = f a \<and> w' = w\<lparr>db_runs := (db_runs w)(r \<mapsto> f a), db_events := es\<rparr>"
  by (auto simp: update_run_row_def and_then_Inr dest!: append_event_Inr split: option.splits if_splits)

lemma run_waits_Inr:
  "run_waits w r f now = Inr (a', w') \<Longrightarrow>
     \<exists>a es. db_runs w r = Some a \<and> a' = (f a)\<lparr>run_revision := run_revision a + 1, run_updatedAt := now\<rparr> \<and>
       w' = w\<lparr>db_runs := (db_runs w)(r \<mapsto> a'), db_events := es\<rparr>"
  by (auto simp: run_waits_def Let_def and_then_Inr dest!: append_event_Inr split: option.splits)

section \<open>Keeping the tables\<close>

lemma tables_ok_launch:
  assumes "tables_ok idh ids w" and "launch_known idh ids l" and "wl_launchId l = wl_launchId old"
  shows "tables_ok idh ids (w\<lparr>db_launches := replace_row old l (db_launches w)\<rparr>)"
  using assms by (auto simp: tables_ok_def map_replace_row [where f = wl_launchId] dest!: set_replace_row)

lemma tables_ok_new_launch:
  assumes "tables_ok idh ids w" and "launch_known idh ids l" and "wl_launchId l \<notin> set (map wl_launchId (db_launches w))"
  shows "tables_ok idh ids (w\<lparr>db_launches := db_launches w @ [l]\<rparr>)"
  using assms by (auto simp: tables_ok_def)

lemma tables_ok_generation:
  assumes "tables_ok idh ids w" and "generation_known ids g" and "wg_generationId g = wg_generationId old"
    and "wg_generationRef g = wg_generationRef old"
  shows "tables_ok idh ids (w\<lparr>db_generations := replace_row old g (db_generations w)\<rparr>)"
  using assms by (auto simp: tables_ok_def map_replace_row [where f = wg_generationId] map_replace_row [where f = wg_generationRef]
      dest!: set_replace_row)

lemma tables_ok_new_generation:
  assumes "tables_ok idh ids w" and "generation_known ids g" and "wg_generationId g \<notin> set (map wg_generationId (db_generations w))"
    and "wg_generationRef g \<notin> set (map wg_generationRef (db_generations w))"
  shows "tables_ok idh ids (w\<lparr>db_generations := db_generations w @ [g]\<rparr>)"
  using assms by (auto simp: tables_ok_def)

lemma tables_ok_same:
  "tables_ok idh ids w \<Longrightarrow> db_launches w' = db_launches w \<Longrightarrow> db_generations w' = db_generations w \<Longrightarrow> tables_ok idh ids w'"
  by (simp add: tables_ok_def)

section \<open>One row among others\<close>

lemma replace_row_same [simp]: "replace_row x x xs = xs"
  by (induction xs) (auto simp: replace_row_def)

text \<open>Where at most one row has a property, replacing it decides who has it then.\<close>

lemma filter_only_row:
  assumes "x \<in> set xs" and "distinct xs" and only: "set (filter P xs) \<subseteq> {x}"
  shows "filter P (replace_row x y xs) = filter P [y]"
proof -
  have "distinct (map id xs)" using assms(2) by simp
  with assms(1) obtain ys zs where xs: "xs = ys @ x # zs" and r: "replace_row x y xs = ys @ y # zs"
    and n: "x \<notin> set ys" "x \<notin> set zs" by (rule replace_row_split)
  have "\<not> P z" if "z \<in> set ys \<union> set zs" for z
  proof
    assume "P z"
    with that xs have "z \<in> set (filter P xs)" by auto
    with only that n show False by auto
  qed
  then have "filter P ys = []" "filter P zs = []" by (simp_all add: filter_empty_conv)
  then show ?thesis by (simp add: r)
qed

lemma filter_replace_none:
  assumes "\<not> P x" and "\<not> P y"
  shows "filter P (replace_row x y xs) = filter P xs"
  using assms by (induction xs) (auto simp: replace_row_def)

lemma epochs_replace:
  assumes "wl_leaseEpoch y = wl_leaseEpoch x"
  shows "lease_epochs (replace_row x y ls) = lease_epochs ls"
  using assms by (induction ls) (auto simp: lease_epochs_def replace_row_def map_filter_def)

lemma epochs_fresh:
  assumes "x \<in> set ls" and "distinct (map wl_launchId ls)" and "wl_leaseEpoch x = None" and "wl_leaseEpoch y = Some e"
    and "e \<notin> set (lease_epochs ls)" and "distinct (lease_epochs ls)"
  shows "distinct (lease_epochs (replace_row x y ls))"
    and "set (lease_epochs (replace_row x y ls)) = insert e (set (lease_epochs ls))"
proof -
  from assms(1,2) obtain ys zs where xs: "ls = ys @ x # zs" and r: "replace_row x y ls = ys @ y # zs"
    by (rule replace_row_split)
  have "lease_epochs ls = lease_epochs ys @ lease_epochs zs"
    and "lease_epochs (replace_row x y ls) = lease_epochs ys @ e # lease_epochs zs"
    using assms(3,4) unfolding xs r [unfolded xs] by (simp_all add: lease_epochs_def map_filter_def)
  with assms(5,6) show "distinct (lease_epochs (replace_row x y ls))"
    and "set (lease_epochs (replace_row x y ls)) = insert e (set (lease_epochs ls))" by auto
qed

section \<open>The rows of the other runs\<close>

lemma launches_of_replace:
  assumes "db_launches w' = replace_row l l' (db_launches w)" and "wl_runId l' = wl_runId l"
  shows "launches_of w' r = replace_row l l' (launches_of w r)"
  using assms by (simp add: launches_of_def filter_replace_row)

lemma launches_of_other:
  assumes "db_launches w' = replace_row l l' (db_launches w)" and "wl_runId l' = wl_runId l" and "r \<noteq> wl_runId l"
  shows "launches_of w' r = launches_of w r"
  using launches_of_replace [OF assms(1,2), of r] assms(3) by (simp add: launches_of_def)

lemma generations_of_replace:
  assumes "db_generations w' = replace_row g g' (db_generations w)" and "wg_runId g' = wg_runId g"
  shows "generations_of_run (db_generations w') r = replace_row g g' (generations_of_run (db_generations w) r)"
  using assms by (simp add: generations_of_run_def filter_replace_row)

lemma holders_of_other:
  assumes "db_generations w' = replace_row g g' (db_generations w)" and "wg_runId g' = wg_runId g" and "r \<noteq> wg_runId g"
  shows "holders_of w' r = holders_of w r"
  using generations_of_replace [OF assms(1,2), of r] assms(3) by (simp add: holders_of_def generations_of_run_def)

lemma unretired_replace:
  assumes "tables_ok idh ids w" and "l \<in> set (db_launches w)" and "db_launches w' = replace_row l l' (db_launches w)"
    and "wl_runId l' = wl_runId l" and "set (unretired (launches_of w (wl_runId l))) \<subseteq> {l}"
  shows "unretired (launches_of w' (wl_runId l)) = unretired [l']"
proof -
  have d: "distinct (launches_of w (wl_runId l))"
    using assms(1) by (simp add: tables_ok_def launches_of_def distinct_map)
  have "l \<in> set (launches_of w (wl_runId l))" using assms(2) by (simp add: launches_of_def)
  from filter_only_row [OF this d, of "\<lambda>l. wl_retiredAt l = None" l'] assms(5)
  show ?thesis unfolding launches_of_replace [OF assms(3,4)] by (simp only: unretired_def)
qed

lemma holders_replace:
  assumes "tables_ok idh ids w" and "g \<in> set (db_generations w)" and "db_generations w' = replace_row g g' (db_generations w)"
    and "wg_runId g' = wg_runId g" and "set (holders_of w (wg_runId g)) \<subseteq> {g}"
  shows "holders_of w' (wg_runId g) = filter holds_workspace [g']"
proof -
  have d: "distinct (generations_of_run (db_generations w) (wg_runId g))"
    using assms(1) by (simp add: tables_ok_def generations_of_run_def distinct_map)
  have "g \<in> set (generations_of_run (db_generations w) (wg_runId g))" using assms(2) by (simp add: generations_of_run_def)
  from filter_only_row [OF this d, of holds_workspace g'] assms(5)
  show ?thesis unfolding holders_of_def generations_of_replace [OF assms(3,4)] by (simp only:)
qed

section \<open>Moves of one run\<close>

lemma lease_bounded_later: "lease_bounded l a t \<Longrightarrow> t \<le> t' \<Longrightarrow> lease_bounded l a t'"
  by (auto simp: lease_bounded_def split: option.splits)

lemma current_ok_later: "current_ok ls hs a t \<Longrightarrow> t \<le> t' \<Longrightarrow> current_ok ls hs a t'"
  by (auto simp: current_ok_def held_lease_def dest: lease_bounded_later split: list.splits launch_phase.splits)

lemma run_lease_ok_later: "run_lease_ok w t r \<Longrightarrow> t \<le> t' \<Longrightarrow> run_lease_ok w t' r"
  by (auto simp: run_lease_ok_def dest: current_ok_later split: option.splits)

lemma run_lease_ok_cong:
  assumes "launches_of w' r = launches_of w r" and "holders_of w' r = holders_of w r" and "db_runs w' r = db_runs w r"
  shows "run_lease_ok w' t r \<longleftrightarrow> run_lease_ok w t r"
  unfolding run_lease_ok_def assms ..

lemma lease_ok_run:
  assumes "lease_ok idh ids past w" and "tables_ok idh ids w'" and "accepted_at w \<le> accepted_at w'" and "since w w'"
    and "\<And>r'. r' \<noteq> r \<Longrightarrow> launches_of w' r' = launches_of w r' \<and> holders_of w' r' = holders_of w r' \<and> db_runs w' r' = db_runs w r'"
    and "run_lease_ok w' (accepted_at w') r"
  shows "lease_ok idh ids past w'"
  unfolding lease_ok_def
proof (intro conjI allI)
  fix r'
  show "run_lease_ok w' (accepted_at w') r'"
  proof (cases "r' = r")
    case True
    with assms(6) show ?thesis by simp
  next
    case False
    have "run_lease_ok w (accepted_at w) r'" using assms(1) by (simp add: lease_ok_def)
    with assms(3) have "run_lease_ok w (accepted_at w') r'" by (rule run_lease_ok_later [rotated])
    with assms(5) [OF False] show ?thesis using run_lease_ok_cong [of w' r' w] by simp
  qed
next
  from assms(1) have "since past w" by (simp add: lease_ok_def)
  from this assms(4) show "since past w'" by (rule since_trans)
qed (rule assms(2))

text \<open>Nothing about leases has changed.\<close>

lemma lease_ok_same:
  assumes "lease_ok idh ids past w" and "db_launches w' = db_launches w" and "db_generations w' = db_generations w"
    and "db_runs w' = db_runs w" and "accepted_at w \<le> accepted_at w'"
  shows "lease_ok idh ids past w'"
proof (rule lease_ok_run [where r = "[]"])
  have "run_lease_ok w (accepted_at w) []" using assms(1) by (simp add: lease_ok_def)
  with assms(5) have "run_lease_ok w (accepted_at w') []" by (rule run_lease_ok_later [rotated])
  moreover have "run_lease_ok w' (accepted_at w') [] = run_lease_ok w (accepted_at w') []"
    using assms by (intro run_lease_ok_cong) (simp_all add: launches_of_def holders_of_def)
  ultimately show "run_lease_ok w' (accepted_at w') []" by simp
next
  show "since w w'" by (rule since_same [OF assms(2)]) (simp add: view_of_def launches_of_def assms(2,4))
qed (use assms in \<open>auto simp: launches_of_def holders_of_def lease_ok_def intro: tables_ok_same\<close>)

end
