(* ===== verification/Lease_Moves.thy ===== *)
theory Lease_Moves
  imports Lease_Invariant
begin

text \<open>
  The kinds of change an operation makes to the rows of one run, and that each keeps the invariant: a launch alone, a
  generation that nobody holds, or launch, generation and run together.
\<close>

section \<open>What is read\<close>

lemma read_launch_Inr:
  "read_required_worker_launch ls k = Inr l \<Longrightarrow> l \<in> set ls \<and> wl_launchId l = k"
  by (auto simp: read_required_worker_launch_def find_Some_iff split: option.splits)

lemma read_generation_Inr:
  "read_required_generation gs k = Inr g \<Longrightarrow> g \<in> set gs \<and> wg_generationId g = k"
  by (auto simp: read_required_generation_def find_Some_iff split: option.splits)

lemma read_by_ref_Inr:
  assumes "read_generation_by_ref gs ref = Inr g"
  shows "g \<in> set gs \<and> Some (wg_generationRef g) = ref"
proof -
  from assms have "filter (\<lambda>g. Some (wg_generationRef g) = ref) gs = [g]"
    by (auto simp: read_generation_by_ref_def split: list.splits)
  then have "g \<in> set (filter (\<lambda>g. Some (wg_generationRef g) = ref) gs)" by simp
  then show ?thesis by simp
qed

lemmas read_rows = read_launch_Inr read_generation_Inr read_by_ref_Inr

lemma read_run_Inr: "read_run w r = Inr a \<longleftrightarrow> db_runs w r = Some a"
  by (auto simp: read_run_def split: option.splits)

section \<open>What the invariant says of a row\<close>

lemma lease_ok_tables: "lease_ok idh ids past w \<Longrightarrow> tables_ok idh ids w"
  by (simp add: lease_ok_def)

lemma known_launch: "lease_ok idh ids past w \<Longrightarrow> l \<in> set (db_launches w) \<Longrightarrow> launch_known idh ids l"
  by (simp add: lease_ok_def tables_ok_def)

lemma known_generation: "lease_ok idh ids past w \<Longrightarrow> g \<in> set (db_generations w) \<Longrightarrow> generation_known ids g"
  by (simp add: lease_ok_def tables_ok_def)

lemma same_launch:
  assumes "lease_ok idh ids past w" and "l \<in> set (db_launches w)" and "m \<in> set (db_launches w)" and "wl_launchId l = wl_launchId m"
  shows "l = m"
  using assms by (auto simp: lease_ok_def tables_ok_def distinct_map dest: inj_onD)

lemma same_generation:
  assumes "lease_ok idh ids past w" and "g \<in> set (db_generations w)" and "h \<in> set (db_generations w)"
    and "wg_generationRef g = wg_generationRef h"
  shows "g = h"
  using assms by (auto simp: lease_ok_def tables_ok_def distinct_map dest: inj_onD)

lemma bound_generation_run:
  assumes "lease_ok idh ids past w" and "l \<in> set (db_launches w)" and "g \<in> set (db_generations w)"
    and "wl_workspaceGenerationRef l = Some (wg_generationRef g)"
  shows "wg_runId g = wl_runId l"
  using known_launch [OF assms(1,2)] known_generation [OF assms(1,3)] assms(4)
  by (auto simp: launch_known_def generation_known_def)

text \<open>A launch that is not retired is the only one of its run.\<close>

lemma current_launch:
  assumes ok: "lease_ok idh ids past w" and l: "l \<in> set (db_launches w)" and p: "wl_phase l \<noteq> Launch_retired"
  obtains a where "db_runs w (wl_runId l) = Some a" "run_id a = wl_runId l" "unretired (launches_of w (wl_runId l)) = [l]"
    "current_ok [l] (holders_of w (wl_runId l)) a (accepted_at w)"
proof -
  have m: "l \<in> set (launches_of w (wl_runId l))" using l by (simp add: launches_of_def)
  with known_launch [OF ok l] p have u: "l \<in> set (unretired (launches_of w (wl_runId l)))"
    by (auto simp: unretired_def launch_known_def)
  have "run_lease_ok w (accepted_at w) (wl_runId l)" using ok by (simp add: lease_ok_def)
  with m obtain a where a: "db_runs w (wl_runId l) = Some a" "run_id a = wl_runId l"
    and c: "current_ok (unretired (launches_of w (wl_runId l))) (holders_of w (wl_runId l)) a (accepted_at w)"
    by (auto simp: run_lease_ok_def split: option.splits)
  from c u have "unretired (launches_of w (wl_runId l)) = [l]"
    by (auto simp: current_ok_def split: list.splits)
  with a c that show thesis by simp
qed

lemma activated_launch_current:
  assumes ok: "lease_ok idh ids past w" and l: "l \<in> set (db_launches w)" and p: "wl_phase l = Launch_activated"
  obtains a g where "db_runs w (wl_runId l) = Some a" "run_id a = wl_runId l" "holders_of w (wl_runId l) = [g]"
    "held_lease l g a (accepted_at w)"
proof -
  from p have "wl_phase l \<noteq> Launch_retired" by simp
  with ok l obtain a where "db_runs w (wl_runId l) = Some a" "run_id a = wl_runId l"
    and "current_ok [l] (holders_of w (wl_runId l)) a (accepted_at w)" by (rule current_launch)
  with p that show thesis by (auto simp: current_ok_def)
qed

lemma reconciling_launch_current:
  assumes ok: "lease_ok idh ids past w" and l: "l \<in> set (db_launches w)" and p: "wl_phase l = Launch_reconciling"
  obtains a g where "db_runs w (wl_runId l) = Some a" "run_id a = wl_runId l" "holders_of w (wl_runId l) = [g]"
    "fenced_lease l g a"
proof -
  from p have "wl_phase l \<noteq> Launch_retired" by simp
  with ok l obtain a where "db_runs w (wl_runId l) = Some a" "run_id a = wl_runId l"
    and "current_ok [l] (holders_of w (wl_runId l)) a (accepted_at w)" by (rule current_launch)
  with p that show thesis by (auto simp: current_ok_def)
qed

lemma powerless_launch_current:
  assumes ok: "lease_ok idh ids past w" and l: "l \<in> set (db_launches w)"
    and p: "wl_phase l \<in> {Launch_preparing, Launch_reserved, Launch_preactivated}"
  obtains a where "db_runs w (wl_runId l) = Some a" "run_id a = wl_runId l" "holders_of w (wl_runId l) = []" "idle a"
    "unretired (launches_of w (wl_runId l)) = [l]"
proof -
  from p have "wl_phase l \<noteq> Launch_retired" by auto
  with ok l obtain a where a: "db_runs w (wl_runId l) = Some a" "run_id a = wl_runId l"
    "unretired (launches_of w (wl_runId l)) = [l]"
    and c: "current_ok [l] (holders_of w (wl_runId l)) a (accepted_at w)" by (rule current_launch)
  from c p have "holders_of w (wl_runId l) = []" "idle a" by (auto simp: current_ok_def)
  with a that show thesis by simp
qed

lemma holders_in_tables:
  "g \<in> set (holders_of w r) \<longleftrightarrow> g \<in> set (db_generations w) \<and> wg_runId g = r \<and> holds_workspace g"
  by (auto simp: holders_of_def generations_of_run_def)

text \<open>A run that names a launch is the run of that launch, and the launch is activated.\<close>

lemma pointed_launch:
  assumes ok: "lease_ok idh ids past w" and a: "db_runs w r = Some a" and p: "run_activeWorkerLaunchId a = Some (wl_launchId l)"
    and l: "l \<in> set (db_launches w)"
  shows "wl_runId l = r \<and> wl_phase l = Launch_activated"
proof -
  have "run_lease_ok w (accepted_at w) r" using ok by (simp add: lease_ok_def)
  with a have c: "current_ok (unretired (launches_of w r)) (holders_of w r) a (accepted_at w)" by (simp add: run_lease_ok_def)
  from c p obtain m where m: "unretired (launches_of w r) = [m]" "wl_phase m = Launch_activated"
    and h: "\<exists>g. held_lease m g a (accepted_at w)"
    by (auto simp: current_ok_def idle_def fenced_lease_def split: list.splits launch_phase.splits)
  from m(1) have "m \<in> set (unretired (launches_of w r))" by simp
  then have mem: "m \<in> set (db_launches w)" "wl_runId m = r" by (auto simp: unretired_def launches_of_def)
  from h p have "wl_launchId m = wl_launchId l" by (auto simp: held_lease_def)
  from same_launch [OF ok mem(1) l this] mem(2) m(2) show ?thesis by simp
qed

text \<open>The generation a launch is bound to is the one that is held.\<close>

lemma bound_is_held:
  assumes ok: "lease_ok idh ids past w" and h: "holders_of w r = [h]" and m: "matches_holder l h"
    and g: "read_generation_by_ref (db_generations w) (wl_workspaceGenerationRef l) = Inr g"
  shows "g = h"
proof -
  have hh: "h \<in> set (holders_of w r)" using h by simp
  from read_by_ref_Inr [OF g] m have gi: "g \<in> set (db_generations w)" "wg_generationRef g = wg_generationRef h"
    by (auto simp: matches_holder_def)
  from hh have "h \<in> set (db_generations w)" unfolding holders_in_tables by simp
  from same_generation [OF ok gi(1) this gi(2)] show ?thesis .
qed

text \<open>A generation in the phase of a holder is the one that its run holds.\<close>

lemma holding_generation:
  assumes ok: "lease_ok idh ids past w" and g: "g \<in> set (db_generations w)" and h: "holds_workspace g"
  obtains a l where "db_runs w (wg_runId g) = Some a" "run_id a = wg_runId g" "holders_of w (wg_runId g) = [g]"
    "l \<in> set (db_launches w)" "wl_runId l = wg_runId g" "wl_phase l \<in> {Launch_activated, Launch_reconciling}"
    "matches_holder l g"
    "wl_phase l = Launch_reconciling \<longrightarrow> fenced_lease l g a" "wl_phase l = Launch_activated \<longrightarrow> held_lease l g a (accepted_at w)"
proof -
  have m: "g \<in> set (holders_of w (wg_runId g))" using g h by (simp add: holders_in_tables)
  have "run_lease_ok w (accepted_at w) (wg_runId g)" using ok by (simp add: lease_ok_def)
  with m obtain a where a: "db_runs w (wg_runId g) = Some a" "run_id a = wg_runId g"
    and c: "current_ok (unretired (launches_of w (wg_runId g))) (holders_of w (wg_runId g)) a (accepted_at w)"
    by (auto simp: run_lease_ok_def split: option.splits)
  from c m obtain l where u: "unretired (launches_of w (wg_runId g)) = [l]" and ho: "holders_of w (wg_runId g) = [g]"
    and p: "wl_phase l \<in> {Launch_activated, Launch_reconciling}" "matches_holder l g"
      "wl_phase l = Launch_reconciling \<longrightarrow> fenced_lease l g a" "wl_phase l = Launch_activated \<longrightarrow> held_lease l g a (accepted_at w)"
    by (auto simp: current_ok_def held_lease_def fenced_lease_def split: list.splits launch_phase.splits)
  from u have "l \<in> set (unretired (launches_of w (wg_runId g)))" by simp
  then have "l \<in> set (db_launches w)" "wl_runId l = wg_runId g" by (auto simp: unretired_def launches_of_def)
  with a ho p that show thesis by blast
qed

section \<open>The kinds of change\<close>

definition epoch_moves :: "worker_launch \<Rightarrow> worker_launch \<Rightarrow> run \<Rightarrow> run \<Rightarrow> bool" where
  "epoch_moves l l' a a' \<longleftrightarrow>
     wl_leaseEpoch l' = wl_leaseEpoch l \<and> run_leaseEpoch a' = run_leaseEpoch a \<or>
     wl_leaseEpoch l = None \<and> wl_leaseEpoch l' = Some (run_leaseEpoch a + 1) \<and> run_leaseEpoch a' = run_leaseEpoch a + 1"

lemma epochs_move:
  assumes ok: "lease_ok idh ids past w" and l: "l \<in> set (db_launches w)" and a: "db_runs w (wl_runId l) = Some a"
    and w': "db_launches w' = replace_row l l' (db_launches w)" and r: "wl_runId l' = wl_runId l"
    and e: "epoch_moves l l' a a'"
  shows "distinct (lease_epochs (launches_of w' (wl_runId l)))"
    and "\<forall>e\<in>set (lease_epochs (launches_of w' (wl_runId l))). e \<le> run_leaseEpoch a'"
proof -
  let ?L = "launches_of w (wl_runId l)"
  have "run_lease_ok w (accepted_at w) (wl_runId l)" using ok by (simp add: lease_ok_def)
  with a have d: "distinct (lease_epochs ?L)" and b: "\<forall>e\<in>set (lease_epochs ?L). e \<le> run_leaseEpoch a"
    by (simp_all add: run_lease_ok_def)
  have L': "launches_of w' (wl_runId l) = replace_row l l' ?L" by (rule launches_of_replace [OF w' r])
  from e have "distinct (lease_epochs (replace_row l l' ?L)) \<and>
    (\<forall>e\<in>set (lease_epochs (replace_row l l' ?L)). e \<le> run_leaseEpoch a')"
    unfolding epoch_moves_def
  proof
    assume "wl_leaseEpoch l' = wl_leaseEpoch l \<and> run_leaseEpoch a' = run_leaseEpoch a"
    with d b show ?thesis by (simp add: epochs_replace)
  next
    assume n: "wl_leaseEpoch l = None \<and> wl_leaseEpoch l' = Some (run_leaseEpoch a + 1) \<and> run_leaseEpoch a' = run_leaseEpoch a + 1"
    have m: "l \<in> set ?L" using l by (simp add: launches_of_def)
    have dl: "distinct (map wl_launchId ?L)"
      using lease_ok_tables [OF ok] by (simp add: tables_ok_def launches_of_def distinct_map_filter)
    have f: "run_leaseEpoch a + 1 \<notin> set (lease_epochs ?L)" using b by auto
    note ep = epochs_fresh [OF m dl conjunct1 [OF n] conjunct1 [OF conjunct2 [OF n]] f d]
    with b n show ?thesis by auto
  qed
  with L' show "distinct (lease_epochs (launches_of w' (wl_runId l)))"
    and "\<forall>e\<in>set (lease_epochs (launches_of w' (wl_runId l))). e \<le> run_leaseEpoch a'" by simp_all
qed

lemma unretired_single:
  "launch_known idh ids l \<Longrightarrow> unretired [l] = (if wl_phase l = Launch_retired then [] else [l])"
  by (simp add: unretired_def launch_known_def)

lemma powerless_no_lease:
  assumes "launch_known idh ids l" and "wl_phase l \<in> {Launch_preparing, Launch_reserved, Launch_preactivated}"
  shows "no_lease l"
  using assms by (auto simp: launch_known_def launch_row_ok_def preparing_launch_ok_def bound_launch_ok_def)

lemma view_phases:
  "wl_phase l \<in> {Launch_preparing, Launch_reserved, Launch_preactivated} \<Longrightarrow> lease_view [l] = Promised (wl_launchId l)"
  "wl_phase l = Launch_activated \<Longrightarrow> lease_view [l] = Held (wl_launchId l)"
  "wl_phase l = Launch_reconciling \<Longrightarrow> lease_view [l] = Fenced (wl_launchId l)"
  "lease_view [] = Free"
  by (auto simp: lease_view_def)

lemma current_epochs:
  assumes "current_ok [l] hs a t" and "wl_phase l \<in> {Launch_activated, Launch_reconciling}"
  shows "wl_leaseEpoch l = Some (run_leaseEpoch a)"
  using assms by (auto simp: current_ok_def held_lease_def fenced_lease_def)

text \<open>One change of a launch and its run, seen from the abstract machine.\<close>

lemma view_powerless:
  assumes k: "launch_known idh ids l" "launch_known idh ids l'" and id: "wl_launchId l' = wl_launchId l"
    and p: "wl_phase l \<in> {Launch_preparing, Launch_reserved, Launch_preactivated}"
    and m: "l' = l \<or> (wl_phase l, wl_phase l') \<in> launch_transitions" and e: "epoch_moves l l' a a'"
    and c: "current_ok (unretired [l']) hs' a' t"
  shows "view_steps (Some (run_leaseEpoch a, lease_view [l])) (Some (run_leaseEpoch a', lease_view (unretired [l'])))"
proof -
  have n: "wl_leaseEpoch l = None" using powerless_no_lease [OF k(1) p] by (simp add: no_lease_def)
  have v: "lease_view [l] = Promised (wl_launchId l)" by (rule view_phases(1) [OF p])
  have g: "view_steps (Some (run_leaseEpoch a, Promised (wl_launchId l))) (Some (run_leaseEpoch a + 1, Held (wl_launchId l)))"
    by (rule r_into_rtranclp) (rule granted)
  consider "wl_phase l' \<in> {Launch_preparing, Launch_reserved, Launch_preactivated}" | "wl_phase l' = Launch_activated"
    | "wl_phase l' = Launch_retired"
    using m p by (auto simp: launch_transitions_def)
  then show ?thesis
  proof cases
    case 1
    have "wl_leaseEpoch l' = None" using powerless_no_lease [OF k(2) 1] by (simp add: no_lease_def)
    with e 1 have "run_leaseEpoch a' = run_leaseEpoch a" "unretired [l'] = [l']"
      by (auto simp: epoch_moves_def unretired_single [OF k(2)])
    then show ?thesis by (simp add: v view_phases(1) [OF 1] id)
  next
    case 2
    then have u: "unretired [l'] = [l']" by (simp add: unretired_single [OF k(2)])
    with c 2 have "wl_leaseEpoch l' = Some (run_leaseEpoch a')" using current_epochs by fastforce
    with e n have "run_leaseEpoch a' = run_leaseEpoch a + 1" by (auto simp: epoch_moves_def)
    with g show ?thesis by (simp add: v u view_phases(2) [OF 2] id)
  next
    case 3
    then have u: "lease_view (unretired [l']) = Free" by (simp add: unretired_single [OF k(2)] view_phases)
    have "view_steps (Some (run_leaseEpoch a + 1, Held (wl_launchId l))) (Some (run_leaseEpoch a + 1, Free))"
      by (rule r_into_rtranclp) (rule ended)
    with g have "view_steps (Some (run_leaseEpoch a, Promised (wl_launchId l))) (Some (run_leaseEpoch a + 1, Free))"
      by (rule rtranclp_trans)
    moreover have "view_steps (Some (run_leaseEpoch a, Promised (wl_launchId l))) (Some (run_leaseEpoch a, Free))"
      by (rule r_into_rtranclp) (rule dropped)
    ultimately show ?thesis using e by (auto simp: v u epoch_moves_def)
  qed
qed

lemma view_moves:
  assumes k: "launch_known idh ids l" "launch_known idh ids l'" and id: "wl_launchId l' = wl_launchId l"
    and p: "wl_phase l \<noteq> Launch_retired"
    and m: "l' = l \<or> (wl_phase l, wl_phase l') \<in> launch_transitions" and e: "epoch_moves l l' a a'"
    and c: "current_ok [l] hs a t" "current_ok (unretired [l']) hs' a' t'"
  shows "view_steps (Some (run_leaseEpoch a, lease_view [l])) (Some (run_leaseEpoch a', lease_view (unretired [l'])))"
proof (cases "wl_phase l \<in> {Launch_preparing, Launch_reserved, Launch_preactivated}")
  case True
  from view_powerless [OF k id True m e c(2)] show ?thesis .
next
  case False
  with p have h: "wl_phase l \<in> {Launch_activated, Launch_reconciling}" by (cases "wl_phase l") auto
  from current_epochs [OF c(1) h] e have s: "run_leaseEpoch a' = run_leaseEpoch a" by (auto simp: epoch_moves_def)
  consider "wl_phase l' = wl_phase l" | "wl_phase l = Launch_activated" "wl_phase l' = Launch_reconciling"
    | "wl_phase l' = Launch_retired"
    using m h by (auto simp: launch_transitions_def)
  then show ?thesis
  proof cases
    case 1
    with p have "unretired [l'] = [l']" by (simp add: unretired_single [OF k(2)])
    with 1 id s h show ?thesis by (auto simp: view_phases)
  next
    case 2
    then have "unretired [l'] = [l']" by (simp add: unretired_single [OF k(2)])
    with 2 id s show ?thesis by (simp add: view_phases r_into_rtranclp fenced)
  next
    case 3
    then have "unretired [l'] = []" by (simp add: unretired_single [OF k(2)])
    with h s show ?thesis by (auto simp: view_phases intro!: r_into_rtranclp ended released)
  qed
qed

lemma view_of_run: "db_runs w r = Some a \<Longrightarrow> view_of w r = Some (run_leaseEpoch a, lease_view (unretired (launches_of w r)))"
  by (simp add: view_of_def)

lemma launch_moved:
  assumes ok: "lease_ok idh ids past w" and l: "l \<in> set (db_launches w)" and p: "wl_phase l \<noteq> Launch_retired"
    and a: "db_runs w (wl_runId l) = Some a"
    and w': "db_launches w' = replace_row l l' (db_launches w)" "db_runs w' = (db_runs w)(wl_runId l \<mapsto> a')"
      "accepted_at w' = accepted_at w" "tables_ok idh ids w'"
    and r: "wl_runId l' = wl_runId l" and i: "run_id a' = run_id a" and e: "epoch_moves l l' a a'"
    and id: "wl_launchId l' = wl_launchId l" and m: "l' = l \<or> (wl_phase l, wl_phase l') \<in> launch_transitions"
    and h: "\<And>r. r \<noteq> wl_runId l \<Longrightarrow> holders_of w' r = holders_of w r"
    and c: "current_ok (unretired [l']) (holders_of w' (wl_runId l)) a' (accepted_at w)"
  shows "lease_ok idh ids past w'"
proof (rule lease_ok_run [OF ok, where r = "wl_runId l"])
  show "tables_ok idh ids w'" by (rule w'(4))
  show "accepted_at w \<le> accepted_at w'" by (simp add: w'(3))
  fix r' assume n: "r' \<noteq> wl_runId l"
  show "launches_of w' r' = launches_of w r' \<and> holders_of w' r' = holders_of w r' \<and> db_runs w' r' = db_runs w r'"
    using launches_of_other [OF w'(1) r n] h [OF n] n by (simp add: w'(2))
next
  from ok l p obtain b where b: "db_runs w (wl_runId l) = Some b" "run_id b = wl_runId l"
    "unretired (launches_of w (wl_runId l)) = [l]" "current_ok [l] (holders_of w (wl_runId l)) b (accepted_at w)"
    by (rule current_launch)
  then have u: "unretired (launches_of w' (wl_runId l)) = unretired [l']"
    using unretired_replace [OF lease_ok_tables [OF ok] l w'(1) r] by simp
  show "run_lease_ok w' (accepted_at w') (wl_runId l)"
    using epochs_move [OF ok l a w'(1) r e] c u a b(1,2) i by (simp add: run_lease_ok_def w'(2,3))
  have kl: "launch_known idh ids l" by (rule known_launch [OF ok l])
  have "l' \<in> set (db_launches w')" using l unfolding w'(1) replace_row_def by force
  with w'(4) have kl': "launch_known idh ids l'" by (simp add: tables_ok_def)
  have "follows l l'" using e m id r by (auto simp: follows_def epoch_moves_def)
  then have f: "\<exists>x'\<in>set (db_launches w'). follows x x'" if "x \<in> set (db_launches w)" for x
    using that unfolding w'(1) replace_row_def by (cases "x = l") force+
  have "view_steps (view_of w (wl_runId l)) (view_of w' (wl_runId l))"
    using view_moves [OF kl kl' id p m e _ c] b a u by (simp add: view_of_def w'(2))
  moreover have "view_of w' r' = view_of w r'" if "r' \<noteq> wl_runId l" for r'
    using launches_of_other [OF w'(1) r that] that by (simp add: view_of_def w'(2))
  ultimately have "view_steps (view_of w r') (view_of w' r')" for r' by (cases "r' = wl_runId l") simp_all
  with f show "since w w'" unfolding since_def by blast
qed

text \<open>A launch alone.\<close>

lemma move_launch:
  assumes ok: "lease_ok idh ids past w" and put: "put_launch idh w l l' = Inr w'" and p: "wl_phase l \<noteq> Launch_retired"
    and ref: "\<And>ref. wl_workspaceGenerationRef l' = Some ref \<Longrightarrow> map_option gi_runId (ids ref) = Some (wl_runId l)"
    and e: "wl_leaseEpoch l' = wl_leaseEpoch l"
    and c: "\<And>a. db_runs w (wl_runId l) = Some a \<Longrightarrow> current_ok [l] (holders_of w (wl_runId l)) a (accepted_at w) \<Longrightarrow>
      current_ok (unretired [l']) (holders_of w (wl_runId l)) a (accepted_at w)"
  shows "lease_ok idh ids past w'"
proof -
  from put have u: "w' = w\<lparr>db_launches := replace_row l l' (db_launches w)\<rparr>" and l: "l \<in> set (db_launches w)"
    and row: "launch_row_ok idh l'" "wl_launchId l' = wl_launchId l" "wl_runId l' = wl_runId l"
      "worker_launches_validate_update l l'" by (simp_all add: put_launch_Inr)
  have k: "launch_known idh ids l'" using row ref by (simp add: launch_known_def worker_launches_validate_update_def)
  from ok l p obtain a where a: "db_runs w (wl_runId l) = Some a"
    and cur: "current_ok [l] (holders_of w (wl_runId l)) a (accepted_at w)" by (rule current_launch)
  show ?thesis
  proof (rule launch_moved [OF ok l p a])
    show "tables_ok idh ids w'" unfolding u by (rule tables_ok_launch [OF lease_ok_tables [OF ok] k row(2)])
    show "db_runs w' = (db_runs w)(wl_runId l \<mapsto> a)" using a by (simp add: u fun_upd_idem)
    show "epoch_moves l l' a a" using e by (simp add: epoch_moves_def)
    have s: "holders_of w' r = holders_of w r" for r by (simp add: u holders_of_def)
    show "current_ok (unretired [l']) (holders_of w' (wl_runId l)) a (accepted_at w)" unfolding s by (rule c [OF a cur])
    show "holders_of w' r = holders_of w r" for r by (rule s)
  qed (use row in \<open>simp_all add: u accepted_at_def worker_launches_validate_update_def\<close>)
qed

text \<open>A launch, the generation it is bound to, and its run.\<close>

lemma move_all:
  assumes ok: "lease_ok idh ids past w" and pg: "put_generation w g g' = Inr w1" and pl: "put_launch idh w1 l l' = Inr w2"
    and w': "db_launches w' = db_launches w2" "db_generations w' = db_generations w2" "db_fence w' = db_fence w"
      "db_runs w' = (db_runs w)(wl_runId l \<mapsto> a')"
    and p: "wl_phase l \<noteq> Launch_retired" and a: "db_runs w (wl_runId l) = Some a"
    and g: "wg_runId g = wl_runId l" "wg_generationRef g' = wg_generationRef g"
    and ref: "wl_workspaceGenerationRef l' = wl_workspaceGenerationRef l"
    and i: "run_id a' = run_id a" and e: "epoch_moves l l' a a'"
    and h: "set (holders_of w (wl_runId l)) \<subseteq> {g}"
    and c: "current_ok (unretired [l']) (filter holds_workspace [g']) a' (accepted_at w)"
  shows "lease_ok idh ids past w'"
proof -
  from pg have u1: "w1 = w\<lparr>db_generations := replace_row g g' (db_generations w)\<rparr>" and gin: "g \<in> set (db_generations w)"
    and grow: "generation_row_ok g'" "wg_generationId g' = wg_generationId g" "wg_runId g' = wg_runId g"
    by (simp_all add: put_generation_Inr)
  from pl have u2: "w2 = w1\<lparr>db_launches := replace_row l l' (db_launches w)\<rparr>" and l: "l \<in> set (db_launches w)"
    and row: "launch_row_ok idh l'" "wl_launchId l' = wl_launchId l" "wl_runId l' = wl_runId l"
      "worker_launches_validate_update l l'" by (simp_all add: put_launch_Inr u1)
  have L: "db_launches w' = replace_row l l' (db_launches w)" and G: "db_generations w' = replace_row g g' (db_generations w)"
    by (simp_all add: w' u2 u1)
  have k: "launch_known idh ids l'"
    using row ref known_launch [OF ok l] by (simp add: launch_known_def worker_launches_validate_update_def)
  have kg: "generation_known ids g'"
    using grow g(2) known_generation [OF ok gin] by (simp add: generation_known_def)
  show ?thesis
  proof (rule launch_moved [OF ok l p a L w'(4)])
    show "accepted_at w' = accepted_at w" by (simp add: accepted_at_def w'(3))
    have t: "tables_ok idh ids (w\<lparr>db_generations := replace_row g g' (db_generations w)\<rparr>)"
      by (rule tables_ok_generation [OF lease_ok_tables [OF ok] kg grow(2) g(2)])
    have t2: "tables_ok idh ids (w1\<lparr>db_launches := replace_row l l' (db_launches w1)\<rparr>)"
      by (rule tables_ok_launch [OF t [folded u1] k row(2)])
    show "tables_ok idh ids w'" by (rule tables_ok_same [OF t2]) (simp_all add: L G u1)
    show "holders_of w' r = holders_of w r" if "r \<noteq> wl_runId l" for r
      by (rule holders_of_other [OF G grow(3)]) (use that g(1) in simp)
    have hh: "holders_of w' (wg_runId g) = filter holds_workspace [g']"
      by (rule holders_replace [OF lease_ok_tables [OF ok] gin G grow(3)]) (use h g(1) in simp)
    show "current_ok (unretired [l']) (holders_of w' (wl_runId l)) a' (accepted_at w)"
      using c unfolding hh [unfolded g(1)] .
  qed (use row in \<open>simp_all add: i e worker_launches_validate_update_def\<close>)
qed

text \<open>The wait of a fenced launch: its generation and its run.\<close>

lemma move_wait:
  assumes ok: "lease_ok idh ids past w" and pg: "put_generation w g g' = Inr w1"
    and w': "db_launches w' = db_launches w" "db_generations w' = db_generations w1" "db_fence w' = db_fence w"
      "db_runs w' = (db_runs w)(wl_runId l \<mapsto> a')"
    and l: "l \<in> set (db_launches w)" "wl_phase l \<noteq> Launch_retired" and a: "db_runs w (wl_runId l) = Some a"
    and g: "wg_runId g = wl_runId l" "wg_generationRef g' = wg_generationRef g"
    and i: "run_id a' = run_id a" "run_leaseEpoch a' = run_leaseEpoch a"
    and h: "set (holders_of w (wl_runId l)) \<subseteq> {g}"
    and c: "current_ok [l] (filter holds_workspace [g']) a' (accepted_at w)"
  shows "lease_ok idh ids past w'"
proof -
  from pg have u1: "w1 = w\<lparr>db_generations := replace_row g g' (db_generations w)\<rparr>" and gin: "g \<in> set (db_generations w)"
    and grow: "generation_row_ok g'" "wg_generationId g' = wg_generationId g" "wg_runId g' = wg_runId g"
    by (simp_all add: put_generation_Inr)
  have G: "db_generations w' = replace_row g g' (db_generations w)" by (simp add: w' u1)
  have kg: "generation_known ids g'"
    using grow g(2) known_generation [OF ok gin] by (simp add: generation_known_def)
  from ok l obtain b where b: "unretired (launches_of w (wl_runId l)) = [l]" by (rule current_launch)
  then have un: "unretired [l] = [l]"
    by (metis (lifting) filter_id_conv list.set_intros(1) mem_Collect_eq set_filter singletonD unretired_def list.set(1,2))
  show ?thesis
  proof (rule launch_moved [OF ok l a _ w'(4)])
    show "db_launches w' = replace_row l l (db_launches w)" by (simp add: w'(1))
    show "accepted_at w' = accepted_at w" by (simp add: accepted_at_def w'(3))
    have t: "tables_ok idh ids (w\<lparr>db_generations := replace_row g g' (db_generations w)\<rparr>)"
      by (rule tables_ok_generation [OF lease_ok_tables [OF ok] kg grow(2) g(2)])
    show "tables_ok idh ids w'" by (rule tables_ok_same [OF t]) (simp_all add: G w'(1))
    show "holders_of w' r = holders_of w r" if "r \<noteq> wl_runId l" for r
      by (rule holders_of_other [OF G grow(3)]) (use that g(1) in simp)
    have hh: "holders_of w' (wg_runId g) = filter holds_workspace [g']"
      by (rule holders_replace [OF lease_ok_tables [OF ok] gin G grow(3)]) (use h g(1) in simp)
    show "current_ok (unretired [l]) (holders_of w' (wl_runId l)) a' (accepted_at w)"
      using c unfolding hh [unfolded g(1)] un .
  qed (simp_all add: i epoch_moves_def)
qed

text \<open>A generation that nobody holds, before and after.\<close>

lemma holders_unchanged:
  assumes "db_generations w' = replace_row g g' (db_generations w)" and "wg_runId g' = wg_runId g"
    and "\<not> holds_workspace g" and "\<not> holds_workspace g'"
  shows "holders_of w' r = holders_of w r"
  using assms(3,4) by (simp add: holders_of_def generations_of_replace [OF assms(1,2)] filter_replace_none)

lemma lease_ok_rows:
  assumes ok: "lease_ok idh ids past w" and t: "tables_ok idh ids w'" and f: "accepted_at w \<le> accepted_at w'"
    and L: "db_launches w' = db_launches w" and same: "\<And>r. holders_of w' r = holders_of w r" "db_runs w' = db_runs w"
  shows "lease_ok idh ids past w'"
proof (rule lease_ok_run [OF ok t f, where r = "[]"])
  have "run_lease_ok w (accepted_at w) []" using ok by (simp add: lease_ok_def)
  with f have "run_lease_ok w (accepted_at w') []" by (rule run_lease_ok_later [rotated])
  then show "run_lease_ok w' (accepted_at w') []" using run_lease_ok_cong [of w' "[]" w] same L by (simp add: launches_of_def)
  show "since w w'" by (rule since_same [OF L]) (simp add: view_of_def launches_of_def L same)
qed (simp add: same launches_of_def L)

lemma move_generation:
  assumes ok: "lease_ok idh ids past w" and pg: "put_generation w g g' = Inr w'" and r: "wg_generationRef g' = wg_generationRef g"
    and n: "\<not> holds_workspace g" "\<not> holds_workspace g'"
  shows "lease_ok idh ids past w'"
proof -
  from pg have u: "w' = w\<lparr>db_generations := replace_row g g' (db_generations w)\<rparr>" and gin: "g \<in> set (db_generations w)"
    and grow: "generation_row_ok g'" "wg_generationId g' = wg_generationId g" "wg_runId g' = wg_runId g"
    by (simp_all add: put_generation_Inr)
  have kg: "generation_known ids g'"
    using grow r known_generation [OF ok gin] by (simp add: generation_known_def)
  show ?thesis
  proof (rule lease_ok_rows [OF ok])
    show "tables_ok idh ids w'" unfolding u by (rule tables_ok_generation [OF lease_ok_tables [OF ok] kg grow(2) r])
    show "holders_of w' r = holders_of w r" for r by (rule holders_unchanged [OF _ grow(3) n]) (simp add: u)
  qed (simp_all add: u launches_of_def accepted_at_def)
qed

lemma new_generation:
  assumes ok: "lease_ok idh ids past w" and ag: "add_generation w g = Inr w'"
    and k: "map_option gi_runId (ids (wg_generationRef g)) = Some (wg_runId g)"
  shows "lease_ok idh ids past w'"
proof -
  from ag have u: "w' = w\<lparr>db_generations := db_generations w @ [g]\<rparr>"
    and row: "generation_row_ok g" "workspace_generations_validate_insert g"
      "wg_generationId g \<notin> set (map wg_generationId (db_generations w))"
      "wg_generationRef g \<notin> set (map wg_generationRef (db_generations w))" unfolding add_generation_Inr by blast+
  have n: "\<not> holds_workspace g" using row(2) by (simp add: workspace_generations_validate_insert_def holds_workspace_def)
  show ?thesis
  proof (rule lease_ok_rows [OF ok])
    show "tables_ok idh ids w'" unfolding u
      by (rule tables_ok_new_generation [OF lease_ok_tables [OF ok] _ row(3,4)]) (simp add: generation_known_def k row(1))
    show "holders_of w' r = holders_of w r" for r using n by (simp add: u holders_of_def generations_of_run_def)
  qed (simp_all add: u launches_of_def accepted_at_def)
qed

text \<open>A launch of a run that has none.\<close>

lemma new_launch:
  assumes ok: "lease_ok idh ids past w" and al: "add_launch idh w l = Inr w'" and a: "db_runs w (wl_runId l) = Some a"
    and p: "wl_phase l \<in> {Launch_preparing, Launch_reserved, Launch_preactivated}" and e: "wl_leaseEpoch l = None"
    and ref: "\<And>ref. wl_workspaceGenerationRef l = Some ref \<Longrightarrow> map_option gi_runId (ids ref) = Some (wl_runId l)"
  shows "lease_ok idh ids past w'"
proof -
  from al have u: "w' = w\<lparr>db_launches := db_launches w @ [l]\<rparr>"
    and row: "launch_row_ok idh l" "worker_launches_validate_insert l" "wl_launchId l \<notin> set (map wl_launchId (db_launches w))"
    and un: "wl_retiredAt l = None \<longrightarrow> unretired_launches (db_launches w) (wl_runId l) = []"
    unfolding add_launch_Inr by blast+
  have n: "wl_retiredAt l = None" using row(2) p by (auto simp: worker_launches_validate_insert_def)
  with un have un: "unretired (launches_of w (wl_runId l)) = []" by (simp add: unretired_launches_of)
  have "run_lease_ok w (accepted_at w) (wl_runId l)" using ok by (simp add: lease_ok_def)
  with a un have c: "run_id a = wl_runId l" "holders_of w (wl_runId l) = []" "idle a"
    and ep: "distinct (lease_epochs (launches_of w (wl_runId l)))"
      "\<forall>e\<in>set (lease_epochs (launches_of w (wl_runId l))). e \<le> run_leaseEpoch a"
    by (simp_all add: run_lease_ok_def current_ok_def)
  have L: "launches_of w' r = (if r = wl_runId l then launches_of w r @ [l] else launches_of w r)" for r
    by (simp add: u launches_of_def)
  have H: "holders_of w' r = holders_of w r" for r by (simp add: u holders_of_def)
  have cur: "current_ok [l] [] a t" for t using p c(3) by (auto simp: current_ok_def)
  show ?thesis
  proof (rule lease_ok_run [OF ok, where r = "wl_runId l"])
    have k: "launch_known idh ids l" using row ref by (simp add: launch_known_def worker_launches_validate_insert_def)
    show "tables_ok idh ids w'" unfolding u by (rule tables_ok_new_launch [OF lease_ok_tables [OF ok] k row(3)])
    show "run_lease_ok w' (accepted_at w') (wl_runId l)"
      using a c ep e un n cur unfolding run_lease_ok_def L H
      by (simp add: u unretired_def lease_epochs_def map_filter_def)
    have "view_step (view_of w (wl_runId l)) (view_of w' (wl_runId l))"
      using un n view_phases(1) [OF p] a unfolding view_of_def L by (simp add: u unretired_def promised view_phases)
    moreover have "view_of w' r = view_of w r" if "r \<noteq> wl_runId l" for r using that by (simp add: view_of_def L, simp add: u)
    ultimately have "view_steps (view_of w r) (view_of w' r)" for r by (cases "r = wl_runId l") auto
    moreover have "\<exists>x'\<in>set (db_launches w'). follows x x'" if "x \<in> set (db_launches w)" for x
      using that by (intro bexI [of _ x]) (simp_all add: u)
    ultimately show "since w w'" unfolding since_def by blast
  qed (simp_all add: L H, simp_all add: u accepted_at_def)
qed

text \<open>Runs alone: what a lease rests on is kept.\<close>

definition keeps_lease :: "kernel_db \<Rightarrow> run \<Rightarrow> run \<Rightarrow> bool" where
  "keeps_lease w a a' \<longleftrightarrow>
     run_id a' = run_id a \<and> run_leaseEpoch a' = run_leaseEpoch a \<and> run_activeWorkerLaunchId a' = run_activeWorkerLaunchId a \<and>
     run_deadlineAt a' = run_deadlineAt a \<and> (run_status a' = Run_running) = (run_status a = Run_running) \<and>
     ((\<exists>l\<in>set (launches_of w (run_id a)). wl_phase l = Launch_reconciling) \<longrightarrow>
        run_status a' = run_status a \<and> run_waitingReason a' = run_waitingReason a \<and> run_waitingOnRef a' = run_waitingOnRef a)"

text \<open>What everything else in the program may do.\<close>

definition lease_elsewhere :: "kernel_db \<Rightarrow> kernel_db \<Rightarrow> bool" where
  "lease_elsewhere w w' \<longleftrightarrow>
     db_launches w' = db_launches w \<and> db_generations w' = db_generations w \<and> accepted_at w \<le> accepted_at w' \<and>
     (\<forall>r a. db_runs w r = Some a \<longrightarrow> (\<exists>a'. db_runs w' r = Some a' \<and> keeps_lease w a a')) \<and>
     (\<forall>r a. db_runs w r = None \<and> db_runs w' r = Some a \<longrightarrow> run_id a = r \<and> idle a)"

lemma keeps_lease_refl [simp]: "keeps_lease w a a"
  by (simp add: keeps_lease_def)

lemma lease_elsewhere_refl: "lease_elsewhere w w"
  by (auto simp: lease_elsewhere_def)

lemma current_keeps:
  assumes c: "current_ok ls hs a t" and k: "keeps_lease w a a'" and ls: "set ls \<subseteq> set (launches_of w (run_id a))"
  shows "current_ok ls hs a' t"
proof -
  have i: "idle a' = idle a" using k by (auto simp: keeps_lease_def idle_def)
  have b: "lease_bounded l a' t = lease_bounded l a t" for l using k by (simp add: keeps_lease_def lease_bounded_def split: option.splits)
  have h: "held_lease l g a' t = held_lease l g a t" for l g
    using k b by (auto simp: keeps_lease_def held_lease_def)
  have n: "wait_names x l g a' = wait_names x l g a" for x l g using k by (simp add: keeps_lease_def wait_names_def)
  have f: "fenced_lease l g a' = fenced_lease l g a" if "l \<in> set ls" "wl_phase l = Launch_reconciling" for l g
  proof -
    have "\<exists>l\<in>set (launches_of w (run_id a)). wl_phase l = Launch_reconciling" using that ls by blast
    with k have "run_status a' = run_status a" "run_waitingReason a' = run_waitingReason a"
      "run_waitingOnRef a' = run_waitingOnRef a" "run_leaseEpoch a' = run_leaseEpoch a" by (simp_all add: keeps_lease_def)
    with i n show ?thesis by (simp add: fenced_lease_def)
  qed
  show ?thesis
    using c i h f by (auto simp: current_ok_def split: list.splits launch_phase.splits)
qed

lemma lease_ok_elsewhere:
  assumes ok: "lease_ok idh ids past w" and e: "lease_elsewhere w w'"
  shows "lease_ok idh ids past w'"
  unfolding lease_ok_def
proof (intro conjI allI)
  have D: "db_launches w' = db_launches w" using e by (simp add: lease_elsewhere_def)
  have "view_steps (view_of w r) (view_of w' r)" for r
  proof (cases "db_runs w r")
    case None
    have "run_lease_ok w (accepted_at w) r" using ok by (simp add: lease_ok_def)
    with None have "launches_of w' r = []" by (simp add: run_lease_ok_def launches_of_def D)
    with None show ?thesis
      by (cases "db_runs w' r") (auto simp: view_of_def unretired_def view_phases intro: admitted)
  next
    case (Some a)
    with e obtain a' where "db_runs w' r = Some a'" "keeps_lease w a a'" unfolding lease_elsewhere_def by blast
    with Some show ?thesis by (simp add: view_of_def keeps_lease_def launches_of_def D)
  qed
  with D have "since w w'" unfolding since_def by (metis follows_refl)
  with ok show "since past w'" unfolding lease_ok_def by (blast intro: since_trans)
  from e show "tables_ok idh ids w'" by (intro tables_ok_same [OF lease_ok_tables [OF ok]]) (simp_all add: lease_elsewhere_def)
  fix r
  from e have L: "launches_of w' r = launches_of w r" and H: "holders_of w' r = holders_of w r" and t: "accepted_at w \<le> accepted_at w'"
    by (simp_all add: lease_elsewhere_def launches_of_def holders_of_def)
  have "run_lease_ok w (accepted_at w) r" using ok by (simp add: lease_ok_def)
  with t have k: "run_lease_ok w (accepted_at w') r" by (rule run_lease_ok_later [rotated])
  show "run_lease_ok w' (accepted_at w') r"
  proof (cases "db_runs w r")
    case None
    with k have "launches_of w r = []" "holders_of w r = []" by (simp_all add: run_lease_ok_def)
    with e None show ?thesis
      by (cases "db_runs w' r")
        (auto simp: run_lease_ok_def L H current_ok_def lease_elsewhere_def unretired_def lease_epochs_def map_filter_def)
  next
    case (Some a)
    with e obtain a' where a': "db_runs w' r = Some a'" "keeps_lease w a a'" unfolding lease_elsewhere_def by blast
    from k Some have c: "run_id a = r" "current_ok (unretired (launches_of w r)) (holders_of w r) a (accepted_at w')"
      by (simp_all add: run_lease_ok_def)
    then have "current_ok (unretired (launches_of w r)) (holders_of w r) a' (accepted_at w')"
      by (intro current_keeps [OF c(2) a'(2)]) (auto simp: unretired_def)
    with k Some a' show ?thesis by (auto simp: run_lease_ok_def L H keeps_lease_def)
  qed
qed

end
