(* ===== verification/Lease_Operations.thy ===== *)
theory Lease_Operations
  imports Lease_Moves
begin

text \<open>Every operation on a worker keeps the invariant of leases.\<close>

section \<open>Transactions\<close>

lemma fenced_transaction_cases:
  assumes "fenced_transaction owner now before body w = (res, w')"
  obtains (refused) "w' = w"
  | (regressed) f where "db_fence w = Some f" "w' = persist_regressed_fence w f now"
  | (committed) x y f w1 where "before w = Inr x" "db_fence w = Some f" "tf_lastAcceptedAt f \<le> now"
      "w1 = w\<lparr>db_fence := Some (fence_at (so_ownerEpoch owner) now)\<rparr>" "body x w1 = Inr (y, w')" "res = Inr y"
proof (cases "before w")
  case (Inl e)
  with assms refused show thesis by (simp add: fenced_transaction_def run_transaction_def)
next
  case (Inr x)
  let ?b = "behind_fence w (so_ownerEpoch owner) now (body x)"
  from assms Inr have b: "run_transaction ?b w = (res, w')" by (simp add: fenced_transaction_def)
  show thesis
  proof (cases ?b)
    case (Inl e)
    with b refused show thesis by (simp add: run_transaction_def)
  next
    case (Inr z)
    show thesis
    proof (cases "fst z")
      case None
      with Inr b have "?b = Inr (None, w')" by (cases z) (simp add: run_transaction_def)
      from behind_fence_None [OF this] refused regressed show thesis by blast
    next
      case (Some y)
      with Inr b have "?b = Inr (Some y, w')" "res = Inr y" by (cases z, simp add: run_transaction_def)+
      then obtain w1 where "advance_time_fence w (so_ownerEpoch owner) now = Inr (Fence_healthy, w1)" "body x w1 = Inr (y, w')"
        by (auto simp: behind_fence_Some)
      with advance_healthy [OF this(1)] committed [OF \<open>before w = Inr x\<close>] \<open>res = Inr y\<close> show thesis by blast
    qed
  qed
qed

lemma lease_ok_fence:
  assumes "lease_ok idh ids past w" and "db_fence w = Some f" and "tf_lastAcceptedAt f \<le> t"
  shows "lease_ok idh ids past (w\<lparr>db_fence := Some (fence_at e t)\<rparr>)"
  by (rule lease_ok_same [OF assms(1)]) (simp_all add: accepted_at_def fence_at_def assms(2,3))

lemma lease_ok_regressed:
  assumes "lease_ok idh ids past w" and "db_fence w = Some f"
  shows "lease_ok idh ids past (persist_regressed_fence w f t)"
  by (rule lease_ok_same [OF assms(1)]) (simp_all add: accepted_at_def persist_regressed_fence_def assms(2))

lemma lease_ok_transaction:
  assumes t: "fenced_transaction owner now before body w = (res, w')" and ok: "lease_ok idh ids past w"
    and b: "\<And>x y w1. before w = Inr x \<Longrightarrow> lease_ok idh ids past w1 \<Longrightarrow> accepted_at w1 = now \<Longrightarrow>
      db_launches w1 = db_launches w \<Longrightarrow> db_generations w1 = db_generations w \<Longrightarrow> db_runs w1 = db_runs w \<Longrightarrow>
      body x w1 = Inr (y, w') \<Longrightarrow> lease_ok idh ids past w'"
  shows "lease_ok idh ids past w'"
  using t
proof (cases rule: fenced_transaction_cases)
  case refused
  with ok show ?thesis by simp
next
  case (regressed f)
  with lease_ok_regressed [OF ok] show ?thesis by simp
next
  case (committed x y f w1)
  have k: "lease_ok idh ids past w1" unfolding committed(4) by (rule lease_ok_fence [OF ok committed(2,3)])
  show ?thesis by (rule b [OF committed(1) k _ _ _ _ committed(5)]) (simp_all add: committed(4) accepted_at_def fence_at_def)
qed

lemma lease_ok_reads:
  assumes "after_reads reads txn w = (res, w')" and "lease_ok idh ids past w"
    and "\<And>x. reads = Inr x \<Longrightarrow> txn x w = (res, w') \<Longrightarrow> lease_ok idh ids past w'"
  shows "lease_ok idh ids past w'"
  using assms by (auto simp: after_reads_def split: sum.splits)

section \<open>Generations\<close>

lemma register_row_ok:
  assumes "register_row runId ref gi recovery now w = Inr (x, w')" and "lease_ok idh ids past w"
    and "map_option gi_runId (ids ref) = Some runId"
  shows "lease_ok idh ids past w'"
proof -
  from assms(1) have "add_generation w (materializing_generation runId ref gi now) = Inr w'"
    by (auto simp: register_row_def and_then_Inr Let_def)
  from new_generation [OF assms(2) this] assms(3) show ?thesis by (simp add: materializing_generation_def)
qed

lemma preactivate_generation_row_ok:
  assumes "preactivate_generation_row generationId v ref sn now w = Inr (x, w')" and ok: "lease_ok idh ids past w"
  shows "lease_ok idh ids past w'"
proof -
  from assms(1) obtain g where p: "wg_phase g = Generation_materializing"
    and put: "put_generation w g (g\<lparr>wg_phase := Generation_preactivated_readonly, wg_rowVersion := wg_rowVersion g + 1,
                wg_lastVerifiedTreeDigest := sn_treeDigest sn, wg_updatedAt := now,
                wg_snapshotEvidence := (Some ref, Some (sn_evidenceDigest sn))\<rparr>) = Inr w'"
    by (auto simp: preactivate_generation_row_def and_then_Inr Let_def)
  show ?thesis by (rule move_generation [OF ok put]) (simp_all add: holds_workspace_def p)
qed

section \<open>Launches without power\<close>

lemma known_ref:
  "launch_known idh ids l \<Longrightarrow> wl_workspaceGenerationRef l = Some ref \<Longrightarrow> map_option gi_runId (ids ref) = Some (wl_runId l)"
  by (simp add: launch_known_def)

lemma current_powerless:
  assumes "current_ok [l] hs a t" and "wl_phase l \<in> {Launch_preparing, Launch_reserved, Launch_preactivated}"
    and "wl_phase l' \<in> {Launch_preparing, Launch_reserved, Launch_preactivated, Launch_retired}"
  shows "current_ok (unretired [l']) hs a t"
  using assms by (auto simp: current_ok_def unretired_def)

lemma reserve_row_ok:
  assumes r: "reserve_row idh owner i binding identity now w = Inr (x, w')" and ok: "lease_ok idh ids past w"
    and known: "map_option gi_runId (ids (ri_workspaceGenerationRef i)) = Some (ri_runId i)"
  shows "lease_ok idh ids past w'"
proof -
  define keep where "keep = unretired_launches (db_launches w) (ri_runId i)"
  from r obtain a p deadline where a: "db_runs w (ri_runId i) = Some a"
    and p: "p = None \<or> (\<exists>l. p = Some l \<and> keep = [l] \<and> wl_phase l = Launch_preparing)"
    and put: "(case p of None \<Rightarrow> add_launch idh w (reserved_launch owner i p now deadline)
       | Some q \<Rightarrow> put_launch idh w q (reserved_launch owner i p now deadline)) = Inr w'"
    unfolding reserve_row_def keep_def [symmetric]
    by (force simp: and_then_Inr read_run_Inr Let_def split: list.splits if_splits)
  show ?thesis
  proof (cases p)
    case None
    with put have "add_launch idh w (reserved_launch owner i p now deadline) = Inr w'" by simp
    from new_launch [OF ok this] a known show ?thesis by (simp add: reserved_launch_def)
  next
    case (Some q)
    with p have q: "keep = [q]" "wl_phase q = Launch_preparing" by auto
    then have "q \<in> set keep" by simp
    then have m: "q \<in> set (db_launches w)" "wl_runId q = ri_runId i" by (auto simp: keep_def unretired_launches_def)
    have nl: "no_lease q" by (rule powerless_no_lease [OF known_launch [OF ok m(1)]]) (simp add: q)
    from put Some have put: "put_launch idh w q (reserved_launch owner i p now deadline) = Inr w'" by simp
    show ?thesis
      by (rule move_launch [OF ok put])
        (use q m known nl in \<open>auto simp: reserved_launch_def no_lease_def intro: current_powerless\<close>)
  qed
qed

lemma preactivate_row_ok:
  assumes r: "preactivate_row idh owner launchId digest containment wi now w = Inr (x, w')" and ok: "lease_ok idh ids past w"
  shows "lease_ok idh ids past w'"
proof -
  from r obtain l where l: "read_required_worker_launch (db_launches w) launchId = Inr l" and p: "wl_phase l = Launch_reserved"
    and put: "put_launch idh w l (l\<lparr>wl_phase := Launch_preactivated, wl_workerIdentityDigest := Some digest,
                wl_processContainmentRef := Some containment\<rparr>) = Inr w'"
    by (auto simp: preactivate_row_def and_then_Inr Let_def)
  have k: "launch_known idh ids l" using known_launch [OF ok] read_launch_Inr [OF l] by blast
  show ?thesis
    by (rule move_launch [OF ok put]) (use p known_ref [OF k] in \<open>auto intro: current_powerless\<close>)
qed

lemma preparation_row_ok:
  assumes r: "preparation_row idh owner i rc now w = Inr (x, w')" and ok: "lease_ok idh ids past w"
  shows "lease_ok idh ids past w'"
proof -
  from r obtain a c deadline where a: "db_runs w (pr_runId i) = Some a"
    and add: "add_launch idh w (preparing_launch idh owner i a c now deadline) = Inr w'"
    by (auto simp: preparation_row_def and_then_Inr read_run_Inr Let_def)
  have "run_lease_ok w (accepted_at w) (pr_runId i)" using ok by (simp add: lease_ok_def)
  with a have "run_id a = pr_runId i" by (simp add: run_lease_ok_def)
  with a new_launch [OF ok add] show ?thesis by (simp add: preparing_launch_def)
qed

lemma preparing_Inr:
  "preparing w owner k = Inr l \<Longrightarrow> l \<in> set (db_launches w) \<and> wl_launchId l = k \<and> wl_phase l = Launch_preparing"
  by (auto simp: preparing_def and_then_Inr dest: read_launch_Inr split: if_splits)

lemma preparing_put_ok:
  assumes ok: "lease_ok idh ids past w" and put: "put_launch idh w l (l\<lparr>wl_preparation := p\<rparr>) = Inr w'"
    and p: "wl_phase l = Launch_preparing"
  shows "lease_ok idh ids past w'"
proof -
  have k: "launch_known idh ids l" using known_launch [OF ok] put by (simp add: put_launch_Inr)
  show ?thesis by (rule move_launch [OF ok put]) (use p known_ref [OF k] in \<open>auto intro: current_powerless\<close>)
qed

lemma generation_birth_row_ok:
  assumes r: "generation_birth_row idh gi authority observed now cp w = Inr (x, w')" and ok: "lease_ok idh ids past w"
    and p: "wl_phase (fst cp) = Launch_preparing" and known: "ids (fst authority) = Some gi"
  shows "lease_ok idh ids past w'"
proof -
  from r obtain w1 where add: "add_generation w (materializing_generation (gi_runId gi) (fst authority) gi now) = Inr w1"
    and put: "put_launch idh w1 (fst cp) ((fst cp)\<lparr>wl_preparation := Some ((snd cp)\<lparr>wp_generation := Some authority\<rparr>)\<rparr>) = Inr w'"
    by (auto simp: generation_birth_row_def and_then_Inr Let_def)
  have "lease_ok idh ids past w1" by (rule new_generation [OF ok add]) (simp add: materializing_generation_def known)
  from preparing_put_ok [OF this put p] show ?thesis .
qed

lemma controller_birth_row_ok:
  assumes r: "controller_birth_row idh artifact birth observed reservation now cp w = Inr (x, w')" and ok: "lease_ok idh ids past w"
    and p: "wl_phase (fst cp) = Launch_preparing"
  shows "lease_ok idh ids past w'"
proof -
  from r obtain q where "put_launch idh w (fst cp) ((fst cp)\<lparr>wl_preparation := Some q\<rparr>) = Inr w'"
    by (auto simp: controller_birth_row_def and_then_Inr Let_def)
  from preparing_put_ok [OF ok this p] show ?thesis .
qed

lemma retire_powerless_ok:
  assumes ok: "lease_ok idh ids past w" and put: "put_launch idh w l l' = Inr w'"
    and p: "wl_phase l \<in> {Launch_preparing, Launch_reserved, Launch_preactivated}"
    and l': "wl_phase l' = Launch_retired" "wl_leaseEpoch l' = wl_leaseEpoch l"
      "wl_workspaceGenerationRef l' = wl_workspaceGenerationRef l"
  shows "lease_ok idh ids past w'"
proof -
  have k: "launch_known idh ids l" using known_launch [OF ok] put by (simp add: put_launch_Inr)
  show ?thesis
    by (rule move_launch [OF ok put]) (use p l' known_ref [OF k] in \<open>auto intro: current_powerless\<close>)
qed

lemma retire_preparation_row_ok:
  assumes r: "retire_preparation_row idh l a g pe now fresh w = Inr (x, w')" and ok: "lease_ok idh ids past w"
    and p: "wl_phase l = Launch_preparing"
    and g: "\<And>h. g = Some h \<Longrightarrow> wg_phase h \<in> {Generation_materializing, Generation_preactivated_readonly}"
  shows "lease_ok idh ids past w'"
proof -
  from r obtain w1 where put: "put_launch idh w l (l\<lparr>wl_phase := Launch_retired, wl_retirementKind := True,
      wl_retiredAt := Some now, wl_retirementEvidenceRef := Some (pe_proofRef pe)\<rparr>) = Inr w1"
    and rest: "(case g of
         None \<Rightarrow> Inr w1
       | Some g0 \<Rightarrow>
           and_then (put_generation w1 g0 (quarantined_preparation g0 pe now)) (\<lambda>w2.
           put_generation w2 (quarantined_preparation g0 pe now) (retired_preparation g0 pe now))) = Inr w'"
    unfolding retire_preparation_row_def Let_def and_then_Inr by blast
  have ok1: "lease_ok idh ids past w1" by (rule retire_powerless_ok [OF ok put]) (simp_all add: p)
  show ?thesis
  proof (cases g)
    case None
    with rest ok1 show ?thesis by simp
  next
    case (Some h)
    with rest obtain w2 where q: "put_generation w1 h (quarantined_preparation h pe now) = Inr w2"
      and t: "put_generation w2 (quarantined_preparation h pe now) (retired_preparation h pe now) = Inr w'"
      by (auto simp: and_then_Inr)
    have "lease_ok idh ids past w2"
      by (rule move_generation [OF ok1 q]) (use g [OF Some] in \<open>auto simp: quarantined_preparation_def holds_workspace_def\<close>)
    from move_generation [OF this t] show ?thesis
      by (simp add: quarantined_preparation_def retired_preparation_def holds_workspace_def)
  qed
qed

lemma checked_cut_Inr:
  assumes "checked_cut w owner k = Inr pc"
  shows "pc_launch pc \<in> set (db_launches w) \<and> wl_phase (pc_launch pc) \<in> {Launch_reserved, Launch_preactivated} \<and>
    db_runs w (wl_runId (pc_launch pc)) = Some (pc_run pc) \<and>
    wg_phase (pc_generation pc) = Generation_preactivated_readonly"
  using assms by (auto simp: checked_cut_def and_then_Inr read_run_Inr dest: read_launch_Inr)

lemma update_run_keeps:
  assumes ok: "lease_ok idh ids past w" and u: "update_run_row w r P f now = Inr (b, w')"
    and f: "\<And>a. db_runs w r = Some a \<Longrightarrow> keeps_lease w a (f a)"
  shows "lease_ok idh ids past w'"
proof -
  from update_run_row_Inr [OF u] obtain a es where a: "db_runs w r = Some a"
    and w': "w' = w\<lparr>db_runs := (db_runs w)(r \<mapsto> f a), db_events := es\<rparr>" by blast
  have "lease_elsewhere w w'"
    using a f [OF a] by (auto simp: lease_elsewhere_def w' accepted_at_def)
  from lease_ok_elsewhere [OF ok this] show ?thesis .
qed

lemma retire_preactivation_row_ok:
  assumes r: "retire_preactivation_row idh pc px now w = Inr (x, w')" and ok: "lease_ok idh ids past w"
    and p: "wl_phase (pc_launch pc) \<in> {Launch_reserved, Launch_preactivated}"
    and g: "wg_phase (pc_generation pc) = Generation_preactivated_readonly"
  shows "lease_ok idh ids past w'"
proof -
  from r obtain w1 w2 l' where
    pg: "put_generation w (pc_generation pc) (quarantined_generation (pc_generation pc) (px_quarantineRef px)
      (px_quarantineDigest px) (px_observedState px) now) = Inr w1"
    and pl: "put_launch idh w1 (pc_launch pc) l' = Inr w2"
    and l': "wl_phase l' = Launch_retired" "wl_leaseEpoch l' = wl_leaseEpoch (pc_launch pc)"
      "wl_workspaceGenerationRef l' = wl_workspaceGenerationRef (pc_launch pc)"
    and u: "update_run_row w2 (run_id (pc_run pc)) (\<lambda>r. run_revision r = run_revision (pc_run pc))
      (\<lambda>r. r\<lparr>run_revision := run_revision r + 1, run_updatedAt := now\<rparr>) now = Inr (x, w')"
    by (auto simp: retire_preactivation_row_def and_then_Inr)
  have "lease_ok idh ids past w1"
    by (rule move_generation [OF ok pg]) (simp_all add: quarantined_generation_def holds_workspace_def g)
  then have "lease_ok idh ids past w2" by (rule retire_powerless_ok [OF _ pl _ l']) (use p in auto)
  then show ?thesis by (rule update_run_keeps [OF _ u]) (simp add: keeps_lease_def)
qed

lemma retire_quarantined_row_ok:
  assumes r: "retire_quarantined_row g ref digest observedAt now go w = Inr (x, w')" and ok: "lease_ok idh ids past w"
    and g: "wg_phase g = Generation_quarantined"
  shows "lease_ok idh ids past w'"
proof -
  from r obtain g' where "put_generation w g g' = Inr w'" "wg_generationRef g' = wg_generationRef g" "wg_phase g' = Generation_retired"
    by (auto simp: retire_quarantined_row_def and_then_Inr Let_def)
  from move_generation [OF ok this(1,2)] this(3) g show ?thesis by (simp add: holds_workspace_def)
qed

section \<open>The lease\<close>

lemma activated_row_facts:
  assumes "launch_known idh ids l" and "wl_phase l = Launch_activated"
  shows "wl_generationWriteState l = Some Generation_active \<longleftrightarrow> wl_quiesceId l = None"
    and "wl_workspaceGenerationRef l \<noteq> None" and "wl_leaseEpoch l \<noteq> None" and "wl_retiredAt l = None"
proof -
  from assms have "bound_launch_ok idh l" "wl_retiredAt l = None" by (auto simp: launch_known_def launch_row_ok_def)
  with assms(2) have b: "wl_generationWriteState l = Some Generation_active \<longleftrightarrow> wl_quiesceId l = None"
    and s: "present artifact_ref_ok (wl_workspaceGenerationRef l)" "present (int_at_least 1) (wl_leaseEpoch l)"
    by (simp_all add: bound_launch_ok_def lease_bound_def)
  show "wl_generationWriteState l = Some Generation_active \<longleftrightarrow> wl_quiesceId l = None" by (rule b)
  show "wl_workspaceGenerationRef l \<noteq> None" "wl_leaseEpoch l \<noteq> None" using s by (auto simp: present_def split: option.splits)
  show "wl_retiredAt l = None" by fact
qed

lemma put_generation_phase:
  "put_generation w g g' = Inr w' \<Longrightarrow> generation_phase_ok (wg_phase g') g'"
  by (simp add: put_generation_Inr generation_row_ok_def)

lemma put_launch_row: "put_launch idh w l l' = Inr w' \<Longrightarrow> launch_row_ok idh l'"
  by (simp add: put_launch_Inr)

lemma activate_row_Inr:
  assumes "activate_row idh owner launchId expected ver duration now w = Inr (x, w')"
  obtains l a t g w1 w2 a' where "read_required_worker_launch (db_launches w) launchId = Inr l"
    "wl_phase l = Launch_preactivated" "db_runs w (wl_runId l) = Some a"
    "initial_lease_end duration now (run_deadlineAt a) = Inr t" "t \<le> run_deadlineAt a"
    "read_generation_by_ref (db_generations w) (wl_workspaceGenerationRef l) = Inr g"
    "put_generation w g (g\<lparr>wg_phase := Generation_active, wg_rowVersion := wg_rowVersion g + 1, wg_updatedAt := now,
        wg_activeWorkerLaunchId := Some (wl_launchId l), wg_leaseEpoch := Some (run_leaseEpoch a + 1)\<rparr>) = Inr w1"
    "put_launch idh w1 l (activated_launch l (run_leaseEpoch a + 1) t now) = Inr w2"
    "update_run_row w2 (run_id a)
         (\<lambda>r'. run_status r' = Run_queued \<and> run_revision r' = run_revision a \<and> run_leaseEpoch r' = run_leaseEpoch a \<and>
            run_activeWorkerLaunchId r' = None \<and> \<not> run_cancelRequested r' \<and> run_stopIntentRef r' = None)
         (\<lambda>r'. r'\<lparr>run_status := Run_running, run_revision := run_revision r' + 1, run_leaseEpoch := run_leaseEpoch a + 1,
            run_activeWorkerLaunchId := Some (wl_launchId l), run_updatedAt := now\<rparr>) now = Inr (a', w')"
proof -
  show thesis
    using assms that unfolding activate_row_def Let_def and_then_Inr read_run_Inr throw_if_simps(3)
    by (clarsimp simp: not_less split: prod.splits)
qed

lemma update_run_row_at:
  assumes "update_run_row w r P f now = Inr (a', w')" and "db_runs w r = Some a"
  shows "a' = f a \<and> (\<exists>es. w' = w\<lparr>db_runs := (db_runs w)(r \<mapsto> f a), db_events := es\<rparr>)"
  using update_run_row_Inr [OF assms(1)] assms(2) by auto

lemma initial_lease_end_bound:
  assumes "initial_lease_end duration now deadline = Inr t" and "\<And>d. duration = Some d \<Longrightarrow> d \<le> max_lease_extension_ms"
  shows "t \<le> now + max_lease_extension_ms"
  using assms by (auto simp: initial_lease_end_def add_duration_def split: option.splits if_splits)

lemma activate_row_ok:
  assumes r: "activate_row idh owner launchId expected ver duration now w = Inr (x, w')" and ok: "lease_ok idh ids past w"
    and now: "accepted_at w = now" and d: "\<And>t. duration = Some t \<Longrightarrow> t \<le> max_lease_extension_ms"
  shows "lease_ok idh ids past w'"
  using r
proof (rule activate_row_Inr)
  fix l a t g w1 w2 a'
  assume l: "read_required_worker_launch (db_launches w) launchId = Inr l"
    and p: "wl_phase l = Launch_preactivated" and a: "db_runs w (wl_runId l) = Some a"
    and t: "initial_lease_end duration now (run_deadlineAt a) = Inr t" "t \<le> run_deadlineAt a"
    and g: "read_generation_by_ref (db_generations w) (wl_workspaceGenerationRef l) = Inr g"
    and pg: "put_generation w g (g\<lparr>wg_phase := Generation_active, wg_rowVersion := wg_rowVersion g + 1, wg_updatedAt := now,
        wg_activeWorkerLaunchId := Some (wl_launchId l), wg_leaseEpoch := Some (run_leaseEpoch a + 1)\<rparr>) = Inr w1"
      (is "put_generation w g ?g = _")
    and pl: "put_launch idh w1 l (activated_launch l (run_leaseEpoch a + 1) t now) = Inr w2" (is "put_launch idh w1 l ?l = _")
    and u: "update_run_row w2 (run_id a)
         (\<lambda>r'. run_status r' = Run_queued \<and> run_revision r' = run_revision a \<and> run_leaseEpoch r' = run_leaseEpoch a \<and>
            run_activeWorkerLaunchId r' = None \<and> \<not> run_cancelRequested r' \<and> run_stopIntentRef r' = None)
         (\<lambda>r'. r'\<lparr>run_status := Run_running, run_revision := run_revision r' + 1, run_leaseEpoch := run_leaseEpoch a + 1,
            run_activeWorkerLaunchId := Some (wl_launchId l), run_updatedAt := now\<rparr>) now = Inr (a', w')"
  from read_launch_Inr [OF l] have li: "l \<in> set (db_launches w)" by simp
  from ok li obtain b where b: "db_runs w (wl_runId l) = Some b" "run_id b = wl_runId l" "holders_of w (wl_runId l) = []"
    by (rule powerless_launch_current) (simp add: p)
  with a have i: "run_id a = wl_runId l" by simp
  have w2: "db_runs w2 = db_runs w" "db_fence w2 = db_fence w" "db_generations w2 = db_generations w1"
    using pg pl by (simp_all add: put_generation_Inr put_launch_Inr)
  have "db_runs w2 (run_id a) = Some a" using a i w2 by simp
  from update_run_row_at [OF u this] obtain es where w': "w' = w2\<lparr>db_runs := (db_runs w2)(run_id a \<mapsto> a'), db_events := es\<rparr>"
    and a': "a' = a\<lparr>run_status := Run_running, run_revision := run_revision a + 1, run_leaseEpoch := run_leaseEpoch a + 1,
            run_activeWorkerLaunchId := Some (wl_launchId l), run_updatedAt := now\<rparr>" by blast
  have k: "no_lease l" by (rule powerless_no_lease [OF known_launch [OF ok li]]) (simp add: p)
  have gin: "g \<in> set (db_generations w)" "wl_workspaceGenerationRef l = Some (wg_generationRef g)"
    using read_by_ref_Inr [OF g] by simp_all
  have gr: "wg_runId g = wl_runId l" by (rule bound_generation_run [OF ok li gin])
  have lq: "wl_quiesceId ?l = None" using put_launch_row [OF pl] by (simp add: activated_launch_def launch_row_ok_def bound_launch_ok_def)
  have gq: "wg_quiesceId ?g = None" using put_generation_phase [OF pg] by simp
  have nr: "wl_retiredAt ?l = None"
    using put_launch_row [OF pl] by (simp add: activated_launch_def launch_row_ok_def bound_launch_ok_def no_retirement_def)
  have tb: "t \<le> now + max_lease_extension_ms" using initial_lease_end_bound [OF t(1) d] .
  show "lease_ok idh ids past w'"
  proof (rule move_all [OF ok pg pl _ _ _ _ _ a gr, where a' = a'])
    show "epoch_moves l ?l a a'" using k by (simp add: epoch_moves_def activated_launch_def no_lease_def a')
    have held: "held_lease ?l ?g a' (accepted_at w)"
      using lq gq gin(2) t(2) tb now
      by (simp add: held_lease_def matches_holder_def activated_launch_def lease_bounded_def a')
    then show "current_ok (unretired [?l]) (filter holds_workspace [?g]) a' (accepted_at w)"
      using nr by (simp add: current_ok_def unretired_def holds_workspace_def activated_launch_def)
    show "db_runs w' = (db_runs w)(wl_runId l \<mapsto> a')" by (simp add: w' i w2)
    show "db_fence w' = db_fence w" by (simp add: w' w2)
  qed (simp_all add: w' p b a' activated_launch_def)
qed

lemma renew_row_ok:
  assumes r: "renew_row idh owner i now w = Inr (x, w')" and ok: "lease_ok idh ids past w" and now: "accepted_at w = now"
  shows "lease_ok idh ids past w'"
proof -
  from r obtain l a where l: "read_required_worker_launch (db_launches w) (rn_launchId i) = Inr l"
    and p: "wl_phase l = Launch_activated" "wl_runId l = rn_runId i" and a: "db_runs w (rn_runId i) = Some a"
    and t: "rn_newLeaseExpiresAt i \<le> now + max_lease_extension_ms" "rn_newLeaseExpiresAt i \<le> run_deadlineAt a"
    and put: "put_launch idh w l (l\<lparr>wl_leaseVersion := Some (rn_expectedLeaseVersion i + 1),
      wl_leaseExpiresAt := Some (rn_newLeaseExpiresAt i)\<rparr>) = Inr w'" (is "put_launch idh w l ?l = _")
    by (auto simp: renew_row_def and_then_Inr Let_def read_run_Inr not_less)
  from read_launch_Inr [OF l] have k: "launch_known idh ids l" by (intro known_launch [OF ok]) simp
  note nr = activated_row_facts(4) [OF k p(1)]
  show ?thesis
  proof (rule move_launch [OF ok put])
    fix b assume b: "db_runs w (wl_runId l) = Some b" and c: "current_ok [l] (holders_of w (wl_runId l)) b (accepted_at w)"
    from b a p(2) have "b = a" by simp
    moreover from c p(1) obtain g where "holders_of w (wl_runId l) = [g]" "held_lease l g b (accepted_at w)"
      by (auto simp: current_ok_def)
    ultimately show "current_ok (unretired [?l]) (holders_of w (wl_runId l)) b (accepted_at w)"
      using t p(1) now nr by (simp add: current_ok_def unretired_def held_lease_def matches_holder_def lease_bounded_def)
  qed (use p known_ref [OF k] in auto)
qed

text \<open>A launch and its generation go on together, or end together.\<close>

lemma held_rows:
  assumes ok: "lease_ok idh ids past w" and l: "l \<in> set (db_launches w)" and p: "wl_phase l = Launch_activated"
    and g: "read_generation_by_ref (db_generations w) (wl_workspaceGenerationRef l) = Inr g"
  obtains a where "db_runs w (wl_runId l) = Some a" "run_id a = wl_runId l" "holders_of w (wl_runId l) = [g]"
    "held_lease l g a (accepted_at w)" "wg_runId g = wl_runId l" "g \<in> set (db_generations w)"
proof -
  from ok l p obtain a h where a: "db_runs w (wl_runId l) = Some a" "run_id a = wl_runId l" "holders_of w (wl_runId l) = [h]"
    and c: "held_lease l h a (accepted_at w)" by (rule activated_launch_current)
  from c have m: "matches_holder l h" by (simp add: held_lease_def)
  have h: "g = h" by (rule bound_is_held [OF ok a(3) m g])
  have "h \<in> set (holders_of w (wl_runId l))" using a(3) by simp
  then have "wg_runId h = wl_runId l" "h \<in> set (db_generations w)" unfolding holders_in_tables by simp_all
  with a c h that show thesis by simp
qed

lemma quiescing_ok:
  assumes ok: "lease_ok idh ids past w" and l: "l \<in> set (db_launches w)" and p: "wl_phase l = Launch_activated"
    and g: "read_generation_by_ref (db_generations w) (wl_workspaceGenerationRef l) = Inr g"
    and pg: "put_generation w g g' = Inr w1" and pl: "put_launch idh w1 l l' = Inr w'"
    and g': "wg_generationRef g' = wg_generationRef g" "wg_activeWorkerLaunchId g' = wg_activeWorkerLaunchId g"
      "wg_leaseEpoch g' = wg_leaseEpoch g" "holds_workspace g'"
    and l': "l' = l\<lparr>wl_generationWriteState := Some (wg_phase g'), wl_quiesceId := wg_quiesceId g'\<rparr>"
  shows "lease_ok idh ids past w'"
proof -
  from ok l p g obtain a where a: "db_runs w (wl_runId l) = Some a" "run_id a = wl_runId l" "holders_of w (wl_runId l) = [g]"
    and h: "held_lease l g a (accepted_at w)" and gr: "wg_runId g = wl_runId l" by (rule held_rows)
  have nr: "wl_retiredAt l = None" by (rule activated_row_facts(4) [OF known_launch [OF ok l] p])
  have h': "held_lease l' g' a (accepted_at w)"
    using h g' by (simp add: held_lease_def matches_holder_def lease_bounded_def l')
  show ?thesis
  proof (rule move_all [OF ok pg pl, where a = a])
    show "db_runs w' = (db_runs w)(wl_runId l \<mapsto> a)"
      using pg pl a(1) by (simp add: put_generation_Inr put_launch_Inr fun_upd_idem)
    show "current_ok (unretired [l']) (filter holds_workspace [g']) a (accepted_at w)"
      using h' g'(4) nr p by (simp add: current_ok_def unretired_def l')
    show "db_generations w' = db_generations w'" "db_launches w' = db_launches w'" by simp_all
    show "db_fence w' = db_fence w" using pg pl by (simp add: put_generation_Inr put_launch_Inr)
  qed (use p a gr g' in \<open>simp_all add: l' epoch_moves_def\<close>)
qed

lemma revocation_row_ok:
  assumes r: "revocation_row idh launchId v ver q now w = Inr (x, w')" and ok: "lease_ok idh ids past w"
  shows "lease_ok idh ids past w'"
proof -
  from r obtain l g w1 where l: "read_required_worker_launch (db_launches w) launchId = Inr l"
    and p: "wl_phase l = Launch_activated"
    and g: "read_generation_by_ref (db_generations w) (wl_workspaceGenerationRef l) = Inr g"
    and pg: "put_generation w g (g\<lparr>wg_phase := Generation_revoking, wg_rowVersion := wg_rowVersion g + 1, wg_updatedAt := now,
                wg_quiesceId := Some q\<rparr>) = Inr w1"
    and pl: "put_launch idh w1 l (l\<lparr>wl_generationWriteState := Some Generation_revoking, wl_quiesceId := Some q\<rparr>) = Inr w'"
    by (auto simp: revocation_row_def and_then_Inr Let_def)
  from read_launch_Inr [OF l] have li: "l \<in> set (db_launches w)" by simp
  show ?thesis by (rule quiescing_ok [OF ok li p g pg pl]) (simp_all add: holds_workspace_def)
qed

lemma checkpointing_row_ok:
  assumes r: "checkpointing_row idh launchId v ver q now w = Inr (x, w')" and ok: "lease_ok idh ids past w"
  shows "lease_ok idh ids past w'"
proof -
  from r obtain l g w1 where l: "read_required_worker_launch (db_launches w) launchId = Inr l"
    and p: "wl_phase l = Launch_activated" and q: "wl_quiesceId l = Some q" "wg_quiesceId g = Some q"
    and g: "read_generation_by_ref (db_generations w) (wl_workspaceGenerationRef l) = Inr g"
    and pg: "put_generation w g (g\<lparr>wg_phase := Generation_checkpointing, wg_rowVersion := wg_rowVersion g + 1,
                wg_updatedAt := now\<rparr>) = Inr w1"
    and pl: "put_launch idh w1 l (l\<lparr>wl_generationWriteState := Some Generation_checkpointing\<rparr>) = Inr w'"
    by (auto simp: checkpointing_row_def and_then_Inr Let_def)
  from read_launch_Inr [OF l] have li: "l \<in> set (db_launches w)" by simp
  show ?thesis by (rule quiescing_ok [OF ok li p g pg pl]) (simp_all add: holds_workspace_def q)
qed

text \<open>The lease ends: the launch is retired, the generation is held no more, the run is idle.\<close>

lemma ending_ok:
  assumes ok: "lease_ok idh ids past w" and pg: "put_generation w g g' = Inr w1" and pl: "put_launch idh w1 l l' = Inr w2"
    and w': "db_launches w' = db_launches w2" "db_generations w' = db_generations w2" "db_fence w' = db_fence w"
      "db_runs w' = (db_runs w)(wl_runId l \<mapsto> a')"
    and l: "wl_phase l \<in> {Launch_activated, Launch_reconciling}" and a: "db_runs w (wl_runId l) = Some a"
    and g: "wg_runId g = wl_runId l" "wg_generationRef g' = wg_generationRef g" "holders_of w (wl_runId l) = [g]"
    and l': "wl_phase l' = Launch_retired" "wl_leaseEpoch l' = wl_leaseEpoch l"
      "wl_workspaceGenerationRef l' = wl_workspaceGenerationRef l"
    and g': "\<not> holds_workspace g'" and a': "run_id a' = run_id a" "run_leaseEpoch a' = run_leaseEpoch a" "idle a'"
  shows "lease_ok idh ids past w'"
proof (rule move_all [OF ok pg pl w'])
  have "wl_retiredAt l' \<noteq> None" using pl l'(1) by (simp add: put_launch_Inr worker_launches_validate_update_def)
  then show "current_ok (unretired [l']) (filter holds_workspace [g']) a' (accepted_at w)"
    using g' a'(3) by (auto simp: current_ok_def unretired_def)
  show "epoch_moves l l' a a'" using l' a' by (simp add: epoch_moves_def)
qed (use l a g l' a' in auto)

lemma seal_row_Inr:
  assumes "seal_row idh sc i now sampled w = Inr (x, w')"
  obtains l a g g' l' w1 w2 w3 a' c where "read_required_worker_launch (db_launches w) (sl_launchId i) = Inr l"
    "wl_phase l = Launch_activated" "db_runs w (wl_runId l) = Some a" "run_status a = Run_running"
    "read_generation_by_ref (db_generations w) (wl_workspaceGenerationRef l) = Inr g"
    "add_checkpoint w c = Inr w1"
    "put_generation w1 g g' = Inr w2" "g' = sealed_generation g (sn_treeDigest (sa_snapshot (sc_artifacts sc))) (sl_snapshotEvidenceRef i)
       (sn_evidenceDigest (sa_snapshot (sc_artifacts sc))) now"
    "put_launch idh w2 l l' = Inr w3" "l' = sealed_launch l (case sc_proof sc of None \<Rightarrow> sl_retirementEvidenceRef i | Some st \<Rightarrow> rt_finalRef st) now"
    "update_run_row w3 (run_id a)
         (\<lambda>r'. run_status r' = Run_running \<and> run_revision r' = run_revision a \<and>
            run_activeWorkerLaunchId r' = Some (wl_launchId l))
         (\<lambda>r'. r'\<lparr>run_status := Run_queued, run_revision := run_revision r' + 1, run_activeWorkerLaunchId := None,
            run_latestCheckpointId := sl_checkpointId i, run_updatedAt := now\<rparr>) now = Inr (a', w')"
proof -
  from assms obtain l a g where g: "seal_guards sc i now sampled w = Inr (l, a, g)"
    by (auto simp: seal_row_def and_then_Inr)
  from g have f: "read_required_worker_launch (db_launches w) (sl_launchId i) = Inr l"
    "wl_phase l = Launch_activated" "db_runs w (wl_runId l) = Some a" "run_status a = Run_running"
    "read_generation_by_ref (db_generations w) (wl_workspaceGenerationRef l) = Inr g"
    by (auto simp: seal_guards_def and_then_Inr read_run_Inr Let_def)
  show thesis
    using assms that [OF f] unfolding seal_row_def Let_def g
    by (clarsimp simp: and_then_Inr split: prod.splits)
qed

lemma add_checkpoint_same:
  "add_checkpoint w c = Inr w' \<Longrightarrow> db_launches w' = db_launches w \<and> db_generations w' = db_generations w \<and>
     db_runs w' = db_runs w \<and> db_fence w' = db_fence w"
  by (auto simp: add_checkpoint_def split: if_splits)

lemma lease_ok_checkpoint:
  assumes "lease_ok idh ids past w" and "add_checkpoint w c = Inr w'"
  shows "lease_ok idh ids past w'"
  by (rule lease_ok_same [OF assms(1)]) (use add_checkpoint_same [OF assms(2)] in \<open>simp_all add: accepted_at_def\<close>)

lemma seal_row_ok:
  assumes r: "seal_row idh sc i now sampled w = Inr (x, w')" and ok: "lease_ok idh ids past w"
  shows "lease_ok idh ids past w'"
  using r
proof (rule seal_row_Inr)
  fix l a g g' l' w1 w2 w3 a' c
  assume l: "read_required_worker_launch (db_launches w) (sl_launchId i) = Inr l" and p: "wl_phase l = Launch_activated"
    and a: "db_runs w (wl_runId l) = Some a"
    and g: "read_generation_by_ref (db_generations w) (wl_workspaceGenerationRef l) = Inr g"
    and c: "add_checkpoint w c = Inr w1"
    and pg: "put_generation w1 g g' = Inr w2" and g': "g' = sealed_generation g (sn_treeDigest (sa_snapshot (sc_artifacts sc)))
       (sl_snapshotEvidenceRef i) (sn_evidenceDigest (sa_snapshot (sc_artifacts sc))) now"
    and pl: "put_launch idh w2 l l' = Inr w3"
    and l': "l' = sealed_launch l (case sc_proof sc of None \<Rightarrow> sl_retirementEvidenceRef i | Some st \<Rightarrow> rt_finalRef st) now"
    and u: "update_run_row w3 (run_id a)
         (\<lambda>r'. run_status r' = Run_running \<and> run_revision r' = run_revision a \<and>
            run_activeWorkerLaunchId r' = Some (wl_launchId l))
         (\<lambda>r'. r'\<lparr>run_status := Run_queued, run_revision := run_revision r' + 1, run_activeWorkerLaunchId := None,
            run_latestCheckpointId := sl_checkpointId i, run_updatedAt := now\<rparr>) now = Inr (a', w')"
  note cs = add_checkpoint_same [OF c]
  have ok1: "lease_ok idh ids past w1" by (rule lease_ok_checkpoint [OF ok c])
  from read_launch_Inr [OF l] have li: "l \<in> set (db_launches w1)" by (simp add: cs)
  have g1: "read_generation_by_ref (db_generations w1) (wl_workspaceGenerationRef l) = Inr g" using g cs by simp
  from ok1 li p g1 obtain b where b: "db_runs w1 (wl_runId l) = Some b" "run_id b = wl_runId l" "holders_of w1 (wl_runId l) = [g]"
    and gr: "wg_runId g = wl_runId l" by (rule held_rows)
  from b a cs have i: "run_id a = wl_runId l" by simp
  have w3: "db_runs w3 = db_runs w1" "db_fence w3 = db_fence w1" using pg pl by (simp_all add: put_generation_Inr put_launch_Inr)
  have "db_runs w3 (run_id a) = Some a" using a i w3 cs by simp
  from update_run_row_at [OF u this] obtain es where w': "w' = w3\<lparr>db_runs := (db_runs w3)(run_id a \<mapsto> a'), db_events := es\<rparr>"
    and a': "a' = a\<lparr>run_status := Run_queued, run_revision := run_revision a + 1, run_activeWorkerLaunchId := None,
            run_latestCheckpointId := sl_checkpointId i, run_updatedAt := now\<rparr>" by blast
  show "lease_ok idh ids past w'"
    by (rule ending_ok [OF ok1 pg pl _ _ _ _ _ b(1) gr _ b(3), where a' = a'])
      (use p a b i in \<open>simp_all add: w' w3 cs g' l' a' sealed_generation_def sealed_launch_def holds_workspace_def idle_def\<close>)
qed

lemma commit_tool_checkpoint_ok:
  assumes c: "commit_tool_checkpoint idh r l g sn st ref current createdAt sampled w = Inr w'" and ok: "lease_ok idh ids past w"
    and p: "wl_phase l = Launch_activated" and cur: "db_runs w (run_id r) = Some current"
  shows "lease_ok idh ids past w'"
proof -
  from c obtain w1 w2 where ptr: "run_activeWorkerLaunchId current = Some (wl_launchId l)"
    and l: "read_required_worker_launch (db_launches w) (wl_launchId l) = Inr l"
    and g: "read_generation_by_ref (db_generations w) (wl_workspaceGenerationRef l) = Inr g"
    and pg: "put_generation w g (sealed_generation (g\<lparr>wg_runId := run_id r\<rparr>) (sn_treeDigest sn) ref (sn_evidenceDigest sn) createdAt) = Inr w1"
    and pl: "put_launch idh w1 l (sealed_launch l (rt_finalRef st) createdAt) = Inr w2"
    and w': "w' = (case db_runs w2 (run_id r) of
         None \<Rightarrow> w2
       | Some r' \<Rightarrow> w2\<lparr>db_runs := (db_runs w2)(run_id r \<mapsto> r'\<lparr>run_status := Run_queued, run_activeWorkerLaunchId := None\<rparr>)\<rparr>)"
    by (auto simp: commit_tool_checkpoint_def and_then_Inr)
  from read_launch_Inr [OF l] have li: "l \<in> set (db_launches w)" by simp
  from pointed_launch [OF ok cur ptr li] have rr: "wl_runId l = run_id r" by simp
  from ok li p g obtain b where b: "db_runs w (wl_runId l) = Some b" "run_id b = wl_runId l" "holders_of w (wl_runId l) = [g]"
    and gr: "wg_runId g = wl_runId l" by (rule held_rows)
  have w2: "db_runs w2 = db_runs w" "db_fence w2 = db_fence w" using pg pl by (simp_all add: put_generation_Inr put_launch_Inr)
  have w'': "w' = w2\<lparr>db_runs := (db_runs w2)(run_id r \<mapsto> current\<lparr>run_status := Run_queued, run_activeWorkerLaunchId := None\<rparr>)\<rparr>"
    using cur by (simp add: w' w2)
  show ?thesis
    by (rule ending_ok [OF ok pg pl _ _ _ _ _ b(1) gr _ b(3),
        where a' = "current\<lparr>run_status := Run_queued, run_activeWorkerLaunchId := None\<rparr>"])
      (use p b cur rr in \<open>simp_all add: w'' w2 sealed_generation_def sealed_launch_def holds_workspace_def idle_def\<close>)
qed

section \<open>Recovery\<close>

lemma unchanged_cut_Inr:
  assumes "unchanged_cut rc l g w = Inr u"
  shows "db_runs w (run_id (rc_run rc)) = Some (rc_run rc) \<and> l \<in> set (db_launches w) \<and> g \<in> set (db_generations w) \<and>
    read_generation_by_ref (db_generations w) (Some (wg_generationRef g)) = Inr g"
  using assms by (auto simp: unchanged_cut_def and_then_Inr read_run_Inr dest: read_rows)

lemma recovery_subjects_Inr:
  assumes "recovery_subjects rc = Inr (l, g, frontier, identity, containment)"
  shows "wl_phase l = Launch_activated \<and> run_activeWorkerLaunchId (rc_run rc) = Some (wl_launchId l) \<and>
    wl_workspaceGenerationRef l = Some (wg_generationRef g) \<and> wl_workerIdentityDigest l = Some identity \<and>
    wl_processContainmentRef l = Some containment"
  using assms by (auto simp: recovery_subjects_def Let_def find_Some_iff split: option.splits if_splits)

lemma begin_recovery_row_ok:
  assumes r: "begin_recovery_row idh rc l g wait now w = Inr (x, w')" and ok: "lease_ok idh ids past w"
    and s: "recovery_subjects rc = Inr (l, g, frontier, identity, containment)"
    and wait: "wait = worker_wait rc l g frontier identity containment witnesses created"
    and cut: "unchanged_cut rc l g w = Inr ()"
  shows "lease_ok idh ids past w'"
proof -
  note sub = recovery_subjects_Inr [OF s]
  note cut = unchanged_cut_Inr [OF cut]
  let ?g = "fenced_generation g wait (length (rc_journal rc)) now"
  let ?l = "l\<lparr>wl_phase := Launch_reconciling, wl_generationWriteState := Some Generation_fenced_reconciling\<rparr>"
  from r obtain w1 w2 where pg: "put_generation w g ?g = Inr w1" and pl: "put_launch idh w1 l ?l = Inr w2"
    and u: "run_waits w2 (run_id (rc_run rc)) (\<lambda>r. r\<lparr>run_status := Run_waiting, run_waitingReason := Some Waiting_reconciliation,
         run_waitingOnRef := Some (Wait_artifact wait), run_activeWorkerLaunchId := None\<rparr>) now = Inr (x, w')"
    by (auto simp: begin_recovery_row_def and_then_Inr)
  have li: "l \<in> set (db_launches w)" and p: "wl_phase l = Launch_activated" using cut sub by simp_all
  have rr: "wl_runId l = run_id (rc_run rc)" using pointed_launch [OF ok _ _ li] cut sub by blast
  have g: "read_generation_by_ref (db_generations w) (wl_workspaceGenerationRef l) = Inr g" using cut sub by simp
  from ok li p g obtain a where a: "db_runs w (wl_runId l) = Some a" "run_id a = wl_runId l" "holders_of w (wl_runId l) = [g]"
    and h: "held_lease l g a (accepted_at w)" and gr: "wg_runId g = wl_runId l" by (rule held_rows)
  have ra: "rc_run rc = a" using a(1) cut rr by simp
  have w2: "db_runs w2 = db_runs w" "db_fence w2 = db_fence w" using pg pl by (simp_all add: put_generation_Inr put_launch_Inr)
  from run_waits_Inr [OF u] a(1) rr w2 ra obtain es where
    x: "x = a\<lparr>run_status := Run_waiting, run_waitingReason := Some Waiting_reconciliation,
         run_waitingOnRef := Some (Wait_artifact wait), run_activeWorkerLaunchId := None, run_revision := run_revision a + 1,
         run_updatedAt := now\<rparr>"
    and w': "w' = w2\<lparr>db_runs := (db_runs w2)(run_id a \<mapsto> x), db_events := es\<rparr>" by auto
  have nr: "wl_retiredAt l = None" by (rule activated_row_facts(4) [OF known_launch [OF ok li] p])
  have wn: "wait_names wait ?l ?g x"
    using sub h ra by (simp add: wait worker_wait_def wait_names_def x fenced_generation_def held_lease_def)
  have f: "fenced_lease ?l ?g x"
    using h wn by (simp add: fenced_lease_def held_lease_def matches_holder_def fenced_generation_def idle_def x)
  show ?thesis
  proof (rule move_all [OF ok pg pl, where a = a and a' = x])
    show "current_ok (unretired [?l]) (filter holds_workspace [?g]) x (accepted_at w)"
      using f nr by (simp add: current_ok_def unretired_def holds_workspace_def fenced_generation_def)
    show "db_runs w' = (db_runs w)(wl_runId l \<mapsto> x)" using a(2) by (simp add: w' w2)
  qed (use p a gr in \<open>simp_all add: w' w2 fenced_generation_def epoch_moves_def x\<close>)
qed

text \<open>The launch and the generation of a fence, found from either.\<close>

lemma fenced_rows:
  assumes ok: "lease_ok idh ids past w" and g: "g \<in> set (db_generations w)" "wg_phase g = Generation_fenced_reconciling"
  obtains a l where "db_runs w (wg_runId g) = Some a" "run_id a = wg_runId g" "holders_of w (wg_runId g) = [g]"
    "l \<in> set (db_launches w)" "wl_runId l = wg_runId g" "wl_phase l = Launch_reconciling" "fenced_lease l g a"
proof -
  have "holds_workspace g" using g(2) by (simp add: holds_workspace_def)
  with ok g(1) obtain a l where a: "db_runs w (wg_runId g) = Some a" "run_id a = wg_runId g" "holders_of w (wg_runId g) = [g]"
    and l: "l \<in> set (db_launches w)" "wl_runId l = wg_runId g" "wl_phase l \<in> {Launch_activated, Launch_reconciling}"
    and m: "matches_holder l g" and f: "wl_phase l = Launch_reconciling \<longrightarrow> fenced_lease l g a" by (rule holding_generation)
  have "wl_phase l \<noteq> Launch_activated"
  proof
    assume p: "wl_phase l = Launch_activated"
    with known_launch [OF ok l(1)] have "wl_generationWriteState l \<noteq> Some Generation_fenced_reconciling"
      by (auto simp: launch_known_def launch_row_ok_def bound_launch_ok_def)
    with m g(2) show False by (simp add: matches_holder_def)
  qed
  with a l f that show thesis by auto
qed

lemma probe_state_pending: "probe_state_ok (Probe_pending n t e) \<Longrightarrow> 0 \<le> n \<and> n \<le> 7"
  by simp

lemma after_timeout_ok:
  assumes "after_timeout n t e = Inr st"
  shows "probe_state_ok st"
  using assms by (auto simp: after_timeout_def and_then_Inr split: if_splits)

lemma replace_wait_row_ok:
  assumes r: "replace_wait_row rc g wait' sampled now w = Inr (x, w')" and ok: "lease_ok idh ids past w"
    and old: "run_waitingOnRef (rc_run rc) = Some (Wait_artifact wait)"
    and new: "wait' = with_probe_state wait st" "probe_state_ok (ww_probeState wait) \<Longrightarrow> probe_state_ok st"
    and g: "wg_phase g = Generation_fenced_reconciling" "wg_runId g = run_id (rc_run rc)"
    and cut: "unchanged_cut rc k g w = Inr ()"
  shows "lease_ok idh ids past w'"
proof -
  note cut = unchanged_cut_Inr [OF cut]
  let ?g = "g\<lparr>wg_rowVersion := wg_rowVersion g + 1, wg_updatedAt := now,
         wg_waitingSubjectRef := Some (Wait_artifact wait'), wg_waitingSubjectDigest := Some (Wait_artifact wait')\<rparr>"
  from r obtain w1 where pg: "put_generation w g ?g = Inr w1"
    and u: "run_waits w1 (run_id (rc_run rc)) (\<lambda>r. r\<lparr>run_waitingOnRef := Some (Wait_artifact wait')\<rparr>) now = Inr (x, w')"
    by (auto simp: replace_wait_row_def and_then_Inr)
  from cut have gi: "g \<in> set (db_generations w)" by simp
  from ok gi g(1) obtain a l where a: "db_runs w (wg_runId g) = Some a" "run_id a = wg_runId g" "holders_of w (wg_runId g) = [g]"
    and l: "l \<in> set (db_launches w)" "wl_runId l = wg_runId g" "wl_phase l = Launch_reconciling"
    and f: "fenced_lease l g a" by (rule fenced_rows)
  have ra: "rc_run rc = a" using a(1) cut g(2) by simp
  with f old have wn: "wait_names wait l g a" by (simp add: fenced_lease_def)
  have w1: "db_runs w1 = db_runs w" "db_fence w1 = db_fence w" "db_launches w1 = db_launches w"
    using pg by (simp_all add: put_generation_Inr)
  from run_waits_Inr [OF u] a(1) g(2) w1 ra obtain es where
    x: "x = a\<lparr>run_waitingOnRef := Some (Wait_artifact wait'), run_revision := run_revision a + 1, run_updatedAt := now\<rparr>"
    and w': "w' = w1\<lparr>db_runs := (db_runs w1)(run_id a \<mapsto> x), db_events := es\<rparr>" by auto
  have wn': "wait_names wait' l ?g x"
    using wn new by (simp add: wait_names_def with_probe_state_def x)
  have f': "fenced_lease l ?g x"
    using f wn' by (simp add: fenced_lease_def matches_holder_def idle_def x)
  show ?thesis
  proof (rule move_wait [OF ok pg, where l = l and a = a and a' = x])
    show "current_ok [l] (filter holds_workspace [?g]) x (accepted_at w)"
      using f' l(3) g(1) by (simp add: current_ok_def holds_workspace_def)
  qed (use l a in \<open>simp_all add: w' w1 x\<close>)
qed

lemma fenced_subject_Inr:
  assumes "fenced_subject rc wait = Inr g"
  shows "g \<in> set (rc_generations rc) \<and> wg_phase g = Generation_fenced_reconciling"
  using assms by (auto simp: fenced_subject_def find_Some_iff split: option.splits if_splits)

lemma complete_row_ok:
  assumes r: "complete_row idh cm ob qref qdigest wref now w = Inr (x, w')" and ok: "lease_ok idh ids past w"
    and cut: "require_current_cut q owner cm now w0 = Inr ()" and w0: "db_launches w0 = db_launches w"
      "db_generations w0 = db_generations w" "db_runs w0 = db_runs w"
    and l: "first_launch (cm_cut cm) = Inr (cm_launch cm)" and g: "fenced_subject (cm_cut cm) wait = Inr (cm_generation cm)"
  shows "lease_ok idh ids past w'"
proof -
  define rc where "rc = cm_cut cm"
  define k where "k = cm_launch cm"
  define h where "h = cm_generation cm"
  let ?r = "run_id (rc_run rc)"
  let ?g = "quarantined_generation h qref qdigest (wo_observedState ob) now"
  let ?l = "k\<lparr>wl_phase := Launch_retired, wl_retiredAt := Some now, wl_retirementEvidenceRef := Some wref\<rparr>"
  from r obtain w1 w2 where pg: "put_generation w h ?g = Inr w1" and pl: "put_launch idh w1 k ?l = Inr w2"
    and u: "run_waits w2 ?r (\<lambda>r. r\<lparr>run_status := Run_queued, run_waitingReason := None, run_waitingOnRef := None\<rparr>) now = Inr (x, w')"
    by (auto simp: complete_row_def and_then_Inr rc_def k_def h_def)
  from cut have "same_tables w0 rc = Inr ()" by (auto simp: require_current_cut_def and_then_Inr Let_def rc_def)
  then have rows: "db_runs w ?r = Some (rc_run rc)" "unretired_launches (db_launches w) ?r = rc_launches rc"
    "generations_of_run (db_generations w) ?r = rc_generations rc"
    using w0 by (auto simp: same_tables_def and_then_Inr read_run_Inr)
  have "k \<in> set (rc_launches rc)" using l by (auto simp: first_launch_def rc_def k_def split: list.splits)
  then have ki: "k \<in> set (db_launches w)" "wl_runId k = ?r" "wl_retiredAt k = None"
    unfolding rows(2) [symmetric] by (auto simp: unretired_launches_def)
  have "h \<in> set (rc_generations rc)" and hp: "wg_phase h = Generation_fenced_reconciling"
    using fenced_subject_Inr [OF g] by (simp_all add: rc_def h_def)
  then have hi: "h \<in> set (db_generations w)" "wg_runId h = ?r"
    unfolding rows(3) [symmetric] by (auto simp: generations_of_run_def)
  from ok hi(1) hp obtain a m where a: "db_runs w (wg_runId h) = Some a" "run_id a = wg_runId h" "holders_of w (wg_runId h) = [h]"
    and m: "m \<in> set (db_launches w)" "wl_runId m = wg_runId h" "wl_phase m = Launch_reconciling"
    and f: "fenced_lease m h a" by (rule fenced_rows)
  have kp: "wl_phase k \<noteq> Launch_retired" using known_launch [OF ok ki(1)] ki(3) by (simp add: launch_known_def)
  from ok ki(1) kp obtain b where "unretired (launches_of w (wl_runId k)) = [k]" by (rule current_launch)
  moreover have "wl_retiredAt m = None" using known_launch [OF ok m(1)] m(3) by (simp add: launch_known_def)
  with m have "m \<in> set (unretired (launches_of w (wl_runId k)))" using hi ki by (simp add: unretired_def launches_of_def)
  ultimately have mk: "m = k" by simp
  have w2: "db_runs w2 = db_runs w" "db_fence w2 = db_fence w" using pg pl by (simp_all add: put_generation_Inr put_launch_Inr)
  from run_waits_Inr [OF u] a(1) hi(2) w2 obtain es where
    x: "x = a\<lparr>run_status := Run_queued, run_waitingReason := None, run_waitingOnRef := None, run_revision := run_revision a + 1,
         run_updatedAt := now\<rparr>"
    and w': "w' = w2\<lparr>db_runs := (db_runs w2)(?r \<mapsto> x), db_events := es\<rparr>" by auto
  have ix: "idle x" using f by (simp add: x fenced_lease_def idle_def)
  show ?thesis
    by (rule ending_ok [OF ok pg pl, where a = a and a' = x])
      (use a hi ki m(3) mk ix in \<open>simp_all add: w' w2 x quarantined_generation_def holds_workspace_def\<close>)
qed

text \<open>The terminal plan leaves the run as it is, waiting but without a lease.\<close>

lemma commit_terminal_plan_ok:
  assumes c: "commit_terminal_plan idh owner tm observed now w = Inr w'" and ok: "lease_ok idh ids past w"
    and p: "wl_phase (tm_launch tm) = Launch_reconciling" and gp: "wg_phase (tm_generation tm) = Generation_fenced_reconciling"
    and same: "wl_runId (tm_launch tm) = wg_runId (tm_generation tm)"
  shows "lease_ok idh ids past w'"
proof -
  define l where "l = tm_launch tm"
  define g where "g = tm_generation tm"
  define q where "q = quarantined_generation g (tm_quarantineRef tm) (tm_quarantineDigest tm) (tm_observedState tm) now"
  define y where "y = q\<lparr>wg_rowVersion := wg_rowVersion g + 2, wg_phase := Generation_retired, wg_quarantineEvidence := (None, None),
                wg_observedState := None, wg_retirementEvidenceRef := Some (tm_retirementRef tm),
                wg_retirementEvidenceDigest := Some (tm_retirementDigest tm)\<rparr>"
  define l' where "l' = l\<lparr>wl_phase := Launch_retired, wl_retiredAt := Some now, wl_retirementEvidenceRef := Some (tm_wrapperRef tm)\<rparr>"
  from c obtain w1 w2 where pg: "put_generation w g q = Inr w1" and pg2: "put_generation w1 q y = Inr w2"
    and pl: "put_launch idh w2 l l' = Inr w'"
    by (auto simp: commit_terminal_plan_def and_then_Inr Let_def l_def g_def q_def y_def l'_def)
  \<comment> \<open>the second move of the generation and the move of the launch commute\<close>
  define v where "v = w1\<lparr>db_launches := replace_row l l' (db_launches w1)\<rparr>"
  have pl': "put_launch idh w1 l l' = Inr v" using pl pg2 by (auto simp: put_launch_Inr put_generation_Inr v_def)
  have pg': "put_generation v q y = Inr w'" using pg2 pl by (simp add: put_launch_Inr put_generation_Inr v_def)
  have li: "l \<in> set (db_launches w)" and gi: "g \<in> set (db_generations w)"
    using pg pl' by (simp_all add: put_launch_Inr put_generation_Inr)
  have gp': "wg_phase g = Generation_fenced_reconciling" using gp by (simp add: g_def)
  from ok gi gp' obtain a m where a: "db_runs w (wg_runId g) = Some a" "run_id a = wg_runId g" "holders_of w (wg_runId g) = [g]"
    and f: "fenced_lease m g a" by (rule fenced_rows)
  have v: "db_runs v = db_runs w" "db_fence v = db_fence w" using pg by (simp_all add: put_generation_Inr v_def)
  have "lease_ok idh ids past v"
    by (rule ending_ok [OF ok pg pl', where a = a and a' = a])
      (use a p same f in \<open>simp_all add: v fun_upd_idem l_def g_def l'_def q_def quarantined_generation_def holds_workspace_def fenced_lease_def\<close>)
  from move_generation [OF this pg'] show ?thesis
    by (simp add: y_def q_def quarantined_generation_def holds_workspace_def)
qed

end
