(* ===== verification/Lease_System.thy ===== *)
theory Lease_System
  imports Lease_Operations
begin

text \<open>
  Leases as a system: any sequence of the operations on launches and generations, on any inputs and at any times, with
  whatever the rest of the program does in between.  What an operation reads before its transaction may come from any
  earlier tables.  Its invariant is that of leases.
\<close>

section \<open>What the artifacts are taken to say\<close>

text \<open>\<open>ids\<close> decodes the artifact that identifies a generation; a closure of recovery holds rows of its run.\<close>

definition decodes :: "identities \<Rightarrow> artifact_ref \<Rightarrow> generation_identity kernel \<Rightarrow> bool" where
  "decodes ids ref identity \<longleftrightarrow> (\<forall>gi. identity = Inr gi \<longrightarrow> ids ref = Some gi)"

definition closure_of_run :: "(kernel_db \<Rightarrow> string \<Rightarrow> recovery_cut kernel) \<Rightarrow> bool" where
  "closure_of_run closure \<longleftrightarrow>
     (\<forall>w r rc. closure w r = Inr rc \<longrightarrow> run_id (rc_run rc) = r \<and> (\<forall>g\<in>set (rc_generations rc). wg_runId g = r))"

definition generation_of_run :: "identities \<Rightarrow> artifact_ref \<Rightarrow> string \<Rightarrow> bool" where
  "generation_of_run ids ref r \<longleftrightarrow> map_option gi_runId (ids ref) = Some r"

section \<open>Steps\<close>

inductive lease_step :: "identity_hash \<Rightarrow> identities \<Rightarrow> kernel_db \<Rightarrow> kernel_db \<Rightarrow> bool" for idh ids where
  register: "decodes ids ref identity \<Longrightarrow>
    register_workspace_generation closure w0 owner r ref digest identity state tree now w = (a, w') \<Longrightarrow> lease_step idh ids w w'"
| ready: "record_workspace_generation_preactivated w0 owner k v ref digest evidence state tree now w = (b, w') \<Longrightarrow>
    lease_step idh ids w w'"
| reserve: "(\<forall>r id. reserving r = Inr id \<longrightarrow> generation_of_run ids (ri_workspaceGenerationRef i) (ri_runId i)) \<Longrightarrow>
    reserve_worker_launch idh reserving w0 owner i binding now w = (c, w') \<Longrightarrow> lease_step idh ids w w'"
| preactivate: "record_worker_preactivated idh identified identity' w0 owner k digest containment now w = (c, w') \<Longrightarrow>
    lease_step idh ids w w'"
| activate: "activate_worker_lease idh owner k revision version duration now w = (d, w') \<Longrightarrow> lease_step idh ids w w'"
| activate_within_deadline: "activate_worker_lease_within_deadline idh owner k revision version now w = (d, w') \<Longrightarrow>
    lease_step idh ids w w'"
| renew: "renew_worker_lease idh owner ni now w = (c, w') \<Longrightarrow> lease_step idh ids w w'"
| revoke: "begin_generation_revocation idh owner k version v q now w = (e, w') \<Longrightarrow> lease_step idh ids w w'"
| checkpoint: "begin_generation_checkpoint idh owner k version v q now w = (e, w') \<Longrightarrow> lease_step idh ids w w'"
| seal: "seal_worker_generation idh contents proof refresh w0 owner si now sampled w = (f, w') \<Longrightarrow> lease_step idh ids w w'"
| tool_checkpoint: "prepare_tool_checkpoint proof' w0 owner r' = Inr (l, g, sn, st) \<Longrightarrow> db_runs w (run_id r') = Some current \<Longrightarrow>
    commit_tool_checkpoint idh r' l g sn st' ref current createdAt sampled w = Inr w' \<Longrightarrow> lease_step idh ids w w'"
| prepare: "begin_worker_preparation idh closure w0 owner pi now w = (c, w') \<Longrightarrow> lease_step idh ids w w'"
| directory: "(\<forall>a. authority = Inr a \<longrightarrow> decodes ids (fst a) identity) \<Longrightarrow>
    record_worker_preparation_generation idh w0 owner stateRoot k birth observed authority identity now w = (b', w') \<Longrightarrow>
    lease_step idh ids w w'"
| controller: "record_worker_preparation_controller idh w0 owner uid k birth' observed'
      (held :: worker_launch \<Rightarrow> unit kernel) publish reservation now w = (c, w') \<Longrightarrow> lease_step idh ids w w'"
| give_up: "retire_worker_preparation idh registered closure joins publish' w0 owner ti now w = (c, w') \<Longrightarrow> lease_step idh ids w w'"
| fence: "begin_worker_recovery idh digest' closure w0 owner ri sampled now w = (h, w') \<Longrightarrow> lease_step idh ids w w'"
| probe: "closure_of_run closure \<Longrightarrow> begin_worker_recovery_probe closure target nonce w0 owner ri sampled now w = (h, w') \<Longrightarrow>
    lease_step idh ids w w'"
| close: "closure_of_run closure \<Longrightarrow>
    close_worker_recovery_probe closure receipt dead timeout w0 owner ri sampled now w = (h, w') \<Longrightarrow> lease_step idh ids w w'"
| complete: "complete_worker_recovery_probe idh closure installed quiescent anchor retained death observe quarantine
      w0 w1 owner ri sampled checked now w = (h, w') \<Longrightarrow> lease_step idh ids w w'"
| abort: "retire_preactivation_launch idh inspect w0 w1 owner k checked now w = (h, w') \<Longrightarrow> lease_step idh ids w w'"
| retire: "retire_quarantined_generation closure gone gone' published w0 owner qi observedAt now w = (j, w') \<Longrightarrow>
    lease_step idh ids w w'"
| terminal: "terminal_subjects owner tm wait \<Longrightarrow> commit_terminal_plan idh owner tm seen now w = Inr w' \<Longrightarrow> lease_step idh ids w w'"
| other: "lease_elsewhere w w' \<Longrightarrow> lease_step idh ids w w'"

definition lease_start :: "kernel_db \<Rightarrow> bool" where
  "lease_start w \<longleftrightarrow> db_runs w = Map.empty \<and> db_launches w = [] \<and> db_generations w = []"

inductive lease_reachable :: "identity_hash \<Rightarrow> identities \<Rightarrow> kernel_db \<Rightarrow> bool" for idh ids where
  start: "lease_start w \<Longrightarrow> lease_reachable idh ids w"
| step: "lease_reachable idh ids w \<Longrightarrow> lease_step idh ids w w' \<Longrightarrow> lease_reachable idh ids w'"

section \<open>Each operation keeps the invariant\<close>

lemma register_ok:
  assumes "register_workspace_generation closure w0 owner r ref digest identity state tree now w = (res, w')"
    and ok: "lease_ok idh ids past w" and "decodes ids ref identity"
  shows "lease_ok idh ids past w'"
proof (rule lease_ok_reads [OF assms(1) [unfolded register_workspace_generation_def] ok])
  fix x assume reads: "register_reads closure w0 r ref digest identity state tree = Inr x"
    and t: "(case x of (gi, recovery) \<Rightarrow> owned_transaction owner now (register_row r ref gi recovery now)) w = (res, w')"
  from reads obtain gi where "identity = Inr gi" "fst x = gi" "gi_runId gi = r"
    by (auto simp: register_reads_def and_then_Inr split: if_splits)
  with assms(3) have k: "map_option gi_runId (ids ref) = Some r" by (simp add: decodes_def)
  show ?thesis
    by (rule lease_ok_transaction [OF t [unfolded case_prod_beta owned_transaction_def] ok])
      (erule register_row_ok, assumption, rule k)
qed

lemma ready_ok:
  assumes "record_workspace_generation_preactivated w0 owner k v ref digest evidence state tree now w = (res, w')"
    and ok: "lease_ok idh ids past w"
  shows "lease_ok idh ids past w'"
proof (rule lease_ok_reads [OF assms(1) [unfolded record_workspace_generation_preactivated_def owned_transaction_def] ok])
  fix sn assume t: "fenced_transaction owner now (\<lambda>w. assert_active_state_owner w owner)
      (\<lambda>_. preactivate_generation_row k v ref sn now) w = (res, w')"
  show ?thesis by (rule lease_ok_transaction [OF t ok]) (rule preactivate_generation_row_ok)
qed

lemma reserve_ok:
  assumes "reserve_worker_launch idh closure w0 owner i binding now w = (res, w')" and ok: "lease_ok idh ids past w"
    and k: "\<forall>r id. closure r = Inr id \<longrightarrow> generation_of_run ids (ri_workspaceGenerationRef i) (ri_runId i)"
  shows "lease_ok idh ids past w'"
proof (rule lease_ok_reads [OF assms(1) [unfolded reserve_worker_launch_def owned_transaction_def] ok])
  fix identity assume reads: "reserve_reads closure w0 owner i = Inr identity"
    and t: "fenced_transaction owner now (\<lambda>w. assert_active_state_owner w owner)
      (\<lambda>_. reserve_row idh owner i binding identity now) w = (res, w')"
  from reads k have known: "map_option gi_runId (ids (ri_workspaceGenerationRef i)) = Some (ri_runId i)"
    by (auto simp: reserve_reads_def and_then_Inr generation_of_run_def)
  show ?thesis by (rule lease_ok_transaction [OF t ok]) (erule reserve_row_ok, assumption, rule known)
qed

lemma preactivate_ok:
  assumes "record_worker_preactivated idh closure identity w0 owner k digest containment now w = (res, w')"
    and ok: "lease_ok idh ids past w"
  shows "lease_ok idh ids past w'"
proof (rule lease_ok_reads [OF assms(1) [unfolded record_worker_preactivated_def owned_transaction_def] ok])
  fix wi assume t: "fenced_transaction owner now (\<lambda>w. assert_active_state_owner w owner)
      (\<lambda>_. preactivate_row idh owner k digest containment wi now) w = (res, w')"
  show ?thesis by (rule lease_ok_transaction [OF t ok]) (rule preactivate_row_ok)
qed

lemma activate_at_cut_ok:
  assumes "activate_worker_lease_at_current_cut idh owner k revision v duration now w = (res, w')" and ok: "lease_ok idh ids past w"
    and d: "\<And>t. duration = Some t \<Longrightarrow> t \<le> max_lease_extension_ms"
  shows "lease_ok idh ids past w'"
  by (rule lease_ok_transaction [OF assms(1) [unfolded activate_worker_lease_at_current_cut_def owned_transaction_def] ok])
    (rule activate_row_ok [OF _ _ _ d])

lemma activate_ok:
  assumes "activate_worker_lease idh owner k revision v duration now w = (res, w')" and ok: "lease_ok idh ids past w"
  shows "lease_ok idh ids past w'"
  using assms by (auto simp: activate_worker_lease_def dest: activate_at_cut_ok split: if_splits)

lemma activate_within_ok:
  assumes "activate_worker_lease_within_deadline idh owner k revision v now w = (res, w')" and ok: "lease_ok idh ids past w"
  shows "lease_ok idh ids past w'"
  using assms by (auto simp: activate_worker_lease_within_deadline_def dest: activate_at_cut_ok)

lemma renew_ok:
  assumes "renew_worker_lease idh owner i now w = (res, w')" and ok: "lease_ok idh ids past w"
  shows "lease_ok idh ids past w'"
  by (rule lease_ok_transaction [OF assms(1) [unfolded renew_worker_lease_def owned_transaction_def] ok]) (rule renew_row_ok)

lemma revoke_ok:
  assumes "begin_generation_revocation idh owner k version v q now w = (res, w')" and ok: "lease_ok idh ids past w"
  shows "lease_ok idh ids past w'"
  by (rule lease_ok_transaction [OF assms(1) [unfolded begin_generation_revocation_def owned_transaction_def] ok])
    (rule revocation_row_ok)

lemma checkpoint_ok:
  assumes "begin_generation_checkpoint idh owner k version v q now w = (res, w')" and ok: "lease_ok idh ids past w"
  shows "lease_ok idh ids past w'"
  by (rule lease_ok_transaction [OF assms(1) [unfolded begin_generation_checkpoint_def owned_transaction_def] ok])
    (rule checkpointing_row_ok)

lemma seal_ok:
  assumes "seal_worker_generation idh contents proof refresh w0 owner i now sampled w = (res, w')" and ok: "lease_ok idh ids past w"
  shows "lease_ok idh ids past w'"
proof (rule lease_ok_reads [OF assms(1) [unfolded seal_worker_generation_def owned_transaction_def] ok])
  fix sc assume t: "fenced_transaction owner now (\<lambda>w. assert_active_state_owner w owner)
      (\<lambda>_. seal_row idh sc i now sampled) w = (res, w')"
  show ?thesis by (rule lease_ok_transaction [OF t ok]) (rule seal_row_ok)
qed

lemma tool_checkpoint_ok:
  assumes "prepare_tool_checkpoint proof w0 owner r = Inr (l, g, sn, st)" and "db_runs w (run_id r) = Some current"
    and "commit_tool_checkpoint idh r l g sn st' ref current createdAt sampled w = Inr w'" and ok: "lease_ok idh ids past w"
  shows "lease_ok idh ids past w'"
proof (rule commit_tool_checkpoint_ok [OF assms(3) ok _ assms(2)])
  from assms(1) show "wl_phase l = Launch_activated"
    by (auto simp: prepare_tool_checkpoint_def and_then_Inr split: option.splits)
qed

lemma prepare_ok:
  assumes "begin_worker_preparation idh closure w0 owner i now w = (res, w')" and ok: "lease_ok idh ids past w"
  shows "lease_ok idh ids past w'"
proof (rule lease_ok_reads [OF assms(1) [unfolded begin_worker_preparation_def owned_transaction_def] ok])
  fix rc assume t: "fenced_transaction owner now (\<lambda>w. assert_active_state_owner w owner)
      (\<lambda>_. preparation_row idh owner i rc now) w = (res, w')"
  show ?thesis by (rule lease_ok_transaction [OF t ok]) (rule preparation_row_ok)
qed

lemma directory_ok:
  assumes "record_worker_preparation_generation idh w0 owner stateRoot k birth observed authority identity now w = (res, w')"
    and ok: "lease_ok idh ids past w" and "\<forall>a. authority = Inr a \<longrightarrow> decodes ids (fst a) identity"
  shows "lease_ok idh ids past w'"
proof (rule lease_ok_reads [OF assms(1) [unfolded record_worker_preparation_generation_def] ok], goal_cases)
  case (1 x)
  obtain b before a gi where x: "x = (b, before, a, gi)" by (cases x)
  with 1 assms(3) have known: "ids (fst a) = Some gi" by (auto simp: and_then_Inr decodes_def)
  from 1(2) x have t: "fenced_transaction owner now (generation_birth_guards owner stateRoot k before b observed)
      (generation_birth_row idh gi a observed now) w = (res, w')" by simp
  show ?case
  proof (rule lease_ok_transaction [OF t ok])
    fix cp y w1 assume g: "generation_birth_guards owner stateRoot k before b observed w = Inr cp" and ok1: "lease_ok idh ids past w1"
      and r: "generation_birth_row idh gi a observed now cp w1 = Inr (y, w')"
    from g have "wl_phase (fst cp) = Launch_preparing"
      by (auto simp: generation_birth_guards_def and_then_Inr dest: preparing_Inr split: option.splits if_splits)
    from generation_birth_row_ok [where ids = ids, OF r ok1 this known] show "lease_ok idh ids past w'" .
  qed
qed

lemma controller_ok:
  assumes "record_worker_preparation_controller idh w0 owner uid k birth observed held publish reservation now w = (res, w')"
    and ok: "lease_ok idh ids past w"
  shows "lease_ok idh ids past w'"
proof (rule lease_ok_reads [OF assms(1) [unfolded record_worker_preparation_controller_def] ok], goal_cases)
  case (1 x)
  obtain b before a where x: "x = (b, before, a)" by (cases x)
  from 1(2) x have t: "fenced_transaction owner now (controller_birth_guards owner uid k before b observed reservation)
      (controller_birth_row idh a b observed reservation now) w = (res, w')" by simp
  show ?case
  proof (rule lease_ok_transaction [OF t ok])
    fix cp y w1 assume g: "controller_birth_guards owner uid k before b observed reservation w = Inr cp"
      and ok1: "lease_ok idh ids past w1" and r: "controller_birth_row idh a b observed reservation now cp w1 = Inr (y, w')"
    from g have "wl_phase (fst cp) = Launch_preparing"
      by (auto simp: controller_birth_guards_def and_then_Inr dest: preparing_Inr split: option.splits if_splits)
    from controller_birth_row_ok [OF r ok1 this] show "lease_ok idh ids past w'" .
  qed
qed

lemma give_up_ok:
  assumes "retire_worker_preparation idh registered closure joins publish w0 owner i now w = (res, w')"
    and ok: "lease_ok idh ids past w"
  shows "lease_ok idh ids past w'"
proof (rule lease_ok_reads [OF assms(1) [unfolded retire_worker_preparation_def] ok], goal_cases)
  case (1 x)
  obtain l r g pe where x: "x = (l, r, g, pe)" by (cases x)
  with 1(1) have p: "wl_phase l = Launch_preparing"
    and g: "\<And>h. g = Some h \<Longrightarrow> wg_phase h \<in> {Generation_materializing, Generation_preactivated_readonly}"
    by (auto simp: retire_preparation_reads_def and_then_Inr dest: preparing_Inr split: option.splits)
  from 1(2) x have t: "fenced_transaction owner now (retire_preparation_guards joins owner l r g)
      (retire_preparation_row idh l r g pe now) w = (res, w')" by simp
  show ?case
  proof (rule lease_ok_transaction [OF t ok])
    fix f y w1 assume "lease_ok idh ids past w1" and "retire_preparation_row idh l r g pe now f w1 = Inr (y, w')"
    from retire_preparation_row_ok [OF this(2,1) p g] show "lease_ok idh ids past w'" .
  qed
qed

lemma lease_ok_artifacts: "lease_ok idh ids past w \<Longrightarrow> lease_ok idh ids past (w\<lparr>db_artifacts := arts\<rparr>)"
  by (erule lease_ok_same) (simp_all add: accepted_at_def)

lemma recovery_transaction_ok:
  assumes t: "recovery_transaction owner now rc l g body w = (res, w')" and ok: "lease_ok idh ids past w"
    and b: "\<And>y w1. unchanged_cut rc l g w1 = Inr () \<Longrightarrow> lease_ok idh ids past w1 \<Longrightarrow> body w1 = Inr (y, w') \<Longrightarrow> lease_ok idh ids past w'"
  shows "lease_ok idh ids past w'"
  using t unfolding recovery_transaction_def
proof (cases rule: fenced_transaction_cases)
  case refused
  with ok show ?thesis by simp
next
  case (regressed f)
  with lease_ok_regressed [OF ok] show ?thesis by simp
next
  case (committed x y f w1)
  have k: "lease_ok idh ids past w1" unfolding committed(4) by (rule lease_ok_fence [OF ok committed(2,3)])
  from committed(1) have "unchanged_cut rc l g w = Inr ()" by (simp add: and_then_Inr)
  then have "unchanged_cut rc l g w1 = Inr ()"
    by (simp add: unchanged_cut_def committed(4) read_run_def)
  from b [OF this k committed(5)] show ?thesis .
qed

lemma state_operation_world: "(case p of (res, w') \<Rightarrow> (state_operation c res, w')) = (q, w') \<Longrightarrow> \<exists>res. p = (res, w')"
  by (cases p) simp

lemma fence_ok:
  assumes "begin_worker_recovery idh digest closure w0 owner i sampled now w = (res, w')" and ok: "lease_ok idh ids past w"
  shows "lease_ok idh ids past w'"
proof -
  from state_operation_world [OF assms(1) [unfolded begin_worker_recovery_def]] obtain res'
    where a: "after_reads
         (and_then (recovery_reads closure w0 owner i) (\<lambda>rc.
          and_then (recovery_subjects rc) (\<lambda>subjects. Inr (rc, subjects))))
         (\<lambda>(rc, l, g, frontier, identity, containment) w.
            let wait = worker_wait rc l g frontier identity containment
                  (map digest (open_worker_invocations (rc_journal rc))) sampled;
                w1 = w\<lparr>db_artifacts := Wait_artifact wait # db_artifacts w\<rparr> in
            recovery_transaction owner now rc l g (begin_recovery_row idh rc l g wait now) w1) w = (res', w')" by blast
  show ?thesis
  proof (rule lease_ok_reads [OF a ok], goal_cases)
    case (1 x)
    obtain rc l g fr idn co where x: "x = (rc, l, g, fr, idn, co)" by (cases x)
    with 1(1) have s: "recovery_subjects rc = Inr (l, g, fr, idn, co)" by (auto simp: and_then_Inr)
    define wait where "wait = worker_wait rc l g fr idn co (map digest (open_worker_invocations (rc_journal rc))) sampled"
    from 1(2) x have t: "recovery_transaction owner now rc l g (begin_recovery_row idh rc l g wait now)
      (w\<lparr>db_artifacts := Wait_artifact wait # db_artifacts w\<rparr>) = (res', w')" by (simp add: Let_def wait_def)
    show ?case
      by (rule recovery_transaction_ok [OF t lease_ok_artifacts [OF ok]])
        (erule begin_recovery_row_ok [OF _ _ s wait_def], assumption+)
  qed
qed

lemma probe_lifetime_end: "add_duration t d = Inr s \<Longrightarrow> s = t + d"
  by (auto simp: add_duration_def split: if_splits)

lemma read_worker_wait_Inr:
  "read_worker_wait w a = Inr wait \<Longrightarrow> run_waitingOnRef a = Some (Wait_artifact wait)"
  by (auto simp: read_worker_wait_def and_then_Inr split: option.splits if_splits artifact_ref.splits)

lemma recovery_reads_run:
  assumes "recovery_reads closure w0 owner i = Inr rc" and "closure_of_run closure" and "g \<in> set (rc_generations rc)"
  shows "wg_runId g = run_id (rc_run rc)"
  using assms by (auto simp: recovery_reads_def and_then_Inr closure_of_run_def)

lemma probe_reads_Inr:
  assumes "probe_reads closure target nonce w0 owner i sampled = Inr (rc, l, g, wait')" and "closure_of_run closure"
  obtains wait st where "run_waitingOnRef (rc_run rc) = Some (Wait_artifact wait)" "wait' = with_probe_state wait st"
    "probe_state_ok (ww_probeState wait) \<Longrightarrow> probe_state_ok st" "wg_phase g = Generation_fenced_reconciling"
    "wg_runId g = run_id (rc_run rc)"
proof -
  from assms(1) obtain wait n t e ins dl where rc: "recovery_reads closure w0 owner i = Inr rc"
    and wait: "read_worker_wait w0 (rc_run rc) = Inr wait" and p: "ww_probeState wait = Probe_pending n t e"
    and g: "fenced_subject rc wait = Inr g" and dl: "add_duration sampled probe_lifetime_ms = Inr dl"
    and new: "wait' = with_probe_state wait (Probe_in_flight (n + 1)
           (Probe_dispatch (n + 1) nonce sampled dl (so_supervisorInstanceId owner) ins))"
  proof -
    from assms(1) obtain rc' wait where "recovery_reads closure w0 owner i = Inr rc'" "read_worker_wait w0 (rc_run rc') = Inr wait"
      by (auto simp: probe_reads_def and_then_Inr)
    with assms(1) that show thesis
      by (cases "ww_probeState wait") (auto simp: probe_reads_def and_then_Inr)
  qed
  note gs = fenced_subject_Inr [OF g]
  show thesis
    by (rule that [OF read_worker_wait_Inr [OF wait] new])
      (use p probe_lifetime_end [OF dl] gs recovery_reads_run [OF rc assms(2)] in auto)
qed

lemma close_reads_Inr:
  assumes "close_reads closure receipt dead publish w0 owner i sampled = Inr (rc, l, g, wait')" and "closure_of_run closure"
  obtains wait st where "run_waitingOnRef (rc_run rc) = Some (Wait_artifact wait)" "wait' = with_probe_state wait st"
    "probe_state_ok (ww_probeState wait) \<Longrightarrow> probe_state_ok st" "wg_phase g = Generation_fenced_reconciling"
    "wg_runId g = run_id (rc_run rc)"
proof -
  from assms(1) obtain wait n d ev st where rc: "recovery_reads closure w0 owner i = Inr rc"
    and wait: "read_worker_wait w0 (rc_run rc) = Inr wait" and p: "ww_probeState wait = Probe_in_flight n d"
    and g: "fenced_subject rc wait = Inr g" and st: "after_timeout n sampled ev = Inr st"
    and new: "wait' = with_probe_state wait st"
  proof -
    from assms(1) obtain rc' wait where "recovery_reads closure w0 owner i = Inr rc'" "read_worker_wait w0 (rc_run rc') = Inr wait"
      by (auto simp: close_reads_def and_then_Inr)
    with assms(1) that show thesis
      by (cases "ww_probeState wait") (auto simp: close_reads_def and_then_Inr)
  qed
  note gs = fenced_subject_Inr [OF g]
  show thesis
    by (rule that [OF read_worker_wait_Inr [OF wait] new])
      (use after_timeout_ok [OF st] gs recovery_reads_run [OF rc assms(2)] in auto)
qed

lemma replace_wait_ok:
  assumes "replace_wait reads owner sampled now w = (res, w')" and ok: "lease_ok idh ids past w"
    and reads: "\<And>rc l g wait'. reads = Inr (rc, l, g, wait') \<Longrightarrow>
      \<exists>wait st. run_waitingOnRef (rc_run rc) = Some (Wait_artifact wait) \<and> wait' = with_probe_state wait st \<and>
        (probe_state_ok (ww_probeState wait) \<longrightarrow> probe_state_ok st) \<and> wg_phase g = Generation_fenced_reconciling \<and>
        wg_runId g = run_id (rc_run rc)"
  shows "lease_ok idh ids past w'"
proof -
  from state_operation_world [OF assms(1) [unfolded replace_wait_def]] obtain res'
    where a: "after_reads reads
         (\<lambda>(rc, l, g, wait) w.
            recovery_transaction owner now rc l g (replace_wait_row rc g wait sampled now)
              (w\<lparr>db_artifacts := Wait_artifact wait # db_artifacts w\<rparr>)) w = (res', w')" by blast
  show ?thesis
  proof (rule lease_ok_reads [OF a ok], goal_cases)
    case (1 x)
    obtain rc l g wait' where x: "x = (rc, l, g, wait')" by (cases x)
    from reads [OF 1(1) [unfolded x]] obtain wait st where f: "run_waitingOnRef (rc_run rc) = Some (Wait_artifact wait)"
      "wait' = with_probe_state wait st" "probe_state_ok (ww_probeState wait) \<Longrightarrow> probe_state_ok st"
      "wg_phase g = Generation_fenced_reconciling" "wg_runId g = run_id (rc_run rc)" by blast
    from 1(2) x have t: "recovery_transaction owner now rc l g (replace_wait_row rc g wait' sampled now)
              (w\<lparr>db_artifacts := Wait_artifact wait' # db_artifacts w\<rparr>) = (res', w')" by simp
    show ?case
      by (rule recovery_transaction_ok [OF t lease_ok_artifacts [OF ok]])
        (erule replace_wait_row_ok [OF _ _ f], assumption+)
  qed
qed

lemma probe_ok:
  assumes "begin_worker_recovery_probe closure target nonce w0 owner i sampled now w = (res, w')" and ok: "lease_ok idh ids past w"
    and c: "closure_of_run closure"
  shows "lease_ok idh ids past w'"
proof (rule replace_wait_ok [OF assms(1) [unfolded begin_worker_recovery_probe_def] ok])
  fix rc l g wait'
  assume "probe_reads closure target nonce w0 owner i sampled = Inr (rc, l, g, wait')"
  from this c show "\<exists>wait st. run_waitingOnRef (rc_run rc) = Some (Wait_artifact wait) \<and> wait' = with_probe_state wait st \<and>
        (probe_state_ok (ww_probeState wait) \<longrightarrow> probe_state_ok st) \<and> wg_phase g = Generation_fenced_reconciling \<and>
        wg_runId g = run_id (rc_run rc)" by (rule probe_reads_Inr) blast
qed

lemma close_ok:
  assumes "close_worker_recovery_probe closure receipt dead publish w0 owner i sampled now w = (res, w')"
    and ok: "lease_ok idh ids past w" and c: "closure_of_run closure"
  shows "lease_ok idh ids past w'"
proof (rule replace_wait_ok [OF assms(1) [unfolded close_worker_recovery_probe_def] ok])
  fix rc l g wait'
  assume "close_reads closure receipt dead publish w0 owner i sampled = Inr (rc, l, g, wait')"
  from this c show "\<exists>wait st. run_waitingOnRef (rc_run rc) = Some (Wait_artifact wait) \<and> wait' = with_probe_state wait st \<and>
        (probe_state_ok (ww_probeState wait) \<longrightarrow> probe_state_ok st) \<and> wg_phase g = Generation_fenced_reconciling \<and>
        wg_runId g = run_id (rc_run rc)" by (rule close_reads_Inr) blast
qed

lemma complete_reads_Inr:
  assumes "complete_reads closure installed quiescent anchor retained death observe w0 owner i sampled = Inr (cm, ob)"
  shows "first_launch (cm_cut cm) = Inr (cm_launch cm) \<and> (\<exists>wait. fenced_subject (cm_cut cm) wait = Inr (cm_generation cm))"
proof -
  from assms obtain rc wait where "recovery_reads closure w0 owner i = Inr rc" "read_worker_wait w0 (rc_run rc) = Inr wait"
    by (auto simp: complete_reads_def and_then_Inr)
  with assms show ?thesis
    by (cases "ww_probeState wait") (auto simp: complete_reads_def and_then_Inr Let_def split: if_splits)
qed

lemma complete_ok:
  assumes "complete_worker_recovery_probe idh closure installed quiescent anchor retained death observe quarantine
      w0 w1 owner i sampled checked now w = (res, w')" and ok: "lease_ok idh ids past w"
  shows "lease_ok idh ids past w'"
proof -
  from state_operation_world [OF assms(1) [unfolded complete_worker_recovery_probe_def]] obtain res'
    where a: "after_reads
         (and_then (complete_reads closure installed quiescent anchor retained death observe w0 owner i sampled) (\<lambda>(cm, ob).
          and_then (require_current_cut quiescent owner cm checked w1) (\<lambda>_.
          and_then (quarantine cm) (\<lambda>published. Inr (cm, ob, published)))))
         (\<lambda>(cm, ob, quarantineRef, quarantineDigest, wrapperRef, quarantinedAt).
            fenced_transaction owner now
              (\<lambda>w. and_then (require_current_cut quiescent owner cm now w) (\<lambda>_.
                 throw_if (now < quarantinedAt) (Storage Recovery_required)))
              (\<lambda>_. complete_row idh cm ob quarantineRef quarantineDigest wrapperRef now)) w = (res', w')" by blast
  show ?thesis
  proof (rule lease_ok_reads [OF a ok], goal_cases)
    case (1 x)
    obtain cm ob qr qd wr qa where x: "x = (cm, ob, qr, qd, wr, qa)" by (cases x)
    with 1(1) have "complete_reads closure installed quiescent anchor retained death observe w0 owner i sampled = Inr (cm, ob)"
      by (auto simp: and_then_Inr)
    from complete_reads_Inr [OF this] obtain wait where s: "first_launch (cm_cut cm) = Inr (cm_launch cm)"
      "fenced_subject (cm_cut cm) wait = Inr (cm_generation cm)" by blast
    from 1(2) x have t: "fenced_transaction owner now
              (\<lambda>w. and_then (require_current_cut quiescent owner cm now w) (\<lambda>_.
                 throw_if (now < qa) (Storage Recovery_required)))
              (\<lambda>_. complete_row idh cm ob qr qd wr now) w = (res', w')" by simp
    show ?case
    proof (rule lease_ok_transaction [OF t ok])
      fix u y v assume "and_then (require_current_cut quiescent owner cm now w) (\<lambda>_.
                 throw_if (now < qa) (Storage Recovery_required)) = Inr u"
        and ok1: "lease_ok idh ids past v" and same: "db_launches v = db_launches w" "db_generations v = db_generations w"
          "db_runs v = db_runs w"
        and r: "complete_row idh cm ob qr qd wr now v = Inr (y, w')"
      then have c: "require_current_cut quiescent owner cm now w = Inr ()" by (simp add: and_then_Inr)
      from complete_row_ok [OF r ok1 c same [symmetric] s] show "lease_ok idh ids past w'" .
    qed
  qed
qed

lemma abort_ok:
  assumes "retire_preactivation_launch idh inspect w0 w1 owner k checked now w = (res, w')" and ok: "lease_ok idh ids past w"
  shows "lease_ok idh ids past w'"
proof -
  from state_operation_world [OF assms(1) [unfolded retire_preactivation_launch_def]] obtain res'
    where a: "after_reads
         (and_then (checked_cut w0 owner k) (\<lambda>pc.
          and_then (inspect pc) (\<lambda>px.
          and_then (throw_if (px_containmentRef px \<noteq> None \<and> wl_processContainmentRef (pc_launch pc) \<noteq> None \<and>
              px_containmentRef px \<noteq> wl_processContainmentRef (pc_launch pc)) Type_error) (\<lambda>_.
          and_then (unchanged_preactivation w1 owner pc checked (px_observedAt px)) (\<lambda>_. Inr (pc, px))))))
         (\<lambda>(pc, px).
            fenced_transaction owner now
              (\<lambda>w. and_then (unchanged_preactivation w owner pc now (px_observedAt px)) (\<lambda>_.
                 assert_observation_fresh now (px_quarantinedAt px)))
              (\<lambda>_. retire_preactivation_row idh pc px now)) w = (res', w')" by blast
  show ?thesis
  proof (rule lease_ok_reads [OF a ok], goal_cases)
    case (1 x)
    obtain pc px where x: "x = (pc, px)" by (cases x)
    with 1(1) have c: "checked_cut w0 owner k = Inr pc" by (auto simp: and_then_Inr)
    note cut = checked_cut_Inr [OF c]
    from 1(2) x have t: "fenced_transaction owner now
              (\<lambda>w. and_then (unchanged_preactivation w owner pc now (px_observedAt px)) (\<lambda>_.
                 assert_observation_fresh now (px_quarantinedAt px)))
              (\<lambda>_. retire_preactivation_row idh pc px now) w = (res', w')" by simp
    show ?case
      by (rule lease_ok_transaction [OF t ok], erule retire_preactivation_row_ok) (use cut in auto)
  qed
qed

lemma single_Inr: "(case xs of [x] \<Rightarrow> f x | _ \<Rightarrow> Inl e) = Inr y \<longleftrightarrow> (\<exists>x. xs = [x] \<and> f x = Inr y)"
  by (cases xs) (auto split: list.splits)

lemma retire_ok:
  assumes "retire_quarantined_generation closure gone gone' publish w0 owner i observedAt now w = (res, w')"
    and ok: "lease_ok idh ids past w"
  shows "lease_ok idh ids past w'"
proof (rule lease_ok_reads [OF assms(1) [unfolded retire_quarantined_generation_def] ok], goal_cases)
  case (1 x)
  obtain r g l er ed where x: "x = (r, g, l, er, ed)" by (cases x)
  with 1(1) have p: "wg_phase g = Generation_quarantined"
    by (auto simp: quarantine_reads_def and_then_Inr Let_def single_Inr)
  from 1(2) x have t: "fenced_transaction owner now (quarantine_guards gone' owner r g l)
      (retire_quarantined_row g er ed observedAt now) w = (res, w')" by simp
  show ?case by (rule lease_ok_transaction [OF t ok]) (erule retire_quarantined_row_ok [OF _ _ p])
qed

lemma terminal_ok:
  assumes c: "commit_terminal_plan idh owner tm observed now w = Inr w'" and s: "terminal_subjects owner tm wait"
    and ok: "lease_ok idh ids past w"
  shows "lease_ok idh ids past w'"
proof -
  define l where "l = tm_launch tm"
  define g where "g = tm_generation tm"
  from s have p: "wl_phase l = Launch_reconciling" "wg_phase g = Generation_fenced_reconciling"
    and n: "wl_launchId l = wd_oldWorkerLaunchId (ww_subject wait)" "wg_waitingSubjectRef g = Some (Wait_artifact wait)"
    by (simp_all add: terminal_subjects_def Let_def l_def g_def)
  from c have "unchanged_cut (tm_cut tm) l g w = Inr ()"
    by (auto simp: commit_terminal_plan_def validate_terminal_plan_def and_then_Inr Let_def l_def g_def)
  then have li: "l \<in> set (db_launches w)" and gi: "g \<in> set (db_generations w)" using unchanged_cut_Inr by blast+
  from ok gi p(2) obtain a m where m: "m \<in> set (db_launches w)" "wl_runId m = wg_runId g" and f: "fenced_lease m g a"
    by (rule fenced_rows)
  from f n(2) have "wait_names wait m g a" by (simp add: fenced_lease_def)
  with n(1) have "wl_launchId l = wl_launchId m" by (simp add: wait_names_def)
  from same_launch [OF ok li m(1) this] m(2) have "wl_runId l = wg_runId g" by simp
  with commit_terminal_plan_ok [OF c ok] p show ?thesis by (simp add: l_def g_def)
qed

lemma lease_step_ok:
  assumes "lease_step idh ids w w'" and "lease_ok idh ids past w"
  shows "lease_ok idh ids past w'"
  using assms
  by (induction rule: lease_step.induct)
    (blast intro: register_ok ready_ok reserve_ok preactivate_ok activate_ok activate_within_ok renew_ok revoke_ok
      checkpoint_ok seal_ok tool_checkpoint_ok prepare_ok directory_ok controller_ok give_up_ok fence_ok probe_ok close_ok
      complete_ok abort_ok retire_ok terminal_ok lease_ok_elsewhere)+

lemma lease_ok_now: "lease_ok idh ids past w \<Longrightarrow> lease_ok idh ids w w"
  by (simp add: lease_ok_def since_refl)

lemma lease_ok_start: "lease_start w \<Longrightarrow> lease_ok idh ids w w"
  by (simp add: lease_start_def lease_ok_def since_refl tables_ok_def run_lease_ok_def launches_of_def holders_of_def
      generations_of_run_def)

lemma lease_reachable_now: "lease_reachable idh ids w \<Longrightarrow> lease_ok idh ids w w"
  by (induction rule: lease_reachable.induct) (blast intro: lease_ok_start lease_ok_now lease_step_ok)+

text \<open>Any number of steps later.\<close>

definition lease_later :: "identity_hash \<Rightarrow> identities \<Rightarrow> kernel_db \<Rightarrow> kernel_db \<Rightarrow> bool" where
  "lease_later idh ids past w \<longleftrightarrow> lease_reachable idh ids past \<and> (lease_step idh ids)\<^sup>*\<^sup>* past w"

lemma lease_later_ok:
  assumes "lease_later idh ids past w"
  shows "lease_ok idh ids past w"
proof -
  from assms have r: "lease_reachable idh ids past" and s: "(lease_step idh ids)\<^sup>*\<^sup>* past w"
    by (simp_all add: lease_later_def)
  from s show ?thesis
    by (induction rule: rtranclp_induct) (blast intro: lease_reachable_now [OF r] lease_step_ok)+
qed

end
