(* ===== verification/Lease_Grant.thy ===== *)
theory Lease_Grant
  imports Lease_System
begin

text \<open>
  That an activation which meets its conditions is not refused: its rows decode, the triggers of the tables accept
  them, and its event gets a number.
\<close>

section \<open>Rows that are there\<close>

lemma advance_healthy_fence:
  assumes "assert_active_state_owner w owner = Inr ()" and "db_fence w = Some f" and "tf_state f = Clock_healthy"
    and "tf_lastAcceptedAt f \<le> now"
  shows "advance_time_fence w (so_ownerEpoch owner) now =
    Inr (Fence_healthy, w\<lparr>db_fence := Some (fence_at (so_ownerEpoch owner) now)\<rparr>)"
  using assms by (auto simp: assert_active_state_owner_def and_then_Inr advance_time_fence_def read_time_fence_def split: if_splits)

lemma find_row:
  assumes "x \<in> set xs" and "\<And>y. y \<in> set xs \<Longrightarrow> P y \<Longrightarrow> y = x" and "P x"
  shows "find P xs = Some x"
proof (cases "find P xs")
  case None
  with assms(1,3) show ?thesis by (auto simp: find_None_iff)
next
  case (Some y)
  then have "y \<in> set xs" "P y" by (auto simp: find_Some_iff)
  with assms(2) Some show ?thesis by simp
qed

lemma read_known_launch:
  assumes "lease_ok idh ids past w" and "l \<in> set (db_launches w)"
  shows "read_required_worker_launch (db_launches w) (wl_launchId l) = Inr l"
  using find_row [of l "db_launches w" "\<lambda>m. wl_launchId m = wl_launchId l"] same_launch [OF assms(1) _ assms(2)] assms(2)
  by (auto simp: read_required_worker_launch_def)

lemma read_known_generation:
  assumes "lease_ok idh ids past w" and "g \<in> set (db_generations w)"
  shows "read_generation_by_ref (db_generations w) (Some (wg_generationRef g)) = Inr g"
proof -
  have d: "distinct (map wg_generationRef (db_generations w))"
    using lease_ok_tables [OF assms(1)] by (simp add: tables_ok_def)
  have "distinct gs \<Longrightarrow> inj_on wg_generationRef (set gs) \<Longrightarrow> g \<in> set gs \<Longrightarrow>
    filter (\<lambda>h. Some (wg_generationRef h) = Some (wg_generationRef g)) gs = [g]" for gs
    by (induction gs) (auto simp: filter_empty_conv inj_on_def)
  with d assms(2) show ?thesis by (simp add: read_generation_by_ref_def distinct_map)
qed

lemma put_generation_known:
  assumes ok: "lease_ok idh ids past w" and g: "g \<in> set (db_generations w)"
    and row: "generation_row_ok g'" "workspace_generations_validate_update g g'" "wg_generationRef g' = wg_generationRef g"
  shows "put_generation w g g' = Inr (w\<lparr>db_generations := replace_row g g' (db_generations w)\<rparr>)"
proof -
  have "wg_generationRef g' \<notin> set (map wg_generationRef (filter (\<lambda>h. h \<noteq> g) (db_generations w)))"
    using same_generation [OF ok _ g] row(3) by auto
  with row g show ?thesis by (simp add: put_generation_Inr workspace_generations_validate_update_def)
qed

lemma put_launch_known:
  assumes ok: "lease_ok idh ids past w" and l: "l \<in> set (db_launches w1)" and p: "wl_phase l \<noteq> Launch_retired"
    and same: "db_launches w1 = db_launches w" and row: "launch_row_ok idh l'" "worker_launches_validate_update l l'"
  shows "put_launch idh w1 l l' = Inr (w1\<lparr>db_launches := replace_row l l' (db_launches w)\<rparr>)"
proof -
  from l same have "l \<in> set (db_launches w)" by simp
  from ok this p have "unretired (launches_of w (wl_runId l)) = [l]" by (rule current_launch)
  then have "unretired_launches (db_launches w1) (wl_runId l) = [l]" by (simp add: same unretired_launches_of)
  with row l show ?thesis by (simp add: put_launch_Inr same worker_launches_validate_update_def)
qed

lemma launch_known_row: "launch_known idh ids l \<Longrightarrow> launch_row_ok idh l"
  by (simp add: launch_known_def)

lemma activated_launch_row:
  assumes k: "launch_known idh ids l" and p: "wl_phase l = Launch_preactivated" and e: "int_at_least 1 e"
  shows "launch_row_ok idh (activated_launch l e t now)" and "worker_launches_validate_update l (activated_launch l e t now)"
proof -
  have "launch_identity_ok l" "bound_launch_ok idh l" using k p by (simp_all add: launch_known_def launch_row_ok_def)
  then show "launch_row_ok idh (activated_launch l e t now)"
    using p e by (auto simp: launch_row_ok_def launch_identity_ok_def bound_launch_ok_def activated_launch_def preparation_ok_def
        no_retirement_def identity_bound_def lease_bound_def present_def int_at_least_def safe_integer_def max_safe_integer_def
        split: option.splits)
  show "worker_launches_validate_update l (activated_launch l e t now)"
    using k p by (simp add: worker_launches_validate_update_def activated_launch_def launch_transitions_def launch_known_def)
qed

section \<open>The conditions\<close>

definition activatable :: "kernel_db \<Rightarrow> state_owner \<Rightarrow> worker_launch \<Rightarrow> run \<Rightarrow> workspace_generation \<Rightarrow> bool" where
  "activatable w owner l a g \<longleftrightarrow>
     l \<in> set (db_launches w) \<and> wl_phase l = Launch_preactivated \<and> wl_supervisorInstanceId l = so_supervisorInstanceId owner \<and>
     db_runs w (wl_runId l) = Some a \<and> run_status a = Run_queued \<and> \<not> run_cancelRequested a \<and> run_stopIntentRef a = None \<and>
     wl_plannedRunRevision l = run_revision a \<and> g \<in> set (db_generations w) \<and>
     wl_workspaceGenerationRef l = Some (wg_generationRef g) \<and> wg_phase g = Generation_preactivated_readonly"

definition in_range :: "kernel_db \<Rightarrow> run \<Rightarrow> workspace_generation \<Rightarrow> bool" where
  "in_range w a g \<longleftrightarrow>
     0 \<le> run_leaseEpoch a \<and> safe_integer (run_leaseEpoch a + 1) \<and> safe_integer (wg_rowVersion g + 1) \<and>
     is_ok (next_run_event_sequence w (run_id a))"

lemma activated_generation_row:
  assumes "generation_known ids g" and "wg_phase g = Generation_preactivated_readonly" and "safe_integer (wg_rowVersion g + 1)"
    and "int_at_least 1 e" and "k \<noteq> []"
    and "g' = g\<lparr>wg_phase := Generation_active, wg_rowVersion := wg_rowVersion g + 1, wg_updatedAt := now,
                wg_activeWorkerLaunchId := Some k, wg_leaseEpoch := Some e\<rparr>"
  shows "generation_row_ok g'" and "workspace_generations_validate_update g g'"
proof -
  have "generation_base_ok g" "generation_phase_ok Generation_preactivated_readonly g"
    using assms(1,2) by (simp_all add: generation_known_def generation_row_ok_def)
  with assms(3-6) show "generation_row_ok g'"
    by (simp add: generation_row_ok_def generation_base_ok_def int_at_least_def holder_ok_def present_def no_fence_def no_end_def)
  show "workspace_generations_validate_update g g'"
    using assms(2,6) by (simp add: workspace_generations_validate_update_def generation_transitions_def)
qed

lemma run_row_updates:
  assumes "db_runs w r = Some a" and "P a" and "is_ok (next_run_event_sequence w (run_id (f a)))"
  shows "\<exists>w'. update_run_row w r P f now = Inr (f a, w') \<and> db_launches w' = db_launches w \<and> db_runs w' = (db_runs w)(r \<mapsto> f a)"
proof -
  from assms(3) obtain n where n: "next_run_event_sequence w (run_id (f a)) = Inr n" by (auto simp: is_ok_iff)
  have "next_run_event_sequence (w\<lparr>db_runs := x\<rparr>) k = next_run_event_sequence w k" for x k
    by (simp add: next_run_event_sequence_def)
  with assms(1,2) n show ?thesis by (simp add: update_run_row_def append_run_state_event_def)
qed

lemma preactivated_facts:
  assumes "launch_known idh ids l" and "wl_phase l = Launch_preactivated"
  obtains d c where "wl_workerIdentityDigest l = Some d" "wl_processContainmentRef l = Some c" "wl_launchId l \<noteq> []"
proof -
  from assms have "identity_bound l" "wl_launchId l \<noteq> []"
    by (simp_all add: launch_known_def launch_row_ok_def launch_identity_ok_def bound_launch_ok_def)
  with that show thesis by (auto simp: identity_bound_def present_def split: option.splits)
qed

lemma idle_before_activation:
  assumes ok: "lease_ok idh ids past w" and c: "activatable w owner l a g"
  shows "run_id a = wl_runId l \<and> run_activeWorkerLaunchId a = None"
proof -
  from c have l: "l \<in> set (db_launches w)" and p: "wl_phase l \<in> {Launch_preparing, Launch_reserved, Launch_preactivated}"
    by (simp_all add: activatable_def)
  from ok l p obtain b where "db_runs w (wl_runId l) = Some b" "run_id b = wl_runId l" "idle b"
    by (rule powerless_launch_current)
  with c show ?thesis by (simp add: activatable_def idle_def)
qed

lemma activate_row_grants:
  assumes ok: "lease_ok idh ids past w" and c: "activatable w owner l a g" and n: "in_range w a g"
    and t: "initial_lease_end duration now (run_deadlineAt a) = Inr t" "t \<le> run_deadlineAt a" "now < run_deadlineAt a"
  shows "\<exists>a' g' w'. activate_row idh owner (wl_launchId l) (run_revision a) (wg_rowVersion g) duration now w =
      Inr ((a', activated_launch l (run_leaseEpoch a + 1) t now, g'), w') \<and>
    db_launches w' = replace_row l (activated_launch l (run_leaseEpoch a + 1) t now) (db_launches w) \<and>
    db_runs w' = (db_runs w)(wl_runId l \<mapsto> a') \<and> run_status a' = Run_running \<and> run_leaseEpoch a' = run_leaseEpoch a + 1 \<and>
    run_activeWorkerLaunchId a' = Some (wl_launchId l) \<and> wg_phase g' = Generation_active"
proof -
  define e where "e = run_leaseEpoch a + 1"
  define l' where "l' = activated_launch l e t now"
  define g' where "g' = g\<lparr>wg_phase := Generation_active, wg_rowVersion := wg_rowVersion g + 1, wg_updatedAt := now,
                wg_activeWorkerLaunchId := Some (wl_launchId l), wg_leaseEpoch := Some e\<rparr>"
  define grant where "grant = (\<lambda>a::run. a\<lparr>run_status := Run_running, run_revision := run_revision a + 1, run_leaseEpoch := e,
            run_activeWorkerLaunchId := Some (wl_launchId l), run_updatedAt := now\<rparr>)"
  define w1 where "w1 = w\<lparr>db_generations := replace_row g g' (db_generations w)\<rparr>"
  define w2 where "w2 = w1\<lparr>db_launches := replace_row l l' (db_launches w)\<rparr>"
  have l: "l \<in> set (db_launches w)" and p: "wl_phase l = Launch_preactivated" and a: "db_runs w (wl_runId l) = Some a"
    and g: "g \<in> set (db_generations w)" and pg: "wg_phase g = Generation_preactivated_readonly"
    and sv: "safe_integer (wg_rowVersion g + 1)" and e1: "int_at_least 1 e"
    using c n by (simp_all add: activatable_def in_range_def int_at_least_def e_def)
  have kl: "launch_known idh ids l" and kg: "generation_known ids g"
    using known_launch [OF ok l] known_generation [OF ok g] by simp_all
  from kl p obtain d f where bound: "wl_workerIdentityDigest l = Some d" "wl_processContainmentRef l = Some f"
    and id: "wl_launchId l \<noteq> []" by (rule preactivated_facts)
  note i = idle_before_activation [OF ok c]
  have pg': "put_generation w g g' = Inr w1"
    using put_generation_known [OF ok g activated_generation_row [OF kg pg sv e1 id g'_def]] by (simp add: w1_def g'_def)
  have pl: "put_launch idh w1 l l' = Inr w2"
    unfolding w2_def l'_def by (rule put_launch_known [OF ok _ _ _ activated_launch_row [OF kl p e1]]) (simp_all add: w1_def l p)
  have "\<exists>w'. update_run_row w2 (wl_runId l)
         (\<lambda>r'. run_status r' = Run_queued \<and> run_revision r' = run_revision a \<and> run_leaseEpoch r' = run_leaseEpoch a \<and>
            run_activeWorkerLaunchId r' = None \<and> \<not> run_cancelRequested r' \<and> run_stopIntentRef r' = None) grant now =
      Inr (grant a, w') \<and> db_launches w' = db_launches w2 \<and> db_runs w' = (db_runs w2)(wl_runId l \<mapsto> grant a)"
    by (rule run_row_updates)
      (use a c i n in \<open>simp_all add: w2_def w1_def activatable_def in_range_def grant_def next_run_event_sequence_def\<close>)
  then obtain w' where u: "update_run_row w2 (wl_runId l)
         (\<lambda>r'. run_status r' = Run_queued \<and> run_revision r' = run_revision a \<and> run_leaseEpoch r' = run_leaseEpoch a \<and>
            run_activeWorkerLaunchId r' = None \<and> \<not> run_cancelRequested r' \<and> run_stopIntentRef r' = None) grant now = Inr (grant a, w')"
    and w': "db_launches w' = db_launches w2" "db_runs w' = (db_runs w2)(wl_runId l \<mapsto> grant a)" by blast
  have "activate_row idh owner (wl_launchId l) (run_revision a) (wg_rowVersion g) duration now w = Inr ((grant a, l', g'), w')"
    unfolding activate_row_def read_known_launch [OF ok l]
    using c bound a i t n read_known_generation [OF ok g] pg' pl u
    by (simp add: activatable_def read_run_def Let_def in_range_def assert_run_can_activate_def
        e_def [symmetric] l'_def [symmetric] g'_def [symmetric] grant_def [symmetric])
  then show ?thesis
    using w' by (intro exI [of _ "grant a"] exI [of _ g'] exI [of _ w'])
      (simp add: l'_def [symmetric] e_def [symmetric] w2_def w1_def grant_def g'_def)
qed

end
