(* ===== verification/Lease_Ledger.thy ===== *)
theory Lease_Ledger
  imports Lease_System Invocation_Ledger
begin

text \<open>
  What the invariant says of a reachable state, what a checked dispatch says of the lease, and that the operations on
  invocations (\<open>Invocation_Ledger\<close>) leave every lease as it is.
\<close>

section \<open>Reachable states\<close>

lemma reachable_run:
  assumes "lease_reachable idh ids w" and "db_runs w r = Some a"
  shows "run_id a = r \<and> current_ok (unretired (launches_of w r)) (holders_of w r) a (accepted_at w) \<and>
    distinct (lease_epochs (launches_of w r)) \<and> (\<forall>e\<in>set (lease_epochs (launches_of w r)). e \<le> run_leaseEpoch a)"
proof -
  have "run_lease_ok w (accepted_at w) r" using lease_reachable_now [OF assms(1)] by (simp add: lease_ok_def)
  with assms(2) show ?thesis by (simp add: run_lease_ok_def)
qed

lemma retired_or_not:
  assumes "lease_ok idh ids past w"
  shows "unretired (launches_of w r) = filter (\<lambda>l. wl_phase l \<noteq> Launch_retired) (launches_of w r)"
proof -
  have "wl_retiredAt l = None \<longleftrightarrow> wl_phase l \<noteq> Launch_retired" if "l \<in> set (launches_of w r)" for l
    using known_launch [OF assms] that by (auto simp: launches_of_def launch_known_def)
  then show ?thesis unfolding unretired_def by (rule filter_cong [OF refl])
qed

section \<open>A checked dispatch\<close>

lemma phase_ends:
  assumes "(p, q) \<in> launch_transitions\<^sup>*" and "p \<in> {Launch_reconciling, Launch_retired}"
  shows "q \<in> {Launch_reconciling, Launch_retired}"
  using assms by (induction rule: rtrancl_induct) (auto simp: launch_transitions_def)

lemma live_dispatch_launch:
  assumes "assert_live_dispatch_state w owner r revision epoch now = Inr (a, l, g)"
  shows "db_runs w r = Some a \<and> run_leaseEpoch a = epoch \<and> run_status a = Run_running \<and> l \<in> set (db_launches w) \<and>
    wl_phase l = Launch_activated \<and> wl_runId l = run_id a \<and> wl_leaseEpoch l = Some epoch \<and>
    run_activeWorkerLaunchId a = Some (wl_launchId l) \<and> (\<exists>t. wl_leaseExpiresAt l = Some t \<and> now < t)"
  using assms
  by (auto simp: assert_live_dispatch_state_def and_then_Inr read_run_Inr dest!: read_launch_Inr split: option.splits)

lemma lease_epochs_mem: "l \<in> set ls \<Longrightarrow> wl_leaseEpoch l = Some e \<Longrightarrow> e \<in> set (lease_epochs ls)"
  by (force simp: lease_epochs_def map_filter_def)

lemma same_epoch_same_launch:
  assumes "distinct (lease_epochs ls)" and "l \<in> set ls" and "m \<in> set ls" and "wl_leaseEpoch l = Some e" and "wl_leaseEpoch m = Some e"
  shows "l = m"
  using assms
proof (induction ls)
  case (Cons x xs)
  have "x = l \<Longrightarrow> m \<in> set xs \<Longrightarrow> False" "x = m \<Longrightarrow> l \<in> set xs \<Longrightarrow> False"
    using Cons.prems lease_epochs_mem [of _ xs e] by (auto simp: lease_epochs_def map_filter_def)
  moreover have "distinct (lease_epochs xs)"
    using Cons.prems(1) by (cases "wl_leaseEpoch x") (simp_all add: lease_epochs_def map_filter_def)
  ultimately show ?case using Cons by auto
qed simp

section \<open>Invocations leave leases alone\<close>

lemma lease_elsewhere_trans:
  assumes uv: "lease_elsewhere u v" and vw: "lease_elsewhere v w"
  shows "lease_elsewhere u w"
proof -
  have L: "db_launches v = db_launches u" using uv by (simp add: lease_elsewhere_def)
  have kt: "keeps_lease u a c" if "keeps_lease u a b" "keeps_lease v b c" for a b c
    using that by (auto simp: keeps_lease_def launches_of_def L)
  have "run_id c = r \<and> idle c" if n: "db_runs u r = None" and c: "db_runs w r = Some c" for r c
  proof (cases "db_runs v r")
    case None
    with vw c show ?thesis by (simp add: lease_elsewhere_def)
  next
    case (Some b)
    with uv n have b: "run_id b = r" "idle b" by (simp_all add: lease_elsewhere_def)
    from vw Some c have "keeps_lease v b c" by (force simp: lease_elsewhere_def)
    with b show ?thesis by (auto simp: keeps_lease_def idle_def)
  qed
  moreover have "\<exists>c. db_runs w r = Some c \<and> keeps_lease u a c" if "db_runs u r = Some a" for r a
  proof -
    from uv that obtain b where "db_runs v r = Some b" "keeps_lease u a b" unfolding lease_elsewhere_def by blast
    with vw kt show ?thesis unfolding lease_elsewhere_def by meson
  qed
  ultimately show ?thesis using uv vw by (auto simp: lease_elsewhere_def)
qed

lemma fence_elsewhere:
  "db_fence w = Some f \<Longrightarrow> tf_lastAcceptedAt f \<le> t \<Longrightarrow> lease_elsewhere w (w\<lparr>db_fence := Some (fence_at e t)\<rparr>)"
  by (auto simp: lease_elsewhere_def accepted_at_def fence_at_def)

lemma regressed_elsewhere: "db_fence w = Some f \<Longrightarrow> lease_elsewhere w (persist_regressed_fence w f t)"
  by (auto simp: lease_elsewhere_def accepted_at_def persist_regressed_fence_def)

lemma transaction_elsewhere:
  assumes t: "fenced_transaction owner now before body w = (res, w')"
    and b: "\<And>x y w1. body x w1 = Inr (y, w') \<Longrightarrow> lease_elsewhere w1 w'"
  shows "lease_elsewhere w w'"
  using t
proof (cases rule: fenced_transaction_cases)
  case (committed x y f w1)
  with fence_elsewhere b show ?thesis by (metis lease_elsewhere_trans)
qed (simp_all add: lease_elsewhere_refl regressed_elsewhere)

lemma journal_elsewhere: "append_journal w e = Inr w' \<Longrightarrow> lease_elsewhere w w'"
  by (auto simp: append_journal_def and_then_Inr lease_elsewhere_def accepted_at_def)

lemma event_elsewhere: "append_run_state_event w a t = Inr w' \<Longrightarrow> lease_elsewhere w w'"
  by (auto simp: append_run_state_event_def and_then_Inr lease_elsewhere_def accepted_at_def)

lemma budgets_elsewhere: "update_run_budgets w a res con now fault = Inr w' \<Longrightarrow> lease_elsewhere w w'"
  by (auto simp: update_run_budgets_def lease_elsewhere_def accepted_at_def keeps_lease_def split: option.splits if_splits)

lemmas ledger_elsewhere = journal_elsewhere event_elsewhere budgets_elsewhere

text \<open>What the reducer of invocations does is a step of everything else.\<close>

lemma prepare_elsewhere:
  assumes "prepare_validated_invocation w owner i None now = (res, w')"
  shows "lease_elsewhere w w'"
proof (cases "\<exists>a. db_runs w (pi_runId i) = Some a \<and>
    fenced_transaction owner now (\<lambda>w. assert_active_state_owner w owner)
      (\<lambda>_ w1. prepare_row w1 owner i (run_ceilings a) None now) w = (res, w')")
  case True
  then obtain a :: run where t: "fenced_transaction owner now (\<lambda>w. assert_active_state_owner w owner)
      (\<lambda>_ w1. prepare_row w1 owner i (run_ceilings a) None now) w = (res, w')" by blast
  show ?thesis
  proof (rule transaction_elsewhere [OF t])
    fix x y w1 assume "prepare_row w1 owner i (run_ceilings a) None now = Inr (y, w')"
    then obtain e w2 w3 b c res' con' f u where "append_journal w1 e = Inr w2" "update_run_budgets w2 b res' con' u f = Inr w3"
      "append_run_state_event w3 c now = Inr w'"
      by (auto simp: prepare_row_def and_then_Inr Let_def)
    then show "lease_elsewhere w1 w'" by (meson ledger_elsewhere lease_elsewhere_trans)
  qed
next
  case False
  with assms have "w' = w"
    by (auto simp: prepare_validated_invocation_def fenced_transaction_def and_then_Inr read_run_Inr split: sum.splits)
  then show ?thesis by (simp add: lease_elsewhere_refl)
qed

lemma claim_transaction:
  assumes "claim_validated_invocation w owner i validate now = (res, w')"
  shows "w' = w \<and> \<not> is_ok res \<or> fenced_transaction owner now (\<lambda>w. assert_active_state_owner w owner)
      (\<lambda>_ w1. claim_row w1 owner i validate now) w = (res, w')"
  using assms by (auto simp: claim_validated_invocation_def fenced_transaction_def split: sum.splits)

lemma claim_row_Inr:
  assumes row: "claim_row w owner i validate now = Inr (e, w')"
  shows "append_journal w e = Inr w' \<and> je_leaseEpoch e = ci_leaseEpoch i \<and>
    is_ok (assert_live_dispatch_state w owner (ci_runId i) (ci_expectedRunRevision i) (ci_leaseEpoch i) now)"
proof -
  from row obtain x h n where
    "assert_live_dispatch_state w owner (ci_runId i) (ci_expectedRunRevision i) (ci_leaseEpoch i) now = Inr x"
    and "je_leaseEpoch h = ci_leaseEpoch i" and "e = claimed_entry h owner i n now" and "append_journal w e = Inr w'"
    unfolding claim_row_def Let_def by (auto simp: and_then_Inr split: option.splits if_splits)
  then show ?thesis by (simp add: claimed_entry_def)
qed

lemma claim_elsewhere:
  assumes "claim_validated_invocation w owner i validate now = (res, w')"
  shows "lease_elsewhere w w'"
  using claim_transaction [OF assms]
proof
  assume t: "fenced_transaction owner now (\<lambda>w. assert_active_state_owner w owner)
      (\<lambda>_ w1. claim_row w1 owner i validate now) w = (res, w')"
  show ?thesis by (rule transaction_elsewhere [OF t]) (use claim_row_Inr journal_elsewhere in blast)
qed (simp add: lease_elsewhere_refl)

end
