(* ===== verification/Lease_Sample.thy ===== *)
theory Lease_Sample
  imports Lease_Ledger
begin

text \<open>
  A run that one worker works on and seals, and that a second worker takes up after it, on concrete tables.
\<close>

section \<open>Digests\<close>

definition digest_of :: "char \<Rightarrow> string" where
  "digest_of c = replicate 64 c"

definition ref_of :: "char \<Rightarrow> artifact_ref" where
  "ref_of c = Artifact (digest_of c)"

lemma hex_digest:
  "js_digit c \<or> c \<in> set ''abcdef'' \<Longrightarrow> hex64 (digest_of c)"
  by (auto simp: hex64_def digest_of_def list_all_iff)

lemma hex_digests [simp]:
  "hex64 (digest_of CHR ''0'')" "hex64 (digest_of CHR ''1'')" "hex64 (digest_of CHR ''2'')" "hex64 (digest_of CHR ''3'')"
  "hex64 (digest_of CHR ''4'')" "hex64 (digest_of CHR ''5'')" "hex64 (digest_of CHR ''6'')" "hex64 (digest_of CHR ''7'')"
  "hex64 (digest_of CHR ''8'')" "hex64 (digest_of CHR ''9'')" "hex64 (digest_of CHR ''a'')" "hex64 (digest_of CHR ''b'')"
  "hex64 (digest_of CHR ''c'')" "hex64 (digest_of CHR ''d'')" "hex64 (digest_of CHR ''e'')" "hex64 (digest_of CHR ''f'')"
  by (rule hex_digest, simp add: js_digit_def)+

lemma ok_refs [simp]: "artifact_ref_ok (ref_of c) = hex64 (digest_of c)"
  by (simp add: artifact_ref_ok_def ref_of_def)

lemma digest_of_eq [simp]: "digest_of c = digest_of d \<longleftrightarrow> c = d"
  unfolding digest_of_def by (simp add: replicate_eq_replicate)

lemma ok_wait [simp]: "artifact_ref_ok (Wait_artifact x)"
  by (simp add: artifact_ref_ok_def)

lemma artifact_digest [simp]: "Artifact (digest_of c) = ref_of c"
  by (simp add: ref_of_def)

lemma ref_of_eq [simp]: "ref_of c = ref_of d \<longleftrightarrow> c = d"
  by (simp add: ref_of_def del: artifact_digest)

section \<open>The tables at the start\<close>

definition ls_owner :: state_owner where
  "ls_owner = \<lparr>so_ownerEpoch = 1, so_supervisorInstanceId = ''supervisor'', so_identity = ''owner''\<rparr>"

definition ls_checkpoint :: checkpoint where
  "ls_checkpoint =
     \<lparr>ck_id = ''checkpoint'', ck_runId = ''run'', ck_basedOnRunRevision = 0, ck_runItemSeq = 0,
      ck_contextManifestRef = ref_of CHR ''0'', ck_journalSeq = 0, ck_workspaceStateRef = ref_of CHR ''1'',
      ck_createdAt = 5, ck_reason = ''admission''\<rparr>"

definition ls_run :: run where
  "ls_run =
     \<lparr>run_id = ''run'', run_status = Run_queued, run_nextStep = Some Step_agent, run_frontierRef = Some (ref_of CHR ''2''),
      run_waitingReason = None, run_waitingOnRef = None, run_revision = 1,
      run_latestCheckpointId = ''checkpoint'', run_leaseEpoch = 0,
      run_activeWorkerLaunchId = None, run_budgetReserved = zero_budget, run_budgetConsumed = zero_budget,
      run_resultRef = None, run_terminalReason = None, run_terminalDetailRef = None, run_stopIntentRef = None,
      run_cancelRequested = False, run_deadlineAt = 100000, run_updatedAt = 0, run_ceilings = zero_budget\<lparr>bu_toolCalls := 2\<rparr>\<rparr>"

definition ls_empty :: kernel_db where
  "ls_empty =
     \<lparr>db_lockHeld = True, db_owner = Some ls_owner, db_fence = Some (fence_at 1 10), db_runs = Map.empty,
      db_launches = [], db_generations = [], db_checkpoints = [ls_checkpoint], db_journal = (\<lambda>_. []), db_events = (\<lambda>_. []),
      db_latestItem = (\<lambda>_. 0), db_artifacts = map ref_of ''0123456789abcdef''\<rparr>"

definition ls_admitted :: kernel_db where
  "ls_admitted = ls_empty\<lparr>db_runs := [''run'' \<mapsto> ls_run]\<rparr>"

text \<open>The identity of a generation is its number; \<open>c\<close> addresses it.\<close>

definition ls_ids :: identities where
  "ls_ids ref = Some \<lparr>gi_generationId = (if ref = ref_of CHR ''a'' then ''first'' else ''second''), gi_runId = ''run'',
      gi_identityDigest = digest_of CHR ''4'', gi_sourceCheckpointId = (if ref = ref_of CHR ''a'' then ''checkpoint'' else ''sealed''),
      gi_sourceWorkspaceStateRef = ref_of CHR ''1'', gi_sourceWorkspaceStateDigest = digest_of CHR ''5'',
      gi_sourceTreeDigest = digest_of CHR ''6'', gi_creationNonceDigest = digest_of CHR ''7'', gi_createdAt = 5\<rparr>"

definition ls_state :: workspace_state where
  "ls_state = \<lparr>ws_runId = ''run'', ws_stateDigest = digest_of CHR ''5'', ws_entriesRef = ref_of CHR ''3'', ws_privateGitStateRef = None\<rparr>"

definition ls_snapshot :: "string \<Rightarrow> artifact_ref \<Rightarrow> string \<Rightarrow> snapshot_evidence" where
  "ls_snapshot purpose g checkpoint =
     \<lparr>sn_purpose = purpose, sn_runId = ''run'', sn_generationRef = g,
      sn_generationIdentityDigest = digest_of CHR ''4'', sn_checkpointId = checkpoint, sn_workspaceStateRef = ref_of CHR ''1'',
      sn_workspaceStateDigest = digest_of CHR ''5'', sn_entriesRef = ref_of CHR ''3'', sn_treeDigest = digest_of CHR ''6'',
      sn_privateGitStateRef = None, sn_observedAt = 20, sn_evidenceDigest = digest_of CHR ''8''\<rparr>"

definition ls_hash :: identity_hash where "ls_hash _ _ _ _ = ''generation''"

abbreviation ls_closure :: "kernel_db \<Rightarrow> string \<Rightarrow> recovery_cut kernel" where
  "ls_closure \<equiv> \<lambda>_ _. Inl (Storage Recovery_required)"

section \<open>The first worker\<close>

definition ls_registered :: kernel_db where
  "ls_registered = snd (register_workspace_generation ls_closure ls_admitted ls_owner ''run'' (ref_of CHR ''a'')
     (digest_of CHR ''4'') (Inr (the (ls_ids (ref_of CHR ''a'')))) (Inr ls_state) (Inr (digest_of CHR ''6'')) 20 ls_admitted)"

definition ls_ready :: kernel_db where
  "ls_ready = snd (record_workspace_generation_preactivated ls_registered ls_owner ''first'' 1 (ref_of CHR ''8'')
     (digest_of CHR ''8'') (Inr (ls_snapshot ''materialized_from_checkpoint'' (ref_of CHR ''a'') ''checkpoint'')) (Inr ls_state)
     (Inr (digest_of CHR ''6'')) 30 ls_registered)"

definition ls_generation :: workspace_generation where
  "ls_generation = materializing_generation ''run'' (ref_of CHR ''a'') (the (ls_ids (ref_of CHR ''a''))) 20"

lemmas ls_defs = ls_owner_def ls_checkpoint_def ls_run_def ls_empty_def ls_admitted_def ls_ids_def ls_state_def ls_snapshot_def
  fence_at_def

lemmas ls_transaction = after_reads_def owned_transaction_def fenced_transaction_def run_transaction_def behind_fence_def
  assert_active_state_owner_def read_time_fence_def advance_time_fence_def read_run_def read_checkpoint_def
  int_at_least_def safe_integer_def max_safe_integer_def read_bytes_def Let_def

lemma ls_registered:
  "ls_registered = ls_admitted\<lparr>db_fence := Some (fence_at 1 20), db_generations := [ls_generation]\<rparr>"
  by (simp add: ls_registered_def register_workspace_generation_def register_reads_def register_row_def ls_defs ls_transaction
      add_generation_def insert_workspace_generation_def decode_workspace_generation_state_def generation_row_ok_def
      generation_base_ok_def no_holder_def no_fence_def no_end_def workspace_generations_validate_insert_def
      materializing_generation_def ls_generation_def)

definition ls_ready_generation :: workspace_generation where
  "ls_ready_generation = ls_generation\<lparr>wg_phase := Generation_preactivated_readonly, wg_rowVersion := 2, wg_updatedAt := 30,
     wg_snapshotEvidence := (Some (ref_of CHR ''8''), Some (digest_of CHR ''8''))\<rparr>"

lemma ls_ready:
  "ls_ready = ls_admitted\<lparr>db_fence := Some (fence_at 1 30), db_generations := [ls_ready_generation]\<rparr>"
  unfolding ls_ready_def ls_registered
  by (simp add: record_workspace_generation_preactivated_def preactivate_generation_row_def snapshot_matches_state_def
      ls_defs ls_transaction
      put_generation_def update_workspace_generation_def decode_workspace_generation_state_def generation_row_ok_def
      generation_base_ok_def no_holder_def no_fence_def no_end_def workspace_generations_validate_update_def generation_transitions_def
      read_required_generation_def assert_snapshot_matches_generation_def pair_ok_def optional_def
      materializing_generation_def ls_generation_def ls_ready_generation_def)

definition ls_reserve :: "string \<Rightarrow> int \<Rightarrow> artifact_ref \<Rightarrow> reserve_input" where
  "ls_reserve launchId revision g =
     \<lparr>ri_launchId = launchId, ri_runId = ''run'', ri_expectedRunRevision = revision, ri_spawnNonceDigest = digest_of CHR ''9'',
      ri_activationNonceDigest = digest_of CHR ''c'', ri_workspaceGenerationRef = g,
      ri_containmentPlanRef = ref_of CHR ''d'', ri_sandboxLaunchSpecRef = ref_of CHR ''e''\<rparr>"

definition ls_reserved :: kernel_db where
  "ls_reserved = snd (reserve_worker_launch ls_hash (\<lambda>_. Inr (''first'', digest_of CHR ''4'')) ls_ready ls_owner
     (ls_reserve ''worker 1'' 1 (ref_of CHR ''a'')) None 40 ls_ready)"

definition ls_launch :: worker_launch where
  "ls_launch = reserved_launch ls_owner (ls_reserve ''worker 1'' 1 (ref_of CHR ''a'')) None 40 120040"

lemma ls_reserved:
  "ls_reserved = ls_ready\<lparr>db_fence := Some (fence_at 1 40), db_launches := [ls_launch]\<rparr>"
  unfolding ls_reserved_def ls_ready
  by (simp add: reserve_worker_launch_def reserve_reads_def reserve_row_def ls_defs ls_transaction
      assert_run_can_activate_def unretired_launches_def read_required_generation_def add_duration_def
      activation_deadline_ms_def last_canonical_ms_def
      add_launch_def insert_worker_launch_def decode_worker_launch_def launch_row_ok_def launch_identity_ok_def
      bound_launch_ok_def no_identity_def no_lease_def no_retirement_def worker_launches_validate_insert_def
      present_def ls_reserve_def reserved_launch_def ls_launch_def
      materializing_generation_def ls_generation_def ls_ready_generation_def)

definition ls_identity :: "string \<Rightarrow> int \<Rightarrow> worker_identity" where
  "ls_identity launchId epoch =
     \<lparr>wi_launchId = launchId, wi_supervisorInstanceId = ''supervisor'', wi_spawnNonceDigest = digest_of CHR ''9'',
      wi_activationNonceDigest = digest_of CHR ''c'', wi_intendedLeaseEpoch = epoch, wi_processContainmentRef = ref_of CHR ''f''\<rparr>"

definition ls_preactivated :: kernel_db where
  "ls_preactivated = snd (record_worker_preactivated ls_hash (\<lambda>_ _ _. Inr ()) (Inr (ls_identity ''worker 1'' 1)) ls_reserved ls_owner
     ''worker 1'' (digest_of CHR ''b'') (ref_of CHR ''f'') 50 ls_reserved)"

definition ls_preactivated_launch :: worker_launch where
  "ls_preactivated_launch = ls_launch\<lparr>wl_phase := Launch_preactivated, wl_workerIdentityDigest := Some (digest_of CHR ''b''),
     wl_processContainmentRef := Some (ref_of CHR ''f'')\<rparr>"

lemma ls_preactivated:
  "ls_preactivated = ls_ready\<lparr>db_fence := Some (fence_at 1 50), db_launches := [ls_preactivated_launch]\<rparr>"
  unfolding ls_preactivated_def ls_reserved ls_ready
  by (simp add: record_worker_preactivated_def preactivate_reads_def preactivate_row_def ls_defs ls_transaction
      assert_run_can_activate_def unretired_launches_def read_required_worker_launch_def assert_worker_identity_matches_def
      put_launch_def update_worker_launch_def decode_worker_launch_def launch_row_ok_def launch_identity_ok_def identity_bound_def
      bound_launch_ok_def no_identity_def no_lease_def no_retirement_def worker_launches_validate_update_def launch_transitions_def
      present_def ls_reserve_def reserved_launch_def ls_launch_def ls_preactivated_launch_def ls_identity_def)

definition ls_active :: kernel_db where
  "ls_active = snd (activate_worker_lease ls_hash ls_owner ''worker 1'' 1 2 1000 60 ls_preactivated)"

definition ls_active_launch :: worker_launch where
  "ls_active_launch = activated_launch ls_preactivated_launch 1 1060 60"

definition ls_active_generation :: workspace_generation where
  "ls_active_generation = ls_ready_generation\<lparr>wg_phase := Generation_active, wg_rowVersion := 3, wg_updatedAt := 60,
     wg_activeWorkerLaunchId := Some ''worker 1'', wg_leaseEpoch := Some 1\<rparr>"

definition ls_active_run :: run where
  "ls_active_run = ls_run\<lparr>run_status := Run_running, run_revision := 2, run_leaseEpoch := 1,
     run_activeWorkerLaunchId := Some ''worker 1'', run_updatedAt := 60\<rparr>"

lemmas ls_put_launch = read_required_worker_launch_def read_generation_by_ref_def
      put_launch_def update_worker_launch_def decode_worker_launch_def launch_row_ok_def launch_identity_ok_def identity_bound_def
      bound_launch_ok_def no_identity_def no_lease_def no_retirement_def worker_launches_validate_update_def launch_transitions_def
      present_def lease_bound_def unretired_launches_def

lemmas ls_put_generation = put_generation_def update_workspace_generation_def decode_workspace_generation_state_def generation_row_ok_def
      generation_base_ok_def no_holder_def no_fence_def no_end_def workspace_generations_validate_update_def generation_transitions_def
      pair_ok_def optional_def holder_ok_def

definition ls_event :: "int \<Rightarrow> run \<Rightarrow> int \<Rightarrow> run_event" where
  "ls_event n a t =
     \<lparr>ev_eventSeq = n, ev_runRevision = run_revision a, ev_status = run_status a, ev_nextStep = run_nextStep a,
      ev_latestRunItemSeq = 0, ev_frontierRef = run_frontierRef a, ev_waitingReason = run_waitingReason a,
      ev_waitingOnRef = run_waitingOnRef a, ev_resultRef = run_resultRef a, ev_terminalReason = run_terminalReason a,
      ev_terminalDetailRef = run_terminalDetailRef a, ev_occurredAt = t\<rparr>"

lemma ls_active:
  "ls_active = ls_ready\<lparr>db_fence := Some (fence_at 1 60), db_launches := [ls_active_launch],
     db_generations := [ls_active_generation], db_runs := [''run'' \<mapsto> ls_active_run], 
     db_events := (\<lambda>_. [])(''run'' := [ls_event 1 ls_active_run 60])\<rparr>"
  unfolding ls_active_def ls_preactivated ls_ready
  by (simp add: activate_worker_lease_def activate_worker_lease_at_current_cut_def activate_row_def ls_defs ls_transaction
      assert_run_can_activate_def initial_lease_end_def max_lease_extension_ms_def add_duration_def last_canonical_ms_def
      ls_put_launch ls_put_generation update_run_row_def append_run_state_event_def next_run_event_sequence_def
      ls_reserve_def reserved_launch_def ls_launch_def ls_preactivated_launch_def materializing_generation_def
      ls_generation_def ls_ready_generation_def ls_active_launch_def activated_launch_def ls_active_generation_def ls_active_run_def
      ls_event_def max_of_def)

section \<open>Its end\<close>

definition ls_revoking :: kernel_db where
  "ls_revoking = snd (begin_generation_revocation ls_hash ls_owner ''worker 1'' 1 3 ''quiesce'' 70 ls_active)"

definition ls_checkpointing :: kernel_db where
  "ls_checkpointing = snd (begin_generation_checkpoint ls_hash ls_owner ''worker 1'' 1 4 ''quiesce'' 80 ls_revoking)"

definition ls_quiet_launch :: "generation_phase \<Rightarrow> worker_launch" where
  "ls_quiet_launch p = ls_active_launch\<lparr>wl_generationWriteState := Some p, wl_quiesceId := Some ''quiesce''\<rparr>"

definition ls_quiet_generation :: "generation_phase \<Rightarrow> int \<Rightarrow> int \<Rightarrow> workspace_generation" where
  "ls_quiet_generation p v t = ls_active_generation\<lparr>wg_phase := p, wg_rowVersion := v, wg_updatedAt := t, wg_quiesceId := Some ''quiesce''\<rparr>"

lemmas ls_rows = ls_reserve_def reserved_launch_def ls_launch_def ls_preactivated_launch_def materializing_generation_def
      ls_generation_def ls_ready_generation_def ls_active_launch_def activated_launch_def ls_active_generation_def ls_active_run_def
      ls_quiet_launch_def ls_quiet_generation_def

lemma ls_revoking:
  "ls_revoking = ls_active\<lparr>db_fence := Some (fence_at 1 70), db_launches := [ls_quiet_launch Generation_revoking],
     db_generations := [ls_quiet_generation Generation_revoking 4 70]\<rparr>"
  unfolding ls_revoking_def ls_active ls_ready
  by (simp add: begin_generation_revocation_def revocation_row_def ls_defs ls_transaction ls_put_launch ls_put_generation ls_rows)

lemma ls_checkpointing:
  "ls_checkpointing = ls_active\<lparr>db_fence := Some (fence_at 1 80), db_launches := [ls_quiet_launch Generation_checkpointing],
     db_generations := [ls_quiet_generation Generation_checkpointing 5 80]\<rparr>"
  unfolding ls_checkpointing_def ls_revoking ls_active ls_ready
  by (simp add: begin_generation_checkpoint_def checkpointing_row_def ls_defs ls_transaction ls_put_launch ls_put_generation ls_rows)

definition ls_seal :: seal_input where
  "ls_seal =
     \<lparr>sl_launchId = ''worker 1'', sl_expectedRunRevision = 2, sl_expectedGenerationRowVersion = 5, sl_quiesceId = ''quiesce'',
      sl_checkpointId = ''sealed'', sl_contextManifestRef = ref_of CHR ''0'', sl_workspaceStateRef = ref_of CHR ''1'',
      sl_snapshotEvidenceRef = ref_of CHR ''8'', sl_snapshotEvidenceDigest = digest_of CHR ''8'',
      sl_retirementEvidenceRef = ref_of CHR ''2'', sl_checkpointReason = ''seal''\<rparr>"

definition ls_contents :: seal_artifacts where
  "ls_contents =
     \<lparr>sa_typed = False, sa_contextRunId = ''run'', sa_contextThroughItemSeq = 0, sa_state = ls_state,
      sa_treeDigest = digest_of CHR ''6'', sa_snapshot = ls_snapshot ''sealed_to_checkpoint'' (ref_of CHR ''a'') ''sealed''\<rparr>"

definition ls_sealed :: kernel_db where
  "ls_sealed = snd (seal_worker_generation ls_hash (\<lambda>_. Inr ls_contents) (\<lambda>_ _ _. Inl Type_error) (\<lambda>st. (Inr (), st))
     ls_checkpointing ls_owner ls_seal 90 90 ls_checkpointing)"

definition ls_sealed_run :: run where
  "ls_sealed_run = ls_active_run\<lparr>run_status := Run_queued, run_revision := 3, run_activeWorkerLaunchId := None,
     run_latestCheckpointId := ''sealed'', run_updatedAt := 90\<rparr>"

definition ls_sealed_launch :: worker_launch where
  "ls_sealed_launch = sealed_launch (ls_quiet_launch Generation_checkpointing) (ref_of CHR ''2'') 90"

definition ls_sealed_generation :: workspace_generation where
  "ls_sealed_generation = sealed_generation (ls_quiet_generation Generation_checkpointing 5 80) (digest_of CHR ''6'') (ref_of CHR ''8'')
     (digest_of CHR ''8'') 90"

definition ls_sealed_checkpoint :: checkpoint where
  "ls_sealed_checkpoint = ls_checkpoint\<lparr>ck_id := ''sealed'', ck_basedOnRunRevision := 2, ck_createdAt := 90, ck_reason := ''seal''\<rparr>"

lemma ls_sealed:
  "ls_sealed = ls_ready\<lparr>db_fence := Some (fence_at 1 90), db_launches := [ls_sealed_launch],
     db_generations := [ls_sealed_generation], db_checkpoints := [ls_checkpoint, ls_sealed_checkpoint],
     db_runs := [''run'' \<mapsto> ls_sealed_run],
     db_events := (\<lambda>_. [])(''run'' := [ls_event 1 ls_active_run 60, ls_event 2 ls_sealed_run 90])\<rparr>"
  unfolding ls_sealed_def ls_checkpointing ls_active ls_ready
  by (simp add: seal_worker_generation_def seal_reads_def seal_row_def seal_guards_def add_checkpoint_def ls_defs ls_transaction
      ls_seal_def ls_contents_def snapshot_matches_state_def next_seq_def
      ls_put_launch ls_put_generation ls_rows update_run_row_def append_run_state_event_def next_run_event_sequence_def
      sealed_launch_def sealed_generation_def ls_sealed_launch_def ls_sealed_generation_def ls_sealed_checkpoint_def
      ls_sealed_run_def ls_event_def max_of_def)

section \<open>The second worker\<close>

definition ls_registered_again :: kernel_db where
  "ls_registered_again = snd (register_workspace_generation ls_closure ls_sealed ls_owner ''run'' (ref_of CHR ''7'')
     (digest_of CHR ''4'') (Inr (the (ls_ids (ref_of CHR ''7'')))) (Inr ls_state) (Inr (digest_of CHR ''6'')) 100 ls_sealed)"

definition ls_ready_again :: kernel_db where
  "ls_ready_again = snd (record_workspace_generation_preactivated ls_registered_again ls_owner ''second'' 1 (ref_of CHR ''8'')
     (digest_of CHR ''8'') (Inr (ls_snapshot ''materialized_from_checkpoint'' (ref_of CHR ''7'') ''sealed'')) (Inr ls_state)
     (Inr (digest_of CHR ''6'')) 110 ls_registered_again)"

definition ls_reserved_again :: kernel_db where
  "ls_reserved_again = snd (reserve_worker_launch ls_hash (\<lambda>_. Inr (''second'', digest_of CHR ''4'')) ls_ready_again ls_owner
     (ls_reserve ''worker 2'' 3 (ref_of CHR ''7'')) None 120 ls_ready_again)"

definition ls_preactivated_again :: kernel_db where
  "ls_preactivated_again = snd (record_worker_preactivated ls_hash (\<lambda>_ _ _. Inr ()) (Inr (ls_identity ''worker 2'' 2))
     ls_reserved_again ls_owner ''worker 2'' (digest_of CHR ''b'') (ref_of CHR ''f'') 130 ls_reserved_again)"

definition ls_active_again :: kernel_db where
  "ls_active_again = snd (activate_worker_lease ls_hash ls_owner ''worker 2'' 3 2 1000 140 ls_preactivated_again)"

definition ls_second_generation :: workspace_generation where
  "ls_second_generation = materializing_generation ''run'' (ref_of CHR ''7'') (the (ls_ids (ref_of CHR ''7''))) 100"

definition ls_second_ready :: workspace_generation where
  "ls_second_ready = ls_second_generation\<lparr>wg_phase := Generation_preactivated_readonly, wg_rowVersion := 2, wg_updatedAt := 110,
     wg_snapshotEvidence := (Some (ref_of CHR ''8''), Some (digest_of CHR ''8''))\<rparr>"

definition ls_second_launch :: worker_launch where
  "ls_second_launch = reserved_launch ls_owner (ls_reserve ''worker 2'' 3 (ref_of CHR ''7'')) None 120 120120"

definition ls_second_preactivated :: worker_launch where
  "ls_second_preactivated = ls_second_launch\<lparr>wl_phase := Launch_preactivated, wl_workerIdentityDigest := Some (digest_of CHR ''b''),
     wl_processContainmentRef := Some (ref_of CHR ''f'')\<rparr>"

definition ls_second_active :: worker_launch where
  "ls_second_active = activated_launch ls_second_preactivated 2 1140 140"

definition ls_second_held :: workspace_generation where
  "ls_second_held = ls_second_ready\<lparr>wg_phase := Generation_active, wg_rowVersion := 3, wg_updatedAt := 140,
     wg_activeWorkerLaunchId := Some ''worker 2'', wg_leaseEpoch := Some 2\<rparr>"

definition ls_second_run :: run where
  "ls_second_run = ls_sealed_run\<lparr>run_status := Run_running, run_revision := 4, run_leaseEpoch := 2,
     run_activeWorkerLaunchId := Some ''worker 2'', run_updatedAt := 140\<rparr>"

lemmas ls_sealed_rows = ls_sealed_run_def ls_sealed_launch_def ls_sealed_generation_def ls_sealed_checkpoint_def sealed_launch_def
  sealed_generation_def

lemma ls_registered_again:
  "ls_registered_again = ls_sealed\<lparr>db_fence := Some (fence_at 1 100), db_generations := [ls_sealed_generation, ls_second_generation]\<rparr>"
  unfolding ls_registered_again_def ls_sealed ls_ready
  by (simp add: register_workspace_generation_def register_reads_def register_row_def ls_defs ls_transaction ls_sealed_rows
      add_generation_def insert_workspace_generation_def ls_put_generation workspace_generations_validate_insert_def
      ls_rows ls_second_generation_def)

lemma ls_ready_again:
  "ls_ready_again = ls_sealed\<lparr>db_fence := Some (fence_at 1 110), db_generations := [ls_sealed_generation, ls_second_ready]\<rparr>"
  unfolding ls_ready_again_def ls_registered_again ls_sealed ls_ready
  by (simp add: record_workspace_generation_preactivated_def preactivate_generation_row_def snapshot_matches_state_def
      ls_defs ls_transaction ls_sealed_rows ls_put_generation read_required_generation_def
      assert_snapshot_matches_generation_def ls_rows ls_second_generation_def ls_second_ready_def)

lemma ls_reserved_again:
  "ls_reserved_again = ls_ready_again\<lparr>db_fence := Some (fence_at 1 120), db_launches := [ls_sealed_launch, ls_second_launch]\<rparr>"
  unfolding ls_reserved_again_def ls_ready_again ls_sealed ls_ready
  by (simp add: reserve_worker_launch_def reserve_reads_def reserve_row_def ls_defs ls_transaction ls_sealed_rows
      assert_run_can_activate_def read_required_generation_def add_duration_def activation_deadline_ms_def last_canonical_ms_def
      add_launch_def insert_worker_launch_def ls_put_launch worker_launches_validate_insert_def ls_rows
      ls_second_generation_def ls_second_ready_def ls_second_launch_def)

lemma ls_preactivated_again:
  "ls_preactivated_again = ls_ready_again\<lparr>db_fence := Some (fence_at 1 130), db_launches := [ls_sealed_launch, ls_second_preactivated]\<rparr>"
  unfolding ls_preactivated_again_def ls_reserved_again ls_ready_again ls_sealed ls_ready
  by (simp add: record_worker_preactivated_def preactivate_reads_def preactivate_row_def ls_defs ls_transaction ls_sealed_rows
      assert_run_can_activate_def assert_worker_identity_matches_def ls_put_launch ls_rows
      ls_second_launch_def ls_second_preactivated_def ls_identity_def)

lemma ls_active_again:
  "ls_active_again = ls_sealed\<lparr>db_fence := Some (fence_at 1 140), db_launches := [ls_sealed_launch, ls_second_active],
     db_generations := [ls_sealed_generation, ls_second_held], db_runs := [''run'' \<mapsto> ls_second_run],
     db_events := (\<lambda>_. [])(''run'' := [ls_event 1 ls_active_run 60, ls_event 2 ls_sealed_run 90, ls_event 3 ls_second_run 140])\<rparr>"
  unfolding ls_active_again_def ls_preactivated_again ls_ready_again ls_sealed ls_ready
  by (simp add: activate_worker_lease_def activate_worker_lease_at_current_cut_def activate_row_def ls_defs ls_transaction
      assert_run_can_activate_def initial_lease_end_def max_lease_extension_ms_def add_duration_def last_canonical_ms_def
      ls_put_launch ls_put_generation update_run_row_def append_run_state_event_def next_run_event_sequence_def
      ls_rows ls_sealed_rows ls_second_generation_def ls_second_ready_def ls_second_launch_def ls_second_preactivated_def
      ls_second_active_def ls_second_held_def ls_second_run_def ls_event_def max_of_def)

section \<open>The loss of the second worker\<close>

definition ls_cut :: recovery_cut where
  "ls_cut =
     \<lparr>rc_run = ls_second_run, rc_latestCheckpoint = ls_sealed_checkpoint, rc_launches = [ls_second_active],
      rc_generations = [ls_sealed_generation, ls_second_held], rc_journal = []\<rparr>"

definition ls_fenced :: kernel_db where
  "ls_fenced = snd (begin_worker_recovery ls_hash (\<lambda>_. digest_of CHR ''3'') (\<lambda>_ _. Inr ls_cut) ls_active_again ls_owner
     \<lparr>rv_runId = ''run'', rv_expectedRunRevision = 4\<rparr> 150 150 ls_active_again)"

definition ls_wait :: worker_death_wait where
  "ls_wait = worker_wait ls_cut ls_second_active ls_second_held (ref_of CHR ''2'') (digest_of CHR ''b'') (ref_of CHR ''f'') [] 150"

definition ls_fenced_launch :: worker_launch where
  "ls_fenced_launch = ls_second_active\<lparr>wl_phase := Launch_reconciling, wl_generationWriteState := Some Generation_fenced_reconciling\<rparr>"

definition ls_fenced_run :: run where
  "ls_fenced_run = ls_second_run\<lparr>run_status := Run_waiting, run_waitingReason := Some Waiting_reconciliation,
     run_waitingOnRef := Some (Wait_artifact ls_wait), run_activeWorkerLaunchId := None, run_revision := 5, run_updatedAt := 150\<rparr>"

lemmas ls_second_rows = ls_second_generation_def ls_second_ready_def ls_second_launch_def ls_second_preactivated_def
      ls_second_active_def ls_second_held_def ls_second_run_def

lemma ls_fenced:
  "db_launches ls_fenced = [ls_sealed_launch, ls_fenced_launch]" "db_runs ls_fenced = [''run'' \<mapsto> ls_fenced_run]"
  unfolding ls_fenced_def ls_active_again ls_sealed ls_ready
  by (simp_all add: begin_worker_recovery_def recovery_reads_def recovery_input_ok_def recovery_subjects_def ls_cut_def
      open_worker_invocations_def worker_wait_def recovery_transaction_def unchanged_cut_def next_journal_sequence_def next_seq_def
      begin_recovery_row_def fenced_generation_def run_waits_def state_operation_def
      ls_defs ls_transaction ls_sealed_rows ls_put_launch ls_put_generation ls_rows ls_second_rows ls_wait_def
      ls_fenced_launch_def ls_fenced_run_def append_run_state_event_def next_run_event_sequence_def max_of_def ls_event_def)

section \<open>Every step is one\<close>

lemma later_refl: "lease_reachable idh ids w \<Longrightarrow> lease_later idh ids w w"
  by (simp add: lease_later_def)

lemma later_reachable: "lease_later idh ids past w \<Longrightarrow> lease_reachable idh ids w"
proof -
  assume l: "lease_later idh ids past w"
  then have "(lease_step idh ids)\<^sup>*\<^sup>* past w" and p: "lease_reachable idh ids past" by (simp_all add: lease_later_def)
  then show ?thesis by (induction rule: rtranclp_induct) (auto intro: lease_reachable.step)
qed

lemma later_step: "lease_later idh ids past w \<Longrightarrow> lease_step idh ids w w' \<Longrightarrow> lease_later idh ids past w'"
  by (auto simp: lease_later_def intro: rtranclp.rtrancl_into_rtrancl)

lemma ls_decodes: "decodes ls_ids ref (Inr (the (ls_ids ref)))"
  by (simp add: decodes_def ls_ids_def)

lemma ls_of_run: "generation_of_run ls_ids ref (ri_runId (ls_reserve k v g))"
  by (simp add: generation_of_run_def ls_ids_def ls_reserve_def)

lemma later_register:
  "lease_later idh ls_ids past w \<Longrightarrow> lease_later idh ls_ids past
     (snd (register_workspace_generation closure w0 owner r ref digest (Inr (the (ls_ids ref))) state tree now w))"
  by (erule later_step) (rule lease_step.register [OF ls_decodes prod.collapse [symmetric]])

lemma later_reserve:
  "lease_later idh ls_ids past w \<Longrightarrow> lease_later idh ls_ids past
     (snd (reserve_worker_launch idh reserving w0 owner (ls_reserve k v g) binding now w))"
  by (erule later_step) (rule lease_step.reserve [OF _ prod.collapse [symmetric]], simp add: ls_of_run)

lemma later_ready:
  "lease_later idh ids past w \<Longrightarrow> lease_later idh ids past
     (snd (record_workspace_generation_preactivated w0 owner k v ref digest evidence state tree now w))"
  by (erule later_step) (rule lease_step.ready [OF prod.collapse [symmetric]])

lemma later_preactivate:
  "lease_later idh ids past w \<Longrightarrow> lease_later idh ids past
     (snd (record_worker_preactivated idh identified identity w0 owner k digest containment now w))"
  by (erule later_step) (rule lease_step.preactivate [OF prod.collapse [symmetric]])

lemma later_activate:
  "lease_later idh ids past w \<Longrightarrow> lease_later idh ids past (snd (activate_worker_lease idh owner k revision version duration now w))"
  by (erule later_step) (rule lease_step.activate [OF prod.collapse [symmetric]])

lemma later_revoke:
  "lease_later idh ids past w \<Longrightarrow> lease_later idh ids past (snd (begin_generation_revocation idh owner k version v q now w))"
  by (erule later_step) (rule lease_step.revoke [OF prod.collapse [symmetric]])

lemma later_checkpoint:
  "lease_later idh ids past w \<Longrightarrow> lease_later idh ids past (snd (begin_generation_checkpoint idh owner k version v q now w))"
  by (erule later_step) (rule lease_step.checkpoint [OF prod.collapse [symmetric]])

lemma later_seal:
  "lease_later idh ids past w \<Longrightarrow> lease_later idh ids past
     (snd (seal_worker_generation idh contents proof refresh w0 owner i now sampled w))"
  by (erule later_step) (rule lease_step.seal [OF prod.collapse [symmetric]])

lemma later_fence:
  "lease_later idh ids past w \<Longrightarrow> lease_later idh ids past
     (snd (begin_worker_recovery idh digest closure w0 owner i sampled now w))"
  by (erule later_step) (rule lease_step.fence [OF prod.collapse [symmetric]])

lemmas later_operations = later_register later_reserve later_ready later_preactivate later_activate later_revoke
  later_checkpoint later_seal later_fence

lemma reach_admitted: "lease_reachable ls_hash ls_ids ls_admitted"
proof -
  have "lease_reachable ls_hash ls_ids ls_empty"
    by (rule lease_reachable.start) (simp add: lease_start_def ls_empty_def)
  moreover have "lease_elsewhere ls_empty ls_admitted"
    by (auto simp: lease_elsewhere_def ls_empty_def ls_admitted_def accepted_at_def ls_run_def idle_def)
  ultimately show ?thesis by (blast intro: lease_reachable.step lease_step.other)
qed

lemma later_preactivated: "lease_later ls_hash ls_ids ls_admitted ls_preactivated"
  unfolding ls_preactivated_def ls_reserved_def ls_ready_def ls_registered_def
  by (intro later_operations later_refl reach_admitted)

lemma later_active: "lease_later ls_hash ls_ids ls_admitted ls_active"
  unfolding ls_active_def by (intro later_operations later_preactivated)

lemma later_sealed: "lease_later ls_hash ls_ids ls_admitted ls_sealed"
  unfolding ls_sealed_def ls_checkpointing_def ls_revoking_def by (intro later_operations later_active)

lemma later_second: "lease_later ls_hash ls_ids ls_sealed ls_active_again"
  unfolding ls_active_again_def ls_preactivated_again_def ls_reserved_again_def ls_ready_again_def ls_registered_again_def
  by (intro later_operations later_refl later_reachable [OF later_sealed])

lemma later_fenced: "lease_later ls_hash ls_ids ls_sealed ls_fenced"
  unfolding ls_fenced_def by (intro later_operations later_second)

lemmas reach_samples = later_reachable [OF later_preactivated] later_reachable [OF later_active]
  later_reachable [OF later_second] later_reachable [OF later_fenced]

end
