(* ===== verification/Lease_Properties.thy ===== *)
theory Lease_Properties
  imports Lease_Grant Lease_Sample
begin

text \<open>
  What the lease of a worker guarantees, in every state that the system of leases reaches, and from then on.
\<close>

section \<open>Who works on a run\<close>

text \<open>C5.  In every state that the operations on workers reach, a run is running just when it names a worker; it names
  a worker just when that worker's launch is its only one that is not retired, is activated under the epoch of the run,
  and holds the only generation of the run that is held, under the same epoch.\<close>

theorem worker_authority_is_exclusive:
  assumes "lease_reachable idh ids w" and "db_runs w r = Some a"
  shows "(run_status a = Run_running \<longleftrightarrow> run_activeWorkerLaunchId a \<noteq> None) \<and>
    (run_activeWorkerLaunchId a = Some k \<longleftrightarrow>
       (\<exists>l g. filter (\<lambda>l. wl_phase l \<noteq> Launch_retired) (launches_of w r) = [l] \<and> wl_launchId l = k \<and>
          wl_phase l = Launch_activated \<and> wl_leaseEpoch l = Some (run_leaseEpoch a) \<and> holders_of w r = [g] \<and>
          wl_workspaceGenerationRef l = Some (wg_generationRef g) \<and> wl_generationWriteState l = Some (wg_phase g) \<and>
          wg_activeWorkerLaunchId g = Some k \<and> wg_leaseEpoch g = Some (run_leaseEpoch a)))"
  unfolding retired_or_not [OF lease_reachable_now [OF assms(1)], symmetric]
  using reachable_run [OF assms]
  by (auto simp: current_ok_def idle_def held_lease_def fenced_lease_def matches_holder_def
      split: list.splits launch_phase.splits)

lemma ls_second_in: "ls_second_active \<in> set (db_launches ls_active_again)" "db_runs ls_active_again ''run'' = Some ls_second_run"
  "ls_fenced_launch \<in> set (db_launches ls_fenced)" "db_runs ls_fenced ''run'' = Some ls_fenced_run"
  "ls_sealed_launch \<in> set (db_launches ls_sealed)"
  by (simp_all add: ls_active_again ls_fenced ls_sealed)

lemma ls_second_run_id: "wl_runId ls_second_active = ''run''" "wl_runId ls_fenced_launch = ''run''" "wl_runId ls_sealed_launch = ''run''"
  by (simp_all add: ls_fenced_launch_def ls_second_rows ls_sealed_rows ls_rows)

theorem worker_authority_is_exclusive_witness:
  "\<exists>l g. filter (\<lambda>l. wl_phase l \<noteq> Launch_retired) (launches_of ls_active_again ''run'') = [l] \<and> wl_launchId l = ''worker 2'' \<and>
     holders_of ls_active_again ''run'' = [g] \<and> wg_leaseEpoch g = Some 2"
  using worker_authority_is_exclusive [OF reach_samples(3) ls_second_in(2), of "''worker 2''"]
  by (auto simp: ls_second_run_def)

section \<open>A worker that lost its lease\<close>

text \<open>C6.  A worker whose launch was once fenced or retired never dispatches again, however the system goes on: a check
  of the dispatch of its run never comes to its launch, and it fails for every request that carries an epoch up to the
  one that the worker had.\<close>

theorem lost_worker_stays_fenced:
  assumes later: "lease_later idh ids past w" and l: "l \<in> set (db_launches past)"
    and lost: "wl_phase l \<in> {Launch_reconciling, Launch_retired}"
    and dispatch: "assert_live_dispatch_state w owner (wl_runId l) revision epoch now = Inr (a, m, g)"
  shows "wl_launchId m \<noteq> wl_launchId l \<and> (\<forall>e. wl_leaseEpoch l = Some e \<longrightarrow> e < epoch)"
proof -
  have ok: "lease_ok idh ids past w" by (rule lease_later_ok [OF later])
  then have "since past w" by (simp add: lease_ok_def)
  with l obtain l' where l': "l' \<in> set (db_launches w)" "follows l l'" unfolding since_def by blast
  with lost have p: "wl_phase l' \<in> {Launch_reconciling, Launch_retired}" "wl_launchId l' = wl_launchId l" "wl_runId l' = wl_runId l"
    using phase_ends by (auto simp: follows_def)
  note d = live_dispatch_launch [OF dispatch]
  have r: "run_lease_ok w (accepted_at w) (wl_runId l)" using ok by (simp add: lease_ok_def)
  with d have i: "run_id a = wl_runId l" and ds: "distinct (lease_epochs (launches_of w (wl_runId l)))"
    and le: "\<forall>e\<in>set (lease_epochs (launches_of w (wl_runId l))). e \<le> epoch"
    by (simp_all add: run_lease_ok_def)
  have ml: "m \<in> set (launches_of w (wl_runId l))" "l' \<in> set (launches_of w (wl_runId l))"
    using d i l' p by (simp_all add: launches_of_def)
  have ne: "m \<noteq> l'" using d p by auto
  have "wl_launchId m \<noteq> wl_launchId l" using same_launch [OF ok _ l'(1)] d ne p(2) by auto
  moreover have "e < epoch" if "wl_leaseEpoch l = Some e" for e
  proof -
    from that l'(2) have e: "wl_leaseEpoch l' = Some e" by (simp add: follows_def)
    have "e \<noteq> epoch" using same_epoch_same_launch [OF ds ml] d e ne by auto
    with le lease_epochs_mem [OF ml(2) e] show ?thesis by force
  qed
  ultimately show ?thesis by simp
qed

lemma ls_second_dispatch:
  "assert_live_dispatch_state ls_active_again ls_owner ''run'' 4 2 200 = Inr (ls_second_run, ls_second_active, ls_second_held)"
  unfolding ls_active_again ls_sealed ls_ready
  by (simp add: assert_live_dispatch_state_def read_run_def ls_put_launch ls_rows ls_sealed_rows ls_second_rows ls_defs)

theorem lost_worker_stays_fenced_witness:
  "wl_launchId ls_second_active \<noteq> wl_launchId ls_sealed_launch \<and> wl_leaseEpoch ls_sealed_launch = Some 1 \<and> (1::int) < 2"
proof -
  have "wl_phase ls_sealed_launch \<in> {Launch_reconciling, Launch_retired}" by (simp add: ls_sealed_launch_def sealed_launch_def)
  moreover have "wl_leaseEpoch ls_sealed_launch = Some 1" by (simp add: ls_sealed_rows ls_rows)
  ultimately show ?thesis
    using lost_worker_stays_fenced [OF later_second ls_second_in(5) _ ls_second_dispatch [folded ls_second_run_id(3)]] by simp
qed

section \<open>How long a lease lasts\<close>

text \<open>C19.  Whatever was activated and renewed, a lease never ends after the deadline of its run, nor more than a minute
  after the last time the system accepted: once the clock is there, dispatching under it is refused.\<close>

theorem lease_is_bounded:
  assumes reach: "lease_reachable idh ids w" and l: "l \<in> set (db_launches w)" and p: "wl_phase l = Launch_activated"
    and a: "db_runs w (wl_runId l) = Some a"
  shows "(\<exists>t. wl_leaseExpiresAt l = Some t \<and> t \<le> run_deadlineAt a \<and> t \<le> accepted_at w + 60000) \<and>
    (\<forall>owner revision epoch now x. assert_live_dispatch_state w owner (wl_runId l) revision epoch now = Inr x \<longrightarrow>
       now < run_deadlineAt a \<and> now < accepted_at w + 60000)"
proof -
  note ok = lease_reachable_now [OF reach]
  from ok l p obtain b g where "db_runs w (wl_runId l) = Some b" and h: "held_lease l g b (accepted_at w)"
    by (rule activated_launch_current)
  with a have h: "held_lease l g a (accepted_at w)" by simp
  then have t: "\<exists>t. wl_leaseExpiresAt l = Some t \<and> t \<le> run_deadlineAt a \<and> t \<le> accepted_at w + 60000"
    by (auto simp: held_lease_def lease_bounded_def max_lease_extension_ms_def split: option.splits)
  have "now < run_deadlineAt a \<and> now < accepted_at w + 60000"
    if x: "assert_live_dispatch_state w owner (wl_runId l) revision epoch now = Inr x" for owner revision epoch now x
  proof -
    obtain b m g' where x': "x = (b, m, g')" by (cases x)
    note d = live_dispatch_launch [OF x [unfolded x']]
    with a h have "wl_launchId m = wl_launchId l" by (simp add: held_lease_def)
    with same_launch [OF ok _ l] d have "m = l" by blast
    with d t show ?thesis by auto
  qed
  with t show ?thesis by blast
qed

theorem lease_is_bounded_witness:
  "\<exists>t. wl_leaseExpiresAt ls_second_active = Some t \<and> t \<le> 100000 \<and> t \<le> accepted_at ls_active_again + 60000"
  using lease_is_bounded [OF reach_samples(3) ls_second_in(1), of ls_second_run] ls_second_in(2)
  by (simp add: ls_second_run_id) (simp add: ls_second_rows ls_sealed_rows ls_rows ls_run_def activated_launch_def)

section \<open>Refinement\<close>

text \<open>C8.  Seen run by run, everything that the operations on workers do is a run of the abstract lease machine: a
  lease is granted only to the worker it was promised to, under an epoch that is one more than the last, and is then
  ended, or fenced and later released; nothing else changes the epoch of a run.\<close>

theorem operations_refine_the_lease_machine:
  assumes "lease_reachable idh ids w" and "lease_step idh ids w w'"
  shows "view_steps (view_of w r) (view_of w' r)"
  using lease_step_ok [OF assms(2) lease_reachable_now [OF assms(1)]] by (simp add: lease_ok_def since_def)

theorem operations_refine_the_lease_machine_witness:
  "view_of ls_preactivated ''run'' = Some (0, Promised ''worker 1'') \<and> view_of ls_active ''run'' = Some (1, Held ''worker 1'') \<and>
   view_steps (view_of ls_preactivated ''run'') (view_of ls_active ''run'')"
proof -
  have "lease_step ls_hash ls_ids ls_preactivated ls_active"
    unfolding ls_active_def by (rule lease_step.activate [OF prod.collapse [symmetric]])
  from operations_refine_the_lease_machine [OF reach_samples(1) this]
  have "view_steps (view_of ls_preactivated ''run'') (view_of ls_active ''run'')" .
  moreover have "view_of ls_preactivated ''run'' = Some (0, Promised ''worker 1'')" "view_of ls_active ''run'' = Some (1, Held ''worker 1'')"
    by (simp_all add: ls_active ls_preactivated ls_ready view_of_def launches_of_def unretired_def lease_view_def ls_rows ls_defs)
  ultimately show ?thesis by simp
qed

section \<open>Probes\<close>

text \<open>C20.  A run that is fenced waits for the death of the one launch that it has, and its wait counts at most eight
  automatic probes: at most seven while another is to come, the ordinal of the one in flight with a deadline of thirty
  seconds, and eight when none is left.\<close>

theorem automatic_probes_are_bounded:
  assumes reach: "lease_reachable idh ids w" and l: "l \<in> set (db_launches w)" and p: "wl_phase l = Launch_reconciling"
    and a: "db_runs w (wl_runId l) = Some a"
  shows "\<exists>wait. run_status a = Run_waiting \<and> run_waitingOnRef a = Some (Wait_artifact wait) \<and>
    wd_oldWorkerLaunchId (ww_subject wait) = wl_launchId l \<and> Some (wd_oldLeaseEpoch (ww_subject wait)) = wl_leaseEpoch l \<and>
    (case ww_probeState wait of
       Probe_pending n _ evidence \<Rightarrow> 0 \<le> n \<and> n \<le> 7 \<and> (n = 0 \<longleftrightarrow> evidence = None)
     | Probe_in_flight n d \<Rightarrow> 1 \<le> n \<and> n \<le> 8 \<and> pd_probeOrdinal d = n \<and> pd_probeDeadlineAt d = pd_probeStartedAt d + 30000
     | Probe_exhausted n _ _ \<Rightarrow> n = 8
     | _ \<Rightarrow> False)"
proof -
  from lease_reachable_now [OF reach] l p obtain b g where "db_runs w (wl_runId l) = Some b" and f: "fenced_lease l g b"
    by (rule reconciling_launch_current)
  with a have "fenced_lease l g a" by simp
  then obtain wait where n: "run_status a = Run_waiting" "run_waitingOnRef a = Some (Wait_artifact wait)"
    "wait_names wait l g a" by (auto simp: fenced_lease_def)
  then have "probe_state_ok (ww_probeState wait)" by (simp add: wait_names_def)
  with n show ?thesis
    by (intro exI [of _ wait]) (cases "ww_probeState wait"; simp add: wait_names_def probe_lifetime_ms_def)
qed

theorem automatic_probes_are_bounded_witness:
  "run_waitingOnRef ls_fenced_run = Some (Wait_artifact ls_wait) \<and> ww_probeState ls_wait = Probe_pending 0 150 None \<and>
   wd_oldWorkerLaunchId (ww_subject ls_wait) = ''worker 2''"
proof -
  have "wl_phase ls_fenced_launch = Launch_reconciling" "wl_launchId ls_fenced_launch = ''worker 2''"
    "db_runs ls_fenced (wl_runId ls_fenced_launch) = Some ls_fenced_run"
    by (simp_all add: ls_second_run_id ls_second_in) (simp_all add: ls_fenced_launch_def ls_second_rows ls_rows)
  with automatic_probes_are_bounded [OF reach_samples(4) ls_second_in(3)] show ?thesis
    by (auto simp: ls_fenced_run_def ls_wait_def worker_wait_def)
qed

section \<open>Invocations under a lease\<close>

text \<open>C7.  A dispatch is claimed only by the worker that holds the lease: the claim that is recorded carries the epoch
  of the run, which is that of its only launch and of its only held generation, and it is recorded before that lease
  ends.  Claiming is itself a step that leaves every lease as it is.\<close>

theorem claims_are_made_under_the_lease:
  assumes reach: "lease_reachable idh ids w" and claim: "claim_validated_invocation w owner i validate now = (Inr e, w')"
  shows "lease_step idh ids w w' \<and> view_of w' = view_of w \<and>
    (\<exists>a l g t. db_runs w (ci_runId i) = Some a \<and> run_leaseEpoch a = je_leaseEpoch e \<and>
       filter (\<lambda>l. wl_phase l \<noteq> Launch_retired) (launches_of w (ci_runId i)) = [l] \<and> holders_of w (ci_runId i) = [g] \<and>
       wl_phase l = Launch_activated \<and> wl_leaseEpoch l = Some (je_leaseEpoch e) \<and> wg_leaseEpoch g = Some (je_leaseEpoch e) \<and>
       wl_leaseExpiresAt l = Some t \<and> now < t)"
proof -
  note ok = lease_reachable_now [OF reach]
  have e: "lease_elsewhere w w'" by (rule claim_elsewhere [OF claim])
  from claim_transaction [OF claim] have "fenced_transaction owner now (\<lambda>w. assert_active_state_owner w owner)
      (\<lambda>_ w1. claim_row w1 owner i validate now) w = (Inr e, w')" by auto
  then obtain f w1 where w1: "w1 = w\<lparr>db_fence := Some (fence_at (so_ownerEpoch owner) now)\<rparr>"
    and c: "claim_row w1 owner i validate now = Inr (e, w')"
    by (auto simp: fenced_transaction_def and_then_Inr run_transaction_Inr behind_fence_Some dest!: advance_healthy)
  from claim_row_Inr [OF c] obtain a m g where je: "je_leaseEpoch e = ci_leaseEpoch i" and j: "append_journal w1 e = Inr w'"
    and d: "assert_live_dispatch_state w1 owner (ci_runId i) (ci_expectedRunRevision i) (ci_leaseEpoch i) now = Inr (a, m, g)"
    unfolding is_ok_iff by (metis prod_cases3)
  have same: "db_launches w1 = db_launches w" "db_runs w1 = db_runs w" by (simp_all add: w1)
  note live = live_dispatch_launch [OF d, unfolded same]
  have a: "db_runs w (ci_runId i) = Some a" and m: "m \<in> set (db_launches w)" and p: "wl_phase m = Launch_activated"
    using live by simp_all
  have r: "wl_runId m = ci_runId i" using reachable_run [OF reach a] live by simp
  from p have "wl_phase m \<noteq> Launch_retired" by simp
  with ok m have u: "unretired (launches_of w (ci_runId i)) = [m]" by (rule current_launch) (simp add: r)
  from ok m p obtain b h where "db_runs w (ci_runId i) = Some b" "holders_of w (ci_runId i) = [h]" "held_lease m h b (accepted_at w)"
    by (rule activated_launch_current) (simp add: r)
  then have h: "holders_of w (ci_runId i) = [h]" "wg_leaseEpoch h = wl_leaseEpoch m" by (simp_all add: held_lease_def matches_holder_def)
  have "db_runs w' = db_runs w" "db_launches w' = db_launches w"
    using j same by (auto simp: append_journal_def and_then_Inr)
  then have v: "view_of w' = view_of w" by (simp add: fun_eq_iff view_of_def launches_of_def)
  show ?thesis
    using lease_step.other [OF e] v a live u h je by (auto simp: retired_or_not [OF ok])
qed

definition ls_tool :: prepare_invocation_input where
  "ls_tool =
     \<lparr>pi_runId = ''run'', pi_expectedRunRevision = 4, pi_leaseEpoch = 2, pi_opId = ''op'', pi_opKind = Op_tool,
      pi_target = ''bash'', pi_requestRef = ref_of CHR ''a'', pi_replayClass = Replay_manual,
      pi_idempotencyKey = None, pi_grantRef = None, pi_reservation = zero_budget\<lparr>bu_toolCalls := 1\<rparr>\<rparr>"

definition ls_claim :: claim_input where
  "ls_claim =
     \<lparr>ci_runId = ''run'', ci_expectedRunRevision = 5, ci_leaseEpoch = 2, ci_opId = ''op'', ci_attempt = 0,
      ci_dispatchId = ''dispatch'', ci_sandboxLaunchSpecRef = None, ci_brokerFenceTokenDigest = None\<rparr>"

definition ls_prepared :: kernel_db where
  "ls_prepared = snd (prepare_validated_invocation ls_active_again ls_owner ls_tool None 160)"

lemma reach_prepared: "lease_reachable ls_hash ls_ids ls_prepared"
  unfolding ls_prepared_def
  by (rule lease_reachable.step [OF reach_samples(3) lease_step.other]) (rule prepare_elsewhere [OF prod.collapse [symmetric]])

lemma ls_prepared_claim:
  "\<exists>e w. claim_validated_invocation ls_prepared ls_owner ls_claim no_claim_checks 170 = (Inr e, w) \<and> je_leaseEpoch e = 2"
proof -
  have "case fst (claim_validated_invocation ls_prepared ls_owner ls_claim no_claim_checks 170) of
      Inl _ \<Rightarrow> False | Inr e \<Rightarrow> je_leaseEpoch e = 2"
    unfolding ls_prepared_def ls_active_again ls_sealed ls_ready by code_simp
  then show ?thesis by (cases "claim_validated_invocation ls_prepared ls_owner ls_claim no_claim_checks 170") (auto split: sum.splits)
qed

theorem claims_are_made_under_the_lease_witness:
  "\<exists>e w l. claim_validated_invocation ls_prepared ls_owner ls_claim no_claim_checks 170 = (Inr e, w) \<and>
     filter (\<lambda>l. wl_phase l \<noteq> Launch_retired) (launches_of ls_prepared ''run'') = [l] \<and> wl_leaseEpoch l = Some 2"
proof -
  from ls_prepared_claim obtain e w where c: "claim_validated_invocation ls_prepared ls_owner ls_claim no_claim_checks 170 = (Inr e, w)"
    and e: "je_leaseEpoch e = 2" by blast
  have "ci_runId ls_claim = ''run''" by (simp add: ls_claim_def)
  with claims_are_made_under_the_lease [OF reach_prepared c] c e show ?thesis by auto
qed

section \<open>Granting a lease\<close>

text \<open>C18.  A worker that is preactivated for a queued run gets its lease when its supervisor asks for one of at most a
  minute that ends by the deadline of the run: no decoder and no trigger of the tables stands in the way, and from then
  on the run is that worker's, under the next epoch and until just then.\<close>

theorem preactivated_worker_gets_its_lease:
  assumes reach: "lease_reachable idh ids w" and c: "activatable w owner l a g" and n: "in_range w a g"
    and owner: "assert_active_state_owner w owner = Inr ()"
    and f: "db_fence w = Some f" "tf_state f = Clock_healthy" "tf_lastAcceptedAt f \<le> now" "0 \<le> now"
    and d: "1 \<le> duration" "duration \<le> 60000" "now + duration \<le> run_deadlineAt a" "run_deadlineAt a \<le> last_canonical_ms"
  shows "\<exists>a' g' w'. activate_worker_lease idh owner (wl_launchId l) (run_revision a) (wg_rowVersion g) duration now w =
      (Inr (a', activated_launch l (run_leaseEpoch a + 1) (now + duration) now, g'), w') \<and>
    run_status a' = Run_running \<and> wg_phase g' = Generation_active \<and> db_runs w' (wl_runId l) = Some a' \<and>
    view_of w' (wl_runId l) = Some (run_leaseEpoch a + 1, Held (wl_launchId l))"
proof -
  note ok = lease_reachable_now [OF reach]
  define w1 where "w1 = w\<lparr>db_fence := Some (fence_at (so_ownerEpoch owner) now)\<rparr>"
  define l' where "l' = activated_launch l (run_leaseEpoch a + 1) (now + duration) now"
  have ok1: "lease_ok idh ids w w1" unfolding w1_def by (rule lease_ok_fence [OF ok f(1,3)])
  have c1: "activatable w1 owner l a g" and n1: "in_range w1 a g"
    using c n by (simp_all add: activatable_def in_range_def w1_def next_run_event_sequence_def)
  have "initial_lease_end (Some duration) now (run_deadlineAt a) = Inr (now + duration)"
    using d f(4) by (simp add: initial_lease_end_def add_duration_def safe_integer_def max_safe_integer_def last_canonical_ms_def)
  from activate_row_grants [OF ok1 c1 n1 this] d obtain a' g' w' where
    row: "activate_row idh owner (wl_launchId l) (run_revision a) (wg_rowVersion g) (Some duration) now w1 = Inr ((a', l', g'), w')"
    and L: "db_launches w' = replace_row l l' (db_launches w1)" and R: "db_runs w' = (db_runs w1)(wl_runId l \<mapsto> a')"
    and g': "run_status a' = Run_running" "run_leaseEpoch a' = run_leaseEpoch a + 1" "wg_phase g' = Generation_active"
    unfolding l'_def by auto
  have call: "activate_worker_lease idh owner (wl_launchId l) (run_revision a) (wg_rowVersion g) duration now w =
      (Inr (a', l', g'), w')"
    using d row owner advance_healthy_fence [OF owner f(1-3)]
    by (simp add: activate_worker_lease_def activate_worker_lease_at_current_cut_def owned_transaction_def max_lease_extension_ms_def
        fenced_transaction_def run_transaction_Inr behind_fence_Some w1_def safe_integer_def max_safe_integer_def)
  have ok': "lease_ok idh ids w w'" by (rule lease_step_ok [OF lease_step.activate [OF call] ok])
  have "l \<in> set (db_launches w1)" using c1 by (simp add: activatable_def)
  then have m: "l' \<in> set (db_launches w')" unfolding L replace_row_def by force
  have r: "wl_runId l' = wl_runId l" "wl_launchId l' = wl_launchId l" "wl_phase l' = Launch_activated"
    by (simp_all add: l'_def activated_launch_def)
  then have "wl_phase l' \<noteq> Launch_retired" by simp
  with ok' m have "unretired (launches_of w' (wl_runId l)) = [l']" by (rule current_launch) (simp add: r)
  with R g' have "view_of w' (wl_runId l) = Some (run_leaseEpoch a + 1, Held (wl_launchId l))"
    using view_phases(2) [OF r(3)] by (simp add: view_of_def r)
  with call g' R show ?thesis by (auto simp: l'_def)
qed

theorem preactivated_worker_gets_its_lease_witness:
  "\<exists>a' g' w'. activate_worker_lease ls_hash ls_owner ''worker 1'' 1 2 1000 60 ls_preactivated =
     (Inr (a', activated_launch ls_preactivated_launch 1 1060 60, g'), w') \<and> view_of w' ''run'' = Some (1, Held ''worker 1'')"
proof -
  have i: "wl_launchId ls_preactivated_launch = ''worker 1''" "wl_runId ls_preactivated_launch = ''run''" "run_revision ls_run = 1"
    "wg_rowVersion ls_ready_generation = 2" "run_leaseEpoch ls_run = 0" "run_deadlineAt ls_run = 100000"
    by (simp_all add: ls_rows ls_run_def)
  have "activatable ls_preactivated ls_owner ls_preactivated_launch ls_run ls_ready_generation"
    by (simp add: activatable_def ls_preactivated ls_ready ls_rows ls_defs)
  moreover have "in_range ls_preactivated ls_run ls_ready_generation"
    by (simp add: in_range_def ls_preactivated ls_ready ls_rows ls_defs is_ok_iff next_run_event_sequence_def max_of_def
        safe_integer_def max_safe_integer_def)
  moreover have "assert_active_state_owner ls_preactivated ls_owner = Inr ()"
    by (simp add: assert_active_state_owner_def ls_preactivated ls_ready ls_defs read_time_fence_def int_at_least_def
        safe_integer_def max_safe_integer_def)
  moreover have "db_fence ls_preactivated = Some (fence_at 1 50)" by (simp add: ls_preactivated)
  ultimately show ?thesis
    using preactivated_worker_gets_its_lease [OF reach_samples(1), of ls_owner ls_preactivated_launch ls_run ls_ready_generation
      "fence_at 1 50" 60 1000]
    by (auto simp: i fence_at_def last_canonical_ms_def)
qed

section \<open>The proof that a worker is dead\<close>

text \<open>C21.  Refreshing the proof of a worker's death observes it at most three times in all; when it succeeds, the proof
  that was published last is of an observation that is at most five seconds old by then: of the expected containment and
  no older than the snapshot, or one that was left over from before.\<close>

theorem refreshed_proof_of_death_is_fresh:
  assumes "refresh_retirement reobserve publish clock containment snapshotAt st = (res, st')" and "rt_attempts st \<le> 3"
  shows "rt_attempts st' \<le> 3 \<and>
    (res = Inr () \<longrightarrow>
       rt_pending st' = None \<and> publish (rt_attempts st') = Inr (rt_finalRef st') \<and>
       rt_observedAt st' \<le> clock (rt_attempts st') \<and> clock (rt_attempts st') - rt_observedAt st' \<le> 5000 \<and>
       (rt_pending st = Some (rt_observedAt st') \<or>
        reobserve (rt_attempts st') = Inr (containment, rt_observedAt st') \<and> snapshotAt \<le> rt_observedAt st'))"
  using assms
proof (induction reobserve publish clock containment snapshotAt st arbitrary: res st' rule: refresh_retirement.induct)
  case (1 reobserve publish clock containment snapshotAt st)
  show ?case
  proof (cases "rt_pending st = None \<and> 3 \<le> rt_attempts st")
    case True
    with "1.prems" show ?thesis by (auto simp: refresh_retirement.simps)
  next
    case False
    obtain c st1 where c: "retirement_candidate reobserve containment snapshotAt st = (c, st1)" by force
    have k: "rt_attempts st1 \<le> 3 \<and> (\<forall>t. c = Inr t \<longrightarrow>
        rt_pending st = Some t \<or> reobserve (rt_attempts st1) = Inr (containment, t) \<and> snapshotAt \<le> t)"
      using c False "1.prems"(2)
      by (auto simp: retirement_candidate_def Let_def split: option.splits sum.splits if_splits prod.splits)
    note run = "1.prems"(1) [unfolded refresh_retirement.simps [of reobserve publish clock containment snapshotAt st]
      if_not_P [OF False] c prod.case]
    show ?thesis
    proof (cases c)
      case (Inl e)
      with k run show ?thesis by auto
    next
      case (Inr t)
      show ?thesis
      proof (cases "\<exists>ref. publish (rt_attempts st1) = Inr ref \<and> t \<le> clock (rt_attempts st1) \<and>
          proof_lifetime_ms < clock (rt_attempts st1) - t")
        case True
        with run Inr have "refresh_retirement reobserve publish clock containment snapshotAt (st1\<lparr>rt_pending := None\<rparr>) = (res, st')"
          by (auto simp: Let_def)
        with "1.IH" [OF False c [symmetric] Inr] True k show ?thesis by fastforce
      next
        case stop: False
        with Inr k run show ?thesis
          by (auto simp: Let_def proof_lifetime_ms_def split: sum.splits if_splits)
      qed
    qed
  qed
qed

text \<open>The first observation is published too late, the second in time.\<close>

definition ls_retirement :: retirement where
  "ls_retirement = \<lparr>rt_observedAt = 0, rt_finalRef = ref_of CHR ''0'', rt_attempts = 0, rt_pending = None\<rparr>"

definition ls_refreshed :: "unit kernel \<times> retirement" where
  "ls_refreshed = refresh_retirement (\<lambda>n. Inr (ref_of CHR ''f'', 6000 * int n)) (\<lambda>_. Inr (ref_of CHR ''2''))
     (\<lambda>n. 12500) (ref_of CHR ''f'') 100 ls_retirement"

lemma ls_refreshed: "fst ls_refreshed = Inr ()" "rt_attempts (snd ls_refreshed) = 2"
  by (simp_all add: ls_refreshed_def ls_retirement_def refresh_retirement.simps retirement_candidate_def proof_lifetime_ms_def)

theorem refreshed_proof_of_death_is_fresh_witness:
  "rt_attempts (snd ls_refreshed) = 2 \<and> rt_observedAt (snd ls_refreshed) = 12000 \<and> rt_finalRef (snd ls_refreshed) = ref_of CHR ''2''"
proof -
  have "refresh_retirement (\<lambda>n. Inr (ref_of CHR ''f'', 6000 * int n)) (\<lambda>_. Inr (ref_of CHR ''2''))
     (\<lambda>n. 12500) (ref_of CHR ''f'') 100 ls_retirement = (fst ls_refreshed, snd ls_refreshed)" by (simp add: ls_refreshed_def)
  from refreshed_proof_of_death_is_fresh [OF this] ls_refreshed show ?thesis by (auto simp: ls_retirement_def)
qed

end
