(* ===== verification/Spec2Isabelle.thy ===== *)
theory Spec2Isabelle
  imports Interactive_Policy Subjects Model_Retry Strict_Json Context_Window Tx_Gate Path_Lock Canonical_Json Ledger_Properties Ledger_Outcomes Lease_Properties
begin

text \<open>
  Verification of cliq-agent, a coding agent that runs model actions on a workspace.

  \<^bold>\<open>The program.\<close>  A turn of the agent asks a model for one action (\<open>src/protocol/model\<close>), decides whether the
  action may run (\<open>src/policy\<close>), runs it inside a workspace transaction (\<open>src/workspace/transactions\<close>,
  \<open>src/runtime/tx-runner.ts\<close>) and keeps the history it sends to the model bounded
  (\<open>src/runtime/context-compaction.ts\<close>).  Durable runs keep what they do in a state store: every dispatch of a model,
  a tool or a server is an attempt in a journal with a budget, written by \<open>src/state/reducers/invocation.ts\<close> and
  trusted after a restart only if \<open>src/state/recovery-closure.ts\<close> accepts it.  Attempts are dispatched by one worker at
  a time: \<open>src/state/reducers/worker-launch.ts\<close> and its neighbours give it a lease on the run and on a generation of the
  workspace, and take it back when the worker ends or is lost.  Records of the store are canonical
  JSON (\<open>src/kernel\<close>), and files that several processes share are guarded by \<open>src/lib/path-lock.ts\<close>.

  \<^bold>\<open>Permissions.\<close>
  \<^item> \<open>Decision_Table\<close>: rules, layered tables and the matcher of \<open>decision-table.ts\<close>, which refines a specification on
    the sets of rules that hit.  The locale \<open>verdict_source\<close> is what the engine relies on.
  \<^item> \<open>Policy_Engine\<close>: \<open>engine.ts\<close> and \<open>modes.ts\<close> with their texts; decisions are monotone in the mode.
  \<^item> \<open>Permissions_Grammar\<close>: parser and printer of rules; \<open>Workspace_Store\<close>: trust gate and persisted rules, with the
    locale \<open>record_store\<close> for the files; \<open>Interactive_Policy\<close>: approvals, scopes and live decisions as a step
    relation, and that no history of approvals escapes the built-in denials.
  \<^item> \<open>Bash_Tokens\<close>, \<open>Bash_Wrappers\<close>, \<open>Bash_Inline\<close>, \<open>Bash_Analysis\<close>, \<open>Bash_Safety\<close>: \<open>bash-parse.ts\<close> in its order: the
    tokenizer, the wrapper commands that are skipped (locale \<open>index_scanner\<close>, one interpretation for each), the
    scripts inside a line, and the analyses the policy consults.  Recursion through nested scripts is bounded by the
    source at eight levels, which is the fuel here, and every other recursion has a measure.
  \<^item> \<open>Subjects\<close> joins the two sides: a line whose head, or the head of a nested script, is denied is denied.

  \<^bold>\<open>Model side.\<close>  \<open>Json_Repair\<close> and \<open>Model_Actions\<close> are the parser of model output (\<open>JSON.parse\<close> is an argument),
  \<open>Model_Retry\<close> the retry interpreter over the journal of a model operation, \<open>Context_Window\<close> the live context and
  its compaction.

  \<^bold>\<open>Transactions.\<close>  \<open>Tx_Types\<close> and \<open>Tx_Store\<close> are the records and the store on a model of the file system; a program is a
  function to a result and the trace of worlds a crash may leave.  \<open>Tx_Apply\<close>, \<open>Tx_Abort\<close>, \<open>Tx_Recovery\<close>,
  \<open>Tx_Coordinator\<close>, \<open>Tx_Inspect\<close> and \<open>Tx_Turn\<close> are the protocols in the files of the same names.  \<open>Tx_Logic\<close> is a logic of
  results and crash points; \<open>Tx_Crash\<close> and \<open>Tx_Converge\<close> use it to show that recovery settles an interrupted
  application, all or nothing; \<open>Tx_Rollback\<close> treats aborts and \<open>Tx_Gate\<close> what a turn applies and approval covers.

  \<^bold>\<open>Kernel.\<close>
  \<^item> \<open>Canonical_Time\<close>, \<open>Strict_Json\<close> and \<open>Canonical_Json\<close>: canonical times, the strict parser (its fuel, twice the length
    plus one, always suffices) and the serializer whose bytes are digested; the parser reads back what it writes.
  \<^item> \<open>Path_Lock\<close>: the lock directory with its lease, every call a process of its own; exclusion holds while no caller
    crashes or is slower than the timeout, and fails after a crash.
  \<^item> \<open>Kernel_Budget\<close>, \<open>Invocation_Journal\<close>, \<open>Kernel_State\<close>: counters, rows of the journal with the checks that SQLite
    makes, the tables an invocation reads, and the fence of canonical time.
  \<^item> \<open>Invocation_Ledger\<close>: the reducer, operation by operation.  A settlement has two parts, staged from a snapshot and
    committed later; \<open>settle_initial_invocation\<close> is the loop of at most eight rounds, with what others do in between as an
    argument.  \<open>Journal_Closure\<close>: what recovery checks of a journal.
  \<^item> \<open>Ledger_Facts\<close>, \<open>Ledger_Invariant\<close>, \<open>Ledger_Moves\<close>: the accepted graph, the invariant of a journal with its
    counters, and the abstract ledger \<open>ledger_move\<close>.  \<open>Ledger_Reducer\<close> and \<open>Ledger_Settlement\<close> show that every operation
    refines it; \<open>Ledger_System\<close> closes them under any sequence of steps; \<open>Ledger_Recovery\<close>, \<open>Ledger_Bounds\<close>,
    \<open>Ledger_Properties\<close> and \<open>Ledger_Outcomes\<close> draw the conclusions on concrete runs of \<open>Ledger_Sample\<close>.

  \<^bold>\<open>Workers.\<close>
  \<^item> \<open>Worker_Rows\<close>: the rows of launches and generations, their decoders (\<open>src/state/invariants.ts\<close>), the triggers of their
    tables (\<open>src/state/schema.ts\<close>) and their repositories, so that every write passes all three.
  \<^item> \<open>Worker_Lease\<close>: \<open>worker-launch.ts\<close> and \<open>workspace-transition.ts\<close>, from the registration of a generation to the activation,
    renewal and quiescence of a lease; \<open>Worker_Seal\<close>: sealing, with the proof of death of \<open>tool-checkpoint.ts\<close>, whose refresh
    has a measure; \<open>Worker_Preparation\<close>: \<open>worker-preparation.ts\<close>; \<open>Worker_Recovery\<close>: the fence of a lost worker and its
    probes in \<open>worker-recovery.ts\<close>; \<open>Worker_Retirement\<close>: the three ways a launch or a generation is retired otherwise.
    What an operation reads before its transaction comes from tables of its own, which may be older.
  \<^item> \<open>Lease_Invariant\<close>: the invariant of leases, the abstract machine \<open>view_step\<close> of a run (free, promised, held, fenced) and
    what stays true of any earlier tables.  \<open>Lease_Moves\<close>: the few kinds of change that keep it; \<open>Lease_Operations\<close>: every
    operation is one of them; \<open>Lease_System\<close>: any sequence of all operations that write launches or generations, with
    \<open>lease_elsewhere\<close> for the rest of the program.  \<open>Lease_Ledger\<close> shows that claims and preparations are such a rest and
    what a checked dispatch knows; \<open>Lease_Grant\<close> that an activation which meets its conditions is not refused by the tables.
    \<open>Lease_Properties\<close> draws the conclusions, on the run of two workers of \<open>Lease_Sample\<close>.

  \<^bold>\<open>Conventions.\<close>  A JavaScript string is a list of code units, of 8 bits where the code only looks at ASCII and of 16
  bits in the JSON theories.  An exception is the left side of a sum.  A number is an integer where the code keeps it
  safe, and the tests of \<open>Number.isSafeInteger\<close> are written out.  Clocks, random values, hashes, Unicode
  normalisation, number printing, git, validators and user prompts are arguments.  Content addresses of the ledger are
  ideal: the address of a settlement is the settlement.  Times of the ledger are milliseconds.  What typed callers of
  the reducer check or write enters as functions that read, or write other tables only.

  \<^bold>\<open>Not modelled.\<close>  Printing and terminal interface, HTTP clients and the decoding of provider streams, process
  supervision, sandboxes, sockets and handles of the operating system, the SQLite driver and its migrations are
  input and output.  Of the state store, the reducers of admission, agent steps, typed tools, input, stop and sessions and
  the allocation of child runs are left out: they enter the ledger as \<open>elsewhere\<close> and the leases as \<open>lease_elsewhere\<close>, which
  say what they must leave alone.  So are the store facade and the parts of the recovery closure on checkpoints,
  generations, launches and child runs, which the worker operations take as an argument, and the validators of retained
  evidence.  Of the recovery of a worker, the branch of a run that is being stopped is left out before its final
  transaction.  Sessions, hooks and skills are left out.
\<close>

end
